(* ===== verification/Rotom_Prelude.thy ===== *)
theory Rotom_Prelude
  imports Main "HOL-Library.Code_Target_Nat" "HOL-Library.List_Lexorder" "HOL-Library.Char_ord" "HOL-Library.Product_Lexorder"
begin

text \<open>
  Shared vocabulary of the development: the result and state-passing shapes in which every
  operation of the program is written, dictionaries in canonical (sorted) form, and the small
  textual predicates the program checks with regular expressions.
  \<^item> An operation that may raise is a value of a sum type, \<open>Inl\<close> the exception.
  \<^item> An operation that also changes the disk is a function from the disk to a result and the
    disk it leaves behind: an exception does not undo the writes made before it.
  \<^item> A JSON object with free keys is an association list with strictly increasing keys, the
    form in which the program stores it (\<open>sort_keys=True\<close>); two such lists are equal exactly
    when they map the same keys to the same values, as Python dictionaries are.
\<close>

named_theorems result_simps \<open>unfolding of sequenced results\<close>
named_theorems dict_simps \<open>lookup and domain of an updated dictionary\<close>
named_theorems preserved \<open>operations that keep an invariant of the state they pass\<close>

section \<open>Results\<close>

definition bindE :: "'e + 'a \<Rightarrow> ('a \<Rightarrow> 'e + 'b) \<Rightarrow> 'e + 'b" where
  "bindE r k = (case r of Inl e \<Rightarrow> Inl e | Inr x \<Rightarrow> k x)"

definition ensure :: "bool \<Rightarrow> 'e \<Rightarrow> 'e + unit" where
  "ensure b e = (if b then Inr () else Inl e)"

text \<open>The first failing check of a loop over a list decides.\<close>

fun checkE :: "('a \<Rightarrow> 'e + unit) \<Rightarrow> 'a list \<Rightarrow> 'e + unit" where
  "checkE f [] = Inr ()"
| "checkE f (x # xs) = bindE (f x) (\<lambda>_. checkE f xs)"

fun mapE :: "('a \<Rightarrow> 'e + 'b) \<Rightarrow> 'a list \<Rightarrow> 'e + 'b list" where
  "mapE f [] = Inr []"
| "mapE f (x # xs) = bindE (f x) (\<lambda>y. bindE (mapE f xs) (\<lambda>ys. Inr (y # ys)))"

lemma bindE_Inl [simp]: "bindE (Inl e) k = Inl e"
  and bindE_Inr [simp]: "bindE (Inr x) k = k x"
  by (simp_all add: bindE_def)

lemma bindE_eq_Inr [result_simps]: "bindE r k = Inr y \<longleftrightarrow> (\<exists>x. r = Inr x \<and> k x = Inr y)"
  by (cases r) auto

lemma bindE_eq_Inl: "bindE r k = Inl e \<longleftrightarrow> r = Inl e \<or> (\<exists>x. r = Inr x \<and> k x = Inl e)"
  by (cases r) auto

lemma ensure_eq_Inr [result_simps]: "ensure b e = Inr u \<longleftrightarrow> b"
  by (auto simp: ensure_def)

lemma Inr_eq_ensure [result_simps]: "Inr u = ensure b e \<longleftrightarrow> b"
  by (auto simp: ensure_def)

lemma ensure_eq_Inl: "ensure b e = Inl e' \<longleftrightarrow> \<not> b \<and> e' = e"
  by (auto simp: ensure_def)

lemma ensure_True [simp]: "ensure True e = Inr ()"
  and ensure_False [simp]: "ensure False e = Inl e"
  by (simp_all add: ensure_def)

lemma checkE_eq_Inr [result_simps]: "checkE f xs = Inr u \<longleftrightarrow> (\<forall>x\<in>set xs. f x = Inr ())"
  by (induction xs) (auto simp: result_simps)

lemma mapE_eq_Inr: "mapE f xs = Inr ys \<longleftrightarrow> list_all2 (\<lambda>x y. f x = Inr y) xs ys"
  by (induction xs arbitrary: ys) (auto simp: result_simps list_all2_Cons1)

section \<open>State passing\<close>

type_synonym ('s, 'e, 'a) io = "'s \<Rightarrow> ('e + 'a) \<times> 's"

definition returnS :: "'a \<Rightarrow> ('s, 'e, 'a) io" where
  "returnS x s = (Inr x, s)"

definition raiseS :: "'e \<Rightarrow> ('s, 'e, 'a) io" where
  "raiseS e s = (Inl e, s)"

definition bindS :: "('s, 'e, 'a) io \<Rightarrow> ('a \<Rightarrow> ('s, 'e, 'b) io) \<Rightarrow> ('s, 'e, 'b) io" where
  "bindS m k s = (case m s of (Inl e, t) \<Rightarrow> (Inl e, t) | (Inr x, t) \<Rightarrow> k x t)"

definition liftS :: "'e + 'a \<Rightarrow> ('s, 'e, 'a) io" where
  "liftS r s = (r, s)"

definition getS :: "('s \<Rightarrow> 'e + 'a) \<Rightarrow> ('s, 'e, 'a) io" where
  "getS f s = (f s, s)"

definition ensureS :: "bool \<Rightarrow> 'e \<Rightarrow> ('s, 'e, unit) io" where
  "ensureS b e s = (ensure b e, s)"

definition mapErrorS :: "('e \<Rightarrow> 'f) \<Rightarrow> ('s, 'e, 'a) io \<Rightarrow> ('s, 'f, 'a) io" where
  "mapErrorS h m s = (case m s of (Inl e, t) \<Rightarrow> (Inl (h e), t) | (Inr x, t) \<Rightarrow> (Inr x, t))"

lemma bindS_eq_Inr [result_simps]:
  "bindS m k s = (Inr y, u) \<longleftrightarrow> (\<exists>x t. m s = (Inr x, t) \<and> k x t = (Inr y, u))"
  by (auto simp: bindS_def split: prod.splits sum.splits)

lemma returnS_eq [result_simps]: "returnS x s = (r, t) \<longleftrightarrow> r = Inr x \<and> t = s"
  by (auto simp: returnS_def)

lemma raiseS_eq [result_simps]: "raiseS e s = (r, t) \<longleftrightarrow> r = Inl e \<and> t = s"
  by (auto simp: raiseS_def)

lemma liftS_eq [result_simps]: "liftS a s = (r, t) \<longleftrightarrow> a = r \<and> t = s"
  by (auto simp: liftS_def)

lemma getS_eq [result_simps]: "getS f s = (r, t) \<longleftrightarrow> f s = r \<and> t = s"
  by (auto simp: getS_def)

lemma ensureS_eq [result_simps]: "ensureS b e s = (r, t) \<longleftrightarrow> ensure b e = r \<and> t = s"
  by (auto simp: ensureS_def)

lemma mapErrorS_eq_Inr [result_simps]: "mapErrorS h m s = (Inr x, t) \<longleftrightarrow> m s = (Inr x, t)"
  by (auto simp: mapErrorS_def split: prod.splits sum.splits)

lemma snd_mapErrorS [simp]: "snd (mapErrorS h m s) = snd (m s)"
  by (auto simp: mapErrorS_def split: prod.splits sum.splits)

lemma snd_bindS: "snd (bindS m k s) = (case m s of (Inl e, t) \<Rightarrow> t | (Inr x, t) \<Rightarrow> snd (k x t))"
  by (auto simp: bindS_def split: prod.splits sum.splits)

text \<open>
  \<open>keeps P m\<close>: whatever \<open>m\<close> returns or raises, it leaves \<open>P\<close> true of the state.
\<close>

definition keeps :: "('s \<Rightarrow> bool) \<Rightarrow> ('s, 'e, 'a) io \<Rightarrow> bool" where
  "keeps P m \<longleftrightarrow> (\<forall>s. P s \<longrightarrow> P (snd (m s)))"

lemma keepsD: "keeps P m \<Longrightarrow> P s \<Longrightarrow> m s = (r, t) \<Longrightarrow> P t"
  by (metis keeps_def snd_conv)

lemma keeps_bindS [preserved]:
  assumes "keeps P m" and "\<And>x. keeps P (k x)"
  shows "keeps P (bindS m k)"
  unfolding keeps_def
proof (intro allI impI)
  fix s assume "P s"
  obtain r t where m: "m s = (r, t)" by (cases "m s")
  from assms(1) \<open>P s\<close> m have "P t" by (rule keepsD)
  with assms(2) show "P (snd (bindS m k s))"
    by (cases r) (auto simp: snd_bindS m keeps_def)
qed

lemma keeps_simple [preserved]:
  "keeps P (returnS x)" "keeps P (raiseS e)" "keeps P (liftS r)" "keeps P (getS f)"
  "keeps P (ensureS b e)"
  by (simp_all add: keeps_def returnS_def raiseS_def liftS_def getS_def ensureS_def)

lemma keeps_mapErrorS [preserved]: "keeps P m \<Longrightarrow> keeps P (mapErrorS h m)"
  by (simp add: keeps_def)

lemma keeps_if [preserved]: "keeps P a \<Longrightarrow> keeps P b \<Longrightarrow> keeps P (if c then a else b)"
  by simp

lemma keeps_at: "keeps P m \<Longrightarrow> P s \<Longrightarrow> P (snd (m s))"
  by (simp add: keeps_def)

lemma keeps_bind_at:
  assumes "P (snd (m s))" and "\<And>x. keeps P (k x)"
  shows "P (snd (bindS m k s))"
  using assms by (auto simp: snd_bindS keeps_def split: prod.splits sum.splits)

lemma keeps_bind_lift: "(\<And>x. a = Inr x \<Longrightarrow> keeps P (k x)) \<Longrightarrow> keeps P (bindS (liftS a) k)"
  by (cases a) (auto simp: keeps_def snd_bindS liftS_def)

lemma snd_simple [simp]:
  "snd (returnS x s) = s" "snd (raiseS e s) = s" "snd (liftS a s) = s" "snd (getS f s) = s" "snd (ensureS b e s) = s"
  by (simp_all add: returnS_def raiseS_def liftS_def getS_def ensureS_def)

section \<open>Dictionaries\<close>

fun dput :: "'k::linorder \<Rightarrow> 'v \<Rightarrow> ('k \<times> 'v) list \<Rightarrow> ('k \<times> 'v) list" where
  "dput k v [] = [(k, v)]"
| "dput k v ((l, w) # d) =
     (if k = l then (k, v) # d else if k < l then (k, v) # (l, w) # d else (l, w) # dput k v d)"

definition ddel :: "'k \<Rightarrow> ('k \<times> 'v) list \<Rightarrow> ('k \<times> 'v) list" where
  "ddel k d = filter (\<lambda>e. fst e \<noteq> k) d"

definition dict_ok :: "('k::linorder \<times> 'v) list \<Rightarrow> bool" where
  "dict_ok d \<longleftrightarrow> sorted_wrt (<) (map fst d)"

lemma dict_ok_Nil [simp]: "dict_ok []"
  by (simp add: dict_ok_def)

lemma dict_ok_Cons [simp]: "dict_ok ((k, v) # d) \<longleftrightarrow> (\<forall>l\<in>fst ` set d. k < l) \<and> dict_ok d"
  by (simp add: dict_ok_def)

lemma map_of_dput [simp, dict_simps]: "map_of (dput k v d) = (map_of d)(k \<mapsto> v)"
  by (induction k v d rule: dput.induct) (auto simp: fun_eq_iff)

lemma keys_dput [simp, dict_simps]: "fst ` set (dput k v d) = insert k (fst ` set d)"
  by (induction k v d rule: dput.induct) auto

lemma dict_ok_dput [simp]: "dict_ok d \<Longrightarrow> dict_ok (dput k v d)"
proof (induction k v d rule: dput.induct)
  case (2 k v l w d)
  then show ?case
    by (cases k l rule: linorder_cases) (auto simp del: keys_dput simp: keys_dput image_iff dest: less_trans)
qed simp

lemma dict_ok_distinct: "dict_ok d \<Longrightarrow> distinct (map fst d)"
  by (simp add: dict_ok_def strict_sorted_iff)

lemma map_of_ddel [simp, dict_simps]: "map_of (ddel k d) = (map_of d)(k := None)"
  by (induction d) (auto simp: ddel_def fun_eq_iff)

lemma keys_ddel [simp, dict_simps]: "fst ` set (ddel k d) = fst ` set d - {k}"
  by (auto simp: ddel_def)

lemma dict_ok_ddel [simp]: "dict_ok d \<Longrightarrow> dict_ok (ddel k d)"
  by (induction d) (auto simp: ddel_def)

lemma dict_in_iff: "dict_ok d \<Longrightarrow> (k, v) \<in> set d \<longleftrightarrow> map_of d k = Some v"
  by (simp add: dict_ok_distinct map_of_eq_Some_iff)

lemma set_dput: "dict_ok d \<Longrightarrow> set (dput k v d) = insert (k, v) {e \<in> set d. fst e \<noteq> k}"
  by (rule set_eqI) (auto simp: dict_in_iff split: if_splits)

lemma set_dput_subset: "set (dput k v d) \<subseteq> insert (k, v) (set d)"
  by (induction k v d rule: dput.induct) auto

lemma dict_keys_eq:
  assumes "dict_ok d" "dict_ok d'" "fst ` set d = fst ` set d'"
  shows "map fst d = map fst d'"
  using assms by (intro strict_sorted_equal) (simp_all add: dict_ok_def)

lemma dict_ext:
  assumes "dict_ok d" "dict_ok d'" "map_of d = map_of d'"
  shows "d = d'"
proof -
  have "fst ` set d = fst ` set d'"
    using assms(3) by (simp flip: dom_map_of_conv_image_fst)
  with assms(1,2) have k: "map fst d = map fst d'" by (rule dict_keys_eq)
  then have "length d = length d'" by (metis length_map)
  then show ?thesis
  proof (rule nth_equalityI)
    fix i assume i: "i < length d"
    with \<open>length d = length d'\<close> have j: "i < length d'" by simp
    from i j k have f: "fst (d ! i) = fst (d' ! i)" by (metis nth_map)
    have "map_of d (fst (d ! i)) = Some (snd (d ! i))"
      using i assms(1) by (metis dict_in_iff nth_mem prod.collapse)
    moreover have "map_of d' (fst (d' ! i)) = Some (snd (d' ! i))"
      using j assms(2) by (metis dict_in_iff nth_mem prod.collapse)
    ultimately show "d ! i = d' ! i" using f assms(3) by (simp add: prod_eq_iff)
  qed
qed

lemma map_of_mem: "map_of d k = Some v \<Longrightarrow> (k, v) \<in> set d"
  by (rule map_of_SomeD)

lemma map_of_None_keys: "map_of d k = None \<longleftrightarrow> k \<notin> fst ` set d"
  by (rule map_of_eq_None_iff)

section \<open>Characters and identifiers\<close>

text \<open>
  Strings are lists of characters with code points below 256. The program treats every code
  point above 159 alike in the checks modelled here, and a \<open>string\<close> holds no lone surrogate,
  so the \<open>encode("utf-8")\<close> attempts that guard against them succeed.
\<close>

definition code :: "char \<Rightarrow> nat" where
  "code c = of_char c"

definition control_char :: "char \<Rightarrow> bool" where
  "control_char c \<longleftrightarrow> code c < 32 \<or> code c = 127"

definition hex_char :: "char \<Rightarrow> bool" where
  "hex_char c \<longleftrightarrow> (97 \<le> code c \<and> code c \<le> 102) \<or> (48 \<le> code c \<and> code c \<le> 57)"

definition is_hex :: "nat \<Rightarrow> string \<Rightarrow> bool" where
  "is_hex n s \<longleftrightarrow> length s = n \<and> list_all hex_char s"

lemma list_all_remdups_adj: "list_all P (remdups_adj xs) = list_all P xs"
  by (simp add: list_all_iff)

text \<open>Evaluation checks a run of equal characters once.\<close>

lemma is_hex_code [code]: "is_hex n s \<longleftrightarrow> length s = n \<and> list_all hex_char (remdups_adj s)"
  by (simp add: is_hex_def list_all_remdups_adj)

definition alpha_char :: "char \<Rightarrow> bool" where
  "alpha_char c \<longleftrightarrow> (65 \<le> code c \<and> code c \<le> 90) \<or> (97 \<le> code c \<and> code c \<le> 122)"

definition digit_char :: "char \<Rightarrow> bool" where
  "digit_char c \<longleftrightarrow> 48 \<le> code c \<and> code c \<le> 57"

definition alnum_char :: "char \<Rightarrow> bool" where
  "alnum_char c \<longleftrightarrow> alpha_char c \<or> digit_char c"

fun split_on :: "char \<Rightarrow> string \<Rightarrow> string list" where
  "split_on c [] = [[]]"
| "split_on c (x # xs) =
     (if x = c then [] # split_on c xs
      else (case split_on c xs of [] \<Rightarrow> [[x]] | p # ps \<Rightarrow> (x # p) # ps))"

lemma split_on_nonempty [simp]: "split_on c xs \<noteq> []"
  by (induction xs) (auto split: list.splits)

lemma is_hex_length: "is_hex n s \<Longrightarrow> length s = n"
  by (simp add: is_hex_def)

section \<open>Phases\<close>

text \<open>
  The contract of every record with a phase: the transition table only moves up a rank. The
  clients get that a record never returns to a phase it left, and that the number of changes is
  bounded.
\<close>

locale phase_machine =
  fixes successors :: "'p \<Rightarrow> 'p list"
    and rank :: "'p \<Rightarrow> nat"
  assumes rises: "q \<in> set (successors p) \<Longrightarrow> rank p < rank q"
begin

definition steps :: "'p \<Rightarrow> 'p \<Rightarrow> bool" where
  "steps p q \<longleftrightarrow> q = p \<or> q \<in> set (successors p)"

inductive history :: "'p list \<Rightarrow> bool" where
  single: "history [p]"
| extend: "history (p # ps) \<Longrightarrow> q \<in> set (successors p) \<Longrightarrow> history (q # p # ps)"

lemma history_ranks: "history ps \<Longrightarrow> sorted_wrt (\<lambda>q p. rank p < rank q) ps"
proof (induction rule: history.induct)
  case (extend p ps q)
  then show ?case using rises [of q p] by (auto intro: less_trans)
qed simp

lemma history_distinct: "history ps \<Longrightarrow> distinct ps"
proof -
  have "sorted_wrt (\<lambda>q p. rank p < rank q) qs \<Longrightarrow> distinct qs" for qs
    by (induction qs) auto
  then show "history ps \<Longrightarrow> distinct ps" using history_ranks by blast
qed

lemma history_length: "history ps \<Longrightarrow> length ps \<le> Suc (rank (hd ps))"
proof (induction rule: history.induct)
  case (extend p ps q)
  then show ?case using rises [of q p] by simp
qed simp

lemma steps_rank: "steps p q \<Longrightarrow> rank p \<le> rank q"
  by (auto simp: steps_def dest: rises)

lemma steps_back: "steps p q \<Longrightarrow> steps q p \<Longrightarrow> q = p"
  using rises [of q p] rises [of p q] by (auto simp: steps_def)

lemma steps_terminal: "successors p = [] \<Longrightarrow> steps p q \<Longrightarrow> q = p"
  by (simp add: steps_def)

text \<open>A record kept in a state and changed only along the table.\<close>

inductive follows :: "'p \<Rightarrow> 'p \<Rightarrow> bool" where
  stay: "follows p p"
| move: "follows p q \<Longrightarrow> steps q r \<Longrightarrow> follows p r"

lemma follows_rank: "follows p q \<Longrightarrow> rank p \<le> rank q"
proof (induction rule: follows.induct)
  case (move p q r)
  then show ?case using steps_rank [of q r] by simp
qed simp

lemma follows_terminal: "follows p q \<Longrightarrow> successors p = [] \<Longrightarrow> q = p"
proof (induction rule: follows.induct)
  case (move p q r)
  then show ?case using steps_terminal by blast
qed simp

lemma follows_left: "follows p q \<Longrightarrow> rank p < rank q \<Longrightarrow> \<not> follows q p"
  using follows_rank [of q p] by auto

end

end
