(* ===== verification/Json_Codec.thy ===== *)
theory Json_Codec
  imports Rotom_Prelude
begin

text \<open>
  The canonical JSON text behind every digest, plan identifier and immutable record of the
  program: keys sorted, no spaces, no escapes beyond the mandatory ones, one final newline, then
  UTF-8 (\<open>json_bytes\<close> in \<open>termcfg/work_state.py\<close> and \<open>agentcfg/deployment.py\<close>, \<open>_encode\<close> in
  \<open>agentcfg/run_owners.py\<close>, \<open>_dump\<close> in \<open>agentcfg/maintenance.py\<close>).
  The main result is that the text determines the value: two canonical values with the same
  bytes are equal, so comparing encodings compares values and two different values share a
  digest only if SHA-256 collides. SHA-256 itself is a function parameter.
\<close>

datatype json =
    JNull
  | JBool bool
  | JInt int
  | JStr string
  | JArr "json list"
  | JObj "(string \<times> json) list"

section \<open>Text\<close>

definition digit_of :: "nat \<Rightarrow> char" where
  "digit_of d = char_of (48 + d)"

fun show_nat :: "nat \<Rightarrow> string" where
  "show_nat n = (if n < 10 then [digit_of n] else show_nat (n div 10) @ [digit_of (n mod 10)])"

declare show_nat.simps [simp del]

definition show_int :: "int \<Rightarrow> string" where
  "show_int i = (if i < 0 then CHR ''-'' # show_nat (nat (- i)) else show_nat (nat i))"

definition hex_of :: "nat \<Rightarrow> char" where
  "hex_of d = (if d < 10 then char_of (48 + d) else char_of (87 + d))"

definition dump_char :: "char \<Rightarrow> string" where
  "dump_char c =
     (if c = CHR 0x22 then [CHR 0x5C, CHR 0x22]
      else if c = CHR 0x5C then [CHR 0x5C, CHR 0x5C]
      else if c = CHR 0x0A then [CHR 0x5C, CHR ''n'']
      else if c = CHR 0x0D then [CHR 0x5C, CHR ''r'']
      else if c = CHR 0x09 then [CHR 0x5C, CHR ''t'']
      else if c = CHR 0x0C then [CHR 0x5C, CHR ''f'']
      else if c = CHR 0x08 then [CHR 0x5C, CHR ''b'']
      else if code c < 32
        then [CHR 0x5C, CHR ''u'', CHR ''0'', CHR ''0'', hex_of (code c div 16), hex_of (code c mod 16)]
      else [c])"

definition dump_str :: "string \<Rightarrow> string" where
  "dump_str s = CHR 0x22 # concat (map dump_char s) @ [CHR 0x22]"

fun join :: "string \<Rightarrow> string list \<Rightarrow> string" where
  "join sep [] = []"
| "join sep [x] = x"
| "join sep (x # xs) = x @ sep @ join sep xs"

definition dump_obj :: "(string \<times> string) list \<Rightarrow> string" where
  "dump_obj kts =
     ''{'' @ join '','' (map (\<lambda>(k, t). dump_str k @ '':'' @ t) (sort_key fst kts)) @ ''}''"

fun dumps :: "json \<Rightarrow> string" where
  "dumps JNull = ''null''"
| "dumps (JBool b) = (if b then ''true'' else ''false'')"
| "dumps (JInt i) = show_int i"
| "dumps (JStr s) = dump_str s"
| "dumps (JArr xs) = ''['' @ join '','' (map dumps xs) @ '']''"
| "dumps (JObj kvs) = dump_obj (map (\<lambda>(k, v). (k, dumps v)) kvs)"

definition utf8_char :: "char \<Rightarrow> string" where
  "utf8_char c = (if code c < 128 then [c] else [char_of (192 + code c div 64), char_of (128 + code c mod 64)])"

definition utf8 :: "string \<Rightarrow> string" where
  "utf8 s = concat (map utf8_char s)"

definition json_bytes :: "json \<Rightarrow> string" where
  "json_bytes v = utf8 (dumps v @ [CHR 0x0A])"

text \<open>Evaluation looks at the bits of a character instead of computing its code point.\<close>

fun low_char :: "char \<Rightarrow> bool" where
  "low_char (Char b0 b1 b2 b3 b4 b5 b6 b7) = (\<not> b5 \<and> \<not> b6 \<and> \<not> b7)"

fun ascii_char :: "char \<Rightarrow> bool" where
  "ascii_char (Char b0 b1 b2 b3 b4 b5 b6 b7) = (\<not> b7)"

lemma low_char_code: "low_char c \<longleftrightarrow> code c < 32"
  by (cases c) (auto simp: code_def of_char_def horner_sum_simps of_bool_def)

lemma ascii_char_code: "ascii_char c \<longleftrightarrow> code c < 128"
  by (cases c) (auto simp: code_def of_char_def horner_sum_simps of_bool_def)

lemma dump_char_code [code]:
  "dump_char c =
     (if low_char c then
        (if c = CHR 0x0A then [CHR 0x5C, CHR ''n'']
         else if c = CHR 0x0D then [CHR 0x5C, CHR ''r'']
         else if c = CHR 0x09 then [CHR 0x5C, CHR ''t'']
         else if c = CHR 0x0C then [CHR 0x5C, CHR ''f'']
         else if c = CHR 0x08 then [CHR 0x5C, CHR ''b'']
         else [CHR 0x5C, CHR ''u'', CHR ''0'', CHR ''0'', hex_of (code c div 16), hex_of (code c mod 16)])
      else if c = CHR 0x22 then [CHR 0x5C, CHR 0x22] else if c = CHR 0x5C then [CHR 0x5C, CHR 0x5C] else [c])"
  unfolding dump_char_def low_char_code [symmetric] by simp

lemma utf8_char_code [code]:
  "utf8_char c = (if ascii_char c then [c] else [char_of (192 + code c div 64), char_of (128 + code c mod 64)])"
  unfolding utf8_char_def ascii_char_code ..

text \<open>\<open>sha\<close> stands for \<open>hashlib.sha256(_).hexdigest()\<close>.\<close>

definition digest :: "(string \<Rightarrow> string) \<Rightarrow> json \<Rightarrow> string" where
  "digest sha v = sha (json_bytes v)"

text \<open>
  A value is canonical when every object in it has strictly increasing keys: the value the
  decoder of such a text returns.
\<close>

fun canonical :: "json \<Rightarrow> bool" where
  "canonical (JArr xs) = list_all canonical xs"
| "canonical (JObj kvs) = (dict_ok kvs \<and> list_all (\<lambda>(k, v). canonical v) kvs)"
| "canonical _ = True"

section \<open>The text determines the value\<close>

subsection \<open>Numbers\<close>

lemma code_digit_of: "d < 10 \<Longrightarrow> code (digit_of d) = 48 + d"
  by (simp add: code_def digit_of_def)

lemma digit_char_digit_of: "d < 10 \<Longrightarrow> digit_char (digit_of d)"
  by (simp add: digit_char_def code_digit_of)

lemma digit_of_inj: "d < 10 \<Longrightarrow> e < 10 \<Longrightarrow> digit_of d = digit_of e \<Longrightarrow> d = e"
  by (metis add_left_cancel code_digit_of)

lemma show_nat_digits: "list_all digit_char (show_nat n)"
proof (induction n rule: show_nat.induct)
  case (1 n)
  then show ?case
    by (subst show_nat.simps) (auto simp: digit_char_digit_of)
qed

lemma show_nat_nonempty [simp]: "show_nat n \<noteq> []"
  by (subst show_nat.simps) simp

lemma show_nat_small: "n < 10 \<Longrightarrow> show_nat n = [digit_of n]"
  by (simp add: show_nat.simps)

lemma show_nat_big: "\<not> n < 10 \<Longrightarrow> show_nat n = show_nat (n div 10) @ [digit_of (n mod 10)]"
  by (subst show_nat.simps) simp

lemma show_nat_inj: "show_nat m = show_nat n \<Longrightarrow> m = n"
proof (induction m arbitrary: n rule: show_nat.induct)
  case (1 m)
  show ?case
  proof (cases "m < 10"; cases "n < 10")
    assume "m < 10" "n < 10"
    with "1.prems" show ?thesis
      using digit_of_inj by (simp add: show_nat.simps)
  next
    assume "m < 10" "\<not> n < 10"
    with "1.prems" show ?thesis
      using show_nat_nonempty [of "n div 10"] by (simp add: show_nat_small show_nat_big del: show_nat_nonempty)
  next
    assume "\<not> m < 10" "n < 10"
    with "1.prems" show ?thesis
      using show_nat_nonempty [of "m div 10"] by (simp add: show_nat_small show_nat_big del: show_nat_nonempty)
  next
    assume big: "\<not> m < 10" "\<not> n < 10"
    with "1.prems" have "show_nat (m div 10) = show_nat (n div 10)"
      and d: "digit_of (m mod 10) = digit_of (n mod 10)"
      by (simp_all add: show_nat_big)
    from "1.IH" [OF big(1) this(1)] have "m div 10 = n div 10" .
    moreover from d have "m mod 10 = n mod 10"
      by (rule digit_of_inj [rotated -1]) simp_all
    ultimately show ?thesis by (metis div_mod_decomp)
  qed
qed

definition stops :: "string \<Rightarrow> bool" where
  "stops r \<longleftrightarrow> r = [] \<or> \<not> digit_char (hd r)"

lemma digits_split:
  assumes "list_all digit_char xs" "list_all digit_char ys" "stops r" "stops s" "xs @ r = ys @ s"
  shows "xs = ys \<and> r = s"
  using assms
proof (induction xs arbitrary: ys)
  case Nil
  then show ?case by (cases ys) (auto simp: stops_def)
next
  case (Cons x xs)
  then show ?case by (cases ys) (auto simp: stops_def)
qed

lemma not_digit [simp]:
  "\<not> digit_char CHR ''-''" "\<not> digit_char CHR '',''" "\<not> digit_char CHR '']''" "\<not> digit_char CHR ''}''"
  "\<not> digit_char CHR 0x0A"
  by (simp_all add: digit_char_def code_def)

lemma show_nat_split:
  "stops r \<Longrightarrow> stops s \<Longrightarrow> show_nat m @ r = show_nat n @ s \<Longrightarrow> m = n \<and> r = s"
  using digits_split [OF show_nat_digits show_nat_digits] show_nat_inj by blast

lemma show_nat_hd: "\<exists>d ds. show_nat n = d # ds \<and> digit_char d"
  using show_nat_digits [of n] by (cases "show_nat n") auto

lemma show_nat_minus: "show_nat n @ r \<noteq> CHR ''-'' # xs"
  using show_nat_hd [of n] by auto

lemma show_int_split:
  assumes "stops r" "stops s" "show_int i @ r = show_int j @ s"
  shows "i = j \<and> r = s"
proof (cases "i < 0"; cases "j < 0")
  assume neg: "i < 0" "j < 0"
  with assms(3) have "show_nat (nat (- i)) @ r = show_nat (nat (- j)) @ s"
    by (simp add: show_int_def)
  from show_nat_split [OF assms(1,2) this] neg show ?thesis by linarith
next
  assume pos: "\<not> i < 0" "\<not> j < 0"
  with assms(3) have "show_nat (nat i) @ r = show_nat (nat j) @ s"
    by (simp add: show_int_def)
  from show_nat_split [OF assms(1,2) this] pos show ?thesis by linarith
next
  assume "i < 0" "\<not> j < 0"
  with assms(3) show ?thesis
    using show_nat_minus [of "nat j" s "show_nat (nat (- i)) @ r"] by (simp add: show_int_def)
next
  assume "\<not> i < 0" "j < 0"
  with assms(3) show ?thesis
    using show_nat_minus [of "nat i" r "show_nat (nat (- j)) @ s"] by (simp add: show_int_def)
qed

lemma show_int_hd: "\<exists>d ds. show_int i = d # ds \<and> (d = CHR ''-'' \<or> digit_char d)"
  using show_nat_hd [of "nat i"] by (auto simp: show_int_def)

subsection \<open>Strings\<close>

lemma hex_of_inj: "d < 16 \<Longrightarrow> e < 16 \<Longrightarrow> hex_of d = hex_of e \<Longrightarrow> d = e"
  by (drule arg_cong [where f = code]) (simp add: hex_of_def code_def split: if_splits)

lemma code_inj: "code c = code d \<Longrightarrow> c = d"
  by (simp add: code_def)

lemma dump_char_split: "dump_char c @ r = dump_char d @ s \<Longrightarrow> c = d \<and> r = s"
proof -
  have u: "code c = code d" if "code c < 32" "code d < 32"
    "hex_of (code c div 16) = hex_of (code d div 16)" "hex_of (code c mod 16) = hex_of (code d mod 16)"
  proof -
    have "code c div 16 = code d div 16" using that by (intro hex_of_inj) simp_all
    moreover have "code c mod 16 = code d mod 16" using that by (intro hex_of_inj) simp_all
    ultimately show ?thesis by (metis div_mod_decomp)
  qed
  show "dump_char c @ r = dump_char d @ s \<Longrightarrow> c = d \<and> r = s"
    by (auto simp: dump_char_def intro: code_inj u split: if_splits)
qed

lemma dump_char_hd: "\<exists>x xs. dump_char c = x # xs \<and> x \<noteq> CHR 0x22"
  by (auto simp: dump_char_def)

lemma dump_str_split: "dump_str t @ r = dump_str u @ s \<Longrightarrow> t = u \<and> r = s"
proof (induction t arbitrary: u)
  case Nil
  then show ?case
    using dump_char_hd [of "hd u"] by (cases u) (auto simp: dump_str_def)
next
  case (Cons c t)
  then show ?case
  proof (cases u)
    case Nil
    with Cons.prems show ?thesis using dump_char_hd [of c] by (auto simp: dump_str_def)
  next
    case (Cons d v)
    with Cons.prems
    have "dump_char c @ concat (map dump_char t) @ [CHR 0x22] @ r =
          dump_char d @ concat (map dump_char v) @ [CHR 0x22] @ s"
      by (simp add: dump_str_def)
    from dump_char_split [OF this] have "c = d"
      and "dump_str t @ r = dump_str v @ s" by (simp_all add: dump_str_def)
    with Cons.IH Cons show ?thesis by simp
  qed
qed

subsection \<open>Sequences\<close>

lemma join_Cons: "join sep (x # xs) = x @ concat (map (\<lambda>y. sep @ y) xs)"
proof (induction xs arbitrary: x)
  case (Cons y ys)
  then show ?case by simp
qed simp

lemma stops_simps [simp]: "stops []" "stops (c # r) \<longleftrightarrow> \<not> digit_char c"
  by (simp_all add: stops_def)

definition splits_at :: "('a \<Rightarrow> string) \<Rightarrow> 'a \<Rightarrow> 'a \<Rightarrow> bool" where
  "splits_at f x y \<longleftrightarrow>
     (\<forall>r s. stops r \<longrightarrow> stops s \<longrightarrow> f x @ r = f y @ s \<longrightarrow> x = y \<and> r = s)"

lemma splits_atD: "splits_at f x y \<Longrightarrow> f x @ r = f y @ s \<Longrightarrow> stops r \<Longrightarrow> stops s \<Longrightarrow> x = y \<and> r = s"
  unfolding splits_at_def by blast

lemma tail_split:
  assumes "\<forall>x\<in>set xs. \<forall>y\<in>set ys. splits_at f x y" "c \<noteq> CHR '',''" "\<not> digit_char c"
    and "concat (map (\<lambda>x. CHR '','' # f x) xs) @ c # r = concat (map (\<lambda>x. CHR '','' # f x) ys) @ c # s"
  shows "xs = ys \<and> r = s"
  using assms(1,4)
proof (induction xs arbitrary: ys)
  case Nil
  with assms(2) show ?case by (cases ys) auto
next
  case (Cons x xs)
  show ?case
  proof (cases ys)
    case Nil
    with Cons.prems assms(2) show ?thesis by auto
  next
    case (Cons y zs)
    have st: "stops (concat (map (\<lambda>x. CHR '','' # f x) us) @ c # q)" for us q
      using assms(3) by (cases us) simp_all
    from Cons.prems Cons have "splits_at f x y" by simp
    from splits_atD [OF this _ st st] Cons.prems(2) Cons
    have "x = y" "concat (map (\<lambda>x. CHR '','' # f x) xs) @ c # r = concat (map (\<lambda>x. CHR '','' # f x) zs) @ c # s"
      by auto
    with Cons.IH [of zs] Cons.prems(1) Cons show ?thesis by simp
  qed
qed

lemma join_split:
  assumes el: "\<forall>x\<in>set xs. \<forall>y\<in>set ys. splits_at f x y" "c \<noteq> CHR '',''" "\<not> digit_char c"
    and hd: "\<forall>x\<in>set xs \<union> set ys. \<exists>d ds. f x = d # ds \<and> d \<noteq> c"
    and eq: "join '','' (map f xs) @ c # r = join '','' (map f ys) @ c # s"
  shows "xs = ys \<and> r = s"
proof (cases xs; cases ys)
  fix x xs' y ys' assume xs: "xs = x # xs'" "ys = y # ys'"
  have st: "stops (concat (map (\<lambda>x. CHR '','' # f x) us) @ c # q)" for us q
    using el(3) by (cases us) simp_all
  from el xs have "splits_at f x y" by simp
  from splits_atD [OF this _ st st] eq xs
  have "x = y" "concat (map (\<lambda>x. CHR '','' # f x) xs') @ c # r = concat (map (\<lambda>x. CHR '','' # f x) ys') @ c # s"
    by (auto simp: join_Cons comp_def)
  with tail_split [OF _ el(2,3), of xs' ys' f] el(1) xs show ?thesis by auto
next
  fix y ys' assume "xs = []" "ys = y # ys'"
  with eq hd show ?thesis by (auto simp: join_Cons)
next
  fix x xs' assume "xs = x # xs'" "ys = []"
  with eq hd show ?thesis by (auto simp: join_Cons)
qed (use eq in simp)

subsection \<open>Values\<close>

definition dump_entry :: "string \<times> json \<Rightarrow> string" where
  "dump_entry = (\<lambda>(k, v). dump_str k @ '':'' @ dumps v)"

lemma sort_key_sorted: "dict_ok kvs \<Longrightarrow> sort_key fst kvs = kvs"
  by (rule sort_key_id_if_sorted) (auto simp: dict_ok_def strict_sorted_iff)

lemma dumps_obj: "dict_ok kvs \<Longrightarrow> dumps (JObj kvs) = ''{'' @ join '','' (map dump_entry kvs) @ ''}''"
proof -
  assume ok: "dict_ok kvs"
  have "dict_ok (map (\<lambda>(k, v). (k, dumps v)) kvs)"
    using ok by (simp add: dict_ok_def case_prod_beta comp_def)
  then show ?thesis
    by (simp add: dump_obj_def sort_key_sorted dump_entry_def case_prod_unfold comp_def)
qed

text \<open>The first character tells the kind of the value.\<close>

fun starts_with :: "json \<Rightarrow> char \<Rightarrow> bool" where
  "starts_with JNull c \<longleftrightarrow> c = CHR ''n''"
| "starts_with (JBool b) c \<longleftrightarrow> c = (if b then CHR ''t'' else CHR ''f'')"
| "starts_with (JInt i) c \<longleftrightarrow> c = CHR ''-'' \<or> digit_char c"
| "starts_with (JStr s) c \<longleftrightarrow> c = CHR 0x22"
| "starts_with (JArr xs) c \<longleftrightarrow> c = CHR ''[''"
| "starts_with (JObj kvs) c \<longleftrightarrow> c = CHR ''{''"

lemma dumps_hd: "\<exists>d ds. dumps v = d # ds \<and> starts_with v d"
  using show_int_hd by (cases v) (auto simp: dump_str_def dump_obj_def)

lemma more_not_digit [simp]:
  "\<not> digit_char CHR ''n''" "\<not> digit_char CHR ''t''" "\<not> digit_char CHR ''f''"
  "\<not> digit_char CHR 0x22" "\<not> digit_char CHR ''[''" "\<not> digit_char CHR ''{''" "\<not> digit_char CHR '':''"
  by (simp_all add: digit_char_def code_def)

lemma same_start:
  assumes "dumps v @ r = dumps w @ s"
  shows "\<exists>c. starts_with v c \<and> starts_with w c"
  using dumps_hd [of v] dumps_hd [of w] assms by auto

lemma entry_splits: "splits_at dumps (snd p) (snd q) \<Longrightarrow> splits_at dump_entry p q"
  unfolding splits_at_def
proof (intro allI impI)
  fix r s
  assume IH: "\<forall>r s. stops r \<longrightarrow> stops s \<longrightarrow> dumps (snd p) @ r = dumps (snd q) @ s \<longrightarrow> snd p = snd q \<and> r = s"
    and st: "stops r" "stops s" and "dump_entry p @ r = dump_entry q @ s"
  then have eq: "dump_str (fst p) @ '':'' @ dumps (snd p) @ r = dump_str (fst q) @ '':'' @ dumps (snd q) @ s"
    by (simp add: dump_entry_def case_prod_beta)
  from dump_str_split [OF this] have "fst p = fst q" "dumps (snd p) @ r = dumps (snd q) @ s" by simp_all
  with IH st show "p = q \<and> r = s" by (simp add: prod_eq_iff)
qed

lemma dumps_splits: "canonical v \<Longrightarrow> canonical w \<Longrightarrow> splits_at dumps v w"
proof (induction v arbitrary: w)
  case (JArr xs)
  have el: "\<forall>x\<in>set xs. \<forall>y\<in>set ys. splits_at dumps x y" if "list_all canonical ys" for ys
    using JArr that by (auto simp: list_all_iff)
  have hd: "\<forall>x\<in>set xs \<union> set ys. \<exists>d ds. dumps x = d # ds \<and> d \<noteq> CHR '']''" for ys
  proof
    fix x
    show "\<exists>d ds. dumps x = d # ds \<and> d \<noteq> CHR '']''"
      using dumps_hd [of x] by (cases x) (auto split: if_splits)
  qed
  show ?case
    unfolding splits_at_def
  proof (intro allI impI)
    fix r s assume "dumps (JArr xs) @ r = dumps w @ s"
    with same_start [OF this] obtain ys where w: "w = JArr ys"
      by (cases w) (auto split: if_splits)
    with \<open>dumps (JArr xs) @ r = dumps w @ s\<close>
    have "join '','' (map dumps xs) @ CHR '']'' # r = join '','' (map dumps ys) @ CHR '']'' # s" by simp
    then have "xs = ys \<and> r = s"
      using JArr.prems w by (intro join_split [OF el _ _ hd]) simp_all
    with w show "JArr xs = w \<and> r = s" by simp
  qed
next
  case (JObj kvs)
  have el: "\<forall>x\<in>set kvs. \<forall>y\<in>set kws. splits_at dump_entry x y" if "list_all (\<lambda>(k, v). canonical v) kws" for kws
  proof (intro ballI entry_splits)
    fix p q assume pq: "p \<in> set kvs" "q \<in> set kws"
    with JObj.prems that have "canonical (snd p)" "canonical (snd q)" by (auto simp: list_all_iff)
    with JObj.IH [of p "snd p"] pq show "splits_at dumps (snd p) (snd q)" by (simp add: snds.simps prod_eq_iff)
  qed
  have hd: "\<forall>x\<in>set kvs \<union> set kws. \<exists>d ds. dump_entry x = d # ds \<and> d \<noteq> CHR ''}''" for kws
    by (auto simp: dump_entry_def dump_str_def)
  show ?case
    unfolding splits_at_def
  proof (intro allI impI)
    fix r s assume "dumps (JObj kvs) @ r = dumps w @ s"
    with same_start [OF this] obtain kws where w: "w = JObj kws"
      by (cases w) (auto split: if_splits)
    with \<open>dumps (JObj kvs) @ r = dumps w @ s\<close> JObj.prems
    have "join '','' (map dump_entry kvs) @ CHR ''}'' # r = join '','' (map dump_entry kws) @ CHR ''}'' # s"
      by (simp add: dumps_obj del: dumps.simps)
    then have "kvs = kws \<and> r = s"
      using JObj.prems w by (intro join_split [OF el _ _ hd]) simp_all
    with w show "JObj kvs = w \<and> r = s" by simp
  qed
next
  case (JInt i)
  show ?case
    unfolding splits_at_def
  proof (intro allI impI)
    fix r s assume st: "stops r" "stops s" and eq: "dumps (JInt i) @ r = dumps w @ s"
    with same_start [OF eq] obtain j where w: "w = JInt j"
      by (cases w) (auto split: if_splits)
    from eq w have "show_int i @ r = show_int j @ s" by simp
    from show_int_split [OF st this] w show "JInt i = w \<and> r = s" by simp
  qed
next
  case (JStr t)
  show ?case
    unfolding splits_at_def
  proof (intro allI impI)
    fix r s assume eq: "dumps (JStr t) @ r = dumps w @ s"
    with same_start [OF eq] obtain u where "w = JStr u"
      by (cases w) (auto split: if_splits)
    with eq have "dump_str t @ r = dump_str u @ s" by simp
    from dump_str_split [OF this] \<open>w = JStr u\<close> show "JStr t = w \<and> r = s" by simp
  qed
next
  case JNull
  show ?case
    unfolding splits_at_def
  proof (intro allI impI)
    fix r s assume eq: "dumps JNull @ r = dumps w @ s"
    with same_start [OF eq] show "JNull = w \<and> r = s" by (cases w) (auto split: if_splits)
  qed
next
  case (JBool b)
  show ?case
    unfolding splits_at_def
  proof (intro allI impI)
    fix r s assume eq: "dumps (JBool b) @ r = dumps w @ s"
    with same_start [OF eq] show "JBool b = w \<and> r = s" by (cases w) (auto split: if_splits)
  qed
qed

subsection \<open>Bytes\<close>

lemma utf8_char_split: "utf8_char c @ r = utf8_char d @ s \<Longrightarrow> c = d \<and> r = s"
proof -
  have b: "code x div 64 < 4" "code x mod 64 < 64" for x
    using nat_of_char_less_256 [of x] unfolding code_def by (auto simp: div_less_iff_less_mult)
  have inj: "m = n" if "char_of m = (char_of n :: char)" "m < 256" "n < 256" for m n :: nat
    using that by simp
  have "c = d" if "char_of (192 + code c div 64) = (char_of (192 + code d div 64) :: char)"
    "char_of (128 + code c mod 64) = (char_of (128 + code d mod 64) :: char)"
  proof -
    have "192 + code c div 64 = 192 + code d div 64" using that b [of c] b [of d] by (intro inj) simp_all
    moreover have "128 + code c mod 64 = 128 + code d mod 64" using that b [of c] b [of d] by (intro inj) simp_all
    ultimately show ?thesis by (metis add_left_cancel code_inj div_mod_decomp)
  qed
  moreover have "x \<noteq> char_of (192 + code y div 64)" if "code x < 128" for x y
    using that b [of y] by (auto simp: code_def)
  ultimately show "utf8_char c @ r = utf8_char d @ s \<Longrightarrow> c = d \<and> r = s"
    by (auto simp: utf8_char_def split: if_splits)
qed

lemma utf8_inj: "utf8 t = utf8 u \<Longrightarrow> t = u"
proof (induction t arbitrary: u)
  case Nil
  then show ?case by (cases u) (auto simp: utf8_def utf8_char_def split: if_splits)
next
  case (Cons c t)
  show ?case
  proof (cases u)
    case Nil
    with Cons.prems show ?thesis by (auto simp: utf8_def utf8_char_def split: if_splits)
  next
    case (Cons d v)
    with Cons.prems have "utf8_char c @ utf8 t = utf8_char d @ utf8 v" by (simp add: utf8_def)
    from utf8_char_split [OF this] Cons.IH Cons show ?thesis by simp
  qed
qed

lemma dumps_inj: "canonical v \<Longrightarrow> canonical w \<Longrightarrow> dumps v = dumps w \<Longrightarrow> v = w"
  using splits_atD [OF dumps_splits, of v w "[]" "[]"] by simp

lemma json_bytes_inj: "canonical v \<Longrightarrow> canonical w \<Longrightarrow> json_bytes v = json_bytes w \<Longrightarrow> v = w"
  using dumps_inj [of v w] utf8_inj [of "dumps v @ [CHR 0x0A]" "dumps w @ [CHR 0x0A]"]
  by (simp add: json_bytes_def)

end
