(* ===== verification/Path_Rules.thy ===== *)
theory Path_Rules
  imports Rotom_Prelude
begin

unbundle bit_operations_syntax

text \<open>
  The path primitives of \<open>agentcfg/paths.py\<close>: which strings are accepted as identifiers,
  relative and absolute paths, and the checks made on every directory between the filesystem
  root and a private file. A directory walk is a list of what \<open>stat\<close> shows for each component;
  the checks are functions of that list.
\<close>

datatype path_error = PathError | UnsupportedRootOwner

section \<open>Lexical rules\<close>

definition path_text :: "string \<Rightarrow> path_error + string" where
  "path_text s =
     (if s = [] \<or> CHR 0x5C \<in> set s \<or> list_ex control_char s then Inl PathError else Inr s)"

definition safe_id :: "string \<Rightarrow> path_error + string" where
  "safe_id s =
     bindE (path_text s) (\<lambda>t.
       if t = ''.'' \<or> t = ''..'' \<or> CHR ''/'' \<in> set t then Inl PathError else Inr t)"

text \<open>A \<open>Path\<close> is the list of its parts; for an absolute one, the parts below the root.\<close>

definition relative_path :: "string \<Rightarrow> path_error + string list" where
  "relative_path s =
     bindE (path_text s) (\<lambda>t.
       if list_ex (\<lambda>p. p = '''' \<or> p = ''.'' \<or> p = ''..'') (split_on CHR ''/'' t)
       then Inl PathError else Inr (split_on CHR ''/'' t))"

definition path_parts :: "string \<Rightarrow> string list" where
  "path_parts t = filter (\<lambda>p. p \<noteq> '''' \<and> p \<noteq> ''.'') (split_on CHR ''/'' t)"

definition absolute_path :: "string \<Rightarrow> path_error + string list" where
  "absolute_path s =
     bindE (path_text s) (\<lambda>t.
       if take 1 t \<noteq> ''/'' \<or> ''..'' \<in> set (split_on CHR ''/'' t)
       then Inl PathError else Inr (path_parts t))"

definition environment_home :: "(string \<Rightarrow> string option) \<Rightarrow> path_error + string list" where
  "environment_home env = absolute_path (case env ''HOME'' of None \<Rightarrow> [] | Some v \<Rightarrow> v)"

definition xdg_config_home :: "(string \<Rightarrow> string option) \<Rightarrow> path_error + string list" where
  "xdg_config_home env =
     (case env ''XDG_CONFIG_HOME'' of
        Some (c # v) \<Rightarrow> absolute_path (c # v)
      | _ \<Rightarrow> bindE (environment_home env) (\<lambda>home. Inr (home @ [''.config''])))"

text \<open>The search for \<open>$NAME\<close>, \<open>$(\<close>, \<open>${\<close> or a backquote.\<close>

fun interpolates :: "string \<Rightarrow> bool" where
  "interpolates [] = False"
| "interpolates (c # cs) =
     (c = CHR 0x60 \<or>
      (c = CHR ''$'' \<and> (case cs of [] \<Rightarrow> False
         | d # _ \<Rightarrow> alpha_char d \<or> d = CHR ''_'' \<or> d = CHR ''('' \<or> d = CHR ''{'')) \<or>
      interpolates cs)"

definition path_string :: "string list \<Rightarrow> string" where
  "path_string parts = (if parts = [] then ''/'' else concat (map (\<lambda>p. CHR ''/'' # p) parts))"

definition configured_path :: "(string \<Rightarrow> string option) \<Rightarrow> string \<Rightarrow> path_error + string list" where
  "configured_path env s =
     bindE (path_text s) (\<lambda>t.
       if interpolates t then Inl PathError
       else if take 2 t = ''~/''
         then bindE (environment_home env) (\<lambda>home. absolute_path (path_string home @ ''/'' @ drop 2 t))
       else absolute_path t)"

text \<open>What the kernel does with the parts of a path: where they lead from a directory.\<close>

fun descend :: "string list \<Rightarrow> string list \<Rightarrow> string list" where
  "descend here [] = here"
| "descend here (p # ps) =
     (if p = '''' \<or> p = ''.'' then descend here ps
      else if p = ''..'' then descend (butlast here) ps
      else descend (here @ [p]) ps)"

section \<open>Directories on the way\<close>

record dir_info =
  downer :: nat
  dmode :: nat
  inode :: nat

text \<open>\<open>me\<close> is the effective user; 18 is 0o022, 512 the sticky bit 0o1000, 448 is 0o700.\<close>

definition check_ancestor :: "nat \<Rightarrow> bool \<Rightarrow> dir_info \<Rightarrow> path_error + unit" where
  "check_ancestor me root i =
     (if downer i \<noteq> 0 \<and> downer i \<noteq> me then Inl (if root then UnsupportedRootOwner else PathError)
      else if dmode i AND 18 \<noteq> 0 \<and> dmode i AND 512 = 0 then Inl PathError
      else Inr ())"

definition check_private :: "nat \<Rightarrow> dir_info \<Rightarrow> path_error + unit" where
  "check_private me i = ensure (downer i = me \<and> dmode i = 448) PathError"

datatype node = Directory dir_info | Other_Node | Absent

datatype walk_error = Unsafe path_error | Not_Found

text \<open>\<open>earlier\<close> is the \<open>stat\<close> of the name, \<open>after\<close> the \<open>fstat\<close> of the opened handle.\<close>

definition open_directory :: "node \<Rightarrow> node \<Rightarrow> walk_error + dir_info" where
  "open_directory earlier after =
     (case earlier of
        Absent \<Rightarrow> Inl Not_Found
      | Other_Node \<Rightarrow> Inl (Unsafe PathError)
      | Directory b \<Rightarrow>
          (case after of
             Absent \<Rightarrow> Inl Not_Found
           | Other_Node \<Rightarrow> Inl (Unsafe PathError)
           | Directory a \<Rightarrow> if inode a = inode b then Inr a else Inl (Unsafe PathError)))"

definition lift_path :: "path_error + 'a \<Rightarrow> walk_error + 'a" where
  "lift_path r = (case r of Inl e \<Rightarrow> Inl (Unsafe e) | Inr x \<Rightarrow> Inr x)"

fun open_each :: "(dir_info \<Rightarrow> walk_error + unit) \<Rightarrow> dir_info \<Rightarrow> (node \<times> node) list \<Rightarrow> walk_error + dir_info" where
  "open_each check fd [] = Inr fd"
| "open_each check fd ((earlier, after) # rest) =
     bindE (open_directory earlier after) (\<lambda>child.
     bindE (check child) (\<lambda>_. open_each check child rest))"

text \<open>\<open>_absolute_directory\<close>: every handle on the way is checked before the next name is opened.\<close>

definition absolute_directory :: "nat \<Rightarrow> dir_info \<Rightarrow> (node \<times> node) list \<Rightarrow> walk_error + dir_info" where
  "absolute_directory me slash steps =
     bindE (lift_path (check_ancestor me True slash)) (\<lambda>_.
       open_each (\<lambda>i. lift_path (check_ancestor me False i)) slash steps)"

text \<open>A trusted source is checked at its own directory only: shared mounts above it are allowed.\<close>

definition trusted_source_directory :: "nat \<Rightarrow> dir_info \<Rightarrow> (node \<times> node) list \<Rightarrow> walk_error + dir_info" where
  "trusted_source_directory me slash steps =
     bindE (open_each (\<lambda>i. Inr ()) slash steps) (\<lambda>i.
       if (downer i \<noteq> 0 \<and> downer i \<noteq> me) \<or> dmode i AND 18 \<noteq> 0 then Inl (Unsafe PathError) else Inr i)"

text \<open>A new directory: \<open>made\<close> is what \<open>mkdir\<close> left under the name, earlier \<open>fchmod\<close> sets 0700.\<close>

definition create_directory :: "nat \<Rightarrow> node \<Rightarrow> walk_error + dir_info" where
  "create_directory me made =
     bindE (open_directory made made) (\<lambda>i.
       if downer i \<noteq> me \<or> dmode i AND 448 \<noteq> dmode i then Inl (Unsafe PathError)
       else bindE (lift_path (check_private me (i\<lparr>dmode := 448\<rparr>))) (\<lambda>_. Inr (i\<lparr>dmode := 448\<rparr>)))"

section \<open>Accepted paths stay where they are put\<close>

lemma path_text_eq_Inr [result_simps]:
  "path_text s = Inr t \<longleftrightarrow> t = s \<and> s \<noteq> [] \<and> CHR 0x5C \<notin> set s \<and> \<not> list_ex control_char s"
  by (auto simp: path_text_def)

lemma split_on_chars: "p \<in> set (split_on c s) \<Longrightarrow> set p \<subseteq> set s - {c}"
proof (induction s arbitrary: p)
  case (Cons x xs)
  obtain q qs where q: "split_on c xs = q # qs" by (cases "split_on c xs") auto
  from Cons.prems have "p = [] \<or> p \<in> set (split_on c xs) \<or> (x \<noteq> c \<and> p = x # q)"
    using q by (auto split: if_splits)
  with Cons.IH q show ?case by fastforce
qed simp

lemma descend_plain: "\<forall>p\<in>set ps. p \<noteq> '''' \<and> p \<noteq> ''.'' \<and> p \<noteq> ''..'' \<Longrightarrow> descend here ps = here @ ps"
  by (induction ps arbitrary: here) auto

lemma descend_path_parts:
  "''..'' \<notin> set ps \<Longrightarrow> descend here ps = here @ filter (\<lambda>p. p \<noteq> '''' \<and> p \<noteq> ''.'') ps"
  by (induction ps arbitrary: here) auto

lemma relative_path_Inr:
  assumes "relative_path s = Inr ps"
  shows "ps = split_on CHR ''/'' s" "\<forall>p\<in>set ps. p \<noteq> '''' \<and> p \<noteq> ''.'' \<and> p \<noteq> ''..''"
    "CHR 0x5C \<notin> set s" "\<not> list_ex control_char s"
  using assms by (auto simp: relative_path_def result_simps list_ex_iff split: if_splits)

lemma absolute_path_Inr:
  assumes "absolute_path s = Inr ps"
  shows "ps = path_parts s" "''..'' \<notin> set (split_on CHR ''/'' s)" "take 1 s = ''/''"
  using assms by (auto simp: absolute_path_def result_simps split: if_splits)

lemma safe_id_part:
  assumes "relative_path s = Inr ps" "p \<in> set ps"
  shows "safe_id p = Inr p"
proof -
  have sub: "set p \<subseteq> set s - {CHR ''/''}"
    using relative_path_Inr(1) [OF assms(1)] assms(2) split_on_chars by blast
  then have "CHR 0x5C \<notin> set p" "\<not> list_ex control_char p"
    using relative_path_Inr(3,4) [OF assms(1)] by (auto simp: list_ex_iff)
  moreover have "p \<noteq> '''' \<and> p \<noteq> ''.'' \<and> p \<noteq> ''..''"
    using relative_path_Inr(2) [OF assms(1)] assms(2) by blast
  ultimately show ?thesis using sub by (auto simp: safe_id_def path_text_def)
qed

text \<open>C40: A string accepted as a relative path names a file strictly below the directory it is
  resolved in, whatever that directory is: walking its parts never leaves it, no part is empty
  or a dot segment, and each part alone is an acceptable single-segment identifier.\<close>

theorem relative_path_no_escape:
  assumes "relative_path s = Inr ps"
  shows "descend here ps = here @ ps \<and> ps \<noteq> [] \<and> (\<forall>p\<in>set ps. safe_id p = Inr p)"
  using assms relative_path_Inr [OF assms] by (auto simp: descend_plain safe_id_part)

lemma relative_path_no_escape_witness:
  "descend [''srv''] [''bindings'', ''a.json''] = [''srv'', ''bindings'', ''a.json'']"
  using relative_path_no_escape [of "''bindings/a.json''" "[''bindings'', ''a.json'']" "[''srv'']"]
  by (simp add: relative_path_def path_text_def control_char_def code_def)

text \<open>A configured path that is accepted is an absolute path whose walk from the
  filesystem root, dot and empty segments included, ends exactly at the parts recorded for it;
  the accepted text contains no interpolation, so no variable or command can redirect it.\<close>

theorem configured_path_literal:
  assumes "configured_path env s = Inr ps" "take 2 s \<noteq> ''~/''"
  shows "descend [] (split_on CHR ''/'' s) = ps \<and> \<not> interpolates s \<and> take 1 s = ''/''"
proof -
  from assms have "absolute_path s = Inr ps" "\<not> interpolates s"
    by (auto simp: configured_path_def result_simps split: if_splits)
  with absolute_path_Inr [OF this(1)] show ?thesis
    by (simp add: descend_path_parts path_parts_def)
qed

lemma configured_path_literal_witness:
  "descend [] (split_on CHR ''/'' ''/opt//./x'') = [''opt'', ''x'']"
  using configured_path_literal [of "\<lambda>_. None" "''/opt//./x''" "[''opt'', ''x'']"]
  by (simp add: configured_path_def absolute_path_def path_parts_def path_text_def control_char_def
      code_def alpha_char_def)

lemma lift_path_eq_Inr [result_simps]: "lift_path r = Inr x \<longleftrightarrow> r = Inr x"
  by (auto simp: lift_path_def split: sum.splits)

definition trusted_dir :: "nat \<Rightarrow> dir_info \<Rightarrow> bool" where
  "trusted_dir me i \<longleftrightarrow> (downer i = 0 \<or> downer i = me) \<and> (dmode i AND 18 = 0 \<or> dmode i AND 512 \<noteq> 0)"

lemma check_ancestor_eq_Inr [result_simps]: "check_ancestor me r i = Inr u \<longleftrightarrow> trusted_dir me i"
  by (auto simp: check_ancestor_def trusted_dir_def)

lemma open_directory_eq_Inr [result_simps]:
  "open_directory b a = Inr i \<longleftrightarrow> a = Directory i \<and> (\<exists>j. b = Directory j \<and> inode j = inode i)"
  by (auto simp: open_directory_def split: node.splits)

lemma open_each_sound:
  "open_each check fd steps = Inr i \<Longrightarrow>
     (\<forall>(b, a)\<in>set steps. \<exists>j k. a = Directory j \<and> b = Directory k \<and> inode j = inode k \<and> check j = Inr ()) \<and>
     (steps = [] \<longrightarrow> i = fd) \<and> (steps \<noteq> [] \<longrightarrow> snd (last steps) = Directory i)"
proof (induction steps arbitrary: fd)
  case (Cons st rest)
  obtain b a where st: "st = (b, a)" by (cases st)
  from Cons.prems obtain c where c: "open_directory b a = Inr c" "check c = Inr ()" "open_each check c rest = Inr i"
    by (auto simp: st result_simps)
  from Cons.IH [OF c(3)] c(1,2) show ?case by (auto simp: st result_simps)
qed simp

text \<open>When the walk to a private directory succeeds, every component opened on the way is a
  real directory, the same one before and after it was opened, owned by root or by the user,
  and not writable by others unless sticky; the handle returned is the last component.\<close>

theorem absolute_directory_trusted:
  assumes "absolute_directory me slash steps = Inr i"
  shows "trusted_dir me slash \<and>
    (\<forall>(b, a)\<in>set steps. \<exists>j k. a = Directory j \<and> b = Directory k \<and> inode j = inode k \<and> trusted_dir me j) \<and>
    (if steps = [] then i = slash else snd (last steps) = Directory i)"
  using assms open_each_sound [of "\<lambda>i. lift_path (check_ancestor me False i)" slash steps i]
  by (auto simp: absolute_directory_def result_simps)

lemma absolute_directory_trusted_witness:
  "trusted_dir 1000 \<lparr>downer = 0, dmode = 493, inode = 2\<rparr>"
  using absolute_directory_trusted [of 1000 "\<lparr>downer = 0, dmode = 493, inode = 2\<rparr>"
      "[(Directory \<lparr>downer = 1000, dmode = 448, inode = 7\<rparr>, Directory \<lparr>downer = 1000, dmode = 448, inode = 7\<rparr>)]"
      "\<lparr>downer = 1000, dmode = 448, inode = 7\<rparr>"]
  by (simp add: absolute_directory_def open_directory_def check_ancestor_def lift_path_def)

end
