(* ===== verification/Private_Store.thy ===== *)
theory Private_Store
  imports Path_Rules
begin

text \<open>
  The private file boundary of \<open>agentcfg/storage.py\<close>: a \<open>Tree\<close> pins the directory it was opened
  on, every operation first checks that the path still leads to that directory, reads observe a
  file four times, and writes are compare-and-swap on the identity a read returned.
  \<^item> \<open>disk\<close> holds the root directory, the directories and files below it, a clock that stamps
    every new file with a fresh identity, and a queue of fault outcomes: a change to the disk can
    be \<open>Done\<close>, \<open>Lost\<close> (an error and no effect) or \<open>Unacked\<close> (an error after the effect, as when
    the final \<open>fsync\<close> fails).
  \<^item> What other processes do between the two identity checks of a replacement is a function
    \<open>env\<close> on disks. The window between the second check and the \<open>rename\<close> is not modelled: the
    code names it as unavoidable.
  \<^item> Writing the temporary file is a commit without effect: it can only fail.
\<close>

datatype store_error = Missing | Store_Conflict | Store_Busy | Unsafe_Path | IO_Failure

datatype outcome = Done | Lost | Unacked

text \<open>\<open>stamp\<close> stands for device, inode and times; with mode and size it is \<open>identity(info)\<close>.\<close>

record 'c stored =
  body :: 'c
  nbytes :: nat
  fmode :: nat
  stamp :: nat
  regular :: bool
  links :: nat
  fowner :: nat

type_synonym ident = "nat \<times> nat \<times> nat"

definition identity :: "'c stored \<Rightarrow> ident" where
  "identity f = (stamp f, fmode f, nbytes f)"

record 'c disk =
  user :: nat
  top :: "dir_info option"
  dirs :: "(string list \<times> dir_info) list"
  files :: "(string list \<times> 'c stored) list"
  clock :: nat
  faults :: "outcome list"

type_synonym ('c, 'a) dio = "('c disk, store_error, 'a) io"

definition lookup_file :: "string list \<Rightarrow> 'c disk \<Rightarrow> 'c stored option" where
  "lookup_file p d = map_of (files d) p"

text \<open>One change of the disk, with the outcome the fault queue holds for it.\<close>

definition commit :: "('c disk \<Rightarrow> 'c disk) \<Rightarrow> ('c, unit) dio" where
  "commit f d =
     (case faults d of
        [] \<Rightarrow> (Inr (), f d)
      | Done # q \<Rightarrow> (Inr (), f (d\<lparr>faults := q\<rparr>))
      | Lost # q \<Rightarrow> (Inl IO_Failure, d\<lparr>faults := q\<rparr>)
      | Unacked # q \<Rightarrow> (Inl IO_Failure, f (d\<lparr>faults := q\<rparr>)))"

definition put_file :: "string list \<Rightarrow> 'c \<Rightarrow> nat \<Rightarrow> nat \<Rightarrow> 'c disk \<Rightarrow> 'c disk" where
  "put_file p b n m d =
     d\<lparr>files := dput p \<lparr>body = b, nbytes = n, fmode = m, stamp = clock d, regular = True,
                       links = 1, fowner = user d\<rparr> (files d),
       clock := Suc (clock d)\<rparr>"

definition drop_file :: "string list \<Rightarrow> 'c disk \<Rightarrow> 'c disk" where
  "drop_file p d = d\<lparr>files := ddel p (files d), clock := Suc (clock d)\<rparr>"

definition make_dir :: "string list \<Rightarrow> 'c disk \<Rightarrow> 'c disk" where
  "make_dir p d =
     d\<lparr>dirs := dput p \<lparr>downer = user d, dmode = 448, inode = clock d\<rparr> (dirs d), clock := Suc (clock d)\<rparr>"

section \<open>Opening\<close>

definition path_result :: "path_error + 'a \<Rightarrow> store_error + 'a" where
  "path_result r = (case r of Inl e \<Rightarrow> Inl Unsafe_Path | Inr x \<Rightarrow> Inr x)"

text \<open>A handle is the inode of the root it pinned, or none when the root did not exist.\<close>

type_synonym handle = "nat option"

definition make_top :: "'c disk \<Rightarrow> 'c disk" where
  "make_top d =
     d\<lparr>top := Some \<lparr>downer = user d, dmode = 448, inode = clock d\<rparr>, clock := Suc (clock d)\<rparr>"

definition tree_open :: "bool \<Rightarrow> ('c, handle) dio" where
  "tree_open create d =
     (case top d of
        None \<Rightarrow>
          if create
          then bindS (commit make_top) (\<lambda>_. getS (\<lambda>d. Inr (map_option inode (top d)))) d
          else (Inr None, d)
      | Some t \<Rightarrow>
          bindS (liftS (path_result (check_ancestor (user d) False t))) (\<lambda>_.
          bindS (liftS (path_result (check_private (user d) t))) (\<lambda>_. returnS (Some (inode t)))) d)"

text \<open>The directories between the pinned root and the name; missing ones are made on request.\<close>

fun walk :: "bool \<Rightarrow> string list \<Rightarrow> string list \<Rightarrow> nat \<Rightarrow> ('c, nat) dio" where
  "walk create here [] fd d = (Inr fd, d)"
| "walk create here (p # ps) fd d =
     (case map_of (dirs d) (here @ [p]) of
        Some i \<Rightarrow>
          bindS (liftS (path_result (check_ancestor (user d) False i))) (\<lambda>_.
            walk create (here @ [p]) ps (inode i)) d
      | None \<Rightarrow>
          if lookup_file (here @ [p]) d \<noteq> None then (Inl Unsafe_Path, d)
          else if create
          then bindS (commit (make_dir (here @ [p]))) (\<lambda>_.
               bindS (getS (\<lambda>d. Inr (case map_of (dirs d) (here @ [p]) of Some i \<Rightarrow> inode i | None \<Rightarrow> fd)))
                 (walk create (here @ [p]) ps)) d
          else (Inl Missing, d))"

text \<open>\<open>Tree.parent\<close>: the inode of the directory that holds the last part of the path.\<close>

definition tree_parent :: "handle \<Rightarrow> bool \<Rightarrow> string list \<Rightarrow> ('c, nat) dio" where
  "tree_parent h create p d =
     (case h of
        None \<Rightarrow> (Inl Missing, d)
      | Some root \<Rightarrow>
          (case top d of
             None \<Rightarrow> (Inl Missing, d)
           | Some t \<Rightarrow>
               bindS (liftS (path_result (check_ancestor (user d) False t))) (\<lambda>_.
                 if inode t \<noteq> root then raiseS Store_Conflict
                 else walk create [] (butlast p) root) d))"

section \<open>Reading\<close>

text \<open>
  The four observations of one read: the name before the open, the opened handle, the handle
  after the data was read, and the name again.
\<close>

definition read_observed ::
  "nat \<Rightarrow> nat option \<Rightarrow> 'c stored option \<Rightarrow> 'c stored \<Rightarrow> 'c stored \<Rightarrow> 'c stored option \<Rightarrow>
     store_error + ('c \<times> nat \<times> ident)" where
  "read_observed me max_bytes earlier opened after current =
     (case earlier of
        None \<Rightarrow> Inl Missing
      | Some b \<Rightarrow>
          if \<not> regular b \<or> links b \<noteq> 1 \<or> fowner b \<noteq> me then Inl Store_Conflict
          else if identity opened \<noteq> identity b then Inl Store_Conflict
          else if (case max_bytes of None \<Rightarrow> False | Some m \<Rightarrow> nbytes opened > m) then Inl Store_Conflict
          else if identity opened \<noteq> identity after then Inl Store_Conflict
          else (case current of
                  None \<Rightarrow> Inl Store_Conflict
                | Some c \<Rightarrow>
                    if identity opened \<noteq> identity c then Inl Store_Conflict
                    else Inr (body opened, fmode opened, identity opened)))"

definition read_error :: "store_error \<Rightarrow> store_error" where
  "read_error e = (if e = IO_Failure \<or> e = Unsafe_Path then Store_Conflict else e)"

type_synonym 'c read_result = "('c \<times> nat \<times> ident) option"

definition tree_read :: "handle \<Rightarrow> string list \<Rightarrow> nat option \<Rightarrow> ('c, 'c read_result) dio" where
  "tree_read h p max_bytes d =
     (case mapErrorS read_error (tree_parent h False p) d of
        (Inl Missing, e) \<Rightarrow> (Inr None, e)
      | (Inl x, e) \<Rightarrow> (Inl x, e)
      | (Inr _, e) \<Rightarrow>
          (case lookup_file p e of
             None \<Rightarrow> if p \<in> fst ` set (dirs e) then (Inl Store_Conflict, e) else (Inr None, e)
           | Some f \<Rightarrow>
               (case read_observed (user e) max_bytes (Some f) f f (Some f) of
                  Inl x \<Rightarrow> (Inl x, e)
                | Inr r \<Rightarrow> (Inr (Some r), e))))"

section \<open>Writing\<close>

definition seen :: "'c read_result \<Rightarrow> ident option" where
  "seen r = map_option (\<lambda>(b, m, i). i) r"

definition environment :: "('c disk \<Rightarrow> 'c disk) \<Rightarrow> ('c, unit) dio" where
  "environment env d = (Inr (), env d)"

text \<open>
  \<open>Tree.replace\<close>: \<open>data\<close> is the new body with its length and mode, or \<open>None\<close> to delete. The
  identity is checked before the temporary file is written and again before the rename.
\<close>

definition tree_replace ::
  "('c disk \<Rightarrow> 'c disk) \<Rightarrow> handle \<Rightarrow> string list \<Rightarrow> ('c \<times> nat \<times> nat) option \<Rightarrow> ident option \<Rightarrow> ('c, unit) dio" where
  "tree_replace env h p data expected =
     bindS (tree_read h p None) (\<lambda>current.
     bindS (ensureS (seen current = expected) Store_Conflict) (\<lambda>_.
     bindS (tree_parent h (data \<noteq> None) p) (\<lambda>fd.
       case data of
         None \<Rightarrow>
           if current = None then returnS ()
           else bindS (environment env) (\<lambda>_.
                bindS (getS (\<lambda>d. case lookup_file p d of None \<Rightarrow> Inl Missing
                             | Some f \<Rightarrow> ensure (Some (identity f) = expected) Store_Conflict)) (\<lambda>_.
                commit (drop_file p)))
       | Some (b, n, m) \<Rightarrow>
           bindS (commit (\<lambda>d. d)) (\<lambda>_.
           bindS (environment env) (\<lambda>_.
           bindS (tree_read h p None) (\<lambda>latest.
           bindS (ensureS (seen latest = expected) Store_Conflict) (\<lambda>_.
           bindS (tree_parent h False p) (\<lambda>fresh.
           bindS (ensureS (fresh = fd) Store_Conflict) (\<lambda>_.
           commit (put_file p b n m))))))))))"

text \<open>\<open>data\<close> is a body with its length: equal bytes are equal in both.\<close>

definition write_state :: "('c disk \<Rightarrow> 'c disk) \<Rightarrow> handle \<Rightarrow> string list \<Rightarrow> 'c \<times> nat \<Rightarrow> ('c, unit) dio" where
  "write_state env h p data =
     bindS (tree_read h p None) (\<lambda>earlier.
       tree_replace env h p (Some (fst data, snd data, 384)) (seen earlier))"

text \<open>
  \<open>_write_new_at\<close>: the final \<open>link\<close> fails when the name exists. 384 is the mode 0o600.
\<close>

definition write_new :: "('c disk \<Rightarrow> 'c disk) \<Rightarrow> handle \<Rightarrow> string list \<Rightarrow> 'c \<times> nat \<Rightarrow> ('c, unit) dio" where
  "write_new env h p data =
     bindS (tree_parent h True p) (\<lambda>_.
     bindS (commit (\<lambda>d. d)) (\<lambda>_.
     bindS (environment env) (\<lambda>_.
     bindS (getS (\<lambda>d. ensure (lookup_file p d = None \<and> p \<notin> fst ` set (dirs d)) Store_Conflict)) (\<lambda>_.
       commit (put_file p (fst data) (snd data) 384)))))"

definition write_immutable :: "('c disk \<Rightarrow> 'c disk) \<Rightarrow> handle \<Rightarrow> string list \<Rightarrow> 'c \<times> nat \<Rightarrow> ('c, unit) dio" where
  "write_immutable env h p data =
     bindS (tree_read h p None) (\<lambda>earlier.
       case earlier of
         Some (b, m, i) \<Rightarrow> ensureS ((b, snd (snd i)) = data \<and> m = 384) Store_Conflict
       | None \<Rightarrow> tree_replace env h p (Some (fst data, snd data, 384)) None)"

section \<open>Facts shared by the clients\<close>

lemma path_result_eq_Inr [result_simps]: "path_result r = Inr x \<longleftrightarrow> r = Inr x"
  by (auto simp: path_result_def split: sum.splits)

lemma lookup_put_file [simp]:
  "lookup_file q (put_file p b n m d) =
     (if q = p then Some \<lparr>body = b, nbytes = n, fmode = m, stamp = clock d, regular = True, links = 1, fowner = user d\<rparr>
      else lookup_file q d)"
  by (simp add: lookup_file_def put_file_def)

lemma lookup_drop_file [simp]: "lookup_file q (drop_file p d) = (if q = p then None else lookup_file q d)"
  by (simp add: lookup_file_def drop_file_def)

lemma lookup_faults [simp]: "lookup_file q (d\<lparr>faults := f\<rparr>) = lookup_file q d"
  by (simp add: lookup_file_def)

text \<open>\<open>same_files d e\<close>: nothing but new directories, the clock and pending faults may differ.\<close>

definition same_files :: "'c disk \<Rightarrow> 'c disk \<Rightarrow> bool" where
  "same_files d e \<longleftrightarrow> files e = files d \<and> top e = top d \<and> user e = user d \<and>
     clock d \<le> clock e \<and> map_le (map_of (dirs d)) (map_of (dirs e))"

lemma same_files_refl [simp]: "same_files d d"
  by (simp add: same_files_def)

lemma same_files_trans: "same_files d e \<Longrightarrow> same_files e f \<Longrightarrow> same_files d f"
  unfolding same_files_def using map_le_trans by auto

lemma same_files_lookup: "same_files d e \<Longrightarrow> lookup_file p e = lookup_file p d"
  by (simp add: same_files_def lookup_file_def)

lemma same_files_keep: "keeps (same_files d) m \<Longrightarrow> m d = (r, e) \<Longrightarrow> same_files d e"
  using keepsD [of "same_files d" m d r e] by simp

lemma same_files_faults [simp]: "same_files d (e\<lparr>faults := q\<rparr>) \<longleftrightarrow> same_files d e"
  by (simp add: same_files_def)

lemma same_files_commit_at:
  assumes "same_files d e" "\<And>q. same_files d (f (e\<lparr>faults := q\<rparr>))"
  shows "same_files d (snd (commit f e))"
proof (cases "faults e")
  case Nil
  then have "e\<lparr>faults := []\<rparr> = e" by simp
  with Nil assms(2) [of "[]"] show ?thesis by (simp add: commit_def)
next
  case (Cons x q)
  with assms show ?thesis by (cases x) (simp_all add: commit_def)
qed

lemma same_files_make_dir: "map_of (dirs d) p = None \<Longrightarrow> same_files d (make_dir p d)"
  by (auto simp: same_files_def make_dir_def map_le_def)

lemma keeps_walk [preserved]: "keeps (same_files d) (walk create here ps fd)"
proof (induction ps arbitrary: here fd)
  case (Cons p ps)
  show ?case
    unfolding keeps_def
  proof (intro allI impI)
    fix s assume s: "same_files d s"
    have mk: "same_files d (snd (commit (make_dir (here @ [p])) s))" if "map_of (dirs s) (here @ [p]) = None"
      using s that
      by (intro same_files_commit_at) (auto intro: same_files_trans [OF _ same_files_make_dir])
    show "same_files d (snd (walk create here (p # ps) fd s))"
    proof (cases "map_of (dirs s) (here @ [p])")
      case None
      show ?thesis
        using s mk Cons.IH
        by (simp add: None) (intro impI keeps_bind_at [where P = "same_files d"] keeps_bindS keeps_simple; simp)
    next
      case (Some i)
      show ?thesis
        using s Cons.IH by (simp add: Some) (intro keeps_bind_at [where P = "same_files d"]; simp)
    qed
  qed
qed (simp add: keeps_def)

lemma keeps_tree_parent [preserved]: "keeps (same_files d) (tree_parent h create p)"
  unfolding keeps_def
proof (intro allI impI)
  fix s assume "same_files d s"
  then show "same_files d (snd (tree_parent h create p s))"
    by (cases h; cases "top s")
      (simp_all add: tree_parent_def keeps_bind_at [where P = "same_files d"] preserved)
qed

text \<open>Without \<open>create\<close> nothing at all changes.\<close>

lemma walk_keeps_disk: "walk False here ps fd d = (r, e) \<Longrightarrow> e = d"
proof (induction ps arbitrary: here fd)
  case (Cons p ps)
  then show ?case
    by (auto simp: bindS_def liftS_def split: option.splits if_splits sum.splits prod.splits)
qed simp

lemma parent_keeps_disk: "tree_parent h False p d = (r, e) \<Longrightarrow> e = d"
  by (auto simp: tree_parent_def bindS_def liftS_def raiseS_def
      split: option.splits if_splits sum.splits prod.splits dest: walk_keeps_disk)

lemma parent_False: "snd (tree_parent h False p d) = d"
  using parent_keeps_disk by (metis prod.collapse)

lemma read_keeps_disk: "tree_read h p m d = (r, e) \<Longrightarrow> e = d"
  using parent_False [of h p d]
  by (auto simp: tree_read_def mapErrorS_def split: prod.splits sum.splits option.splits if_splits store_error.splits)

lemma snd_tree_read [simp]: "snd (tree_read h p m d) = d"
  using read_keeps_disk by (metis prod.collapse)

text \<open>A read that returns a value returned the file under that name; a read that found none, with
  the directory there, found no file.\<close>

definition readable :: "'c disk \<Rightarrow> 'c stored \<Rightarrow> bool" where
  "readable d f \<longleftrightarrow> regular f \<and> links f = 1 \<and> fowner f = user d"

lemma read_observed_same:
  "read_observed me m (Some f) f f (Some f) = Inr r \<longleftrightarrow>
     r = (body f, fmode f, identity f) \<and> regular f \<and> links f = 1 \<and> fowner f = me \<and>
     (case m of None \<Rightarrow> True | Some k \<Rightarrow> nbytes f \<le> k)"
  by (auto simp: read_observed_def split: option.splits)

lemma read_error_simps [simp]: "read_error e = Missing \<longleftrightarrow> e = Missing"
  by (auto simp: read_error_def)

lemma tree_read_Some:
  "tree_read h p m d = (Inr (Some (b, mo, i)), e) \<Longrightarrow>
     e = d \<and> (\<exists>f fd. lookup_file p d = Some f \<and> b = body f \<and> mo = fmode f \<and> i = identity f \<and> readable d f \<and>
       tree_parent h False p d = (Inr fd, d) \<and> (case m of None \<Rightarrow> True | Some k \<Rightarrow> nbytes f \<le> k))"
  using parent_False [of h p d]
  by (cases "tree_parent h False p d")
    (auto simp: tree_read_def mapErrorS_def readable_def read_observed_same
      split: sum.splits option.splits if_splits store_error.splits)

lemma tree_read_None:
  "tree_read h p m d = (Inr None, e) \<Longrightarrow> tree_parent h False p d = (Inr fd, x) \<Longrightarrow> lookup_file p d = None"
  using parent_False [of h p d]
  by (auto simp: tree_read_def mapErrorS_def split: sum.splits option.splits if_splits store_error.splits)

lemma tree_read_None_cases:
  "tree_read h p m d = (Inr None, e) \<Longrightarrow>
     tree_parent h False p d = (Inl Missing, d) \<or> (\<exists>fd. tree_parent h False p d = (Inr fd, d)) \<and> lookup_file p d = None"
  using parent_False [of h p d]
  by (cases "tree_parent h False p d")
    (auto simp: tree_read_def mapErrorS_def split: sum.splits option.splits if_splits store_error.splits)

lemma keeps_tree_read [preserved]: "keeps P (tree_read h p m)"
  by (simp add: keeps_def)

lemma keeps_getS_disk [preserved]: "keeps P (environment (\<lambda>d. d))"
  by (simp add: keeps_def environment_def)

text \<open>What one write may have done, whether or not it was acknowledged.\<close>

type_synonym 'c datum = "'c \<times> nat \<times> nat"

text \<open>The visible contents: the ordinary files a read accepts, with their length and mode.\<close>

definition contents :: "'c disk \<Rightarrow> string list \<Rightarrow> 'c datum option" where
  "contents d p =
     (case lookup_file p d of
        None \<Rightarrow> None
      | Some f \<Rightarrow> if readable d f then Some (body f, nbytes f, fmode f) else None)"

definition wrote :: "string list \<Rightarrow> 'c datum \<Rightarrow> 'c disk \<Rightarrow> 'c disk \<Rightarrow> bool" where
  "wrote p v d e \<longleftrightarrow>
     user e = user d \<and> top e = top d \<and> map_le (map_of (dirs d)) (map_of (dirs e)) \<and>
     (\<forall>q. q \<noteq> p \<longrightarrow> lookup_file q e = lookup_file q d) \<and>
     (lookup_file p e = lookup_file p d \<or> contents e p = Some v)"

lemma wrote_refl [simp]: "wrote p v d d"
  by (simp add: wrote_def)

lemma contents_cong: "lookup_file p e = lookup_file p d \<Longrightarrow> user e = user d \<Longrightarrow> contents e p = contents d p"
  by (auto simp: contents_def readable_def split: option.splits)

lemma same_files_contents: "same_files d e \<Longrightarrow> contents e p = contents d p"
  by (rule contents_cong) (simp add: same_files_lookup, simp add: same_files_def)

lemma wrote_same_files: "wrote p v d e \<Longrightarrow> same_files e f \<Longrightarrow> wrote p v d f"
  using same_files_lookup [of e f] same_files_contents [of e f p] map_le_trans
  by (auto simp: wrote_def same_files_def)

lemma user_put_file [simp]: "user (put_file p b n m d) = user d"
  by (simp add: put_file_def)

lemma contents_put_file [simp]:
  "contents (put_file p b n m d) q = (if q = p then Some (b, n, m) else contents d q)"
proof (cases "q = p")
  case True
  then show ?thesis by (simp add: contents_def readable_def)
next
  case False
  then show ?thesis by (auto intro: contents_cong)
qed

lemma contents_faults [simp]: "contents (d\<lparr>faults := f\<rparr>) q = contents d q"
  by (rule contents_cong) simp_all

lemma contents_lookup: "contents d p = Some v \<Longrightarrow> lookup_file p d \<noteq> None"
  by (auto simp: contents_def split: option.splits)

lemma tree_read_contents:
  assumes "contents d p = Some (b, n, m)" "tree_parent h False p d = (Inr fd, d)" "n \<le> mx"
  shows "\<exists>i. tree_read h p (Some mx) d = (Inr (Some (b, m, i)), d)"
  using assms by (auto simp: contents_def tree_read_def mapErrorS_def read_observed_def readable_def
      identity_def split: option.splits if_splits)

lemma dirs_put_file [simp]: "dirs (put_file p b n m d) = dirs d" "top (put_file p b n m d) = top d"
  by (simp_all add: put_file_def)

lemma keeps_wrote_put: "keeps (wrote p (b, n, m) d) (commit (put_file p b n m))"
  by (auto simp: keeps_def commit_def wrote_def split: list.splits outcome.splits)

lemma keeps_wrote_same: "(\<And>e. keeps (same_files e) m) \<Longrightarrow> keeps (wrote p v d) m"
  by (metis keeps_def same_files_refl wrote_same_files)

lemma commit_nothing: "keeps (same_files d) (commit (\<lambda>e. e))"
  by (simp add: keeps_def same_files_commit_at)

lemma keeps_option:
  "(\<And>x. keeps P (g x)) \<Longrightarrow> keeps P f \<Longrightarrow> keeps P (case c of None \<Rightarrow> f | Some x \<Rightarrow> g x)"
  by (cases c) simp_all

lemma keeps_wrote_replace [preserved]: "keeps (wrote p v d) (tree_replace (\<lambda>d. d) h p (Some v) ex)"
proof (cases v)
  case (fields b n m)
  show ?thesis
    unfolding fields tree_replace_def
    by (simp, intro preserved keeps_wrote_put keeps_wrote_same commit_nothing keeps_tree_parent)
qed

lemma keeps_wrote_state [preserved]:
  "keeps (wrote p (fst w, snd w, 384) d) (write_state (\<lambda>d. d) h p w)"
  unfolding write_state_def by (intro preserved)

lemma keeps_wrote_new [preserved]:
  "keeps (wrote p (fst w, snd w, 384) d) (write_new (\<lambda>d. d) h p w)"
  unfolding write_new_def
  by (intro preserved keeps_wrote_put keeps_wrote_same commit_nothing)

lemma keeps_wrote_immutable [preserved]:
  "keeps (wrote p (fst w, snd w, 384) d) (write_immutable (\<lambda>d. d) h p w)"
  unfolding write_immutable_def
  by (intro preserved keeps_option) (auto split: prod.splits intro!: preserved)

section \<open>The contract of an acknowledged write\<close>

text \<open>
  What a component that keeps several records may rely on when a write can fail after it took
  effect. The client lemma: after any sequence of writes, with or without a failure, the store
  holds the writes of some prefix of the sequence and nothing else.
\<close>

locale acknowledged_write =
  fixes view :: "'s \<Rightarrow> 'k \<Rightarrow> 'v option"
    and store :: "'k \<Rightarrow> 'v \<Rightarrow> ('s, 'e, unit) io"
  assumes acknowledged: "store k v s = (Inr (), t) \<Longrightarrow> view t k = Some v"
    and uncertain: "store k v s = (r, t) \<Longrightarrow> view t k = view s k \<or> view t k = Some v"
    and frame: "store k v s = (r, t) \<Longrightarrow> l \<noteq> k \<Longrightarrow> view t l = view s l"
begin

primrec write_all :: "('k \<times> 'v) list \<Rightarrow> ('s, 'e, unit) io" where
  "write_all [] = returnS ()"
| "write_all (w # ws) = bindS (store (fst w) (snd w)) (\<lambda>_. write_all ws)"

definition apply_all :: "('k \<times> 'v) list \<Rightarrow> ('k \<Rightarrow> 'v option) \<Rightarrow> 'k \<Rightarrow> 'v option" where
  "apply_all ws m = foldl (\<lambda>m w. m(fst w \<mapsto> snd w)) m ws"

lemma apply_all_simps [simp]:
  "apply_all [] m = m" "apply_all (w # ws) m = apply_all ws (m(fst w \<mapsto> snd w))"
  by (simp_all add: apply_all_def)

lemma write_view: "store k v s = (r, t) \<Longrightarrow> view t = view s \<or> view t = (view s)(k \<mapsto> v)"
proof -
  assume w: "store k v s = (r, t)"
  have "view t = (view s)(k := view t k)"
    using frame [OF w] by (auto simp: fun_eq_iff)
  with uncertain [OF w] show ?thesis by (metis fun_upd_triv)
qed

lemma write_view_ack: "store k v s = (Inr (), t) \<Longrightarrow> view t = (view s)(k \<mapsto> v)"
proof -
  assume w: "store k v s = (Inr (), t)"
  have "view t = (view s)(k := view t k)"
    using frame [OF w] by (auto simp: fun_eq_iff)
  with acknowledged [OF w] show ?thesis by simp
qed

lemma write_all_prefix:
  "write_all ws s = (r, t) \<Longrightarrow>
     \<exists>n \<le> length ws. view t = apply_all (take n ws) (view s) \<and> (r = Inr () \<longrightarrow> n = length ws)"
proof (induction ws arbitrary: s)
  case Nil
  then show ?case by (simp add: returnS_def)
next
  case (Cons w ws)
  obtain q u where w: "store (fst w) (snd w) s = (q, u)" by fastforce
  show ?case
  proof (cases q)
    case (Inl e)
    with w Cons.prems have "t = u" "r = Inl e" by (auto simp: bindS_def)
    with write_view [OF w] show ?thesis
      by (auto intro: exI [where x = 0] exI [where x = 1])
  next
    case (Inr x)
    with w Cons.prems have "write_all ws u = (r, t)" by (auto simp: bindS_def)
    from Cons.IH [OF this] obtain n where
      "n \<le> length ws" "view t = apply_all (take n ws) (view u)" "r = Inr () \<longrightarrow> n = length ws" by blast
    with write_view_ack w Inr show ?thesis by (auto intro!: exI [where x = "Suc n"])
  qed
qed

end

text \<open>Evidence: what is there is never replaced by something else.\<close>

locale immutable_write = acknowledged_write +
  assumes kept: "store k v s = (r, t) \<Longrightarrow> view s k = Some u \<Longrightarrow> view t k = Some u"
begin

lemma write_all_kept: "write_all ws s = (r, t) \<Longrightarrow> view s k = Some u \<Longrightarrow> view t k = Some u"
proof (induction ws arbitrary: s)
  case (Cons w ws)
  obtain q x where w: "store (fst w) (snd w) s = (q, x)" by fastforce
  have "view x k = Some u"
    using kept [OF w] frame [OF w, of k] Cons.prems(2) by (cases "k = fst w") simp_all
  with Cons.IH w Cons.prems(1) show ?case by (cases q) (auto simp: bindS_def)
qed (simp add: returnS_def)

lemma second_write_same: "store k v s = (Inr (), t) \<Longrightarrow> store k w t = (Inr (), u) \<Longrightarrow> v = w"
  using acknowledged [of k v s t] kept [of k w t "Inr ()" u v] acknowledged [of k w t u] by simp

end

section \<open>The private store keeps the contract\<close>

lemma commit_Inr: "commit f d = (Inr u, e) \<Longrightarrow> \<exists>q. e = f (d\<lparr>faults := q\<rparr>)"
proof -
  assume a: "commit f d = (Inr u, e)"
  show ?thesis
  proof (cases "faults d")
    case Nil
    then have "d\<lparr>faults := []\<rparr> = d" by simp
    moreover from a Nil have "e = f d" by (simp add: commit_def)
    ultimately show ?thesis by metis
  next
    case (Cons x q)
    with a show ?thesis by (cases x) (auto simp: commit_def)
  qed
qed

lemma replace_ack: "tree_replace env h p (Some v) ex d = (Inr (), e) \<Longrightarrow> contents e p = Some v"
  by (cases v) (auto simp: tree_replace_def result_simps dest!: commit_Inr)

lemma seen_None [simp]: "seen r = None \<longleftrightarrow> r = None"
  by (simp add: seen_def)

lemma keeps_guarded_put:
  assumes "lookup_file p d \<noteq> None"
  shows "keeps (same_files d)
    (bindS (tree_read h p None) (\<lambda>latest.
     bindS (ensureS (seen latest = None) Store_Conflict) (\<lambda>_.
     bindS (tree_parent h False p) (\<lambda>fresh. k fresh))))"
  unfolding keeps_def
proof (intro allI impI)
  fix s assume s: "same_files d s"
  obtain a where a: "tree_read h p None s = (a, s)" using snd_tree_read by (metis prod.collapse)
  obtain b where b: "tree_parent h False p s = (b, s)" using parent_False by (metis prod.collapse)
  have "lookup_file p s \<noteq> None" using assms same_files_lookup [OF s] by simp
  with a b have "a = Inr None \<Longrightarrow> \<exists>x. b = Inl x"
    using tree_read_None [of h p None s s] by (cases b) auto
  with a b s show "same_files d
        (snd (bindS (tree_read h p None) (\<lambda>latest.
              bindS (ensureS (seen latest = None) Store_Conflict) (\<lambda>_.
              bindS (tree_parent h False p) (\<lambda>fresh. k fresh))) s))"
    by (cases a) (auto simp: snd_bindS bindS_def ensureS_def ensure_def)
qed

lemma replace_new_only:
  "lookup_file p d \<noteq> None \<Longrightarrow> keeps (same_files d) (tree_replace (\<lambda>d. d) h p (Some v) None)"
proof (cases v)
  case (fields b n m)
  assume "lookup_file p d \<noteq> None"
  then show ?thesis
    unfolding fields tree_replace_def
    by (simp only: option.case prod.case)
      (intro keeps_guarded_put keeps_bindS keeps_tree_read keeps_simple keeps_tree_parent
        commit_nothing keeps_getS_disk; assumption)
qed

lemma immutable_kept:
  "write_immutable (\<lambda>d. d) h p w d = (r, t) \<Longrightarrow> contents d p = Some u \<Longrightarrow> contents t p = Some u"
proof -
  assume w: "write_immutable (\<lambda>d. d) h p w d = (r, t)" and c: "contents d p = Some u"
  then have "lookup_file p d \<noteq> None" by (auto dest: contents_lookup)
  then have "keeps (same_files d) (write_immutable (\<lambda>d. d) h p w)"
    unfolding write_immutable_def
    by (intro preserved keeps_option) (auto split: prod.splits intro!: preserved replace_new_only)
  from same_files_keep [OF this w] c show ?thesis
    by (simp add: same_files_contents)
qed

lemma write_state_ack: "write_state env h p w d = (Inr (), e) \<Longrightarrow> contents e p = Some (fst w, snd w, 384)"
  by (auto simp: write_state_def result_simps dest!: replace_ack)

lemma write_new_ack: "write_new env h p w d = (Inr (), e) \<Longrightarrow> contents e p = Some (fst w, snd w, 384)"
  by (auto simp: write_new_def result_simps dest!: commit_Inr)

lemma write_immutable_ack:
  "write_immutable env h p w d = (Inr (), e) \<Longrightarrow> contents e p = Some (fst w, snd w, 384)"
  by (auto simp: write_immutable_def result_simps contents_def identity_def
      split: option.splits dest!: tree_read_Some replace_ack)

lemma wrote_contents:
  assumes "wrote p v d e"
  shows "contents e p = contents d p \<or> contents e p = Some v"
    and "q \<noteq> p \<Longrightarrow> contents e q = contents d q"
  using assms by (auto simp: wrote_def intro: contents_cong)

lemma keeps_wrote: "keeps (wrote p v d) m \<Longrightarrow> m d = (r, e) \<Longrightarrow> wrote p v d e"
  using keepsD [of "wrote p v d" m d r e] by simp

lemma new_kept:
  "write_new (\<lambda>d. d) h p w d = (r, t) \<Longrightarrow> contents d p = Some u \<Longrightarrow> contents t p = Some u"
proof -
  assume w: "write_new (\<lambda>d. d) h p w d = (r, t)" and c: "contents d p = Some u"
  have guard: "keeps (same_files d)
      (bindS (getS (\<lambda>d. ensure (lookup_file p d = None \<and> p \<notin> fst ` set (dirs d)) Store_Conflict)) k)" for k :: "unit \<Rightarrow> ('a, unit) dio"
    unfolding keeps_def
  proof (intro allI impI)
    fix s assume s: "same_files d s"
    with c have "lookup_file p s \<noteq> None" by (auto simp: same_files_lookup dest: contents_lookup)
    with s show "same_files d (snd (bindS (getS (\<lambda>d. ensure (lookup_file p d = None \<and> p \<notin> fst ` set (dirs d))
        Store_Conflict)) k s))"
      by (auto simp add: snd_bindS getS_def ensure_def)
  qed
  have "keeps (same_files d) (write_new (\<lambda>d. d) h p w)"
    unfolding write_new_def
    by (rule keeps_bindS [OF keeps_tree_parent], rule keeps_bindS [OF commit_nothing],
        rule keeps_bindS [OF keeps_getS_disk], rule guard)
  from same_files_keep [OF this w] c show ?thesis
    by (simp add: same_files_contents)
qed

text \<open>The private records: files of mode 0600 with their text and its length.\<close>

definition private_contents :: "'c disk \<Rightarrow> string list \<Rightarrow> ('c \<times> nat) option" where
  "private_contents d p =
     (case contents d p of Some (b, n, m) \<Rightarrow> if m = 384 then Some (b, n) else None | None \<Rightarrow> None)"

lemma private_contents_eq: "contents e q = contents d q \<Longrightarrow> private_contents e q = private_contents d q"
  by (simp add: private_contents_def)

lemma private_contents_Some: "private_contents d p = Some v \<longleftrightarrow> contents d p = Some (fst v, snd v, 384)"
  by (auto simp: private_contents_def split: option.splits if_splits)

lemma wrote_private:
  assumes "wrote p (fst v, snd v, 384) d e"
  shows "private_contents e p = private_contents d p \<or> private_contents e p = Some v"
    and "q \<noteq> p \<Longrightarrow> private_contents e q = private_contents d q"
  using wrote_contents [OF assms] by (auto intro: private_contents_eq simp: private_contents_Some)

interpretation replaced: acknowledged_write contents "\<lambda>p v. tree_replace (\<lambda>d. d) h p (Some v) ex" for h ex
  by unfold_locales
    (auto simp: replace_ack dest!: keeps_wrote [OF keeps_wrote_replace] dest: wrote_contents)

lemmas wrote_cases =
  wrote_private [OF keeps_wrote [OF keeps_wrote_state]]
  wrote_private [OF keeps_wrote [OF keeps_wrote_new]]
  wrote_private [OF keeps_wrote [OF keeps_wrote_immutable]]

interpretation states: acknowledged_write private_contents "write_state (\<lambda>d. d) h" for h
  by unfold_locales (simp add: private_contents_Some write_state_ack, (metis wrote_cases)+)

interpretation news: immutable_write private_contents "write_new (\<lambda>d. d) h" for h
  by unfold_locales
    (simp add: private_contents_Some write_new_ack, (metis wrote_cases new_kept private_contents_Some)+)

interpretation evidence: immutable_write private_contents "write_immutable (\<lambda>d. d) h" for h
  by unfold_locales
    (simp add: private_contents_Some write_immutable_ack,
      (metis wrote_cases immutable_kept private_contents_Some)+)

section \<open>A written file can be read back\<close>

lemma walk_grow:
  "walk False here ps fd d = (Inr x, d) \<Longrightarrow> map_le (map_of (dirs d)) (map_of (dirs e)) \<Longrightarrow> user e = user d \<Longrightarrow>
     walk False here ps fd e = (Inr x, e)"
proof (induction ps arbitrary: here fd)
  case (Cons p ps)
  then obtain i where i: "map_of (dirs d) (here @ [p]) = Some i"
    by (auto split: option.splits if_splits)
  with Cons.prems(2) have "map_of (dirs e) (here @ [p]) = Some i"
    by (auto simp: map_le_def dom_def)
  with Cons i show ?case
    by (auto simp: bindS_def liftS_def split: sum.splits prod.splits)
qed simp

lemma parent_grow:
  assumes "tree_parent h False p d = (Inr fd, d)" "top e = top d" "user e = user d"
    and "map_le (map_of (dirs d)) (map_of (dirs e))"
  shows "tree_parent h False p e = (Inr fd, e)"
  using assms walk_grow [OF _ assms(4,3)]
  by (auto simp: tree_parent_def bindS_def liftS_def raiseS_def split: option.splits sum.splits if_splits)

lemma parent_wrote: "wrote q v d e \<Longrightarrow> tree_parent h False p d = (Inr fd, d) \<Longrightarrow> tree_parent h False p e = (Inr fd, e)"
  unfolding wrote_def by (elim conjE) (rule parent_grow)

lemma parent_same_files: "same_files d e \<Longrightarrow> tree_parent h False p d = (Inr fd, d) \<Longrightarrow> tree_parent h False p e = (Inr fd, e)"
  unfolding same_files_def by (elim conjE) (rule parent_grow)

definition placed :: "handle \<Rightarrow> string list \<Rightarrow> 'c datum \<Rightarrow> 'c disk \<Rightarrow> 'c disk \<Rightarrow> bool" where
  "placed h p v d e \<longleftrightarrow>
     wrote p v d e \<and> (contents e p \<noteq> contents d p \<longrightarrow> (\<exists>fd. tree_parent h False p e = (Inr fd, e)))"

lemma placed_refl [simp]: "placed h p v d d"
  by (simp add: placed_def)

lemma placed_same_files: "placed h p v d e \<Longrightarrow> same_files e f \<Longrightarrow> placed h p v d f"
  unfolding placed_def using wrote_same_files same_files_contents parent_same_files by metis

lemma keeps_placed_same: "(\<And>e. keeps (same_files e) m) \<Longrightarrow> keeps (placed h p v d) m"
  by (metis keeps_def same_files_refl placed_same_files)

lemma keeps_placed_put:
  "keeps (placed h p (b, n, m) d) (bindS (tree_parent h False p) (\<lambda>fresh.
     bindS (ensureS (c fresh) x) (\<lambda>_. commit (put_file p b n m))))"
  unfolding keeps_def
proof (intro allI impI)
  fix s assume s: "placed h p (b, n, m) d s"
  obtain a where a: "tree_parent h False p s = (a, s)" using parent_False by (metis prod.collapse)
  define e where "e = snd (commit (put_file p b n m) s)"
  have e: "wrote p (b, n, m) d e"
    using keeps_wrote_put [of p b n m d] s by (auto simp: e_def keeps_def placed_def)
  have g: "top e = top s" "user e = user s" "dirs e = dirs s"
    by (auto simp: e_def commit_def split: list.splits outcome.splits)
  have "placed h p (b, n, m) d e" if "a = Inr fd" for fd
    using e parent_grow [OF a [unfolded that], of e] g by (auto simp: placed_def)
  with a s show "placed h p (b, n, m) d (snd (bindS (tree_parent h False p) (\<lambda>fresh.
     bindS (ensureS (c fresh) x) (\<lambda>_. commit (put_file p b n m))) s))"
    by (cases a) (auto simp: snd_bindS bindS_def ensureS_def ensure_def e_def)
qed

lemma keeps_placed_replace [preserved]: "keeps (placed h p v d) (tree_replace (\<lambda>d. d) h p (Some v) ex)"
proof (cases v)
  case (fields b n m)
  show ?thesis
    unfolding fields tree_replace_def
    by (simp only: option.case prod.case)
      (intro keeps_placed_put keeps_bindS keeps_tree_read keeps_simple
        keeps_placed_same [OF keeps_tree_parent] keeps_placed_same [OF commit_nothing] keeps_getS_disk)
qed

lemma keeps_placed_immutable [preserved]:
  "keeps (placed h p (fst w, snd w, 384) d) (write_immutable (\<lambda>d. d) h p w)"
  unfolding write_immutable_def
  by (intro preserved keeps_option) (auto split: prod.splits intro!: preserved)

lemma keeps_placed: "keeps (placed h p v d) m \<Longrightarrow> m d = (r, e) \<Longrightarrow> placed h p v d e"
  using keepsD [of "placed h p v d" m d r e] by simp

section \<open>Compare and swap\<close>

text \<open>
  How a disk may evolve, by this process or any other: every file that is not the old one
  carries a stamp taken after the old clock.
\<close>

definition stamped :: "'c disk \<Rightarrow> bool" where
  "stamped d \<longleftrightarrow> (\<forall>p f. lookup_file p d = Some f \<longrightarrow> stamp f < clock d)"

definition extends :: "'c disk \<Rightarrow> 'c disk \<Rightarrow> bool" where
  "extends d e \<longleftrightarrow>
     clock d \<le> clock e \<and>
     (\<forall>p f. lookup_file p e = Some f \<longrightarrow> lookup_file p d = Some f \<or> clock d \<le> stamp f)"

lemma extends_refl [simp]: "extends d d"
  by (simp add: extends_def)

lemma extends_trans: "extends d e \<Longrightarrow> extends e f \<Longrightarrow> extends d f"
  unfolding extends_def by (meson order_trans)

lemma same_files_extends: "same_files d e \<Longrightarrow> extends d e"
  by (auto simp: extends_def same_files_lookup) (simp add: same_files_def)

lemma extends_put_file: "extends d (put_file p b n m d)"
  by (auto simp: extends_def) (simp add: put_file_def)

lemma extends_identity:
  assumes "stamped d" "extends d e" "lookup_file p d = Some f" "lookup_file p e = Some g"
    and "identity g = identity f"
  shows "g = f"
  using assms by (fastforce simp: stamped_def extends_def identity_def)

lemma replace_swap:
  assumes "tree_replace env h p (Some (b, n, m)) ex d = (Inr (), d')"
  obtains c q r fd where "same_files d c" "tree_read h p None (env c) = (Inr r, env c)" "seen r = ex"
    "tree_parent h False p (env c) = (Inr fd, env c)" "d' = put_file p b n m (env c\<lparr>faults := q\<rparr>)"
proof -
  from assms obtain cur d1 x c1 y c2 r c3 fd where
    c0: "tree_read h p None d = (Inr cur, d1)" and p: "tree_parent h True p d1 = (Inr x, c1)"
    and c: "commit (\<lambda>d. d) c1 = (Inr y, c2)" and r: "tree_read h p None (env c2) = (Inr r, c3)" "seen r = ex"
    and f: "tree_parent h False p c3 = (Inr fd, c3)" and w: "commit (put_file p b n m) c3 = (Inr (), d')"
    by (simp add: tree_replace_def result_simps environment_def) (metis parent_keeps_disk)
  from c0 have "d1 = d" by (rule read_keeps_disk)
  from r(1) have "c3 = env c2" by (rule read_keeps_disk)
  moreover have "same_files d c2"
    using same_files_keep [OF keeps_tree_parent p [unfolded \<open>d1 = d\<close>]] same_files_keep [OF commit_nothing c]
    by (rule same_files_trans)
  moreover from commit_Inr [OF w] obtain q where "d' = put_file p b n m (c3\<lparr>faults := q\<rparr>)" by blast
  ultimately show ?thesis using that [of c2 r fd q] r f by simp
qed

lemma replace_ack_parent:
  "tree_replace (\<lambda>d. d) h p (Some v) ex d = (Inr (), e) \<Longrightarrow> \<exists>fd. tree_parent h False p e = (Inr fd, e)"
proof (cases v)
  case (fields b n m)
  assume "tree_replace (\<lambda>d. d) h p (Some v) ex d = (Inr (), e)"
  then have "tree_replace (\<lambda>d. d) h p (Some (b, n, m)) ex d = (Inr (), e)" by (simp add: fields)
  then obtain c q s fd where "tree_parent h False p c = (Inr fd, c)"
    "e = put_file p b n m (c\<lparr>faults := q\<rparr>)"
    by (rule replace_swap)
  with parent_grow [OF this(1), of e] show ?thesis by auto
qed

lemma immutable_ack_parent:
  "write_immutable (\<lambda>d. d) h p w d = (Inr (), e) \<Longrightarrow> \<exists>fd. tree_parent h False p e = (Inr fd, e)"
proof -
  assume "write_immutable (\<lambda>d. d) h p w d = (Inr (), e)"
  then obtain b t where r: "tree_read h p None d = (Inr b, t)" and
    k: "(case b of Some (b, m, i) \<Rightarrow> ensureS ((b, snd (snd i)) = w \<and> m = 384) Store_Conflict
       | None \<Rightarrow> tree_replace (\<lambda>d. d) h p (Some (fst w, snd w, 384)) None) t = (Inr (), e)"
    by (auto simp: write_immutable_def result_simps)
  show ?thesis
  proof (cases b)
    case None
    with k show ?thesis by (auto dest: replace_ack_parent)
  next
    case (Some v)
    with r k tree_read_Some [of h p None d "fst v" "fst (snd v)" "snd (snd v)" t] show ?thesis
      by (auto simp: ensureS_eq split: prod.splits)
  qed
qed


definition sample_disk :: "nat disk" where
  "sample_disk =
     \<lparr>user = 1000, top = Some \<lparr>downer = 1000, dmode = 448, inode = 1\<rparr>, dirs = [],
      files = [([''a''], \<lparr>body = 5, nbytes = 1, fmode = 384, stamp = 2, regular = True, links = 1, fowner = 1000\<rparr>)],
      clock = 3, faults = []\<rparr>"

lemma extends_sample: "extends e (put_file [''b''] (9 :: nat) 1 384 e)"
  by (rule extends_put_file)


text \<open>C7: Evidence is never rewritten: whatever an immutable write to any name does, and whichever
  of its disk operations fail, every private record that was there before keeps its text; and
  an acknowledged immutable write leaves exactly the text it was given.\<close>

theorem evidence_never_changes:
  assumes "write_immutable (\<lambda>d. d) h p v d = (r, e)"
  shows "(r = Inr () \<longrightarrow> private_contents e p = Some v) \<and>
    (private_contents d q = Some u \<longrightarrow> private_contents e q = Some u)"
  using assms evidence.acknowledged evidence.kept evidence.frame by (metis (full_types))

lemma evidence_never_changes_witness:
  "\<exists>e. write_immutable (\<lambda>d. d) (Some 1) [''a''] (7, 1) sample_disk = (Inl Store_Conflict, e) \<and>
     private_contents e [''a''] = Some (5, 1)"
proof -
  have f: "fst (write_immutable (\<lambda>d. d) (Some 1) [''a''] (7, 1) sample_disk) = Inl Store_Conflict"
    by code_simp
  have c: "private_contents sample_disk [''a''] = Some (5, 1)" by code_simp
  obtain e where e: "write_immutable (\<lambda>d. d) (Some 1) [''a''] (7, 1) sample_disk = (Inl Store_Conflict, e)"
    using f by (metis prod.collapse)
  from evidence_never_changes [OF e, of "[''a'']" "(5, 1)"] c e show ?thesis by auto
qed

text \<open>C8: When the directory at the root path is no longer the one the handle pinned, nothing is
  read and nothing is written: every operation fails and leaves the disk as it was.\<close>

theorem replaced_root_untouched:
  assumes "top d = Some t" "inode t \<noteq> root"
  shows "fst (tree_read (Some root) p mx d) = Inl Store_Conflict \<and>
    tree_replace env (Some root) p data ex d = (Inl Store_Conflict, d) \<and>
    write_state env (Some root) p v d = (Inl Store_Conflict, d) \<and>
    write_immutable env (Some root) p v d = (Inl Store_Conflict, d) \<and>
    (\<exists>x. write_new env (Some root) p v d = (Inl x, d))"
proof -
  have par: "\<exists>x. tree_parent (Some root) c p d = (Inl x, d) \<and> (x = Store_Conflict \<or> x = Unsafe_Path)" for c
    using assms by (auto simp: tree_parent_def bindS_def liftS_def raiseS_def path_result_def split: sum.splits)
  obtain y where "tree_parent (Some root) False p d = (Inl y, d)" "y = Store_Conflict \<or> y = Unsafe_Path"
    using par [of False] by blast
  then have rd: "tree_read (Some root) p mx d = (Inl Store_Conflict, d)" for mx
    by (auto simp: tree_read_def mapErrorS_def read_error_def)
  from par [of True] show ?thesis
    by (auto simp: tree_replace_def write_state_def write_immutable_def write_new_def bindS_def rd)
qed

lemma replaced_root_untouched_witness:
  "fst (tree_read (Some 4) [''a''] None sample_disk) = Inl Store_Conflict"
  using replaced_root_untouched [of sample_disk "\<lparr>downer = 1000, dmode = 448, inode = 1\<rparr>" 4 "[''a'']" None]
  by (simp add: sample_disk_def)

end
