(* ===== verification/Work_Records.thy ===== *)
theory Work_Records
  imports Json_Codec Private_Store
begin

text \<open>
  The documents of \<open>termcfg/work_state.py\<close>: launch contracts, type and instance bindings, the
  intent of one native operation and its receipt, with the JSON text they are stored as and the
  validation every read and every write performs.
  The types carry the JSON schema's types, constants and required keys (a text that does not
  have them decodes to nothing); the schema's patterns, bounds and the semantic checks are in
  \<open>validate\<close>. Dictionaries with free keys are sorted association lists, the order in which the
  program writes them. A file body is \<open>filed\<close>: the encoding of a document, or some other text
  with what it decodes to.
\<close>

section \<open>Documents\<close>

datatype launcher = Shell | Editor | Pi | Dsh | Codex
datatype policy = Legacy | Caller | Isolated
datatype kind = Default | Extra
datatype context_kind = Project | Named
datatype action = Workspace_Initial | Tab
datatype phase = Intended | Dispatched | Commit_Issued | Accepted | Completed | Unknown | Failed

record runtime =
  rt_generation :: string
  rt_identity :: string
  rt_policy :: policy

record launch =
  l_launcher :: launcher
  l_argv :: "string list"
  l_runtime :: "runtime option"
  l_paths :: "(string \<times> string option) list"

record inst =
  n_op :: string
  n_kind :: kind
  n_workspace :: string
  n_pane :: string
  n_terminal :: string
  n_tab :: string

record type_binding =
  t_cwd :: string
  t_home :: string
  t_launch :: launch
  t_digest :: string
  t_default :: "string option"
  t_sequence :: nat
  t_instances :: "(string \<times> inst) list"

record binding =
  b_owner :: string
  b_endpoint :: string
  b_generation :: "nat \<times> nat"
  b_epoch :: string
  b_context :: "context_kind \<times> string"
  b_start :: string
  b_home :: string
  b_workspace :: "string option"
  b_template :: string
  b_origin :: string
  b_types :: "(string \<times> type_binding) list"

record intent =
  i_op :: string
  i_owner :: string
  i_epoch :: string
  i_action :: action
  i_type :: string
  i_instance :: string
  i_kind :: kind
  i_payload :: string
  i_binding :: binding

record receipt =
  r_op :: string
  r_owner :: string
  r_epoch :: string
  r_action :: action
  r_type :: string
  r_instance :: string
  r_kind :: kind
  r_phase :: phase
  r_workspace :: "string option"
  r_pane :: "string option"
  r_terminal :: "string option"
  r_tab :: "string option"

datatype doc = Binding_Doc binding | Intent_Doc intent | Receipt_Doc receipt

section \<open>Their JSON text\<close>

fun launcher_name :: "launcher \<Rightarrow> string" where
  "launcher_name Shell = ''shell''"
| "launcher_name Editor = ''editor''"
| "launcher_name Pi = ''pi''"
| "launcher_name Dsh = ''dsh''"
| "launcher_name Codex = ''codex''"

fun policy_name :: "policy \<Rightarrow> string" where
  "policy_name Legacy = ''legacy''"
| "policy_name Caller = ''caller''"
| "policy_name Isolated = ''isolated''"

fun kind_name :: "kind \<Rightarrow> string" where
  "kind_name Default = ''default''"
| "kind_name Extra = ''extra''"

fun context_name :: "context_kind \<Rightarrow> string" where
  "context_name Project = ''project''"
| "context_name Named = ''named''"

fun action_name :: "action \<Rightarrow> string" where
  "action_name Workspace_Initial = ''workspace-initial''"
| "action_name Tab = ''tab''"

fun phase_name :: "phase \<Rightarrow> string" where
  "phase_name Intended = ''intent''"
| "phase_name Dispatched = ''dispatched''"
| "phase_name Commit_Issued = ''commit-issued''"
| "phase_name Accepted = ''accepted''"
| "phase_name Completed = ''completed''"
| "phase_name Unknown = ''unknown''"
| "phase_name Failed = ''failed''"

definition opt_json :: "('a \<Rightarrow> json) \<Rightarrow> 'a option \<Rightarrow> json" where
  "opt_json f x = (case x of None \<Rightarrow> JNull | Some y \<Rightarrow> f y)"

definition runtime_json :: "runtime \<Rightarrow> json" where
  "runtime_json r = JObj
     [(''generation'', JStr (rt_generation r)), (''identity'', JStr (rt_identity r)),
      (''policy'', JStr (policy_name (rt_policy r)))]"

definition launch_json :: "launch \<Rightarrow> json" where
  "launch_json l = JObj
     [(''argv'', JArr (map JStr (l_argv l))), (''launcher'', JStr (launcher_name (l_launcher l))),
      (''paths'', JObj (map (\<lambda>(k, v). (k, opt_json JStr v)) (l_paths l))),
      (''runtime'', opt_json runtime_json (l_runtime l))]"

definition inst_json :: "inst \<Rightarrow> json" where
  "inst_json n = JObj
     [(''kind'', JStr (kind_name (n_kind n))), (''op'', JStr (n_op n)), (''pane_id'', JStr (n_pane n)),
      (''tab_id'', JStr (n_tab n)), (''terminal_id'', JStr (n_terminal n)),
      (''workspace_id'', JStr (n_workspace n))]"

definition type_json :: "type_binding \<Rightarrow> json" where
  "type_json t = JObj
     [(''captured_home'', JStr (t_home t)), (''cwd'', JStr (t_cwd t)),
      (''default'', opt_json JStr (t_default t)), (''digest'', JStr (t_digest t)),
      (''instances'', JObj (map (\<lambda>(k, n). (k, inst_json n)) (t_instances t))),
      (''launch'', launch_json (t_launch t)), (''sequence'', JInt (int (t_sequence t)))]"

definition binding_json :: "binding \<Rightarrow> json" where
  "binding_json b = JObj
     [(''captured_home'', JStr (b_home b)),
      (''context'', JObj [(''key'', JStr (snd (b_context b))), (''kind'', JStr (context_name (fst (b_context b))))]),
      (''endpoint'', JStr (b_endpoint b)), (''epoch'', JStr (b_epoch b)),
      (''generation'', JArr [JInt (int (fst (b_generation b))), JInt (int (snd (b_generation b)))]),
      (''origin'', JStr (b_origin b)), (''owner'', JStr (b_owner b)), (''template'', JStr (b_template b)),
      (''types'', JObj (map (\<lambda>(k, t). (k, type_json t)) (b_types b))), (''version'', JInt 2),
      (''workspace_id'', opt_json JStr (b_workspace b)), (''workspace_start'', JStr (b_start b))]"

definition intent_json :: "intent \<Rightarrow> json" where
  "intent_json i = JObj
     [(''action'', JStr (action_name (i_action i))), (''binding'', binding_json (i_binding i)),
      (''epoch'', JStr (i_epoch i)), (''instance'', JStr (i_instance i)), (''kind'', JStr (kind_name (i_kind i))),
      (''op'', JStr (i_op i)), (''owner'', JStr (i_owner i)), (''payload_digest'', JStr (i_payload i)),
      (''type'', JStr (i_type i)), (''version'', JInt 2)]"

definition receipt_json :: "receipt \<Rightarrow> json" where
  "receipt_json r = JObj
     [(''action'', JStr (action_name (r_action r))), (''epoch'', JStr (r_epoch r)),
      (''instance'', JStr (r_instance r)), (''kind'', JStr (kind_name (r_kind r))), (''op'', JStr (r_op r)),
      (''owner'', JStr (r_owner r)), (''pane_id'', opt_json JStr (r_pane r)),
      (''phase'', JStr (phase_name (r_phase r))), (''tab_id'', opt_json JStr (r_tab r)),
      (''terminal_id'', opt_json JStr (r_terminal r)), (''type'', JStr (r_type r)), (''version'', JInt 2),
      (''workspace_id'', opt_json JStr (r_workspace r))]"

fun doc_json :: "doc \<Rightarrow> json" where
  "doc_json (Binding_Doc b) = binding_json b"
| "doc_json (Intent_Doc i) = intent_json i"
| "doc_json (Receipt_Doc r) = receipt_json r"

text \<open>A file body: the program's encoding of a document, or another text.\<close>

datatype 'd filed = Encoded 'd | Other_Text "'d option" nat

fun decoded :: "'d filed \<Rightarrow> 'd option" where
  "decoded (Encoded d) = Some d"
| "decoded (Other_Text m n) = m"

section \<open>Validation\<close>

text \<open>Exit code and reason of a \<open>TermcfgError\<close>.\<close>

type_synonym work_error = "nat \<times> string"

definition conflict :: work_error where
  "conflict = (4, ''work_state_conflict'')"

definition because :: "string \<Rightarrow> work_error" where
  "because reason = (4, reason)"

text \<open>
  What the code takes from outside: \<open>hashlib.sha256(_).hexdigest()\<close>, and \<open>Path.resolve\<close> on the
  file system, which may raise.
\<close>

record work_env =
  sha :: "string \<Rightarrow> string"
  resolve :: "string \<Rightarrow> string option"

definition literal_ok :: "string \<Rightarrow> bool" where
  "literal_ok s \<longleftrightarrow> s \<noteq> [] \<and> list_all (\<lambda>c. \<not> (code c < 32 \<or> (127 \<le> code c \<and> code c \<le> 159))) s"

text \<open>\<open>str(Path(s))\<close> of an absolute path: POSIX keeps exactly two leading slashes.\<close>

definition posix_string :: "string \<Rightarrow> string" where
  "posix_string s =
     (let parts = path_parts s in
        (if take 2 s = ''//'' \<and> take 3 s \<noteq> ''///'' then ''//'' @ join ''/'' parts else ''/'' @ join ''/'' parts))"

definition absolute :: "string \<Rightarrow> work_error + string" where
  "absolute s =
     (if literal_ok s \<and> take 1 s = ''/'' \<and> ''..'' \<notin> set (split_on CHR ''/'' s)
      then Inr (posix_string s) else Inl conflict)"

definition canonical_endpoint :: "work_env \<Rightarrow> string \<Rightarrow> work_error + string" where
  "canonical_endpoint E s =
     bindE (absolute s) (\<lambda>p. case resolve E p of
        None \<Rightarrow> Inl (because ''work_endpoint_identity_invalid'') | Some q \<Rightarrow> Inr q)"

definition id_ok :: "string \<Rightarrow> bool" where
  "id_ok s \<longleftrightarrow> s \<noteq> [] \<and> alpha_char (hd s) \<and> length s \<le> 64 \<and>
     list_all (\<lambda>c. alnum_char c \<or> c = CHR ''_'' \<or> c = CHR ''-'') (tl s)"

definition context_owner :: "work_env \<Rightarrow> string \<Rightarrow> context_kind \<times> string \<Rightarrow> work_error + string" where
  "context_owner E socket c =
     bindE (ensure (literal_ok (snd c)) conflict) (\<lambda>_.
     bindE (if fst c = Named then bindE (ensure (id_ok (snd c)) conflict) (\<lambda>_. Inr (snd c))
            else absolute (snd c)) (\<lambda>key.
     bindE (canonical_endpoint E socket) (\<lambda>endpoint.
       Inr (digest (sha E) (JObj [(''endpoint'', JStr endpoint), (''key'', JStr key),
         (''kind'', JStr (context_name (fst c)))])))))"

definition launch_digest :: "work_env \<Rightarrow> string \<Rightarrow> string \<Rightarrow> launch \<Rightarrow> string" where
  "launch_digest E cwd home l =
     digest (sha E) (JObj [(''captured_home'', JStr home), (''cwd'', JStr cwd), (''launch'', launch_json l)])"

text \<open>The strings of a document, keys included: each must be a literal.\<close>

definition opt_list :: "'a option \<Rightarrow> 'a list" where
  "opt_list x = (case x of None \<Rightarrow> [] | Some y \<Rightarrow> [y])"

definition launch_strings :: "launch \<Rightarrow> string list" where
  "launch_strings l = l_argv l @
     concat (map (\<lambda>(k, v). k # opt_list v) (l_paths l)) @
     (case l_runtime l of None \<Rightarrow> [] | Some r \<Rightarrow> [rt_generation r, rt_identity r])"

definition inst_strings :: "inst \<Rightarrow> string list" where
  "inst_strings n = [n_op n, n_workspace n, n_pane n, n_terminal n, n_tab n]"

definition type_strings :: "type_binding \<Rightarrow> string list" where
  "type_strings t = [t_cwd t, t_home t, t_digest t] @ launch_strings (t_launch t) @ opt_list (t_default t) @
     concat (map (\<lambda>(k, n). k # inst_strings n) (t_instances t))"

definition binding_strings :: "binding \<Rightarrow> string list" where
  "binding_strings b =
     [b_owner b, b_endpoint b, b_epoch b, snd (b_context b), b_start b, b_home b, b_template b, b_origin b] @
     opt_list (b_workspace b) @ concat (map (\<lambda>(k, t). k # type_strings t) (b_types b))"

definition intent_strings :: "intent \<Rightarrow> string list" where
  "intent_strings i =
     [i_op i, i_owner i, i_epoch i, i_type i, i_instance i, i_payload i] @ binding_strings (i_binding i)"

definition receipt_strings :: "receipt \<Rightarrow> string list" where
  "receipt_strings r =
     [r_op r, r_owner r, r_epoch r, r_type r, r_instance r] @
     concat (map opt_list [r_workspace r, r_pane r, r_terminal r, r_tab r])"

text \<open>
  The patterns and bounds of the schemas. A pattern is searched for by the validator, where a
  final newline passes; \<open>_literal\<close> then refuses the newline, so the two together are these tests.
\<close>

definition path_names :: "string list" where
  "path_names = [''HOME'', ''XDG_CACHE_HOME'', ''XDG_CONFIG_HOME'', ''XDG_DATA_HOME'', ''XDG_RUNTIME_DIR'', ''XDG_STATE_HOME'']"

definition rooted :: "string \<Rightarrow> bool" where
  "rooted s \<longleftrightarrow> take 1 s = ''/''"

definition opt_ok :: "('a \<Rightarrow> bool) \<Rightarrow> 'a option \<Rightarrow> bool" where
  "opt_ok f x \<longleftrightarrow> (case x of None \<Rightarrow> True | Some y \<Rightarrow> f y)"

definition launch_schema :: "launch \<Rightarrow> bool" where
  "launch_schema l \<longleftrightarrow>
     l_argv l \<noteq> [] \<and> length (l_argv l) \<le> 32 \<and>
     opt_ok (\<lambda>r. is_hex 64 (rt_generation r)) (l_runtime l) \<and>
     list_all (\<lambda>(k, v). k \<in> set path_names \<and> opt_ok rooted v) (l_paths l) \<and>
     ''HOME'' \<in> fst ` set (l_paths l)"

definition type_schema :: "type_binding \<Rightarrow> bool" where
  "type_schema t \<longleftrightarrow>
     rooted (t_cwd t) \<and> rooted (t_home t) \<and> launch_schema (t_launch t) \<and> is_hex 64 (t_digest t) \<and>
     opt_ok (is_hex 32) (t_default t) \<and> length (t_instances t) \<le> 4096 \<and>
     list_all (\<lambda>(k, n). is_hex 32 k \<and> is_hex 32 (n_op n)) (t_instances t)"

definition binding_schema :: "binding \<Rightarrow> bool" where
  "binding_schema b \<longleftrightarrow>
     is_hex 64 (b_owner b) \<and> rooted (b_endpoint b) \<and> is_hex 32 (b_epoch b) \<and> rooted (b_start b) \<and>
     rooted (b_home b) \<and> id_ok (b_template b) \<and> length (b_types b) \<le> 4096 \<and>
     list_all (\<lambda>(k, t). id_ok k \<and> type_schema t) (b_types b)"

definition intent_schema :: "intent \<Rightarrow> bool" where
  "intent_schema i \<longleftrightarrow>
     is_hex 32 (i_op i) \<and> is_hex 64 (i_owner i) \<and> is_hex 32 (i_epoch i) \<and> id_ok (i_type i) \<and>
     is_hex 32 (i_instance i) \<and> is_hex 64 (i_payload i) \<and> binding_schema (i_binding i)"

definition receipt_schema :: "receipt \<Rightarrow> bool" where
  "receipt_schema r \<longleftrightarrow>
     is_hex 32 (r_op r) \<and> is_hex 64 (r_owner r) \<and> is_hex 32 (r_epoch r) \<and> id_ok (r_type r) \<and>
     is_hex 32 (r_instance r)"

definition native_launcher :: "launcher \<Rightarrow> bool" where
  "native_launcher l \<longleftrightarrow> l = Pi \<or> l = Dsh"

definition check_type :: "work_env \<Rightarrow> string option \<Rightarrow> type_binding \<Rightarrow> work_error + unit" where
  "check_type E workspace t =
     bindE (absolute (t_cwd t)) (\<lambda>_.
     bindE (absolute (t_home t)) (\<lambda>_.
     bindE (absolute (hd (l_argv (t_launch t)))) (\<lambda>_.
     bindE (ensure (map_of (l_paths (t_launch t)) ''HOME'' = Some (Some (t_home t)) \<and>
              native_launcher (l_launcher (t_launch t)) = (l_runtime (t_launch t) \<noteq> None))
            (because ''work_launch_boundary_invalid'')) (\<lambda>_.
     bindE (checkE (\<lambda>(k, v). case v of None \<Rightarrow> Inr () | Some p \<Rightarrow> bindE (absolute p) (\<lambda>_. Inr ()))
              (l_paths (t_launch t))) (\<lambda>_.
     bindE (ensure (t_digest t = launch_digest E (t_cwd t) (t_home t) (t_launch t))
            (because ''work_type_binding_invalid'')) (\<lambda>_.
     bindE (case t_default t of
              None \<Rightarrow> Inr ()
            | Some d \<Rightarrow> ensure (case map_of (t_instances t) d of None \<Rightarrow> False | Some n \<Rightarrow> n_kind n = Default)
                (because ''work_default_binding_invalid'')) (\<lambda>_.
       ensure (length (filter (\<lambda>(k, n). n_kind n = Default \<and> Some (n_workspace n) = workspace) (t_instances t)) \<le> 1)
         (because ''work_default_binding_invalid''))))))))"

definition validate_binding :: "work_env \<Rightarrow> binding \<Rightarrow> work_error + unit" where
  "validate_binding E b =
     bindE (ensure (binding_schema b) conflict) (\<lambda>_.
     bindE (ensure (list_all literal_ok (binding_strings b)) conflict) (\<lambda>_.
     bindE (context_owner E (b_endpoint b) (b_context b)) (\<lambda>owner.
     bindE (ensure (b_owner b = owner) conflict) (\<lambda>_.
     bindE (checkE (\<lambda>s. bindE (absolute s) (\<lambda>_. Inr ())) [b_endpoint b, b_start b, b_home b]) (\<lambda>_.
     bindE (if fst (b_context b) = Project then bindE (absolute (snd (b_context b))) (\<lambda>_. Inr ()) else Inr ()) (\<lambda>_.
       checkE (\<lambda>(k, t). check_type E (b_workspace b) t) (b_types b)))))))"

definition validate_intent :: "work_env \<Rightarrow> intent \<Rightarrow> work_error + unit" where
  "validate_intent E i =
     bindE (ensure (intent_schema i) conflict) (\<lambda>_.
     bindE (ensure (list_all literal_ok (intent_strings i)) conflict) (\<lambda>_.
     bindE (validate_binding E (i_binding i)) (\<lambda>_.
     bindE (ensure (i_owner i = b_owner (i_binding i) \<and> i_epoch i = b_epoch (i_binding i) \<and>
              (i_action i = Workspace_Initial) = (b_workspace (i_binding i) = None)) conflict) (\<lambda>_.
       (case map_of (b_types (i_binding i)) (i_type i) of
          None \<Rightarrow> Inl (because ''work_intent_instance_invalid'')
        | Some t \<Rightarrow>
            ensure (i_instance i \<notin> fst ` set (t_instances t) \<and>
                \<not> (i_action i = Workspace_Initial \<and> i_kind i \<noteq> Default) \<and>
                \<not> (i_kind i = Default \<and> t_default t \<noteq> None))
              (because ''work_intent_instance_invalid''))))))"

definition validate_receipt :: "receipt \<Rightarrow> work_error + unit" where
  "validate_receipt r =
     bindE (ensure (receipt_schema r) conflict) (\<lambda>_.
       ensure (list_all literal_ok (receipt_strings r)) conflict)"

datatype kinds = Bindings | Intents | Receipts

fun validate :: "work_env \<Rightarrow> kinds \<Rightarrow> doc \<Rightarrow> work_error + doc" where
  "validate E Bindings (Binding_Doc b) = bindE (validate_binding E b) (\<lambda>_. Inr (Binding_Doc b))"
| "validate E Intents (Intent_Doc i) = bindE (validate_intent E i) (\<lambda>_. Inr (Intent_Doc i))"
| "validate E Receipts (Receipt_Doc r) = bindE (validate_receipt r) (\<lambda>_. Inr (Receipt_Doc r))"
| "validate E k d = Inl conflict"

end
