(* ===== verification/Work_State.thy ===== *)
theory Work_State
  imports Work_Records
begin

text \<open>
  \<open>WorkState\<close> of \<open>termcfg/work_state.py\<close>: bindings, intents and receipts as private files under
  one directory per endpoint. The caller holds the lifecycle lock, so no other process changes
  the directory during an operation. Every operation is a function of the session and the disk;
  every disk change may fail in the three ways of the private store.
\<close>

record session =
  s_env :: work_env
  s_socket :: string
  s_generation :: "nat \<times> nat"
  s_handle :: handle
  s_writable :: bool

type_synonym work_disk = "doc filed disk"
type_synonym 'a wio = "(work_disk, work_error, 'a) io"

text \<open>\<open>_io\<close>: the private store's exceptions as reported by this component.\<close>

fun io_error :: "store_error \<Rightarrow> work_error" where
  "io_error Store_Conflict = (4, ''work_private_state_io_failed'')"
| "io_error Store_Busy = (4, ''work_private_state_io_failed'')"
| "io_error Unsafe_Path = (4, ''work_private_state_unsafe'')"
| "io_error Missing = (6, ''work_private_state_io_failed'')"
| "io_error IO_Failure = (6, ''work_private_state_io_failed'')"

definition max_bytes :: nat where "max_bytes = 1024 * 1024"
definition max_records :: nat where "max_records = 4096"

fun kind_dir :: "kinds \<Rightarrow> string" where
  "kind_dir Bindings = ''bindings''"
| "kind_dir Intents = ''intents''"
| "kind_dir Receipts = ''receipts''"

fun key_length :: "kinds \<Rightarrow> nat" where
  "key_length Bindings = 64"
| "key_length _ = 32"

definition record_path :: "kinds \<Rightarrow> string \<Rightarrow> string list" where
  "record_path k key = [kind_dir k, key @ ''.json'']"

definition record_name :: "kinds \<Rightarrow> string \<Rightarrow> work_error + string list" where
  "record_name k key = (if is_hex (key_length k) key then Inr (record_path k key) else Inl conflict)"

fun doc_key :: "doc \<Rightarrow> string" where
  "doc_key (Binding_Doc b) = b_owner b"
| "doc_key (Intent_Doc i) = i_op i"
| "doc_key (Receipt_Doc r) = r_op r"

definition checked_doc :: "session \<Rightarrow> kinds \<Rightarrow> string \<Rightarrow> (doc filed \<times> nat \<times> ident) \<Rightarrow> work_error + doc" where
  "checked_doc S k key = (\<lambda>(b, mode, i).
     if mode \<noteq> 384 then Inl (because ''work_private_state_unsafe'')
     else (case decoded b of
             None \<Rightarrow> Inl conflict
           | Some d \<Rightarrow> bindE (validate (s_env S) k d) (\<lambda>d.
               if doc_key d = key then Inr d else Inl conflict)))"

definition read_doc :: "session \<Rightarrow> kinds \<Rightarrow> string \<Rightarrow> doc option wio" where
  "read_doc S k key =
     bindS (liftS (record_name k key)) (\<lambda>p.
     bindS (mapErrorS io_error (tree_read (s_handle S) p (Some max_bytes))) (\<lambda>r.
       case r of
         None \<Rightarrow> returnS None
       | Some c \<Rightarrow> bindS (liftS (checked_doc S k key c)) (\<lambda>d. returnS (Some d))))"

definition doc_bytes :: "doc \<Rightarrow> nat" where
  "doc_bytes d = length (json_bytes (doc_json d))"

definition write_doc :: "session \<Rightarrow> kinds \<Rightarrow> string \<Rightarrow> doc \<Rightarrow> bool \<Rightarrow> unit wio" where
  "write_doc S k key d immutable =
     bindS (ensureS (s_writable S) (because ''work_state_read_only'')) (\<lambda>_.
     bindS (liftS (validate (s_env S) k d)) (\<lambda>_.
     bindS (ensureS (doc_bytes d \<le> max_bytes) conflict) (\<lambda>_.
     bindS (liftS (record_name k key)) (\<lambda>p.
       if immutable
       then mapErrorS io_error (write_immutable (\<lambda>d. d) (s_handle S) p (Encoded d, doc_bytes d))
       else
         bindS (mapErrorS io_error (tree_read (s_handle S) p (Some max_bytes))) (\<lambda>earlier.
         bindS (ensureS (case earlier of None \<Rightarrow> True | Some (b, mode, i) \<Rightarrow> mode = 384)
           (because ''work_private_state_unsafe'')) (\<lambda>_.
           mapErrorS io_error
             (tree_replace (\<lambda>d. d) (s_handle S) p (Some (Encoded d, doc_bytes d, 384)) (seen earlier))))))))"

text \<open>\<open>os.listdir\<close> of a record directory, sorted.\<close>

definition list_names :: "string list \<Rightarrow> work_disk \<Rightarrow> string list" where
  "list_names dir d =
     sort (remdups (map last (filter (\<lambda>p. p \<noteq> [] \<and> butlast p = dir) (map fst (files d) @ map fst (dirs d)))))"

definition stem :: "string \<Rightarrow> string" where
  "stem name = take (length name - 5) name"

definition record_file :: "nat \<Rightarrow> string \<Rightarrow> bool" where
  "record_file n name \<longleftrightarrow> drop (length name - 5) name = ''.json'' \<and> is_hex n (stem name)"

text \<open>
  A record that vanishes between the listing and its read would be subscripted as \<open>None\<close>; under
  the lock that does not happen (\<open>listed\<close> below), the branch stands for Python's own exception.
\<close>

definition type_error :: work_error where
  "type_error = (1, ''TypeError'')"

fun read_each :: "session \<Rightarrow> kinds \<Rightarrow> string list \<Rightarrow> doc list wio" where
  "read_each S k [] = returnS []"
| "read_each S k (name # names) =
     bindS (read_doc S k (stem name)) (\<lambda>r. case r of
        None \<Rightarrow> raiseS type_error
      | Some d \<Rightarrow> bindS (read_each S k names) (\<lambda>ds. returnS (d # ds)))"

definition list_docs :: "session \<Rightarrow> kinds \<Rightarrow> doc list wio" where
  "list_docs S k d =
     (case mapErrorS id (tree_parent (s_handle S) False [kind_dir k, ''probe'']) d of
        (Inl Missing, e) \<Rightarrow> (Inr [], e)
      | (Inl x, e) \<Rightarrow> (Inl (io_error x), e)
      | (Inr _, e) \<Rightarrow>
          (let names = list_names [kind_dir k] e in
             if length names > max_records \<or> \<not> list_all (record_file (key_length k)) names
             then (Inl conflict, e)
             else read_each S k names e))"

definition check_endpoint :: "session \<Rightarrow> binding \<Rightarrow> work_error + unit" where
  "check_endpoint S b =
     ensure (b_endpoint b = s_socket S \<and> b_generation b = s_generation S)
       (because ''work_endpoint_generation_changed'')"

fun as_binding :: "doc \<Rightarrow> work_error + binding" where
  "as_binding (Binding_Doc b) = Inr b"
| "as_binding _ = Inl conflict"

fun as_intent :: "doc \<Rightarrow> work_error + intent" where
  "as_intent (Intent_Doc i) = Inr i"
| "as_intent _ = Inl conflict"

fun as_receipt :: "doc \<Rightarrow> work_error + receipt" where
  "as_receipt (Receipt_Doc r) = Inr r"
| "as_receipt _ = Inl conflict"

definition all_bindings :: "session \<Rightarrow> binding list wio" where
  "all_bindings S =
     bindS (list_docs S Bindings) (\<lambda>ds.
     bindS (liftS (mapE as_binding ds)) (\<lambda>bs.
     bindS (liftS (checkE (check_endpoint S) bs)) (\<lambda>_. returnS bs)))"

definition all_intents :: "session \<Rightarrow> intent list wio" where
  "all_intents S =
     bindS (list_docs S Intents) (\<lambda>ds.
     bindS (liftS (mapE as_intent ds)) (\<lambda>is.
     bindS (liftS (checkE (\<lambda>i. check_endpoint S (i_binding i)) is)) (\<lambda>_. returnS is)))"

definition load_binding :: "session \<Rightarrow> string \<Rightarrow> binding option wio" where
  "load_binding S owner =
     bindS (read_doc S Bindings owner) (\<lambda>r. case r of
        None \<Rightarrow> returnS None
      | Some d \<Rightarrow>
          bindS (liftS (as_binding d)) (\<lambda>b.
          bindS (liftS (check_endpoint S b)) (\<lambda>_. returnS (Some b))))"

definition read_intent :: "session \<Rightarrow> string \<Rightarrow> intent option wio" where
  "read_intent S op =
     bindS (read_doc S Intents op) (\<lambda>r. case r of
        None \<Rightarrow> returnS None
      | Some d \<Rightarrow>
          bindS (liftS (as_intent d)) (\<lambda>i.
          bindS (liftS (check_endpoint S (i_binding i))) (\<lambda>_. returnS (Some i))))"

definition read_receipt :: "session \<Rightarrow> string \<Rightarrow> receipt option wio" where
  "read_receipt S op =
     bindS (read_doc S Receipts op) (\<lambda>r. case r of
        None \<Rightarrow> returnS None
      | Some d \<Rightarrow> bindS (liftS (as_receipt d)) (\<lambda>x. returnS (Some x)))"

section \<open>Bindings\<close>

definition same_context :: "binding \<Rightarrow> binding \<Rightarrow> bool" where
  "same_context p v \<longleftrightarrow>
     b_epoch p = b_epoch v \<and> b_context p = b_context v \<and> b_start p = b_start v \<and>
     b_home p = b_home v \<and> b_workspace p = b_workspace v"

definition check_instances :: "type_binding \<Rightarrow> type_binding \<Rightarrow> work_error + unit" where
  "check_instances item current =
     checkE (\<lambda>(id, n). case map_of (t_instances current) id of
         None \<Rightarrow> Inr ()
       | Some m \<Rightarrow> ensure (n_op n = n_op m \<and> n_kind n = n_kind m \<and> n_terminal n = n_terminal m)
           (because ''work_instance_binding_changed''))
       (t_instances item)"

definition check_same_types :: "binding \<Rightarrow> binding \<Rightarrow> work_error + unit" where
  "check_same_types previous v =
     checkE (\<lambda>(key, item). case map_of (b_types v) key of
         None \<Rightarrow> Inl (because ''work_type_binding_changed'')
       | Some current \<Rightarrow>
           bindE (ensure (t_cwd current = t_cwd item \<and> t_home current = t_home item \<and>
               t_launch current = t_launch item \<and> t_digest current = t_digest item)
             (because ''work_type_binding_changed'')) (\<lambda>_.
           bindE (ensure (t_sequence item \<le> t_sequence current)
             (because ''work_instance_sequence_changed'')) (\<lambda>_.
             check_instances item current)))
       (b_types previous)"

definition save_binding :: "session \<Rightarrow> binding \<Rightarrow> unit wio" where
  "save_binding S v =
     bindS (liftS (check_endpoint S v)) (\<lambda>_.
     bindS (ensureS (b_workspace v \<noteq> None) conflict) (\<lambda>_.
     bindS (load_binding S (b_owner v)) (\<lambda>previous.
     bindS (liftS (case previous of None \<Rightarrow> Inr () | Some p \<Rightarrow>
         bindE (ensure (same_context p v) (because ''work_active_binding_changed'')) (\<lambda>_.
           check_same_types p v))) (\<lambda>_.
       write_doc S Bindings (b_owner v) (Binding_Doc v) False))))"

section \<open>Intents and receipts\<close>

text \<open>\<open>_completed_binding\<close>: the binding that durably holds the instance of a completed receipt.\<close>

definition receipt_matches :: "receipt \<Rightarrow> string \<Rightarrow> string \<Rightarrow> inst \<Rightarrow> bool" where
  "receipt_matches r key locator n \<longleftrightarrow>
     n_op n = r_op r \<and> key = r_type r \<and> locator = r_instance r \<and> n_kind n = r_kind r"

definition found_instances :: "binding \<Rightarrow> receipt \<Rightarrow> inst list" where
  "found_instances b r =
     concat (map (\<lambda>(key, t). map snd (filter (\<lambda>(locator, n). receipt_matches r key locator n) (t_instances t)))
       (b_types b))"

definition native_ids :: "receipt \<Rightarrow> string option list" where
  "native_ids r = [r_workspace r, r_pane r, r_terminal r, r_tab r]"

definition completed_binding :: "session \<Rightarrow> receipt \<Rightarrow> binding wio" where
  "completed_binding S r =
     bindS (load_binding S (r_owner r)) (\<lambda>binding.
       case binding of
         None \<Rightarrow> raiseS (because ''work_registration_not_durable'')
       | Some b \<Rightarrow>
           bindS (ensureS (b_epoch b = r_epoch r \<and> b_workspace b = r_workspace r)
             (because ''work_registration_not_durable'')) (\<lambda>_.
           bindS (ensureS (case found_instances b r of
               [n] \<Rightarrow> native_ids r = [Some (n_workspace n), Some (n_pane n), Some (n_terminal n), Some (n_tab n)]
             | _ \<Rightarrow> False) (because ''work_registration_not_durable'')) (\<lambda>_.
             returnS b)))"

datatype pending_entry = Pending_Receipt receipt | Pending_Op string

definition same_operation :: "receipt \<Rightarrow> intent \<Rightarrow> bool" where
  "same_operation r i \<longleftrightarrow>
     r_op r = i_op i \<and> r_owner r = i_owner i \<and> r_epoch r = i_epoch i \<and> r_action r = i_action i \<and>
     r_type r = i_type i \<and> r_instance r = i_instance i \<and> r_kind r = i_kind i"

fun pending_orphans :: "session \<Rightarrow> string \<Rightarrow> string list \<Rightarrow> receipt list \<Rightarrow> pending_entry list wio" where
  "pending_orphans S owner known [] = returnS []"
| "pending_orphans S owner known (r # rs) =
     (if r_owner r = owner \<and> r_op r \<notin> set known
      then if r_phase r \<noteq> Completed
           then bindS (pending_orphans S owner known rs)
                  (\<lambda>l. returnS (Pending_Receipt (r\<lparr>r_phase := Unknown\<rparr>) # l))
           else bindS (completed_binding S r) (\<lambda>_. pending_orphans S owner known rs)
      else pending_orphans S owner known rs)"

fun pending_intents :: "session \<Rightarrow> string \<Rightarrow> intent list \<Rightarrow> pending_entry list wio" where
  "pending_intents S owner [] = returnS []"
| "pending_intents S owner (i # is) =
     (if i_owner i \<noteq> owner then pending_intents S owner is
      else bindS (read_receipt S (i_op i)) (\<lambda>receipt. case receipt of
          None \<Rightarrow> bindS (pending_intents S owner is) (\<lambda>l. returnS (Pending_Op (i_op i) # l))
        | Some r \<Rightarrow>
            if \<not> same_operation r i then raiseS conflict
            else if r_phase r \<noteq> Completed
            then bindS (pending_intents S owner is) (\<lambda>l. returnS (Pending_Receipt r # l))
            else bindS (completed_binding S r) (\<lambda>_. pending_intents S owner is)))"

definition all_receipts :: "session \<Rightarrow> receipt list wio" where
  "all_receipts S = bindS (list_docs S Receipts) (\<lambda>ds. liftS (mapE as_receipt ds))"

definition pending :: "session \<Rightarrow> string \<Rightarrow> pending_entry list wio" where
  "pending S owner =
     bindS (all_intents S) (\<lambda>is.
     bindS (all_receipts S) (\<lambda>rs.
     bindS (pending_orphans S owner (map i_op is) rs) (\<lambda>first.
     bindS (pending_intents S owner is) (\<lambda>second. returnS (first @ second)))))"

definition replace_type_binding :: "session \<Rightarrow> string \<Rightarrow> string \<Rightarrow> type_binding \<Rightarrow> type_binding \<Rightarrow> binding wio" where
  "replace_type_binding S owner key expected replacement =
     bindS (load_binding S owner) (\<lambda>binding.
       case binding of
         None \<Rightarrow> raiseS (because ''work_rebind_state_changed'')
       | Some b \<Rightarrow>
           bindS (ensureS (map_of (b_types b) key = Some expected) (because ''work_rebind_state_changed'')) (\<lambda>_.
           bindS (pending S owner) (\<lambda>open_ops.
           bindS (ensureS (open_ops = []) (because ''work_rebind_state_changed'')) (\<lambda>_.
           bindS (ensureS (t_default replacement = None \<and> t_instances replacement = [] \<and>
               t_sequence expected \<le> t_sequence replacement) (because ''work_rebind_state_changed'')) (\<lambda>_.
           let b' = b\<lparr>b_types := dput key replacement (b_types b)\<rparr> in
             bindS (liftS (validate_binding (s_env S) b')) (\<lambda>_.
             bindS (write_doc S Bindings owner (Binding_Doc b') False) (\<lambda>_. returnS b')))))))"

definition new_receipt :: "intent \<Rightarrow> receipt" where
  "new_receipt i =
     \<lparr>r_op = i_op i, r_owner = i_owner i, r_epoch = i_epoch i, r_action = i_action i, r_type = i_type i,
      r_instance = i_instance i, r_kind = i_kind i, r_phase = Intended,
      r_workspace = None, r_pane = None, r_terminal = None, r_tab = None\<rparr>"

definition make_intent :: "string \<Rightarrow> binding \<Rightarrow> action \<Rightarrow> string \<Rightarrow> string \<Rightarrow> string \<Rightarrow> kind \<Rightarrow> intent" where
  "make_intent op b a payload key locator k =
     \<lparr>i_op = op, i_owner = b_owner b, i_epoch = b_epoch b, i_action = a, i_type = key,
      i_instance = locator, i_kind = k, i_payload = payload, i_binding = b\<rparr>"

text \<open>What must hold between the stored binding and the one a new intent carries.\<close>

definition check_base :: "intent \<Rightarrow> binding option \<Rightarrow> work_error + unit" where
  "check_base i existing =
     (let b = i_binding i in
      bindE (ensure (\<not> (i_action i = Workspace_Initial \<and> existing \<noteq> None))
        (because ''work_context_already_bound'')) (\<lambda>_.
      bindE (ensure (\<not> (i_action i = Workspace_Initial \<and> fst ` set (b_types b) \<noteq> {i_type i}))
        (because ''work_initial_type_binding_changed'')) (\<lambda>_.
      if i_action i \<noteq> Tab then Inr ()
      else (case existing of
          None \<Rightarrow> Inl (because ''work_active_binding_changed'')
        | Some e \<Rightarrow>
            bindE (ensure (same_context e b) (because ''work_active_binding_changed'')) (\<lambda>_.
            bindE (ensure (list_all (\<lambda>(k, t). map_of (b_types b) k = Some t) (b_types e))
              (because ''work_type_binding_changed'')) (\<lambda>_.
              ensure (fst ` set (b_types b) - fst ` set (b_types e) - {i_type i} = {})
                (because ''work_type_binding_changed'')))))))"

text \<open>Everything before the first write: the same intent published again, or none and free to go.\<close>

definition publish_guard :: "session \<Rightarrow> intent \<Rightarrow> intent option wio" where
  "publish_guard S i =
     bindS (liftS (check_endpoint S (i_binding i))) (\<lambda>_.
     bindS (liftS (validate_intent (s_env S) i)) (\<lambda>_.
     bindS (read_intent S (i_op i)) (\<lambda>previous.
       case previous of
         Some p \<Rightarrow>
           bindS (ensureS (p = i) (because ''work_immutable_intent_changed'')) (\<lambda>_. returnS (Some p))
       | None \<Rightarrow>
           bindS (pending S (i_owner i)) (\<lambda>open_ops.
           bindS (ensureS (open_ops = []) (because ''work_pending_requires_reconciliation'')) (\<lambda>_.
           bindS (load_binding S (i_owner i)) (\<lambda>existing.
           bindS (liftS (check_base i existing)) (\<lambda>_. returnS None)))))))"

definition publish_pair :: "session \<Rightarrow> intent \<Rightarrow> intent wio" where
  "publish_pair S i =
     bindS (write_doc S Intents (i_op i) (Intent_Doc i) True) (\<lambda>_.
     bindS (write_doc S Receipts (i_op i) (Receipt_Doc (new_receipt i)) True) (\<lambda>_.
       returnS i))"

definition publish_made :: "session \<Rightarrow> intent \<Rightarrow> intent wio" where
  "publish_made S i =
     bindS (publish_guard S i) (\<lambda>previous. case previous of
        Some p \<Rightarrow> returnS p
      | None \<Rightarrow> publish_pair S i)"

definition publish_intent ::
  "session \<Rightarrow> string \<Rightarrow> binding \<Rightarrow> action \<Rightarrow> string \<Rightarrow> string \<Rightarrow> string \<Rightarrow> kind \<Rightarrow> intent wio" where
  "publish_intent S op b a payload key locator k = publish_made S (make_intent op b a payload key locator k)"

fun next_phases :: "phase \<Rightarrow> phase list" where
  "next_phases Intended = [Dispatched, Unknown, Failed]"
| "next_phases Dispatched = [Commit_Issued, Unknown, Failed]"
| "next_phases Commit_Issued = [Accepted, Unknown, Failed]"
| "next_phases Accepted = [Completed, Unknown, Failed]"
| "next_phases Unknown = [Failed]"
| "next_phases Failed = []"
| "next_phases Completed = []"

text \<open>One keyword of \<open>update_receipt\<close>: an identifier once recorded is never replaced.\<close>

definition set_id :: "string \<Rightarrow> string option \<Rightarrow> receipt \<Rightarrow> work_error + receipt" where
  "set_id name v r =
     (let put = (\<lambda>old new. if old \<noteq> None \<and> old \<noteq> v then Inl (because ''work_native_reference_changed'')
                          else Inr new)
      in if name = ''workspace_id'' then put (r_workspace r) (r\<lparr>r_workspace := v\<rparr>)
         else if name = ''pane_id'' then put (r_pane r) (r\<lparr>r_pane := v\<rparr>)
         else if name = ''terminal_id'' then put (r_terminal r) (r\<lparr>r_terminal := v\<rparr>)
         else if name = ''tab_id'' then put (r_tab r) (r\<lparr>r_tab := v\<rparr>)
         else Inl conflict)"

fun set_ids :: "(string \<times> string option) list \<Rightarrow> receipt \<Rightarrow> work_error + receipt" where
  "set_ids [] r = Inr r"
| "set_ids ((name, v) # ids) r = bindE (set_id name v r) (set_ids ids)"

definition id_names :: "string list" where
  "id_names = [''workspace_id'', ''pane_id'', ''terminal_id'', ''tab_id'']"

definition advance_receipt :: "receipt \<Rightarrow> phase \<Rightarrow> (string \<times> string option) list \<Rightarrow> work_error + receipt" where
  "advance_receipt r ph ids =
     bindE (ensure (ph = r_phase r \<or> ph \<in> set (next_phases (r_phase r)))
       (because ''work_receipt_transition_invalid'')) (\<lambda>_.
     bindE (set_ids ids r) (\<lambda>r'.
     bindE (ensure (\<not> (ph \<in> {Commit_Issued, Accepted, Completed} \<and> None \<in> set (native_ids r'))) conflict) (\<lambda>_.
       Inr (r'\<lparr>r_phase := ph\<rparr>))))"

definition update_receipt :: "session \<Rightarrow> string \<Rightarrow> phase \<Rightarrow> (string \<times> string option) list \<Rightarrow> receipt wio" where
  "update_receipt S op ph ids =
     bindS (read_receipt S op) (\<lambda>value.
     bindS (read_intent S op) (\<lambda>intent.
       case (value, intent) of
         (Some r, Some i) \<Rightarrow>
           bindS (ensureS (fst ` set ids \<subseteq> set id_names) conflict) (\<lambda>_.
           bindS (ensureS (same_operation r i) (because ''work_receipt_identity_changed'')) (\<lambda>_.
           bindS (liftS (advance_receipt r ph ids)) (\<lambda>r'.
           bindS (write_doc S Receipts op (Receipt_Doc r') False) (\<lambda>_. returnS r'))))
       | _ \<Rightarrow> raiseS conflict))"

fun drop_docs :: "session \<Rightarrow> string \<Rightarrow> kinds list \<Rightarrow> unit wio" where
  "drop_docs S op [] = returnS ()"
| "drop_docs S op (k # ks) =
     bindS (liftS (record_name k op)) (\<lambda>p.
     bindS (mapErrorS io_error (tree_read (s_handle S) p (Some max_bytes))) (\<lambda>earlier.
     bindS (if earlier = None then returnS ()
            else mapErrorS io_error (tree_replace (\<lambda>d. d) (s_handle S) p None (seen earlier))) (\<lambda>_.
       drop_docs S op ks)))"

definition compact :: "session \<Rightarrow> string \<Rightarrow> unit wio" where
  "compact S op =
     bindS (ensureS (s_writable S) (because ''work_state_read_only'')) (\<lambda>_.
     bindS (read_receipt S op) (\<lambda>receipt.
       case receipt of
         None \<Rightarrow> raiseS (because ''work_registration_not_durable'')
       | Some r \<Rightarrow>
           bindS (ensureS (r_phase r = Accepted \<or> r_phase r = Completed)
             (because ''work_registration_not_durable'')) (\<lambda>_.
           bindS (completed_binding S r) (\<lambda>_.
           bindS (if r_phase r \<noteq> Completed
                  then bindS (update_receipt S op Completed []) (\<lambda>_. returnS ()) else returnS ()) (\<lambda>_.
             drop_docs S op [Intents, Receipts])))))"

section \<open>Reading changes nothing\<close>

definition reads :: "'a wio \<Rightarrow> bool" where
  "reads m \<longleftrightarrow> (\<forall>P. keeps P m)"

named_theorems reading

lemma readsD: "reads m \<Longrightarrow> m d = (r, e) \<Longrightarrow> e = d"
  unfolding reads_def using keepsD [of "\<lambda>x. x = d" m d r e] by simp

lemma reads_bindS [reading]: "reads m \<Longrightarrow> (\<And>x. reads (k x)) \<Longrightarrow> reads (bindS m k)"
  by (simp add: reads_def keeps_bindS)

lemma reads_simple [reading]:
  "reads (returnS x)" "reads (raiseS e)" "reads (liftS r)" "reads (getS f)" "reads (ensureS b e)"
  by (simp_all add: reads_def keeps_simple)

lemma reads_option [reading]:
  "(\<And>x. reads (g x)) \<Longrightarrow> reads f \<Longrightarrow> reads (case c of None \<Rightarrow> f | Some x \<Rightarrow> g x)"
  by (cases c) simp_all

lemma reads_if [reading]: "reads a \<Longrightarrow> reads b \<Longrightarrow> reads (if c then a else b)"
  by simp

lemma reads_tree [reading]: "reads (mapErrorS io_error (tree_read h p m))"
  by (simp add: reads_def keeps_mapErrorS keeps_tree_read)

lemma reads_read_doc [reading]: "reads (read_doc S k key)"
  unfolding read_doc_def by (intro reading)

lemma reads_read_each [reading]: "reads (read_each S k names)"
  by (induction names) (auto intro!: reading split: option.splits)

lemma reads_list_docs [reading]: "reads (list_docs S k)"
  unfolding reads_def
proof
  fix P
  have r: "keeps P (read_each S k names)" for names
    using reads_read_each by (simp add: reads_def)
  show "keeps P (list_docs S k)"
    unfolding keeps_def
  proof (intro allI impI)
    fix s assume "P s"
    obtain a where a: "tree_parent (s_handle S) False [kind_dir k, ''probe''] s = (a, s)"
      using parent_False by (metis prod.collapse)
    show "P (snd (list_docs S k s))"
    proof (cases a)
      case (Inl x)
      with a \<open>P s\<close> show ?thesis by (cases x) (simp_all add: list_docs_def mapErrorS_def)
    next
      case (Inr x)
      with a \<open>P s\<close> r show ?thesis
        by (simp add: list_docs_def mapErrorS_def Let_def keeps_def)
    qed
  qed
qed

lemma reads_lists [reading]:
  "reads (all_bindings S)" "reads (all_intents S)" "reads (load_binding S owner)"
  "reads (read_intent S op)" "reads (read_receipt S op)"
  unfolding all_bindings_def all_intents_def load_binding_def read_intent_def read_receipt_def
  by (intro reading)+

lemma reads_all_receipts [reading]: "reads (all_receipts S)"
  unfolding all_receipts_def by (intro reading)

lemma reads_completed [reading]: "reads (completed_binding S r)"
  unfolding completed_binding_def by (intro reading)

lemma reads_orphans [reading]: "reads (pending_orphans S owner known rs)"
  by (induction rs) (auto intro!: reading)

lemma reads_pending_intents [reading]: "reads (pending_intents S owner is)"
  by (induction "is") (auto intro!: reading split: option.splits)

lemma reads_pending [reading]: "reads (pending S owner)"
  unfolding pending_def by (intro reading)

section \<open>What a record read says of the directory\<close>

lemma parent_same_directory: "butlast p = butlast q \<Longrightarrow> tree_parent h c p = tree_parent h c q"
  by (auto simp: tree_parent_def fun_eq_iff split: option.splits)

lemma butlast_record_path [simp]: "butlast (record_path k key) = [kind_dir k]"
  by (simp add: record_path_def)

lemma record_parent: "tree_parent h c (record_path k key) = tree_parent h c [kind_dir k, ''probe'']"
  by (rule parent_same_directory) simp

lemma validate_same: "validate E k d = Inr d' \<Longrightarrow> d' = d"
  by (cases "(E, k, d)" rule: validate.cases) (auto simp: result_simps)

lemma validate_kind:
  assumes "validate E k d = Inr d'"
  shows "k = Bindings \<Longrightarrow> \<exists>b. d = Binding_Doc b \<and> validate_binding E b = Inr ()"
    and "k = Intents \<Longrightarrow> \<exists>i. d = Intent_Doc i \<and> validate_intent E i = Inr ()"
    and "k = Receipts \<Longrightarrow> \<exists>r. d = Receipt_Doc r \<and> validate_receipt r = Inr ()"
  using assms by (cases d; auto simp: result_simps)+

definition stored_doc :: "session \<Rightarrow> kinds \<Rightarrow> string \<Rightarrow> doc \<Rightarrow> work_disk \<Rightarrow> bool" where
  "stored_doc S k key doc d \<longleftrightarrow>
     is_hex (key_length k) key \<and> doc_key doc = key \<and> validate (s_env S) k doc = Inr doc \<and>
     (\<exists>fd. tree_parent (s_handle S) False (record_path k key) d = (Inr fd, d)) \<and>
     (\<exists>b n. contents d (record_path k key) = Some (b, n, 384) \<and> n \<le> max_bytes \<and> decoded b = Some doc)"

lemma record_name_eq_Inr [result_simps]:
  "record_name k key = Inr p \<longleftrightarrow> is_hex (key_length k) key \<and> p = record_path k key"
  by (auto simp: record_name_def)

lemma read_doc_Some: "read_doc S k key d = (Inr (Some doc), e) \<Longrightarrow> stored_doc S k key doc d"
proof -
  assume "read_doc S k key d = (Inr (Some doc), e)"
  then obtain b m i where hex: "is_hex (key_length k) key"
    and rd: "tree_read (s_handle S) (record_path k key) (Some max_bytes) d = (Inr (Some (b, m, i)), e)"
    and ck: "checked_doc S k key (b, m, i) = Inr doc"
    by (auto simp: read_doc_def result_simps split: option.splits)
  from tree_read_Some [OF rd] obtain f fd where f: "lookup_file (record_path k key) d = Some f"
    "b = body f" "m = fmode f" "readable d f" "nbytes f \<le> max_bytes"
    "tree_parent (s_handle S) False (record_path k key) d = (Inr fd, d)" by auto
  from ck have "m = 384" "decoded b = Some doc" "doc_key doc = key" "validate (s_env S) k doc = Inr doc"
    using validate_same by (auto simp: checked_doc_def result_simps split: if_splits option.splits)
  with f hex show ?thesis by (auto simp: stored_doc_def contents_def)
qed

lemma read_doc_stored: "stored_doc S k key doc d \<Longrightarrow> read_doc S k key d = (Inr (Some doc), d)"
proof -
  assume s: "stored_doc S k key doc d"
  then obtain b n fd where b: "contents d (record_path k key) = Some (b, n, 384)" "n \<le> max_bytes"
    "decoded b = Some doc" "tree_parent (s_handle S) False (record_path k key) d = (Inr fd, d)"
    by (auto simp: stored_doc_def)
  from tree_read_contents [OF b(1) b(4) b(2)] obtain i where
    "tree_read (s_handle S) (record_path k key) (Some max_bytes) d = (Inr (Some (b, 384, i)), d)" by blast
  with s b show ?thesis
    by (simp add: read_doc_def stored_doc_def record_name_def bindS_def liftS_def mapErrorS_def
        checked_doc_def returnS_def)
qed

lemma read_doc_iff: "read_doc S k key d = (Inr (Some doc), d) \<longleftrightarrow> stored_doc S k key doc d"
  using read_doc_Some read_doc_stored by blast

lemma read_each_mem:
  "read_each S k names d = (Inr ds, e) \<Longrightarrow> name \<in> set names \<Longrightarrow>
     \<exists>doc\<in>set ds. stored_doc S k (stem name) doc d"
proof (induction names arbitrary: ds)
  case (Cons n ns)
  from Cons.prems(1) obtain doc t ds' where
    r: "read_doc S k (stem n) d = (Inr (Some doc), t)" and "read_each S k ns t = (Inr ds', e)" "ds = doc # ds'"
    by (auto simp: result_simps split: option.splits)
  moreover from r have "t = d" using readsD reads_read_doc by blast
  ultimately show ?case using Cons read_doc_Some [OF r] by auto
qed simp

lemma stem_record [simp]: "stem (key @ ''.json'') = key"
  by (simp add: stem_def)

lemma list_docs_Inr:
  assumes "list_docs S k d = (Inr ds, e)" "tree_parent (s_handle S) False [kind_dir k, ''probe''] d = (Inr fd, d)"
  shows "read_each S k (list_names [kind_dir k] d) d = (Inr ds, e)"
  using assms by (auto simp: list_docs_def mapErrorS_def Let_def split: if_splits)

lemma lookup_listed:
  "lookup_file (record_path k key) d \<noteq> None \<Longrightarrow> key @ ''.json'' \<in> set (list_names [kind_dir k] d)"
proof -
  assume "lookup_file (record_path k key) d \<noteq> None"
  then have "record_path k key \<in> fst ` set (files d)"
    by (auto simp: lookup_file_def map_of_eq_None_iff)
  then have "record_path k key \<in> set (filter (\<lambda>p. p \<noteq> [] \<and> butlast p = [kind_dir k]) (map fst (files d) @ map fst (dirs d)))"
    by (simp add: record_path_def)
  then have "last (record_path k key) \<in> set (list_names [kind_dir k] d)"
    unfolding list_names_def set_sort set_remdups set_map by (rule imageI)
  then show ?thesis by (simp add: record_path_def)
qed

lemma list_docs_mem:
  assumes "list_docs S k d = (Inr ds, e)" "stored_doc S k key doc d"
  shows "doc \<in> set ds"
proof -
  from assms(2) obtain fd where fd: "tree_parent (s_handle S) False [kind_dir k, ''probe''] d = (Inr fd, d)"
    by (auto simp: stored_doc_def record_parent)
  from assms(2) have "lookup_file (record_path k key) d \<noteq> None"
    by (auto simp: stored_doc_def dest: contents_lookup)
  from read_each_mem [OF list_docs_Inr [OF assms(1) fd] lookup_listed [OF this]]
  obtain doc' where "doc' \<in> set ds" "stored_doc S k key doc' d" by auto
  with assms(2) show ?thesis using read_doc_stored by (metis option.inject prod.inject sum.inject(2))
qed

lemma read_intent_stored:
  "read_intent S op d = (Inr (Some i), e) \<longleftrightarrow>
     e = d \<and> stored_doc S Intents op (Intent_Doc i) d \<and> check_endpoint S (i_binding i) = Inr ()"
proof
  assume "read_intent S op d = (Inr (Some i), e)"
  then obtain doc t where r: "read_doc S Intents op d = (Inr (Some doc), t)" and "as_intent doc = Inr i"
    "check_endpoint S (i_binding i) = Inr ()" "e = t"
    by (auto simp: read_intent_def result_simps split: option.splits)
  moreover then have "doc = Intent_Doc i" by (cases doc) auto
  ultimately show "e = d \<and> stored_doc S Intents op (Intent_Doc i) d \<and> check_endpoint S (i_binding i) = Inr ()"
    using read_doc_Some [OF r] readsD [OF reads_read_doc r] by simp
next
  assume "e = d \<and> stored_doc S Intents op (Intent_Doc i) d \<and> check_endpoint S (i_binding i) = Inr ()"
  moreover from this have "read_doc S Intents op d = (Inr (Some (Intent_Doc i)), d)"
    using read_doc_stored by blast
  ultimately show "read_intent S op d = (Inr (Some i), e)"
    by (simp add: read_intent_def bindS_def liftS_def returnS_def)
qed

lemma read_receipt_stored:
  "read_receipt S op d = (Inr (Some r), e) \<longleftrightarrow> e = d \<and> stored_doc S Receipts op (Receipt_Doc r) d"
proof
  assume "read_receipt S op d = (Inr (Some r), e)"
  then obtain doc t where q: "read_doc S Receipts op d = (Inr (Some doc), t)" and "as_receipt doc = Inr r" "e = t"
    by (auto simp: read_receipt_def result_simps split: option.splits)
  moreover then have "doc = Receipt_Doc r" by (cases doc) auto
  ultimately show "e = d \<and> stored_doc S Receipts op (Receipt_Doc r) d"
    using read_doc_Some [OF q] readsD [OF reads_read_doc q] by simp
next
  assume "e = d \<and> stored_doc S Receipts op (Receipt_Doc r) d"
  moreover from this have "read_doc S Receipts op d = (Inr (Some (Receipt_Doc r)), d)"
    using read_doc_stored by blast
  ultimately show "read_receipt S op d = (Inr (Some r), e)"
    by (simp add: read_receipt_def bindS_def liftS_def returnS_def)
qed

section \<open>One outstanding operation per owner\<close>

lemma all_intents_mem:
  assumes "all_intents S d = (Inr is, e)" "read_intent S op d = (Inr (Some i), d)"
  shows "i \<in> set is"
proof -
  from assms(1) obtain ds t where l: "list_docs S Intents d = (Inr ds, t)" and "mapE as_intent ds = Inr is"
    by (auto simp: all_intents_def result_simps)
  moreover have "Intent_Doc i \<in> set ds"
    using list_docs_mem [OF l] assms(2) by (auto simp: read_intent_stored)
  ultimately show ?thesis
    by (auto simp: mapE_eq_Inr list_all2_conv_all_nth in_set_conv_nth) (metis as_intent.simps(1) sum.inject(2))
qed

lemma pending_intents_nonempty:
  assumes "pending_intents S owner is d = (Inr l, e)" "i \<in> set is" "i_owner i = owner"
    and "\<And>r. read_receipt S (i_op i) d = (Inr (Some r), d) \<Longrightarrow> r_phase r \<noteq> Completed"
  shows "l \<noteq> []"
  using assms(1,2)
proof (induction "is" arbitrary: l)
  case (Cons j js)
  show ?case
  proof (cases "i_owner j = owner")
    case False
    with Cons assms(3) show ?thesis by auto
  next
    case True
    with Cons.prems(1) obtain rc t where rc: "read_receipt S (i_op j) d = (Inr rc, t)"
      by (auto simp: result_simps)
    then have "t = d" using readsD reads_lists(5) by blast
    show ?thesis
    proof (cases "rc = None \<or> (\<exists>r. rc = Some r \<and> r_phase r \<noteq> Completed)")
      case True
      with \<open>i_owner j = owner\<close> Cons.prems(1) rc \<open>t = d\<close> show ?thesis
        by (auto simp: result_simps bindS_def [of "read_receipt S (i_op j)"] raiseS_eq split: if_splits)
    next
      case False
      then obtain r where r: "rc = Some r" "r_phase r = Completed" by auto
      with rc \<open>t = d\<close> assms(4) have "i \<noteq> j" by auto
      with Cons.prems(2) have "i \<in> set js" by simp
      from \<open>i_owner j = owner\<close> Cons.prems(1) rc r \<open>t = d\<close> obtain u x where
        c: "completed_binding S r d = (Inr x, u)" and p: "pending_intents S owner js u = (Inr l, e)"
        by (auto simp: result_simps bindS_def [of "read_receipt S (i_op j)"] raiseS_eq split: if_splits)
      from c have "u = d" using readsD reads_completed by blast
      with p Cons.IH \<open>i \<in> set js\<close> show ?thesis by blast
    qed
  qed
qed simp

definition outstanding :: "session \<Rightarrow> intent \<Rightarrow> work_disk \<Rightarrow> bool" where
  "outstanding S i d \<longleftrightarrow>
     read_intent S (i_op i) d = (Inr (Some i), d) \<and>
     (\<forall>r. read_receipt S (i_op i) d = (Inr (Some r), d) \<longrightarrow> r_phase r \<noteq> Completed)"

lemma pending_outstanding:
  assumes "outstanding S i d" "pending S (i_owner i) d = (Inr l, e)"
  shows "l \<noteq> []"
proof -
  from assms(2) obtain is1 t1 rs t2 fs t3 ss where
    a: "all_intents S d = (Inr is1, t1)"
    and b: "all_receipts S t1 = (Inr rs, t2)"
    and c: "pending_orphans S (i_owner i) (map i_op is1) rs t2 = (Inr fs, t3)"
    and f: "pending_intents S (i_owner i) is1 t3 = (Inr ss, e)" and l: "l = fs @ ss"
    by (auto simp: pending_def result_simps)
  have t: "t1 = d" "t2 = d" "t3 = d"
    using readsD [OF reads_lists(2) a] readsD [OF reads_all_receipts b] readsD [OF reads_orphans c]
    by simp_all
  have "i \<in> set is1" using all_intents_mem [OF a] assms(1) by (auto simp: outstanding_def)
  then have "ss \<noteq> []"
    using pending_intents_nonempty [OF f [unfolded t]] assms(1) by (auto simp: outstanding_def)
  with l show ?thesis by simp
qed

lemma reads_guard [reading]: "reads (publish_guard S i)"
  unfolding publish_guard_def by (intro reading)

lemma guard_valid:
  "publish_guard S i d = (Inr p, e) \<Longrightarrow>
     check_endpoint S (i_binding i) = Inr () \<and> validate_intent (s_env S) i = Inr ()"
  by (auto simp: publish_guard_def result_simps)

lemma guard_previous: "publish_guard S i d = (Inr (Some p), e) \<Longrightarrow> p = i \<and> read_intent S (i_op i) d = (Inr (Some i), d)"
  by (auto simp: publish_guard_def result_simps read_intent_stored split: option.splits)

lemma guard_outstanding:
  assumes "outstanding S i d" "i_owner j = i_owner i"
  shows "publish_guard S j d \<noteq> (Inr None, e)"
proof
  assume "publish_guard S j d = (Inr None, e)"
  then obtain t u l where p: "read_intent S (i_op j) d = (Inr None, t)" "pending S (i_owner j) t = (Inr l, u)" "l = []"
    by (auto simp: publish_guard_def result_simps split: option.splits)
  from p(1) have "t = d" using readsD reads_lists(4) by blast
  with pending_outstanding [OF assms(1)] assms(2) p(2,3) show False by simp
qed

lemma publish_reads_unless_free:
  assumes "outstanding S i d" "i_owner j = i_owner i"
    and "publish_made S j d = (r, e)"
  shows "e = d \<and> (\<forall>x. r = Inr x \<longrightarrow> x = j \<and> read_intent S (i_op j) d = (Inr (Some j), d))"
proof -
  obtain g t where g: "publish_guard S j d = (g, t)" by fastforce
  have "t = d" using readsD [OF reads_guard g] .
  moreover have "g \<noteq> Inr None" using guard_outstanding [OF assms(1,2)] g by blast
  ultimately show ?thesis
    using assms(3) g guard_previous [of S j d]
    by (cases g) (auto simp: publish_made_def bindS_def returnS_def split: option.splits)
qed

lemma write_doc_placed:
  "keeps (placed (s_handle S) (record_path k key) (Encoded v, doc_bytes v, 384) d) (write_doc S k key v imm)"
proof -
  have body: "keeps (placed (s_handle S) (record_path k key) (Encoded v, doc_bytes v, 384) d)
     (if imm then mapErrorS io_error (write_immutable (\<lambda>d. d) (s_handle S) (record_path k key) (Encoded v, doc_bytes v))
      else bindS (mapErrorS io_error (tree_read (s_handle S) (record_path k key) (Some max_bytes))) (\<lambda>earlier.
         bindS (ensureS (case earlier of None \<Rightarrow> True | Some (b, mode, i) \<Rightarrow> mode = 384) x) (\<lambda>_.
           mapErrorS io_error (tree_replace (\<lambda>d. d) (s_handle S) (record_path k key)
             (Some (Encoded v, doc_bytes v, 384)) (seen earlier)))))" for x
    using keeps_placed_immutable [of "s_handle S" "record_path k key" "(Encoded v, doc_bytes v)" d]
    by (auto intro!: keeps_bindS keeps_mapErrorS keeps_tree_read keeps_simple keeps_placed_replace)
  show ?thesis
    unfolding write_doc_def
    by (rule keeps_bindS [OF keeps_simple(5)], rule keeps_bindS [OF keeps_simple(3)],
        rule keeps_bindS [OF keeps_simple(5)], rule keeps_bind_lift) (auto simp only: record_name_eq_Inr body)
qed

lemma write_immutable_doc_ack:
  assumes "write_doc S k key v True d = (Inr (), e)"
  shows "stored_doc S k key v e \<or> doc_key v \<noteq> key"
proof -
  from assms have v: "validate (s_env S) k v = Inr v" "doc_bytes v \<le> max_bytes" "is_hex (key_length k) key"
    and w: "write_immutable (\<lambda>d. d) (s_handle S) (record_path k key) (Encoded v, doc_bytes v) d = (Inr (), e)"
    using validate_same by (auto simp: write_doc_def result_simps)
  from write_immutable_ack [OF w] immutable_ack_parent [OF w] v show ?thesis
    by (auto simp: stored_doc_def)
qed

lemma stored_wrote:
  "stored_doc S k key v d \<Longrightarrow> wrote q u d e \<Longrightarrow> q \<noteq> record_path k key \<Longrightarrow> stored_doc S k key v e"
  unfolding stored_doc_def using parent_wrote wrote_contents(2) by metis

lemma record_path_eq [simp]: "record_path k x = record_path l y \<longleftrightarrow> k = l \<and> x = y"
  by (cases k; cases l) (auto simp: record_path_def)

lemma intent_key_hex: "validate_intent E i = Inr () \<Longrightarrow> is_hex 32 (i_op i)"
  by (auto simp: validate_intent_def result_simps intent_schema_def)

lemma write_doc_checked:
  assumes "write_doc S k key v imm d = (r, e)"
  shows "e = d \<or> (is_hex (key_length k) key \<and> validate (s_env S) k v = Inr v \<and> doc_bytes v \<le> max_bytes)"
proof (cases "validate (s_env S) k v")
  case (Inl x)
  with assms show ?thesis
    by (auto simp: write_doc_def bindS_def liftS_def ensureS_def ensure_def split: if_splits)
next
  case (Inr w)
  with validate_same [OF Inr] assms show ?thesis
    by (auto simp: write_doc_def bindS_def liftS_def ensureS_def ensure_def record_name_def split: if_splits)
qed

text \<open>An immutable write either changes nothing or stores its document, acknowledged or not.\<close>

lemma immutable_doc_cases:
  assumes w: "write_doc S k key v True d = (r, e)" and key: "doc_key v = key"
  shows "(\<forall>q. contents e q = contents d q) \<and> r \<noteq> Inr () \<or> stored_doc S k key v e"
proof (cases "r = Inr ()")
  case True
  with write_immutable_doc_ack [of S k key v d e] w key show ?thesis by auto
next
  case False
  let ?p = "record_path k key"
  have p: "placed (s_handle S) ?p (Encoded v, doc_bytes v, 384) d e"
    by (rule keeps_placed [OF write_doc_placed w])
  show ?thesis
  proof (cases "contents e ?p = contents d ?p")
    case True
    have "contents e q = contents d q" for q
      using p wrote_contents(2) [of ?p _ d e q] True by (cases "q = ?p") (auto simp: placed_def)
    with False show ?thesis by simp
  next
    case changed: False
    with p wrote_contents(1) [of ?p _ d e] have c: "contents e ?p = Some (Encoded v, doc_bytes v, 384)"
      and fd: "\<exists>fd. tree_parent (s_handle S) False ?p e = (Inr fd, e)"
      by (auto simp: placed_def)
    from changed write_doc_checked [OF w] have "is_hex (key_length k) key" "validate (s_env S) k v = Inr v"
      "doc_bytes v \<le> max_bytes" by auto
    with c fd key show ?thesis by (simp add: stored_doc_def)
  qed
qed

lemma publish_crash:
  assumes "publish_made S i d = (r, e)" "lookup_file (record_path Receipts (i_op i)) d = None"
  shows "(\<forall>q. contents e q = contents d q) \<or> outstanding S i e"
proof -
  let ?I = "record_path Intents (i_op i)" and ?R = "record_path Receipts (i_op i)"
  obtain g t where g: "publish_guard S i d = (g, t)" by fastforce
  have t: "t = d" using readsD [OF reads_guard g] .
  obtain a d1 where a: "write_doc S Intents (i_op i) (Intent_Doc i) True d = (a, d1)" by fastforce
  obtain b d2 where b: "write_doc S Receipts (i_op i) (Receipt_Doc (new_receipt i)) True d1 = (b, d2)" by fastforce
  have w1: "wrote ?I (Encoded (Intent_Doc i), doc_bytes (Intent_Doc i), 384) d d1"
    and w2: "wrote ?R (Encoded (Receipt_Doc (new_receipt i)), doc_bytes (Receipt_Doc (new_receipt i)), 384) d1 d2"
    using keeps_placed [OF write_doc_placed a] keeps_placed [OF write_doc_placed b] by (auto simp: placed_def)
  have none: "lookup_file ?R d1 = None" using w1 assms(2) by (auto simp: wrote_def)
  have out: "outstanding S i x"
    if v: "check_endpoint S (i_binding i) = Inr ()" and s: "stored_doc S Intents (i_op i) (Intent_Doc i) x"
      and rx: "x = d1 \<or> x = d2" for x
  proof -
    have "r_phase q \<noteq> Completed" if "stored_doc S Receipts (i_op i) (Receipt_Doc q) x" for q
    proof -
      from that have "contents x ?R \<noteq> None" by (auto simp: stored_doc_def)
      with none w2 rx have "contents x ?R = Some (Encoded (Receipt_Doc (new_receipt i)), doc_bytes (Receipt_Doc (new_receipt i)), 384)"
        by (auto simp: wrote_def contents_def split: option.splits if_splits)
      with that show ?thesis by (auto simp: stored_doc_def new_receipt_def)
    qed
    with v s show ?thesis by (auto simp: outstanding_def read_intent_stored read_receipt_stored)
  qed
  show ?thesis
  proof (cases "g = Inr None")
    case False
    with assms(1) g t show ?thesis
      by (cases g) (auto simp: publish_made_def bindS_def returnS_def split: option.splits)
  next
    case True
    with g guard_valid have v: "check_endpoint S (i_binding i) = Inr ()" by blast
    from True assms(1) g t have w: "publish_pair S i d = (r, e)"
      by (simp add: publish_made_def bindS_def)
    then have e: "a \<noteq> Inr () \<and> e = d1 \<or> a = Inr () \<and> e = d2"
      using a b by (cases a; cases b) (auto simp: publish_pair_def bindS_def returnS_def)
    from immutable_doc_cases [OF a] have "(\<forall>q. contents d1 q = contents d q) \<and> a \<noteq> Inr () \<or> stored_doc S Intents (i_op i) (Intent_Doc i) d1"
      by simp
    then show ?thesis
      using e out [OF v, of d1] out [OF v, of d2] stored_wrote [OF _ w2, of S Intents "i_op i"] by auto
  qed
qed

section \<open>Writing a record and reading it back\<close>

lemma write_doc_ack:
  assumes "write_doc S k key v imm d = (Inr (), e)" "doc_key v = key"
  shows "stored_doc S k key v e"
proof (cases imm)
  case True
  with assms write_immutable_doc_ack [of S k key v d e] show ?thesis by simp
next
  case False
  with assms(1) have v: "validate (s_env S) k v = Inr v" "doc_bytes v \<le> max_bytes" "is_hex (key_length k) key"
    and "\<exists>c t. tree_replace (\<lambda>d. d) (s_handle S) (record_path k key) (Some (Encoded v, doc_bytes v, 384)) c t = (Inr (), e)"
    using validate_same by (auto simp: write_doc_def result_simps)
  then obtain c t where "tree_replace (\<lambda>d. d) (s_handle S) (record_path k key) (Some (Encoded v, doc_bytes v, 384)) c t = (Inr (), e)"
    by blast
  from replace_ack [OF this] replace_ack_parent [OF this] v assms(2) show ?thesis
    by (auto simp: stored_doc_def)
qed

lemma write_doc_wrote:
  assumes "write_doc S k key v imm d = (r, e)"
  shows "wrote (record_path k key) (Encoded v, doc_bytes v, 384) d e"
  using keeps_placed [OF write_doc_placed assms] by (simp add: placed_def)

section \<open>Phases of a receipt\<close>

fun phase_rank :: "phase \<Rightarrow> nat" where
  "phase_rank Intended = 0"
| "phase_rank Dispatched = 1"
| "phase_rank Commit_Issued = 2"
| "phase_rank Accepted = 3"
| "phase_rank Completed = 4"
| "phase_rank Unknown = 4"
| "phase_rank Failed = 5"

interpretation receipt_phases: phase_machine next_phases phase_rank
proof
  fix p q
  show "q \<in> set (next_phases p) \<Longrightarrow> phase_rank p < phase_rank q"
    by (cases p) auto
qed

definition grows :: "'a option \<Rightarrow> 'a option \<Rightarrow> bool" where
  "grows old new \<longleftrightarrow> (old \<noteq> None \<longrightarrow> new = old)"

lemma grows_refl [simp]: "grows x x"
  by (simp add: grows_def)

lemma grows_trans: "grows x y \<Longrightarrow> grows y z \<Longrightarrow> grows x z"
  by (auto simp: grows_def)

text \<open>The same operation, with at least the native references already known.\<close>

definition same_receipt :: "receipt \<Rightarrow> receipt \<Rightarrow> bool" where
  "same_receipt r s \<longleftrightarrow>
     r_op s = r_op r \<and> r_owner s = r_owner r \<and> r_epoch s = r_epoch r \<and> r_action s = r_action r \<and>
     r_type s = r_type r \<and> r_instance s = r_instance r \<and> r_kind s = r_kind r \<and>
     grows (r_workspace r) (r_workspace s) \<and> grows (r_pane r) (r_pane s) \<and>
     grows (r_terminal r) (r_terminal s) \<and> grows (r_tab r) (r_tab s)"

lemma same_receipt_trans: "same_receipt r s \<Longrightarrow> same_receipt s t \<Longrightarrow> same_receipt r t"
  unfolding same_receipt_def by (metis grows_trans)

lemma set_id_same: "set_id name v r = Inr s \<Longrightarrow> same_receipt r s \<and> r_phase s = r_phase r"
  by (auto simp: set_id_def same_receipt_def grows_def Let_def split: if_splits)

lemma set_ids_same: "set_ids ids r = Inr s \<Longrightarrow> same_receipt r s \<and> r_phase s = r_phase r"
proof (induction ids r rule: set_ids.induct)
  case (1 r)
  then show ?case by (simp add: same_receipt_def)
next
  case (2 name v ids r)
  then obtain q where "set_id name v r = Inr q" "set_ids ids q = Inr s"
    by (auto simp: result_simps)
  with 2 set_id_same [of name v r q] show ?case by (metis same_receipt_trans)
qed

lemma advance_receipt_Inr:
  assumes "advance_receipt r ph ids = Inr s"
  shows "same_receipt r s" "r_phase s = ph" "ph = r_phase r \<or> ph \<in> set (next_phases (r_phase r))"
    "ph \<in> {Commit_Issued, Accepted, Completed} \<longrightarrow> None \<notin> set (native_ids s)"
  using assms set_ids_same [of ids r]
  by (auto simp: advance_receipt_def result_simps same_receipt_def native_ids_def)

lemma advance_steps: "advance_receipt r ph ids = Inr s \<Longrightarrow> receipt_phases.steps (r_phase r) ph"
  using advance_receipt_Inr(3) by (simp add: receipt_phases.steps_def)

lemma update_receipt_Inr:
  assumes "update_receipt S op ph ids d = (Inr s, e)"
  obtains r i where "read_receipt S op d = (Inr (Some r), d)" "read_intent S op d = (Inr (Some i), d)"
    "same_operation r i" "advance_receipt r ph ids = Inr s"
    "write_doc S Receipts op (Receipt_Doc s) False d = (Inr (), e)"
proof -
  from assms obtain rv t iv u where a: "read_receipt S op d = (Inr rv, t)" and b: "read_intent S op t = (Inr iv, u)"
    and c: "(case (rv, iv) of
         (Some r, Some i) \<Rightarrow>
           bindS (ensureS (fst ` set ids \<subseteq> set id_names) conflict) (\<lambda>_.
           bindS (ensureS (same_operation r i) (because ''work_receipt_identity_changed'')) (\<lambda>_.
           bindS (liftS (advance_receipt r ph ids)) (\<lambda>r'.
           bindS (write_doc S Receipts op (Receipt_Doc r') False) (\<lambda>_. returnS r'))))
       | _ \<Rightarrow> raiseS conflict) u = (Inr s, e)"
    by (auto simp: update_receipt_def result_simps)
  have t: "t = d" "u = d" using readsD [OF reads_lists(5) a] readsD [OF reads_lists(4) b] by simp_all
  from c obtain r i where "rv = Some r" "iv = Some i"
    by (auto simp: raiseS_eq split: option.splits)
  with a b c t that [of r i] show ?thesis by (auto simp: result_simps)
qed

text \<open>C10: A receipt only moves forward. A successful update stores exactly the receipt it returns,
  in the phase asked for; that phase is the old one or a successor of it in the table, so that a
  completed or failed receipt never changes phase again; operation, owner, epoch, action, type,
  instance and kind stay, every native reference already recorded stays, and from the commit on
  all four references are present.\<close>

theorem receipt_moves_forward:
  assumes "read_receipt S op d = (Inr (Some r), d)" "update_receipt S op ph ids d = (Inr s, e)"
  shows "read_receipt S op e = (Inr (Some s), e) \<and> r_phase s = ph \<and> same_receipt r s \<and>
    receipt_phases.steps (r_phase r) ph \<and> (r_phase r \<in> {Completed, Failed} \<longrightarrow> ph = r_phase r) \<and>
    (ph \<in> {Commit_Issued, Accepted, Completed} \<longrightarrow> None \<notin> set (native_ids s))"
proof -
  from assms(2) obtain r' i where r': "read_receipt S op d = (Inr (Some r'), d)"
    and adv: "advance_receipt r' ph ids = Inr s" and w: "write_doc S Receipts op (Receipt_Doc s) False d = (Inr (), e)"
    by (rule update_receipt_Inr)
  from r' assms(1) have eq: "r' = r" by simp
  from assms(1) have "r_op r = op" by (auto simp: read_receipt_stored stored_doc_def)
  with advance_receipt_Inr [OF adv] eq have "doc_key (Receipt_Doc s) = op" by (simp add: same_receipt_def)
  from write_doc_ack [OF w this] have "read_receipt S op e = (Inr (Some s), e)"
    by (simp add: read_receipt_stored)
  with advance_receipt_Inr [OF adv] advance_steps [OF adv] receipt_phases.steps_terminal eq show ?thesis
    by auto
qed

section \<open>Bindings keep their contract\<close>

definition same_contract :: "type_binding \<Rightarrow> type_binding \<Rightarrow> bool" where
  "same_contract t u \<longleftrightarrow>
     t_cwd u = t_cwd t \<and> t_home u = t_home t \<and> t_launch u = t_launch t \<and> t_digest u = t_digest t \<and>
     t_sequence t \<le> t_sequence u \<and>
     (\<forall>id n m. (id, n) \<in> set (t_instances t) \<longrightarrow> map_of (t_instances u) id = Some m \<longrightarrow>
        n_op m = n_op n \<and> n_kind m = n_kind n \<and> n_terminal m = n_terminal n)"

lemma check_instances_Inr:
  assumes "check_instances t u = Inr x" "(nid, n) \<in> set (t_instances t)" "map_of (t_instances u) nid = Some m"
  shows "n_op m = n_op n \<and> n_kind m = n_kind n \<and> n_terminal m = n_terminal n"
proof -
  from assms(1,2) have "(case map_of (t_instances u) nid of
         None \<Rightarrow> Inr ()
       | Some m \<Rightarrow> ensure (n_op n = n_op m \<and> n_kind n = n_kind m \<and> n_terminal n = n_terminal m)
           (because ''work_instance_binding_changed'')) = Inr ()"
    by (auto simp: check_instances_def checkE_eq_Inr)
  with assms(3) show ?thesis by (auto simp: result_simps)
qed

lemma check_same_types_Inr:
  assumes "check_same_types p v = Inr x" "(key, t) \<in> set (b_types p)"
  shows "\<exists>t'. map_of (b_types v) key = Some t' \<and> same_contract t t'"
proof -
  from assms have c: "(case map_of (b_types v) key of
         None \<Rightarrow> Inl (because ''work_type_binding_changed'')
       | Some current \<Rightarrow>
           bindE (ensure (t_cwd current = t_cwd t \<and> t_home current = t_home t \<and>
               t_launch current = t_launch t \<and> t_digest current = t_digest t)
             (because ''work_type_binding_changed'')) (\<lambda>_.
           bindE (ensure (t_sequence t \<le> t_sequence current)
             (because ''work_instance_sequence_changed'')) (\<lambda>_.
             check_instances t current))) = Inr ()"
    by (auto simp: check_same_types_def checkE_eq_Inr)
  then obtain t' where t': "map_of (b_types v) key = Some t'" by (cases "map_of (b_types v) key") auto
  with c have "t_cwd t' = t_cwd t" "t_home t' = t_home t" "t_launch t' = t_launch t" "t_digest t' = t_digest t"
    "t_sequence t \<le> t_sequence t'" "check_instances t t' = Inr ()"
    by (simp_all add: result_simps)
  with t' check_instances_Inr show ?thesis unfolding same_contract_def by metis
qed

lemma load_binding_stored:
  "load_binding S owner d = (Inr (Some b), e) \<longleftrightarrow>
     e = d \<and> stored_doc S Bindings owner (Binding_Doc b) d \<and> check_endpoint S b = Inr ()"
proof
  assume "load_binding S owner d = (Inr (Some b), e)"
  then obtain doc t where r: "read_doc S Bindings owner d = (Inr (Some doc), t)" and "as_binding doc = Inr b"
    "check_endpoint S b = Inr ()" "e = t"
    by (auto simp: load_binding_def result_simps split: option.splits)
  moreover then have "doc = Binding_Doc b" by (cases doc) auto
  ultimately show "e = d \<and> stored_doc S Bindings owner (Binding_Doc b) d \<and> check_endpoint S b = Inr ()"
    using read_doc_Some [OF r] readsD [OF reads_read_doc r] by simp
next
  assume "e = d \<and> stored_doc S Bindings owner (Binding_Doc b) d \<and> check_endpoint S b = Inr ()"
  moreover from this have "read_doc S Bindings owner d = (Inr (Some (Binding_Doc b)), d)"
    using read_doc_stored by blast
  ultimately show "load_binding S owner d = (Inr (Some b), e)"
    by (simp add: load_binding_def bindS_def liftS_def returnS_def)
qed

text \<open>C35: Saving a binding over an existing one keeps its contract: the epoch, context, start and
  home directories and workspace are those of the stored binding; no type is lost, every type
  keeps its directory, home, launch contract and digest, its sequence number does not fall, and
  an instance kept under the same identifier keeps its operation, kind and terminal. The saved
  binding is what the next load returns.\<close>

theorem saved_binding_keeps_contract:
  assumes "load_binding S (b_owner v) d = (Inr (Some p), d)" "save_binding S v d = (Inr (), e)"
  shows "load_binding S (b_owner v) e = (Inr (Some v), e) \<and> same_context p v \<and>
    (\<forall>(key, t)\<in>set (b_types p). \<exists>t'. map_of (b_types v) key = Some t' \<and> same_contract t t')"
proof -
  from assms(2) obtain pv t where l: "load_binding S (b_owner v) d = (Inr pv, t)"
    and ep: "check_endpoint S v = Inr ()"
    and chk: "(case pv of None \<Rightarrow> Inr () | Some p \<Rightarrow>
         bindE (ensure (same_context p v) (because ''work_active_binding_changed'')) (\<lambda>_.
           check_same_types p v)) = Inr ()"
    and w: "write_doc S Bindings (b_owner v) (Binding_Doc v) False t = (Inr (), e)"
    by (auto simp: save_binding_def result_simps)
  from l assms(1) have "pv = Some p" by simp
  with chk have "same_context p v" "check_same_types p v = Inr ()" by (auto simp: result_simps)
  moreover from write_doc_ack [OF w] ep have "load_binding S (b_owner v) e = (Inr (Some v), e)"
    by (simp add: load_binding_stored)
  ultimately show ?thesis using check_same_types_Inr [of p v] by fast
qed

end
