(* ===== verification/Work_Safety.thy ===== *)
theory Work_Safety
  imports Work_State
begin

text \<open>
  Properties of \<open>WorkState\<close> that span several of its operations: at most one outstanding native
  operation per owner, across any failure of the publication; records are only removed once the
  binding durably holds their result; digests identify launch contracts. With the sample
  directory the witnesses run on.
\<close>

section \<open>A sample directory\<close>

definition hex32 :: string where "hex32 = replicate 32 CHR ''a''"
definition hex64 :: string where "hex64 = replicate 64 CHR ''a''"
definition other32 :: string where "other32 = replicate 32 CHR ''b''"

definition sample_env :: work_env where
  "sample_env = \<lparr>sha = (\<lambda>_. hex64), resolve = Some\<rparr>"

definition sample_type :: type_binding where
  "sample_type = \<lparr>t_cwd = ''/w'', t_home = ''/h'',
     t_launch = \<lparr>l_launcher = Shell, l_argv = [''/sh''], l_runtime = None, l_paths = [(''HOME'', Some ''/h'')]\<rparr>,
     t_digest = hex64, t_default = None, t_sequence = 0, t_instances = []\<rparr>"

definition sample_binding :: binding where
  "sample_binding = \<lparr>b_owner = hex64, b_endpoint = ''/s'', b_generation = (1, 2), b_epoch = hex32,
     b_context = (Named, ''k''), b_start = ''/w'', b_home = ''/h'', b_workspace = None, b_template = ''t'',
     b_origin = ''o'', b_types = [(''sh'', sample_type)]\<rparr>"

definition sample_session :: session where
  "sample_session = \<lparr>s_env = sample_env, s_socket = ''/s'', s_generation = (1, 2), s_handle = Some 1, s_writable = True\<rparr>"

definition empty_work :: "outcome list \<Rightarrow> work_disk" where
  "empty_work fs = \<lparr>user = 1000, top = Some \<lparr>downer = 1000, dmode = 448, inode = 1\<rparr>, dirs = [], files = [],
     clock = 2, faults = fs\<rparr>"

definition publish_sample :: "string \<Rightarrow> intent wio" where
  "publish_sample op = publish_intent sample_session op sample_binding Workspace_Initial hex64 ''sh'' hex32 Default"

text \<open>The intent was written, but the error of its final \<open>fsync\<close> ended the publication.\<close>

definition interrupted :: work_disk where
  "interrupted = snd (publish_sample hex32 (empty_work [Done, Done, Unacked]))"

section \<open>One outstanding operation\<close>

lemma make_intent_simps [simp]:
  "i_op (make_intent op b a pl ty l k) = op" "i_owner (make_intent op b a pl ty l k) = b_owner b"
  by (simp_all add: make_intent_def)

text \<open>C9: At most one native operation is outstanding per owner, whatever fails. When the publication
  of an intent under a fresh identifier ends, with success or with an error at any of its disk
  operations, either no record changed at all, or every later publication for the same owner
  leaves the directory as it is, and returns an intent only if that very intent was stored
  already.\<close>

theorem one_outstanding_operation:
  assumes "publish_intent S op b a pl ty loc k d = (r, e)" "lookup_file (record_path Receipts op) d = None"
    and "contents e q \<noteq> contents d q" "b_owner b' = b_owner b"
    and "publish_intent S op' b' a' pl' ty' loc' k' e = (r', f)"
  shows "f = e \<and> (\<forall>x. r' = Inr x \<longrightarrow> read_intent S op' e = (Inr (Some x), e))"
proof -
  from publish_crash [of S "make_intent op b a pl ty loc k" d r e] assms(1-3)
  have "outstanding S (make_intent op b a pl ty loc k) e" by (auto simp: publish_intent_def)
  from publish_reads_unless_free [OF this _ assms(5) [unfolded publish_intent_def]] assms(4)
  show ?thesis by auto
qed

lemma one_outstanding_operation_witness:
  "snd (publish_sample other32 interrupted) = interrupted"
proof -
  have r: "publish_sample hex32 (empty_work [Done, Done, Unacked]) =
      (fst (publish_sample hex32 (empty_work [Done, Done, Unacked])), interrupted)"
    by (simp add: interrupted_def)
  have l: "lookup_file (record_path Receipts hex32) (empty_work [Done, Done, Unacked]) = None"
    by (simp add: lookup_file_def empty_work_def)
  have "lookup_file (record_path Intents hex32) interrupted \<noteq> None" by code_simp
  moreover have "contents interrupted (record_path Intents hex32) \<noteq> None" by code_simp
  moreover have "contents (empty_work [Done, Done, Unacked]) (record_path Intents hex32) = None"
    by (simp add: contents_def lookup_file_def empty_work_def)
  ultimately have c: "contents interrupted (record_path Intents hex32) \<noteq>
      contents (empty_work [Done, Done, Unacked]) (record_path Intents hex32)" by simp
  obtain r' f where f: "publish_sample other32 interrupted = (r', f)" by fastforce
  from one_outstanding_operation [OF r [unfolded publish_sample_def] l c refl f [unfolded publish_sample_def]] f
  show ?thesis by simp
qed

section \<open>Forward only, on the sample\<close>

definition published :: work_disk where
  "published = snd (publish_sample hex32 (empty_work []))"

definition sample_receipt :: receipt where
  "sample_receipt = new_receipt (make_intent hex32 sample_binding Workspace_Initial hex64 ''sh'' hex32 Default)"

lemma receipt_moves_forward_witness:
  "\<exists>s e. update_receipt sample_session hex32 Dispatched [(''pane_id'', Some ''p'')] published = (Inr s, e) \<and>
     read_receipt sample_session hex32 e = (Inr (Some s), e) \<and> r_phase s = Dispatched"
proof -
  have "fst (read_receipt sample_session hex32 published) = Inr (Some sample_receipt)" by code_simp
  then have r: "read_receipt sample_session hex32 published = (Inr (Some sample_receipt), published)"
    using readsD [OF reads_lists(5)] by (metis prod.collapse)
  have "fst (update_receipt sample_session hex32 Dispatched [(''pane_id'', Some ''p'')] published) =
      Inr (sample_receipt\<lparr>r_pane := Some ''p'', r_phase := Dispatched\<rparr>)" by code_simp
  then obtain e where u: "update_receipt sample_session hex32 Dispatched [(''pane_id'', Some ''p'')] published =
      (Inr (sample_receipt\<lparr>r_pane := Some ''p'', r_phase := Dispatched\<rparr>), e)"
    by (metis prod.collapse)
  from receipt_moves_forward [OF r u] u show ?thesis by blast
qed

definition bound_sample :: binding where
  "bound_sample = sample_binding\<lparr>b_workspace := Some ''w''\<rparr>"

definition with_instance :: binding where
  "with_instance = bound_sample\<lparr>b_types := [(''sh'', sample_type\<lparr>t_sequence := 1, t_default := Some hex32,
     t_instances := [(hex32, \<lparr>n_op = hex32, n_kind = Default, n_workspace = ''w'', n_pane = ''p'', n_terminal = ''t'', n_tab = ''b''\<rparr>)]\<rparr>)]\<rparr>"

definition saved :: work_disk where
  "saved = snd (save_binding sample_session bound_sample (empty_work []))"

lemma saved_binding_keeps_contract_witness:
  "\<exists>e. save_binding sample_session with_instance saved = (Inr (), e) \<and>
     load_binding sample_session hex64 e = (Inr (Some with_instance), e)"
proof -
  have o: "b_owner with_instance = hex64" by (simp add: with_instance_def bound_sample_def sample_binding_def)
  have "fst (load_binding sample_session (b_owner with_instance) saved) = Inr (Some bound_sample)" by code_simp
  then have l: "load_binding sample_session (b_owner with_instance) saved = (Inr (Some bound_sample), saved)"
    using readsD [OF reads_lists(3)] by (metis prod.collapse)
  have "fst (save_binding sample_session with_instance saved) = Inr ()" by code_simp
  then obtain e where s: "save_binding sample_session with_instance saved = (Inr (), e)"
    by (metis prod.collapse)
  from saved_binding_keeps_contract [OF l s] s o show ?thesis by auto
qed

section \<open>Removal\<close>

definition frame :: "string list set \<Rightarrow> work_disk \<Rightarrow> work_disk \<Rightarrow> bool" where
  "frame P d e \<longleftrightarrow> (\<forall>q. q \<notin> P \<longrightarrow> lookup_file q e = lookup_file q d)"

lemma frame_refl [simp]: "frame P d d"
  by (simp add: frame_def)

lemma keeps_frame_same: "(\<And>e. keeps (same_files e) m) \<Longrightarrow> keeps (frame P d) m"
  unfolding keeps_def
proof (intro allI impI)
  fix s assume m: "\<And>e. \<forall>s. same_files e s \<longrightarrow> same_files e (snd (m s))" and s: "frame P d s"
  have "same_files s (snd (m s))" using m [of s] same_files_refl by blast
  with s show "frame P d (snd (m s))" by (simp add: frame_def same_files_lookup)
qed

lemma keeps_frame_drop: "p \<in> P \<Longrightarrow> keeps (frame P d) (commit (drop_file p))"
  by (auto simp: keeps_def commit_def frame_def split: list.splits outcome.splits)

lemma keeps_frame_delete: "p \<in> P \<Longrightarrow> keeps (frame P d) (tree_replace (\<lambda>d. d) h p None ex)"
  unfolding tree_replace_def
  by (simp only: option.case)
    (intro keeps_bindS keeps_tree_read keeps_simple keeps_if keeps_getS_disk keeps_frame_drop
      keeps_frame_same [OF keeps_tree_parent])

lemma keeps_frame_write: "record_path k key \<in> P \<Longrightarrow> keeps (frame P d) (write_doc S k key v imm)"
  unfolding keeps_def
proof (intro allI impI)
  fix s assume P: "record_path k key \<in> P" and s: "frame P d s"
  obtain r e where w: "write_doc S k key v imm s = (r, e)" by fastforce
  from write_doc_wrote [OF w] have "\<And>q. q \<noteq> record_path k key \<Longrightarrow> lookup_file q e = lookup_file q s"
    by (simp add: wrote_def)
  with P s w show "frame P d (snd (write_doc S k key v imm s))"
    unfolding frame_def by (metis snd_conv)
qed

lemma reads_keeps: "reads m \<Longrightarrow> keeps P m"
  by (simp add: reads_def)

lemma keeps_frame_update: "record_path Receipts op \<in> P \<Longrightarrow> keeps (frame P d) (update_receipt S op ph ids)"
  unfolding update_receipt_def
  by (intro keeps_bindS reads_keeps [OF reads_lists(5)] reads_keeps [OF reads_lists(4)])
    (auto split: option.splits intro!: keeps_bindS keeps_simple keeps_frame_write)

lemma keeps_frame_drops:
  "\<forall>k\<in>set ks. record_path k op \<in> P \<Longrightarrow> keeps (frame P d) (drop_docs S op ks)"
proof (induction ks)
  case (Cons k ks)
  show ?case
    using Cons
    by (auto simp: record_name_eq_Inr intro!: keeps_bind_lift keeps_bindS keeps_mapErrorS keeps_tree_read
        keeps_if keeps_simple keeps_frame_delete)
qed (simp add: keeps_simple)

text \<open>C36: Nothing is removed before its result is durable. If compaction changed any file, however it
  ended, then the file is the intent or the receipt of that operation, the receipt was accepted
  or completed, and the stored binding of its owner held, in the same epoch and workspace,
  exactly one instance of that operation with all four native references of the receipt.\<close>

theorem compact_only_durable:
  assumes "compact S op d = (r, e)" "lookup_file p e \<noteq> lookup_file p d"
  shows "p \<in> {record_path Intents op, record_path Receipts op} \<and>
    (\<exists>rc b n. read_receipt S op d = (Inr (Some rc), d) \<and> r_phase rc \<in> {Accepted, Completed} \<and>
       load_binding S (r_owner rc) d = (Inr (Some b), d) \<and> b_epoch b = r_epoch rc \<and>
       b_workspace b = r_workspace rc \<and> found_instances b rc = [n] \<and>
       native_ids rc = [Some (n_workspace n), Some (n_pane n), Some (n_terminal n), Some (n_tab n)])"
proof -
  let ?P = "{record_path Intents op, record_path Receipts op}"
  have tail: "keeps (frame ?P d) (bindS (if c then bindS (update_receipt S op Completed []) (\<lambda>_. returnS ()) else returnS ())
      (\<lambda>_. drop_docs S op [Intents, Receipts]))" for c
    by (intro keeps_bindS keeps_if keeps_frame_update keeps_simple keeps_frame_drops) auto
  obtain a where a: "read_receipt S op d = (a, d)"
    using readsD [OF reads_lists(5)] by (metis prod.collapse)
  have ne: "e \<noteq> d" using assms(2) by auto
  with assms(1) a obtain rc where rc: "a = Inr (Some rc)" and ph: "r_phase rc = Accepted \<or> r_phase rc = Completed"
    and k: "bindS (completed_binding S rc) (\<lambda>_.
           bindS (if r_phase rc \<noteq> Completed
                  then bindS (update_receipt S op Completed []) (\<lambda>_. returnS ()) else returnS ()) (\<lambda>_.
             drop_docs S op [Intents, Receipts])) d = (r, e)"
    by (cases a)
      (auto simp: compact_def bindS_def [of "ensureS _ _"] bindS_def [of "read_receipt _ _"] ensureS_def ensure_def
        raiseS_def split: if_splits option.splits)
  obtain cb where cb: "completed_binding S rc d = (cb, d)"
    using readsD [OF reads_completed] by (metis prod.collapse)
  with k ne obtain b where b: "cb = Inr b"
    by (cases cb) (auto simp: bindS_def [of "completed_binding _ _"])
  with k cb have "bindS (if r_phase rc \<noteq> Completed
                  then bindS (update_receipt S op Completed []) (\<lambda>_. returnS ()) else returnS ()) (\<lambda>_.
             drop_docs S op [Intents, Receipts]) d = (r, e)"
    by (simp add: bindS_def [of "completed_binding _ _"])
  from keepsD [OF tail _ this] have "frame ?P d e" by simp
  with assms(2) have p: "p \<in> ?P" by (auto simp: frame_def)
  from cb b obtain bo t where l: "load_binding S (r_owner rc) d = (Inr (Some bo), t)" and "b_epoch bo = r_epoch rc"
    "b_workspace bo = r_workspace rc" and f: "(case found_instances bo rc of
               [n] \<Rightarrow> native_ids rc = [Some (n_workspace n), Some (n_pane n), Some (n_terminal n), Some (n_tab n)]
             | _ \<Rightarrow> False)"
    by (auto simp: completed_binding_def result_simps split: option.splits)
  from f obtain n where "found_instances bo rc = [n]"
    "native_ids rc = [Some (n_workspace n), Some (n_pane n), Some (n_terminal n), Some (n_tab n)]"
    by (auto split: list.splits)
  with p a rc ph l readsD [OF reads_lists(3) l] \<open>b_epoch bo = r_epoch rc\<close> \<open>b_workspace bo = r_workspace rc\<close>
  show ?thesis by auto
qed

definition completed_receipt :: receipt where
  "completed_receipt = sample_receipt\<lparr>r_phase := Completed, r_workspace := Some ''w'', r_pane := Some ''p'',
     r_terminal := Some ''t'', r_tab := Some ''b''\<rparr>"

definition stored_file :: "doc \<Rightarrow> nat \<Rightarrow> doc filed stored" where
  "stored_file v n = \<lparr>body = Encoded v, nbytes = 10, fmode = 384, stamp = n, regular = True, links = 1, fowner = 1000\<rparr>"

definition private_dir :: "nat \<Rightarrow> dir_info" where
  "private_dir n = \<lparr>downer = 1000, dmode = 448, inode = n\<rparr>"

definition durable :: work_disk where
  "durable = \<lparr>user = 1000, top = Some (private_dir 1),
     dirs = [([''bindings''], private_dir 2), ([''intents''], private_dir 3), ([''receipts''], private_dir 4)],
     files = [(record_path Bindings hex64, stored_file (Binding_Doc with_instance) 5),
       (record_path Intents hex32, stored_file (Intent_Doc (make_intent hex32 sample_binding Workspace_Initial hex64 ''sh'' hex32 Default)) 6),
       (record_path Receipts hex32, stored_file (Receipt_Doc completed_receipt) 7)],
     clock = 8, faults = [Done, Lost]\<rparr>"

lemma compact_only_durable_witness:
  "\<exists>e. compact sample_session hex32 durable = (Inl (6, ''work_private_state_io_failed''), e) \<and>
     (\<exists>b. load_binding sample_session hex64 durable = (Inr (Some b), durable) \<and> b_workspace b = Some ''w'')"
proof -
  have "fst (compact sample_session hex32 durable) = Inl (6, ''work_private_state_io_failed'')" by code_simp
  then obtain e where c: "compact sample_session hex32 durable = (Inl (6, ''work_private_state_io_failed''), e)"
    by (metis prod.collapse)
  have "map fst (files (snd (compact sample_session hex32 durable))) = [record_path Bindings hex64, record_path Receipts hex32]"
    by code_simp
  with c have "map fst (files e) = [record_path Bindings hex64, record_path Receipts hex32]" by simp
  then have "fst ` set (files e) = set [record_path Bindings hex64, record_path Receipts hex32]"
    by (metis set_map)
  then have "lookup_file (record_path Intents hex32) e = None"
    by (simp add: lookup_file_def map_of_eq_None_iff)
  moreover have "lookup_file (record_path Intents hex32) durable \<noteq> None"
    by (simp add: lookup_file_def durable_def)
  ultimately have "lookup_file (record_path Intents hex32) e \<noteq> lookup_file (record_path Intents hex32) durable" by metis
  from compact_only_durable [OF c this] obtain rc b where
    rc: "read_receipt sample_session hex32 durable = (Inr (Some rc), durable)"
    and b: "load_binding sample_session (r_owner rc) durable = (Inr (Some b), durable)" "b_workspace b = r_workspace rc"
    by blast
  have "fst (read_receipt sample_session hex32 durable) = Inr (Some completed_receipt)" by code_simp
  with rc have "rc = completed_receipt" by simp
  then have "r_owner rc = hex64" "r_workspace rc = Some ''w''"
    by (simp_all add: completed_receipt_def sample_receipt_def new_receipt_def make_intent_def sample_binding_def)
  with b c show ?thesis by auto
qed

section \<open>Digests identify contracts\<close>

lemma JStr_map_eq: "map JStr xs = map JStr ys \<longleftrightarrow> xs = ys"
  by (simp add: inj_map_eq_map inj_def)

lemma opt_json_eq: "(\<And>a. f a \<noteq> JNull) \<Longrightarrow> (\<And>a b. f a = f b \<longleftrightarrow> a = b) \<Longrightarrow> opt_json f x = opt_json f y \<longleftrightarrow> x = y"
  by (cases x; cases y) (auto simp: opt_json_def, metis)

lemma launcher_name_eq: "launcher_name a = launcher_name b \<longleftrightarrow> a = b"
  by (cases a; cases b) simp_all

lemma policy_name_eq: "policy_name a = policy_name b \<longleftrightarrow> a = b"
  by (cases a; cases b) simp_all

lemma runtime_json_eq: "runtime_json a = runtime_json b \<longleftrightarrow> a = b"
  by (cases a; cases b) (simp add: runtime_json_def policy_name_eq)

lemma launch_json_inj: "launch_json a = launch_json b \<Longrightarrow> a = b"
proof -
  assume eq: "launch_json a = launch_json b"
  have "inj (\<lambda>(k, v). (k :: string, opt_json JStr v))"
    by (auto simp: inj_def opt_json_def split: option.splits)
  then have "l_paths a = l_paths b"
    using eq by (auto simp: launch_json_def inj_map_eq_map)
  moreover have "l_runtime a = l_runtime b"
  proof -
    have "runtime_json x \<noteq> JNull" for x by (simp add: runtime_json_def)
    with opt_json_eq [of runtime_json] have "opt_json runtime_json x = opt_json runtime_json y \<longleftrightarrow> x = y" for x y
      using runtime_json_eq by metis
    with eq show ?thesis by (simp add: launch_json_def)
  qed
  ultimately show ?thesis
    using eq by (cases a; cases b) (simp add: launch_json_def JStr_map_eq launcher_name_eq)
qed

lemma launch_json_canonical: "dict_ok (l_paths l) \<Longrightarrow> canonical (launch_json l)"
  by (auto simp: launch_json_def runtime_json_def opt_json_def dict_ok_def list_all_iff comp_def case_prod_beta
      split: option.splits)

text \<open>C37: A launch digest identifies its contract. If the texts hashed for two launch contracts do not
  collide under SHA-256, equal digests mean the same directory, the same home and the same
  launcher, arguments, runtime and paths.\<close>

theorem launch_digest_identifies:
  assumes "launch_digest E c h l = launch_digest E c' h' l'" "dict_ok (l_paths l)" "dict_ok (l_paths l')"
    and "\<And>x y. sha E (json_bytes x) = sha E (json_bytes y) \<Longrightarrow>
      x \<in> {JObj [(''captured_home'', JStr h), (''cwd'', JStr c), (''launch'', launch_json l)],
           JObj [(''captured_home'', JStr h'), (''cwd'', JStr c'), (''launch'', launch_json l')]} \<Longrightarrow>
      y \<in> {JObj [(''captured_home'', JStr h), (''cwd'', JStr c), (''launch'', launch_json l)],
           JObj [(''captured_home'', JStr h'), (''cwd'', JStr c'), (''launch'', launch_json l')]} \<Longrightarrow>
      json_bytes x = json_bytes y"
  shows "c = c' \<and> h = h' \<and> l = l'"
proof -
  let ?x = "JObj [(''captured_home'', JStr h), (''cwd'', JStr c), (''launch'', launch_json l)]"
  let ?y = "JObj [(''captured_home'', JStr h'), (''cwd'', JStr c'), (''launch'', launch_json l')]"
  from assms(1,4) have "json_bytes ?x = json_bytes ?y" by (simp add: launch_digest_def digest_def)
  moreover have "canonical ?x" "canonical ?y"
    using launch_json_canonical assms(2,3) by (auto simp: dict_ok_def)
  ultimately have "?x = ?y" using json_bytes_inj by blast
  then show ?thesis using launch_json_inj by auto
qed

lemma launch_digest_identifies_witness:
  "launch_digest \<lparr>sha = (\<lambda>s. s), resolve = Some\<rparr> ''/a'' ''/h'' (t_launch sample_type) \<noteq>
   launch_digest \<lparr>sha = (\<lambda>s. s), resolve = Some\<rparr> ''/b'' ''/h'' (t_launch sample_type)"
proof
  assume eq: "launch_digest \<lparr>sha = (\<lambda>s. s), resolve = Some\<rparr> ''/a'' ''/h'' (t_launch sample_type) =
    launch_digest \<lparr>sha = (\<lambda>s. s), resolve = Some\<rparr> ''/b'' ''/h'' (t_launch sample_type)"
  have "dict_ok (l_paths (t_launch sample_type))" by (simp add: sample_type_def)
  from launch_digest_identifies [OF eq this this] show False by simp
qed

end
