(* ===== verification/Json_Schema.thy ===== *)
theory Json_Schema
  imports Json_Codec
begin

text \<open>
  The part of JSON Schema the program uses, as a type of schemas and a checker for JSON values:
  typed values, constants and enumerations, patterns (\<open>re.search\<close>, so that a pattern ending in
  \<open>$\<close> also accepts one final newline), bounds, arrays, closed objects and \<open>anyOf\<close>.
\<close>

datatype schema =
    Any_Bool
  | Any_Int
  | Min_Int int
  | Range_Int int int
  | Const json
  | Enum "json list"
  | Text_Min nat
  | Matches "string \<Rightarrow> bool"
  | Null
  | Any_Of "schema list"
  | Items schema nat "nat option"
  | Closed "(string \<times> schema) list" "string list"
  | Values schema

text \<open>\<open>re.search\<close> of a pattern anchored at both ends.\<close>

definition anchored :: "(string \<Rightarrow> bool) \<Rightarrow> string \<Rightarrow> bool" where
  "anchored p s \<longleftrightarrow> p s \<or> (s \<noteq> [] \<and> last s = CHR 0x0A \<and> p (butlast s))"

definition field :: "string \<Rightarrow> json \<Rightarrow> json option" where
  "field k v = (case v of JObj kvs \<Rightarrow> map_of kvs k | _ \<Rightarrow> None)"

lemma size_list_member: "x \<in> set xs \<Longrightarrow> f x \<le> size_list f xs"
  by (induction xs) auto

function valid :: "schema \<Rightarrow> json \<Rightarrow> bool" where
  "valid Any_Bool v = (case v of JBool b \<Rightarrow> True | _ \<Rightarrow> False)"
| "valid Any_Int v = (case v of JInt i \<Rightarrow> True | _ \<Rightarrow> False)"
| "valid (Min_Int m) v = (case v of JInt i \<Rightarrow> m \<le> i | _ \<Rightarrow> False)"
| "valid (Range_Int m n) v = (case v of JInt i \<Rightarrow> m \<le> i \<and> i \<le> n | _ \<Rightarrow> False)"
| "valid (Const c) v = (v = c)"
| "valid (Enum cs) v = (v \<in> set cs)"
| "valid (Text_Min n) v = (case v of JStr s \<Rightarrow> n \<le> length s | _ \<Rightarrow> False)"
| "valid (Matches p) v = (case v of JStr s \<Rightarrow> p s | _ \<Rightarrow> False)"
| "valid Null v = (v = JNull)"
| "valid (Any_Of ss) v = list_ex (\<lambda>s. valid s v) ss"
| "valid (Items s m n) v = (case v of
      JArr xs \<Rightarrow> list_all (valid s) xs \<and> m \<le> length xs \<and> (case n of None \<Rightarrow> True | Some k \<Rightarrow> length xs \<le> k)
    | _ \<Rightarrow> False)"
| "valid (Closed ps req) v = (case v of
      JObj kvs \<Rightarrow> list_all (\<lambda>(k, s). case map_of kvs k of None \<Rightarrow> True | Some w \<Rightarrow> valid s w) ps \<and>
        list_all (\<lambda>k. k \<in> fst ` set kvs) req \<and> list_all (\<lambda>(k, w). k \<in> fst ` set ps) kvs
    | _ \<Rightarrow> False)"
| "valid (Values s) v = (case v of JObj kvs \<Rightarrow> list_all (\<lambda>(k, w). valid s w) kvs | _ \<Rightarrow> False)"
  by pat_completeness auto
termination
  by (relation "measure (\<lambda>(s, v). size s)")
    (auto simp: less_Suc_eq_le size_list_estimation' dest: size_list_member)

definition nullable :: "schema \<Rightarrow> schema" where
  "nullable s = Any_Of [s, Null]"

definition object_schema :: "(string \<times> schema) list \<Rightarrow> schema" where
  "object_schema ps = Closed ps (map fst ps)"

definition text_schema :: schema where "text_schema = Text_Min 1"
definition path_schema :: schema where "path_schema = Matches (\<lambda>s. take 1 s = ''/'')"
definition hex32_schema :: schema where "hex32_schema = Matches (anchored (is_hex 32))"
definition hex64_schema :: schema where "hex64_schema = Matches (anchored (is_hex 64))"

text \<open>Every string of a value, the keys of its objects included.\<close>

fun strings_of :: "json \<Rightarrow> string list" where
  "strings_of (JStr s) = [s]"
| "strings_of (JArr xs) = concat (map strings_of xs)"
| "strings_of (JObj kvs) = concat (map (\<lambda>(k, v). k # strings_of v) kvs)"
| "strings_of _ = []"

lemma valid_Closed_field:
  "valid (Closed ps req) v \<Longrightarrow> field k v = Some w \<Longrightarrow> \<exists>s. (k, s) \<in> set ps"
  by (auto simp: field_def list_all_iff split: json.splits dest!: map_of_SomeD) force

lemma valid_object_present:
  "valid (object_schema ps) v \<Longrightarrow> (k, s) \<in> set ps \<Longrightarrow> \<exists>w. field k v = Some w \<and> valid s w"
proof -
  assume v: "valid (object_schema ps) v" and k: "(k, s) \<in> set ps"
  then obtain kvs where kvs: "v = JObj kvs" by (auto simp: object_schema_def split: json.splits)
  with v k have "k \<in> fst ` set kvs" "case map_of kvs k of None \<Rightarrow> True | Some w \<Rightarrow> valid s w"
    by (force simp: object_schema_def list_all_iff)+
  then show ?thesis
    by (cases "map_of kvs k") (auto simp: kvs field_def map_of_eq_None_iff)
qed

end
