(* ===== verification/Git_State.thy ===== *)
theory Git_State
  imports Json_Schema Work_State
begin

text \<open>
  \<open>GitState\<close> of \<open>termcfg/work_state.py\<close>: the intent of one local Git worktree operation, with the
  facts it was reviewed on, and its receipt. Documents are JSON values checked against the
  schemas of the source; a file body is the encoding of a value or another text.
\<close>

definition git_facts_schema :: schema where
  "git_facts_schema = object_schema [
     (''repo'', path_schema), (''path'', path_schema), (''template'', text_schema), (''branch'', text_schema),
     (''branch_mode'', Enum [JStr ''new'', JStr ''existing'']), (''base'', nullable text_schema),
     (''commit'', Matches (anchored (\<lambda>s. 40 \<le> length s \<and> length s \<le> 64 \<and> list_all hex_char s))),
     (''common'', path_schema), (''git_dir'', path_schema), (''git_binary'', path_schema),
     (''git_version'', text_schema),
     (''repo_identity'', Items Any_Int 2 (Some 2)), (''common_identity'', Items Any_Int 2 (Some 2)),
     (''git_dir_identity'', Items Any_Int 2 (Some 2)), (''parent_identity'', Items Any_Int 2 (Some 2)),
     (''binary_identity'', Items Any_Int 0 None),
     (''config_files'', Values (Any_Of [Items Any_Int 0 None, Null])),
     (''selection_digest'', hex64_schema),
     (''source'', object_schema [(''id'', text_schema), (''path'', path_schema), (''mode'', Const (JStr ''git'')),
        (''template'', text_schema), (''depth'', Range_Int 1 32), (''exclude_hidden'', Any_Bool),
        (''exclude'', Items text_schema 0 None), (''follow_symlinks'', Any_Bool)]),
     (''worktrees'', Items (object_schema [(''path'', path_schema), (''branch'', nullable text_schema),
        (''commit'', nullable text_schema)]) 0 (Some 4096))]"

definition git_intent_schema :: schema where
  "git_intent_schema = object_schema [(''version'', Const (JInt 1)), (''op'', hex32_schema),
     (''facts'', git_facts_schema), (''fingerprint'', hex64_schema)]"

definition git_receipt_schema :: schema where
  "git_receipt_schema = Closed [(''version'', Const (JInt 1)), (''op'', hex32_schema),
     (''fingerprint'', hex64_schema),
     (''phase'', Enum (map JStr [''intent'', ''dispatched'', ''completed'', ''unknown''])),
     (''observation'', nullable (object_schema [(''path_exists'', Any_Bool), (''branch_oid'', nullable text_schema),
        (''registered'', Any_Bool)])),
     (''command_returncode'', nullable Any_Int)]
     [''version'', ''op'', ''fingerprint'', ''phase'', ''observation'']"

record git_session =
  g_env :: work_env
  g_handle :: handle
  g_writable :: bool

type_synonym git_disk = "json filed disk"
type_synonym 'a gio = "(git_disk, work_error, 'a) io"

datatype git_kind = Git_Intents | Git_Receipts

fun git_dir :: "git_kind \<Rightarrow> string" where
  "git_dir Git_Intents = ''intents''"
| "git_dir Git_Receipts = ''receipts''"

fun git_schema :: "git_kind \<Rightarrow> schema" where
  "git_schema Git_Intents = git_intent_schema"
| "git_schema Git_Receipts = git_receipt_schema"

definition git_path :: "git_kind \<Rightarrow> string \<Rightarrow> string list" where
  "git_path k op = [git_dir k, op @ ''.json'']"

definition text_field :: "string \<Rightarrow> json \<Rightarrow> string" where
  "text_field k v = (case field k v of Some (JStr s) \<Rightarrow> s | _ \<Rightarrow> [])"

definition value_field :: "string \<Rightarrow> json \<Rightarrow> json" where
  "value_field k v = (case field k v of Some w \<Rightarrow> w | None \<Rightarrow> JNull)"

definition invalid_receipt :: work_error where
  "invalid_receipt = because ''work_git_receipt_invalid''"

definition git_value :: "git_session \<Rightarrow> git_kind \<Rightarrow> string \<Rightarrow> json \<Rightarrow> work_error + json" where
  "git_value G k op v =
     bindE (ensure (valid (git_schema k) v \<and> text_field ''op'' v = op) invalid_receipt) (\<lambda>_.
     bindE (ensure (list_all literal_ok (strings_of v)) conflict) (\<lambda>_.
       if k = Git_Intents
       then
         bindE (ensure (digest (sha (g_env G)) (value_field ''facts'' v) = text_field ''fingerprint'' v) invalid_receipt) (\<lambda>_.
         bindE (checkE (\<lambda>key. bindE (absolute (text_field key (value_field ''facts'' v))) (\<lambda>_. Inr ()))
           [''repo'', ''path'', ''common'', ''git_dir'', ''git_binary'']) (\<lambda>_. Inr v))
       else Inr v))"

definition git_read :: "git_session \<Rightarrow> git_kind \<Rightarrow> string \<Rightarrow> json option gio" where
  "git_read G k op =
     bindS (ensureS (is_hex 32 op) conflict) (\<lambda>_.
     bindS (mapErrorS io_error (tree_read (g_handle G) (git_path k op) (Some max_bytes))) (\<lambda>r.
       case r of
         None \<Rightarrow> returnS None
       | Some (b, mode, i) \<Rightarrow>
           bindS (ensureS (mode = 384) (because ''work_private_state_unsafe'')) (\<lambda>_.
           bindS (liftS (case decoded b of None \<Rightarrow> Inl conflict | Some v \<Rightarrow> git_value G k op v)) (\<lambda>v.
             returnS (Some v)))))"

definition git_names :: "git_session \<Rightarrow> git_kind \<Rightarrow> string list gio" where
  "git_names G k d =
     (case tree_parent (g_handle G) False [git_dir k, ''probe''] d of
        (Inl Missing, e) \<Rightarrow> (Inr [], e)
      | (Inl x, e) \<Rightarrow> (Inl (io_error x), e)
      | (Inr _, e) \<Rightarrow>
          (let names = sort (remdups (map last (filter (\<lambda>p. p \<noteq> [] \<and> butlast p = [git_dir k])
                         (map fst (files e) @ map fst (dirs e))))) in
             if length names > max_records \<or> \<not> list_all (record_file 32) names
             then (Inl invalid_receipt, e) else (Inr (map stem names), e)))"

record git_record =
  gr_op :: string
  gr_facts :: json
  gr_fingerprint :: string
  gr_phase :: string
  gr_observation :: json
  gr_returncode :: json

definition git_record :: "json \<Rightarrow> json option \<Rightarrow> git_record" where
  "git_record i r =
     \<lparr>gr_op = text_field ''op'' i, gr_facts = value_field ''facts'' i, gr_fingerprint = text_field ''fingerprint'' i,
      gr_phase = (case r of None \<Rightarrow> ''unknown'' | Some v \<Rightarrow> text_field ''phase'' v),
      gr_observation = (case r of None \<Rightarrow> JNull | Some v \<Rightarrow> value_field ''observation'' v),
      gr_returncode = (case r of None \<Rightarrow> JNull | Some v \<Rightarrow> value_field ''command_returncode'' v)\<rparr>"

fun git_collect :: "git_session \<Rightarrow> string list \<Rightarrow> git_record list gio" where
  "git_collect G [] = returnS []"
| "git_collect G (op # ops) =
     bindS (git_read G Git_Intents op) (\<lambda>i.
     bindS (git_read G Git_Receipts op) (\<lambda>r.
     bindS (liftS (case i of
         None \<Rightarrow> Inl invalid_receipt
       | Some iv \<Rightarrow>
           (case r of
              Some rv \<Rightarrow> if text_field ''fingerprint'' rv \<noteq> text_field ''fingerprint'' iv
                         then Inl invalid_receipt else Inr (git_record iv r)
            | None \<Rightarrow> Inr (git_record iv r)))) (\<lambda>x.
     bindS (git_collect G ops) (\<lambda>xs. returnS (x # xs)))))"

definition git_records :: "git_session \<Rightarrow> git_record list gio" where
  "git_records G =
     bindS (git_names G Git_Intents) (\<lambda>a.
     bindS (git_names G Git_Receipts) (\<lambda>b.
       git_collect G (sort (remdups (a @ b)))))"

definition git_intent_value :: "work_env \<Rightarrow> string \<Rightarrow> json \<Rightarrow> json" where
  "git_intent_value E op facts = JObj [(''facts'', facts), (''fingerprint'', JStr (digest (sha E) facts)),
     (''op'', JStr op), (''version'', JInt 1)]"

definition git_receipt_value :: "work_env \<Rightarrow> string \<Rightarrow> json \<Rightarrow> json" where
  "git_receipt_value E op facts = JObj [(''fingerprint'', JStr (digest (sha E) facts)), (''observation'', JNull),
     (''op'', JStr op), (''phase'', JStr ''intent''), (''version'', JInt 1)]"

text \<open>Another operation that is not completed on the same repository or at the same path.\<close>

definition git_blocks :: "json \<Rightarrow> git_record \<Rightarrow> bool" where
  "git_blocks facts x \<longleftrightarrow>
     gr_phase x \<noteq> ''completed'' \<and>
     (value_field ''common'' (gr_facts x) = value_field ''common'' facts \<or>
      value_field ''path'' (gr_facts x) = value_field ''path'' facts)"

definition git_write :: "git_session \<Rightarrow> git_kind \<Rightarrow> string \<Rightarrow> json \<Rightarrow> unit gio" where
  "git_write G k op v =
     mapErrorS io_error (write_immutable (\<lambda>d. d) (g_handle G) (git_path k op) (Encoded v, length (json_bytes v)))"

definition git_publish :: "git_session \<Rightarrow> string \<Rightarrow> json \<Rightarrow> unit gio" where
  "git_publish G op facts =
     bindS (ensureS (g_writable G \<and> valid git_facts_schema facts) (because ''work_git_intent_invalid'')) (\<lambda>_.
     bindS (git_records G) (\<lambda>xs.
     bindS (ensureS (\<not> list_ex (git_blocks facts) xs) (because ''work_git_recovery_required'')) (\<lambda>_.
     bindS (git_write G Git_Intents op (git_intent_value (g_env G) op facts)) (\<lambda>_.
       git_write G Git_Receipts op (git_receipt_value (g_env G) op facts)))))"

fun git_next :: "string \<Rightarrow> string list" where
  "git_next p =
     (if p = ''intent'' then [''dispatched'']
      else if p = ''dispatched'' then [''completed'', ''unknown''] else [])"

definition put_field :: "string \<Rightarrow> json \<Rightarrow> json \<Rightarrow> json" where
  "put_field k w v = (case v of JObj kvs \<Rightarrow> JObj (dput k w kvs) | _ \<Rightarrow> v)"

definition git_updated :: "json \<Rightarrow> string \<Rightarrow> json \<Rightarrow> int option \<Rightarrow> json" where
  "git_updated v phase observation rc =
     put_field ''command_returncode'' (opt_json JInt rc)
       (put_field ''observation'' observation (put_field ''phase'' (JStr phase) v))"

definition git_update :: "git_session \<Rightarrow> string \<Rightarrow> string \<Rightarrow> json \<Rightarrow> int option \<Rightarrow> unit gio" where
  "git_update G op phase observation rc =
     bindS (git_read G Git_Receipts op) (\<lambda>r.
       case r of
         None \<Rightarrow> raiseS (because ''work_git_receipt_transition_invalid'')
       | Some v \<Rightarrow>
           bindS (ensureS (g_writable G \<and> phase \<in> set (git_next (text_field ''phase'' v)))
             (because ''work_git_receipt_transition_invalid'')) (\<lambda>_.
           let w = git_updated v phase observation rc; p = git_path Git_Receipts op in
             bindS (mapErrorS io_error (tree_read (g_handle G) p (Some max_bytes))) (\<lambda>earlier.
             case earlier of
               None \<Rightarrow> raiseS type_error
             | Some e \<Rightarrow>
                 mapErrorS io_error (tree_replace (\<lambda>d. d) (g_handle G) p
                   (Some (Encoded w, length (json_bytes w), 384)) (seen earlier)))))"

section \<open>Reading changes nothing\<close>

definition git_reads :: "'a gio \<Rightarrow> bool" where
  "git_reads m \<longleftrightarrow> (\<forall>P. keeps P m)"

lemma git_readsD: "git_reads m \<Longrightarrow> m d = (r, e) \<Longrightarrow> e = d"
  unfolding git_reads_def using keepsD [of "\<lambda>x. x = d" m d r e] by simp

lemma git_reads_read: "git_reads (git_read G k op)"
  unfolding git_reads_def git_read_def
  by (intro allI keeps_bindS keeps_simple keeps_mapErrorS keeps_tree_read keeps_option)
    (auto intro!: keeps_bindS keeps_simple split: prod.splits)

lemma git_reads_collect: "git_reads (git_collect G ops)"
proof (induction ops)
  case (Cons op ops)
  then show ?case
    using git_reads_read by (auto simp: git_reads_def intro!: keeps_bindS keeps_simple)
qed (simp add: git_reads_def keeps_simple)

lemma git_names_disk: "git_names G k d = (r, e) \<Longrightarrow> e = d"
  using parent_False [of "g_handle G" "[git_dir k, ''probe'']" d]
  by (auto simp: git_names_def Let_def split: prod.splits sum.splits store_error.splits if_splits)

lemma git_reads_names: "git_reads (git_names G k)"
  unfolding git_reads_def keeps_def by (metis git_names_disk prod.collapse)

lemma git_reads_records: "git_reads (git_records G)"
  using git_reads_names git_reads_collect
  unfolding git_records_def git_reads_def by (auto intro!: keeps_bindS)

section \<open>Operations on one repository exclude each other\<close>

lemma git_collect_mem:
  "git_collect G ops d = (Inr xs, e) \<Longrightarrow> op \<in> set ops \<Longrightarrow>
     \<exists>iv rv. git_read G Git_Intents op d = (Inr (Some iv), d) \<and> git_read G Git_Receipts op d = (Inr rv, d) \<and>
       git_record iv rv \<in> set xs"
proof (induction ops arbitrary: xs)
  case (Cons o' ops)
  from Cons.prems(1) obtain i t r u x w ys where
    i: "git_read G Git_Intents o' d = (Inr i, t)" and r: "git_read G Git_Receipts o' t = (Inr r, u)"
    and x: "(case i of
         None \<Rightarrow> Inl invalid_receipt
       | Some iv \<Rightarrow>
           (case r of
              Some rv \<Rightarrow> if text_field ''fingerprint'' rv \<noteq> text_field ''fingerprint'' iv
                         then Inl invalid_receipt else Inr (git_record iv r)
            | None \<Rightarrow> Inr (git_record iv r))) = Inr x"
    and ys: "git_collect G ops w = (Inr ys, e)" "w = u" and xs: "xs = x # ys"
    by (auto simp: result_simps)
  have s: "t = d" "u = d" using git_readsD [OF git_reads_read i] git_readsD [OF git_reads_read r] by simp_all
  from x obtain iv where "i = Some iv" "x = git_record iv r"
    by (cases i; cases r) (auto split: if_splits)
  with i r s xs ys Cons show ?case by auto
qed simp

lemma git_read_parent:
  "git_read G k op d = (Inr (Some v), e) \<Longrightarrow>
     is_hex 32 op \<and> (\<exists>fd. tree_parent (g_handle G) False [git_dir k, ''probe''] d = (Inr fd, d)) \<and>
     git_path k op \<in> fst ` set (files d)"
proof -
  assume "git_read G k op d = (Inr (Some v), e)"
  then obtain b m i where hex: "is_hex 32 op"
    and rd: "tree_read (g_handle G) (git_path k op) (Some max_bytes) d = (Inr (Some (b, m, i)), e)"
    by (auto simp: git_read_def result_simps split: option.splits)
  from tree_read_Some [OF rd] obtain f fd where "lookup_file (git_path k op) d = Some f"
    and fd: "tree_parent (g_handle G) False (git_path k op) d = (Inr fd, d)" by auto
  then have "git_path k op \<in> fst ` set (files d)"
    by (auto simp: lookup_file_def dest: map_of_SomeD intro: rev_image_eqI)
  moreover have "tree_parent (g_handle G) False (git_path k op) = tree_parent (g_handle G) False [git_dir k, ''probe'']"
    by (rule parent_same_directory) (simp add: git_path_def)
  with fd have "tree_parent (g_handle G) False [git_dir k, ''probe''] d = (Inr fd, d)" by metis
  ultimately show ?thesis using hex by blast
qed

lemma git_names_mem:
  assumes "git_read G k op d = (Inr (Some v), x)" "git_names G k d = (Inr ns, e)"
  shows "op \<in> set ns"
proof -
  from git_read_parent [OF assms(1)] obtain fd where
    fd: "tree_parent (g_handle G) False [git_dir k, ''probe''] d = (Inr fd, d)" and "git_path k op \<in> fst ` set (files d)"
    by auto
  then have "git_path k op \<in> set (filter (\<lambda>p. p \<noteq> [] \<and> butlast p = [git_dir k]) (map fst (files d) @ map fst (dirs d)))"
    by (auto simp: git_path_def)
  then have "last (git_path k op) \<in> last ` set (filter (\<lambda>p. p \<noteq> [] \<and> butlast p = [git_dir k]) (map fst (files d) @ map fst (dirs d)))"
    by (rule imageI)
  then have "stem (last (git_path k op)) \<in> stem ` last ` set (filter (\<lambda>p. p \<noteq> [] \<and> butlast p = [git_dir k]) (map fst (files d) @ map fst (dirs d)))"
    by (rule imageI)
  moreover have "ns = map stem (sort (remdups (map last (filter (\<lambda>p. p \<noteq> [] \<and> butlast p = [git_dir k])
      (map fst (files d) @ map fst (dirs d))))))"
    using assms(2) fd by (auto simp add: git_names_def Let_def split: if_splits)
  then have "set ns = stem ` last ` set (filter (\<lambda>p. p \<noteq> [] \<and> butlast p = [git_dir k]) (map fst (files d) @ map fst (dirs d)))"
    by (simp only: set_map set_sort set_remdups)
  ultimately show ?thesis by (simp add: git_path_def)
qed

text \<open>C38: Worktree operations on one repository exclude each other. While an operation is recorded
  whose receipt is missing or not completed, no operation that names the same common Git
  directory or the same target path can be published: the publication fails and leaves the
  directory as it is.\<close>

theorem git_operations_exclude:
  assumes "git_read G Git_Intents op d = (Inr (Some iv), d)" "git_read G Git_Receipts op d = (Inr rv, d)"
    and "rv = None \<or> (\<exists>v. rv = Some v \<and> text_field ''phase'' v \<noteq> ''completed'')"
    and "value_field ''common'' (value_field ''facts'' iv) = value_field ''common'' facts \<or>
         value_field ''path'' (value_field ''facts'' iv) = value_field ''path'' facts"
  shows "\<exists>x. git_publish G op' facts d = (Inl x, d)"
proof -
  obtain a where a: "git_records G d = (a, d)"
    using git_readsD [OF git_reads_records] by (metis prod.collapse)
  have "list_ex (git_blocks facts) xs" if "a = Inr xs" for xs
  proof -
    from a that obtain n1 t n2 u where n1: "git_names G Git_Intents d = (Inr n1, t)"
      and n2: "git_names G Git_Receipts t = (Inr n2, u)"
      and c: "git_collect G (sort (remdups (n1 @ n2))) u = (Inr xs, d)"
      by (auto simp: git_records_def result_simps)
    have s: "t = d" "u = d" using git_names_disk [OF n1] git_names_disk [OF n2] by simp_all
    have "op \<in> set (sort (remdups (n1 @ n2)))" using git_names_mem [OF assms(1) n1] by simp
    from git_collect_mem [OF c [unfolded s] this] assms(1,2) have "git_record iv rv \<in> set xs" by auto
    moreover have "git_blocks facts (git_record iv rv)"
      using assms(3,4) by (auto simp: git_blocks_def git_record_def)
    ultimately show ?thesis by (auto simp: list_ex_iff)
  qed
  with a show ?thesis
    by (cases a)
      (auto simp: git_publish_def bindS_def ensureS_def ensure_def split: sum.splits prod.splits)
qed

interpretation git_phases: phase_machine git_next "\<lambda>p. if p = ''intent'' then 0 else if p = ''dispatched'' then 1 else 2"
  by unfold_locales (auto split: if_splits)

section \<open>A sample repository\<close>

definition two_ints :: json where "two_ints = JArr [JInt 1, JInt 2]"

definition sample_facts :: json where
  "sample_facts = JObj [(''base'', JNull), (''binary_identity'', JArr []), (''branch'', JStr ''b''),
     (''branch_mode'', JStr ''new''), (''commit'', JStr (replicate 40 CHR ''a'')), (''common'', JStr ''/c''),
     (''common_identity'', two_ints), (''config_files'', JObj []), (''git_binary'', JStr ''/g''),
     (''git_dir'', JStr ''/d''), (''git_dir_identity'', two_ints), (''git_version'', JStr ''2''),
     (''parent_identity'', two_ints), (''path'', JStr ''/p''), (''repo'', JStr ''/r''), (''repo_identity'', two_ints),
     (''selection_digest'', JStr (replicate 64 CHR ''a'')),
     (''source'', JObj [(''depth'', JInt 3), (''exclude'', JArr []), (''exclude_hidden'', JBool True),
        (''follow_symlinks'', JBool False), (''id'', JStr ''i''), (''mode'', JStr ''git''), (''path'', JStr ''/q''),
        (''template'', JStr ''t'')]),
     (''template'', JStr ''t''), (''worktrees'', JArr [])]"

definition sample_git :: git_session where
  "sample_git = \<lparr>g_env = \<lparr>sha = (\<lambda>_. replicate 64 CHR ''a''), resolve = Some\<rparr>, g_handle = Some 1, g_writable = True\<rparr>"

definition git_sample_op :: string where "git_sample_op = replicate 32 CHR ''c''"

definition sample_git_disk :: git_disk where
  "sample_git_disk = \<lparr>user = 7, top = Some \<lparr>downer = 7, dmode = 448, inode = 1\<rparr>,
     dirs = [([''intents''], \<lparr>downer = 7, dmode = 448, inode = 2\<rparr>)],
     files = [(git_path Git_Intents git_sample_op,
       \<lparr>body = Encoded (git_intent_value (g_env sample_git) git_sample_op sample_facts), nbytes = 900, fmode = 384,
        stamp = 3, regular = True, links = 1, fowner = 7\<rparr>)],
     clock = 4, faults = []\<rparr>"

lemma git_operations_exclude_witness:
  "\<exists>x. git_publish sample_git (replicate 32 CHR ''d'') sample_facts sample_git_disk = (Inl x, sample_git_disk)"
proof -
  have "fst (git_read sample_git Git_Intents git_sample_op sample_git_disk) =
      Inr (Some (git_intent_value (g_env sample_git) git_sample_op sample_facts))" by code_simp
  then have i: "git_read sample_git Git_Intents git_sample_op sample_git_disk =
      (Inr (Some (git_intent_value (g_env sample_git) git_sample_op sample_facts)), sample_git_disk)"
    using git_readsD [OF git_reads_read] by (metis prod.collapse)
  have "fst (git_read sample_git Git_Receipts git_sample_op sample_git_disk) = Inr None" by code_simp
  then have r: "git_read sample_git Git_Receipts git_sample_op sample_git_disk = (Inr None, sample_git_disk)"
    using git_readsD [OF git_reads_read] by (metis prod.collapse)
  have "value_field ''common'' (value_field ''facts'' (git_intent_value (g_env sample_git) git_sample_op sample_facts)) =
      value_field ''common'' sample_facts"
    by (simp add: git_intent_value_def value_field_def field_def)
  with git_operations_exclude [OF i r, of sample_facts "replicate 32 CHR ''d''"] show ?thesis by simp
qed

end
