(* ===== verification/Stop_Plan.thy ===== *)
theory Stop_Plan
  imports Json_Codec "HOL-Library.Multiset"
begin

text \<open>
  Stop plans: the pure core of \<open>agentcfg/maintenance.py\<close> (\<open>_plan\<close>, \<open>build_stop_plan\<close>) and of
  \<open>agentcfg/dsh_stop_plan.py\<close> (\<open>normalize\<close>, \<open>build\<close>). A plan names the runs to stop, their complete
  resource closure and what blocks it; normalising it sorts everything, recomputes blockers,
  readiness and the identifier, and checks what the value claims of them.
  Records carry the types, constants and required keys of \<open>maintenance.schema.json\<close>; its patterns
  and bounds are predicates. Every rejection of the code is the same exception, so a function
  that may raise is a test followed by its result.
\<close>

section \<open>Bounded JSON shape\<close>

fun nodes :: "json \<Rightarrow> nat" where
  "nodes (JArr xs) = Suc (sum_list (map nodes xs))"
| "nodes (JObj kvs) = Suc (sum_list (map (\<lambda>(k, v). nodes v) kvs))"
| "nodes _ = 1"

fun depth :: "json \<Rightarrow> nat" where
  "depth (JArr xs) = Suc (fold max (map depth xs) 0)"
| "depth (JObj kvs) = Suc (fold max (map (\<lambda>(k, v). depth v) kvs) 0)"
| "depth _ = 0"

fun short_strings :: "json \<Rightarrow> bool" where
  "short_strings (JStr s) = (length s \<le> 65536)"
| "short_strings (JArr xs) = list_all short_strings xs"
| "short_strings (JObj kvs) = list_all (\<lambda>(k, v). length k \<le> 65536 \<and> short_strings v) kvs"
| "short_strings _ = True"

definition shape_ok :: "json \<Rightarrow> bool" where
  "shape_ok v \<longleftrightarrow> nodes v \<le> 100000 \<and> depth v \<le> 32 \<and> short_strings v"

text \<open>\<open>_dump\<close> adds no newline; its bound counts one.\<close>

definition dump_bytes :: "json \<Rightarrow> string" where
  "dump_bytes v = utf8 (dumps v)"

definition dump_ok :: "json \<Rightarrow> bool" where
  "dump_ok v \<longleftrightarrow> length (dump_bytes v) + 1 \<le> 2 * 1024 * 1024"

definition plan_digest :: "(string \<Rightarrow> string) \<Rightarrow> json \<Rightarrow> string" where
  "plan_digest sha v = sha (dump_bytes v)"

section \<open>Records\<close>

datatype operation = Stop_Only | Setup_Operation
datatype agent = Dsh_Agent | Pi_Agent | Omp_Agent
datatype resource_kind = Instance | Runtime | Native_Home
datatype restore_mode = Manual | New_Location | Original
datatype capability = Supported | Capability_Unknown | Unavailable
datatype session_status = Confirmed | Sealed | Historical | Session_Unknown

record physical =
  ph_device :: nat
  ph_inode :: nat

record resource_key =
  k_kind :: resource_kind
  k_device :: nat
  k_inode :: nat
  k_id :: string

record process =
  pid :: nat
  birth :: string

record scope =
  sc_machine :: string
  sc_local :: string
  sc_agent :: "agent option"
  sc_profile :: "string option"

record observation =
  ob_active :: bool
  ob_manager :: "process option"
  ob_host :: "process option"
  ob_record :: string

record restore =
  re_mode :: restore_mode
  re_capability :: capability
  re_session :: session_status
  re_target :: "string option"

text \<open>A run scope has agent and profile; \<open>snapshot_ok\<close> below says so.\<close>

record snapshot =
  u_id :: string
  u_scope :: scope
  u_observation :: observation
  u_deployment :: string
  u_resources :: "string list"
  u_restore :: restore

record run = snapshot +
  u_digest :: string

record local_resource =
  q_id :: string
  q_key :: resource_key
  q_runs :: "string list"
  q_complete :: bool

record resource = local_resource +
  q_domain :: string
  q_physical :: physical
  q_generation :: nat

datatype blocker =
    Observation_Unknown
  | Coverage_Unknown
  | Restore_Unavailable
  | Session_Unsealed
  | Stop_Unavailable
  | Unselected_Reference

fun blocker_name :: "blocker \<Rightarrow> string" where
  "blocker_name Observation_Unknown = ''control-observation-unknown''"
| "blocker_name Coverage_Unknown = ''resource-coverage-unknown''"
| "blocker_name Restore_Unavailable = ''restore-capability-unavailable''"
| "blocker_name Session_Unsealed = ''session-unsealed''"
| "blocker_name Stop_Unavailable = ''stop-capability-unavailable''"
| "blocker_name Unselected_Reference = ''unselected-run-reference''"

text \<open>Blockers are sorted by their names, which is the order of the constructors.\<close>

fun blocker_index :: "blocker \<Rightarrow> nat" where
  "blocker_index Observation_Unknown = 0"
| "blocker_index Coverage_Unknown = 1"
| "blocker_index Restore_Unavailable = 2"
| "blocker_index Session_Unsealed = 3"
| "blocker_index Stop_Unavailable = 4"
| "blocker_index Unselected_Reference = 5"

lemma blocker_index_inj: "blocker_index a = blocker_index b \<Longrightarrow> a = b"
  by (cases a; cases b) simp_all

instantiation blocker :: linorder
begin

definition less_eq_blocker :: "blocker \<Rightarrow> blocker \<Rightarrow> bool" where
  "less_eq_blocker a b \<longleftrightarrow> blocker_index a \<le> blocker_index b"

definition less_blocker :: "blocker \<Rightarrow> blocker \<Rightarrow> bool" where
  "less_blocker a b \<longleftrightarrow> blocker_index a < blocker_index b"

instance
  by standard (auto simp: less_eq_blocker_def less_blocker_def dest: blocker_index_inj)

end

lemma blocker_order: "a \<le> b \<longleftrightarrow> blocker_name a \<le> blocker_name b"
  by (cases a; cases b) (simp_all add: less_eq_blocker_def less_eq_char_def less_char_def)

record plan =
  p_scope :: scope
  p_operation :: operation
  p_selected :: "string list"
  p_runs :: "run list"
  p_resources :: "resource list"
  p_ready :: bool
  p_blockers :: "blocker list"
  p_id :: string

section \<open>Their JSON\<close>

fun operation_name :: "operation \<Rightarrow> string" where
  "operation_name Stop_Only = ''stop_only''"
| "operation_name Setup_Operation = ''setup''"

fun agent_name :: "agent \<Rightarrow> string" where
  "agent_name Dsh_Agent = ''dsh''"
| "agent_name Pi_Agent = ''pi''"
| "agent_name Omp_Agent = ''omp''"

fun resource_kind_name :: "resource_kind \<Rightarrow> string" where
  "resource_kind_name Instance = ''instance''"
| "resource_kind_name Runtime = ''runtime''"
| "resource_kind_name Native_Home = ''native-home''"

fun mode_name :: "restore_mode \<Rightarrow> string" where
  "mode_name Manual = ''manual''"
| "mode_name New_Location = ''new-location''"
| "mode_name Original = ''original''"

fun capability_name :: "capability \<Rightarrow> string" where
  "capability_name Supported = ''supported''"
| "capability_name Capability_Unknown = ''unknown''"
| "capability_name Unavailable = ''unavailable''"

fun session_name :: "session_status \<Rightarrow> string" where
  "session_name Confirmed = ''confirmed''"
| "session_name Sealed = ''sealed''"
| "session_name Historical = ''historical''"
| "session_name Session_Unknown = ''unknown''"

definition null_or :: "('a \<Rightarrow> json) \<Rightarrow> 'a option \<Rightarrow> json" where
  "null_or f x = (case x of None \<Rightarrow> JNull | Some y \<Rightarrow> f y)"

definition jnat :: "nat \<Rightarrow> json" where "jnat n = JInt (int n)"
definition jtexts :: "string list \<Rightarrow> json" where "jtexts xs = JArr (map JStr xs)"

definition physical_json :: "physical \<Rightarrow> json" where
  "physical_json p = JObj [(''device'', jnat (ph_device p)), (''inode'', jnat (ph_inode p))]"

definition key_json :: "resource_key \<Rightarrow> json" where
  "key_json k = JObj [(''device'', jnat (k_device k)), (''inode'', jnat (k_inode k)),
     (''key_id'', JStr (k_id k)), (''kind'', JStr (resource_kind_name (k_kind k)))]"

definition process_json :: "process \<Rightarrow> json" where
  "process_json p = JObj [(''birth_id'', JStr (birth p)), (''pid'', jnat (pid p))]"

text \<open>The optional members of a scope are absent, not null.\<close>

definition scope_json :: "scope \<Rightarrow> json" where
  "scope_json s = JObj
     ((case sc_agent s of None \<Rightarrow> [] | Some a \<Rightarrow> [(''agent'', JStr (agent_name a))]) @
      [(''local'', JStr (sc_local s)), (''machine'', JStr (sc_machine s))] @
      (case sc_profile s of None \<Rightarrow> [] | Some p \<Rightarrow> [(''profile'', JStr p)]))"

definition observation_json :: "observation \<Rightarrow> json" where
  "observation_json b = JObj
     [(''host_identity'', null_or process_json (ob_host b)),
      (''manager_identity'', null_or process_json (ob_manager b)), (''record_digest'', JStr (ob_record b)),
      (''state'', JStr (if ob_active b then ''active'' else ''unknown''))]"

definition restore_json :: "restore \<Rightarrow> json" where
  "restore_json r = JObj
     [(''capability'', JStr (capability_name (re_capability r))), (''mode'', JStr (mode_name (re_mode r))),
      (''session_status'', JStr (session_name (re_session r))), (''target_digest'', null_or JStr (re_target r))]"

definition run_json :: "run \<Rightarrow> json" where
  "run_json u = JObj
     [(''deployment_digest'', JStr (u_deployment u)), (''observation'', observation_json (u_observation u)),
      (''observation_digest'', JStr (u_digest u)), (''resource_ids'', jtexts (u_resources u)),
      (''restore'', restore_json (u_restore u)), (''run_id'', JStr (u_id u)), (''scope'', scope_json (u_scope u))]"

definition coverage_json :: "bool \<Rightarrow> json" where
  "coverage_json c = JStr (if c then ''complete'' else ''unknown'')"

definition resource_json :: "resource \<Rightarrow> json" where
  "resource_json q = JObj
     [(''coverage'', coverage_json (q_complete q)), (''domain_id'', JStr (q_domain q)),
      (''domain_physical'', physical_json (q_physical q)), (''generation'', jnat (q_generation q)),
      (''key'', key_json (q_key q)), (''reference_runs'', jtexts (q_runs q)), (''resource_id'', JStr (q_id q))]"

definition readiness_json :: "bool \<Rightarrow> json" where
  "readiness_json r = JStr (if r then ''ready'' else ''blocked'')"

text \<open>The members of a plan in key order, the identifier apart: it digests the others.\<close>

definition plan_head :: "plan \<Rightarrow> (string \<times> json) list" where
  "plan_head p = [(''blockers'', JArr (map (\<lambda>b. JStr (blocker_name b)) (p_blockers p))), (''kind'', JStr ''stop-plan''),
     (''operation'', JStr (operation_name (p_operation p)))]"

definition plan_tail :: "plan \<Rightarrow> (string \<times> json) list" where
  "plan_tail p = [(''protocol'', JStr ''rotom-maintenance-v1''), (''readiness'', readiness_json (p_ready p)),
     (''resources'', JArr (map resource_json (p_resources p))), (''runs'', JArr (map run_json (p_runs p))),
     (''schema_version'', JInt 1), (''scope'', scope_json (p_scope p)), (''selected_runs'', jtexts (p_selected p))]"

definition plan_body_json :: "plan \<Rightarrow> json" where
  "plan_body_json p = JObj (plan_head p @ plan_tail p)"

definition plan_json :: "plan \<Rightarrow> json" where
  "plan_json p = JObj (plan_head p @ (''plan_id'', JStr (p_id p)) # plan_tail p)"

section \<open>Checks\<close>

definition u64 :: "nat \<Rightarrow> bool" where
  "u64 n \<longleftrightarrow> n \<le> 18446744073709551615"

definition physical_ok :: "physical \<Rightarrow> bool" where
  "physical_ok p \<longleftrightarrow> u64 (ph_device p) \<and> 1 \<le> ph_inode p \<and> u64 (ph_inode p)"

text \<open>\<open>ResourceKey.from_dict\<close>: the identifier is the digest of the physical fields.\<close>

definition key_digest :: "(string \<Rightarrow> string) \<Rightarrow> resource_kind \<Rightarrow> nat \<Rightarrow> nat \<Rightarrow> string" where
  "key_digest sha kind device ino =
     sha (dumps (JObj [(''device'', jnat device), (''inode'', jnat ino), (''kind'', JStr (resource_kind_name kind))]))"

definition key_ok :: "(string \<Rightarrow> string) \<Rightarrow> resource_key \<Rightarrow> bool" where
  "key_ok sha k \<longleftrightarrow>
     u64 (k_device k) \<and> 1 \<le> k_inode k \<and> u64 (k_inode k) \<and> is_hex 64 (k_id k) \<and>
     k_id k = key_digest sha (k_kind k) (k_device k) (k_inode k)"

definition process_ok :: "process \<Rightarrow> bool" where
  "process_ok p \<longleftrightarrow> 1 \<le> pid p \<and> u64 (pid p) \<and> 1 \<le> length (birth p) \<and> length (birth p) \<le> 255"

definition canonical_path :: "string \<Rightarrow> bool" where
  "canonical_path s \<longleftrightarrow>
     take 1 s = ''/'' \<and> (s = ''/'' \<or> list_all (\<lambda>p. p \<noteq> '''' \<and> p \<noteq> ''.'' \<and> p \<noteq> ''..'') (tl (split_on CHR ''/'' s))) \<and>
     CHR 0x5C \<notin> set s \<and> list_all (\<lambda>c. \<not> control_char c) s"

definition scope_name :: "string \<Rightarrow> bool" where
  "scope_name s \<longleftrightarrow> s \<noteq> [] \<and> length s \<le> 255 \<and> alnum_char (hd s) \<and>
     list_all (\<lambda>c. alnum_char c \<or> c = CHR ''_'' \<or> c = CHR ''.'' \<or> c = CHR ''-'') (tl s)"

definition scope_ok :: "scope \<Rightarrow> bool" where
  "scope_ok s \<longleftrightarrow>
     scope_name (sc_machine s) \<and> 1 \<le> length (sc_local s) \<and> length (sc_local s) \<le> 4096 \<and>
     canonical_path (sc_local s) \<and> (case sc_profile s of None \<Rightarrow> True | Some p \<Rightarrow> scope_name p)"

definition scope_schema :: "scope \<Rightarrow> bool" where
  "scope_schema s \<longleftrightarrow>
     1 \<le> length (sc_machine s) \<and> length (sc_machine s) \<le> 255 \<and> 1 \<le> length (sc_local s) \<and> length (sc_local s) \<le> 4096 \<and>
     (case sc_profile s of None \<Rightarrow> True | Some p \<Rightarrow> 1 \<le> length p \<and> length p \<le> 255)"

text \<open>Every member of the plan's scope has the same value in the run's.\<close>

definition scope_within :: "scope \<Rightarrow> scope \<Rightarrow> bool" where
  "scope_within inner outer \<longleftrightarrow>
     sc_machine inner = sc_machine outer \<and> sc_local inner = sc_local outer \<and>
     (sc_agent outer \<noteq> None \<longrightarrow> sc_agent inner = sc_agent outer) \<and>
     (sc_profile outer \<noteq> None \<longrightarrow> sc_profile inner = sc_profile outer)"

definition observation_ok :: "observation \<Rightarrow> bool" where
  "observation_ok b \<longleftrightarrow>
     is_hex 64 (ob_record b) \<and> (case ob_manager b of None \<Rightarrow> True | Some p \<Rightarrow> process_ok p) \<and>
     (case ob_host b of None \<Rightarrow> True | Some p \<Rightarrow> process_ok p)"

definition restore_ok :: "restore \<Rightarrow> bool" where
  "restore_ok r \<longleftrightarrow>
     (case re_target r of None \<Rightarrow> re_mode r = Manual | Some t \<Rightarrow> re_mode r \<noteq> Manual \<and> is_hex 64 t)"

definition snapshot_ok :: "'a snapshot_scheme \<Rightarrow> bool" where
  "snapshot_ok u \<longleftrightarrow>
     is_hex 32 (u_id u) \<and> scope_schema (u_scope u) \<and> sc_agent (u_scope u) \<noteq> None \<and>
     sc_profile (u_scope u) \<noteq> None \<and> observation_ok (u_observation u) \<and>
     is_hex 64 (u_deployment u) \<and> list_all (is_hex 32) (u_resources u) \<and>
     3 \<le> length (u_resources u) \<and> length (u_resources u) \<le> 4096 \<and> distinct (u_resources u) \<and>
     restore_ok (u_restore u)"

definition reference_ok :: "(string \<Rightarrow> string) \<Rightarrow> 'a local_resource_scheme \<Rightarrow> bool" where
  "reference_ok sha q \<longleftrightarrow>
     is_hex 32 (q_id q) \<and> key_ok sha (q_key q) \<and> list_all (is_hex 32) (q_runs q) \<and> distinct (q_runs q) \<and>
     1 \<le> length (q_runs q) \<and> length (q_runs q) \<le> 1024"

definition resource_ok :: "(string \<Rightarrow> string) \<Rightarrow> resource \<Rightarrow> bool" where
  "resource_ok sha q \<longleftrightarrow>
     reference_ok sha q \<and> is_hex 32 (q_domain q) \<and> physical_ok (q_physical q) \<and>
     1 \<le> q_generation q \<and> u64 (q_generation q)"

definition run_ids :: "'a snapshot_scheme list \<Rightarrow> string list" where
  "run_ids us = map u_id us"

definition resource_ids :: "'a local_resource_scheme list \<Rightarrow> string list" where
  "resource_ids qs = map q_id qs"

text \<open>\<open>_resource_catalog\<close>: no identifier and no physical object twice.\<close>

definition catalog_ok :: "'a local_resource_scheme list \<Rightarrow> bool" where
  "catalog_ok qs \<longleftrightarrow>
     distinct (resource_ids qs) \<and> distinct (map (\<lambda>q. (k_device (q_key q), k_inode (q_key q))) qs)"

definition find_resource :: "'a local_resource_scheme list \<Rightarrow> string \<Rightarrow> 'a local_resource_scheme option" where
  "find_resource qs rid = map_of (map (\<lambda>q. (q_id q, q)) qs) rid"

definition kinds_of :: "'a local_resource_scheme list \<Rightarrow> string list \<Rightarrow> resource_kind list" where
  "kinds_of qs rids =
     map (\<lambda>rid. case find_resource qs rid of Some q \<Rightarrow> k_kind (q_key q) | None \<Rightarrow> Runtime) rids"

text \<open>Each run has one instance, one native home and at least one runtime among the resources.\<close>

definition closure_ok :: "'a local_resource_scheme list \<Rightarrow> 'b snapshot_scheme \<Rightarrow> bool" where
  "closure_ok qs u \<longleftrightarrow>
     set (u_resources u) \<subseteq> set (resource_ids qs) \<and>
     count_list (kinds_of qs (u_resources u)) Instance = 1 \<and>
     count_list (kinds_of qs (u_resources u)) Native_Home = 1 \<and>
     1 \<le> count_list (kinds_of qs (u_resources u)) Runtime"

definition required_resources :: "'a snapshot_scheme list \<Rightarrow> string list" where
  "required_resources us = concat (map u_resources us)"

definition owners :: "'a snapshot_scheme list \<Rightarrow> string \<Rightarrow> string list" where
  "owners us rid = map u_id (filter (\<lambda>u. rid \<in> set (u_resources u)) us)"

text \<open>The references of a resource agree with the selected runs that name it.\<close>

definition references_ok :: "'a snapshot_scheme list \<Rightarrow> string list \<Rightarrow> 'b local_resource_scheme \<Rightarrow> bool" where
  "references_ok us selected q \<longleftrightarrow> set (owners us (q_id q)) = set (q_runs q) \<inter> set selected"

section \<open>Plans of one coordination domain\<close>

datatype invalid = Invalid

text \<open>What one run contributes: unknown observations and restores that cannot be promised.\<close>

definition restore_blockers :: "restore \<Rightarrow> blocker list" where
  "restore_blockers r =
     (if re_mode r = Manual then []
      else (if re_capability r \<noteq> Supported then [Restore_Unavailable] else []) @
           (if re_session r \<noteq> Confirmed \<and> re_session r \<noteq> Sealed then [Session_Unsealed] else []))"

definition run_blockers :: "'a snapshot_scheme \<Rightarrow> blocker list" where
  "run_blockers u =
     (if ob_active (u_observation u) then [] else [Observation_Unknown]) @ restore_blockers (u_restore u)"

definition resource_blockers :: "operation \<Rightarrow> string list \<Rightarrow> 'a local_resource_scheme \<Rightarrow> blocker list" where
  "resource_blockers op selected q =
     (if q_complete q then [] else [Coverage_Unknown]) @
     (if op = Setup_Operation \<and> \<not> set (q_runs q) \<subseteq> set selected then [Unselected_Reference] else [])"

definition all_blockers :: "operation \<Rightarrow> string list \<Rightarrow> 'a snapshot_scheme list \<Rightarrow> 'b local_resource_scheme list \<Rightarrow> blocker list" where
  "all_blockers op selected us qs =
     sort (remdups (concat (map run_blockers us) @ concat (map (resource_blockers op selected) qs)))"

text \<open>An active observation names two different processes.\<close>

definition identities_ok :: "observation \<Rightarrow> bool" where
  "identities_ok b \<longleftrightarrow>
     ob_active b \<longrightarrow> (case (ob_manager b, ob_host b) of (Some m, Some h) \<Rightarrow> pid m \<noteq> pid h | _ \<Rightarrow> False)"

definition run_ok :: "(string \<Rightarrow> string) \<Rightarrow> scope \<Rightarrow> resource list \<Rightarrow> run \<Rightarrow> bool" where
  "run_ok sha sc qs u \<longleftrightarrow>
     snapshot_ok u \<and> is_hex 64 (u_digest u) \<and> scope_ok (u_scope u) \<and> scope_within (u_scope u) sc \<and>
     u_digest u = plan_digest sha (observation_json (u_observation u)) \<and>
     identities_ok (u_observation u) \<and> closure_ok qs u"

definition plan_schema :: "plan \<Rightarrow> bool" where
  "plan_schema p \<longleftrightarrow>
     is_hex 64 (p_id p) \<and> list_all (is_hex 32) (p_selected p) \<and> distinct (p_selected p) \<and>
     1 \<le> length (p_selected p) \<and> length (p_selected p) \<le> 1024 \<and>
     1 \<le> length (p_runs p) \<and> length (p_runs p) \<le> 1024 \<and>
     1 \<le> length (p_resources p) \<and> length (p_resources p) \<le> 4096 \<and>
     distinct (p_blockers p) \<and> Stop_Unavailable \<notin> set (p_blockers p)"

definition plan_ok :: "(string \<Rightarrow> string) \<Rightarrow> plan \<Rightarrow> bool" where
  "plan_ok sha p \<longleftrightarrow>
     plan_schema p \<and> scope_ok (p_scope p) \<and>
     distinct (run_ids (p_runs p)) \<and> catalog_ok (p_resources p) \<and> list_all (resource_ok sha) (p_resources p) \<and>
     set (run_ids (p_runs p)) = set (p_selected p) \<and>
     list_all (run_ok sha (p_scope p) (p_resources p)) (p_runs p) \<and>
     set (required_resources (p_runs p)) = set (resource_ids (p_resources p)) \<and>
     list_all (references_ok (p_runs p) (p_selected p)) (p_resources p) \<and>
     length (remdups (map (\<lambda>q. (q_domain q, ph_device (q_physical q), ph_inode (q_physical q))) (p_resources p))) = 1"

definition sort_run :: "'a snapshot_scheme \<Rightarrow> 'a snapshot_scheme" where
  "sort_run u = u\<lparr>u_resources := sort (u_resources u)\<rparr>"

definition sort_resource :: "'a local_resource_scheme \<Rightarrow> 'a local_resource_scheme" where
  "sort_resource q = q\<lparr>q_runs := sort (q_runs q)\<rparr>"

definition sorted_plan :: "plan \<Rightarrow> plan" where
  "sorted_plan p =
     (let bs = all_blockers (p_operation p) (p_selected p) (p_runs p) (p_resources p) in
      p\<lparr>p_selected := sort (p_selected p), p_runs := sort_key u_id (map sort_run (p_runs p)),
        p_resources := sort_key q_id (map sort_resource (p_resources p)),
        p_blockers := bs, p_ready := (bs = [])\<rparr>)"

definition plan_normalize :: "(string \<Rightarrow> string) \<Rightarrow> bool \<Rightarrow> plan \<Rightarrow> invalid + plan" where
  "plan_normalize sha verify p =
     (let q = sorted_plan p; d = plan_digest sha (plan_body_json q) in
      if shape_ok (plan_json p) \<and> plan_ok sha p \<and> dump_ok (plan_body_json q) \<and>
         (verify \<longrightarrow> p_blockers p = p_blockers q \<and> p_ready p = p_ready q \<and> p_id p = d)
      then Inr (q\<lparr>p_id := d\<rparr>) else Inl Invalid)"

section \<open>Building a plan\<close>

text \<open>
  The supplied runs and resources may be more than the selection: the plan takes the selected
  runs with their own resources and nothing else. \<open>supplied\<close> is the JSON of all arguments.
\<close>

definition supplied_json :: "scope \<Rightarrow> operation \<Rightarrow> string list \<Rightarrow> snapshot list \<Rightarrow> resource list \<Rightarrow> json" where
  "supplied_json sc op selected us qs = JObj
     [(''operation'', JStr (operation_name op)), (''resources'', JArr (map resource_json qs)),
      (''runs'', JArr (map (\<lambda>u. JObj
         [(''deployment_digest'', JStr (u_deployment u)), (''observation'', observation_json (u_observation u)),
          (''resource_ids'', jtexts (u_resources u)), (''restore'', restore_json (u_restore u)),
          (''run_id'', JStr (u_id u)), (''scope'', scope_json (u_scope u))]) us)),
      (''scope'', scope_json sc), (''selected_runs'', jtexts selected)]"

definition linked :: "'a local_resource_scheme list \<Rightarrow> 'b snapshot_scheme \<Rightarrow> bool" where
  "linked qs u \<longleftrightarrow>
     list_all (\<lambda>rid. case find_resource qs rid of None \<Rightarrow> False | Some q \<Rightarrow> u_id u \<in> set (q_runs q)) (u_resources u)"

definition find_run :: "snapshot list \<Rightarrow> string \<Rightarrow> snapshot option" where
  "find_run us r = map_of (map (\<lambda>u. (u_id u, u)) us) r"

definition choose_runs :: "(string \<Rightarrow> string) \<Rightarrow> snapshot list \<Rightarrow> string list \<Rightarrow> run list" where
  "choose_runs sha us selected =
     concat (map (\<lambda>r. case find_run us r of
        None \<Rightarrow> []
      | Some u \<Rightarrow> [snapshot.extend u (run.fields (plan_digest sha (observation_json (u_observation u))))]) selected)"

definition choose_resources :: "'a local_resource_scheme list \<Rightarrow> string list \<Rightarrow> 'a local_resource_scheme list" where
  "choose_resources qs rids = concat (map (\<lambda>rid. (case find_resource qs rid of None \<Rightarrow> [] | Some q \<Rightarrow> [q])) (remdups rids))"

definition build_stop_plan ::
  "(string \<Rightarrow> string) \<Rightarrow> scope \<Rightarrow> operation \<Rightarrow> string list \<Rightarrow> snapshot list \<Rightarrow> resource list \<Rightarrow> invalid + plan" where
  "build_stop_plan sha sc op selected us qs =
     (let s = supplied_json sc op selected us qs; chosen = choose_runs sha us selected in
      if shape_ok s \<and> dump_ok s \<and> selected \<noteq> [] \<and> distinct selected \<and>
         length us \<le> 1024 \<and> length qs \<le> 4096 \<and> list_all snapshot_ok us \<and> list_all (resource_ok sha) qs \<and>
         distinct (run_ids us) \<and> catalog_ok qs \<and> set selected \<subseteq> set (run_ids us) \<and> list_all (linked qs) us
      then plan_normalize sha False
        \<lparr>p_scope = sc, p_operation = op, p_selected = selected, p_runs = chosen,
         p_resources = choose_resources qs (required_resources chosen), p_ready = True, p_blockers = [],
         p_id = replicate 64 CHR ''0''\<rparr>
      else Inl Invalid)"

section \<open>Sorting changes nothing that is checked\<close>

lemma sort_run_simps [simp]:
  "u_id (sort_run u) = u_id u" "u_scope (sort_run u) = u_scope u" "u_observation (sort_run u) = u_observation u"
  "u_deployment (sort_run u) = u_deployment u" "u_restore (sort_run u) = u_restore u"
  "u_resources (sort_run u) = sort (u_resources u)"
  by (simp_all add: sort_run_def)

lemma sort_run_digest [simp]: "u_digest (sort_run u) = u_digest u"
  by (simp add: sort_run_def)

lemma sort_resource_simps [simp]:
  "q_id (sort_resource q) = q_id q" "q_key (sort_resource q) = q_key q"
  "q_complete (sort_resource q) = q_complete q" "q_runs (sort_resource q) = sort (q_runs q)"
  by (simp_all add: sort_resource_def)

lemma sort_resource_domain [simp]:
  "q_domain (sort_resource q) = q_domain q" "q_physical (sort_resource q) = q_physical q"
  "q_generation (sort_resource q) = q_generation q"
  by (simp_all add: sort_resource_def)

lemma sort_twice [simp]: "sort_run (sort_run u) = sort_run u" "sort_resource (sort_resource q) = sort_resource q"
  by (simp_all add: sort_run_def sort_resource_def sort_key_id_if_sorted)

lemma run_ids_map [simp]: "run_ids (map sort_run us) = run_ids us"
  by (simp add: run_ids_def comp_def)

lemma resource_ids_map [simp]: "resource_ids (map sort_resource qs) = resource_ids qs"
  by (simp add: resource_ids_def comp_def)

lemma sort_keys_mem [simp]:
  "set (sort_key f (map g xs)) = g ` set xs" "length (sort_key f (map g xs)) = length xs"
  by simp_all

lemma sort_key_fixed:
  assumes "\<And>x. f (g x) = f x" "\<And>x. g (g x) = g x"
  shows "sort_key f (map g (sort_key f (map g xs))) = sort_key f (map g xs)"
proof -
  have "map g (sort_key f (map g xs)) = sort_key f (map g xs)"
    by (rule map_idI) (auto simp: assms(2))
  then show ?thesis by (simp add: sort_key_id_if_sorted)
qed

lemma mset_map_sort_key: "mset (map h (sort_key f xs)) = mset (map h xs)"
  by (simp add: mset_map)

lemma run_ids_sorted [simp]: "set (run_ids (sort_key f (map sort_run us))) = set (run_ids us)"
  by (simp add: run_ids_def image_image)

lemma resource_ids_sorted [simp]: "set (resource_ids (sort_key f (map sort_resource qs))) = set (resource_ids qs)"
  by (simp add: resource_ids_def image_image)

lemma distinct_map_sort: "distinct (map h (sort_key f xs)) = distinct (map h xs)"
  by (metis mset_eq_imp_distinct_iff mset_map_sort_key)

lemma distinct_run_ids [simp]: "distinct (run_ids (sort_key f (map sort_run us))) = distinct (run_ids us)"
  by (simp add: run_ids_def distinct_map_sort comp_def)

lemma distinct_resource_ids [simp]: "distinct (resource_ids (sort_key f (map sort_resource qs))) = distinct (resource_ids qs)"
  by (simp add: resource_ids_def distinct_map_sort comp_def)

lemma catalog_sorted [simp]: "catalog_ok (sort_key f (map sort_resource qs)) = catalog_ok qs"
  by (simp add: catalog_ok_def distinct_map_sort comp_def)

lemma map_of_set_eq:
  assumes "distinct (map fst xs)" "distinct (map fst ys)" "set xs = set ys"
  shows "map_of xs = map_of ys"
  using assms by (metis map_of_eq_Some_iff not_None_eq option.exhaust ext)

lemma find_resource_sorted:
  assumes "distinct (resource_ids qs)"
  shows "find_resource (sort_key q_id (map sort_resource qs)) rid = map_option sort_resource (find_resource qs rid)"
proof -
  have "map_of (map (\<lambda>q. (q_id q, q)) (sort_key q_id (map sort_resource qs))) =
      map_of (map (\<lambda>q. (q_id q, q)) (map sort_resource qs))"
  proof (rule map_of_set_eq)
    show "distinct (map fst (map (\<lambda>q. (q_id q, q)) (sort_key q_id (map sort_resource qs))))"
      using distinct_resource_ids [of q_id qs] assms by (simp add: resource_ids_def comp_def)
    show "distinct (map fst (map (\<lambda>q. (q_id q, q)) (map sort_resource qs)))"
      using assms by (simp add: resource_ids_def comp_def)
  qed (simp add: image_image)
  moreover have "map_of (map (\<lambda>q. (q_id q, q)) (map sort_resource qs)) rid =
      map_option sort_resource (map_of (map (\<lambda>q. (q_id q, q)) qs) rid)"
    by (induction qs) auto
  ultimately show ?thesis by (simp add: find_resource_def)
qed

lemma kinds_of_sorted:
  "distinct (resource_ids qs) \<Longrightarrow> kinds_of (sort_key q_id (map sort_resource qs)) rids = kinds_of qs rids"
  by (auto simp: kinds_of_def find_resource_sorted split: option.splits)

lemma count_kinds_sort: "count_list (kinds_of qs (sort rids)) k = count_list (kinds_of qs rids) k"
  by (rule mset_eq_length_filter) (simp add: kinds_of_def)

lemma closure_sorted:
  assumes "distinct (resource_ids qs)"
  shows "closure_ok (sort_key q_id (map sort_resource qs)) (sort_run u) = closure_ok qs u"
  using assms by (simp add: closure_ok_def kinds_of_sorted count_kinds_sort)

lemma snapshot_sorted [simp]: "snapshot_ok (sort_run u) = snapshot_ok u"
  by (simp add: snapshot_ok_def list_all_iff)

lemma run_sorted:
  assumes "distinct (resource_ids qs)"
  shows "run_ok sha sc (sort_key q_id (map sort_resource qs)) (sort_run u) = run_ok sha sc qs u"
  using closure_sorted [OF assms, of u] by (simp add: run_ok_def)

lemma resource_sorted [simp]: "resource_ok sha (sort_resource q) = resource_ok sha q"
  by (simp add: resource_ok_def reference_ok_def list_all_iff)

lemma required_sorted [simp]:
  "set (required_resources (sort_key f (map sort_run us))) = set (required_resources us)"
  by (simp add: required_resources_def)

lemma owners_sorted [simp]: "set (owners (sort_key f (map sort_run us)) rid) = set (owners us rid)"
  by (auto simp: owners_def image_iff) (metis sort_run_simps(1,6) set_sort)+

lemma references_sorted [simp]:
  "references_ok (sort_key f (map sort_run us)) (sort sel) (sort_resource q) = references_ok us sel q"
  by (simp add: references_ok_def)

lemma run_blockers_sorted [simp]: "run_blockers (sort_run u) = run_blockers u"
  by (simp add: run_blockers_def)

lemma resource_blockers_sorted [simp]:
  "resource_blockers op (sort sel) (sort_resource q) = resource_blockers op sel q"
  by (simp add: resource_blockers_def)

lemma sort_remdups_eq: "set xs = set ys \<Longrightarrow> sort (remdups xs) = sort (remdups ys)"
  by (metis sorted_list_of_set_sort_remdups)

lemma all_blockers_sorted [simp]:
  "all_blockers op (sort sel) (sort_key f (map sort_run us)) (sort_key g (map sort_resource qs)) = all_blockers op sel us qs"
  unfolding all_blockers_def by (rule sort_remdups_eq) simp

lemma sorted_plan_simps [simp]:
  "p_scope (sorted_plan p) = p_scope p" "p_operation (sorted_plan p) = p_operation p"
  "p_selected (sorted_plan p) = sort (p_selected p)" "p_id (sorted_plan p) = p_id p"
  "p_runs (sorted_plan p) = sort_key u_id (map sort_run (p_runs p))"
  "p_resources (sorted_plan p) = sort_key q_id (map sort_resource (p_resources p))"
  "p_blockers (sorted_plan p) = all_blockers (p_operation p) (p_selected p) (p_runs p) (p_resources p)"
  "p_ready (sorted_plan p) \<longleftrightarrow> p_blockers (sorted_plan p) = []"
  by (simp_all add: sorted_plan_def Let_def)

lemma sorted_plan_id [simp]: "sorted_plan (p\<lparr>p_id := d\<rparr>) = (sorted_plan p)\<lparr>p_id := d\<rparr>"
  by (simp add: sorted_plan_def Let_def)

lemma sorted_plan_twice [simp]: "sorted_plan (sorted_plan p) = sorted_plan p"
proof -
  have "sort_key u_id (map sort_run (sort_key u_id (map sort_run us))) = sort_key u_id (map sort_run us)" for us :: "run list"
    by (rule sort_key_fixed) simp_all
  moreover have "sort_key q_id (map sort_resource (sort_key q_id (map sort_resource qs))) = sort_key q_id (map sort_resource qs)"
    for qs :: "resource list"
    by (rule sort_key_fixed) simp_all
  ultimately show ?thesis
    by (intro plan.equality) (simp_all add: sort_key_id_if_sorted)
qed

lemma plan_body_id [simp]: "plan_body_json (p\<lparr>p_id := d\<rparr>) = plan_body_json p"
  by (simp add: plan_body_json_def plan_head_def plan_tail_def)

lemma all_blockers_set:
  "set (all_blockers op sel us qs) = (\<Union>u\<in>set us. set (run_blockers u)) \<union> (\<Union>q\<in>set qs. set (resource_blockers op sel q))"
  by (simp add: all_blockers_def)

lemma domains_sorted:
  "length (remdups (map h (sort_key f (map g xs)))) = length (remdups (map (h \<circ> g) xs))"
proof -
  have "set (map h (sort_key f (map g xs))) = set (map (h \<circ> g) xs)" by (simp add: image_image comp_def)
  then show ?thesis by (metis List.card_set)
qed

lemma plan_ok_sorted: "plan_ok sha p \<Longrightarrow> is_hex 64 d \<Longrightarrow> plan_ok sha ((sorted_plan p)\<lparr>p_id := d\<rparr>)"
proof -
  assume ok: "plan_ok sha p" and d: "is_hex 64 d"
  let ?U = "sort_key u_id (map sort_run (p_runs p))" and ?Q = "sort_key q_id (map sort_resource (p_resources p))"
  have dis: "distinct (resource_ids (p_resources p))" using ok by (auto simp: plan_ok_def catalog_ok_def)
  have "Stop_Unavailable \<notin> set (all_blockers (p_operation p) (p_selected p) (p_runs p) (p_resources p))"
    by (auto simp: all_blockers_set run_blockers_def resource_blockers_def restore_blockers_def split: if_splits)
  moreover have "distinct (all_blockers (p_operation p) (p_selected p) (p_runs p) (p_resources p))"
    by (simp add: all_blockers_def)
  ultimately have sch: "plan_schema ((sorted_plan p)\<lparr>p_id := d\<rparr>)"
    using ok d by (simp add: plan_ok_def plan_schema_def list_all_iff)
  have "list_all (run_ok sha (p_scope p) ?Q) ?U"
    using ok run_sorted [OF dis] by (auto simp: plan_ok_def list_all_iff)
  moreover have "list_all (resource_ok sha) ?Q" using ok by (auto simp: plan_ok_def list_all_iff)
  moreover have "list_all (references_ok ?U (sort (p_selected p))) ?Q"
    using ok by (auto simp: plan_ok_def list_all_iff)
  moreover have "length (remdups (map (\<lambda>q. (q_domain q, ph_device (q_physical q), ph_inode (q_physical q))) ?Q)) = 1"
    using ok by (simp add: domains_sorted plan_ok_def comp_def)
  ultimately show ?thesis using ok sch by (simp add: plan_ok_def)
qed

section \<open>What a normal plan is\<close>

lemma plan_normalize_Inr:
  assumes "plan_normalize sha v p = Inr q"
  shows "q = (sorted_plan p)\<lparr>p_id := plan_digest sha (plan_body_json (sorted_plan p))\<rparr>" "plan_ok sha p"
    "dump_ok (plan_body_json (sorted_plan p))"
  using assms by (auto simp: plan_normalize_def Let_def split: if_splits)

lemma normal_plan_fixed:
  assumes "plan_normalize sha v p = Inr q" "shape_ok (plan_json q)" "\<And>x. is_hex 64 (sha x)"
  shows "plan_normalize sha True q = Inr q"
proof -
  note q = plan_normalize_Inr [OF assms(1)]
  have "plan_ok sha q"
    unfolding q(1) using q(2) assms(3) by (intro plan_ok_sorted) (simp_all add: plan_digest_def)
  moreover have "sorted_plan q = q" "p_blockers (sorted_plan q) = p_blockers q" "p_ready (sorted_plan q) = p_ready q"
    unfolding q(1) by simp_all
  moreover have "plan_digest sha (plan_body_json q) = p_id q" "dump_ok (plan_body_json q)"
    using q(1,3) by simp_all
  ultimately show ?thesis using assms(2) by (simp add: plan_normalize_def Let_def)
qed

text \<open>Normalising a plan gives a fixed point that verification accepts: whatever order and
  whatever claims the plan came with, the normal plan verifies and normalises to itself.
  (SHA-256 digests are 64 hexadecimal digits; the bound on the JSON shape has to be asked of the
  result, which may hold five blockers more than the input.)\<close>

theorem normal_plan_verifies:
  assumes "plan_normalize sha v p = Inr q" "shape_ok (plan_json q)" "\<And>x. is_hex 64 (sha x)"
  shows "plan_normalize sha True q = Inr q"
  by (rule normal_plan_fixed [OF assms])

text \<open>C33: Readiness means exactly that nothing stands in the way: a normal plan is ready if and only
  if every run is observed active and restored by hand or from a confirmed or sealed session
  with a supported capability, every resource's references are completely known and, for a
  setup, no resource is referenced by a run outside the selection.\<close>

theorem ready_means_unblocked:
  assumes "plan_normalize sha v p = Inr q"
  shows "p_ready q \<longleftrightarrow>
    (\<forall>u\<in>set (p_runs q). ob_active (u_observation u) \<and>
       (re_mode (u_restore u) = Manual \<or>
        re_capability (u_restore u) = Supported \<and> re_session (u_restore u) \<in> {Confirmed, Sealed})) \<and>
    (\<forall>x\<in>set (p_resources q). q_complete x \<and>
       (p_operation q = Setup_Operation \<longrightarrow> set (q_runs x) \<subseteq> set (p_selected q)))"
proof -
  note q = plan_normalize_Inr [OF assms(1)]
  have "p_ready q \<longleftrightarrow> set (all_blockers (p_operation p) (p_selected p) (p_runs p) (p_resources p)) = {}"
    unfolding q(1) by simp
  also have "\<dots> \<longleftrightarrow> (\<forall>u\<in>set (p_runs p). run_blockers u = []) \<and>
      (\<forall>x\<in>set (p_resources p). resource_blockers (p_operation p) (p_selected p) x = [])"
    by (auto simp: all_blockers_set)
  finally show ?thesis
    unfolding q(1)
    by (auto simp: run_blockers_def resource_blockers_def restore_blockers_def split: if_splits)
qed

section \<open>What a built plan holds\<close>

lemma sort_by_key: "map f (sort_key f xs) = sort (map f xs)"
  by (rule properties_for_sort [symmetric]) (simp_all add: mset_map)

lemma find_run_some: "find_run us r = Some u \<Longrightarrow> u \<in> set us \<and> u_id u = r"
  by (auto simp: find_run_def dest: map_of_SomeD)

lemma find_run_in: "r \<in> set (run_ids us) \<Longrightarrow> \<exists>u. find_run us r = Some u"
  by (cases "find_run us r") (auto simp: find_run_def run_ids_def map_of_eq_None_iff image_image)

lemma find_run_unique: "distinct (run_ids us) \<Longrightarrow> u \<in> set us \<Longrightarrow> find_run us (u_id u) = Some u"
  unfolding find_run_def by (rule map_of_is_SomeI) (auto simp: run_ids_def comp_def)

lemma find_resource_some: "find_resource qs r = Some q \<Longrightarrow> q \<in> set qs \<and> q_id q = r"
  by (auto simp: find_resource_def dest: map_of_SomeD)

definition observed_run :: "(string \<Rightarrow> string) \<Rightarrow> snapshot \<Rightarrow> run" where
  "observed_run sha u = snapshot.extend u (run.fields (plan_digest sha (observation_json (u_observation u))))"

lemma observed_run_simps [simp]:
  "u_id (observed_run sha u) = u_id u" "u_resources (observed_run sha u) = u_resources u"
  by (simp_all add: observed_run_def snapshot.defs)

lemma choose_runs_set: "set (choose_runs sha us sel) = {observed_run sha u | u r. r \<in> set sel \<and> find_run us r = Some u}"
  by (auto simp: choose_runs_def observed_run_def split: option.splits) force

lemma choose_runs_ids: "set sel \<subseteq> set (run_ids us) \<Longrightarrow> run_ids (choose_runs sha us sel) = sel"
proof (induction sel)
  case (Cons r sel)
  then obtain u where u: "find_run us r = Some u" using find_run_in by force
  then have "run_ids (choose_runs sha us (r # sel)) = u_id u # run_ids (choose_runs sha us sel)"
    by (simp add: choose_runs_def run_ids_def flip: observed_run_def)
  with find_run_some [OF u] Cons show ?case by simp
qed (simp add: choose_runs_def run_ids_def)

lemma choose_resources_mem: "q \<in> set (choose_resources qs rids) \<Longrightarrow> q \<in> set qs"
  by (auto simp: choose_resources_def dest: find_resource_some [OF sym] split: option.splits)

lemma chosen_runs_given:
  assumes "distinct (run_ids us)" "set sel \<subseteq> set (run_ids us)"
  shows "set (choose_runs sha us sel) = observed_run sha ` {u \<in> set us. u_id u \<in> set sel}"
  using assms find_run_some find_run_unique unfolding choose_runs_set by fastforce

text \<open>C34: A built plan is about exactly the runs that were selected and exactly the resources those
  runs name: it keeps scope and operation, lists the selected runs in order, each as supplied
  with the digest of its own observation, and its resources are supplied resources, one for
  every identifier a selected run names and none for any other run.\<close>

theorem stop_plan_takes_selection:
  assumes "build_stop_plan sha sc op sel us qs = Inr p"
  shows "p_scope p = sc \<and> p_operation p = op \<and> p_selected p = sort sel \<and> run_ids (p_runs p) = sort sel \<and>
    set (p_runs p) = (\<lambda>u. sort_run (observed_run sha u)) ` {u \<in> set us. u_id u \<in> set sel} \<and>
    set (p_resources p) \<subseteq> sort_resource ` set qs \<and>
    set (resource_ids (p_resources p)) = (\<Union>u\<in>{u \<in> set us. u_id u \<in> set sel}. set (u_resources u))"
proof -
  let ?R = "choose_runs sha us sel"
  let ?Q = "choose_resources qs (required_resources ?R)"
  have n: "plan_normalize sha False
        \<lparr>p_scope = sc, p_operation = op, p_selected = sel, p_runs = ?R, p_resources = ?Q, p_ready = True,
         p_blockers = [], p_id = replicate 64 CHR ''0''\<rparr> = Inr p"
    and us: "distinct (run_ids us)" "set sel \<subseteq> set (run_ids us)"
    using assms by (auto simp: build_stop_plan_def Let_def split: if_splits)
  note p = plan_normalize_Inr [OF n]
  note runs = chosen_runs_given [OF us, of sha]
  have "run_ids (p_runs p) = sort (run_ids (map sort_run ?R))"
    using p(1) by (simp add: run_ids_def sort_by_key)
  then have "run_ids (p_runs p) = sort sel"
    using choose_runs_ids [OF us(2)] by simp
  moreover have "set (p_resources p) \<subseteq> sort_resource ` set qs"
    using p(1) choose_resources_mem by auto
  moreover have "set (resource_ids (p_resources p)) = set (resource_ids ?Q)"
    using p(1) by simp
  moreover have "set (resource_ids ?Q) = set (required_resources ?R)"
    using p(2) by (simp add: plan_ok_def)
  moreover have "set (required_resources ?R) = (\<Union>u\<in>{u \<in> set us. u_id u \<in> set sel}. set (u_resources u))"
    by (simp add: required_resources_def runs)
  ultimately show ?thesis
    using p(1) by (simp add: runs image_image)
qed

section \<open>The order of a plan's members\<close>

lemma sort_key_perm:
  assumes "mset xs = mset ys" "distinct (map f xs)"
  shows "sort_key f xs = sort_key f ys"
proof (rule properties_for_sort_key)
  show "mset (sort_key f ys) = mset xs" using assms(1) by simp
  show "sorted (map f (sort_key f ys))" by simp
  fix k assume "k \<in> set (sort_key f ys)"
  then have k: "k \<in> set xs" using assms(1) by (metis set_mset_mset set_sort)
  have inj: "inj_on f (set xs)" and dx: "distinct xs" using assms(2) by (auto simp: distinct_map)
  have one: "filter (\<lambda>x. f k = f x) zs = [k]" if z: "mset zs = mset xs" for zs
  proof -
    have sz: "set zs = set xs" "distinct zs"
      using z dx by (metis set_mset_mset, metis mset_eq_imp_distinct_iff)
    then have "set (filter (\<lambda>x. f k = f x) zs) = {k}" using k inj by (auto dest: inj_onD)
    moreover have "distinct (filter (\<lambda>x. f k = f x) zs)" using sz by simp
    ultimately show ?thesis
      by (metis distinct_length_2_or_more distinct_singleton empty_set insert_not_empty list.set_intros(1)
          list.exhaust singletonD list.set_intros(2))
  qed
  have "mset (sort_key f ys) = mset xs" using assms(1) by simp
  then show "filter (\<lambda>x. f k = f x) (sort_key f ys) = filter (\<lambda>x. f k = f x) xs" by (simp only: one refl)
qed

lemma map_mset_eq: "mset xs = mset ys \<Longrightarrow> mset (map f xs) = mset (map f ys)"
  by simp

definition same_members :: "plan \<Rightarrow> plan \<Rightarrow> bool" where
  "same_members p q \<longleftrightarrow>
     p_scope p = p_scope q \<and> p_operation p = p_operation q \<and> mset (p_selected p) = mset (p_selected q) \<and>
     mset (p_runs p) = mset (p_runs q) \<and> mset (p_resources p) = mset (p_resources q)"

lemma all_blockers_cong:
  "set sel = set sel' \<Longrightarrow> set us = set us' \<Longrightarrow> set qs = set qs' \<Longrightarrow> all_blockers op sel us qs = all_blockers op sel' us' qs'"
  unfolding all_blockers_def by (rule sort_remdups_eq) (simp add: resource_blockers_def)

text \<open>The identifier of a plan depends on what the plan contains and on nothing else: two plans
  with the same scope, operation, selection, runs and resources in any order, whatever blockers,
  readiness and identifier they came with, have the same normal form.\<close>

theorem plan_ignores_order:
  assumes "plan_normalize sha v p = Inr p'" "plan_normalize sha w q = Inr q'" "same_members p q"
  shows "p' = q'"
proof -
  note p = plan_normalize_Inr [OF assms(1)] and q = plan_normalize_Inr [OF assms(2)]
  note s = assms(3) [unfolded same_members_def]
  have ok: "distinct (run_ids (p_runs p))" "distinct (resource_ids (p_resources p))"
    using p(2) by (simp_all add: plan_ok_def catalog_ok_def)
  have runs: "sort_key u_id (map sort_run (p_runs p)) = sort_key u_id (map sort_run (p_runs q))"
    using s ok(1) by (intro sort_key_perm map_mset_eq) (simp_all add: run_ids_def comp_def)
  have resources: "sort_key q_id (map sort_resource (p_resources p)) = sort_key q_id (map sort_resource (p_resources q))"
    using s ok(2) by (intro sort_key_perm map_mset_eq) (simp_all add: resource_ids_def comp_def)
  have selected: "sort (p_selected p) = sort (p_selected q)"
    using s by (metis mset_sort properties_for_sort sorted_sort)
  have "set (p_selected p) = set (p_selected q)" "set (p_runs p) = set (p_runs q)" "set (p_resources p) = set (p_resources q)"
    using s by (metis set_mset_mset)+
  then have "all_blockers (p_operation p) (p_selected p) (p_runs p) (p_resources p) =
      all_blockers (p_operation q) (p_selected q) (p_runs q) (p_resources q)"
    using s by (metis all_blockers_cong)
  then have "(sorted_plan p)\<lparr>p_id := []\<rparr> = (sorted_plan q)\<lparr>p_id := []\<rparr>"
    using s runs resources selected by (intro plan.equality) simp_all
  then have "(sorted_plan p)\<lparr>p_id := d\<rparr> = (sorted_plan q)\<lparr>p_id := d\<rparr>" for d
    by (metis plan.surjective plan.update_convs(8) plan.unfold_congs(8))
  moreover have "plan_body_json (sorted_plan p) = plan_body_json (sorted_plan q)"
    by (metis \<open>(sorted_plan p)\<lparr>p_id := []\<rparr> = (sorted_plan q)\<lparr>p_id := []\<rparr>\<close> plan_body_id)
  ultimately show ?thesis using p(1) q(1) by simp
qed

section \<open>Bounds on the text of a value\<close>

fun dump_weight :: "json \<Rightarrow> nat" where
  "dump_weight (JStr s) = 6 * length s + 2"
| "dump_weight (JArr xs) = 2 + sum_list (map (\<lambda>x. Suc (dump_weight x)) xs)"
| "dump_weight (JObj kvs) = 2 + sum_list (map (\<lambda>(k, v). 6 * length k + 4 + dump_weight v) kvs)"
| "dump_weight v = length (dumps v)"

lemma length_dump_char: "length (dump_char c) \<le> 6"
  by (simp add: dump_char_def)

lemma length_dump_str: "length (dump_str s) \<le> 6 * length s + 2"
proof -
  have "length (concat (map dump_char s)) \<le> 6 * length s"
    by (induction s) (use length_dump_char in \<open>auto simp: add_mono\<close>)
  then show ?thesis by (simp add: dump_str_def)
qed

lemma length_join: "length sep \<le> 1 \<Longrightarrow> length (join sep xs) \<le> sum_list (map (\<lambda>x. Suc (length x)) xs)"
  by (induction sep xs rule: join.induct) auto

lemma sum_list_sorted: "sum_list (map f (sort_key g xs)) = sum_list (map f xs)" for f :: "'a \<Rightarrow> nat"
proof -
  have "mset (map f (sort_key g xs)) = mset (map f xs)" by simp
  then show ?thesis by (metis sum_mset_sum_list)
qed

lemma length_dump_obj:
  "length (dump_obj kts) \<le> 2 + sum_list (map (\<lambda>(k, t). 6 * length k + 4 + length t) kts)"
proof -
  let ?f = "\<lambda>(k, t). dump_str k @ '':'' @ t"
  have "length (join '','' (map ?f (sort_key fst kts))) \<le> sum_list (map (\<lambda>x. Suc (length (?f x))) (sort_key fst kts))"
    using length_join [of "'',''" "map ?f (sort_key fst kts)"] by (simp add: comp_def)
  also have "\<dots> = sum_list (map (\<lambda>x. Suc (length (?f x))) kts)"
    by (rule sum_list_sorted)
  also have "\<dots> \<le> sum_list (map (\<lambda>(k, t). 6 * length k + 4 + length t) kts)"
    by (rule sum_list_mono) (use length_dump_str in \<open>auto simp: le_trans\<close>)
  finally show ?thesis by (simp add: dump_obj_def)
qed

lemma dumps_weight: "length (dumps v) \<le> dump_weight v"
proof (induction v)
  case (JStr s)
  then show ?case using length_dump_str by simp
next
  case (JArr xs)
  have "length (join '','' (map dumps xs)) \<le> sum_list (map (\<lambda>x. Suc (length (dumps x))) xs)"
    using length_join [of "'',''" "map dumps xs"] by (simp add: comp_def)
  also have "\<dots> \<le> sum_list (map (\<lambda>x. Suc (dump_weight x)) xs)"
    using JArr by (intro sum_list_mono) simp
  finally show ?case by simp
next
  case (JObj kvs)
  have "length (dumps (JObj kvs)) \<le> 2 + sum_list (map (\<lambda>(k, v). 6 * length k + 4 + length (dumps v)) kvs)"
    using length_dump_obj [of "map (\<lambda>(k, v). (k, dumps v)) kvs"] by (simp add: comp_def case_prod_unfold)
  also have "\<dots> \<le> 2 + sum_list (map (\<lambda>(k, v). 6 * length k + 4 + dump_weight v) kvs)"
    using JObj by (intro add_left_mono sum_list_mono) force
  finally show ?case by simp
qed simp_all

lemma length_utf8: "length (utf8 s) \<le> 2 * length s"
  by (induction s) (auto simp: utf8_def utf8_char_def)

lemma small_dump_ok: "dump_weight v \<le> 1000000 \<Longrightarrow> dump_ok v"
  using dumps_weight [of v] length_utf8 [of "dumps v"] by (simp add: dump_ok_def dump_bytes_def)

section \<open>A small plan\<close>

definition sample_sha :: "string \<Rightarrow> string" where "sample_sha x = replicate 64 CHR ''a''"
definition sample_id :: "char \<Rightarrow> string" where "sample_id c = replicate 32 c"

definition sample_scope :: scope where
  "sample_scope = \<lparr>sc_machine = ''m'', sc_local = ''/p'', sc_agent = Some Omp_Agent, sc_profile = Some ''x''\<rparr>"

definition sample_snapshot :: "char \<Rightarrow> string list \<Rightarrow> snapshot" where
  "sample_snapshot c rids = \<lparr>u_id = sample_id c, u_scope = sample_scope,
     u_observation = \<lparr>ob_active = True, ob_manager = Some \<lparr>pid = 1, birth = ''b''\<rparr>,
       ob_host = Some \<lparr>pid = 2, birth = ''b''\<rparr>, ob_record = replicate 64 CHR ''a''\<rparr>,
     u_deployment = replicate 64 CHR ''a'', u_resources = rids,
     u_restore = \<lparr>re_mode = Manual, re_capability = Supported, re_session = Confirmed, re_target = None\<rparr>\<rparr>"

definition sample_resource :: "char \<Rightarrow> resource_kind \<Rightarrow> nat \<Rightarrow> char list \<Rightarrow> resource" where
  "sample_resource c kind ino runs = \<lparr>q_id = sample_id c,
     q_key = \<lparr>k_kind = kind, k_device = 1, k_inode = ino, k_id = replicate 64 CHR ''a''\<rparr>,
     q_runs = map sample_id runs, q_complete = True, q_domain = sample_id CHR ''d'',
     q_physical = \<lparr>ph_device = 1, ph_inode = 9\<rparr>, q_generation = 1\<rparr>"

definition sample_snapshots :: "snapshot list" where
  "sample_snapshots =
     [sample_snapshot CHR ''b'' (map sample_id ''123''), sample_snapshot CHR ''a'' (map sample_id ''123'')]"

definition sample_resources :: "resource list" where
  "sample_resources = [sample_resource CHR ''1'' Instance 11 ''ab'', sample_resource CHR ''2'' Runtime 12 ''ab'',
     sample_resource CHR ''3'' Native_Home 13 ''ab'']"

definition sample_plan :: plan where
  "sample_plan = \<lparr>p_scope = sample_scope, p_operation = Setup_Operation, p_selected = map sample_id ''ab'',
     p_runs = map (observed_run sample_sha) [sample_snapshot CHR ''a'' (map sample_id ''123''), sample_snapshot CHR ''b'' (map sample_id ''123'')],
     p_resources = [sample_resource CHR ''1'' Instance 11 ''ab'', sample_resource CHR ''2'' Runtime 12 ''ab'',
       sample_resource CHR ''3'' Native_Home 13 ''ab''],
     p_ready = True, p_blockers = [], p_id = replicate 64 CHR ''a''\<rparr>"


definition sample_unsorted :: plan where
  "sample_unsorted =
     (let us = choose_runs sample_sha sample_snapshots (map sample_id ''ba'') in
      \<lparr>p_scope = sample_scope, p_operation = Setup_Operation, p_selected = map sample_id ''ba'', p_runs = us,
       p_resources = choose_resources sample_resources (required_resources us), p_ready = True, p_blockers = [],
       p_id = replicate 64 CHR ''0''\<rparr>)"

lemma sample_digest [simp]: "plan_digest sample_sha v = replicate 64 CHR ''a''"
  by (simp add: plan_digest_def sample_sha_def)

lemma sample_normal:
  assumes "shape_ok (plan_json p)" "plan_ok sample_sha p" "(sorted_plan p)\<lparr>p_id := replicate 64 CHR ''a''\<rparr> = sample_plan"
    "v \<longrightarrow> p_blockers p = [] \<and> p_ready p \<and> p_id p = replicate 64 CHR ''a''"
  shows "plan_normalize sample_sha v p = Inr sample_plan"
proof -
  have "plan_body_json (sorted_plan p) = plan_body_json sample_plan"
    using assms(3) by (metis plan_body_id)
  moreover have "dump_ok (plan_body_json sample_plan)" by (rule small_dump_ok) code_simp
  moreover have "p_blockers (sorted_plan p) = p_blockers sample_plan" "p_ready (sorted_plan p) = p_ready sample_plan"
    unfolding assms(3) [symmetric] by simp_all
  moreover have "p_blockers sample_plan = []" "p_ready sample_plan" by (simp_all add: sample_plan_def)
  ultimately show ?thesis using assms by (simp add: plan_normalize_def Let_def)
qed

lemma sample_plan_normal: "plan_normalize sample_sha True sample_plan = Inr sample_plan"
proof (rule sample_normal)
  show "shape_ok (plan_json sample_plan)" by code_simp
  show "plan_ok sample_sha sample_plan" by code_simp
  show "(sorted_plan sample_plan)\<lparr>p_id := replicate 64 CHR ''a''\<rparr> = sample_plan" by code_simp
qed (simp add: sample_plan_def)

lemma sample_unsorted_normal: "plan_normalize sample_sha False sample_unsorted = Inr sample_plan"
proof (rule sample_normal)
  show "shape_ok (plan_json sample_unsorted)" by code_simp
  show "plan_ok sample_sha sample_unsorted" by code_simp
  show "(sorted_plan sample_unsorted)\<lparr>p_id := replicate 64 CHR ''a''\<rparr> = sample_plan" by code_simp
qed simp

lemma sample_plan_built:
  "build_stop_plan sample_sha sample_scope Setup_Operation (map sample_id ''ba'') sample_snapshots sample_resources = Inr sample_plan"
proof -
  let ?s = "supplied_json sample_scope Setup_Operation (map sample_id ''ba'') sample_snapshots sample_resources"
  have "dump_ok ?s" by (rule small_dump_ok) code_simp
  moreover have "shape_ok ?s" by code_simp
  moreover have "map sample_id ''ba'' \<noteq> [] \<and> distinct (map sample_id ''ba'') \<and> length sample_snapshots \<le> 1024 \<and>
      length sample_resources \<le> 4096 \<and> list_all snapshot_ok sample_snapshots" by code_simp
  moreover have "list_all (resource_ok sample_sha) sample_resources \<and> distinct (run_ids sample_snapshots)" by code_simp
  moreover have "catalog_ok sample_resources \<and> list_all (linked sample_resources) sample_snapshots \<and>
      set (map sample_id ''ba'') \<subseteq> set (run_ids sample_snapshots)" by code_simp
  ultimately show ?thesis
    using sample_unsorted_normal unfolding build_stop_plan_def Let_def sample_unsorted_def
    by simp
qed

lemma sample_sha_hex: "is_hex 64 (sample_sha x)"
  by (simp add: sample_sha_def is_hex_def list_all_iff hex_char_def code_def)

theorem normal_plan_verifies_witness:
  "plan_normalize sample_sha True sample_plan = Inr sample_plan"
  by (rule normal_plan_verifies [OF sample_plan_normal _ sample_sha_hex]) code_simp

theorem ready_means_unblocked_witness:
  "p_ready sample_plan \<and> list_all (\<lambda>x. q_complete x \<and> set (q_runs x) \<subseteq> set (p_selected sample_plan)) (p_resources sample_plan)"
proof -
  have "p_ready sample_plan" "p_operation sample_plan = Setup_Operation" by code_simp+
  then show ?thesis using ready_means_unblocked [OF sample_plan_normal] by (simp add: list_all_iff)
qed

theorem stop_plan_takes_selection_witness:
  "run_ids (p_runs sample_plan) = map sample_id ''ab'' \<and> set (resource_ids (p_resources sample_plan)) = sample_id ` set ''123''"
proof -
  have "sort (map sample_id ''ba'') = map sample_id ''ab''" by code_simp
  moreover have "run_ids (p_runs sample_plan) = sort (map sample_id ''ba'')"
    using stop_plan_takes_selection [OF sample_plan_built] by blast
  moreover have "set (resource_ids (p_resources sample_plan)) = sample_id ` set ''123''" by code_simp
  ultimately show ?thesis by simp
qed

theorem plan_ignores_order_witness: "plan_normalize sample_sha False sample_unsorted = plan_normalize sample_sha False sample_plan"
proof -
  have "plan_normalize sample_sha False sample_plan = Inr sample_plan"
    using sample_plan_normal by (auto simp: plan_normalize_def Let_def split: if_splits)
  moreover have "same_members sample_unsorted sample_plan"
    unfolding same_members_def by code_simp
  ultimately have "sample_plan = sample_plan \<and> plan_normalize sample_sha False sample_plan = Inr sample_plan"
    using plan_ignores_order [OF sample_unsorted_normal] by blast
  then show ?thesis using sample_unsorted_normal by simp
qed

end
