(* ===== verification/Dsh_Plan.thy ===== *)
theory Dsh_Plan
  imports Stop_Plan
begin

text \<open>
  Stop plans of one instance whose own registry coordinates (\<open>agentcfg/dsh_stop_plan.py\<close>,
  reached through \<open>maintenance.build_dsh_stop_plan\<close>): version 2 of the plan format. It reuses
  the run records and the resource records without domain of \<open>Stop_Plan\<close>; the coordinator is the
  instance's registry, bound by a digest of the instance's scope, and only manual restores and
  runs of exactly that instance are accepted.
\<close>

section \<open>Records\<close>

record coordinator =
  co_agent :: agent
  co_binding :: string
  co_physical :: physical
  co_records :: string

record dsh_plan =
  d_scope :: scope
  d_operation :: operation
  d_selected :: "string list"
  d_runs :: "run list"
  d_resources :: "local_resource list"
  d_coordinator :: coordinator
  d_control :: bool
  d_ready :: bool
  d_blockers :: "blocker list"
  d_id :: string

definition coordinator_json :: "coordinator \<Rightarrow> json" where
  "coordinator_json c = JObj
     [(''binding_digest'', JStr (co_binding c)), (''kind'', JStr (agent_name (co_agent c) @ ''-instance-registry'')),
      (''records_digest'', JStr (co_records c)), (''registry_physical'', physical_json (co_physical c))]"

definition local_json :: "local_resource \<Rightarrow> json" where
  "local_json q = JObj
     [(''coverage'', coverage_json (q_complete q)), (''key'', key_json (q_key q)),
      (''reference_runs'', jtexts (q_runs q)), (''resource_id'', JStr (q_id q))]"

definition control_json :: "bool \<Rightarrow> json" where
  "control_json c = JStr (if c then ''supported'' else ''unavailable'')"

definition dsh_head :: "dsh_plan \<Rightarrow> (string \<times> json) list" where
  "dsh_head p = [(''blockers'', JArr (map (\<lambda>b. JStr (blocker_name b)) (d_blockers p))),
     (''control_capability'', control_json (d_control p)), (''coordinator'', coordinator_json (d_coordinator p)),
     (''kind'', JStr ''stop-plan''), (''operation'', JStr (operation_name (d_operation p)))]"

definition dsh_tail :: "dsh_plan \<Rightarrow> (string \<times> json) list" where
  "dsh_tail p = [(''protocol'', JStr ''rotom-maintenance-v2''), (''readiness'', readiness_json (d_ready p)),
     (''resources'', JArr (map local_json (d_resources p))), (''runs'', JArr (map run_json (d_runs p))),
     (''schema_version'', JInt 2), (''scope'', scope_json (d_scope p)), (''selected_runs'', jtexts (d_selected p))]"

definition dsh_body_json :: "dsh_plan \<Rightarrow> json" where
  "dsh_body_json p = JObj (dsh_head p @ dsh_tail p)"

definition dsh_plan_json :: "dsh_plan \<Rightarrow> json" where
  "dsh_plan_json p = JObj (dsh_head p @ (''plan_id'', JStr (d_id p)) # dsh_tail p)"

section \<open>Checks\<close>

text \<open>\<open>_scope\<close>: all four members are there.\<close>

definition instance_scope_ok :: "scope \<Rightarrow> bool" where
  "instance_scope_ok s \<longleftrightarrow> scope_schema s \<and> scope_ok s \<and> sc_agent s \<noteq> None \<and> sc_profile s \<noteq> None"

definition run_scope_ok :: "scope \<Rightarrow> 'a snapshot_scheme \<Rightarrow> bool" where
  "run_scope_ok sc u \<longleftrightarrow> instance_scope_ok (u_scope u) \<and> u_scope u = sc \<and> re_mode (u_restore u) = Manual"

definition binding_digest :: "(string \<Rightarrow> string) \<Rightarrow> scope \<Rightarrow> string" where
  "binding_digest sha s = sha (json_bytes (JObj
     [(''local'', JStr (sc_local s)), (''machine'', JStr (sc_machine s)),
      (''profile'', JStr (case sc_profile s of Some p \<Rightarrow> p | None \<Rightarrow> ''''))]))"

definition coordinator_ok :: "(string \<Rightarrow> string) \<Rightarrow> scope \<Rightarrow> coordinator \<Rightarrow> bool" where
  "coordinator_ok sha s c \<longleftrightarrow>
     is_hex 64 (co_binding c) \<and> is_hex 64 (co_records c) \<and> physical_ok (co_physical c) \<and>
     sc_agent s = Some (co_agent c) \<and> co_binding c = binding_digest sha s"

text \<open>Manager and host may be unknown, but not the same process.\<close>

definition observed :: "observation \<Rightarrow> bool" where
  "observed b \<longleftrightarrow> ob_active b \<and> ob_manager b \<noteq> None \<and> ob_host b \<noteq> None"

definition two_processes :: "observation \<Rightarrow> bool" where
  "two_processes b \<longleftrightarrow> (case (ob_manager b, ob_host b) of (Some m, Some h) \<Rightarrow> pid m \<noteq> pid h | _ \<Rightarrow> True)"

definition dsh_run_ok :: "(string \<Rightarrow> string) \<Rightarrow> scope \<Rightarrow> local_resource list \<Rightarrow> run \<Rightarrow> bool" where
  "dsh_run_ok sha sc qs u \<longleftrightarrow>
     snapshot_ok u \<and> is_hex 64 (u_digest u) \<and> run_scope_ok sc u \<and>
     u_digest u = plan_digest sha (observation_json (u_observation u)) \<and>
     two_processes (u_observation u) \<and> closure_ok qs u"

definition dsh_run_blockers :: "'a snapshot_scheme \<Rightarrow> blocker list" where
  "dsh_run_blockers u = (if observed (u_observation u) then [] else [Observation_Unknown])"

text \<open>Coverage matters only where the resources are going to be written.\<close>

definition dsh_resource_blockers :: "operation \<Rightarrow> string list \<Rightarrow> 'a local_resource_scheme \<Rightarrow> blocker list" where
  "dsh_resource_blockers op selected q =
     (if op = Setup_Operation \<and> \<not> q_complete q then [Coverage_Unknown] else []) @
     (if op = Setup_Operation \<and> \<not> set (q_runs q) \<subseteq> set selected then [Unselected_Reference] else [])"

definition dsh_blockers ::
  "bool \<Rightarrow> operation \<Rightarrow> string list \<Rightarrow> run list \<Rightarrow> local_resource list \<Rightarrow> blocker list" where
  "dsh_blockers control op selected us qs =
     sort (remdups ((if control then [] else [Stop_Unavailable]) @
       concat (map dsh_run_blockers us) @ concat (map (dsh_resource_blockers op selected) qs)))"

definition dsh_schema :: "dsh_plan \<Rightarrow> bool" where
  "dsh_schema p \<longleftrightarrow>
     is_hex 64 (d_id p) \<and> list_all (is_hex 32) (d_selected p) \<and> distinct (d_selected p) \<and>
     1 \<le> length (d_selected p) \<and> length (d_selected p) \<le> 1024 \<and>
     1 \<le> length (d_runs p) \<and> length (d_runs p) \<le> 1024 \<and>
     1 \<le> length (d_resources p) \<and> length (d_resources p) \<le> 4096 \<and> distinct (d_blockers p)"

definition dsh_ok :: "(string \<Rightarrow> string) \<Rightarrow> dsh_plan \<Rightarrow> bool" where
  "dsh_ok sha p \<longleftrightarrow>
     dsh_schema p \<and> instance_scope_ok (d_scope p) \<and> coordinator_ok sha (d_scope p) (d_coordinator p) \<and>
     distinct (run_ids (d_runs p)) \<and> catalog_ok (d_resources p) \<and> list_all (reference_ok sha) (d_resources p) \<and>
     set (run_ids (d_runs p)) = set (d_selected p) \<and>
     list_all (dsh_run_ok sha (d_scope p) (d_resources p)) (d_runs p) \<and>
     set (required_resources (d_runs p)) = set (resource_ids (d_resources p)) \<and>
     list_all (references_ok (d_runs p) (d_selected p)) (d_resources p)"

definition dsh_sorted :: "dsh_plan \<Rightarrow> dsh_plan" where
  "dsh_sorted p =
     (let bs = dsh_blockers (d_control p) (d_operation p) (d_selected p) (d_runs p) (d_resources p) in
      p\<lparr>d_selected := sort (d_selected p), d_runs := sort_key u_id (map sort_run (d_runs p)),
        d_resources := sort_key q_id (map sort_resource (d_resources p)),
        d_blockers := bs, d_ready := (bs = [])\<rparr>)"

definition dsh_normalize :: "(string \<Rightarrow> string) \<Rightarrow> bool \<Rightarrow> dsh_plan \<Rightarrow> invalid + dsh_plan" where
  "dsh_normalize sha verify p =
     (let q = dsh_sorted p; d = plan_digest sha (dsh_body_json q) in
      if shape_ok (dsh_plan_json p) \<and> dump_ok (dsh_plan_json p) \<and> dsh_ok sha p \<and> dump_ok (dsh_body_json q) \<and>
         (verify \<longrightarrow> d_blockers p = d_blockers q \<and> d_ready p = d_ready q \<and> d_id p = d)
      then Inr (q\<lparr>d_id := d\<rparr>) else Inl Invalid)"

section \<open>Building one\<close>

definition dsh_supplied_json ::
  "scope \<Rightarrow> operation \<Rightarrow> string list \<Rightarrow> snapshot list \<Rightarrow> local_resource list \<Rightarrow> coordinator \<Rightarrow> bool \<Rightarrow> json" where
  "dsh_supplied_json sc op selected us qs c control = JObj
     [(''control_capability'', control_json control), (''coordinator'', coordinator_json c),
      (''operation'', JStr (operation_name op)), (''resources'', JArr (map local_json qs)),
      (''runs'', JArr (map (\<lambda>u. JObj
         [(''deployment_digest'', JStr (u_deployment u)), (''observation'', observation_json (u_observation u)),
          (''resource_ids'', jtexts (u_resources u)), (''restore'', restore_json (u_restore u)),
          (''run_id'', JStr (u_id u)), (''scope'', scope_json (u_scope u))]) us)),
      (''scope'', scope_json sc), (''selected_runs'', jtexts selected)]"

definition build_dsh_plan ::
  "(string \<Rightarrow> string) \<Rightarrow> scope \<Rightarrow> operation \<Rightarrow> string list \<Rightarrow> snapshot list \<Rightarrow> local_resource list \<Rightarrow> coordinator \<Rightarrow>
   bool \<Rightarrow> invalid + dsh_plan" where
  "build_dsh_plan sha sc op selected us qs c control =
     (let s = dsh_supplied_json sc op selected us qs c control; chosen = choose_runs sha us selected in
      if shape_ok s \<and> dump_ok s \<and> instance_scope_ok sc \<and> selected \<noteq> [] \<and> length selected \<le> 1024 \<and> distinct selected \<and>
         length us \<le> 1024 \<and> length qs \<le> 4096 \<and> list_all (\<lambda>u. snapshot_ok u \<and> run_scope_ok sc u) us \<and>
         list_all (reference_ok sha) qs \<and> distinct (run_ids us) \<and> catalog_ok qs \<and>
         set selected \<subseteq> set (run_ids us) \<and> list_all (linked qs) us
      then dsh_normalize sha False
        \<lparr>d_scope = sc, d_operation = op, d_selected = selected, d_runs = chosen,
         d_resources = choose_resources qs (required_resources chosen), d_coordinator = c, d_control = control,
         d_ready = True, d_blockers = [], d_id = replicate 64 CHR ''0''\<rparr>
      else Inl Invalid)"

section \<open>What a normal plan is\<close>

lemma dsh_sorted_simps [simp]:
  "d_scope (dsh_sorted p) = d_scope p" "d_operation (dsh_sorted p) = d_operation p" "d_control (dsh_sorted p) = d_control p"
  "d_coordinator (dsh_sorted p) = d_coordinator p" "d_selected (dsh_sorted p) = sort (d_selected p)"
  "d_runs (dsh_sorted p) = sort_key u_id (map sort_run (d_runs p))"
  "d_resources (dsh_sorted p) = sort_key q_id (map sort_resource (d_resources p))"
  "d_blockers (dsh_sorted p) = dsh_blockers (d_control p) (d_operation p) (d_selected p) (d_runs p) (d_resources p)"
  "d_ready (dsh_sorted p) \<longleftrightarrow> d_blockers (dsh_sorted p) = []"
  by (simp_all add: dsh_sorted_def Let_def)

lemma dsh_normalize_Inr:
  assumes "dsh_normalize sha v p = Inr q"
  shows "q = (dsh_sorted p)\<lparr>d_id := plan_digest sha (dsh_body_json (dsh_sorted p))\<rparr>" "dsh_ok sha p"
  using assms by (auto simp: dsh_normalize_def Let_def split: if_splits)

text \<open>A plan of an instance registry is ready exactly when its control capability is supported,
  every run is active with manager and host both known and, for a setup only, every resource is
  completely covered and referenced by selected runs alone; and, ready or not, each of its runs
  belongs to exactly the plan's instance and is restored by hand.\<close>

theorem dsh_ready_means_unblocked:
  assumes "dsh_normalize sha v p = Inr q"
  shows "(d_ready q \<longleftrightarrow>
      d_control q \<and> (\<forall>u\<in>set (d_runs q). observed (u_observation u)) \<and>
      (d_operation q = Setup_Operation \<longrightarrow>
        (\<forall>x\<in>set (d_resources q). q_complete x \<and> set (q_runs x) \<subseteq> set (d_selected q)))) \<and>
    (\<forall>u\<in>set (d_runs q). u_scope u = d_scope q \<and> re_mode (u_restore u) = Manual)"
proof -
  note q = dsh_normalize_Inr [OF assms]
  have "d_ready q \<longleftrightarrow> set (dsh_blockers (d_control p) (d_operation p) (d_selected p) (d_runs p) (d_resources p)) = {}"
    unfolding q(1) by simp
  also have "\<dots> \<longleftrightarrow> d_control p \<and> (\<forall>u\<in>set (d_runs p). dsh_run_blockers u = []) \<and>
      (\<forall>x\<in>set (d_resources p). dsh_resource_blockers (d_operation p) (d_selected p) x = [])"
    by (auto simp: dsh_blockers_def)
  finally have "d_ready q \<longleftrightarrow> \<dots>" .
  moreover have "\<forall>u\<in>set (d_runs p). u_scope u = d_scope p \<and> re_mode (u_restore u) = Manual"
    using q(2) by (auto simp: dsh_ok_def list_all_iff dsh_run_ok_def run_scope_ok_def)
  ultimately show ?thesis
    unfolding q(1) by (auto simp: dsh_run_blockers_def dsh_resource_blockers_def split: if_splits)
qed

section \<open>A small plan\<close>

definition sample_coordinator :: coordinator where
  "sample_coordinator = \<lparr>co_agent = Omp_Agent, co_binding = replicate 64 CHR ''a'',
     co_physical = \<lparr>ph_device = 1, ph_inode = 9\<rparr>, co_records = replicate 64 CHR ''a''\<rparr>"

definition sample_dsh :: dsh_plan where
  "sample_dsh = \<lparr>d_scope = sample_scope, d_operation = Setup_Operation, d_selected = [sample_id CHR ''a''],
     d_runs = map (observed_run sample_sha) [sample_snapshot CHR ''a'' (map sample_id ''123'')],
     d_resources = map local_resource.truncate [sample_resource CHR ''1'' Instance 11 ''a'',
       sample_resource CHR ''2'' Runtime 12 ''a'', sample_resource CHR ''3'' Native_Home 13 ''ac''],
     d_coordinator = sample_coordinator, d_control = True, d_ready = True, d_blockers = [],
     d_id = replicate 64 CHR ''0''\<rparr>"

lemma sample_dsh_normal: "\<exists>q. dsh_normalize sample_sha False sample_dsh = Inr q"
proof -
  have "dump_ok (dsh_plan_json sample_dsh)" "dump_ok (dsh_body_json (dsh_sorted sample_dsh))"
    by (rule small_dump_ok, code_simp)+
  moreover have "shape_ok (dsh_plan_json sample_dsh)" by code_simp
  moreover have "dsh_ok sample_sha sample_dsh" by code_simp
  ultimately show ?thesis by (simp add: dsh_normalize_def Let_def)
qed

theorem dsh_ready_means_unblocked_witness:
  "\<exists>q. dsh_normalize sample_sha False sample_dsh = Inr q \<and> \<not> d_ready q"
proof -
  obtain q where q: "dsh_normalize sample_sha False sample_dsh = Inr q" using sample_dsh_normal by blast
  have "\<not> (\<forall>x\<in>set (d_resources (dsh_sorted sample_dsh)). set (q_runs x) \<subseteq> set (d_selected (dsh_sorted sample_dsh)))"
    by code_simp
  moreover have "d_operation (dsh_sorted sample_dsh) = Setup_Operation" by code_simp
  moreover have "d_resources q = d_resources (dsh_sorted sample_dsh)" "d_selected q = d_selected (dsh_sorted sample_dsh)"
    "d_operation q = d_operation (dsh_sorted sample_dsh)"
    unfolding dsh_normalize_Inr(1) [OF q] by (simp_all del: dsh_sorted_simps)
  ultimately have "\<not> d_ready q"
    using dsh_ready_means_unblocked [OF q] by metis
  with q show ?thesis by blast
qed

end
