(* ===== verification/Deadlines.thy ===== *)
theory Deadlines
  imports Rotom_Prelude
begin

text \<open>
  Deadlines and short locks: \<open>ControlDeadline\<close> (\<open>agentcfg/control_deadline.py\<close>), the domain lock
  (\<open>_domain_lock\<close> in \<open>agentcfg/resource_coordination.py\<close>), the lock of the stop metadata
  (\<open>agentcfg/stop_locks.py\<close>) and the instance lock (\<open>agentcfg/storage.py\<close>).
  \<^item> The clock is the list of readings it will return, in its own integer unit; a reading the
    code rejects (no number, not finite) is \<open>Unreadable\<close>.
  \<^item> The kernel's answers to successive lock attempts are a list too. A waiting loop is a
    recursion over that list: \<open>Waiting\<close> means that the answers given did not decide it.
\<close>

section \<open>The shared budget of a control phase\<close>

datatype reading = Now int | Unreadable

datatype deadline_error = Invalid_Wait | Unconfirmed

record clockwork =
  script :: "reading list"
  last :: "int option"

type_synonym 'a timed = "(clockwork, deadline_error, 'a) io"

text \<open>\<open>_read\<close>: a clock that goes back, or returns no number, ends the phase.\<close>

definition read_clock :: "int timed" where
  "read_clock c =
     (case script c of
        Now t # rest \<Rightarrow>
          if (case last c of None \<Rightarrow> False | Some l \<Rightarrow> t < l) then (Inl Unconfirmed, c\<lparr>script := rest\<rparr>)
          else (Inr t, c\<lparr>script := rest, last := Some t\<rparr>)
      | _ # rest \<Rightarrow> (Inl Unconfirmed, c\<lparr>script := rest\<rparr>)
      | [] \<Rightarrow> (Inl Unconfirmed, c))"

record control =
  until :: int
  budget :: int

definition control_deadline :: "int \<Rightarrow> control timed" where
  "control_deadline wait =
     (if \<not> (1 \<le> wait \<and> wait \<le> 300) then raiseS Invalid_Wait
      else bindS read_clock (\<lambda>start. returnS \<lparr>until = start + wait, budget = wait\<rparr>))"

definition remaining :: "control \<Rightarrow> (int \<times> control) timed" where
  "remaining d =
     bindS read_clock (\<lambda>now.
       let left = min (budget d) (max 0 (until d - now)) in returnS (left, d\<lparr>budget := left\<rparr>))"

definition expired :: "control \<Rightarrow> (bool \<times> control) timed" where
  "expired d = bindS (remaining d) (\<lambda>(left, d'). returnS (left = 0, d'))"

definition deadline_ns :: "control \<Rightarrow> int" where
  "deadline_ns d = until d * 1000000000"

text \<open>A phase that asks \<open>n\<close> times, as the loops over its items do.\<close>

primrec ask :: "nat \<Rightarrow> control \<Rightarrow> (int list \<times> control) timed" where
  "ask 0 d = returnS ([], d)"
| "ask (Suc n) d =
     bindS (remaining d) (\<lambda>(left, d'). bindS (ask n d') (\<lambda>(rest, d''). returnS (left # rest, d'')))"

lemma remaining_Inr:
  assumes "remaining d c = (Inr (left, d'), c')"
  shows "left = budget d'" "budget d' \<le> budget d" "until d' = until d" "0 \<le> budget d \<Longrightarrow> 0 \<le> left"
    "\<exists>now. last c' = Some now \<and> left \<le> max 0 (until d - now)"
  using assms
  by (auto simp: remaining_def result_simps Let_def read_clock_def split: list.splits reading.splits if_splits)

lemma ask_budget: "ask n d c = (Inr (ls, d'), c') \<Longrightarrow> budget d' \<le> budget d \<and> (\<forall>l\<in>set ls. l \<le> budget d) \<and> sorted_wrt (\<ge>) ls"
proof (induction n arbitrary: d c ls)
  case (Suc n)
  from Suc.prems obtain l d1 c1 rest where r: "remaining d c = (Inr (l, d1), c1)"
    and a: "ask n d1 c1 = (Inr (rest, d'), c')" and ls: "ls = l # rest"
    by (auto simp: result_simps split: prod.splits)
  from Suc.IH [OF a] remaining_Inr(1,2) [OF r] ls show ?case by auto
qed (simp add: returnS_eq)

text \<open>The budget of a control phase only shrinks. However often it is asked, the amounts left form
  a non-increasing sequence, none above the wait the phase was started with, and once it has
  been found expired it is expired at every later question.\<close>

theorem budget_only_shrinks:
  assumes "control_deadline wait c = (Inr d, c1)" "ask n d c1 = (Inr (ls, d'), c2)"
  shows "sorted_wrt (\<ge>) ls \<and> (\<forall>l\<in>set ls. 0 \<le> l \<and> l \<le> wait) \<and>
    (\<forall>i j. i < j \<longrightarrow> j < length ls \<longrightarrow> ls ! i = 0 \<longrightarrow> ls ! j = 0)"
proof -
  from assms(1) have d: "budget d = wait" "1 \<le> wait"
    by (auto simp: control_deadline_def result_simps split: if_splits)
  have nn: "ask m e x = (Inr (ks, e'), y) \<Longrightarrow> 0 \<le> budget e \<Longrightarrow> \<forall>l\<in>set ks. 0 \<le> l" for m e x ks e' y
  proof (induction m arbitrary: e x ks)
    case (Suc m)
    from Suc.prems(1) obtain l d1 c1 rest where r: "remaining e x = (Inr (l, d1), c1)"
      and a: "ask m d1 c1 = (Inr (rest, e'), y)" and ks: "ks = l # rest"
      by (auto simp: result_simps split: prod.splits)
    from remaining_Inr(1,4) [OF r] Suc.prems(2) Suc.IH [OF a] ks show ?case by auto
  qed (simp add: returnS_eq)
  have s: "sorted_wrt (\<ge>) ls" and b: "\<forall>l\<in>set ls. l \<le> wait" and z: "\<forall>l\<in>set ls. 0 \<le> l"
    using ask_budget [OF assms(2)] nn [OF assms(2)] d by auto
  have "ls ! j = 0" if "i < j" "j < length ls" "ls ! i = 0" for i j
  proof -
    have "ls ! j \<le> ls ! i" using sorted_wrt_nth_less [OF s that(1,2)] .
    moreover have "0 \<le> ls ! j" using z that(2) nth_mem by blast
    ultimately show ?thesis using that(3) by simp
  qed
  with s b z show ?thesis by blast
qed

lemma budget_only_shrinks_witness:
  "sorted_wrt (\<ge>) [3, 1, 0, 0 :: int]"
proof -
  let ?c = "\<lparr>script = [Now 10, Now 12, Now 14, Now 20, Now 20], last = None\<rparr>"
  have a: "control_deadline 5 ?c = (Inr \<lparr>until = 15, budget = 5\<rparr>,
      \<lparr>script = [Now 12, Now 14, Now 20, Now 20], last = Some 10\<rparr>)"
    by code_simp
  have b: "ask 4 \<lparr>until = 15, budget = 5\<rparr> \<lparr>script = [Now 12, Now 14, Now 20, Now 20], last = Some 10\<rparr> =
      (Inr ([3, 1, 0, 0], \<lparr>until = 15, budget = 0\<rparr>), \<lparr>script = [], last = Some 20\<rparr>)"
    by code_simp
  from budget_only_shrinks [OF a b] show ?thesis by blast
qed

section \<open>Short locks\<close>

datatype attempt = Acquired | Contended | Broken

datatype lock_result = Held | Refused | Busy_Now | Waiting

definition max_ns :: int where "max_ns = 2 ^ 63 - 1"

text \<open>One reading of \<open>monotonic_ns\<close>: within range and not before the last one.\<close>

definition ns_ok :: "int option \<Rightarrow> int \<Rightarrow> bool" where
  "ns_ok l now \<longleftrightarrow> 0 \<le> now \<and> now \<le> max_ns \<and> (case l of None \<Rightarrow> True | Some t \<Rightarrow> t \<le> now)"

text \<open>
  The clock is asked at most twice around one attempt; \<open>ticks\<close> are those readings in order. The
  last argument is the last accepted reading.
\<close>

fun domain_wait :: "int \<Rightarrow> (int \<times> int \<times> attempt) list \<Rightarrow> int option \<Rightarrow> lock_result" where
  "domain_wait dl [] l = Waiting"
| "domain_wait dl ((t1, t2, a) # rest) l =
     (if \<not> ns_ok l t1 \<or> dl - t1 \<le> 0 then Refused
      else case a of
        Broken \<Rightarrow> Refused
      | Acquired \<Rightarrow> if \<not> ns_ok (Some t1) t2 \<or> dl - t2 \<le> 0 then Refused else Held
      | Contended \<Rightarrow> if \<not> ns_ok (Some t1) t2 \<or> dl - t2 \<le> 0 then Refused else domain_wait dl rest (Some t2))"

definition domain_lock :: "int option \<Rightarrow> (int \<times> int \<times> attempt) list \<Rightarrow> lock_result" where
  "domain_lock dl steps =
     (case dl of
        None \<Rightarrow> (case steps of [] \<Rightarrow> Waiting
                 | (t1, t2, a) # _ \<Rightarrow> (case a of Acquired \<Rightarrow> Held | Contended \<Rightarrow> Busy_Now | Broken \<Rightarrow> Refused))
      | Some d \<Rightarrow> if \<not> (0 < d \<and> d \<le> max_ns) then Refused else domain_wait d steps None)"

text \<open>
  \<open>stop_locks.locked\<close>: the first reading may be past the deadline once, if the caller allows it
  and the lock is free at the first attempt. A contended attempt reads the clock before and after
  its sleep; the reading after acquisition is the last of the step.
\<close>

definition span_ok :: "int \<Rightarrow> int option \<Rightarrow> int \<Rightarrow> bool" where
  "span_ok dl l now \<longleftrightarrow> ns_ok l now \<and> dl - now \<le> 300000000000"

fun stop_wait :: "int \<Rightarrow> bool \<Rightarrow> bool \<Rightarrow> (int \<times> int \<times> attempt) list \<Rightarrow> int \<Rightarrow> lock_result" where
  "stop_wait dl once contended [] l = Waiting"
| "stop_wait dl once contended ((t1, t2, a) # rest) l =
     (case a of
        Broken \<Rightarrow> Refused
      | Acquired \<Rightarrow>
          if \<not> span_ok dl (Some l) t1 \<or> (dl - t1 \<le> 0 \<and> (\<not> once \<or> contended)) then Refused else Held
      | Contended \<Rightarrow>
          if \<not> span_ok dl (Some l) t1 \<or> dl - t1 \<le> 0 then Refused
          else if \<not> span_ok dl (Some t1) t2 \<or> dl - t2 \<le> 0 then Refused
          else stop_wait dl once True rest t2)"

definition stop_lock :: "int \<Rightarrow> bool \<Rightarrow> int \<Rightarrow> (int \<times> int \<times> attempt) list \<Rightarrow> lock_result" where
  "stop_lock dl once first steps =
     (if \<not> (0 < dl \<and> dl \<le> max_ns) \<or> \<not> span_ok dl None first \<or> (dl - first \<le> 0 \<and> \<not> once) then Refused
      else stop_wait dl once False steps first)"

text \<open>\<open>instance_lock\<close>: a fixed timeout, no check after the acquisition.\<close>

fun instance_wait :: "int \<Rightarrow> (int \<times> attempt) list \<Rightarrow> lock_result" where
  "instance_wait dl [] = Waiting"
| "instance_wait dl ((t, a) # rest) =
     (case a of
        Acquired \<Rightarrow> Held
      | Broken \<Rightarrow> Refused
      | Contended \<Rightarrow> if dl \<le> t then Busy_Now else instance_wait dl rest)"

definition instance_lock :: "int \<Rightarrow> int \<Rightarrow> (int \<times> attempt) list \<Rightarrow> lock_result" where
  "instance_lock timeout start steps =
     (if \<not> (0 \<le> timeout \<and> timeout \<le> 5) then Refused else instance_wait (start + timeout) steps)"

section \<open>No lock after the deadline\<close>

fun sleeps :: "(int \<times> int \<times> attempt) list \<Rightarrow> bool" where
  "sleeps ((t1, t2, a) # (u1, u2, b) # rest) \<longleftrightarrow> t2 < u1 \<and> sleeps ((u1, u2, b) # rest)"
| "sleeps _ \<longleftrightarrow> True"

definition in_time :: "int \<Rightarrow> int \<times> int \<times> attempt \<Rightarrow> bool" where
  "in_time dl = (\<lambda>(t1, t2, a). a = Acquired \<and> t1 < dl \<and> t2 < dl)"

lemma domain_wait_held: "domain_wait dl steps l = Held \<Longrightarrow> \<exists>s\<in>set steps. in_time dl s"
  by (induction dl steps l rule: domain_wait.induct)
    (auto simp: in_time_def split: if_splits attempt.splits)

lemma domain_wait_waiting:
  "domain_wait dl steps l = Waiting \<Longrightarrow> sleeps steps \<Longrightarrow> steps \<noteq> [] \<Longrightarrow>
     fst (hd steps) + int (length steps) \<le> dl"
proof (induction dl steps l rule: domain_wait.induct)
  case (2 dl t1 t2 a rest l)
  from 2(2) have a: "a = Contended" "\<not> dl - t2 \<le> 0" "ns_ok (Some t1) t2" "domain_wait dl rest (Some t2) = Waiting"
    "ns_ok l t1" "\<not> dl - t1 \<le> 0"
    by (auto split: if_splits attempt.splits)
  then have le: "t1 \<le> t2" by (simp add: ns_ok_def)
  show ?case
  proof (cases rest)
    case Nil
    with a le show ?thesis by simp
  next
    case (Cons s ss)
    obtain u1 u2 b where s: "s = (u1, u2, b)" by (cases s)
    with 2(3) Cons have "t2 < u1" "sleeps rest" by auto
    with 2(1) a Cons s have "u1 + int (length rest) \<le> dl" by auto
    with \<open>t2 < u1\<close> le show ?thesis by simp
  qed
qed simp

lemma stop_wait_held:
  "stop_wait dl once c steps l = Held \<Longrightarrow>
     \<exists>n < length steps. (\<forall>i<n. snd (snd (steps ! i)) = Contended \<and> fst (snd (steps ! i)) < dl) \<and>
       snd (snd (steps ! n)) = Acquired \<and> (fst (steps ! n) < dl \<or> once \<and> n = 0 \<and> \<not> c)"
proof (induction dl once c steps l rule: stop_wait.induct)
  case (2 dl once c t1 t2 a rest l)
  show ?case
  proof (cases a)
    case Acquired
    with 2(2) show ?thesis by (intro exI [of _ 0]) (auto split: if_splits)
  next
    case Contended
    with 2 obtain n where "n < length rest" "\<forall>i<n. snd (snd (rest ! i)) = Contended \<and> fst (snd (rest ! i)) < dl"
      "snd (snd (rest ! n)) = Acquired" "fst (rest ! n) < dl" "t2 < dl"
      by (auto split: if_splits)
    with Contended show ?thesis
      by (intro exI [of _ "Suc n"]) (auto simp: nth_Cons split: nat.splits)
  qed (use 2 in simp)
qed simp



end
