(* ===== verification/Maintenance_Batch.thy ===== *)
theory Maintenance_Batch
  imports Stop_Plan
begin

text \<open>
  Maintenance batches (\<open>agentcfg/maintenance.py\<close>: \<open>_dispatch\<close>, \<open>_batch\<close>, \<open>_initial_batch\<close>): what is
  recorded of one approved stop plan while its runs stop, the setup runs and the stopped runs
  are restored. A batch is valid when its phase, its items, its dispatches and its result fit
  together; every save goes through this test.
\<close>

section \<open>Records\<close>

datatype stop_phase = Stop_Accepted | Stop_Requested | Stop_Confirmed | Stop_Failed | Stop_Unknown

datatype restore_phase =
  Not_Requested | Restore_Manual | Restore_Pending | Launch_Dispatched | Restored | Restore_Failed | Restore_Unknown

datatype dispatch_state = Not_Dispatched | Dispatch_Intent | Dispatched | Dispatch_Confirmed | Dispatch_Unknown

datatype result_status = Succeeded | Failed | Partial | Result_Unknown

datatype batch_phase =
    Accepted | Requested | Stopped | Setup_Intent | Setup_Running | Setup_Succeeded
  | Pending | Launched | All_Restored | Batch_Failed | Batch_Partial | Batch_Unknown

record dispatch =
  di_state :: dispatch_state
  di_id :: "string option"
  di_setup :: "string option"
  di_target :: "string option"

record launch_dispatch =
  la_state :: dispatch_state
  la_id :: "string option"
  la_run :: "string option"

record facts =
  stop_requested :: bool
  exit_confirmed :: bool
  resources_released :: bool
  session_sealed :: bool

record item =
  i_run :: string
  i_stop :: stop_phase
  i_restore :: restore_phase
  i_facts :: facts
  i_launch :: launch_dispatch

record operation_result =
  or_status :: result_status
  or_exit :: "int option"
  or_digest :: "string option"

record batch =
  b_id :: string
  b_revision :: nat
  b_plan :: plan
  b_operation :: operation
  b_accepted :: "string list"
  b_phase :: batch_phase
  b_items :: "item list"
  b_dispatch :: dispatch
  b_result :: "operation_result option"
  b_review :: bool

section \<open>Their JSON\<close>

fun stop_name :: "stop_phase \<Rightarrow> string" where
  "stop_name Stop_Accepted = ''accepted''"
| "stop_name Stop_Requested = ''stop_requested''"
| "stop_name Stop_Confirmed = ''stopped_confirmed''"
| "stop_name Stop_Failed = ''failed''"
| "stop_name Stop_Unknown = ''unknown''"

fun restore_name :: "restore_phase \<Rightarrow> string" where
  "restore_name Not_Requested = ''not_requested''"
| "restore_name Restore_Manual = ''manual''"
| "restore_name Restore_Pending = ''restore_pending''"
| "restore_name Launch_Dispatched = ''launch_dispatched''"
| "restore_name Restored = ''restored''"
| "restore_name Restore_Failed = ''failed''"
| "restore_name Restore_Unknown = ''unknown''"

fun dispatch_name :: "dispatch_state \<Rightarrow> string" where
  "dispatch_name Not_Dispatched = ''not_dispatched''"
| "dispatch_name Dispatch_Intent = ''dispatch_intent''"
| "dispatch_name Dispatched = ''dispatched''"
| "dispatch_name Dispatch_Confirmed = ''confirmed''"
| "dispatch_name Dispatch_Unknown = ''unknown''"

fun status_name :: "result_status \<Rightarrow> string" where
  "status_name Succeeded = ''succeeded''"
| "status_name Failed = ''failed''"
| "status_name Partial = ''partial''"
| "status_name Result_Unknown = ''unknown''"

fun batch_phase_name :: "batch_phase \<Rightarrow> string" where
  "batch_phase_name Accepted = ''accepted''"
| "batch_phase_name Requested = ''stop_requested''"
| "batch_phase_name Stopped = ''stopped_confirmed''"
| "batch_phase_name Setup_Intent = ''maintenance_dispatch_intent''"
| "batch_phase_name Setup_Running = ''maintenance_running''"
| "batch_phase_name Setup_Succeeded = ''maintenance_succeeded''"
| "batch_phase_name Pending = ''restore_pending''"
| "batch_phase_name Launched = ''launch_dispatched''"
| "batch_phase_name All_Restored = ''restored''"
| "batch_phase_name Batch_Failed = ''failed''"
| "batch_phase_name Batch_Partial = ''partial''"
| "batch_phase_name Batch_Unknown = ''unknown''"

definition optional :: "string \<Rightarrow> string option \<Rightarrow> (string \<times> json) list" where
  "optional k x = (case x of None \<Rightarrow> [] | Some s \<Rightarrow> [(k, JStr s)])"

definition dispatch_json :: "dispatch \<Rightarrow> json" where
  "dispatch_json d = JObj
     ([(''dispatch_id'', null_or JStr (di_id d))] @ optional ''setup_plan_digest'' (di_setup d) @
      [(''state'', JStr (dispatch_name (di_state d)))] @ optional ''target_deployment_digest'' (di_target d))"

definition launch_json :: "launch_dispatch \<Rightarrow> json" where
  "launch_json l = JObj
     [(''dispatch_id'', null_or JStr (la_id l)), (''new_run_id'', null_or JStr (la_run l)),
      (''state'', JStr (dispatch_name (la_state l)))]"

definition facts_json :: "facts \<Rightarrow> json" where
  "facts_json f = JObj
     [(''exit_confirmed'', JBool (exit_confirmed f)), (''resources_released'', JBool (resources_released f)),
      (''session_sealed'', JBool (session_sealed f)), (''stop_requested'', JBool (stop_requested f))]"

definition item_json :: "item \<Rightarrow> json" where
  "item_json i = JObj
     [(''facts'', facts_json (i_facts i)), (''launch_dispatch'', launch_json (i_launch i)),
      (''restore_phase'', JStr (restore_name (i_restore i))), (''run_id'', JStr (i_run i)),
      (''stop_phase'', JStr (stop_name (i_stop i)))]"

definition result_json :: "operation_result \<Rightarrow> json" where
  "result_json r = JObj
     [(''exit_code'', null_or JInt (or_exit r)), (''operation'', JStr ''setup''),
      (''result_digest'', null_or JStr (or_digest r)), (''status'', JStr (status_name (or_status r)))]"

definition batch_json :: "batch \<Rightarrow> json" where
  "batch_json b = JObj
     [(''accepted_runs'', jtexts (b_accepted b)), (''batch_id'', JStr (b_id b)),
      (''items'', JArr (map item_json (b_items b))), (''kind'', JStr ''maintenance-batch''),
      (''maintenance_dispatch'', dispatch_json (b_dispatch b)),
      (''operation'', JStr (operation_name (b_operation b))),
      (''operation_result'', null_or result_json (b_result b)), (''phase'', JStr (batch_phase_name (b_phase b))),
      (''plan'', plan_json (b_plan b)), (''protocol'', JStr ''rotom-maintenance-v1''),
      (''review_required'', JBool (b_review b)), (''revision'', jnat (b_revision b)), (''schema_version'', JInt 1)]"

section \<open>Validity\<close>

definition some_hex :: "nat \<Rightarrow> string option \<Rightarrow> bool" where
  "some_hex n x = (case x of None \<Rightarrow> True | Some s \<Rightarrow> is_hex n s)"

definition batch_schema :: "batch \<Rightarrow> bool" where
  "batch_schema b \<longleftrightarrow>
     is_hex 32 (b_id b) \<and> u64 (b_revision b) \<and> list_all (is_hex 32) (b_accepted b) \<and> distinct (b_accepted b) \<and>
     1 \<le> length (b_accepted b) \<and> length (b_accepted b) \<le> 1024 \<and> 1 \<le> length (b_items b) \<and> length (b_items b) \<le> 1024 \<and>
     list_all (\<lambda>i. is_hex 32 (i_run i) \<and> some_hex 32 (la_id (i_launch i)) \<and> some_hex 32 (la_run (i_launch i))) (b_items b) \<and>
     some_hex 32 (di_id (b_dispatch b)) \<and> some_hex 64 (di_setup (b_dispatch b)) \<and> some_hex 64 (di_target (b_dispatch b)) \<and>
     (case b_result b of None \<Rightarrow> True
      | Some r \<Rightarrow> some_hex 64 (or_digest r) \<and> (case or_exit r of None \<Rightarrow> True | Some c \<Rightarrow> - 255 \<le> c \<and> c \<le> 255))"

definition dispatch_ok :: "dispatch \<Rightarrow> bool" where
  "dispatch_ok d \<longleftrightarrow>
     (di_state d = Not_Dispatched \<longleftrightarrow> di_id d = None) \<and>
     (di_setup d \<noteq> None \<longrightarrow> di_state d \<noteq> Not_Dispatched) \<and>
     (di_target d \<noteq> None \<longrightarrow> di_state d \<in> {Dispatched, Dispatch_Confirmed, Dispatch_Unknown} \<and> di_setup d \<noteq> None)"

definition mode_of :: "plan \<Rightarrow> string \<Rightarrow> restore_mode option" where
  "mode_of p r = map_option (\<lambda>u. re_mode (u_restore u)) (map_of (map (\<lambda>u. (u_id u, u)) (p_runs p)) r)"

text \<open>The restore phase a launch state stands for.\<close>

fun launch_phase :: "dispatch_state \<Rightarrow> restore_phase" where
  "launch_phase Not_Dispatched = Not_Requested"
| "launch_phase Dispatch_Intent = Restore_Pending"
| "launch_phase Dispatched = Launch_Dispatched"
| "launch_phase Dispatch_Confirmed = Restored"
| "launch_phase Dispatch_Unknown = Restore_Unknown"

definition launched :: "item \<Rightarrow> bool" where
  "launched i \<longleftrightarrow> la_state (i_launch i) \<noteq> Not_Dispatched"

definition item_ok :: "plan \<Rightarrow> string list \<Rightarrow> item \<Rightarrow> bool" where
  "item_ok p accepted i \<longleftrightarrow>
     (let f = i_facts i; l = i_launch i in
      (la_state l = Not_Dispatched \<longleftrightarrow> la_id l = None) \<and>
      (i_stop i = Stop_Accepted \<longrightarrow> \<not> stop_requested f) \<and>
      (i_stop i = Stop_Requested \<longrightarrow> stop_requested f) \<and>
      (i_stop i = Stop_Confirmed \<longrightarrow> exit_confirmed f \<and> resources_released f) \<and>
      (if launched i then
         la_run l \<noteq> None \<and> the (la_run l) \<notin> set accepted \<and>
         i_stop i \<in> {Stop_Confirmed, Stop_Unknown} \<and> exit_confirmed f \<and> resources_released f \<and> session_sealed f \<and>
         mode_of p (i_run i) \<noteq> Some Manual \<and> i_restore i = launch_phase (la_state l)
       else la_run l = None \<and> i_restore i \<noteq> Launch_Dispatched \<and> i_restore i \<noteq> Restored) \<and>
      (i_restore i = Restore_Manual \<longrightarrow> mode_of p (i_run i) = Some Manual))"

text \<open>No launch reuses a successor or a dispatch identifier.\<close>

definition launches_ok :: "dispatch \<Rightarrow> item list \<Rightarrow> bool" where
  "launches_ok d items \<longleftrightarrow>
     distinct (map (\<lambda>i. la_run (i_launch i)) (filter launched items)) \<and>
     distinct (map (\<lambda>i. la_id (i_launch i)) (filter launched items)) \<and>
     di_id d \<notin> set (map (\<lambda>i. la_id (i_launch i)) (filter launched items))"

definition released_items :: "item list \<Rightarrow> bool" where
  "released_items items \<longleftrightarrow> list_all (\<lambda>i. exit_confirmed (i_facts i) \<and> resources_released (i_facts i)) items"

definition setup_phase :: "batch_phase \<Rightarrow> bool" where
  "setup_phase ph \<longleftrightarrow> ph \<in> {Setup_Intent, Setup_Running, Setup_Succeeded}"

definition open_phase :: "batch_phase \<Rightarrow> bool" where
  "open_phase ph \<longleftrightarrow> ph \<in> {Batch_Partial, Batch_Unknown}"

definition dispatch_result_ok :: "batch \<Rightarrow> bool" where
  "dispatch_result_ok b \<longleftrightarrow>
     (let d = di_state (b_dispatch b) in
      (if b_operation b = Stop_Only
       then d = Not_Dispatched \<and> b_result b = None \<and> \<not> setup_phase (b_phase b)
       else d \<noteq> Not_Dispatched \<longrightarrow> released_items (b_items b)) \<and>
      (d = Not_Dispatched \<longrightarrow> b_result b = None) \<and>
      (d = Dispatch_Intent \<longrightarrow> (b_phase b = Setup_Intent \<or> open_phase (b_phase b)) \<and> b_result b = None) \<and>
      (d = Dispatched \<longrightarrow> (b_phase b = Setup_Running \<or> open_phase (b_phase b)) \<and> b_result b = None) \<and>
      (d = Dispatch_Confirmed \<and> b_result b = None \<longrightarrow> b_phase b = Batch_Unknown \<and> b_review b) \<and>
      (case b_result b of None \<Rightarrow> True
       | Some r \<Rightarrow>
           d \<in> {Dispatch_Confirmed, Dispatch_Unknown} \<and>
           (or_status r \<noteq> Result_Unknown \<longrightarrow> or_exit r \<noteq> None \<and> or_digest r \<noteq> None) \<and>
           (or_status r = Succeeded \<longrightarrow> or_exit r = Some 0 \<and> d = Dispatch_Confirmed) \<and>
           (or_status r = Failed \<longrightarrow> or_exit r \<noteq> Some 0)))"

definition has_status :: "result_status \<Rightarrow> batch \<Rightarrow> bool" where
  "has_status s b \<longleftrightarrow> (case b_result b of None \<Rightarrow> False | Some r \<Rightarrow> or_status r = s)"

definition unknown_facts :: "batch \<Rightarrow> bool" where
  "unknown_facts b \<longleftrightarrow>
     di_state (b_dispatch b) = Dispatch_Unknown \<or>
     list_ex (\<lambda>i. i_stop i = Stop_Unknown \<or> i_restore i = Restore_Unknown \<or> la_state (i_launch i) = Dispatch_Unknown) (b_items b) \<or>
     di_state (b_dispatch b) = Dispatch_Confirmed \<and> b_result b = None \<or>
     has_status Result_Unknown b \<or> has_status Partial b"

definition failed_facts :: "batch \<Rightarrow> bool" where
  "failed_facts b \<longleftrightarrow> list_ex (\<lambda>i. i_stop i = Stop_Failed \<or> i_restore i = Restore_Failed) (b_items b) \<or> has_status Failed b"

definition all_stopped :: "batch \<Rightarrow> bool" where
  "all_stopped b \<longleftrightarrow> list_all (\<lambda>i. i_stop i = Stop_Confirmed) (b_items b)"

definition restoring :: "batch \<Rightarrow> bool" where
  "restoring b \<longleftrightarrow> list_ex (\<lambda>i. i_restore i \<in> {Restore_Pending, Launch_Dispatched, Restored} \<or> launched i) (b_items b)"

definition phase_ok :: "batch \<Rightarrow> bool" where
  "phase_ok b \<longleftrightarrow>
     (let ph = b_phase b; d = di_state (b_dispatch b) in
      (unknown_facts b \<longrightarrow> open_phase ph \<and> b_review b) \<and>
      (ph \<in> {Batch_Failed, Batch_Partial, Batch_Unknown} \<longrightarrow> b_review b) \<and>
      (failed_facts b \<longrightarrow> ph \<in> {Batch_Failed, Batch_Partial, Batch_Unknown}) \<and>
      (ph = Accepted \<longrightarrow> d = Not_Dispatched \<and> list_all (\<lambda>i. i_stop i = Stop_Accepted \<and> i_restore i = Not_Requested) (b_items b)) \<and>
      (ph = Requested \<longrightarrow> d = Not_Dispatched \<and> list_ex (\<lambda>i. i_stop i \<in> {Stop_Requested, Stop_Confirmed}) (b_items b)) \<and>
      (ph = Stopped \<longrightarrow> d = Not_Dispatched \<and> list_all (\<lambda>i. \<not> launched i) (b_items b)) \<and>
      (ph \<in> {Stopped, Pending, Launched, All_Restored} \<longrightarrow> all_stopped b) \<and>
      (ph = Setup_Intent \<longrightarrow> all_stopped b \<and> d = Dispatch_Intent) \<and>
      (ph = Setup_Running \<longrightarrow> all_stopped b \<and> d = Dispatched) \<and>
      (ph = Setup_Succeeded \<longrightarrow> all_stopped b \<and> d = Dispatch_Confirmed \<and> has_status Succeeded b) \<and>
      (b_operation b = Setup_Operation \<and> restoring b \<longrightarrow>
         d = Not_Dispatched \<and> b_result b = None \<or> d = Dispatch_Confirmed \<and> has_status Succeeded b) \<and>
      (ph = Pending \<longrightarrow> list_ex (\<lambda>i. i_restore i = Restore_Pending) (b_items b)) \<and>
      (ph = Launched \<longrightarrow> list_ex (\<lambda>i. la_state (i_launch i) = Dispatched) (b_items b)) \<and>
      (ph = All_Restored \<longrightarrow> list_all (\<lambda>i. i_restore i = Restored) (b_items b)))"

definition item_ids :: "item list \<Rightarrow> string list" where
  "item_ids items = map i_run items"

definition batch_ok :: "plan \<Rightarrow> batch \<Rightarrow> bool" where
  "batch_ok p b \<longleftrightarrow>
     batch_schema b \<and> distinct (item_ids (b_items b)) \<and> p_ready p \<and> b_operation b = p_operation p \<and>
     sort (b_accepted b) = p_selected p \<and> set (item_ids (b_items b)) = set (b_accepted b) \<and>
     dispatch_ok (b_dispatch b) \<and> list_all (item_ok p (b_accepted b)) (b_items b) \<and>
     launches_ok (b_dispatch b) (b_items b) \<and> dispatch_result_ok b \<and> phase_ok b"

definition batch_normalize :: "(string \<Rightarrow> string) \<Rightarrow> batch \<Rightarrow> invalid + batch" where
  "batch_normalize sha b =
     bindE (plan_normalize sha True (b_plan b)) (\<lambda>p.
       if shape_ok (batch_json b) \<and> batch_ok p b
       then Inr (b\<lparr>b_plan := p, b_accepted := sort (b_accepted b), b_items := sort_key i_run (b_items b)\<rparr>)
       else Inl Invalid)"

text \<open>Every save encodes and decodes again: the value is normalised twice, its text bounded.\<close>

definition batch_cycle :: "(string \<Rightarrow> string) \<Rightarrow> batch \<Rightarrow> invalid + batch" where
  "batch_cycle sha b =
     bindE (batch_normalize sha b) (\<lambda>c. if dump_ok (batch_json c) then batch_normalize sha c else Inl Invalid)"

definition initial_item :: "string \<Rightarrow> item" where
  "initial_item r = \<lparr>i_run = r, i_stop = Stop_Accepted, i_restore = Not_Requested,
     i_facts = \<lparr>stop_requested = False, exit_confirmed = False, resources_released = False, session_sealed = False\<rparr>,
     i_launch = \<lparr>la_state = Not_Dispatched, la_id = None, la_run = None\<rparr>\<rparr>"

definition initial_batch :: "string \<Rightarrow> plan \<Rightarrow> batch" where
  "initial_batch bid p = \<lparr>b_id = bid, b_revision = 0, b_plan = p, b_operation = p_operation p,
     b_accepted = p_selected p, b_phase = Accepted, b_items = map initial_item (p_selected p),
     b_dispatch = \<lparr>di_state = Not_Dispatched, di_id = None, di_setup = None, di_target = None\<rparr>,
     b_result = None, b_review = False\<rparr>"

section \<open>Parts of a bounded value\<close>

lemma fold_max_ge: "x \<in> set xs \<Longrightarrow> x \<le> fold max xs (n::nat)"
  by (metis List.finite_set Max_ge finite_insert insertI2 list.set(2) Max.set_eq_fold)

lemma shape_member:
  assumes "shape_ok (JObj kvs)" "(k, v) \<in> set kvs"
  shows "shape_ok v"
proof -
  have "nodes v \<le> sum_list (map (\<lambda>(k, v). nodes v) kvs)"
    by (rule member_le_sum_list) (use assms(2) in \<open>force simp: image_iff\<close>)+
  moreover have "depth v \<le> fold max (map (\<lambda>(k, v). depth v) kvs) 0"
    using assms(2) by (intro fold_max_ge) (force simp: image_iff)
  ultimately show ?thesis using assms by (force simp: shape_ok_def list_all_iff)
qed

lemma batch_shape_plan: "shape_ok (batch_json b) \<Longrightarrow> shape_ok (plan_json (b_plan b))"
  unfolding batch_json_def by (rule shape_member [where k = "''plan''"], assumption, simp)

section \<open>What a valid batch is\<close>

lemma batch_normalize_Inr:
  assumes "batch_normalize sha b = Inr c"
  obtains p where "plan_normalize sha True (b_plan b) = Inr p" "batch_ok p b"
    "c = b\<lparr>b_plan := p, b_accepted := sort (b_accepted b), b_items := sort_key i_run (b_items b)\<rparr>"
  using assms by (auto simp: batch_normalize_def result_simps split: if_splits)

lemma list_all_sort_key [simp]: "list_all P (sort_key f xs) = list_all P xs"
  and list_ex_sort_key [simp]: "list_ex P (sort_key f xs) = list_ex P xs"
  by (simp_all add: list_all_iff list_ex_iff)

lemma launches_sorted: "launches_ok d (sort_key f items) = launches_ok d items"
proof -
  have "mset (filter launched (sort_key f items)) = mset (filter launched items)" by simp
  then have "distinct (map h (filter launched (sort_key f items))) = distinct (map h (filter launched items))" for h :: "item \<Rightarrow> string option"
    by (metis map_mset_eq mset_eq_imp_distinct_iff)
  then show ?thesis by (simp add: launches_ok_def)
qed

lemma item_ok_sort [simp]: "item_ok p (sort xs) = item_ok p xs"
  by (simp add: item_ok_def fun_eq_iff)

lemma batch_ok_sorted:
  assumes "batch_ok p b"
  shows "batch_ok p (b\<lparr>b_plan := q, b_accepted := sort (b_accepted b), b_items := sort_key i_run (b_items b)\<rparr>)"
    (is "batch_ok p ?c")
proof -
  have "batch_schema ?c = batch_schema b" by (simp add: batch_schema_def)
  moreover have "distinct (item_ids (b_items ?c)) = distinct (item_ids (b_items b))"
    by (simp add: item_ids_def distinct_map_sort)
  moreover have "set (item_ids (b_items ?c)) = set (item_ids (b_items b))" by (simp add: item_ids_def)
  moreover have "sort (b_accepted ?c) = sort (b_accepted b)" by (simp add: sorted_sort_id)
  moreover have "dispatch_result_ok ?c = dispatch_result_ok b"
    by (simp add: dispatch_result_ok_def released_items_def)
  moreover have "phase_ok ?c = phase_ok b"
    by (simp add: phase_ok_def unknown_facts_def failed_facts_def all_stopped_def restoring_def has_status_def)
  moreover have "launches_ok (b_dispatch ?c) (b_items ?c) = launches_ok (b_dispatch b) (b_items b)"
    by (simp add: launches_sorted)
  moreover have "list_all (item_ok p (b_accepted ?c)) (b_items ?c) = list_all (item_ok p (b_accepted b)) (b_items b)" by simp
  moreover have "b_operation ?c = b_operation b" "b_dispatch ?c = b_dispatch b" "set (b_accepted ?c) = set (b_accepted b)" by simp_all
  ultimately show ?thesis using assms unfolding batch_ok_def by metis
qed

text \<open>A saved batch is stable: what one normalisation accepts is in normal form, so the second
  one that every save performs returns it unchanged.\<close>

theorem saved_batch_stable:
  assumes "batch_normalize sha b = Inr c" "shape_ok (batch_json c)" "\<And>x. is_hex 64 (sha x)"
  shows "batch_normalize sha c = Inr c"
proof -
  obtain p where p: "plan_normalize sha True (b_plan b) = Inr p" and ok: "batch_ok p b"
    and c: "c = b\<lparr>b_plan := p, b_accepted := sort (b_accepted b), b_items := sort_key i_run (b_items b)\<rparr>"
    using assms(1) by (rule batch_normalize_Inr)
  have "shape_ok (plan_json p)" using batch_shape_plan [OF assms(2)] c by simp
  with p have "plan_normalize sha True p = Inr p" using assms(3) by (rule normal_plan_fixed)
  moreover have "batch_ok p c" unfolding c using ok by (rule batch_ok_sorted)
  ultimately show ?thesis using assms(2) by (simp add: batch_normalize_def c sort_key_id_if_sorted)
qed

text \<open>C11: Setup is never dispatched over running work: as soon as a valid batch has any dispatch
  other than none, it is a setup and every accepted run has a recorded exit with its resources
  released; a successful result needs exit code 0 under a confirmed dispatch, and a batch in a
  setup phase has every run confirmed as stopped.\<close>

theorem setup_needs_release:
  assumes "batch_normalize sha b = Inr c"
  shows "(di_state (b_dispatch c) \<noteq> Not_Dispatched \<longrightarrow> b_operation c = Setup_Operation \<and>
      (\<forall>r\<in>set (b_accepted c). \<exists>i\<in>set (b_items c). i_run i = r \<and> exit_confirmed (i_facts i) \<and> resources_released (i_facts i))) \<and>
    (\<forall>r. b_result c = Some r \<and> or_status r = Succeeded \<longrightarrow> or_exit r = Some 0 \<and> di_state (b_dispatch c) = Dispatch_Confirmed) \<and>
    (setup_phase (b_phase c) \<longrightarrow> (\<forall>i\<in>set (b_items c). i_stop i = Stop_Confirmed))"
proof -
  obtain p where ok: "batch_ok p b"
    and c: "c = b\<lparr>b_plan := p, b_accepted := sort (b_accepted b), b_items := sort_key i_run (b_items b)\<rparr>"
    using assms by (rule batch_normalize_Inr)
  have "released_items (b_items b) \<and> b_operation b = Setup_Operation" if "di_state (b_dispatch b) \<noteq> Not_Dispatched"
    using ok that by (cases "b_operation b") (auto simp: batch_ok_def dispatch_result_ok_def Let_def)
  moreover have "\<exists>i\<in>set (b_items b). i_run i = r" if "r \<in> set (b_accepted b)" for r
  proof -
    have "r \<in> i_run ` set (b_items b)" using ok that by (simp add: batch_ok_def item_ids_def)
    then show ?thesis by blast
  qed
  moreover have "or_exit r = Some 0 \<and> di_state (b_dispatch b) = Dispatch_Confirmed"
    if "b_result b = Some r" "or_status r = Succeeded" for r
    using ok that by (auto simp: batch_ok_def dispatch_result_ok_def Let_def)
  moreover have "all_stopped b" if "setup_phase (b_phase b)"
    using ok that by (auto simp: batch_ok_def phase_ok_def setup_phase_def Let_def)
  ultimately show ?thesis
    unfolding c by (fastforce simp: released_items_def all_stopped_def list_all_iff)
qed

text \<open>C32: A run is restored at most once, and only after it has ended: in a valid batch every launch
  is of a run with confirmed exit, released resources and sealed session whose restore is not by
  hand; it has a successor and a dispatch identifier of its own, which no other launch has, the
  successor is none of the accepted runs, and a setup in between has succeeded or was not begun.\<close>

theorem restored_after_stop_once:
  assumes "batch_normalize sha b = Inr c" "i \<in> set (b_items c)" "launched i"
  shows "exit_confirmed (i_facts i) \<and> resources_released (i_facts i) \<and> session_sealed (i_facts i) \<and>
    mode_of (b_plan c) (i_run i) \<noteq> Some Manual \<and>
    (\<exists>r d. la_run (i_launch i) = Some r \<and> la_id (i_launch i) = Some d \<and> r \<notin> set (b_accepted c) \<and>
       di_id (b_dispatch c) \<noteq> Some d \<and>
       (\<forall>j\<in>set (b_items c). j \<noteq> i \<and> launched j \<longrightarrow> la_run (i_launch j) \<noteq> Some r \<and> la_id (i_launch j) \<noteq> Some d)) \<and>
    (di_state (b_dispatch c) = Not_Dispatched \<or> has_status Succeeded c)"
proof -
  obtain p where ok: "batch_ok p b"
    and c: "c = b\<lparr>b_plan := p, b_accepted := sort (b_accepted b), b_items := sort_key i_run (b_items b)\<rparr>"
    using assms(1) by (rule batch_normalize_Inr)
  have i: "i \<in> set (b_items b)" using assms(2) c by simp
  then have item: "item_ok p (b_accepted b) i" using ok by (simp add: batch_ok_def list_all_iff)
  then obtain r d where r: "la_run (i_launch i) = Some r" and d: "la_id (i_launch i) = Some d"
    using assms(3) by (auto simp: item_ok_def Let_def launched_def)
  have l: "launches_ok (b_dispatch b) (b_items b)" using ok by (simp add: batch_ok_def)
  have inj: "inj_on (\<lambda>i. la_run (i_launch i)) (set (filter launched (b_items b)))"
    "inj_on (\<lambda>i. la_id (i_launch i)) (set (filter launched (b_items b)))"
    using l by (simp_all only: launches_ok_def distinct_map)
  have unique: "la_run (i_launch j) \<noteq> Some r \<and> la_id (i_launch j) \<noteq> Some d"
    if "j \<in> set (b_items b)" "j \<noteq> i" "launched j" for j
    using inj_onD [OF inj(1), of j i] inj_onD [OF inj(2), of j i] that i assms(3) r d by auto
  have fresh: "di_id (b_dispatch b) \<noteq> Some d"
    using l i assms(3) d unfolding launches_ok_def by (force simp: image_iff)
  have "di_state (b_dispatch b) = Not_Dispatched \<or> has_status Succeeded b"
  proof (cases "b_operation b")
    case Stop_Only
    then show ?thesis using ok by (simp add: batch_ok_def dispatch_result_ok_def Let_def)
  next
    case Setup_Operation
    have "restoring b" using i assms(3) by (auto simp: restoring_def list_ex_iff)
    with Setup_Operation show ?thesis using ok by (auto simp: batch_ok_def phase_ok_def Let_def)
  qed
  then show ?thesis
    using item assms(3) r d unique fresh unfolding c by (auto simp: item_ok_def Let_def has_status_def)
qed

text \<open>Accepting a ready plan starts a valid batch: the initial record, with every run accepted,
  nothing requested, dispatched or restored, passes the test and is in normal form already.\<close>

theorem initial_batch_valid:
  assumes "plan_normalize sha True p = Inr p" "p_ready p" "is_hex 32 bid" "shape_ok (batch_json (initial_batch bid p))"
  shows "batch_normalize sha (initial_batch bid p) = Inr (initial_batch bid p)"
proof -
  have s: "sorted_plan p = p\<lparr>p_id := p_id (sorted_plan p)\<rparr>"
    using plan_normalize_Inr(1) [OF assms(1)] by (metis plan.surjective plan.update_convs(8) sorted_plan_simps(4))
  have sel: "sorted (p_selected p)"
    by (metis plan_normalize_Inr(1) [OF assms(1)] plan.select_convs(3) plan.surjective plan.update_convs(8)
        sorted_plan_simps(3) sorted_sort)
  have ps: "plan_schema p" using plan_normalize_Inr(2) [OF assms(1)] by (simp add: plan_ok_def)
  let ?b = "initial_batch bid p"
  have "batch_schema ?b"
    using ps assms(3) by (simp add: batch_schema_def initial_batch_def initial_item_def some_hex_def plan_schema_def
        u64_def list_all_iff)
  moreover have "phase_ok ?b"
    by (simp add: phase_ok_def unknown_facts_def failed_facts_def has_status_def list_ex_iff list_all_iff
        initial_batch_def initial_item_def restoring_def launched_def)
  moreover have "dispatch_result_ok ?b"
    by (simp add: dispatch_result_ok_def initial_batch_def setup_phase_def)
  moreover have "list_all (item_ok p (p_selected p)) (map initial_item (p_selected p))"
    by (simp add: list_all_iff item_ok_def initial_item_def launched_def)
  moreover have "launches_ok (b_dispatch ?b) (b_items ?b)" "dispatch_ok (b_dispatch ?b)"
    by (simp_all add: launches_ok_def initial_batch_def initial_item_def launched_def dispatch_ok_def filter_empty_conv)
  moreover have ids: "item_ids (map initial_item (p_selected p)) = p_selected p"
    by (simp add: item_ids_def initial_item_def comp_def)
  ultimately have "batch_ok p ?b"
    using ps sel assms(2) by (simp add: batch_ok_def initial_batch_def plan_schema_def sorted_sort_id)
  moreover have "sort_key i_run (map initial_item (p_selected p)) = map initial_item (p_selected p)"
    using sel by (intro sort_key_id_if_sorted) (simp add: initial_item_def comp_def)
  ultimately show ?thesis
    using assms(1,4) sel by (simp add: batch_normalize_def initial_batch_def sorted_sort_id)
qed

section \<open>Small batches\<close>

definition sample_moved :: plan where
  "sample_moved = \<lparr>p_scope = sample_scope, p_operation = Setup_Operation, p_selected = [sample_id CHR ''a''],
     p_runs = [observed_run sample_sha ((sample_snapshot CHR ''a'' (map sample_id ''123''))
       \<lparr>u_restore := \<lparr>re_mode = New_Location, re_capability = Supported, re_session = Sealed, re_target = Some (replicate 64 CHR ''a'')\<rparr>\<rparr>)],
     p_resources = [sample_resource CHR ''1'' Instance 11 ''a'', sample_resource CHR ''2'' Runtime 12 ''a'',
       sample_resource CHR ''3'' Native_Home 13 ''a''],
     p_ready = True, p_blockers = [], p_id = replicate 64 CHR ''a''\<rparr>"

lemma sample_moved_normal: "plan_normalize sample_sha True sample_moved = Inr sample_moved"
proof -
  have s: "(sorted_plan sample_moved)\<lparr>p_id := replicate 64 CHR ''a''\<rparr> = sample_moved" by code_simp
  have "p_blockers (sorted_plan sample_moved) = p_blockers sample_moved" "p_ready (sorted_plan sample_moved) = p_ready sample_moved"
    by (subst (2) s [symmetric], simp)+
  moreover have "plan_body_json (sorted_plan sample_moved) = plan_body_json sample_moved" using s by (metis plan_body_id)
  moreover have "dump_ok (plan_body_json sample_moved)" by (rule small_dump_ok) code_simp
  moreover have "shape_ok (plan_json sample_moved)" by code_simp
  moreover have "plan_ok sample_sha sample_moved" by code_simp
  moreover have "p_id sample_moved = replicate 64 CHR ''a''" by (simp add: sample_moved_def)
  ultimately show ?thesis using s by (simp add: plan_normalize_def Let_def)
qed

definition sample_restored :: batch where
  "sample_restored = (initial_batch (sample_id CHR ''e'') sample_moved)
     \<lparr>b_revision := 6, b_phase := All_Restored, 
      b_items := [\<lparr>i_run = sample_id CHR ''a'', i_stop = Stop_Confirmed, i_restore = Restored,
        i_facts = \<lparr>stop_requested = True, exit_confirmed = True, resources_released = True, session_sealed = True\<rparr>,
        i_launch = \<lparr>la_state = Dispatch_Confirmed, la_id = Some (sample_id CHR ''7''), la_run = Some (sample_id CHR ''9'')\<rparr>\<rparr>],
      b_dispatch := \<lparr>di_state = Dispatch_Confirmed, di_id = Some (sample_id CHR ''8''),
        di_setup = Some (replicate 64 CHR ''a''), di_target = Some (replicate 64 CHR ''b'')\<rparr>,
      b_result := Some \<lparr>or_status = Succeeded, or_exit = Some 0, or_digest = Some (replicate 64 CHR ''c'')\<rparr>\<rparr>"

lemma sample_restored_shape: "shape_ok (batch_json sample_restored)"
  by code_simp

lemma sample_restored_normal: "batch_normalize sample_sha sample_restored = Inr sample_restored"
proof -
  have "batch_ok sample_moved sample_restored" by code_simp
  moreover have "b_plan sample_restored = sample_moved" by (simp add: sample_restored_def initial_batch_def)
  moreover have "sort (b_accepted sample_restored) = b_accepted sample_restored"
    "sort_key i_run (b_items sample_restored) = b_items sample_restored" by code_simp+
  ultimately show ?thesis
    using sample_restored_shape sample_moved_normal by (simp add: batch_normalize_def)
qed

theorem saved_batch_stable_witness: "batch_normalize sample_sha sample_restored = Inr sample_restored"
  by (rule saved_batch_stable [OF sample_restored_normal sample_restored_shape sample_sha_hex])

theorem setup_needs_release_witness:
  "di_state (b_dispatch sample_restored) = Dispatch_Confirmed \<and> b_operation sample_restored = Setup_Operation"
proof -
  have d: "di_state (b_dispatch sample_restored) = Dispatch_Confirmed" by (simp add: sample_restored_def)
  then show ?thesis using setup_needs_release [OF sample_restored_normal] by simp
qed

theorem restored_after_stop_once_witness:
  "session_sealed (i_facts (hd (b_items sample_restored))) \<and>
   mode_of (b_plan sample_restored) (i_run (hd (b_items sample_restored))) \<noteq> Some Manual"
proof -
  have "hd (b_items sample_restored) \<in> set (b_items sample_restored)" "launched (hd (b_items sample_restored))"
    by (simp_all add: sample_restored_def launched_def)
  then show ?thesis using restored_after_stop_once [OF sample_restored_normal] by blast
qed

theorem initial_batch_valid_witness:
  "batch_normalize sample_sha (initial_batch (sample_id CHR ''e'') sample_moved) = Inr (initial_batch (sample_id CHR ''e'') sample_moved)"
proof (rule initial_batch_valid [OF sample_moved_normal])
  show "p_ready sample_moved" by (simp add: sample_moved_def)
  show "is_hex 32 (sample_id CHR ''e'')" by code_simp
  show "shape_ok (batch_json (initial_batch (sample_id CHR ''e'') sample_moved))" by code_simp
qed

end
