(* ===== verification/Owner_Records.thy ===== *)
theory Owner_Records
  imports Dsh_Plan Private_Store
begin

text \<open>
  Run ownership records (\<open>agentcfg/run_owners.py\<close>): one private record per started run in the
  registry of an instance, in the old format (version 1) and the current one (version 2), with the
  full test each read and each write applies. A record says who manages the run and in which of
  three states it is: active, unknown, or confirmed idle.
  \<open>sha\<close> stands for SHA-256, clock readings and process identities are arguments.
\<close>

section \<open>Records\<close>

datatype owner_state = Active | Unknown_Run | Idle
datatype native_kind = Dsh_Home | Pi_Home | Omp_Home
datatype observed_kind = Manager_Registered | Scope_Ended | Complete_Release
datatype observed_source = From_Registration | From_Scope_End | From_Kernel
datatype confirmation = Sure | Past | Unsure | Final

text \<open>A manager is a process; version 1 records may say more of it.\<close>

type_synonym manager = "process \<times> (string \<times> json) list"

record host =
  ho_identity :: process
  ho_manager :: process
  ho_source :: string

record cwd =
  cw_path :: string
  cw_source :: string
  cw_confirmation :: confirmation
  cw_time :: int

record seen_session =
  ss_agent :: agent
  ss_backend :: string
  ss_home :: string
  ss_native :: string
  ss_run :: string
  ss_epoch :: string
  ss_sequence :: int
  ss_confirmation :: confirmation
  ss_source :: string
  ss_time :: int

record process_observation =
  po_kind :: observed_kind
  po_complete :: bool
  po_source :: observed_source
  po_time :: int
  po_manager :: process
  po_host :: "host option"

record endpoint =
  ep_binding :: string
  ep_run :: string
  ep_manager :: process
  ep_host :: process
  ep_nonce :: string
  ep_physical :: physical

record coordination =
  cd_domain :: string
  cd_physical :: physical
  cd_op :: string
  cd_link :: string

record metadata =
  me_agent :: agent
  me_backend :: string
  me_profile :: string
  me_machine :: string
  me_local :: string
  me_start :: string
  me_start_time :: int
  me_home_kind :: native_kind
  me_home :: string
  me_deployment :: string
  me_runtime :: string
  me_coordination :: "coordination option"

record owner2 = metadata +
  o_binding :: string
  o_run :: string
  o_manager :: process
  o_host :: "host option"
  o_session_cwd :: "cwd option"
  o_state :: owner_state
  o_observation :: process_observation
  o_session :: "seen_session option"
  o_control :: "endpoint option"

record owner1 =
  o1_binding :: string
  o1_run :: string
  o1_manager :: manager
  o1_session :: "string option"
  o1_state :: owner_state
  o1_kind :: observed_kind
  o1_complete :: bool
  o1_time :: int

datatype owner = Old owner1 | Owner owner2

text \<open>\<open>Registry.binding\<close>.\<close>

record registry_binding =
  g_machine :: string
  g_local :: string
  g_profile :: string

section \<open>Their JSON\<close>

fun owner_state_name :: "owner_state \<Rightarrow> string" where
  "owner_state_name Active = ''active''"
| "owner_state_name Unknown_Run = ''unknown''"
| "owner_state_name Idle = ''idle_confirmed''"

fun native_name :: "native_kind \<Rightarrow> string" where
  "native_name Dsh_Home = ''dsh-home''"
| "native_name Pi_Home = ''pi-home''"
| "native_name Omp_Home = ''omp-managed-home''"

fun observed_name :: "observed_kind \<Rightarrow> string" where
  "observed_name Manager_Registered = ''manager_registered''"
| "observed_name Scope_Ended = ''manager_scope_ended''"
| "observed_name Complete_Release = ''complete_release''"

fun observed_source_name :: "observed_source \<Rightarrow> string" where
  "observed_source_name From_Registration = ''manager-registration''"
| "observed_source_name From_Scope_End = ''manager-scope-end''"
| "observed_source_name From_Kernel = ''kernel-release''"

fun confirmation_name :: "confirmation \<Rightarrow> string" where
  "confirmation_name Sure = ''confirmed''"
| "confirmation_name Past = ''historical''"
| "confirmation_name Unsure = ''unknown''"
| "confirmation_name Final = ''final''"

definition host_json :: "host \<Rightarrow> json" where
  "host_json h = JObj
     [(''identity'', process_json (ho_identity h)), (''manager_identity'', process_json (ho_manager h)),
      (''relationship'', JStr ''reported-by-current-run''), (''source'', JStr (ho_source h))]"

definition cwd_json :: "cwd \<Rightarrow> json" where
  "cwd_json c = JObj
     [(''confirmation'', JStr (confirmation_name (cw_confirmation c))), (''observed_at_ns'', JInt (cw_time c)),
      (''path'', JStr (cw_path c)), (''source'', JStr (cw_source c))]"

definition session_json :: "seen_session \<Rightarrow> json" where
  "session_json s = JObj
     [(''confirmation'', JStr (confirmation_name (ss_confirmation s))), (''emitter_epoch'', JStr (ss_epoch s)),
      (''observed_at_ns'', JInt (ss_time s)), (''run_id'', JStr (ss_run s)), (''sequence'', JInt (ss_sequence s)),
      (''session'', JObj [(''agent'', JStr (agent_name (ss_agent s))), (''backend'', JStr (ss_backend s)),
         (''native_home_ref'', JStr (ss_home s)), (''native_ref'', JStr (ss_native s))]),
      (''source'', JStr (ss_source s))]"

definition process_observation_json :: "process_observation \<Rightarrow> json" where
  "process_observation_json p = JObj
     [(''coverage'', coverage_json (po_complete p)), (''host_identity'', null_or host_json (po_host p)),
      (''kind'', JStr (observed_name (po_kind p))), (''manager_identity'', process_json (po_manager p)),
      (''observed_at_ns'', JInt (po_time p)), (''source'', JStr (observed_source_name (po_source p)))]"

definition endpoint_json :: "endpoint \<Rightarrow> json" where
  "endpoint_json e = JObj
     [(''binding_digest'', JStr (ep_binding e)), (''host_identity'', process_json (ep_host e)),
      (''kind'', JStr ''stop-inbox''), (''manager_identity'', process_json (ep_manager e)),
      (''nonce'', JStr (ep_nonce e)), (''physical'', physical_json (ep_physical e)),
      (''run_id'', JStr (ep_run e)), (''schema_version'', JInt 1)]"

definition control_record_json :: "endpoint \<Rightarrow> json" where
  "control_record_json e = JObj [(''endpoint'', endpoint_json e), (''kind'', JStr ''linux-pidfd-stop-v1'')]"

definition coordination_json :: "coordination \<Rightarrow> json" where
  "coordination_json c = JObj
     [(''domain_id'', JStr (cd_domain c)), (''domain_physical'', physical_json (cd_physical c)),
      (''link_digest'', JStr (cd_link c)), (''op_id'', JStr (cd_op c)), (''protocol'', JStr ''rotom-owner-link-v1'')]"

definition resources_json :: json where
  "resources_json = jtexts [''instance'', ''runtime'', ''native-home'']"

definition owner2_json :: "owner2 \<Rightarrow> json" where
  "owner2_json r = JObj
     [(''affected_resources'', resources_json), (''agent'', JStr (agent_name (me_agent r))),
      (''backend'', JStr (me_backend r)), (''binding_digest'', JStr (o_binding r)),
      (''coordination_domain'', null_or coordination_json (me_coordination r)),
      (''deployed_identity'', JObj [(''deployment'', JStr (me_deployment r)), (''runtime'', JStr (me_runtime r))]),
      (''host_identity'', null_or host_json (o_host r)), (''lifecycle_state'', JStr (owner_state_name (o_state r))),
      (''machine_ref'', JObj [(''local'', JStr (me_local r)), (''machine'', JStr (me_machine r))]),
      (''manager_identity'', process_json (o_manager r)),
      (''native_home_ref'', JObj [(''confirmation'', JStr ''confirmed''), (''kind'', JStr (native_name (me_home_kind r))),
         (''path'', JStr (me_home r)), (''source'', JStr ''deployed-contract'')]),
      (''process_observation'', process_observation_json (o_observation r)), (''profile'', JStr (me_profile r)),
      (''protocol'', JObj [(''control'', null_or control_record_json (o_control r)), (''registration'', JInt 2)]),
      (''run_id'', JStr (o_run r)), (''schema_version'', JInt 2), (''session_cwd'', null_or cwd_json (o_session_cwd r)),
      (''session_observation'', null_or session_json (o_session r)),
      (''start_cwd'', JObj [(''confirmation'', JStr ''confirmed''), (''observed_at_ns'', JInt (me_start_time r)),
         (''path'', JStr (me_start r)), (''source'', JStr ''launch-spec'')]),
      (''terminal_ref'', JNull)]"

definition manager_json :: "manager \<Rightarrow> json" where
  "manager_json m = JObj ([(''birth_id'', JStr (birth (fst m))), (''pid'', jnat (pid (fst m)))] @ snd m)"

definition owner1_json :: "owner1 \<Rightarrow> json" where
  "owner1_json r = JObj
     [(''affected_resources'', resources_json), (''binding_digest'', JStr (o1_binding r)),
      (''manager_identity'', manager_json (o1_manager r)),
      (''observation'', JObj [(''coverage'', coverage_json (o1_complete r)), (''kind'', JStr (observed_name (o1_kind r))),
         (''observed_at_ns'', JInt (o1_time r))]),
      (''run_id'', JStr (o1_run r)), (''schema_version'', JInt 1), (''session_ref'', null_or JStr (o1_session r)),
      (''state'', JStr (owner_state_name (o1_state r)))]"

fun owner_json :: "owner \<Rightarrow> json" where
  "owner_json (Old r) = owner1_json r"
| "owner_json (Owner r) = owner2_json r"

definition binding_json :: "registry_binding \<Rightarrow> json" where
  "binding_json g = JObj [(''local'', JStr (g_local g)), (''machine'', JStr (g_machine g)), (''profile'', JStr (g_profile g))]"

definition registry_digest :: "(string \<Rightarrow> string) \<Rightarrow> registry_binding \<Rightarrow> string" where
  "registry_digest sha g = digest sha (binding_json g)"

definition owner_digest :: "(string \<Rightarrow> string) \<Rightarrow> owner2 \<Rightarrow> string" where
  "owner_digest sha r = digest sha (owner2_json r)"

section \<open>Validity\<close>

text \<open>What a state says of its observation: the tables \<open>_OBSERVATIONS\<close> and \<open>_SOURCES\<close>.\<close>

fun state_kind :: "owner_state \<Rightarrow> observed_kind" where
  "state_kind Active = Manager_Registered"
| "state_kind Unknown_Run = Scope_Ended"
| "state_kind Idle = Complete_Release"

fun state_complete :: "owner_state \<Rightarrow> bool" where
  "state_complete Idle = True"
| "state_complete _ = False"

fun state_source :: "owner_state \<Rightarrow> observed_source" where
  "state_source Active = From_Registration"
| "state_source Unknown_Run = From_Scope_End"
| "state_source Idle = From_Kernel"

fun agent_home :: "agent \<Rightarrow> native_kind" where
  "agent_home Dsh_Agent = Dsh_Home"
| "agent_home Pi_Agent = Pi_Home"
| "agent_home Omp_Agent = Omp_Home"

text \<open>A schema pattern that ends in \<open>$\<close> also accepts a final newline.\<close>

definition to_end :: "(string \<Rightarrow> bool) \<Rightarrow> string \<Rightarrow> bool" where
  "to_end P s \<longleftrightarrow> P s \<or> (s \<noteq> [] \<and> last s = CHR 0x0A \<and> P (butlast s))"

definition token_text :: "string \<Rightarrow> bool" where
  "token_text s \<longleftrightarrow> 1 \<le> length s \<and> length s \<le> 128 \<and> alnum_char (hd s) \<and>
     list_all (\<lambda>c. alnum_char c \<or> c = CHR ''_'' \<or> c = CHR ''.'' \<or> c = CHR ''-'') (tl s)"

definition no_nul :: "string \<Rightarrow> bool" where
  "no_nul s \<longleftrightarrow> list_all (\<lambda>c. c \<noteq> CHR 0x00) s"

definition owner_path :: "string \<Rightarrow> bool" where
  "owner_path s \<longleftrightarrow>
     s \<noteq> [] \<and> no_nul s \<and> take 1 s = ''/'' \<and>
     (s = ''/'' \<or> list_all (\<lambda>p. p \<noteq> '''' \<and> p \<noteq> ''.'' \<and> p \<noteq> ''..'') (tl (split_on CHR ''/'' s)))"

definition bounded_path :: "string \<Rightarrow> bool" where
  "bounded_path s \<longleftrightarrow> length s \<le> 8192 \<and> owner_path s"

definition manager_ok :: "manager \<Rightarrow> bool" where
  "manager_ok m \<longleftrightarrow> 0 < pid (fst m) \<and> birth (fst m) \<noteq> [] \<and> no_nul (birth (fst m))"

definition record_process_ok :: "process \<Rightarrow> bool" where
  "record_process_ok p \<longleftrightarrow> 1 \<le> pid p \<and> 1 \<le> length (birth p) \<and> length (birth p) \<le> 512 \<and> no_nul (birth p)"

definition host_ok :: "host \<Rightarrow> bool" where
  "host_ok h \<longleftrightarrow> record_process_ok (ho_identity h) \<and> record_process_ok (ho_manager h) \<and> to_end token_text (ho_source h)"

definition cwd_ok :: "cwd \<Rightarrow> bool" where
  "cwd_ok c \<longleftrightarrow> bounded_path (cw_path c) \<and> to_end token_text (cw_source c) \<and> cw_confirmation c \<noteq> Final \<and> 1 \<le> cw_time c"

definition native_home_key :: "(string \<Rightarrow> string) \<Rightarrow> native_kind \<Rightarrow> string \<Rightarrow> string" where
  "native_home_key sha k path = digest sha (JObj [(''kind'', JStr (native_name k)), (''path'', JStr path)])"

definition session_schema :: "seen_session \<Rightarrow> bool" where
  "session_schema s \<longleftrightarrow>
     to_end token_text (ss_backend s) \<and> to_end token_text (ss_home s) \<and> 1 \<le> length (ss_native s) \<and>
     length (ss_native s) \<le> 1024 \<and> no_nul (ss_native s) \<and> to_end (is_hex 32) (ss_run s) \<and> to_end token_text (ss_epoch s) \<and>
     1 \<le> ss_sequence s \<and> to_end token_text (ss_source s) \<and> 1 \<le> ss_time s"

definition session_ok :: "(string \<Rightarrow> string) \<Rightarrow> owner2 \<Rightarrow> seen_session \<Rightarrow> bool" where
  "session_ok sha r s \<longleftrightarrow>
     session_schema s \<and> ss_run s = o_run r \<and> ss_agent s = me_agent r \<and> ss_backend s = me_backend r \<and>
     ss_home s = native_home_key sha (me_home_kind r) (me_home r) \<and> (ss_confirmation s = Final \<longrightarrow> o_state r = Idle)"

definition endpoint_ok :: "endpoint \<Rightarrow> bool" where
  "endpoint_ok e \<longleftrightarrow>
     is_hex 64 (ep_binding e) \<and> is_hex 32 (ep_run e) \<and> record_process_ok (ep_manager e) \<and>
     record_process_ok (ep_host e) \<and> is_hex 32 (ep_nonce e) \<and> 1 \<le> ph_inode (ep_physical e)"

text \<open>A control endpoint belongs to a managed, uncoordinated run with a host of its own.\<close>

definition control_ok :: "owner2 \<Rightarrow> endpoint \<Rightarrow> bool" where
  "control_ok r e \<longleftrightarrow>
     endpoint_ok e \<and> me_agent r \<in> {Dsh_Agent, Pi_Agent} \<and> me_backend r = ''managed'' \<and> me_coordination r = None \<and>
     (case o_host r of None \<Rightarrow> False
      | Some h \<Rightarrow> ho_source h = ''linux-spawn-pidfd'' \<and> ep_host e = ho_identity h \<and> ho_manager h = o_manager r) \<and>
     ep_binding e = o_binding r \<and> ep_run e = o_run r \<and> ep_manager e = o_manager r \<and>
     pid (ep_host e) \<noteq> pid (ep_manager e) \<and> length (json_bytes (endpoint_json e)) \<le> 16384"

definition coordination_ok :: "coordination \<Rightarrow> bool" where
  "coordination_ok c \<longleftrightarrow> is_hex 32 (cd_domain c) \<and> 1 \<le> ph_inode (cd_physical c) \<and> is_hex 32 (cd_op c) \<and> is_hex 64 (cd_link c)"

definition observation_fits :: "owner2 \<Rightarrow> bool" where
  "observation_fits r \<longleftrightarrow>
     (let p = o_observation r in
      po_kind p = state_kind (o_state r) \<and> po_complete p = state_complete (o_state r) \<and>
      po_source p = state_source (o_state r) \<and> po_manager p = o_manager r \<and> po_host p = o_host r \<and> 1 \<le> po_time p)"

definition owner2_ok :: "(string \<Rightarrow> string) \<Rightarrow> registry_binding \<Rightarrow> string \<Rightarrow> owner2 \<Rightarrow> bool" where
  "owner2_ok sha g name r \<longleftrightarrow>
     name = o_run r @ ''.json'' \<and> to_end (is_hex 32) (o_run r) \<and> to_end (is_hex 64) (o_binding r) \<and>
     o_binding r = registry_digest sha g \<and> me_profile r = g_profile g \<and> me_machine r = g_machine g \<and>
     me_local r = g_local g \<and> to_end token_text (me_profile r) \<and> to_end token_text (me_machine r) \<and>
     to_end token_text (me_backend r) \<and> bounded_path (me_local r) \<and> bounded_path (me_start r) \<and> bounded_path (me_home r) \<and>
     1 \<le> me_start_time r \<and> to_end (is_hex 64) (me_deployment r) \<and> to_end (is_hex 64) (me_runtime r) \<and>
     me_home_kind r = agent_home (me_agent r) \<and> (me_coordination r \<noteq> None \<longrightarrow> me_agent r = Omp_Agent) \<and>
     (case me_coordination r of None \<Rightarrow> True | Some c \<Rightarrow> coordination_ok c) \<and>
     record_process_ok (o_manager r) \<and> observation_fits r \<and>
     (case o_host r of None \<Rightarrow> True | Some h \<Rightarrow> host_ok h \<and> ho_manager h = o_manager r) \<and>
     (case o_control r of None \<Rightarrow> True | Some e \<Rightarrow> control_ok r e) \<and>
     (case o_session_cwd r of None \<Rightarrow> True | Some c \<Rightarrow> cwd_ok c) \<and>
     (case o_session r of None \<Rightarrow> True | Some s \<Rightarrow> session_ok sha r s)"

definition owner1_ok :: "(string \<Rightarrow> string) \<Rightarrow> registry_binding \<Rightarrow> string \<Rightarrow> owner1 \<Rightarrow> bool" where
  "owner1_ok sha g name r \<longleftrightarrow>
     o1_binding r = registry_digest sha g \<and> is_hex 32 (o1_run r) \<and> name = o1_run r @ ''.json'' \<and>
     (case o1_session r of None \<Rightarrow> True | Some s \<Rightarrow> s \<noteq> [] \<and> no_nul s) \<and>
     o1_kind r = state_kind (o1_state r) \<and> o1_complete r = state_complete (o1_state r) \<and> 0 < o1_time r \<and>
     manager_ok (o1_manager r)"

fun owner_ok :: "(string \<Rightarrow> string) \<Rightarrow> registry_binding \<Rightarrow> string \<Rightarrow> owner \<Rightarrow> bool" where
  "owner_ok sha g name (Old r) = owner1_ok sha g name r"
| "owner_ok sha g name (Owner r) = owner2_ok sha g name r"

end
