(* ===== verification/Owner_Registry.thy ===== *)
theory Owner_Registry
  imports Owner_Records
begin

text \<open>
  The registry of an instance (\<open>run_owners.Registry\<close>): the directory of ownership records, the
  sibling stop fence whose mere existence blocks new runs, and the operations on them. Each runs
  under the registry's exclusive lock, so between its check of all records and its one durable
  write nobody else acts; \<open>outcome\<close> says what becomes of that write. Clock readings, fresh
  identifiers, process identities and observations are arguments.
\<close>

section \<open>State\<close>

text \<open>A file of the registry: its record, when its text decodes to one, and its mode.\<close>

record owner_file =
  of_record :: "owner option"
  of_mode :: nat

record registry =
  rg_binding :: registry_binding
  rg_present :: bool
  rg_files :: "(string \<times> owner_file) list"
  rg_fenced :: bool

type_synonym 'a rio = "(registry, invalid, 'a) io"

fun record_state :: "owner \<Rightarrow> owner_state" where
  "record_state (Old r) = o1_state r"
| "record_state (Owner r) = o_state r"

fun record_run :: "owner \<Rightarrow> string" where
  "record_run (Old r) = o1_run r"
| "record_run (Owner r) = o_run r"

fun record_manager :: "owner \<Rightarrow> manager" where
  "record_manager (Old r) = o1_manager r"
| "record_manager (Owner r) = (o_manager r, [])"

text \<open>\<open>_set_state\<close> with \<open>_observation\<close>: the clock must be positive.\<close>

definition observe_state :: "owner2 \<Rightarrow> owner_state \<Rightarrow> int \<Rightarrow> process_observation" where
  "observe_state r s now = \<lparr>po_kind = state_kind s, po_complete = state_complete s, po_source = state_source s,
     po_time = now, po_manager = o_manager r, po_host = o_host r\<rparr>"

fun set_state :: "owner_state \<Rightarrow> int \<Rightarrow> owner \<Rightarrow> invalid + owner" where
  "set_state s now (Old r) =
     (if 0 < now then Inr (Old (r\<lparr>o1_state := s, o1_kind := state_kind s, o1_complete := state_complete s, o1_time := now\<rparr>))
      else Inl Invalid)"
| "set_state s now (Owner r) =
     (if 0 < now then Inr (Owner (r\<lparr>o_state := s, o_observation := observe_state r s now\<rparr>)) else Inl Invalid)"

section \<open>Reading\<close>

definition file_name_ok :: "string \<Rightarrow> bool" where
  "file_name_ok n \<longleftrightarrow> 5 \<le> length n \<and> drop (length n - 5) n = ''.json'' \<and> is_hex 32 (take (length n - 5) n)"

definition file_ok :: "(string \<Rightarrow> string) \<Rightarrow> registry_binding \<Rightarrow> string \<times> owner_file \<Rightarrow> bool" where
  "file_ok sha g e \<longleftrightarrow>
     file_name_ok (fst e) \<and> of_mode (snd e) = 384 \<and>
     (case of_record (snd e) of None \<Rightarrow> False | Some r \<Rightarrow> owner_ok sha g (fst e) r)"

definition stored_records :: "(string \<times> owner_file) list \<Rightarrow> (string \<times> owner) list" where
  "stored_records fs = map (\<lambda>(n, f). (take (length n - 5) n, the (of_record f))) fs"

definition registry_records :: "(string \<Rightarrow> string) \<Rightarrow> registry \<Rightarrow> invalid + (string \<times> owner) list" where
  "registry_records sha g =
     (if \<not> rg_present g then Inr []
      else if list_all (file_ok sha (rg_binding g)) (rg_files g) then Inr (stored_records (rg_files g)) else Inl Invalid)"

definition find_record :: "(string \<Rightarrow> string) \<Rightarrow> registry \<Rightarrow> string \<Rightarrow> invalid + owner" where
  "find_record sha g run = bindE (registry_records sha g) (\<lambda>rs. case map_of rs run of None \<Rightarrow> Inl Invalid | Some r \<Rightarrow> Inr r)"

section \<open>Writing\<close>

definition settle :: "outcome \<Rightarrow> (registry \<Rightarrow> registry) \<Rightarrow> unit rio" where
  "settle oc f g = (case oc of Done \<Rightarrow> (Inr (), f g) | Lost \<Rightarrow> (Inl Invalid, g) | Unacked \<Rightarrow> (Inl Invalid, f g))"

definition put_record :: "string \<Rightarrow> owner \<Rightarrow> registry \<Rightarrow> registry" where
  "put_record run r g = g\<lparr>rg_files := dput (run @ ''.json'') \<lparr>of_record = Some r, of_mode = 384\<rparr> (rg_files g)\<rparr>"

text \<open>\<open>tree.replace\<close> of a record that was just read, under the lock.\<close>

definition replace_record :: "outcome \<Rightarrow> string \<Rightarrow> owner \<Rightarrow> unit rio" where
  "replace_record oc run r = settle oc (put_record run r)"

text \<open>\<open>_publish_record\<close>: never over an existing name, never beside a stop fence.\<close>

definition publish_record :: "outcome \<Rightarrow> string \<Rightarrow> owner \<Rightarrow> unit rio" where
  "publish_record oc run r =
     bindS (getS (\<lambda>g. ensure (\<not> rg_fenced g \<and> map_of (rg_files g) (run @ ''.json'') = None) Invalid)) (\<lambda>_.
       settle oc (put_record run r))"

text \<open>\<open>_locked(create=True)\<close>: the directory is there afterwards.\<close>

definition open_registry :: "bool \<Rightarrow> unit rio" where
  "open_registry create g = (Inr (), if create then g\<lparr>rg_present := True\<rparr> else g)"

section \<open>Operations\<close>

definition registry_register :: "(string \<Rightarrow> string) \<Rightarrow> string \<Rightarrow> int \<Rightarrow> outcome \<Rightarrow> manager \<Rightarrow> string option \<Rightarrow> string rio" where
  "registry_register sha run now oc m session =
     bindS (getS (\<lambda>g.
       let r = \<lparr>o1_binding = registry_digest sha (rg_binding g), o1_run = run, o1_manager = m, o1_session = session,
                o1_state = Active, o1_kind = Manager_Registered, o1_complete = False, o1_time = now\<rparr> in
       bindE (ensure (manager_ok m \<and> 0 < now \<and> owner1_ok sha (rg_binding g) (run @ ''.json'') r) Invalid) (\<lambda>_. Inr (Old r)))) (\<lambda>r.
     bindS (open_registry True) (\<lambda>_.
     bindS (getS (registry_records sha)) (\<lambda>_.
     bindS (publish_record oc run r) (\<lambda>_. returnS run))))"

text \<open>\<open>_prepare_v2\<close>: \<open>home_there\<close> says whether the native home exists as a private directory.\<close>

definition prepare_v2 ::
  "(string \<Rightarrow> string) \<Rightarrow> (string \<Rightarrow> bool) \<Rightarrow> registry_binding \<Rightarrow> string \<Rightarrow> int \<Rightarrow> manager \<Rightarrow> metadata \<Rightarrow> invalid + owner2" where
  "prepare_v2 sha home_there g run now m md =
     (let r = metadata.extend md
        (owner2.fields (registry_digest sha g) run (fst m) None None Active
          \<lparr>po_kind = Manager_Registered, po_complete = False, po_source = From_Registration, po_time = now,
           po_manager = fst m, po_host = None\<rparr> None None) in
      bindE (ensure (is_hex 32 run \<and> manager_ok m \<and> snd m = [] \<and> 0 < now \<and> owner2_ok sha g (run @ ''.json'') r \<and>
        home_there (me_home md)) Invalid) (\<lambda>_. Inr r))"

definition registry_register_v2 ::
  "(string \<Rightarrow> string) \<Rightarrow> (string \<Rightarrow> bool) \<Rightarrow> string \<Rightarrow> int \<Rightarrow> outcome \<Rightarrow> manager \<Rightarrow> metadata \<Rightarrow> string rio" where
  "registry_register_v2 sha home_there run now oc m md =
     bindS (ensureS (me_coordination md = None) Invalid) (\<lambda>_.
     bindS (getS (\<lambda>g. prepare_v2 sha home_there (rg_binding g) run now m md)) (\<lambda>r.
     bindS (open_registry True) (\<lambda>_.
     bindS (getS (registry_records sha)) (\<lambda>_.
     bindS (publish_record oc run (Owner r)) (\<lambda>_. returnS run)))))"

definition registry_mark_unknown :: "(string \<Rightarrow> string) \<Rightarrow> string \<Rightarrow> int \<Rightarrow> outcome \<Rightarrow> manager \<Rightarrow> unit rio" where
  "registry_mark_unknown sha run now oc expected =
     bindS (ensureS (is_hex 32 run \<and> manager_ok expected) Invalid) (\<lambda>_.
     bindS (getS (\<lambda>g. find_record sha g run)) (\<lambda>r.
     bindS (ensureS (record_manager r = expected \<and> record_state r \<noteq> Idle) Invalid) (\<lambda>_.
     if record_state r = Unknown_Run then returnS ()
     else bindS (liftS (set_state Unknown_Run now r)) (\<lambda>u. replace_record oc run u))))"

text \<open>A release observation: the observer saw all related processes of this run's manager end.\<close>

record release_observation =
  rl_run :: string
  rl_manager :: manager
  rl_exited :: bool
  rl_complete :: bool

definition released :: "string \<Rightarrow> manager \<Rightarrow> release_observation \<Rightarrow> bool" where
  "released run m ob \<longleftrightarrow> rl_run ob = run \<and> manager_ok (rl_manager ob) \<and> rl_manager ob = m \<and> rl_exited ob \<and> rl_complete ob"

definition registry_finish :: "(string \<Rightarrow> string) \<Rightarrow> string \<Rightarrow> int \<Rightarrow> outcome \<Rightarrow> manager \<Rightarrow> release_observation \<Rightarrow> unit rio" where
  "registry_finish sha run now oc expected ob =
     bindS (ensureS (is_hex 32 run \<and> manager_ok expected) Invalid) (\<lambda>_.
     bindS (getS (\<lambda>g. find_record sha g run)) (\<lambda>r.
     bindS (ensureS (record_state r = Active \<and> record_manager r = expected \<and> released run expected ob) Invalid) (\<lambda>_.
     bindS (liftS (set_state Idle now r)) (\<lambda>u. replace_record oc run u))))"

text \<open>\<open>reconcile\<close> runs under the physical exclusive lease; \<open>observe\<close> answers for a copy of the record.\<close>

definition registry_reconcile ::
  "(string \<Rightarrow> string) \<Rightarrow> string \<Rightarrow> int \<Rightarrow> outcome \<Rightarrow> (owner \<Rightarrow> release_observation option) \<Rightarrow> owner rio" where
  "registry_reconcile sha run now oc observe =
     bindS (ensureS (is_hex 32 run) Invalid) (\<lambda>_.
     bindS (getS (\<lambda>g. find_record sha g run)) (\<lambda>r.
     bindS (ensureS (case observe r of None \<Rightarrow> False | Some ob \<Rightarrow> released run (record_manager r) ob) Invalid) (\<lambda>_.
     bindS (liftS (set_state Idle now r)) (\<lambda>u.
     bindS (replace_record oc run u) (\<lambda>_. returnS u)))))"

text \<open>What \<open>host.snapshot()\<close> of the spawned process reports, with the caller's own identity.\<close>

definition host_free :: "owner \<Rightarrow> bool" where
  "host_free r = (case r of Old _ \<Rightarrow> False
     | Owner w \<Rightarrow> me_agent w \<in> {Dsh_Agent, Pi_Agent} \<and> me_backend w = ''managed'' \<and> me_coordination w = None \<and>
                o_state w = Active \<and> o_host w = None)"

fun with_host :: "host \<Rightarrow> int \<Rightarrow> owner \<Rightarrow> owner" where
  "with_host h now (Old r) = Old r"
| "with_host h now (Owner r) =
     Owner (r\<lparr>o_host := Some h, o_state := Active, o_observation := (observe_state r Active now)\<lparr>po_host := Some h\<rparr>\<rparr>)"

definition registry_bind_host :: "(string \<Rightarrow> string) \<Rightarrow> string \<Rightarrow> int \<Rightarrow> outcome \<Rightarrow> process \<Rightarrow> host \<Rightarrow> unit rio" where
  "registry_bind_host sha run now oc me h =
     bindS (ensureS (is_hex 32 run) Invalid) (\<lambda>_.
     bindS (getS (\<lambda>g. find_record sha g run)) (\<lambda>r.
     bindS (ensureS (host_free r \<and> (ho_manager h, []) = record_manager r \<and> (me, []) = record_manager r \<and>
       pid (ho_identity h) \<noteq> pid me \<and> ho_source h = ''linux-spawn-pidfd'' \<and> 0 < now) Invalid) (\<lambda>_.
     let u = with_host h now r in
     bindS (getS (\<lambda>g. ensure (owner_ok sha (rg_binding g) (run @ ''.json'') u) Invalid)) (\<lambda>_.
       replace_record oc run u))))"

definition control_free :: "owner \<Rightarrow> bool" where
  "control_free r = (case r of Old _ \<Rightarrow> False
     | Owner w \<Rightarrow> me_agent w \<in> {Dsh_Agent, Pi_Agent} \<and> me_backend w = ''managed'' \<and> me_coordination w = None \<and>
                o_state w = Active \<and> o_host w \<noteq> None \<and> o_control w = None)"

fun with_control :: "endpoint \<Rightarrow> owner \<Rightarrow> owner" where
  "with_control e (Old r) = Old r"
| "with_control e (Owner r) = Owner (r\<lparr>o_control := Some e\<rparr>)"

fun record_host :: "owner \<Rightarrow> host option" where
  "record_host (Old r) = None"
| "record_host (Owner r) = o_host r"

text \<open>
  \<open>belongs\<close> says that the stop service serves this run and host; service, host and manager are
  observed again (\<open>me2\<close>, \<open>h2\<close>, \<open>belongs2\<close>) right before the write.
\<close>

definition registry_bind_control ::
  "(string \<Rightarrow> string) \<Rightarrow> string \<Rightarrow> outcome \<Rightarrow> bool \<Rightarrow> bool \<Rightarrow> process \<Rightarrow> process \<Rightarrow> host \<Rightarrow> host \<Rightarrow> endpoint \<Rightarrow> unit rio" where
  "registry_bind_control sha run oc belongs belongs2 me me2 h h2 e =
     bindS (ensureS (is_hex 32 run \<and> belongs) Invalid) (\<lambda>_.
     bindS (getS (\<lambda>g. find_record sha g run)) (\<lambda>r.
     bindS (ensureS (control_free r \<and> (me, []) = record_manager r \<and> record_host r = Some h) Invalid) (\<lambda>_.
     let u = with_control e r in
     bindS (getS (\<lambda>g. ensure (owner_ok sha (rg_binding g) (run @ ''.json'') u) Invalid)) (\<lambda>_.
     bindS (ensureS (belongs2 \<and> h2 = h \<and> (me2, []) = record_manager r) Invalid) (\<lambda>_.
       replace_record oc run u)))))"

definition registry_assert_inactive :: "(string \<Rightarrow> string) \<Rightarrow> registry \<Rightarrow> invalid + unit" where
  "registry_assert_inactive sha g =
     bindE (ensure (\<not> rg_fenced g) Invalid) (\<lambda>_.
     bindE (registry_records sha g) (\<lambda>rs. ensure (list_all (\<lambda>(run, r). record_state r = Idle) rs) Invalid))"

section \<open>All of them as steps\<close>

datatype owner_event =
    Register string int outcome manager "string option"
  | Register_V2 string int outcome manager metadata
  | Mark_Unknown string int outcome manager
  | Finish string int outcome manager release_observation
  | Reconcile string int outcome "owner \<Rightarrow> release_observation option"
  | Bind_Host string int outcome process host
  | Bind_Control string outcome bool bool process process host host endpoint
  | Fence

fun owner_step :: "(string \<Rightarrow> string) \<Rightarrow> (string \<Rightarrow> bool) \<Rightarrow> owner_event \<Rightarrow> registry \<Rightarrow> registry" where
  "owner_step sha home (Register run now oc m s) g = snd (registry_register sha run now oc m s g)"
| "owner_step sha home (Register_V2 run now oc m md) g = snd (registry_register_v2 sha home run now oc m md g)"
| "owner_step sha home (Mark_Unknown run now oc m) g = snd (registry_mark_unknown sha run now oc m g)"
| "owner_step sha home (Finish run now oc m ob) g = snd (registry_finish sha run now oc m ob g)"
| "owner_step sha home (Reconcile run now oc observe) g = snd (registry_reconcile sha run now oc observe g)"
| "owner_step sha home (Bind_Host run now oc me h) g = snd (registry_bind_host sha run now oc me h g)"
| "owner_step sha home (Bind_Control run oc b b2 me me2 h h2 e) g = snd (registry_bind_control sha run oc b b2 me me2 h h2 e g)"
| "owner_step sha home Fence g = g\<lparr>rg_fenced := True\<rparr>"

section \<open>Records by run\<close>

definition owner_at :: "registry \<Rightarrow> string \<Rightarrow> owner option" where
  "owner_at g run = (case map_of (rg_files g) (run @ ''.json'') of None \<Rightarrow> None | Some f \<Rightarrow> of_record f)"

lemma owner_at_put [simp]: "owner_at (put_record run r g) run' = (if run' = run then Some r else owner_at g run')"
  by (simp add: owner_at_def put_record_def)

lemma put_record_fields [simp]:
  "rg_binding (put_record run r g) = rg_binding g" "rg_fenced (put_record run r g) = rg_fenced g"
  "rg_present (put_record run r g) = rg_present g"
  by (simp_all add: put_record_def)

lemma owner_at_present [simp]: "owner_at (g\<lparr>rg_present := b\<rparr>) run = owner_at g run"
  and owner_at_fenced [simp]: "owner_at (g\<lparr>rg_fenced := b\<rparr>) run = owner_at g run"
  by (simp_all add: owner_at_def)

lemma file_name_stem: "file_name_ok n \<Longrightarrow> n = take (length n - 5) n @ ''.json''"
  by (metis append_take_drop_id file_name_ok_def)

lemma stored_records_at:
  assumes "list_all (file_ok sha b) fs" "map_of (stored_records fs) run = Some r"
  shows "\<exists>f. map_of fs (run @ ''.json'') = Some f \<and> of_record f = Some r"
  using assms
proof (induction fs)
  case (Cons e fs)
  obtain n f where e: "e = (n, f)" by fastforce
  with Cons.prems have ok: "file_name_ok n" "of_record f \<noteq> None" by (auto simp: file_ok_def split: option.splits)
  from file_name_stem [OF ok(1)] obtain s where n: "n = s @ ''.json''" by blast
  then have "take (length n - 5) n = s" by simp
  then show ?case using Cons e n ok by (auto simp: stored_records_def split: if_splits)
qed (simp add: stored_records_def)

lemma find_record_at: "find_record sha g run = Inr r \<Longrightarrow> owner_at g run = Some r"
  using stored_records_at [of sha "rg_binding g" "rg_files g" run r]
  by (auto simp: find_record_def registry_records_def result_simps owner_at_def split: if_splits option.splits)

text \<open>What identifies a record: everything but what is observed of it.\<close>

fun same_run :: "owner \<Rightarrow> owner \<Rightarrow> bool" where
  "same_run (Old r) (Old s) = (o1_binding s = o1_binding r \<and> o1_run s = o1_run r \<and> o1_manager s = o1_manager r \<and> o1_session s = o1_session r)"
| "same_run (Owner r) (Owner s) =
     (metadata.truncate s = metadata.truncate r \<and> o_binding s = o_binding r \<and> o_run s = o_run r \<and> o_manager s = o_manager r)"
| "same_run _ _ = False"

lemma same_run_refl [simp]: "same_run r r"
  by (cases r) simp_all

lemma same_run_trans: "same_run r s \<Longrightarrow> same_run s t \<Longrightarrow> same_run r t"
  by (cases r; cases s; cases t) auto

lemma same_run_manager: "same_run r s \<Longrightarrow> record_manager s = record_manager r"
  by (cases r; cases s) auto

lemma set_state_same: "set_state s now r = Inr u \<Longrightarrow> same_run r u \<and> record_state u = s"
  by (cases r) (auto simp: metadata.defs split: if_splits)

lemma with_host_same [simp]: "same_run r (with_host h now r)"
  by (cases r) (simp_all add: metadata.defs)

lemma with_control_same [simp]: "same_run r (with_control e r)" "record_state (with_control e r) = record_state r"
  by (cases r; simp add: metadata.defs)+

lemma host_free_active: "host_free r \<Longrightarrow> record_state r = Active \<and> record_state (with_host h now r) = Active"
  by (cases r) (auto simp: host_free_def)

section \<open>The life of a record\<close>

fun owner_next :: "owner_state \<Rightarrow> owner_state list" where
  "owner_next Active = [Unknown_Run, Idle]"
| "owner_next Unknown_Run = [Idle]"
| "owner_next Idle = []"

fun owner_rank :: "owner_state \<Rightarrow> nat" where
  "owner_rank Active = 0"
| "owner_rank Unknown_Run = 1"
| "owner_rank Idle = 2"

interpretation owner_phases: phase_machine owner_next owner_rank
  by unfold_locales (rename_tac q p, case_tac p, auto)

text \<open>
  \<open>advances ev g h\<close>: the step from \<open>g\<close> to \<open>h\<close> keeps every record, moves at most its state, and
  ends a run only on a complete observation of its own manager.
\<close>

fun release_of :: "owner_event \<Rightarrow> owner \<Rightarrow> release_observation option" where
  "release_of (Finish run now oc m ob) r = Some ob"
| "release_of (Reconcile run now oc observe) r = observe r"
| "release_of _ r = None"

definition advances :: "owner_event \<Rightarrow> registry \<Rightarrow> registry \<Rightarrow> bool" where
  "advances ev g h \<longleftrightarrow>
     rg_binding h = rg_binding g \<and> (rg_fenced g \<longrightarrow> rg_fenced h) \<and>
     (\<forall>run r. owner_at g run = Some r \<longrightarrow>
        (\<exists>r'. owner_at h run = Some r' \<and> same_run r r' \<and> owner_phases.steps (record_state r) (record_state r') \<and>
           (record_state r' = Idle \<and> record_state r \<noteq> Idle \<longrightarrow>
              (\<exists>ob. release_of ev r = Some ob \<and> released run (record_manager r) ob)))) \<and>
     (\<forall>run. owner_at g run = None \<and> rg_fenced g \<longrightarrow> owner_at h run = None)"

lemma advances_refl [simp]: "advances ev g g"
  by (auto simp: advances_def owner_phases.steps_def)

lemma advances_present [simp]: "advances ev g (g\<lparr>rg_present := b\<rparr>)"
  by (auto simp: advances_def owner_phases.steps_def)

lemma advances_put:
  assumes "owner_at g run = Some r" "same_run r u" "owner_phases.steps (record_state r) (record_state u)"
    and "record_state u = Idle \<Longrightarrow> record_state r \<noteq> Idle \<Longrightarrow> \<exists>ob. release_of ev r = Some ob \<and> released run (record_manager r) ob"
  shows "advances ev g (put_record run u g)"
  using assms by (auto simp: advances_def owner_phases.steps_def)

lemma settle_cases: "snd (settle oc f g) = g \<or> snd (settle oc f g) = f g"
  by (cases oc) (simp_all add: settle_def)

lemma advances_replace:
  assumes "owner_at g run = Some r" "same_run r u" "owner_phases.steps (record_state r) (record_state u)"
    and "record_state u = Idle \<Longrightarrow> record_state r \<noteq> Idle \<Longrightarrow> \<exists>ob. release_of ev r = Some ob \<and> released run (record_manager r) ob"
  shows "advances ev g (snd (replace_record oc run u g))"
  using settle_cases [of oc "put_record run u" g] advances_put [OF assms] advances_refl
  unfolding replace_record_def by metis

lemma advances_publish: "advances ev g (snd (publish_record oc run u (g\<lparr>rg_present := b\<rparr>)))"
proof (cases "\<not> rg_fenced g \<and> map_of (rg_files g) (run @ ''.json'') = None")
  case True
  then have "owner_at g run = None" by (simp add: owner_at_def)
  with True have "advances ev g (put_record run u (g\<lparr>rg_present := b\<rparr>))"
    by (auto simp: advances_def owner_phases.steps_def)
  with True show ?thesis
    using settle_cases [of oc "put_record run u" "g\<lparr>rg_present := b\<rparr>"]
    by (auto simp: publish_record_def snd_bindS getS_def ensure_def)
next
  case False
  then show ?thesis by (auto simp: publish_record_def snd_bindS getS_def ensure_def)
qed

section \<open>Every operation advances\<close>

text \<open>A chain of checks that leaves the registry alone: the state after it is the one of its end.\<close>

lemma snd_get: "snd (bindS (getS f) k g) = (case f g of Inl e \<Rightarrow> g | Inr x \<Rightarrow> snd (k x g))"
  by (auto simp: snd_bindS getS_def split: sum.splits)

lemma snd_ensure: "snd (bindS (ensureS b e) k g) = (if b then snd (k () g) else g)"
  by (auto simp: snd_bindS ensureS_def ensure_def)

lemma snd_lift: "snd (bindS (liftS a) k g) = (case a of Inl e \<Rightarrow> g | Inr x \<Rightarrow> snd (k x g))"
  by (auto simp: snd_bindS liftS_def split: sum.splits)

lemma snd_bind_return: "snd (bindS m (\<lambda>_. returnS x) g) = snd (m g)"
  by (auto simp: snd_bindS returnS_def split: prod.splits sum.splits)

lemma snd_open: "snd (bindS (open_registry c) k g) = snd (k () (if c then g\<lparr>rg_present := True\<rparr> else g))"
  by (simp add: snd_bindS open_registry_def)

lemmas snd_guarded = snd_get snd_ensure snd_lift

lemmas owner_unfold = snd_guarded snd_bind_return snd_open

lemma steps_from: "owner_phases.steps s s" "owner_phases.steps Active s" "owner_phases.steps s Idle"
  by (cases s; simp add: owner_phases.steps_def)+

lemma steps_unknown: "s \<noteq> Idle \<Longrightarrow> owner_phases.steps s Unknown_Run"
  by (cases s) (simp_all add: owner_phases.steps_def)

lemma mark_advances: "advances ev g (snd (registry_mark_unknown sha run now oc m g))"
  unfolding registry_mark_unknown_def owner_unfold
  by (auto split: sum.splits dest: set_state_same find_record_at intro!: advances_replace
      simp: snd_guarded steps_unknown)

lemma finish_advances: "advances (Finish run now oc m ob) g (snd (registry_finish sha run now oc m ob g))"
  unfolding registry_finish_def owner_unfold
  by (auto split: sum.splits dest: set_state_same find_record_at intro!: advances_replace
      simp: snd_guarded steps_from)

lemma reconcile_advances: "advances (Reconcile run now oc observe) g (snd (registry_reconcile sha run now oc observe g))"
  unfolding registry_reconcile_def owner_unfold
  by (auto split: sum.splits option.splits dest: set_state_same find_record_at intro!: advances_replace
      simp: snd_guarded snd_bind_return steps_from)

lemma bind_host_advances: "advances ev g (snd (registry_bind_host sha run now oc me h g))"
  unfolding registry_bind_host_def owner_unfold Let_def
  by (auto split: sum.splits dest: find_record_at dest!: host_free_active [where h = h and now = now] intro!: advances_replace
      simp: snd_guarded steps_from)

lemma bind_control_advances: "advances ev g (snd (registry_bind_control sha run oc b b2 me me2 h h2 e g))"
  unfolding registry_bind_control_def owner_unfold Let_def
  by (auto split: sum.splits dest: find_record_at intro!: advances_replace simp: snd_guarded steps_from)

lemma register_advances: "advances ev g (snd (registry_register sha run now oc m s g))"
  unfolding registry_register_def owner_unfold Let_def by (auto split: sum.splits simp: advances_publish)

lemma register_v2_advances: "advances ev g (snd (registry_register_v2 sha home run now oc m md g))"
  unfolding registry_register_v2_def owner_unfold Let_def by (auto split: sum.splits simp: advances_publish)

lemma fence_advances: "advances Fence g (g\<lparr>rg_fenced := True\<rparr>)"
  by (auto simp: advances_def owner_phases.steps_def)

lemma owner_step_advances: "advances ev g (owner_step sha home ev g)"
  by (cases ev) (simp_all add: register_advances register_v2_advances mark_advances finish_advances reconcile_advances
      bind_host_advances bind_control_advances fence_advances)

section \<open>Histories\<close>

definition owner_history :: "(string \<Rightarrow> string) \<Rightarrow> (string \<Rightarrow> bool) \<Rightarrow> owner_event list \<Rightarrow> registry \<Rightarrow> registry" where
  "owner_history sha home evs g = fold (owner_step sha home) evs g"

lemma owner_history_simps [simp]:
  "owner_history sha home [] g = g"
  "owner_history sha home (ev # evs) g = owner_history sha home evs (owner_step sha home ev g)"
  by (simp_all add: owner_history_def)

lemma history_keeps:
  "owner_at g run = Some r \<Longrightarrow>
     \<exists>r'. owner_at (owner_history sha home evs g) run = Some r' \<and> same_run r r' \<and>
       owner_phases.follows (record_state r) (record_state r')"
proof (induction evs arbitrary: g r)
  case Nil
  then show ?case by (auto intro: owner_phases.stay)
next
  case (Cons ev evs)
  from owner_step_advances [of ev g sha home] Cons.prems obtain r1 where
    r1: "owner_at (owner_step sha home ev g) run = Some r1" "same_run r r1"
      "owner_phases.steps (record_state r) (record_state r1)"
    unfolding advances_def by blast
  from Cons.IH [OF r1(1)] obtain r2 where
    r2: "owner_at (owner_history sha home (ev # evs) g) run = Some r2" "same_run r1 r2"
      "owner_phases.follows (record_state r1) (record_state r2)" by auto
  have "owner_phases.follows q s \<Longrightarrow> owner_phases.steps p q \<Longrightarrow> owner_phases.follows p s" for p q s
    by (induction rule: owner_phases.follows.induct) (auto intro: owner_phases.stay owner_phases.move)
  then have "owner_phases.follows (record_state r) (record_state r2)" using r1(3) r2(3) by blast
  moreover have "same_run r r2" using r1(2) r2(2) by (rule same_run_trans)
  ultimately show ?case using r2(1) by blast
qed

text \<open>C28: A run's record is never lost, never taken over and never revived: after any sequence of
  registry operations, with any of their writes lost or unacknowledged, it is still there with
  the same manager, instance and deployment; its state has only moved forward, and a run once
  confirmed idle stays idle.\<close>

theorem owner_never_reverts:
  assumes "owner_at g run = Some r"
  shows "\<exists>r'. owner_at (owner_history sha home evs g) run = Some r' \<and> same_run r r' \<and>
    owner_rank (record_state r) \<le> owner_rank (record_state r') \<and> (record_state r = Idle \<longrightarrow> record_state r' = Idle)"
  using history_keeps [OF assms, of sha home evs] owner_phases.follows_rank owner_phases.follows_terminal owner_next.simps(3)
  by metis

text \<open>C21: No run is declared ended without proof: a step after which a run is confirmed idle that was
  not idle before carries a complete observation that all processes of that run, under the very
  manager its record names, have exited. Time, a dead process or a restart never suffice.\<close>

theorem idle_needs_release:
  assumes "owner_at g run = Some r" "record_state r \<noteq> Idle"
    and "owner_at (owner_step sha home ev g) run = Some r'" "record_state r' = Idle"
  shows "\<exists>ob. release_of ev r = Some ob \<and> rl_run ob = run \<and> rl_manager ob = record_manager r \<and> rl_exited ob \<and> rl_complete ob"
  using owner_step_advances [of ev g sha home] assms unfolding advances_def released_def by (metis option.inject)


section \<open>A small registry\<close>

definition sample_binding :: registry_binding where
  "sample_binding = \<lparr>g_machine = ''m'', g_local = ''/p'', g_profile = ''x''\<rparr>"

definition empty_registry :: registry where
  "empty_registry = \<lparr>rg_binding = sample_binding, rg_present = False, rg_files = [], rg_fenced = False\<rparr>"

definition sample_manager :: manager where
  "sample_manager = (\<lparr>pid = 1, birth = ''b''\<rparr>, [])"

definition sample_metadata :: metadata where
  "sample_metadata = \<lparr>me_agent = Omp_Agent, me_backend = ''managed'', me_profile = ''x'', me_machine = ''m'', me_local = ''/p'',
     me_start = ''/p'', me_start_time = 1, me_home_kind = Omp_Home, me_home = ''/h'', me_deployment = replicate 64 CHR ''a'',
     me_runtime = replicate 64 CHR ''a'', me_coordination = None\<rparr>"

definition sample_registry :: registry where
  "sample_registry = snd (registry_register_v2 sample_sha (\<lambda>_. True) (sample_id CHR ''a'') 5 Done sample_manager sample_metadata empty_registry)"

definition sample_release :: release_observation where
  "sample_release = \<lparr>rl_run = sample_id CHR ''a'', rl_manager = sample_manager, rl_exited = True, rl_complete = True\<rparr>"

definition sample_finish :: owner_event where
  "sample_finish = Finish (sample_id CHR ''a'') 7 Unacked sample_manager sample_release"

lemma sample_active: "map_option record_state (owner_at sample_registry (sample_id CHR ''a'')) = Some Active"
  by code_simp

lemma sample_idle:
  "map_option record_state (owner_at (owner_step sample_sha (\<lambda>_. True) sample_finish sample_registry) (sample_id CHR ''a'')) = Some Idle"
  by code_simp

theorem owner_never_reverts_witness:
  "\<exists>r r'. owner_at sample_registry (sample_id CHR ''a'') = Some r \<and>
     owner_at (owner_history sample_sha (\<lambda>_. True) [sample_finish, Fence] sample_registry) (sample_id CHR ''a'') = Some r' \<and> same_run r r'"
proof -
  obtain r where r: "owner_at sample_registry (sample_id CHR ''a'') = Some r" using sample_active by auto
  from owner_never_reverts [OF r, of sample_sha "\<lambda>_. True" "[sample_finish, Fence]"] r show ?thesis by blast
qed

theorem idle_needs_release_witness: "rl_complete sample_release \<and> rl_run sample_release = sample_id CHR ''a''"
proof -
  obtain r where r: "owner_at sample_registry (sample_id CHR ''a'') = Some r" "record_state r \<noteq> Idle"
    using sample_active by auto
  obtain r' where r': "owner_at (owner_step sample_sha (\<lambda>_. True) sample_finish sample_registry) (sample_id CHR ''a'') = Some r'"
      "record_state r' = Idle"
    using sample_idle by auto
  from idle_needs_release [OF r r'] show ?thesis by (auto simp: sample_finish_def)
qed


end
