(* ===== verification/Resource_Domain.thy ===== *)
theory Resource_Domain
  imports Maintenance_Batch Owner_Registry
begin

text \<open>
  The coordination domain: the one file in which runs reserve shared resources and maintenance
  states its intents (\<open>agentcfg/resource_protocol.py\<close> for the format and its semantics, the
  transaction of \<open>agentcfg/resource_coordination.py\<close>). Tables are dictionaries keyed by
  identifiers. \<open>domain_ok\<close> is what every read and every write checks.
\<close>

section \<open>Records\<close>

text \<open>A runtime lives in a cache, an instance or native home at a path claimed for a scope.\<close>

datatype place =
    Runtime_Place (place_cache: string) (place_identity: string)
  | Scope_Place (place_path: string) (place_scope: string) (place_anchor: string)

datatype resource_status = Preparing | Ready | Status_Unknown

record shared_resource =
  sh_id :: string
  sh_key :: resource_key
  sh_place :: place
  sh_status :: resource_status

record owner_ref =
  wr_root :: string
  wr_binding :: registry_binding

record path_ref =
  pr_path :: string
  pr_key :: resource_key

record link_evidence =
  ev_registry :: physical
  ev_instance :: path_ref
  ev_home :: path_ref
  ev_ownership :: string

record owner_link = link_evidence +
  ol_record :: string

record release_receipt =
  rr_time :: int
  rr_digest :: string

datatype reservation_phase =
  Reserved | Owner_Pending | Owner_Attached | Sent | Unclear | Withdrawn | Release_Pending | Released

record reservation =
  rv_run :: string
  rv_op :: string
  rv_owner :: owner_ref
  rv_resources :: "string list"
  rv_phase :: reservation_phase
  rv_generation :: "nat option"
  rv_link :: "owner_link option"
  rv_receipt :: "release_receipt option"

datatype intent_phase = Intent_Active | Intent_Dispatched | Intent_Unknown | Intent_Cancelled | Intent_Completed

record intent =
  it_batch :: string
  it_generation :: nat
  it_operation :: operation
  it_resources :: "string list"
  it_runs :: "string list"
  it_phase :: intent_phase
  it_digest :: "string option"
  it_progress :: "batch option"

record domain =
  dm_id :: string
  dm_physical :: physical
  dm_revision :: nat
  dm_resources :: "(string \<times> shared_resource) list"
  dm_reservations :: "(string \<times> reservation) list"
  dm_intents :: "(string \<times> intent) list"

section \<open>Their JSON\<close>

fun status_text :: "resource_status \<Rightarrow> string" where
  "status_text Preparing = ''preparing''"
| "status_text Ready = ''ready''"
| "status_text Status_Unknown = ''unknown''"

fun reservation_phase_name :: "reservation_phase \<Rightarrow> string" where
  "reservation_phase_name Reserved = ''reserved''"
| "reservation_phase_name Owner_Pending = ''owner_pending''"
| "reservation_phase_name Owner_Attached = ''owner_attached''"
| "reservation_phase_name Sent = ''dispatched''"
| "reservation_phase_name Unclear = ''unknown''"
| "reservation_phase_name Withdrawn = ''cancelled''"
| "reservation_phase_name Release_Pending = ''release_pending''"
| "reservation_phase_name Released = ''released''"

fun intent_phase_name :: "intent_phase \<Rightarrow> string" where
  "intent_phase_name Intent_Active = ''active''"
| "intent_phase_name Intent_Dispatched = ''dispatched''"
| "intent_phase_name Intent_Unknown = ''unknown''"
| "intent_phase_name Intent_Cancelled = ''cancelled''"
| "intent_phase_name Intent_Completed = ''completed''"

definition given :: "string \<Rightarrow> ('a \<Rightarrow> json) \<Rightarrow> 'a option \<Rightarrow> (string \<times> json) list" where
  "given k f x = (case x of None \<Rightarrow> [] | Some y \<Rightarrow> [(k, f y)])"

fun place_json :: "place \<Rightarrow> (string \<times> json) list" where
  "place_json (Runtime_Place c i) = [(''cache'', JStr c), (''runtime_identity'', JStr i)]"
| "place_json (Scope_Place p s a) = [(''anchor_digest'', JStr a), (''path'', JStr p), (''scope_id'', JStr s)]"

definition shared_json :: "shared_resource \<Rightarrow> json" where
  "shared_json q = JObj (place_json (sh_place q) @
     [(''key'', key_json (sh_key q)), (''resource_id'', JStr (sh_id q)), (''status'', JStr (status_text (sh_status q)))])"

definition owner_ref_json :: "owner_ref \<Rightarrow> json" where
  "owner_ref_json w = JObj [(''binding'', binding_json (wr_binding w)), (''state_root'', JStr (wr_root w))]"

definition path_ref_json :: "path_ref \<Rightarrow> json" where
  "path_ref_json p = JObj [(''key'', key_json (pr_key p)), (''path'', JStr (pr_path p))]"

definition evidence_entries :: "'a link_evidence_scheme \<Rightarrow> (string \<times> json) list" where
  "evidence_entries e =
     [(''instance'', path_ref_json (ev_instance e)), (''native_home'', path_ref_json (ev_home e)),
      (''ownership_digest'', JStr (ev_ownership e)), (''registry_physical'', physical_json (ev_registry e))]"

definition link_json :: "owner_link \<Rightarrow> json" where
  "link_json l = JObj (evidence_entries l @ [(''record_digest'', JStr (ol_record l))])"

definition receipt_json :: "release_receipt \<Rightarrow> json" where
  "receipt_json r = JObj [(''observed_at_ns'', JInt (rr_time r)), (''owner_record_digest'', JStr (rr_digest r))]"

definition reservation_json :: "reservation \<Rightarrow> json" where
  "reservation_json r = JObj
     (given ''generation'' jnat (rv_generation r) @ [(''op_id'', JStr (rv_op r))] @ given ''owner_link'' link_json (rv_link r) @
      [(''owner_ref'', owner_ref_json (rv_owner r)), (''phase'', JStr (reservation_phase_name (rv_phase r)))] @
      given ''release_receipt'' receipt_json (rv_receipt r) @
      [(''resources'', jtexts (rv_resources r)), (''run_id'', JStr (rv_run r))])"

definition intent_json :: "intent \<Rightarrow> json" where
  "intent_json i = JObj
     (given ''acceptance_digest'' JStr (it_digest i) @
      [(''batch_id'', JStr (it_batch i)), (''generation'', jnat (it_generation i)),
       (''operation'', JStr (operation_name (it_operation i))), (''phase'', JStr (intent_phase_name (it_phase i)))] @
      given ''progress'' batch_json (it_progress i) @
      [(''resources'', jtexts (it_resources i)), (''selected_runs'', jtexts (it_runs i))])"

definition table_json :: "('a \<Rightarrow> json) \<Rightarrow> (string \<times> 'a) list \<Rightarrow> json" where
  "table_json f t = JObj (map (\<lambda>(k, v). (k, f v)) t)"

definition domain_json :: "domain \<Rightarrow> json" where
  "domain_json s = JObj
     [(''domain_id'', JStr (dm_id s)), (''intents'', table_json intent_json (dm_intents s)), (''kind'', JStr ''domain''),
      (''physical'', physical_json (dm_physical s)), (''reservations'', table_json reservation_json (dm_reservations s)),
      (''resources'', table_json shared_json (dm_resources s)), (''revision'', jnat (dm_revision s)), (''schema_version'', JInt 1)]"

section \<open>Validity\<close>

definition domain_key_ok :: "(string \<Rightarrow> string) \<Rightarrow> resource_key \<Rightarrow> bool" where
  "domain_key_ok sha k \<longleftrightarrow>
     1 \<le> k_inode k \<and> is_hex 64 (k_id k) \<and> k_id k = key_digest sha (k_kind k) (k_device k) (k_inode k)"

definition identity_text :: "string \<Rightarrow> bool" where
  "identity_text s \<longleftrightarrow> 1 \<le> length s \<and> length s \<le> 192 \<and> alnum_char (hd s) \<and>
     list_all (\<lambda>c. alnum_char c \<or> c = CHR ''_'' \<or> c = CHR ''.'' \<or> c = CHR ''-'') (tl s)"

fun place_ok :: "resource_kind \<Rightarrow> place \<Rightarrow> bool" where
  "place_ok k (Runtime_Place c i) = (k = Runtime \<and> canonical_path c \<and> identity_text i)"
| "place_ok k (Scope_Place p s a) = (k \<noteq> Runtime \<and> canonical_path p \<and> is_hex 32 s \<and> is_hex 64 a)"

definition shared_ok :: "(string \<Rightarrow> string) \<Rightarrow> string \<times> shared_resource \<Rightarrow> bool" where
  "shared_ok sha e \<longleftrightarrow>
     is_hex 32 (fst e) \<and> sh_id (snd e) = fst e \<and> domain_key_ok sha (sh_key (snd e)) \<and>
     place_ok (k_kind (sh_key (snd e))) (sh_place (snd e))"

definition owner_ref_ok :: "owner_ref \<Rightarrow> bool" where
  "owner_ref_ok w \<longleftrightarrow>
     canonical_path (wr_root w) \<and> canonical_path (g_local (wr_binding w)) \<and> token_text (g_machine (wr_binding w)) \<and>
     token_text (g_profile (wr_binding w))"

definition path_ref_ok :: "(string \<Rightarrow> string) \<Rightarrow> resource_kind \<Rightarrow> path_ref \<Rightarrow> bool" where
  "path_ref_ok sha k p \<longleftrightarrow> canonical_path (pr_path p) \<and> k_kind (pr_key p) = k \<and> domain_key_ok sha (pr_key p)"

definition link_ok :: "(string \<Rightarrow> string) \<Rightarrow> owner_link \<Rightarrow> bool" where
  "link_ok sha l \<longleftrightarrow>
     1 \<le> ph_inode (ev_registry l) \<and> path_ref_ok sha Instance (ev_instance l) \<and> path_ref_ok sha Native_Home (ev_home l) \<and>
     is_hex 64 (ev_ownership l) \<and> is_hex 64 (ol_record l)"

text \<open>Which phases need, allow or exclude a link and a receipt.\<close>

definition phase_fields_ok :: "reservation \<Rightarrow> bool" where
  "phase_fields_ok r \<longleftrightarrow>
     (rv_phase r \<in> {Owner_Pending, Owner_Attached, Release_Pending, Released} \<longrightarrow> rv_link r \<noteq> None) \<and>
     (rv_link r \<noteq> None \<longrightarrow> rv_phase r \<notin> {Reserved, Withdrawn}) \<and>
     (rv_phase r \<in> {Release_Pending, Released} \<longrightarrow> rv_receipt r \<noteq> None) \<and>
     (rv_receipt r \<noteq> None \<longrightarrow> rv_link r \<noteq> None \<and> rv_phase r \<in> {Release_Pending, Released, Unclear})"

definition reservation_ok :: "(string \<Rightarrow> string) \<Rightarrow> domain \<Rightarrow> string \<times> reservation \<Rightarrow> bool" where
  "reservation_ok sha s e \<longleftrightarrow>
     (let r = snd e in
      is_hex 32 (fst e) \<and> rv_run r = fst e \<and> is_hex 32 (rv_op r) \<and> owner_ref_ok (rv_owner r) \<and>
      list_all (is_hex 32) (rv_resources r) \<and> distinct (rv_resources r) \<and> rv_resources r \<noteq> [] \<and>
      set (rv_resources r) \<subseteq> set (map fst (dm_resources s)) \<and>
      (case rv_generation r of None \<Rightarrow> True | Some n \<Rightarrow> 1 \<le> n \<and> n \<le> dm_revision s) \<and>
      (case rv_link r of None \<Rightarrow> True | Some l \<Rightarrow> link_ok sha l) \<and>
      (case rv_receipt r of None \<Rightarrow> True | Some c \<Rightarrow> 1 \<le> rr_time c \<and> is_hex 64 (rr_digest c)) \<and> phase_fields_ok r)"

definition terminal_intent :: "intent \<Rightarrow> bool" where
  "terminal_intent i \<longleftrightarrow> it_phase i \<in> {Intent_Cancelled, Intent_Completed}"

definition completed_ok :: "domain \<Rightarrow> intent \<Rightarrow> batch \<Rightarrow> bool" where
  "completed_ok s i b \<longleftrightarrow>
     it_operation i = Setup_Operation \<and> b_phase b = Setup_Succeeded \<and> \<not> b_review b \<and>
     di_state (b_dispatch b) = Dispatch_Confirmed \<and> di_setup (b_dispatch b) \<noteq> None \<and> di_target (b_dispatch b) \<noteq> None \<and>
     (case b_result b of None \<Rightarrow> False
      | Some r \<Rightarrow> or_status r = Succeeded \<and> or_exit r = Some 0 \<and> or_digest r \<noteq> None) \<and>
     list_all (\<lambda>u. re_mode (u_restore u) = Manual) (p_runs (b_plan b)) \<and>
     list_all (\<lambda>x. i_restore x = Restore_Manual \<and> i_stop x = Stop_Confirmed \<and> exit_confirmed (i_facts x) \<and>
       resources_released (i_facts x) \<and> \<not> launched x) (b_items b) \<and>
     list_all (\<lambda>run. case map_of (dm_reservations s) run of None \<Rightarrow> False
       | Some r \<Rightarrow> rv_phase r = Released \<and> rv_receipt r \<noteq> None) (it_runs i)"

text \<open>\<open>_progress\<close>: the batch stored in an intent is normal and tells the same story.\<close>

definition progress_ok :: "(string \<Rightarrow> string) \<Rightarrow> domain \<Rightarrow> intent \<Rightarrow> batch \<Rightarrow> bool" where
  "progress_ok sha s i b \<longleftrightarrow>
     batch_normalize sha b = Inr b \<and> it_digest i \<noteq> None \<and> b_id b = it_batch i \<and> b_operation b = it_operation i \<and>
     b_accepted b = sort (it_runs i) \<and> set (resource_ids (p_resources (b_plan b))) = set (it_resources i) \<and>
     list_all (\<lambda>q. q_domain q = dm_id s \<and> q_physical q = dm_physical s \<and> q_generation q + 1 = it_generation i)
       (p_resources (b_plan b)) \<and>
     (it_phase i = Intent_Unknown \<longleftrightarrow> open_phase (b_phase b)) \<and>
     (it_phase i = Intent_Cancelled \<longrightarrow> b = initial_batch (b_id b) (b_plan b)) \<and>
     (it_phase i = Intent_Completed \<longrightarrow> completed_ok s i b)"

definition intent_ok :: "(string \<Rightarrow> string) \<Rightarrow> domain \<Rightarrow> string \<times> intent \<Rightarrow> bool" where
  "intent_ok sha s e \<longleftrightarrow>
     (let i = snd e in
      is_hex 32 (fst e) \<and> it_batch i = fst e \<and> 1 \<le> it_generation i \<and>
      list_all (is_hex 32) (it_resources i) \<and> distinct (it_resources i) \<and> it_resources i \<noteq> [] \<and>
      set (it_resources i) \<subseteq> set (map fst (dm_resources s)) \<and>
      list_all (is_hex 32) (it_runs i) \<and> distinct (it_runs i) \<and>
      list_all (\<lambda>run. case map_of (dm_reservations s) run of None \<Rightarrow> False
        | Some r \<Rightarrow> set (it_resources i) \<inter> set (rv_resources r) \<noteq> {}) (it_runs i) \<and>
      (case it_digest i of None \<Rightarrow> True | Some d \<Rightarrow> is_hex 64 d) \<and>
      (case it_progress i of None \<Rightarrow> it_phase i \<noteq> Intent_Completed | Some b \<Rightarrow> progress_ok sha s i b))"

definition domain_ok :: "(string \<Rightarrow> string) \<Rightarrow> domain \<Rightarrow> bool" where
  "domain_ok sha s \<longleftrightarrow>
     is_hex 32 (dm_id s) \<and> 1 \<le> ph_inode (dm_physical s) \<and>
     dict_ok (dm_resources s) \<and> dict_ok (dm_reservations s) \<and> dict_ok (dm_intents s) \<and>
     list_all (shared_ok sha) (dm_resources s) \<and> list_all (reservation_ok sha s) (dm_reservations s) \<and>
     distinct (map (\<lambda>e. rv_op (snd e)) (dm_reservations s)) \<and> list_all (intent_ok sha s) (dm_intents s)"

definition domain_encodes :: "(string \<Rightarrow> string) \<Rightarrow> domain \<Rightarrow> bool" where
  "domain_encodes sha s \<longleftrightarrow>
     depth (domain_json s) \<le> 32 \<and> length (json_bytes (domain_json s)) \<le> 2 * 1024 * 1024 \<and> domain_ok sha s"

section \<open>Selections\<close>

text \<open>\<open>Domain._resources\<close>, \<open>_idle\<close>, \<open>_unfenced\<close> and \<open>_intent_selection\<close>.\<close>

definition ready_resources :: "domain \<Rightarrow> string list \<Rightarrow> bool" where
  "ready_resources s rids \<longleftrightarrow>
     rids \<noteq> [] \<and> distinct rids \<and>
     list_all (\<lambda>rid. case map_of (dm_resources s) rid of None \<Rightarrow> False | Some q \<Rightarrow> sh_status q = Ready) rids"

definition over :: "reservation_phase \<Rightarrow> bool" where
  "over p \<longleftrightarrow> p = Withdrawn \<or> p = Released"

definition overlaps :: "string list \<Rightarrow> string list \<Rightarrow> bool" where
  "overlaps xs ys \<longleftrightarrow> list_ex (\<lambda>x. x \<in> set ys) xs"

lemma overlaps_iff: "overlaps xs ys \<longleftrightarrow> set xs \<inter> set ys \<noteq> {}"
  by (auto simp: overlaps_def list_ex_iff)

definition domain_idle :: "domain \<Rightarrow> string list \<Rightarrow> bool" where
  "domain_idle s rids \<longleftrightarrow>
     list_all (\<lambda>(run, r). overlaps rids (rv_resources r) \<longrightarrow> over (rv_phase r)) (dm_reservations s) \<and>
     list_all (\<lambda>(b, i). overlaps rids (it_resources i) \<longrightarrow> terminal_intent i) (dm_intents s)"

definition unfenced :: "domain \<Rightarrow> string list \<Rightarrow> bool" where
  "unfenced s rids \<longleftrightarrow> list_all (\<lambda>(b, i). overlaps rids (it_resources i) \<longrightarrow> terminal_intent i) (dm_intents s)"

definition live_reservations :: "domain \<Rightarrow> string list \<Rightarrow> (string \<times> reservation) list" where
  "live_reservations s rids = filter (\<lambda>(run, r). \<not> over (rv_phase r) \<and> overlaps rids (rv_resources r)) (dm_reservations s)"

definition selection_ok :: "domain \<Rightarrow> string list \<Rightarrow> string list \<Rightarrow> operation \<Rightarrow> bool" where
  "selection_ok s rids selected op \<longleftrightarrow>
     (let live = live_reservations s rids; names = map fst live in
      list_all (\<lambda>(run, r). rv_phase r = Sent) live \<and>
      (op = Setup_Operation \<longrightarrow> set selected = set names) \<and>
      (op = Stop_Only \<longrightarrow> set selected \<subseteq> set names \<and> (names \<noteq> [] \<longrightarrow> selected \<noteq> [])) \<and>
      (selected \<noteq> [] \<longrightarrow> set rids = set (concat (map (\<lambda>(run, r). if run \<in> set selected then rv_resources r else []) live))))"

end
