(* ===== verification/Stop_Acceptance.thy ===== *)
theory Stop_Acceptance
  imports Resource_Domain
begin

text \<open>
  Stop acceptances and the store that keeps them: \<open>maintenance.py\<close> (\<open>_acceptance\<close>,
  \<open>build_stop_acceptance\<close>) and \<open>maintenance_store.py\<close>. An acceptance is the complete picture, with
  the ownership record of every selected run, that was approved before anything is stopped. It is
  published as an immutable file first, then its digest enters the coordination domain as an
  intent. Here also the transaction in which every change of the domain happens.
\<close>

section \<open>Records\<close>

record acceptance =
  ac_domain :: string
  ac_physical :: physical
  ac_expected :: nat
  ac_batch :: batch
  ac_records :: "(string \<times> owner2) list"

definition acceptance_json :: "acceptance \<Rightarrow> json" where
  "acceptance_json a = JObj
     [(''batch'', batch_json (ac_batch a)), (''domain_id'', JStr (ac_domain a)),
      (''domain_physical'', physical_json (ac_physical a)), (''expected_revision'', jnat (ac_expected a)),
      (''kind'', JStr ''stop-acceptance''), (''protocol'', JStr ''rotom-maintenance-v1''),
      (''records'', table_json owner2_json (ac_records a)), (''schema_version'', JInt 1)]"

definition scope_binding :: "scope \<Rightarrow> registry_binding" where
  "scope_binding s = \<lparr>g_machine = sc_machine s, g_local = sc_local s, g_profile = (case sc_profile s of Some p \<Rightarrow> p | None \<Rightarrow> '''')\<rparr>"

definition deployed_digest :: "(string \<Rightarrow> string) \<Rightarrow> 'a metadata_scheme \<Rightarrow> string" where
  "deployed_digest sha r = digest sha (JObj [(''deployment'', JStr (me_deployment r)), (''runtime'', JStr (me_runtime r))])"

text \<open>The record of a run agrees with what the plan observed of it.\<close>

definition accepted_record :: "(string \<Rightarrow> string) \<Rightarrow> string \<Rightarrow> physical \<Rightarrow> run \<Rightarrow> owner2 \<Rightarrow> bool" where
  "accepted_record sha did phys u r \<longleftrightarrow>
     owner2_ok sha (scope_binding (u_scope u)) (u_id u @ ''.json'') r \<and> o_state r = Active \<and>
     Some (me_agent r) = sc_agent (u_scope u) \<and> Some (me_profile r) = sc_profile (u_scope u) \<and>
     me_machine r = sc_machine (u_scope u) \<and> me_local r = sc_local (u_scope u) \<and>
     owner_digest sha r = ob_record (u_observation u) \<and> deployed_digest sha r = u_deployment u \<and>
     ob_manager (u_observation u) = Some (o_manager r) \<and>
     (case o_host r of None \<Rightarrow> False | Some h \<Rightarrow> ob_host (u_observation u) = Some (ho_identity h)) \<and>
     (case me_coordination r of None \<Rightarrow> True | Some c \<Rightarrow> cd_domain c = did \<and> cd_physical c = phys)"

definition acceptance_ok :: "(string \<Rightarrow> string) \<Rightarrow> acceptance \<Rightarrow> batch \<Rightarrow> bool" where
  "acceptance_ok sha a b \<longleftrightarrow>
     (let p = b_plan b in
      is_hex 32 (ac_domain a) \<and> physical_ok (ac_physical a) \<and> ac_records a \<noteq> [] \<and> length (ac_records a) \<le> 1024 \<and>
      dict_ok (ac_records a) \<and> list_all (\<lambda>(run, r). is_hex 32 run) (ac_records a) \<and>
      ac_expected a \<le> 18446744073709551614 \<and> list_all (\<lambda>u. re_mode (u_restore u) = Manual) (p_runs p) \<and>
      b = initial_batch (b_id b) p \<and>
      (case p_resources p of [] \<Rightarrow> False | q # qs \<Rightarrow> ac_domain a = q_domain q \<and> ac_physical a = q_physical q) \<and>
      set (map fst (ac_records a)) = set (p_selected p) \<and>
      list_all (\<lambda>u. case map_of (ac_records a) (u_id u) of None \<Rightarrow> False
        | Some r \<Rightarrow> accepted_record sha (ac_domain a) (ac_physical a) u r) (p_runs p))"

definition acceptance_normalize :: "(string \<Rightarrow> string) \<Rightarrow> acceptance \<Rightarrow> invalid + acceptance" where
  "acceptance_normalize sha a =
     bindE (batch_normalize sha (ac_batch a)) (\<lambda>b.
       if shape_ok (acceptance_json a) \<and> dump_ok (acceptance_json a) \<and> acceptance_ok sha a b
       then Inr (a\<lparr>ac_batch := b\<rparr>) else Inl Invalid)"

text \<open>\<open>encode_stop_acceptance\<close> then \<open>decode_stop_acceptance\<close>.\<close>

definition acceptance_cycle :: "(string \<Rightarrow> string) \<Rightarrow> acceptance \<Rightarrow> invalid + acceptance" where
  "acceptance_cycle sha a =
     bindE (acceptance_normalize sha a) (\<lambda>v.
       if dump_ok (acceptance_json v) then acceptance_normalize sha v else Inl Invalid)"

definition supplied_acceptance_json :: "string \<Rightarrow> plan \<Rightarrow> (string \<times> owner2) list \<Rightarrow> nat \<Rightarrow> json" where
  "supplied_acceptance_json bid p records expected = JObj
     [(''batch_id'', JStr bid), (''expected_revision'', jnat expected), (''plan'', plan_json p),
      (''records'', table_json owner2_json records)]"

definition build_acceptance ::
  "(string \<Rightarrow> string) \<Rightarrow> string \<Rightarrow> plan \<Rightarrow> (string \<times> owner2) list \<Rightarrow> nat \<Rightarrow> invalid + acceptance" where
  "build_acceptance sha bid p records expected =
     (let s = supplied_acceptance_json bid p records expected in
      bindE (ensure (shape_ok s \<and> dump_ok s) Invalid) (\<lambda>_.
      bindE (plan_normalize sha True p) (\<lambda>n.
      case p_resources n of [] \<Rightarrow> Inl Invalid
      | q # qs \<Rightarrow> acceptance_normalize sha
          \<lparr>ac_domain = q_domain q, ac_physical = q_physical q, ac_expected = expected,
           ac_batch = initial_batch bid n, ac_records = records\<rparr>)))"

section \<open>Links\<close>

text \<open>\<open>_runtime_digest\<close>: the one runtime of a reservation, as deployments name it.\<close>

definition runtimes_of :: "domain \<Rightarrow> string list \<Rightarrow> shared_resource list" where
  "runtimes_of s rids =
     concat (map (\<lambda>rid. case map_of (dm_resources s) rid of None \<Rightarrow> []
       | Some q \<Rightarrow> if k_kind (sh_key q) = Runtime then [q] else []) rids)"

definition runtime_digest :: "(string \<Rightarrow> string) \<Rightarrow> domain \<Rightarrow> reservation \<Rightarrow> string option" where
  "runtime_digest sha s r =
     (case runtimes_of s (rv_resources r) of
        [q] \<Rightarrow> (case sh_place q of
            Runtime_Place c i \<Rightarrow> Some (if is_hex 64 i then i else sha (utf8 i))
          | Scope_Place _ _ _ \<Rightarrow> None)
      | _ \<Rightarrow> None)"

text \<open>\<open>_coordination\<close>: the reference an owner record carries back to its reservation.\<close>

definition link_digest_json :: "domain \<Rightarrow> reservation \<Rightarrow> link_evidence \<Rightarrow> json" where
  "link_digest_json s r e = JObj
     ([(''domain_id'', JStr (dm_id s)), (''domain_physical'', physical_json (dm_physical s)),
       (''evidence'', JObj (evidence_entries e))] @ given ''generation'' jnat (rv_generation r) @
      [(''op_id'', JStr (rv_op r)), (''owner_ref'', owner_ref_json (rv_owner r)),
       (''resources'', jtexts (rv_resources r)), (''run_id'', JStr (rv_run r))])"

definition coordination_of :: "(string \<Rightarrow> string) \<Rightarrow> domain \<Rightarrow> reservation \<Rightarrow> link_evidence \<Rightarrow> coordination" where
  "coordination_of sha s r e = \<lparr>cd_domain = dm_id s, cd_physical = dm_physical s, cd_op = rv_op r,
     cd_link = digest sha (link_digest_json s r e)\<rparr>"

section \<open>An acceptance against the domain\<close>

definition references_now :: "domain \<Rightarrow> string \<Rightarrow> string list" where
  "references_now s rid =
     sort (map fst (filter (\<lambda>(run, r). rid \<in> set (rv_resources r) \<and> \<not> over (rv_phase r)) (dm_reservations s)))"

definition resource_current :: "domain \<Rightarrow> nat \<Rightarrow> resource \<Rightarrow> bool" where
  "resource_current s expected q \<longleftrightarrow>
     (case map_of (dm_resources s) (q_id q) of None \<Rightarrow> False | Some d \<Rightarrow> q_key q = sh_key d) \<and>
     q_generation q = expected \<and> q_runs q = references_now s (q_id q) \<and>
     list_all (\<lambda>run. case map_of (dm_reservations s) run of None \<Rightarrow> False | Some r \<Rightarrow> rv_link r \<noteq> None) (references_now s (q_id q))"

definition linked_place :: "domain \<Rightarrow> reservation \<Rightarrow> resource_kind \<Rightarrow> path_ref \<Rightarrow> bool" where
  "linked_place s r k p \<longleftrightarrow>
     (case concat (map (\<lambda>rid. case map_of (dm_resources s) rid of None \<Rightarrow> []
        | Some q \<Rightarrow> if k_kind (sh_key q) = k then [q] else []) (rv_resources r)) of
        [q] \<Rightarrow> sh_key q = pr_key p \<and> (case sh_place q of Scope_Place path _ _ \<Rightarrow> path = pr_path p | Runtime_Place _ _ \<Rightarrow> False)
      | _ \<Rightarrow> False)"

definition run_current :: "(string \<Rightarrow> string) \<Rightarrow> domain \<Rightarrow> run \<Rightarrow> owner2 \<Rightarrow> bool" where
  "run_current sha s u r \<longleftrightarrow>
     (case map_of (dm_reservations s) (u_id u) of
        None \<Rightarrow> False
      | Some v \<Rightarrow>
          (case rv_link v of
             None \<Rightarrow> False
           | Some l \<Rightarrow>
               me_agent r = Omp_Agent \<and> me_backend r = ''managed'' \<and> rv_resources v = u_resources u \<and>
               wr_binding (rv_owner v) = \<lparr>g_machine = me_machine r, g_local = me_local r, g_profile = me_profile r\<rparr> \<and>
               ol_record l = ob_record (u_observation u) \<and>
               me_coordination r = Some (coordination_of sha s v (link_evidence.truncate l)) \<and>
               Some (me_runtime r) = runtime_digest sha s v \<and> me_home r = pr_path (ev_home l) \<and>
               linked_place s v Instance (ev_instance l) \<and> linked_place s v Native_Home (ev_home l)))"

text \<open>\<open>_snapshot_matches\<close>.\<close>

definition acceptance_current :: "(string \<Rightarrow> string) \<Rightarrow> domain \<Rightarrow> acceptance \<Rightarrow> bool" where
  "acceptance_current sha s a \<longleftrightarrow>
     (let p = b_plan (ac_batch a); rids = resource_ids (p_resources p) in
      ac_domain a = dm_id s \<and> ac_physical a = dm_physical s \<and> ready_resources s rids \<and>
      selection_ok s rids (p_selected p) (p_operation p) \<and>
      list_all (resource_current s (ac_expected a)) (p_resources p) \<and>
      list_all (\<lambda>u. case map_of (ac_records a) (u_id u) of None \<Rightarrow> False | Some r \<Rightarrow> run_current sha s u r) (p_runs p))"

section \<open>The store\<close>

text \<open>
  What the domain's directory holds: the state file, when it decodes, and the acceptance files
  with the digests of their texts. \<open>dc_root\<close> is the identity of the directory now at the path.
\<close>

record snapshot_file =
  sf_value :: "acceptance option"
  sf_mode :: nat
  sf_digest :: string

record cell =
  dc_root :: "physical option"
  dc_state :: "domain option"
  dc_mode :: nat
  dc_snapshots :: "(string \<times> snapshot_file) list"

type_synonym ('w, 'a) cio = "('w cell_scheme, invalid, 'a) io"

definition cell_settle :: "outcome \<Rightarrow> ('w cell_scheme \<Rightarrow> 'w cell_scheme) \<Rightarrow> ('w, unit) cio" where
  "cell_settle oc f c = (case oc of Done \<Rightarrow> (Inr (), f c) | Lost \<Rightarrow> (Inl Invalid, c) | Unacked \<Rightarrow> (Inl Invalid, f c))"

definition current_state :: "(string \<Rightarrow> string) \<Rightarrow> 'w cell_scheme \<Rightarrow> invalid + domain" where
  "current_state sha c =
     (case (dc_root c, dc_state c) of
        (Some phys, Some s) \<Rightarrow> if dc_mode c = 384 \<and> domain_ok sha s \<and> dm_physical s = phys then Inr s else Inl Invalid
      | _ \<Rightarrow> Inl Invalid)"

text \<open>
  \<open>Domain._transaction(write=True)\<close> under the exclusive lock: read and check, let \<open>change\<close> edit
  the state (and publish files), count the revision, encode and replace. A \<open>change\<close> that raises
  leaves the state file as it is.
\<close>

definition transact :: "(string \<Rightarrow> string) \<Rightarrow> outcome \<Rightarrow> (domain \<Rightarrow> ('w, 'a \<times> domain) cio) \<Rightarrow> ('w, 'a) cio" where
  "transact sha oc change =
     bindS (getS (current_state sha)) (\<lambda>s.
     bindS (change s) (\<lambda>xt.
     let t = (snd xt)\<lparr>dm_revision := dm_revision (snd xt) + 1\<rparr> in
     bindS (ensureS (domain_encodes sha t) Invalid) (\<lambda>_.
     bindS (cell_settle oc (\<lambda>c. c\<lparr>dc_state := Some t, dc_mode := 384\<rparr>)) (\<lambda>_. returnS (fst xt)))))"

definition inspect :: "(string \<Rightarrow> string) \<Rightarrow> (domain \<Rightarrow> 'w cell_scheme \<Rightarrow> invalid + 'a) \<Rightarrow> ('w, 'a) cio" where
  "inspect sha f = bindS (getS (current_state sha)) (\<lambda>s. getS (f s))"

text \<open>\<open>_read\<close>: the acceptance of a batch with its intent, if both are there and agree.\<close>

definition same_origin :: "batch \<Rightarrow> batch \<Rightarrow> bool" where
  "same_origin x b \<longleftrightarrow> b_id x = b_id b \<and> b_plan x = b_plan b \<and> b_operation x = b_operation b \<and> b_accepted x = b_accepted b"

definition saved_ok :: "(string \<Rightarrow> string) \<Rightarrow> domain \<Rightarrow> string \<Rightarrow> intent \<Rightarrow> acceptance \<Rightarrow> bool" where
  "saved_ok sha s bid i a \<longleftrightarrow>
     (let b = ac_batch a; p = b_plan b in
      b_id b = bid \<and> ac_domain a = dm_id s \<and> ac_physical a = dm_physical s \<and>
      it_generation i = ac_expected a + 1 \<and> it_generation i \<le> dm_revision s \<and>
      it_operation i = p_operation p \<and> it_runs i = p_selected p \<and>
      it_resources i = sort (resource_ids (p_resources p)) \<and>
      (case it_progress i of None \<Rightarrow> True
       | Some x \<Rightarrow> (case batch_cycle sha x of Inl e \<Rightarrow> False | Inr y \<Rightarrow> same_origin y b)))"

definition read_saved :: "(string \<Rightarrow> string) \<Rightarrow> domain \<Rightarrow> string \<Rightarrow> 'w cell_scheme \<Rightarrow> invalid + (acceptance \<times> intent) option" where
  "read_saved sha s bid c =
     (if \<not> is_hex 32 bid \<or> dc_root c \<noteq> Some (dm_physical s) then Inl Invalid
      else case (map_of (dc_snapshots c) bid, map_of (dm_intents s) bid) of
        (None, None) \<Rightarrow> Inr None
      | (Some f, Some i) \<Rightarrow>
          if sf_mode f = 384 \<and> it_digest i = Some (sf_digest f) then
            (case sf_value f of None \<Rightarrow> Inl Invalid
             | Some v \<Rightarrow> bindE (acceptance_normalize sha v) (\<lambda>a.
                 bindE (ensure (saved_ok sha s bid i a) Invalid) (\<lambda>_. Inr (Some (a, i)))))
          else Inl Invalid
      | _ \<Rightarrow> Inl Invalid)"

text \<open>\<open>_publish_snapshot\<close>: the file first, never over another; then the intent that names it.\<close>

definition accepted_intent :: "(string \<Rightarrow> string) \<Rightarrow> acceptance \<Rightarrow> intent" where
  "accepted_intent sha a =
     (let b = ac_batch a in
      \<lparr>it_batch = b_id b, it_generation = ac_expected a + 1, it_operation = b_operation b,
       it_resources = sort (resource_ids (p_resources (b_plan b))), it_runs = b_accepted b, it_phase = Intent_Active,
       it_digest = Some (digest sha (acceptance_json a)), it_progress = Some b\<rparr>)"

definition publish_snapshot :: "(string \<Rightarrow> string) \<Rightarrow> outcome \<Rightarrow> acceptance \<Rightarrow> domain \<Rightarrow> ('w, unit \<times> domain) cio" where
  "publish_snapshot sha oc a s =
     (let bid = b_id (ac_batch a) in
      bindS (getS (\<lambda>c. ensure (dc_root c = Some (dm_physical s) \<and> map_of (dc_snapshots c) bid = None) Invalid)) (\<lambda>_.
      bindS (cell_settle oc (\<lambda>c. c\<lparr>dc_snapshots :=
          dput bid \<lparr>sf_value = Some a, sf_mode = 384, sf_digest = digest sha (acceptance_json a)\<rparr> (dc_snapshots c)\<rparr>)) (\<lambda>_.
        returnS ((), s\<lparr>dm_intents := dput bid (accepted_intent sha a) (dm_intents s)\<rparr>))))"

definition acceptance_free :: "(string \<Rightarrow> string) \<Rightarrow> domain \<Rightarrow> acceptance \<Rightarrow> bool" where
  "acceptance_free sha s a \<longleftrightarrow>
     dm_revision s = ac_expected a \<and> map_of (dm_intents s) (b_id (ac_batch a)) = None \<and> acceptance_current sha s a \<and>
     unfenced s (resource_ids (p_resources (b_plan (ac_batch a))))"

text \<open>
  \<open>accept_stop_snapshot\<close>; \<open>live\<close> stands for the checks a live acceptance makes in the same
  transaction (held owner locks, the reviewed approval it consumes).
\<close>

definition accept_snapshot :: "(string \<Rightarrow> string) \<Rightarrow> outcome \<Rightarrow> outcome \<Rightarrow> (domain \<Rightarrow> acceptance \<Rightarrow> bool) \<Rightarrow> acceptance \<Rightarrow> ('w, unit) cio" where
  "accept_snapshot sha oc1 oc2 live v =
     bindS (liftS (acceptance_cycle sha v)) (\<lambda>a.
       transact sha oc2 (\<lambda>s.
         bindS (ensureS (acceptance_free sha s a \<and> live s a) Invalid) (\<lambda>_. publish_snapshot sha oc1 a s)))"

definition read_stop_snapshot :: "(string \<Rightarrow> string) \<Rightarrow> string \<Rightarrow> ('w, (acceptance \<times> intent) option) cio" where
  "read_stop_snapshot sha bid = inspect sha (\<lambda>s c. read_saved sha s bid c)"

text \<open>\<open>check_stop_snapshot_for_dispatch\<close>: an old intent without acceptance passes.\<close>

definition dispatchable :: "(string \<Rightarrow> string) \<Rightarrow> domain \<Rightarrow> intent \<Rightarrow> 'w cell_scheme \<Rightarrow> invalid + unit" where
  "dispatchable sha s i c =
     (if dc_root c \<noteq> Some (dm_physical s) then Inl Invalid
      else if map_of (dc_snapshots c) (it_batch i) = None \<and> it_digest i = None then Inr ()
      else bindE (read_saved sha s (it_batch i) c) (\<lambda>r. case r of None \<Rightarrow> Inl Invalid
        | Some (a, _) \<Rightarrow> ensure (acceptance_current sha s a) Invalid))"

end
