(* ===== verification/Domain_Operations.thy ===== *)
theory Domain_Operations
  imports Stop_Acceptance
begin

text \<open>
  The operations of \<open>resource_coordination.Domain\<close> on reservations and intents, and what each of
  them promises: tables only grow, entries keep what they are about, phases follow their tables,
  and no run can be starting on a resource that a maintenance intent has fenced. The contract is
  the locale \<open>domain_writer\<close>; the file each operation is proved in interprets it.
\<close>

section \<open>Phases\<close>

fun reservation_next :: "reservation_phase \<Rightarrow> reservation_phase list" where
  "reservation_next Reserved = [Owner_Pending, Sent, Unclear, Withdrawn]"
| "reservation_next Owner_Pending = [Owner_Attached, Unclear]"
| "reservation_next Owner_Attached = [Sent, Unclear]"
| "reservation_next Sent = [Release_Pending, Unclear]"
| "reservation_next Release_Pending = [Released, Unclear]"
| "reservation_next Unclear = []"
| "reservation_next Withdrawn = []"
| "reservation_next Released = []"

fun reservation_rank :: "reservation_phase \<Rightarrow> nat" where
  "reservation_rank Reserved = 0"
| "reservation_rank Owner_Pending = 1"
| "reservation_rank Owner_Attached = 2"
| "reservation_rank Sent = 3"
| "reservation_rank Release_Pending = 4"
| "reservation_rank _ = 5"

interpretation reservation_phases: phase_machine reservation_next reservation_rank
  by unfold_locales (rename_tac q p, case_tac p, auto)

fun intent_next :: "intent_phase \<Rightarrow> intent_phase list" where
  "intent_next Intent_Active = [Intent_Dispatched, Intent_Unknown, Intent_Cancelled, Intent_Completed]"
| "intent_next Intent_Dispatched = [Intent_Unknown, Intent_Completed]"
| "intent_next _ = []"

fun intent_rank :: "intent_phase \<Rightarrow> nat" where
  "intent_rank Intent_Active = 0"
| "intent_rank Intent_Dispatched = 1"
| "intent_rank _ = 2"

interpretation intent_phases: phase_machine intent_next intent_rank
  by unfold_locales (rename_tac q p, case_tac p, auto)

section \<open>The contract of a change\<close>

text \<open>What a reservation and an intent are about never changes.\<close>

definition reservation_evolves :: "reservation \<Rightarrow> reservation \<Rightarrow> bool" where
  "reservation_evolves r r' \<longleftrightarrow>
     rv_run r' = rv_run r \<and> rv_op r' = rv_op r \<and> rv_owner r' = rv_owner r \<and> rv_resources r' = rv_resources r \<and>
     rv_generation r' = rv_generation r \<and> reservation_phases.steps (rv_phase r) (rv_phase r')"

definition intent_evolves :: "intent \<Rightarrow> intent \<Rightarrow> bool" where
  "intent_evolves i i' \<longleftrightarrow>
     it_batch i' = it_batch i \<and> it_generation i' = it_generation i \<and> it_operation i' = it_operation i \<and>
     it_resources i' = it_resources i \<and> it_runs i' = it_runs i \<and> it_digest i' = it_digest i \<and>
     intent_phases.steps (it_phase i) (it_phase i')"

definition evolves :: "domain \<Rightarrow> domain \<Rightarrow> bool" where
  "evolves s t \<longleftrightarrow>
     dm_id t = dm_id s \<and> dm_physical t = dm_physical s \<and> dm_revision t = dm_revision s \<and>
     (\<forall>k q. map_of (dm_resources s) k = Some q \<longrightarrow> map_of (dm_resources t) k = Some q) \<and>
     (\<forall>k r. map_of (dm_reservations s) k = Some r \<longrightarrow>
        (\<exists>r'. map_of (dm_reservations t) k = Some r' \<and> reservation_evolves r r')) \<and>
     (\<forall>k i. map_of (dm_intents s) k = Some i \<longrightarrow> (\<exists>i'. map_of (dm_intents t) k = Some i' \<and> intent_evolves i i'))"

text \<open>
  \<open>fences\<close>: open intents hold disjoint resources, and no reservation on them is in a phase that
  comes before the start of its run.
\<close>

definition starting :: "reservation_phase \<Rightarrow> bool" where
  "starting p \<longleftrightarrow> p \<in> {Reserved, Owner_Pending, Owner_Attached}"

definition fences :: "domain \<Rightarrow> bool" where
  "fences s \<longleftrightarrow>
     (\<forall>b i c j. map_of (dm_intents s) b = Some i \<and> map_of (dm_intents s) c = Some j \<and> b \<noteq> c \<and>
        \<not> terminal_intent i \<and> \<not> terminal_intent j \<longrightarrow> set (it_resources i) \<inter> set (it_resources j) = {}) \<and>
     (\<forall>b i k r. map_of (dm_intents s) b = Some i \<and> \<not> terminal_intent i \<and> map_of (dm_reservations s) k = Some r \<and>
        starting (rv_phase r) \<longrightarrow> set (it_resources i) \<inter> set (rv_resources r) = {})"

lemma reservation_evolves_refl [simp]: "reservation_evolves r r"
  by (simp add: reservation_evolves_def reservation_phases.steps_def)

lemma intent_evolves_refl [simp]: "intent_evolves i i"
  by (simp add: intent_evolves_def intent_phases.steps_def)

lemma evolves_refl [simp]: "evolves s s"
  by (auto simp: evolves_def)

lemma fences_revision [simp]: "fences (s\<lparr>dm_revision := n\<rparr>) = fences s"
  by (simp add: fences_def)

text \<open>The file in which the state lives stays as it is until the transaction replaces it.\<close>

definition same_file :: "'w cell_scheme \<Rightarrow> 'w cell_scheme \<Rightarrow> bool" where
  "same_file c d \<longleftrightarrow> dc_root d = dc_root c \<and> dc_state d = dc_state c \<and> dc_mode d = dc_mode c"

lemma same_file_refl [simp]: "same_file c c"
  by (simp add: same_file_def)

text \<open>An acknowledged transaction, and what any transaction can have done.\<close>

definition counted :: "domain \<Rightarrow> domain" where
  "counted t = t\<lparr>dm_revision := dm_revision t + 1\<rparr>"

lemma transact_done:
  "transact sha oc change c = (Inr x, d) \<longleftrightarrow> oc = Done \<and>
     (\<exists>s t e. current_state sha c = Inr s \<and> change s c = (Inr (x, t), e) \<and> domain_encodes sha (counted t) \<and>
        d = e\<lparr>dc_state := Some (counted t), dc_mode := 384\<rparr>)"
  by (cases oc) (auto simp: transact_def Let_def result_simps cell_settle_def counted_def)

lemma current_state_iff:
  "current_state sha c = Inr s \<longleftrightarrow>
     dc_state c = Some s \<and> dc_mode c = 384 \<and> domain_ok sha s \<and> dc_root c = Some (dm_physical s)"
  by (auto simp: current_state_def split: option.splits if_splits)

lemma transact_cases:
  assumes "transact sha oc change c = (r, d)"
  shows "d = c \<or> (\<exists>s. current_state sha c = Inr s \<and> ((\<exists>e. change s c = (Inl e, d)) \<or>
    (\<exists>x t e. change s c = (Inr (x, t), e) \<and>
       (d = e \<or> domain_encodes sha (counted t) \<and> d = e\<lparr>dc_state := Some (counted t), dc_mode := 384\<rparr>))))"
proof (cases "current_state sha c")
  case (Inl e)
  with assms show ?thesis by (auto simp: transact_def bindS_def getS_def)
next
  case (Inr s)
  obtain q e where ch: "change s c = (q, e)" by fastforce
  show ?thesis
  proof (cases q)
    case (Inl f)
    with assms Inr ch \<open>current_state sha c = Inr s\<close> show ?thesis by (auto simp: transact_def bindS_def getS_def)
  next
    case (Inr xt)
    obtain x t where xt: "xt = (x, t)" by fastforce
    have "d = e \<or> domain_encodes sha (counted t) \<and> d = e\<lparr>dc_state := Some (counted t), dc_mode := 384\<rparr>"
      using assms ch Inr xt \<open>current_state sha c = Inr s\<close>
      by (cases oc) (auto simp: transact_def Let_def bindS_def getS_def ensureS_def ensure_def cell_settle_def returnS_def counted_def
          split: if_splits)
    with ch Inr xt \<open>current_state sha c = Inr s\<close> show ?thesis by auto
  qed
qed

text \<open>Whatever holds between the states before and after every change holds across the transaction.\<close>

lemma transact_related:
  assumes "transact sha oc change c = (r, d)"
    and "\<And>s q e. change s c = (q, e) \<Longrightarrow> same_file c e"
    and "\<And>s x t e. domain_ok sha s \<Longrightarrow> change s c = (Inr (x, t), e) \<Longrightarrow> R s t"
  shows "same_file c d \<or> (\<exists>s t. dc_state c = Some s \<and> domain_ok sha s \<and> R s t \<and> dc_state d = Some (counted t) \<and>
    dc_mode d = 384 \<and> dc_root d = dc_root c \<and> domain_encodes sha (counted t))"
  using transact_cases [OF assms(1)]
proof (elim disjE exE conjE)
  fix s x t e
  assume s: "current_state sha c = Inr s" and ch: "change s c = (Inr (x, t), e)" and en: "domain_encodes sha (counted t)"
    and d: "d = e\<lparr>dc_state := Some (counted t), dc_mode := 384\<rparr>"
  from s have "dc_state c = Some s" "domain_ok sha s" by (simp_all add: current_state_iff)
  with assms(3) [OF _ ch] assms(2) [OF ch] d en show ?thesis by (auto simp: same_file_def)
qed (use assms(2) in auto)

text \<open>Changes are made to states that were read, that is checked.\<close>

locale domain_writer =
  fixes sha :: "string \<Rightarrow> string"
    and change :: "domain \<Rightarrow> ('w, 'a \<times> domain) cio"
  assumes leaves_file: "change s c = (r, d) \<Longrightarrow> same_file c d"
    and change_evolves: "domain_ok sha s \<Longrightarrow> change s c = (Inr (x, t), d) \<Longrightarrow> evolves s t"
    and change_fences: "domain_ok sha s \<Longrightarrow> fences s \<Longrightarrow> change s c = (Inr (x, t), d) \<Longrightarrow> fences t"
begin

lemma transact_result:
  assumes "transact sha oc change c = (r, d)"
  shows "same_file c d \<or> (\<exists>s t. dc_state c = Some s \<and> domain_ok sha s \<and> (evolves s t \<and> (fences s \<longrightarrow> fences t)) \<and>
    dc_state d = Some (counted t) \<and> dc_mode d = 384 \<and> dc_root d = dc_root c \<and> domain_encodes sha (counted t))"
  using assms by (rule transact_related) (auto intro: leaves_file change_evolves change_fences)

lemma transact_ack:
  assumes "transact sha oc change c = (Inr x, d)"
  shows "\<exists>s t e. dc_state c = Some s \<and> change s c = (Inr (x, t), e) \<and> dc_state d = Some (counted t) \<and> dm_revision t = dm_revision s"
  using assms change_evolves by (auto simp: transact_done current_state_iff evolves_def)

end

section \<open>Edits of one entry\<close>

definition put_reservation :: "string \<Rightarrow> reservation \<Rightarrow> domain \<Rightarrow> domain" where
  "put_reservation k r s = s\<lparr>dm_reservations := dput k r (dm_reservations s)\<rparr>"

definition put_intent :: "string \<Rightarrow> intent \<Rightarrow> domain \<Rightarrow> domain" where
  "put_intent k i s = s\<lparr>dm_intents := dput k i (dm_intents s)\<rparr>"

lemma put_reservation_evolves:
  assumes "\<And>r. map_of (dm_reservations s) k = Some r \<Longrightarrow> reservation_evolves r r'"
  shows "evolves s (put_reservation k r' s)"
  using assms by (auto simp: evolves_def put_reservation_def)

lemma put_intent_evolves:
  assumes "\<And>i. map_of (dm_intents s) k = Some i \<Longrightarrow> intent_evolves i i'"
  shows "evolves s (put_intent k i' s)"
  using assms by (auto simp: evolves_def put_intent_def)

text \<open>A new or moved reservation respects the fences if it is not starting or nothing is fenced.\<close>

lemma unfenced_iff:
  "dict_ok (dm_intents s) \<Longrightarrow> unfenced s rids \<longleftrightarrow>
     (\<forall>b i. map_of (dm_intents s) b = Some i \<and> \<not> terminal_intent i \<longrightarrow> set rids \<inter> set (it_resources i) = {})"
proof -
  assume d: "dict_ok (dm_intents s)"
  have "unfenced s rids \<longleftrightarrow>
      (\<forall>b i. (b, i) \<in> set (dm_intents s) \<longrightarrow> set rids \<inter> set (it_resources i) \<noteq> {} \<longrightarrow> terminal_intent i)"
    by (auto simp: unfenced_def list_all_iff overlaps_iff)
  with d show ?thesis by (simp add: dict_in_iff) blast
qed

lemma put_reservation_fences:
  assumes "fences s" "dict_ok (dm_intents s)" "starting (rv_phase r) \<Longrightarrow> unfenced s (rv_resources r)"
  shows "fences (put_reservation k r s)"
  using assms unfolding unfenced_iff [OF assms(2)] fences_def put_reservation_def
  by (auto simp: Int_commute split: if_splits) (metis disjoint_iff)+

lemma put_intent_same_fences:
  assumes "fences s" "map_of (dm_intents s) k = Some i" "it_resources i' = it_resources i"
    and "terminal_intent i \<Longrightarrow> terminal_intent i'"
  shows "fences (put_intent k i' s)"
  using assms unfolding fences_def put_intent_def by (auto split: if_splits) blast+

lemma put_intent_new_fences:
  assumes "fences s" "dict_ok (dm_intents s)" "unfenced s (it_resources i)"
    and "\<And>run r. map_of (dm_reservations s) run = Some r \<Longrightarrow> set (it_resources i) \<inter> set (rv_resources r) \<noteq> {} \<Longrightarrow> \<not> starting (rv_phase r)"
  shows "fences (put_intent k i s)"
  using assms unfolding unfenced_iff [OF assms(2)] fences_def put_intent_def
  by (auto split: if_splits) blast+

lemma selection_not_starting:
  assumes "dict_ok (dm_reservations s)" "selection_ok s rids sel op"
    and "map_of (dm_reservations s) run = Some r" "set rids \<inter> set (rv_resources r) \<noteq> {}"
  shows "\<not> starting (rv_phase r)"
proof (cases "over (rv_phase r)")
  case True
  then show ?thesis by (auto simp: over_def starting_def)
next
  case False
  then have "(run, r) \<in> set (live_reservations s rids)"
    using assms(1,3,4) by (simp add: live_reservations_def overlaps_iff dict_in_iff)
  then show ?thesis using assms(2) by (auto simp: selection_ok_def Let_def list_all_iff starting_def)
qed

lemma domain_ok_dicts:
  "domain_ok sha s \<Longrightarrow> dict_ok (dm_intents s)" "domain_ok sha s \<Longrightarrow> dict_ok (dm_reservations s)" "domain_ok sha s \<Longrightarrow> dict_ok (dm_resources s)"
  by (simp_all add: domain_ok_def)

section \<open>Operations\<close>

definition free_reservation :: "domain \<Rightarrow> string \<Rightarrow> string \<Rightarrow> string list \<Rightarrow> nat option \<Rightarrow> bool" where
  "free_reservation s run op rids expected \<longleftrightarrow>
     (case expected of None \<Rightarrow> True | Some n \<Rightarrow> n = dm_revision s) \<and> ready_resources s rids \<and> unfenced s rids \<and>
     map_of (dm_reservations s) run = None \<and> list_all (\<lambda>(k, r). rv_op r \<noteq> op) (dm_reservations s)"

definition new_reservation :: "domain \<Rightarrow> string \<Rightarrow> string \<Rightarrow> owner_ref \<Rightarrow> string list \<Rightarrow> reservation" where
  "new_reservation s run op w rids = \<lparr>rv_run = run, rv_op = op, rv_owner = w, rv_resources = sort rids, rv_phase = Reserved,
     rv_generation = Some (dm_revision s + 1), rv_link = None, rv_receipt = None\<rparr>"

definition reserve_change ::
  "string \<Rightarrow> string \<Rightarrow> owner_ref \<Rightarrow> string list \<Rightarrow> nat option \<Rightarrow> domain \<Rightarrow> ('w, reservation \<times> domain) cio" where
  "reserve_change run op w rids expected s =
     bindS (ensureS (free_reservation s run op rids expected) Invalid) (\<lambda>_.
       returnS (new_reservation s run op w rids, put_reservation run (new_reservation s run op w rids) s))"

text \<open>
  What is read of a runtime lease: its physical key before and after, the anchor in the locked
  lease file and the anchor in the independent claim; \<open>None\<close> where the read fails.
\<close>

record anchor =
  an_domain :: string
  an_physical :: physical
  an_resource :: string
  an_key :: resource_key

record lease_view =
  lv_key :: "resource_key option"
  lv_anchor :: "anchor option"
  lv_claim :: "anchor option"
  lv_key_after :: "resource_key option"

definition runtime_of :: "domain \<Rightarrow> string \<Rightarrow> string \<Rightarrow> lease_view \<Rightarrow> string option" where
  "runtime_of s cache ident v =
     (case (lv_key v, lv_anchor v) of
        (Some k, Some a) \<Rightarrow>
          if an_key a = k \<and> an_domain a = dm_id s \<and> an_physical a = dm_physical s \<and>
             (case map_of (dm_resources s) (an_resource a) of None \<Rightarrow> False
              | Some q \<Rightarrow> sh_status q = Ready \<and> sh_key q = k \<and> sh_place q = Runtime_Place cache ident) \<and>
             lv_claim v = Some a \<and> lv_key_after v = Some k
          then Some (an_resource a) else None
      | _ \<Rightarrow> None)"

definition lease_matches :: "domain \<Rightarrow> string \<times> lease_view \<Rightarrow> bool" where
  "lease_matches s e =
     (case map_of (dm_resources s) (fst e) of None \<Rightarrow> False
      | Some q \<Rightarrow> (case sh_place q of Runtime_Place c i \<Rightarrow> runtime_of s c i (snd e) = Some (fst e) | Scope_Place _ _ _ \<Rightarrow> False))"

definition check_runtime :: "(string \<Rightarrow> string) \<Rightarrow> string \<Rightarrow> string \<Rightarrow> lease_view \<Rightarrow> bool \<Rightarrow> ('w, string) cio" where
  "check_runtime sha cache ident v idle = inspect sha (\<lambda>s c. case runtime_of s cache ident v of None \<Rightarrow> Inl Invalid
     | Some rid \<Rightarrow> if idle \<and> \<not> domain_idle s [rid] then Inl Invalid else Inr rid)"

definition with_reservation :: "domain \<Rightarrow> string \<Rightarrow> (reservation \<Rightarrow> bool) \<Rightarrow> (reservation \<Rightarrow> reservation) \<Rightarrow> ('w, unit \<times> domain) cio" where
  "with_reservation s run guard f =
     (case map_of (dm_reservations s) run of
        None \<Rightarrow> raiseS Invalid
      | Some r \<Rightarrow> bindS (ensureS (guard r) Invalid) (\<lambda>_. returnS ((), put_reservation run (f r) s)))"

definition dispatch_change :: "string \<Rightarrow> (string \<times> lease_view) list \<Rightarrow> domain \<Rightarrow> ('w, unit \<times> domain) cio" where
  "dispatch_change run leases s = with_reservation s run
     (\<lambda>r. ready_resources s (rv_resources r) \<and> rv_phase r = Reserved \<and> set (map fst leases) = set (rv_resources r) \<and>
        unfenced s (rv_resources r) \<and> list_all (lease_matches s) leases)
     (\<lambda>r. r\<lparr>rv_phase := Sent\<rparr>)"

definition cancel_change :: "string \<Rightarrow> domain \<Rightarrow> ('w, unit \<times> domain) cio" where
  "cancel_change run s = with_reservation s run (\<lambda>r. rv_phase r = Reserved) (\<lambda>r. r\<lparr>rv_phase := Withdrawn\<rparr>)"

definition unclear_change :: "string \<Rightarrow> domain \<Rightarrow> ('w, unit \<times> domain) cio" where
  "unclear_change run s = with_reservation s run
     (\<lambda>r. rv_phase r \<in> {Reserved, Owner_Pending, Owner_Attached, Sent, Release_Pending, Unclear}) (\<lambda>r. r\<lparr>rv_phase := Unclear\<rparr>)"

definition accept_change ::
  "string \<Rightarrow> nat \<Rightarrow> operation \<Rightarrow> nat \<Rightarrow> string list \<Rightarrow> string list \<Rightarrow> domain \<Rightarrow> ('w, unit \<times> domain) cio" where
  "accept_change bid gen op expected rids selected s =
     bindS (ensureS (ready_resources s rids \<and> unfenced s rids \<and> dm_revision s = expected \<and>
       map_of (dm_intents s) bid = None \<and> distinct selected \<and> selection_ok s rids selected op) Invalid) (\<lambda>_.
     returnS ((), put_intent bid \<lparr>it_batch = bid, it_generation = gen, it_operation = op, it_resources = sort rids,
       it_runs = sort selected, it_phase = Intent_Active, it_digest = None, it_progress = None\<rparr> s))"

definition dispatch_intent_change :: "(string \<Rightarrow> string) \<Rightarrow> string \<Rightarrow> domain \<Rightarrow> ('w, unit \<times> domain) cio" where
  "dispatch_intent_change sha bid s =
     (case map_of (dm_intents s) bid of
        None \<Rightarrow> raiseS Invalid
      | Some i \<Rightarrow>
          bindS (ensureS (ready_resources s (it_resources i) \<and> it_phase i = Intent_Active) Invalid) (\<lambda>_.
          bindS (getS (dispatchable sha s i)) (\<lambda>_.
          bindS (ensureS (selection_ok s (it_resources i) (it_runs i) (it_operation i)) Invalid) (\<lambda>_.
          returnS ((), put_intent bid (i\<lparr>it_phase := Intent_Dispatched\<rparr>) s)))))"

text \<open>\<open>_transition\<close> of an intent: its saved acceptance must still be there when it has progress.\<close>

definition move_intent ::
  "(string \<Rightarrow> string) \<Rightarrow> string \<Rightarrow> intent_phase list \<Rightarrow> intent_phase \<Rightarrow> domain \<Rightarrow> ('w, unit \<times> domain) cio" where
  "move_intent sha bid allowed phase s =
     (case map_of (dm_intents s) bid of
        None \<Rightarrow> raiseS Invalid
      | Some i \<Rightarrow>
          bindS (ensureS (it_phase i \<in> set allowed) Invalid) (\<lambda>_.
          case it_progress i of
            None \<Rightarrow> returnS ((), put_intent bid (i\<lparr>it_phase := phase\<rparr>) s)
          | Some b \<Rightarrow>
              bindS (getS (\<lambda>c. read_saved sha s bid c)) (\<lambda>_.
              bindS (ensureS (phase = Intent_Cancelled \<longrightarrow> b = initial_batch bid (b_plan b)) Invalid) (\<lambda>_.
              returnS ((), put_intent bid (i\<lparr>it_phase := phase, it_progress := Some
                (if phase = Intent_Unknown then b\<lparr>b_revision := b_revision b + 1, b_phase := Batch_Unknown, b_review := True\<rparr>
                 else b)\<rparr>) s)))))"

definition unknown_intent_change :: "(string \<Rightarrow> string) \<Rightarrow> string \<Rightarrow> domain \<Rightarrow> ('w, unit \<times> domain) cio" where
  "unknown_intent_change sha bid = move_intent sha bid [Intent_Active, Intent_Dispatched, Intent_Unknown] Intent_Unknown"

definition cancel_intent_change :: "(string \<Rightarrow> string) \<Rightarrow> string \<Rightarrow> domain \<Rightarrow> ('w, unit \<times> domain) cio" where
  "cancel_intent_change sha bid = move_intent sha bid [Intent_Active] Intent_Cancelled"

text \<open>
  \<open>initialize_domain\<close>: a new domain only in an empty directory, an existing one is only checked.
  \<open>entries\<close> counts what else the directory holds.
\<close>

definition initialize_domain :: "(string \<Rightarrow> string) \<Rightarrow> outcome \<Rightarrow> string \<Rightarrow> physical \<Rightarrow> nat \<Rightarrow> ('w, unit) cio" where
  "initialize_domain sha oc did phys entries c =
     (let c' = c\<lparr>dc_root := Some (case dc_root c of None \<Rightarrow> phys | Some p \<Rightarrow> p)\<rparr>;
          s = \<lparr>dm_id = did, dm_physical = the (dc_root c'), dm_revision = 0, dm_resources = [], dm_reservations = [], dm_intents = []\<rparr> in
      case dc_state c of
        Some t \<Rightarrow> if current_state sha c' = Inr t then (Inr (), c') else (Inl Invalid, c')
      | None \<Rightarrow> if dc_mode c = 0 \<and> dc_snapshots c = [] \<and> entries = 0 \<and> domain_encodes sha s
                then cell_settle oc (\<lambda>d. d\<lparr>dc_state := Some s, dc_mode := 384\<rparr>) c'
                else (Inl Invalid, c'))"

section \<open>The operations keep the contract\<close>

lemma pure_change:
  "bindS (ensureS b Invalid) (\<lambda>_. returnS y) c = (r, d) \<Longrightarrow> d = c \<and> (r = Inr y \<and> b \<or> r = Inl Invalid)"
  by (auto simp: bindS_def ensureS_def ensure_def returnS_def split: if_splits)

lemma with_reservation_result:
  assumes "with_reservation s run guard f c = (r, d)"
  shows "d = c \<and> (r = Inl Invalid \<or> (\<exists>v. map_of (dm_reservations s) run = Some v \<and> guard v \<and> r = Inr ((), put_reservation run (f v) s)))"
  using assms by (auto simp: with_reservation_def raiseS_eq split: option.splits dest: pure_change)

text \<open>Changes of one reservation: the guard implies a step of the table, and fences respected.\<close>

lemma reservation_writer:
  assumes "\<And>s v. guard s v \<Longrightarrow> reservation_evolves v (f v)"
    and "\<And>s v. guard s v \<Longrightarrow> starting (rv_phase (f v)) \<Longrightarrow> unfenced s (rv_resources (f v))"
  shows "domain_writer sha (\<lambda>s. with_reservation s run (guard s) f)"
proof
  fix s c r d x t
  show "same_file c d" if "with_reservation s run (guard s) f c = (r, d)"
    using with_reservation_result [OF that] by simp
  assume ok: "domain_ok sha s" and w: "with_reservation s run (guard s) f c = (Inr (x, t), d)"
  then obtain v where v: "map_of (dm_reservations s) run = Some v" "guard s v" "t = put_reservation run (f v) s"
    using with_reservation_result [OF w] by auto
  show "evolves s t" unfolding v(3) using v(1,2) assms(1) by (intro put_reservation_evolves) auto
  show "fences t" if "fences s"
    unfolding v(3) using v(2) assms(2) that domain_ok_dicts(1) [OF ok] by (intro put_reservation_fences) auto
qed

interpretation dispatch_writer: domain_writer sha "dispatch_change run leases" for sha run leases
  unfolding dispatch_change_def [abs_def]
  by (rule reservation_writer) (simp_all add: reservation_evolves_def reservation_phases.steps_def starting_def)

interpretation cancel_writer: domain_writer sha "cancel_change run" for sha run
  unfolding cancel_change_def [abs_def]
  by (rule reservation_writer) (simp_all add: reservation_evolves_def reservation_phases.steps_def starting_def)

interpretation unclear_writer: domain_writer sha "unclear_change run" for sha run
  unfolding unclear_change_def [abs_def]
  by (rule reservation_writer) (auto simp: reservation_evolves_def reservation_phases.steps_def starting_def)

lemma unfenced_sort: "unfenced s (sort rids) = unfenced s rids"
  by (simp add: unfenced_def overlaps_iff)

interpretation reserve_writer: domain_writer sha "reserve_change run op w rids expected" for sha run op w rids expected
proof
  fix s c r d x t
  show "same_file c d" if "reserve_change run op w rids expected s c = (r, d)"
    using that by (auto simp: reserve_change_def dest: pure_change)
  assume ok: "domain_ok sha s" and w: "reserve_change run op w rids expected s c = (Inr (x, t), d)"
  then have f: "free_reservation s run op rids expected" "t = put_reservation run (new_reservation s run op w rids) s"
    by (auto simp: reserve_change_def dest: pure_change)
  show "evolves s t" unfolding f(2) using f(1) by (intro put_reservation_evolves) (auto simp: free_reservation_def)
  show "fences t" if "fences s"
    unfolding f(2) using f(1) that domain_ok_dicts(1) [OF ok]
    by (intro put_reservation_fences) (simp_all add: free_reservation_def new_reservation_def unfenced_sort)
qed

text \<open>Changes of one intent that exists, and the birth of one.\<close>

lemma intent_step:
  assumes "domain_ok sha s" "map_of (dm_intents s) bid = Some i" "intent_evolves i j"
  shows "evolves s (put_intent bid j s)" "fences s \<Longrightarrow> fences (put_intent bid j s)"
proof -
  show "evolves s (put_intent bid j s)" using assms(2,3) by (intro put_intent_evolves) auto
  have "terminal_intent j" if "terminal_intent i"
    using assms(3) that by (auto simp: intent_evolves_def intent_phases.steps_def terminal_intent_def)
  then show "fences s \<Longrightarrow> fences (put_intent bid j s)"
    using assms(3) by (intro put_intent_same_fences [OF _ assms(2)]) (auto simp: intent_evolves_def)
qed

lemma intent_birth:
  assumes "domain_ok sha s" "map_of (dm_intents s) bid = None" "unfenced s (it_resources i)"
    and "selection_ok s (it_resources i) sel op"
  shows "evolves s (put_intent bid i s)" "fences s \<Longrightarrow> fences (put_intent bid i s)"
proof -
  show "evolves s (put_intent bid i s)" using assms(2) by (intro put_intent_evolves) simp
  show "fences s \<Longrightarrow> fences (put_intent bid i s)"
    using assms(3) domain_ok_dicts [OF assms(1)] selection_not_starting [OF _ assms(4)]
    by (intro put_intent_new_fences) auto
qed

lemma selection_sort: "selection_ok s (sort rids) sel op = selection_ok s rids sel op"
proof -
  have "live_reservations s (sort rids) = live_reservations s rids"
    by (simp add: live_reservations_def overlaps_iff)
  then show ?thesis by (simp add: selection_ok_def)
qed

interpretation accept_writer: domain_writer sha "accept_change bid gen op expected rids selected" for sha bid gen op expected rids selected
proof
  fix s c r d x t
  show "same_file c d" if "accept_change bid gen op expected rids selected s c = (r, d)"
    using that by (auto simp: accept_change_def dest: pure_change)
  let ?i = "\<lparr>it_batch = bid, it_generation = gen, it_operation = op, it_resources = sort rids,
       it_runs = sort selected, it_phase = Intent_Active, it_digest = None, it_progress = None\<rparr>"
  assume ok: "domain_ok sha s" and w: "accept_change bid gen op expected rids selected s c = (Inr (x, t), d)"
  then have f: "map_of (dm_intents s) bid = None" "unfenced s (it_resources ?i)" "selection_ok s (it_resources ?i) selected op"
    "t = put_intent bid ?i s"
    by (auto simp: accept_change_def unfenced_sort selection_sort dest: pure_change)
  note b = intent_birth [OF ok f(1,2,3)]
  show "evolves s t" unfolding f(4) by (rule b(1))
  show "fences t" if "fences s" unfolding f(4) using that by (rule b(2))
qed

lemma getS_same: "bindS (getS f) k c = (r, d) \<Longrightarrow> (\<exists>e. f c = Inl e \<and> r = Inl e \<and> d = c) \<or> (\<exists>x. f c = Inr x \<and> k x c = (r, d))"
  by (auto simp: bindS_def getS_def split: sum.splits)

lemma liftS_same: "bindS (liftS a) k c = (r, d) \<Longrightarrow> (\<exists>e. a = Inl e \<and> r = Inl e \<and> d = c) \<or> (\<exists>x. a = Inr x \<and> k x c = (r, d))"
  by (auto simp: bindS_def liftS_def split: sum.splits)

lemma ensureS_same: "bindS (ensureS b e) k c = (r, d) \<Longrightarrow> (\<not> b \<and> r = Inl e \<and> d = c) \<or> (b \<and> k () c = (r, d))"
  by (auto simp: bindS_def ensureS_def ensure_def split: if_splits)

interpretation dispatch_intent_writer: domain_writer sha "dispatch_intent_change sha bid" for sha bid
proof
  fix s c r d x t
  show "same_file c d" if "dispatch_intent_change sha bid s c = (r, d)"
    using that by (auto simp: dispatch_intent_change_def raiseS_eq returnS_eq split: option.splits dest!: getS_same ensureS_same)
  assume ok: "domain_ok sha s" and w: "dispatch_intent_change sha bid s c = (Inr (x, t), d)"
  then obtain i where i: "map_of (dm_intents s) bid = Some i" "it_phase i = Intent_Active"
    "t = put_intent bid (i\<lparr>it_phase := Intent_Dispatched\<rparr>) s"
    by (auto simp: dispatch_intent_change_def result_simps split: option.splits)
  have "intent_evolves i (i\<lparr>it_phase := Intent_Dispatched\<rparr>)"
    using i(2) by (simp add: intent_evolves_def intent_phases.steps_def)
  note st = intent_step [OF ok i(1) this]
  show "evolves s t" unfolding i(3) by (rule st(1))
  show "fences t" if "fences s" unfolding i(3) using that by (rule st(2))
qed

lemma move_intent_writer:
  assumes "\<And>p. p \<in> set allowed \<Longrightarrow> intent_phases.steps p phase"
  shows "domain_writer sha (move_intent sha bid allowed phase)"
proof
  fix s c r d x t
  show "same_file c d" if "move_intent sha bid allowed phase s c = (r, d)"
    using that by (auto simp: move_intent_def raiseS_eq returnS_eq split: option.splits dest!: getS_same ensureS_same)
  assume ok: "domain_ok sha s" and w: "move_intent sha bid allowed phase s c = (Inr (x, t), d)"
  then obtain i j where i: "map_of (dm_intents s) bid = Some i" "t = put_intent bid j s" and e: "intent_evolves i j"
    using assms by (auto simp: move_intent_def result_simps intent_evolves_def split: option.splits)
  note st = intent_step [OF ok i(1) e]
  show "evolves s t" unfolding i(2) by (rule st(1))
  show "fences t" if "fences s" unfolding i(2) using that by (rule st(2))
qed

interpretation unknown_intent_writer: domain_writer sha "unknown_intent_change sha bid" for sha bid
  unfolding unknown_intent_change_def by (rule move_intent_writer) (auto simp: intent_phases.steps_def)

interpretation cancel_intent_writer: domain_writer sha "cancel_intent_change sha bid" for sha bid
  unfolding cancel_intent_change_def by (rule move_intent_writer) (auto simp: intent_phases.steps_def)

section \<open>Changes that protect\<close>

text \<open>\<open>protects P m\<close>: \<open>m\<close> leaves the state as it is, or true of \<open>P\<close>.\<close>

definition protects :: "('s \<Rightarrow> bool) \<Rightarrow> ('s, 'e, 'a) io \<Rightarrow> bool" where
  "protects P m \<longleftrightarrow> (\<forall>c. snd (m c) = c \<or> P (snd (m c)))"

lemma protectsD: "protects P m \<Longrightarrow> snd (m c) = c \<or> P (snd (m c))"
  by (simp add: protects_def)

lemma protects_get: "(\<And>x. protects P (k x)) \<Longrightarrow> protects P (bindS (getS f) k)"
  by (auto simp: protects_def snd_get split: sum.split)

lemma protects_lift: "(\<And>x. protects P (k x)) \<Longrightarrow> protects P (bindS (liftS a) k)"
  by (cases a) (auto simp: protects_def snd_lift)

lemma protects_ensure: "(\<And>x. protects P (k x)) \<Longrightarrow> protects P (bindS (ensureS b e) k)"
  by (auto simp: protects_def snd_ensure)

lemmas protects_check = protects_get protects_lift protects_ensure

lemma protects_first:
  assumes "\<And>c. snd (m c) = c \<or> P (snd (m c))" "\<And>x. keeps P (k x)" "\<And>c e d. m c = (Inr e, d) \<Longrightarrow> P d"
  shows "protects P (bindS m k)"
  unfolding protects_def
proof
  fix c
  obtain r d where m: "m c = (r, d)" by fastforce
  show "snd (bindS m k c) = c \<or> P (snd (bindS m k c))"
  proof (cases r)
    case (Inl e)
    with m assms(1) [of c] show ?thesis by (simp add: snd_bindS)
  next
    case (Inr x)
    with m assms(3) [of c x d] keeps_at [OF assms(2)] show ?thesis by (simp add: snd_bindS)
  qed
qed

text \<open>A transaction changes nothing but the state file, apart from what its change writes.\<close>

lemma keeps_transact [preserved]:
  assumes "\<And>s. keeps P (change s)" "\<And>c t. P c \<Longrightarrow> P (c\<lparr>dc_state := Some t, dc_mode := 384\<rparr>)"
  shows "keeps P (transact sha oc change)"
proof -
  have "keeps P (cell_settle oc (\<lambda>c. c\<lparr>dc_state := Some t, dc_mode := 384\<rparr>))" for t
    using assms(2) by (cases oc) (auto simp: keeps_def cell_settle_def)
  then show ?thesis
    unfolding transact_def Let_def by (intro keeps_bindS preserved assms(1))
qed

end
