(* ===== verification/Scope_Claims.thy ===== *)
theory Scope_Claims
  imports Domain_Operations Path_Rules
begin

text \<open>
  The registration of resources in a coordination domain: a new native instance with its home
  (\<open>agentcfg/resource_scopes.py\<close>, with the identities of \<open>agentcfg/omp_identity.py\<close>) and a
  new runtime (\<open>enroll_runtime\<close> of \<open>agentcfg/resource_coordination.py\<close>). An independent claim is
  durable before the resource itself appears, so that a failed registration leaves a protection
  and never an unprotected resource.
\<close>

section \<open>Native identities\<close>

record workspace =
  ws_agent :: agent
  ws_profile :: string
  ws_binding :: registry_binding
  ws_instance :: string
  ws_state_root :: string
  ws_cache :: string
  ws_machine_root :: string

definition space_char :: "char \<Rightarrow> bool" where
  "space_char c \<longleftrightarrow> (9 \<le> code c \<and> code c \<le> 13) \<or> (28 \<le> code c \<and> code c \<le> 32) \<or> code c = 133 \<or> code c = 160"

definition native_allowed :: "string \<Rightarrow> bool" where
  "native_allowed profile \<longleftrightarrow>
     safe_id profile = Inr profile \<and> profile \<noteq> ''default'' \<and> \<not> space_char (hd profile) \<and> \<not> space_char (last profile)"

definition profile_hash :: "(string \<Rightarrow> string) \<Rightarrow> string \<Rightarrow> string" where
  "profile_hash sha profile = sha (utf8 profile)"

definition native_label :: "(string \<Rightarrow> string) \<Rightarrow> string \<Rightarrow> string" where
  "native_label sha profile = ''rotom-'' @ take 24 (profile_hash sha profile)"

definition native_home :: "string \<Rightarrow> string" where
  "native_home inst = inst @ ''/user-home''"

definition instance_lock :: "string \<Rightarrow> string" where
  "instance_lock inst = inst @ ''/.agentcfg-omp.lock''"

text \<open>\<open>ownership\<close>, without the nonce of the saved file.\<close>

definition ownership_json :: "(string \<Rightarrow> string) \<Rightarrow> workspace \<Rightarrow> json" where
  "ownership_json sha w =
     (let home = native_home (ws_instance w); name = native_label sha (ws_profile w) in
      JObj [(''identity'', JObj
        [(''agent_dir'', JStr (home @ ''/.omp/profiles/'' @ name @ ''/agent'')), (''home'', JStr home),
         (''instance_realpath'', JStr (ws_instance w)), (''layout_version'', JInt 1), (''native_name'', JStr name),
         (''profile_id'', JStr (ws_profile w)), (''profile_sha256'', JStr (profile_hash sha (ws_profile w))),
         (''xdg_cache'', JStr (home @ ''/.cache'')), (''xdg_config'', JStr (home @ ''/.config'')),
         (''xdg_data'', JStr (home @ ''/.local/share'')), (''xdg_state'', JStr (home @ ''/.local/state''))]),
       (''local_path'', JStr (g_local (ws_binding w))), (''machine_id'', JStr (g_machine (ws_binding w))),
       (''schema_version'', JInt 1), (''state_realpath'', JStr (ws_state_root w))])"

text \<open>A saved owner file: what its text decodes to besides the nonce, as a sorted object.\<close>

record owner_note =
  on_rest :: "json option"
  on_nonce :: "string option"
  on_mode :: nat
  on_digest :: string

definition saved_owner_ok :: "(string \<Rightarrow> string) \<Rightarrow> workspace \<Rightarrow> owner_note \<Rightarrow> bool" where
  "saved_owner_ok sha w f \<longleftrightarrow>
     on_mode f = 384 \<and> on_rest f = Some (ownership_json sha w) \<and>
     (case on_nonce f of None \<Rightarrow> False | Some x \<Rightarrow> length x = 32)"

definition new_owner :: "(string \<Rightarrow> string) \<Rightarrow> workspace \<Rightarrow> string \<Rightarrow> owner_note" where
  "new_owner sha w nonce = \<lparr>on_rest = Some (ownership_json sha w), on_nonce = Some nonce, on_mode = 384,
     on_digest = digest sha (case ownership_json sha w of
       JObj es \<Rightarrow> JObj (dput ''owner_nonce'' (JStr nonce) es) | j \<Rightarrow> j)\<rparr>"

definition owner_ref_of :: "workspace \<Rightarrow> owner_ref option" where
  "owner_ref_of w =
     (if ws_agent w = Omp_Agent \<and> ws_profile w = g_profile (ws_binding w) \<and> take 1 (ws_instance w) = ''/'' \<and> ws_instance w \<noteq> ''/''
      then Some \<lparr>wr_root = ws_state_root w, wr_binding = ws_binding w\<rparr> else None)"

section \<open>Claims and anchors\<close>

record scope_ref =
  sr_id :: string
  sr_path :: string
  sr_key :: resource_key

record scope_claim =
  cl_scope :: string
  cl_domain :: string
  cl_physical :: physical
  cl_parent :: physical
  cl_instance :: string
  cl_owner :: owner_ref

record scope_anchor =
  ha_scope :: string
  ha_domain :: string
  ha_physical :: physical
  ha_parent :: physical
  ha_instance_physical :: physical
  ha_owner :: owner_ref
  ha_claim :: string
  ha_ownership :: string
  ha_instance :: scope_ref
  ha_home :: scope_ref

definition claim_json :: "scope_claim \<Rightarrow> json" where
  "claim_json c = JObj
     [(''domain_id'', JStr (cl_domain c)), (''domain_physical'', physical_json (cl_physical c)),
      (''instance_path'', JStr (cl_instance c)), (''kind'', JStr ''scope-claim''), (''owner_ref'', owner_ref_json (cl_owner c)),
      (''parent_physical'', physical_json (cl_parent c)), (''protocol'', JStr ''rotom-scope-v1''),
      (''schema_version'', JInt 1), (''scope_id'', JStr (cl_scope c))]"

definition scope_ref_json :: "scope_ref \<Rightarrow> json" where
  "scope_ref_json r = JObj [(''key'', key_json (sr_key r)), (''path'', JStr (sr_path r)), (''resource_id'', JStr (sr_id r))]"

definition scope_anchor_json :: "scope_anchor \<Rightarrow> json" where
  "scope_anchor_json a = JObj
     [(''claim_digest'', JStr (ha_claim a)), (''domain_id'', JStr (ha_domain a)),
      (''domain_physical'', physical_json (ha_physical a)), (''instance'', scope_ref_json (ha_instance a)),
      (''instance_physical'', physical_json (ha_instance_physical a)), (''kind'', JStr ''scope-anchor''),
      (''native_home'', scope_ref_json (ha_home a)), (''owner_ref'', owner_ref_json (ha_owner a)),
      (''ownership_digest'', JStr (ha_ownership a)), (''parent_physical'', physical_json (ha_parent a)),
      (''protocol'', JStr ''rotom-scope-v1''), (''schema_version'', JInt 1), (''scope_id'', JStr (ha_scope a))]"

definition claim_ok :: "scope_claim \<Rightarrow> bool" where
  "claim_ok c \<longleftrightarrow>
     is_hex 32 (cl_scope c) \<and> is_hex 32 (cl_domain c) \<and> 1 \<le> ph_inode (cl_physical c) \<and> 1 \<le> ph_inode (cl_parent c) \<and>
     canonical_path (cl_instance c) \<and> owner_ref_ok (cl_owner c)"

definition scope_ref_ok :: "(string \<Rightarrow> string) \<Rightarrow> resource_kind \<Rightarrow> scope_ref \<Rightarrow> bool" where
  "scope_ref_ok sha k r \<longleftrightarrow> is_hex 32 (sr_id r) \<and> canonical_path (sr_path r) \<and> k_kind (sr_key r) = k \<and> domain_key_ok sha (sr_key r)"

definition scope_anchor_ok :: "(string \<Rightarrow> string) \<Rightarrow> scope_anchor \<Rightarrow> bool" where
  "scope_anchor_ok sha a \<longleftrightarrow>
     is_hex 32 (ha_scope a) \<and> is_hex 32 (ha_domain a) \<and> 1 \<le> ph_inode (ha_physical a) \<and> 1 \<le> ph_inode (ha_parent a) \<and>
     1 \<le> ph_inode (ha_instance_physical a) \<and> owner_ref_ok (ha_owner a) \<and> is_hex 64 (ha_claim a) \<and> is_hex 64 (ha_ownership a) \<and>
     scope_ref_ok sha Instance (ha_instance a) \<and> scope_ref_ok sha Native_Home (ha_home a) \<and>
     sr_id (ha_instance a) \<noteq> sr_id (ha_home a)"

definition encodes :: "json \<Rightarrow> bool" where
  "encodes j \<longleftrightarrow> depth j \<le> 32 \<and> length (json_bytes j) \<le> 2 * 1024 * 1024"

text \<open>\<open>_records\<close>: the two entries of a scope in the domain.\<close>

definition scope_record :: "(string \<Rightarrow> string) \<Rightarrow> scope_anchor \<Rightarrow> scope_ref \<Rightarrow> string \<times> shared_resource" where
  "scope_record sha a r = (sr_id r, \<lparr>sh_id = sr_id r, sh_key = sr_key r,
     sh_place = Scope_Place (sr_path r) (ha_scope a) (digest sha (scope_anchor_json a)), sh_status = Ready\<rparr>)"

definition scope_records :: "(string \<Rightarrow> string) \<Rightarrow> scope_anchor \<Rightarrow> (string \<times> shared_resource) list" where
  "scope_records sha a = [scope_record sha a (ha_instance a), scope_record sha a (ha_home a)]"

section \<open>What is on disk\<close>

text \<open>A private file with the record it decodes to.\<close>

record 'a saved_note =
  nt_value :: "'a option"
  nt_mode :: nat
  nt_digest :: string

text \<open>
  The disk of one instance beside the domain: the independent claim, the instance directory with
  its lock (\<open>Some None\<close> is an empty lock file), home, owner file and both anchors.
\<close>

record scope_disk = cell +
  sk_claim :: "scope_claim saved_note option"
  sk_instance :: bool
  sk_lock :: "scope_anchor option option"
  sk_home :: bool
  sk_owner :: "owner_note option"
  sk_anchor :: "scope_anchor saved_note option"
  sk_home_anchor :: "scope_anchor saved_note option"

text \<open>What the kernel shows of it: identities of the directories and keys of lock and home.\<close>

record scope_view =
  sv_parent :: physical
  sv_instance :: physical
  sv_instance_key :: "resource_key option"
  sv_home_key :: "resource_key option"
  sv_layout :: bool

definition scope_claim_exists :: "'w scope_disk_scheme \<Rightarrow> bool" where
  "scope_claim_exists c \<longleftrightarrow>
     sk_claim c \<noteq> None \<or>
     sk_instance c \<and> (sk_anchor c \<noteq> None \<or> sk_home_anchor c \<noteq> None \<or> (case sk_lock c of Some (Some a) \<Rightarrow> True | _ \<Rightarrow> False))"

text \<open>\<open>_read\<close>: mode and content are checked.\<close>

definition read_claim :: "'w scope_disk_scheme \<Rightarrow> scope_claim saved_note option" where
  "read_claim c = (case sk_claim c of None \<Rightarrow> None
     | Some f \<Rightarrow> if nt_mode f = 384 \<and> (case nt_value f of None \<Rightarrow> False | Some v \<Rightarrow> claim_ok v) then Some f else None)"

definition read_anchor :: "(string \<Rightarrow> string) \<Rightarrow> scope_anchor saved_note option \<Rightarrow> scope_anchor option" where
  "read_anchor sha f = (case f of None \<Rightarrow> None
     | Some f \<Rightarrow> if nt_mode f = 384 then (case nt_value f of None \<Rightarrow> None | Some v \<Rightarrow> if scope_anchor_ok sha v then Some v else None)
                 else None)"

definition expected_claim :: "domain \<Rightarrow> workspace \<Rightarrow> physical \<Rightarrow> string \<Rightarrow> owner_ref \<Rightarrow> scope_claim" where
  "expected_claim s w parent ident ref = \<lparr>cl_scope = ident, cl_domain = dm_id s, cl_physical = dm_physical s, cl_parent = parent,
     cl_instance = ws_instance w, cl_owner = ref\<rparr>"

definition anchor_matches :: "(string \<Rightarrow> string) \<Rightarrow> domain \<Rightarrow> workspace \<Rightarrow> scope_view \<Rightarrow> owner_ref \<Rightarrow> scope_claim saved_note \<Rightarrow> scope_anchor \<Rightarrow> bool" where
  "anchor_matches sha s w v ref f a \<longleftrightarrow>
     nt_value f = Some (expected_claim s w (sv_parent v) (ha_scope a) ref) \<and> ha_domain a = dm_id s \<and> ha_physical a = dm_physical s \<and>
     ha_parent a = sv_parent v \<and> ha_instance_physical a = sv_instance v \<and> ha_owner a = ref \<and> ha_claim a = nt_digest f \<and>
     sr_path (ha_instance a) = instance_lock (ws_instance w) \<and> sv_instance_key v = Some (sr_key (ha_instance a)) \<and>
     sr_path (ha_home a) = native_home (ws_instance w) \<and> sv_home_key v = Some (sr_key (ha_home a))"

text \<open>
  \<open>_verify\<close>: the identifiers of the scope, or a refusal. The kernel is asked twice (\<open>v\<close>, \<open>v2\<close>);
  the files are read under the instance's locks, where only a replacement could change them.
\<close>

definition verify_scope ::
  "(string \<Rightarrow> string) \<Rightarrow> domain \<Rightarrow> workspace \<Rightarrow> scope_view \<Rightarrow> scope_view \<Rightarrow> scope_anchor option \<Rightarrow> bool \<Rightarrow> 'w scope_disk_scheme \<Rightarrow>
   invalid + string list" where
  "verify_scope sha s w v v2 expected registered c =
     (if \<not> (native_allowed (ws_profile w) \<and> sv_layout v \<and> sk_instance c \<and> sk_home c) then Inl Invalid
      else case (owner_ref_of w, read_claim c, read_anchor sha (sk_anchor c)) of
        (Some ref, Some f, Some a) \<Rightarrow>
          if sk_lock c = Some (Some a) \<and> read_anchor sha (sk_home_anchor c) = Some a \<and>
             (case expected of None \<Rightarrow> True | Some e \<Rightarrow> a = e) \<and> anchor_matches sha s w v ref f a \<and>
             (case sk_owner c of None \<Rightarrow> False | Some n \<Rightarrow> on_digest n = ha_ownership a \<and> saved_owner_ok sha w n) \<and>
             (registered \<longrightarrow> list_all (\<lambda>(rid, q). map_of (dm_resources s) rid = Some q) (scope_records sha a)) \<and>
             sv_instance_key v2 = Some (sr_key (ha_instance a)) \<and> sv_home_key v2 = Some (sr_key (ha_home a))
          then Inr (map fst (scope_records sha a)) else Inl Invalid
      | _ \<Rightarrow> Inl Invalid)"

definition check_scope :: "(string \<Rightarrow> string) \<Rightarrow> workspace \<Rightarrow> scope_view \<Rightarrow> scope_view \<Rightarrow> ('w scope_disk_ext, string list) cio" where
  "check_scope sha w v v2 = inspect sha (\<lambda>s c. verify_scope sha s w v v2 None True c)"

section \<open>Registration of a scope\<close>

definition disk_settle :: "outcome \<Rightarrow> ('w scope_disk_scheme \<Rightarrow> 'w scope_disk_scheme) \<Rightarrow> ('w scope_disk_ext, unit) cio" where
  "disk_settle oc f c = (case oc of Done \<Rightarrow> (Inr (), f c) | Lost \<Rightarrow> (Inl Invalid, c) | Unacked \<Rightarrow> (Inl Invalid, f c))"

definition fresh_place :: "domain \<Rightarrow> string \<times> shared_resource \<Rightarrow> bool" where
  "fresh_place s e \<longleftrightarrow>
     map_of (dm_resources s) (fst e) = None \<and>
     list_all (\<lambda>(rid, q). sh_key q \<noteq> sh_key (snd e) \<and>
       (case (sh_place q, sh_place (snd e)) of (Scope_Place p _ _, Scope_Place p' _ _) \<Rightarrow> p \<noteq> p' | _ \<Rightarrow> True)) (dm_resources s)"

definition add_resource :: "string \<times> shared_resource \<Rightarrow> domain \<Rightarrow> domain" where
  "add_resource e s = s\<lparr>dm_resources := dput (fst e) (snd e) (dm_resources s)\<rparr>"

fun add_records :: "(string \<times> shared_resource) list \<Rightarrow> domain \<Rightarrow> invalid + domain" where
  "add_records [] s = Inr s"
| "add_records (e # es) s = (if fresh_place s e then add_records es (add_resource e s) else Inl Invalid)"

definition enroll_scope_change ::
  "(string \<Rightarrow> string) \<Rightarrow> domain \<Rightarrow> workspace \<Rightarrow> scope_view \<Rightarrow> scope_view \<Rightarrow> scope_anchor \<Rightarrow> domain \<Rightarrow> ('w scope_disk_ext, unit \<times> domain) cio" where
  "enroll_scope_change sha first w v v2 a s =
     bindS (ensureS (dm_id s = dm_id first \<and> dm_physical s = dm_physical first) Invalid) (\<lambda>_.
     bindS (getS (verify_scope sha s w v v2 (Some a) False)) (\<lambda>_.
     bindS (liftS (add_records (scope_records sha a) s)) (\<lambda>t. returnS ((), t))))"

definition new_claim_note :: "(string \<Rightarrow> string) \<Rightarrow> scope_claim \<Rightarrow> scope_claim saved_note" where
  "new_claim_note sha cl = \<lparr>nt_value = Some cl, nt_mode = 384, nt_digest = digest sha (claim_json cl)\<rparr>"

definition new_anchor_note :: "(string \<Rightarrow> string) \<Rightarrow> scope_anchor \<Rightarrow> scope_anchor saved_note" where
  "new_anchor_note sha a = \<lparr>nt_value = Some a, nt_mode = 384, nt_digest = digest sha (scope_anchor_json a)\<rparr>"

text \<open>Fresh identifiers, and the outcomes of the writes in their order.\<close>

record enrolment =
  en_scope :: string
  en_instance :: string
  en_home :: string
  en_nonce :: string

definition new_anchor :: "(string \<Rightarrow> string) \<Rightarrow> domain \<Rightarrow> workspace \<Rightarrow> scope_view \<Rightarrow> enrolment \<Rightarrow> owner_ref \<Rightarrow> resource_key \<Rightarrow> resource_key \<Rightarrow> scope_anchor" where
  "new_anchor sha s w v ids ref k h = \<lparr>ha_scope = en_scope ids, ha_domain = dm_id s, ha_physical = dm_physical s,
     ha_parent = sv_parent v, ha_instance_physical = sv_instance v, ha_owner = ref,
     ha_claim = digest sha (claim_json (expected_claim s w (sv_parent v) (en_scope ids) ref)),
     ha_ownership = on_digest (new_owner sha w (en_nonce ids)),
     ha_instance = \<lparr>sr_id = en_instance ids, sr_path = instance_lock (ws_instance w), sr_key = k\<rparr>,
     ha_home = \<lparr>sr_id = en_home ids, sr_path = native_home (ws_instance w), sr_key = h\<rparr>\<rparr>"

text \<open>What follows the durable claim: the directories, owner file and anchors, then the domain.\<close>

definition build_scope ::
  "(string \<Rightarrow> string) \<Rightarrow> workspace \<Rightarrow> scope_view \<Rightarrow> scope_view \<Rightarrow> enrolment \<Rightarrow> (nat \<Rightarrow> outcome) \<Rightarrow> domain \<Rightarrow> owner_ref \<Rightarrow>
   ('w scope_disk_ext, scope_anchor) cio" where
  "build_scope sha w v v2 ids oc s ref =
     bindS (disk_settle (oc 1) (\<lambda>c. c\<lparr>sk_instance := True, sk_lock := None, sk_home := False, sk_owner := None,
       sk_anchor := None, sk_home_anchor := None\<rparr>)) (\<lambda>_.
     bindS (disk_settle (oc 2) (\<lambda>c. c\<lparr>sk_lock := Some None\<rparr>)) (\<lambda>_.
     bindS (disk_settle (oc 3) (\<lambda>c. c\<lparr>sk_home := True\<rparr>)) (\<lambda>_.
     bindS (liftS (case (sv_instance_key v, sv_home_key v) of (Some k, Some h) \<Rightarrow> Inr (new_anchor sha s w v ids ref k h) | _ \<Rightarrow> Inl Invalid)) (\<lambda>a.
     bindS (ensureS (encodes (scope_anchor_json a) \<and> scope_anchor_ok sha a) Invalid) (\<lambda>_.
     bindS (disk_settle (oc 4) (\<lambda>c. c\<lparr>sk_owner := Some (new_owner sha w (en_nonce ids))\<rparr>)) (\<lambda>_.
     bindS (disk_settle (oc 5) (\<lambda>c. c\<lparr>sk_anchor := Some (new_anchor_note sha a)\<rparr>)) (\<lambda>_.
     bindS (disk_settle (oc 6) (\<lambda>c. c\<lparr>sk_home_anchor := Some (new_anchor_note sha a)\<rparr>)) (\<lambda>_.
     bindS (disk_settle (oc 7) (\<lambda>c. c\<lparr>sk_lock := Some (Some a)\<rparr>)) (\<lambda>_.
     bindS (transact sha (oc 8) (enroll_scope_change sha s w v v2 a)) (\<lambda>_.
     returnS a))))))))))"

definition enroll_scope ::
  "(string \<Rightarrow> string) \<Rightarrow> workspace \<Rightarrow> scope_view \<Rightarrow> scope_view \<Rightarrow> enrolment \<Rightarrow> (nat \<Rightarrow> outcome) \<Rightarrow> ('w scope_disk_ext, scope_anchor) cio" where
  "enroll_scope sha w v v2 ids oc =
     bindS (ensureS (owner_ref_of w \<noteq> None \<and> native_allowed (ws_profile w)) Invalid) (\<lambda>_.
     let ref = the (owner_ref_of w) in
     bindS (getS (current_state sha)) (\<lambda>s.
     let cl = expected_claim s w (sv_parent v) (en_scope ids) ref in
     bindS (getS (\<lambda>c. ensure (\<not> sk_instance c \<and> encodes (claim_json cl) \<and> claim_ok cl \<and> sk_claim c = None) Invalid)) (\<lambda>_.
     bindS (disk_settle (oc 0) (\<lambda>c. c\<lparr>sk_claim := Some (new_claim_note sha cl)\<rparr>)) (\<lambda>_.
       build_scope sha w v v2 ids oc s ref))))"

section \<open>Registration of a runtime\<close>

text \<open>
  The disk of one runtime beside the instance: the claim, the lease file under its final name and
  whether the package directory exists. The temporary lease file, which every exit removes, is
  not part of it.
\<close>

record runtime_disk = scope_disk +
  rt_claim :: "anchor saved_note option"
  rt_lease :: "anchor option"
  rt_package :: bool

definition runtime_anchor_json :: "anchor \<Rightarrow> json" where
  "runtime_anchor_json a = JObj
     [(''domain_id'', JStr (an_domain a)), (''domain_physical'', physical_json (an_physical a)), (''kind'', JStr ''runtime-anchor''),
      (''protocol'', JStr ''rotom-resource-v1''), (''resource_id'', JStr (an_resource a)),
      (''resource_key'', key_json (an_key a)), (''schema_version'', JInt 1)]"

definition runtime_anchor_ok :: "(string \<Rightarrow> string) \<Rightarrow> anchor \<Rightarrow> bool" where
  "runtime_anchor_ok sha a \<longleftrightarrow>
     is_hex 32 (an_domain a) \<and> 1 \<le> ph_inode (an_physical a) \<and> is_hex 32 (an_resource a) \<and> domain_key_ok sha (an_key a)"

definition runtime_disk_settle :: "outcome \<Rightarrow> ('w runtime_disk_scheme \<Rightarrow> 'w runtime_disk_scheme) \<Rightarrow> ('w runtime_disk_ext scope_disk_ext, unit) cio" where
  "runtime_disk_settle oc f c = (case oc of Done \<Rightarrow> (Inr (), f c) | Lost \<Rightarrow> (Inl Invalid, c) | Unacked \<Rightarrow> (Inl Invalid, f c))"

definition read_runtime_note :: "(string \<Rightarrow> string) \<Rightarrow> anchor saved_note option \<Rightarrow> anchor option" where
  "read_runtime_note sha f = (case f of None \<Rightarrow> None
     | Some f \<Rightarrow> if nt_mode f = 384 then (case nt_value f of None \<Rightarrow> None | Some v \<Rightarrow> if runtime_anchor_ok sha v then Some v else None)
                 else None)"

definition runtime_record :: "anchor \<Rightarrow> string \<Rightarrow> string \<Rightarrow> shared_resource" where
  "runtime_record a cache ident = \<lparr>sh_id = an_resource a, sh_key = an_key a, sh_place = Runtime_Place cache ident, sh_status = Ready\<rparr>"

definition enroll_runtime_change ::
  "(string \<Rightarrow> string) \<Rightarrow> domain \<Rightarrow> string \<Rightarrow> string \<Rightarrow> anchor \<Rightarrow> resource_key option \<Rightarrow> domain \<Rightarrow> ('w runtime_disk_ext scope_disk_ext, unit \<times> domain) cio" where
  "enroll_runtime_change sha first cache ident a key_now s =
     bindS (ensureS (dm_id s = dm_id first \<and> dm_physical s = dm_physical first \<and> map_of (dm_resources s) (an_resource a) = None \<and>
       list_all (\<lambda>(rid, q). sh_key q \<noteq> an_key a \<and> sh_place q \<noteq> Runtime_Place cache ident) (dm_resources s)) Invalid) (\<lambda>_.
     bindS (getS (\<lambda>c. ensure (\<not> rt_package c \<and> key_now = Some (an_key a) \<and> read_runtime_note sha (rt_claim c) = Some a) Invalid)) (\<lambda>_.
     returnS ((), add_resource (an_resource a, runtime_record a cache ident) s)))"

text \<open>
  \<open>enroll_runtime\<close>; \<open>key\<close>, \<open>key_linked\<close> and \<open>key_now\<close> are the physical keys of the locked lease
  file before it is linked, after it and in the transaction.
\<close>

definition runtime_claim_exists :: "'w runtime_disk_scheme \<Rightarrow> bool" where
  "runtime_claim_exists c \<longleftrightarrow> rt_claim c \<noteq> None"

definition link_runtime ::
  "(string \<Rightarrow> string) \<Rightarrow> string \<Rightarrow> string \<Rightarrow> domain \<Rightarrow> anchor \<Rightarrow> resource_key option \<Rightarrow> resource_key option \<Rightarrow> (nat \<Rightarrow> outcome) \<Rightarrow>
   ('w runtime_disk_ext scope_disk_ext, anchor) cio" where
  "link_runtime sha cache ident s a key_linked key_now oc =
     bindS (runtime_disk_settle (oc 1) (\<lambda>c. c\<lparr>rt_lease := Some a\<rparr>)) (\<lambda>_.
     bindS (ensureS (key_linked = Some (an_key a)) Invalid) (\<lambda>_.
     bindS (transact sha (oc 2) (enroll_runtime_change sha s cache ident a key_now)) (\<lambda>_.
     returnS a)))"

definition enroll_runtime ::
  "(string \<Rightarrow> string) \<Rightarrow> string \<Rightarrow> string \<Rightarrow> string \<Rightarrow> resource_key option \<Rightarrow> resource_key option \<Rightarrow> resource_key option \<Rightarrow> (nat \<Rightarrow> outcome) \<Rightarrow>
   ('w runtime_disk_ext scope_disk_ext, anchor) cio" where
  "enroll_runtime sha cache ident rid key key_linked key_now oc =
     bindS (ensureS (safe_id ident = Inr ident \<and> identity_text ident) Invalid) (\<lambda>_.
     bindS (getS (current_state sha)) (\<lambda>s.
     bindS (getS (\<lambda>c. ensure (\<not> runtime_claim_exists c \<and> rt_lease c = None \<and> \<not> rt_package c) Invalid)) (\<lambda>_.
     bindS (liftS (case key of None \<Rightarrow> Inl Invalid
       | Some k \<Rightarrow> Inr \<lparr>an_domain = dm_id s, an_physical = dm_physical s, an_resource = rid, an_key = k\<rparr>)) (\<lambda>a.
     bindS (ensureS (encodes (runtime_anchor_json a) \<and> runtime_anchor_ok sha a) Invalid) (\<lambda>_.
     bindS (runtime_disk_settle (oc 0) (\<lambda>c. c\<lparr>rt_claim := Some \<lparr>nt_value = Some a, nt_mode = 384, nt_digest = digest sha (runtime_anchor_json a)\<rparr>\<rparr>)) (\<lambda>_.
       link_runtime sha cache ident s a key_linked key_now oc))))))"

section \<open>Registration keeps the contract of the domain\<close>

lemma add_resource_evolves: "map_of (dm_resources s) (fst e) = None \<Longrightarrow> evolves s (add_resource e s)"
  by (auto simp: evolves_def add_resource_def)

lemma add_resource_fences [simp]: "fences (add_resource e s) = fences s"
  by (simp add: fences_def add_resource_def)

lemma add_records_result:
  "add_records es s = Inr t \<Longrightarrow> dm_id t = dm_id s \<and> dm_physical t = dm_physical s \<and> dm_revision t = dm_revision s \<and>
     dm_reservations t = dm_reservations s \<and> dm_intents t = dm_intents s \<and>
     (\<forall>k q. map_of (dm_resources s) k = Some q \<longrightarrow> map_of (dm_resources t) k = Some q)"
proof (induction es arbitrary: s)
  case (Cons e es)
  then have f: "map_of (dm_resources s) (fst e) = None" "add_records es (add_resource e s) = Inr t"
    by (auto simp: fresh_place_def split: if_splits)
  from Cons.IH [OF f(2)] f(1) show ?case by (auto simp: add_resource_def) (metis option.distinct(1))
qed simp

interpretation scope_writer: domain_writer sha "enroll_scope_change sha first w v v2 a" for sha first w v v2 a
proof
  fix s c r d x t
  show "same_file c d" if "enroll_scope_change sha first w v v2 a s c = (r, d)"
    using that by (auto simp: enroll_scope_change_def returnS_eq dest!: getS_same ensureS_same liftS_same)
  assume w: "enroll_scope_change sha first w v v2 a s c = (Inr (x, t), d)"
  then have "add_records (scope_records sha a) s = Inr t" by (auto simp: enroll_scope_change_def result_simps)
  note res = add_records_result [OF this]
  show "evolves s t" using res by (simp add: evolves_def)
  show "fences t" if "fences s" using res that by (simp add: fences_def)
qed

interpretation runtime_writer: domain_writer sha "enroll_runtime_change sha first cache ident a key_now" for sha first cache ident a key_now
proof
  fix s c r d x t
  show "same_file c d" if "enroll_runtime_change sha first cache ident a key_now s c = (r, d)"
    using that by (auto simp: enroll_runtime_change_def returnS_eq dest!: getS_same ensureS_same)
  assume w: "enroll_runtime_change sha first cache ident a key_now s c = (Inr (x, t), d)"
  then have t: "map_of (dm_resources s) (an_resource a) = None" "t = add_resource (an_resource a, runtime_record a cache ident) s"
    by (auto simp: enroll_runtime_change_def result_simps)
  show "evolves s t" unfolding t(2) using t(1) by (intro add_resource_evolves) simp
  show "fences t" if "fences s" unfolding t(2) using that by simp
qed

section \<open>What a registration leaves behind\<close>

lemma keeps_disk_settle [preserved]: "(\<And>c. P c \<Longrightarrow> P (f c)) \<Longrightarrow> keeps P (disk_settle oc f)"
  by (cases oc) (auto simp: keeps_def disk_settle_def)

lemma keeps_runtime_settle [preserved]: "(\<And>c. P c \<Longrightarrow> P (f c)) \<Longrightarrow> keeps P (runtime_disk_settle oc f)"
  by (cases oc) (auto simp: keeps_def runtime_disk_settle_def)

lemma keeps_enroll_changes [preserved]:
  "keeps P (enroll_scope_change sha first w v v2 a s)" "keeps Q (enroll_runtime_change sha first cache ident b key_now s)"
  unfolding enroll_scope_change_def enroll_runtime_change_def by (intro keeps_bindS preserved)+

lemma build_scope_claim: "keeps (\<lambda>d. sk_claim d \<noteq> None) (build_scope sha w v v2 ids oc s ref)"
  unfolding build_scope_def by (intro keeps_bindS preserved) simp_all

lemma link_runtime_claim: "keeps (\<lambda>d. rt_claim d \<noteq> None) (link_runtime sha cache ident s a kl kn oc)"
  unfolding link_runtime_def by (intro keeps_bindS preserved) simp_all

text \<open>From the first write on, the claim is there; before it, nothing has changed.\<close>

lemma protects_disk_settle:
  assumes "\<And>c. P (f c)" "keeps P m"
  shows "protects P (bindS (disk_settle oc f) (\<lambda>_. m))"
proof (rule protects_first)
  show "snd (disk_settle oc f c) = c \<or> P (snd (disk_settle oc f c))" for c
    by (cases oc) (simp_all add: disk_settle_def assms(1))
  show "disk_settle oc f c = (Inr e, d) \<Longrightarrow> P d" for c e d
    by (cases oc) (auto simp: disk_settle_def assms(1))
qed (rule assms(2))

lemma protects_runtime_settle:
  assumes "\<And>c. P (f c)" "keeps P m"
  shows "protects P (bindS (runtime_disk_settle oc f) (\<lambda>_. m))"
proof (rule protects_first)
  show "snd (runtime_disk_settle oc f c) = c \<or> P (snd (runtime_disk_settle oc f c))" for c
    by (cases oc) (simp_all add: runtime_disk_settle_def assms(1))
  show "runtime_disk_settle oc f c = (Inr e, d) \<Longrightarrow> P d" for c e d
    by (cases oc) (auto simp: runtime_disk_settle_def assms(1))
qed (rule assms(2))

lemma enroll_scope_protects: "protects (\<lambda>d. sk_claim d \<noteq> None) (enroll_scope sha w v v2 ids oc)"
  unfolding enroll_scope_def Let_def
  by (intro protects_check protects_disk_settle build_scope_claim) simp

lemma enroll_runtime_protects: "protects (\<lambda>d. rt_claim d \<noteq> None) (enroll_runtime sha cache ident rid key kl kn oc)"
  unfolding enroll_runtime_def
  by (intro protects_check protects_runtime_settle link_runtime_claim) simp

section \<open>A registered scope verifies\<close>

lemma scope_disk_state [simp]:
  fixes c :: "'w scope_disk_scheme"
  shows "sk_claim (c\<lparr>dc_state := x, dc_mode := n\<rparr>) = sk_claim c" "sk_anchor (c\<lparr>dc_state := x, dc_mode := n\<rparr>) = sk_anchor c"
    "sk_lock (c\<lparr>dc_state := x, dc_mode := n\<rparr>) = sk_lock c" "sk_owner (c\<lparr>dc_state := x, dc_mode := n\<rparr>) = sk_owner c"
    "sk_home_anchor (c\<lparr>dc_state := x, dc_mode := n\<rparr>) = sk_home_anchor c" "sk_home (c\<lparr>dc_state := x, dc_mode := n\<rparr>) = sk_home c"
    "sk_instance (c\<lparr>dc_state := x, dc_mode := n\<rparr>) = sk_instance c"
  by (cases c; simp)+

lemma add_records_present:
  assumes "add_records es s = Inr t" "distinct (map fst es)" "(rid, q) \<in> set es"
  shows "map_of (dm_resources t) rid = Some q"
  using assms
proof (induction es arbitrary: s)
  case (Cons e es)
  then have f: "add_records es (add_resource e s) = Inr t" by (auto split: if_splits)
  show ?case
  proof (cases "(rid, q) = e")
    case True
    then have "map_of (dm_resources (add_resource e s)) rid = Some q" by (auto simp: add_resource_def)
    with add_records_result [OF f] show ?thesis by blast
  next
    case False
    with Cons f show ?thesis by auto
  qed
qed simp

lemma verify_registered:
  assumes "verify_scope sha s w v v2 (Some a) False c = Inr x" "add_records (scope_records sha a) s = Inr t"
  shows "verify_scope sha (t\<lparr>dm_revision := n\<rparr>) w v v2 None True (c\<lparr>dc_state := y, dc_mode := m\<rparr>) = Inr x \<and> x = map fst (scope_records sha a)"
proof -
  have ok: "read_anchor sha (sk_anchor c) = Some a"
    using assms(1) by (auto simp: verify_scope_def split: if_splits option.splits)
  then have "sr_id (ha_instance a) \<noteq> sr_id (ha_home a)"
    by (auto simp: read_anchor_def scope_anchor_ok_def split: if_splits option.splits)
  then have d: "distinct (map fst (scope_records sha a))" by (simp add: scope_records_def scope_record_def)
  have "list_all (\<lambda>(rid, q). map_of (dm_resources t) rid = Some q) (scope_records sha a)"
    using add_records_present [OF assms(2) d] by (auto simp: list_all_iff)
  with assms(1) ok add_records_result [OF assms(2)] show ?thesis
    by (auto simp: verify_scope_def read_claim_def anchor_matches_def expected_claim_def split: if_splits option.splits)
qed


text \<open>C30: A scope that was registered verifies: when the whole registration is acknowledged, the check
  that every later coordinated operation makes (claim, both anchors, lock content, owner file,
  physical keys and both entries of the domain) succeeds on the disk it left and names exactly
  the two resources of the new scope.\<close>

theorem enrolled_scope_verifies:
  assumes "enroll_scope sha w v v2 ids oc c = (Inr a, d)"
  shows "fst (check_scope sha w v v2 d) = Inr (map fst (scope_records sha a))"
proof -
  from assms obtain s c1 c2 where t: "transact sha (oc 8) (enroll_scope_change sha s w v v2 a) c1 = (Inr (), d)"
    by (auto simp: enroll_scope_def build_scope_def Let_def result_simps)
  then obtain s1 t1 x where s1: "current_state sha c1 = Inr s1"
    and ch: "verify_scope sha s1 w v v2 (Some a) False c1 = Inr x" "add_records (scope_records sha a) s1 = Inr t1"
    and en: "domain_encodes sha (counted t1)" and d: "d = c1\<lparr>dc_state := Some (counted t1), dc_mode := 384\<rparr>"
    by (auto simp: transact_done enroll_scope_change_def result_simps)
  have "current_state sha d = Inr (counted t1)"
    using s1 en add_records_result [OF ch(2)] by (auto simp: d current_state_iff counted_def domain_encodes_def)
  then show ?thesis
    using verify_registered [OF ch] by (simp add: check_scope_def inspect_def bindS_def getS_def d counted_def)
qed

section \<open>A small scope\<close>

lemma small_bytes: "dump_weight j \<le> 1000000 \<Longrightarrow> length (json_bytes j) \<le> 2 * 1024 * 1024"
  using dumps_weight [of j] length_utf8 [of "dumps j @ [CHR 0x0A]"] by (simp add: json_bytes_def)

lemma encodes_code [code]:
  "encodes j \<longleftrightarrow> depth j \<le> 32 \<and> (if dump_weight j \<le> 1000000 then True else length (json_bytes j) \<le> 2 * 1024 * 1024)"
  using small_bytes by (simp add: encodes_def)

lemma domain_encodes_code [code]:
  "domain_encodes sha s \<longleftrightarrow> encodes (domain_json s) \<and> domain_ok sha s"
  by (simp add: domain_encodes_def encodes_def)

definition sample_workspace :: workspace where
  "sample_workspace = \<lparr>ws_agent = Omp_Agent, ws_profile = ''x'', ws_binding = sample_binding, ws_instance = ''/i'',
     ws_state_root = ''/r/omp/x'', ws_cache = ''/c'', ws_machine_root = ''/r''\<rparr>"

definition sample_physical :: physical where
  "sample_physical = \<lparr>ph_device = 1, ph_inode = 2\<rparr>"

definition sample_key :: "resource_kind \<Rightarrow> nat \<Rightarrow> resource_key" where
  "sample_key k n = \<lparr>k_kind = k, k_device = 1, k_inode = n, k_id = replicate 64 CHR ''a''\<rparr>"

definition empty_domain :: domain where
  "empty_domain = \<lparr>dm_id = sample_id CHR ''d'', dm_physical = sample_physical, dm_revision = 0, dm_resources = [],
     dm_reservations = [], dm_intents = []\<rparr>"

definition sample_site :: "'w \<Rightarrow> 'w scope_disk_scheme" where
  "sample_site m = \<lparr>dc_root = Some sample_physical, dc_state = Some empty_domain, dc_mode = 384, dc_snapshots = [],
     sk_claim = None, sk_instance = False, sk_lock = None, sk_home = False, sk_owner = None, sk_anchor = None, sk_home_anchor = None, \<dots> = m\<rparr>"

definition sample_view :: scope_view where
  "sample_view = \<lparr>sv_parent = sample_physical, sv_instance = sample_physical, sv_instance_key = Some (sample_key Instance 5),
     sv_home_key = Some (sample_key Native_Home 6), sv_layout = True\<rparr>"

definition sample_enrolment :: enrolment where
  "sample_enrolment = \<lparr>en_scope = sample_id CHR ''1'', en_instance = sample_id CHR ''2'', en_home = sample_id CHR ''3'', en_nonce = sample_id CHR ''4''\<rparr>"


lemma digest_sample [simp]: "digest sample_sha v = replicate 64 CHR ''a''"
  by (simp add: digest_def sample_sha_def)

definition sample_anchor :: scope_anchor where
  "sample_anchor = \<lparr>ha_scope = sample_id CHR ''1'', ha_domain = sample_id CHR ''d'', ha_physical = sample_physical,
     ha_parent = sample_physical, ha_instance_physical = sample_physical, ha_owner = \<lparr>wr_root = ''/r/omp/x'', wr_binding = sample_binding\<rparr>,
     ha_claim = replicate 64 CHR ''a'', ha_ownership = replicate 64 CHR ''a'',
     ha_instance = \<lparr>sr_id = sample_id CHR ''2'', sr_path = ''/i/.agentcfg-omp.lock'', sr_key = sample_key Instance 5\<rparr>,
     ha_home = \<lparr>sr_id = sample_id CHR ''3'', sr_path = ''/i/user-home'', sr_key = sample_key Native_Home 6\<rparr>\<rparr>"

lemma sample_owner_ref: "owner_ref_of sample_workspace = Some \<lparr>wr_root = ''/r/omp/x'', wr_binding = sample_binding\<rparr>"
  by code_simp

lemma sample_native: "native_allowed (ws_profile sample_workspace)"
  by code_simp

lemma sample_new_anchor:
  "new_anchor sample_sha empty_domain sample_workspace sample_view sample_enrolment \<lparr>wr_root = ''/r/omp/x'', wr_binding = sample_binding\<rparr>
     (sample_key Instance 5) (sample_key Native_Home 6) = sample_anchor"
  by (simp add: new_anchor_def new_owner_def sample_anchor_def empty_domain_def sample_workspace_def sample_view_def sample_enrolment_def
    instance_lock_def native_home_def)

definition sample_claim :: scope_claim where
  "sample_claim = expected_claim empty_domain sample_workspace sample_physical (sample_id CHR ''1'') \<lparr>wr_root = ''/r/omp/x'', wr_binding = sample_binding\<rparr>"

lemma sample_claim_ok: "encodes (claim_json sample_claim)" "claim_ok sample_claim"
  by code_simp+

lemma sample_anchor_encodes: "encodes (scope_anchor_json sample_anchor)"
  by code_simp

lemma sample_anchor_ok: "scope_anchor_ok sample_sha sample_anchor"
  by code_simp

definition scoped_domain :: domain where
  "scoped_domain = (case add_records (scope_records sample_sha sample_anchor) empty_domain of Inr t \<Rightarrow> t | Inl _ \<Rightarrow> empty_domain)"

definition scoped_site :: "'w \<Rightarrow> 'w scope_disk_scheme" where
  "scoped_site m = (sample_site m)\<lparr>dc_state := Some (counted scoped_domain), sk_claim := Some (new_claim_note sample_sha sample_claim),
     sk_instance := True, sk_lock := Some (Some sample_anchor), sk_home := True, sk_owner := Some (new_owner sample_sha sample_workspace (sample_id CHR ''4'')),
     sk_anchor := Some (new_anchor_note sample_sha sample_anchor), sk_home_anchor := Some (new_anchor_note sample_sha sample_anchor)\<rparr>"

lemma sample_records:
  "scope_records sample_sha sample_anchor =
     [(sample_id CHR ''2'', \<lparr>sh_id = sample_id CHR ''2'', sh_key = sample_key Instance 5,
        sh_place = Scope_Place ''/i/.agentcfg-omp.lock'' (sample_id CHR ''1'') (replicate 64 CHR ''a''), sh_status = Ready\<rparr>),
      (sample_id CHR ''3'', \<lparr>sh_id = sample_id CHR ''3'', sh_key = sample_key Native_Home 6,
        sh_place = Scope_Place ''/i/user-home'' (sample_id CHR ''1'') (replicate 64 CHR ''a''), sh_status = Ready\<rparr>)]"
  by (simp add: scope_records_def scope_record_def sample_anchor_def)

lemma sample_added: "add_records (scope_records sample_sha sample_anchor) empty_domain = Inr scoped_domain"
proof -
  have "\<not> isl (add_records (scope_records sample_sha sample_anchor) empty_domain)"
    unfolding sample_records by code_simp
  then show ?thesis by (auto simp: scoped_domain_def split: sum.splits)
qed

lemma scoped_resources: "dm_resources scoped_domain = scope_records sample_sha sample_anchor"
  unfolding scoped_domain_def sample_records by code_simp

lemma scoped_encodes: "domain_encodes sample_sha (counted scoped_domain)"
  unfolding scoped_domain_def sample_records by code_simp

lemma sample_domain_ok: "domain_ok sample_sha empty_domain"
  by code_simp


lemma sample_projections [simp]:
  "sv_parent sample_view = sample_physical" "sv_instance sample_view = sample_physical" "sv_layout sample_view"
  "sv_instance_key sample_view = Some (sample_key Instance 5)" "sv_home_key sample_view = Some (sample_key Native_Home 6)"
  "en_scope sample_enrolment = sample_id CHR ''1''" "en_nonce sample_enrolment = sample_id CHR ''4''"
  by (simp_all add: sample_view_def sample_enrolment_def)

lemma sample_current: "current_state sample_sha ((sample_site m)\<lparr>sk_claim := f, sk_instance := i, sk_home := h, sk_owner := n,
    sk_anchor := a, sk_home_anchor := b, sk_lock := l\<rparr>) = Inr empty_domain"
  using sample_domain_ok by (simp add: current_state_def sample_site_def empty_domain_def)

lemma sample_first: "current_state sample_sha (sample_site m) = Inr empty_domain" "\<not> sk_instance (sample_site m)" "sk_claim (sample_site m) = None"
  using sample_domain_ok by (simp_all add: current_state_def sample_site_def empty_domain_def)

lemma sample_anchor_matches:
  "dm_id s = sample_id CHR ''d'' \<Longrightarrow> dm_physical s = sample_physical \<Longrightarrow>
   anchor_matches sample_sha s sample_workspace sample_view \<lparr>wr_root = ''/r/omp/x'', wr_binding = sample_binding\<rparr>
     (new_claim_note sample_sha sample_claim) sample_anchor"
  by (simp add: anchor_matches_def new_claim_note_def sample_claim_def sample_anchor_def empty_domain_def sample_workspace_def
    expected_claim_def instance_lock_def native_home_def)

lemma sample_verified:
  assumes "sk_claim c = Some (new_claim_note sample_sha sample_claim)" "sk_instance c" "sk_lock c = Some (Some sample_anchor)" "sk_home c"
    "sk_owner c = Some (new_owner sample_sha sample_workspace (sample_id CHR ''4''))"
    "sk_anchor c = Some (new_anchor_note sample_sha sample_anchor)" "sk_home_anchor c = Some (new_anchor_note sample_sha sample_anchor)"
    "dm_id s = sample_id CHR ''d''" "dm_physical s = sample_physical" "expected = None \<or> expected = Some sample_anchor"
    "registered \<Longrightarrow> list_all (\<lambda>(rid, q). map_of (dm_resources s) rid = Some q) (scope_records sample_sha sample_anchor)"
  shows "verify_scope sample_sha s sample_workspace sample_view sample_view expected registered c =
    Inr [sample_id CHR ''2'', sample_id CHR ''3'']"
proof -
  have "read_claim c = Some (new_claim_note sample_sha sample_claim)"
    using sample_claim_ok by (simp add: read_claim_def assms(1)) (simp add: new_claim_note_def)
  moreover have "read_anchor sample_sha (Some (new_anchor_note sample_sha sample_anchor)) = Some sample_anchor"
    using sample_anchor_ok by (simp add: read_anchor_def new_anchor_note_def)
  moreover have "saved_owner_ok sample_sha sample_workspace (new_owner sample_sha sample_workspace (sample_id CHR ''4''))"
    "on_digest (new_owner sample_sha sample_workspace (sample_id CHR ''4'')) = ha_ownership sample_anchor"
    by (simp_all add: saved_owner_ok_def new_owner_def sample_id_def sample_anchor_def)
  moreover have "sr_key (ha_instance sample_anchor) = sample_key Instance 5" "sr_key (ha_home sample_anchor) = sample_key Native_Home 6"
    by (simp_all add: sample_anchor_def)
  ultimately show ?thesis
    using sample_anchor_matches [OF assms(8,9)] sample_records assms(10,11)
    by (auto simp add: verify_scope_def sample_native sample_owner_ref assms(1-7))
qed

lemma sample_domain_fields [simp]: "dm_id empty_domain = sample_id CHR ''d''" "dm_physical empty_domain = sample_physical"
  by (simp_all add: empty_domain_def)

lemma sample_enrolled:
  "enroll_scope sample_sha sample_workspace sample_view sample_view sample_enrolment (\<lambda>_. Done) (sample_site m) = (Inr sample_anchor, (scoped_site m))"
  using sample_claim_ok sample_anchor_encodes sample_anchor_ok scoped_encodes
  by (simp add: enroll_scope_def build_scope_def Let_def result_simps disk_settle_def sample_owner_ref sample_native sample_first
    sample_new_anchor sample_claim_def [symmetric] transact_done sample_current enroll_scope_change_def sample_verified sample_added sample_domain_fields)
   (simp add: scoped_site_def sample_site_def)

theorem enrolled_scope_verifies_witness:
  "fst (check_scope sample_sha sample_workspace sample_view sample_view (scoped_site ())) = Inr [sample_id CHR ''2'', sample_id CHR ''3'']"
  using enrolled_scope_verifies [OF sample_enrolled [where m = "()"]] by (simp add: sample_records)

end
