(* ===== verification/Omp_Launch.thy ===== *)
theory Omp_Launch
  imports Scope_Claims
begin

text \<open>
  The admission of a coordinated launch (\<open>agentcfg/lifecycle.py\<close>): a candidate is reserved from the
  claims and the domain in one transaction, names exactly the instance, home and runtime of the
  workspace, and is checked again before every use.
\<close>

section \<open>The disk of a coordinated instance\<close>

text \<open>
  Beside the domain, the scope and the runtime: the ownership registry under the workspace's
  state root with the identity of its directory.
\<close>

record linked = runtime_disk +
  lk_registry :: registry
  lk_registry_physical :: physical

section \<open>The context of a launch\<close>

definition omp_path :: "string \<Rightarrow> bool" where
  "omp_path s \<longleftrightarrow>
     take 1 s = ''/'' \<and> s \<noteq> ''/'' \<and> list_all (\<lambda>p. p \<noteq> '''' \<and> p \<noteq> ''.'' \<and> p \<noteq> ''..'') (tl (split_on CHR ''/'' s)) \<and>
     CHR 0x5C \<notin> set s \<and> list_all (\<lambda>c. 32 \<le> code c \<and> \<not> (127 \<le> code c \<and> code c \<le> 159)) s"

record launch_context =
  lc_root :: string
  lc_owner :: owner_ref
  lc_digest :: string

definition omp_launch_context :: "(string \<Rightarrow> string) \<Rightarrow> workspace \<Rightarrow> launch_context option" where
  "omp_launch_context sha w =
     (let owner = \<lparr>wr_root = ws_state_root w, wr_binding = ws_binding w\<rparr> in
      if omp_path (ws_machine_root w) \<and> safe_id (ws_profile w) = Inr (ws_profile w) \<and> ws_agent w = Omp_Agent \<and>
         ws_profile w = g_profile (ws_binding w) \<and> omp_path (ws_state_root w) \<and>
         ws_state_root w = ws_machine_root w @ ''/omp/'' @ ws_profile w \<and> omp_path (ws_instance w) \<and> omp_path (ws_cache w)
      then Some \<lparr>lc_root = ws_machine_root w @ ''/lifecycle'', lc_owner = owner, lc_digest = digest sha (owner_ref_json owner)\<rparr>
      else None)"

text \<open>\<open>OmpLaunchReservation\<close>.\<close>

record candidate =
  cn_root :: string
  cn_domain :: string
  cn_physical :: physical
  cn_run :: string
  cn_op :: string
  cn_generation :: nat
  cn_resources :: "string list"
  cn_runtime :: string
  cn_identity :: string
  cn_owner :: string

definition candidate_ok :: "candidate \<Rightarrow> bool" where
  "candidate_ok k \<longleftrightarrow>
     omp_path (cn_root k) \<and> list_all (is_hex 32) [cn_domain k, cn_run k, cn_op k, cn_runtime k] \<and> 0 < ph_inode (cn_physical k) \<and>
     0 < cn_generation k \<and> length (cn_resources k) = 3 \<and> list_all (is_hex 32) (cn_resources k) \<and>
     sort (remdups (cn_resources k)) = cn_resources k \<and> cn_runtime k \<in> set (cn_resources k) \<and>
     safe_id (cn_identity k) = Inr (cn_identity k) \<and> is_hex 64 (cn_owner k)"

section \<open>Choosing the resources\<close>

text \<open>The ready entries of the domain at a path, respectively of a runtime in a cache.\<close>

definition ready_scopes :: "domain \<Rightarrow> resource_kind \<Rightarrow> string \<Rightarrow> shared_resource list" where
  "ready_scopes s kind path = filter (\<lambda>q. sh_status q = Ready \<and> k_kind (sh_key q) = kind \<and>
     (case sh_place q of Scope_Place p _ _ \<Rightarrow> p = path | Runtime_Place _ _ \<Rightarrow> False)) (map snd (dm_resources s))"

definition ready_runtimes :: "domain \<Rightarrow> string \<Rightarrow> string \<Rightarrow> shared_resource list" where
  "ready_runtimes s cache ident = filter (\<lambda>q. sh_status q = Ready \<and> k_kind (sh_key q) = Runtime \<and>
     sh_place q = Runtime_Place cache ident) (map snd (dm_resources s))"

definition claimed_scope :: "domain \<Rightarrow> scope_claim \<Rightarrow> string \<Rightarrow> resource_kind \<Rightarrow> shared_resource option" where
  "claimed_scope s cl path kind =
     (case ready_scopes s kind path of
        [q] \<Rightarrow> if place_scope (sh_place q) = cl_scope cl then Some q else None
      | _ \<Rightarrow> None)"

definition claimed_runtime :: "domain \<Rightarrow> anchor \<Rightarrow> string \<Rightarrow> string \<Rightarrow> shared_resource option" where
  "claimed_runtime s a cache ident =
     (case ready_runtimes s cache ident of
        [q] \<Rightarrow> if an_domain a = dm_id s \<and> an_physical a = dm_physical s \<and> an_resource a = sh_id q \<and> an_key a = sh_key q then Some q else None
      | _ \<Rightarrow> None)"

definition launch_resources :: "domain \<Rightarrow> workspace \<Rightarrow> scope_claim \<Rightarrow> anchor \<Rightarrow> string \<Rightarrow> invalid + (string list \<times> string)" where
  "launch_resources s w cl a ident =
     (case (claimed_scope s cl (instance_lock (ws_instance w)) Instance, claimed_scope s cl (native_home (ws_instance w)) Native_Home,
        claimed_runtime s a (ws_cache w) ident) of
        (Some i, Some h, Some q) \<Rightarrow>
          let rids = sort [sh_id i, sh_id h, sh_id q] in
          if place_anchor (sh_place i) = place_anchor (sh_place h) \<and>
             list_all (\<lambda>(run, r). rv_generation r = None \<longrightarrow> \<not> overlaps rids (rv_resources r)) (dm_reservations s)
          then Inr (rids, sh_id q) else Inl Invalid
      | _ \<Rightarrow> Inl Invalid)"

definition launch_claims :: "(string \<Rightarrow> string) \<Rightarrow> domain \<Rightarrow> workspace \<Rightarrow> launch_context \<Rightarrow> 'w linked_scheme \<Rightarrow> invalid + (scope_claim \<times> anchor)" where
  "launch_claims sha s w x c =
     (case (if sk_instance c \<and> sk_home c then read_claim c else None, read_runtime_note sha (rt_claim c)) of
        (Some f, Some a) \<Rightarrow>
          (case nt_value f of None \<Rightarrow> Inl Invalid
           | Some cl \<Rightarrow> if cl_domain cl = dm_id s \<and> cl_physical cl = dm_physical s \<and> cl_owner cl = lc_owner x \<and>
               cl_instance cl = ws_instance w then Inr (cl, a) else Inl Invalid)
      | _ \<Rightarrow> Inl Invalid)"

definition new_candidate :: "launch_context \<Rightarrow> domain \<Rightarrow> reservation \<Rightarrow> string \<Rightarrow> string \<Rightarrow> candidate" where
  "new_candidate x s r rt ident = \<lparr>cn_root = lc_root x, cn_domain = dm_id s, cn_physical = dm_physical s, cn_run = rv_run r,
     cn_op = rv_op r, cn_generation = (case rv_generation r of None \<Rightarrow> 0 | Some n \<Rightarrow> n), cn_resources = rv_resources r,
     cn_runtime = rt, cn_identity = ident, cn_owner = lc_digest x\<rparr>"

text \<open>The transaction of \<open>reserve_omp_launch\<close>; \<open>run\<close> and \<open>op\<close> are fresh identifiers.\<close>

definition reserve_omp_change ::
  "(string \<Rightarrow> string) \<Rightarrow> workspace \<Rightarrow> launch_context \<Rightarrow> string \<Rightarrow> string \<Rightarrow> string \<Rightarrow> domain \<Rightarrow> ('w linked_ext runtime_disk_ext scope_disk_ext, candidate \<times> domain) cio" where
  "reserve_omp_change sha w x ident run op s =
     bindS (getS (launch_claims sha s w x)) (\<lambda>(cl, a).
     bindS (liftS (launch_resources s w cl a ident)) (\<lambda>(rids, rt).
     bindS (reserve_change run op (lc_owner x) rids (Some (dm_revision s)) s) (\<lambda>(r, t).
     returnS (new_candidate x s r rt ident, t))))"

definition reserve_omp_launch ::
  "(string \<Rightarrow> string) \<Rightarrow> outcome \<Rightarrow> workspace \<Rightarrow> string \<Rightarrow> string \<Rightarrow> string \<Rightarrow> ('w linked_ext runtime_disk_ext scope_disk_ext, candidate) cio" where
  "reserve_omp_launch sha oc w ident run op =
     bindS (liftS (case omp_launch_context sha w of None \<Rightarrow> Inl Invalid | Some x \<Rightarrow> Inr x)) (\<lambda>x.
     bindS (ensureS (safe_id ident = Inr ident) Invalid) (\<lambda>_.
     bindS (transact sha oc (reserve_omp_change sha w x ident run op)) (\<lambda>k.
     bindS (ensureS (candidate_ok k) Invalid) (\<lambda>_. returnS k))))"

section \<open>Checks before use\<close>

definition check_omp_reservation :: "(string \<Rightarrow> string) \<Rightarrow> domain \<Rightarrow> candidate \<Rightarrow> workspace \<Rightarrow> reservation_phase \<Rightarrow> reservation option" where
  "check_omp_reservation sha s k w phase =
     (case (omp_launch_context sha w, map_of (dm_reservations s) (cn_run k), map_of (dm_resources s) (cn_runtime k)) of
        (Some x, Some r, Some q) \<Rightarrow>
          if cn_root k = lc_root x \<and> cn_owner k = lc_digest x \<and> dm_id s = cn_domain k \<and> dm_physical s = cn_physical k \<and>
             rv_phase r = phase \<and> rv_op r = cn_op k \<and> rv_generation r = Some (cn_generation k) \<and> rv_resources r = cn_resources k \<and>
             rv_owner r = lc_owner x \<and> k_kind (sh_key q) = Runtime \<and> sh_place q = Runtime_Place (ws_cache w) (cn_identity k)
          then Some r else None
      | _ \<Rightarrow> None)"

definition check_omp_launch ::
  "(string \<Rightarrow> string) \<Rightarrow> candidate \<Rightarrow> workspace \<Rightarrow> scope_view \<Rightarrow> scope_view \<Rightarrow> lease_view \<Rightarrow> ('w linked_ext runtime_disk_ext scope_disk_ext, unit) cio" where
  "check_omp_launch sha k w v v2 lease = inspect sha (\<lambda>s c.
     case check_omp_reservation sha s k w Reserved of None \<Rightarrow> Inl Invalid
     | Some r \<Rightarrow> bindE (verify_scope sha s w v v2 None True c) (\<lambda>sc.
         ensure (runtime_of s (ws_cache w) (cn_identity k) lease = Some (cn_runtime k) \<and>
           set sc \<union> {cn_runtime k} = set (cn_resources k) \<and> unfenced s (cn_resources k)) Invalid))"

definition cancel_omp_change :: "(string \<Rightarrow> string) \<Rightarrow> candidate \<Rightarrow> workspace \<Rightarrow> domain \<Rightarrow> ('w, unit \<times> domain) cio" where
  "cancel_omp_change sha k w s = with_reservation s (cn_run k)
     (\<lambda>r. check_omp_reservation sha s k w Reserved = Some r \<and> rv_link r = None) (\<lambda>r. r\<lparr>rv_phase := Withdrawn\<rparr>)"

text \<open>
  The metadata checks of \<open>omp_scope_write_guard\<close>, made while the instance lock is held exclusively;
  \<open>exempt\<close> is the answer of a running maintenance for its own scope, \<open>None\<close> without one.
\<close>

definition scope_write_guard ::
  "(string \<Rightarrow> string) \<Rightarrow> workspace \<Rightarrow> scope_view \<Rightarrow> scope_view \<Rightarrow> (domain \<Rightarrow> string list \<Rightarrow> bool) option \<Rightarrow> ('w linked_ext runtime_disk_ext scope_disk_ext, unit) cio" where
  "scope_write_guard sha w v v2 exempt =
     bindS (ensureS (omp_launch_context sha w \<noteq> None) Invalid) (\<lambda>_.
     inspect sha (\<lambda>s c. bindE (verify_scope sha s w v v2 None True c) (\<lambda>sc.
       bindE (ensure ((case exempt of None \<Rightarrow> unfenced s sc | Some f \<Rightarrow> f s sc) \<and>
         list_all (\<lambda>(run, r). overlaps sc (rv_resources r) \<longrightarrow> over (rv_phase r)) (dm_reservations s)) Invalid) (\<lambda>_.
       bindE (ensure (\<not> rg_fenced (lk_registry c)) Invalid) (\<lambda>_.
       bindE (registry_records sha (lk_registry c)) (\<lambda>rs. ensure (list_all (\<lambda>(run, r). record_state r = Idle) rs) Invalid))))))"

section \<open>The contract\<close>

interpretation cancel_omp_writer: domain_writer sha "cancel_omp_change sha' k w" for sha sha' k w
  unfolding cancel_omp_change_def [abs_def]
  by (rule reservation_writer) (simp_all add: reservation_evolves_def reservation_phases.steps_def starting_def check_omp_reservation_def
    split: option.splits if_splits)

lemma reserve_omp_result:
  assumes "reserve_omp_change sha w x ident run op s c = (r, d)"
  shows "d = c \<and> (\<forall>k t. r = Inr (k, t) \<longrightarrow> (\<exists>cl a rids rt v. launch_claims sha s w x c = Inr (cl, a) \<and>
    launch_resources s w cl a ident = Inr (rids, rt) \<and> reserve_change run op (lc_owner x) rids (Some (dm_revision s)) s c = (Inr (v, t), c) \<and>
    k = new_candidate x s v rt ident))"
proof -
  have "d = c"
    using assms by (auto simp: reserve_omp_change_def reserve_change_def bindS_def getS_def liftS_def ensureS_def ensure_def
      returnS_def split: sum.splits prod.splits if_splits)
  then show ?thesis
    using assms by (auto simp: reserve_omp_change_def result_simps)
qed

interpretation reserve_omp_writer: domain_writer sha "reserve_omp_change sha' w x ident run op" for sha sha' w x ident run op
proof
  fix s c r d y t
  show "same_file c d" if "reserve_omp_change sha' w x ident run op s c = (r, d)"
    using reserve_omp_result [OF that] by simp
  assume ok: "domain_ok sha s" and w: "reserve_omp_change sha' w x ident run op s c = (Inr (y, t), d)"
  from reserve_omp_result [OF w] obtain rids v where
    v: "reserve_change run op (lc_owner x) rids (Some (dm_revision s)) s c = (Inr (v, t), c)" by auto
  show "evolves s t" using reserve_writer.change_evolves [OF ok v] .
  show "fences t" if "fences s" using reserve_writer.change_fences [OF ok that v] .
qed

section \<open>A reserved candidate\<close>

lemma sort_empty [simp]: "sort xs = [] \<longleftrightarrow> xs = []"
  by (metis set_empty set_sort)

lemma claimed_scope_at:
  assumes "claimed_scope s cl path kind = Some q" "list_all (shared_ok sha) (dm_resources s)" "dict_ok (dm_resources s)"
  shows "map_of (dm_resources s) (sh_id q) = Some q \<and> sh_status q = Ready \<and> k_kind (sh_key q) = kind"
proof -
  have "q \<in> set (ready_scopes s kind path)"
    using assms(1) by (auto simp: claimed_scope_def split: list.splits if_splits)
  then obtain k where "(k, q) \<in> set (dm_resources s)" "sh_status q = Ready" "k_kind (sh_key q) = kind"
    by (auto simp: ready_scopes_def)
  moreover from this have "sh_id q = k" using assms(2) by (auto simp: list_all_iff shared_ok_def)
  ultimately show ?thesis using assms(3) by (simp add: dict_in_iff)
qed

lemma claimed_runtime_at:
  assumes "claimed_runtime s a cache ident = Some q" "list_all (shared_ok sha) (dm_resources s)" "dict_ok (dm_resources s)"
  shows "map_of (dm_resources s) (sh_id q) = Some q \<and> sh_status q = Ready \<and> k_kind (sh_key q) = Runtime \<and>
    sh_place q = Runtime_Place cache ident"
proof -
  have "q \<in> set (ready_runtimes s cache ident)"
    using assms(1) by (auto simp: claimed_runtime_def split: list.splits if_splits)
  then obtain k where "(k, q) \<in> set (dm_resources s)" "sh_status q = Ready" "k_kind (sh_key q) = Runtime" "sh_place q = Runtime_Place cache ident"
    by (auto simp: ready_runtimes_def)
  moreover from this have "sh_id q = k" using assms(2) by (auto simp: list_all_iff shared_ok_def)
  ultimately show ?thesis using assms(3) by (simp add: dict_in_iff)
qed

text \<open>A launch candidate is good for use at once: when \<open>reserve_omp_launch\<close> returns one, the domain on disk
  has, under its run, a reservation without an owner that \<open>_check_omp_reservation\<close> accepts for
  exactly this candidate and workspace; its three resources are ready, and no maintenance has
  fenced any of them.\<close>

theorem launch_candidate_current:
  assumes "reserve_omp_launch sha oc w ident run op c = (Inr k, d)"
  shows "\<exists>t r. current_state sha d = Inr t \<and> check_omp_reservation sha t k w Reserved = Some r \<and> cn_run k = run \<and>
    rv_link r = None \<and> ready_resources t (cn_resources k) \<and> length (cn_resources k) = 3 \<and> unfenced t (cn_resources k)"
proof -
  from assms obtain x s t e where x: "omp_launch_context sha w = Some x" and s: "current_state sha c = Inr s"
    and ch: "reserve_omp_change sha w x ident run op s c = (Inr (k, t), e)" and en: "domain_encodes sha (counted t)"
    and d: "d = e\<lparr>dc_state := Some (counted t), dc_mode := 384\<rparr>" and k: "candidate_ok k"
    by (auto simp: reserve_omp_launch_def transact_done result_simps split: option.splits)
  from reserve_omp_result [OF ch] obtain cl a rids rt v where e: "e = c" and res: "launch_resources s w cl a ident = Inr (rids, rt)"
    and v: "free_reservation s run op rids (Some (dm_revision s))" "v = new_reservation s run op (lc_owner x) rids" "t = put_reservation run v s"
    and kk: "k = new_candidate x s v rt ident"
    by (auto simp: reserve_change_def result_simps)
  have ok: "domain_ok sha s" using s by (simp add: current_state_iff)
  then have rs: "list_all (shared_ok sha) (dm_resources s)" "dict_ok (dm_resources s)" by (simp_all add: domain_ok_def)
  from res obtain q where "claimed_runtime s a (ws_cache w) ident = Some q" "rt = sh_id q"
    by (auto simp: launch_resources_def Let_def split: option.splits if_splits)
  with claimed_runtime_at [OF _ rs] have q: "map_of (dm_resources s) rt = Some q" "k_kind (sh_key q) = Runtime"
    "sh_place q = Runtime_Place (ws_cache w) ident" by auto
  have "current_state sha d = Inr (counted t)"
    using s en by (auto simp: d e current_state_iff counted_def domain_encodes_def v(3) put_reservation_def)
  moreover have "check_omp_reservation sha (counted t) k w Reserved = Some v"
    using q by (simp add: check_omp_reservation_def x kk new_candidate_def v counted_def put_reservation_def new_reservation_def)
  moreover have "ready_resources (counted t) (cn_resources k)" "unfenced (counted t) (cn_resources k)"
    using v(1) by (simp_all add: kk new_candidate_def v counted_def put_reservation_def new_reservation_def free_reservation_def
      ready_resources_def unfenced_def overlaps_iff cong: list.case_cong)
  moreover have "cn_run k = run" "rv_link v = None" "length (cn_resources k) = 3"
    using k by (simp_all add: kk new_candidate_def v(2) new_reservation_def candidate_ok_def)
  ultimately show ?thesis by blast
qed

section \<open>A small launch\<close>

definition scope_entry :: "char \<Rightarrow> resource_kind \<Rightarrow> nat \<Rightarrow> string \<Rightarrow> string \<times> shared_resource" where
  "scope_entry c k n path = (sample_id c, \<lparr>sh_id = sample_id c, sh_key = sample_key k n,
     sh_place = Scope_Place path (sample_id CHR ''1'') (replicate 64 CHR ''a''), sh_status = Ready\<rparr>)"

definition runtime_entry :: "string \<times> shared_resource" where
  "runtime_entry = (sample_id CHR ''4'', \<lparr>sh_id = sample_id CHR ''4'', sh_key = sample_key Runtime 7,
     sh_place = Runtime_Place ''/c'' ''rt'', sh_status = Ready\<rparr>)"

definition launch_domain :: domain where
  "launch_domain = \<lparr>dm_id = sample_id CHR ''d'', dm_physical = sample_physical, dm_revision = 2,
     dm_resources = [scope_entry CHR ''2'' Instance 5 ''/i/.agentcfg-omp.lock'', scope_entry CHR ''3'' Native_Home 6 ''/i/user-home'', runtime_entry],
     dm_reservations = [], dm_intents = []\<rparr>"

definition sample_runtime_anchor :: anchor where
  "sample_runtime_anchor = \<lparr>an_domain = sample_id CHR ''d'', an_physical = sample_physical, an_resource = sample_id CHR ''4'',
     an_key = sample_key Runtime 7\<rparr>"

definition launch_site :: "'w \<Rightarrow> 'w linked_scheme" where
  "launch_site m = (scoped_site (runtime_disk_ext (Some \<lparr>nt_value = Some sample_runtime_anchor, nt_mode = 384, nt_digest = replicate 64 CHR ''a''\<rparr>)
     (Some sample_runtime_anchor) True (linked_ext empty_registry sample_physical m)))\<lparr>dc_state := Some launch_domain\<rparr>"

lemma launch_current: "current_state sample_sha (launch_site m) = Inr launch_domain"
proof -
  have "domain_ok sample_sha launch_domain" by code_simp
  then show ?thesis
    by (simp add: current_state_def launch_site_def scoped_site_def sample_site_def launch_domain_def)
qed

lemma launch_note: "rt_claim (launch_site m) = Some \<lparr>nt_value = Some sample_runtime_anchor, nt_mode = 384, nt_digest = replicate 64 CHR ''a''\<rparr>"
  "read_claim (launch_site m) = Some (new_claim_note sample_sha sample_claim)" "sk_instance (launch_site m)" "sk_home (launch_site m)"
  using sample_claim_ok by (simp_all add: launch_site_def scoped_site_def sample_site_def read_claim_def new_claim_note_def)

definition sample_context :: launch_context where
  "sample_context = \<lparr>lc_root = ''/r/lifecycle'', lc_owner = \<lparr>wr_root = ''/r/omp/x'', wr_binding = sample_binding\<rparr>, lc_digest = replicate 64 CHR ''a''\<rparr>"

lemma sample_launch_context: "omp_launch_context sample_sha sample_workspace = Some sample_context"
  by code_simp

lemma sample_claims: "launch_claims sample_sha launch_domain sample_workspace sample_context (launch_site m) = Inr (sample_claim, sample_runtime_anchor)"
proof -
  have "read_runtime_note sample_sha (rt_claim (launch_site m)) = Some sample_runtime_anchor"
    unfolding launch_note by code_simp
  then show ?thesis
    by (simp add: launch_claims_def launch_note) (simp add: new_claim_note_def sample_claim_def expected_claim_def empty_domain_def launch_domain_def
      sample_context_def sample_workspace_def)
qed

lemma sample_launch_resources:
  "launch_resources launch_domain sample_workspace sample_claim sample_runtime_anchor ''rt'' = Inr (map sample_id ''234'', sample_id CHR ''4'')"
  by code_simp

definition launched_domain :: domain where
  "launched_domain = put_reservation (sample_id CHR ''b'')
     (new_reservation launch_domain (sample_id CHR ''b'') (sample_id CHR ''c'') (lc_owner sample_context) (map sample_id ''234'')) launch_domain"

lemma launched_encodes: "domain_encodes sample_sha (counted launched_domain)"
  by code_simp

definition sample_candidate :: candidate where
  "sample_candidate = new_candidate sample_context launch_domain
     (new_reservation launch_domain (sample_id CHR ''b'') (sample_id CHR ''c'') (lc_owner sample_context) (map sample_id ''234''))
     (sample_id CHR ''4'') ''rt''"

lemma sample_reserved:
  "reserve_omp_launch sample_sha Done sample_workspace ''rt'' (sample_id CHR ''b'') (sample_id CHR ''c'') (launch_site m) =
     (Inr sample_candidate, (launch_site m)\<lparr>dc_state := Some (counted launched_domain), dc_mode := 384\<rparr>)"
proof -
  have "safe_id ''rt'' = Inr ''rt''" "candidate_ok sample_candidate" by code_simp+
  moreover have "free_reservation launch_domain (sample_id CHR ''b'') (sample_id CHR ''c'') (map sample_id ''234'') (Some (dm_revision launch_domain))"
    by code_simp
  moreover note launched_encodes
  ultimately show ?thesis
    by (simp add: reserve_omp_launch_def sample_launch_context result_simps transact_done launch_current reserve_omp_change_def
      sample_claims sample_launch_resources reserve_change_def) (simp add: sample_candidate_def launched_domain_def)
qed

theorem launch_candidate_current_witness:
  "\<exists>t r. current_state sample_sha ((launch_site ())\<lparr>dc_state := Some (counted launched_domain), dc_mode := 384\<rparr>) = Inr t \<and>
     check_omp_reservation sample_sha t sample_candidate sample_workspace Reserved = Some r \<and> unfenced t (cn_resources sample_candidate)"
  using launch_candidate_current [OF sample_reserved [where m = "()"]] by blast

end
