(* ===== verification/Owner_Links.thy ===== *)
theory Owner_Links
  imports Omp_Launch
begin

text \<open>
  The link between a reservation and the ownership record of its run
  (\<open>agentcfg/resource_owners.py\<close>): attached in two transactions before the launch, checked in both
  directions before each change, and released only when the manager itself has seen every process
  of the run exit and the record says so durably. Every operation takes the domain's lock first,
  then the registry's; a failure between two writes leaves the reservation blocked.
\<close>

section \<open>The registry inside a transaction\<close>

definition on_registry :: "'a rio \<Rightarrow> ('w linked_ext runtime_disk_ext scope_disk_ext, 'a) cio" where
  "on_registry m c = (case m (lk_registry c) of (r, g) \<Rightarrow> (r, c\<lparr>lk_registry := g\<rparr>))"

text \<open>What the kernel shows while one link is checked: scope, leases, the root of the registry.\<close>

record link_view =
  lw_first :: scope_view
  lw_second :: scope_view
  lw_leases :: "(string \<times> lease_view) list"
  lw_rooted :: bool

definition registry_for :: "workspace \<Rightarrow> reservation \<Rightarrow> 'w linked_scheme \<Rightarrow> bool" where
  "registry_for w r c \<longleftrightarrow>
     ws_agent w = Omp_Agent \<and> ws_profile w = g_profile (ws_binding w) \<and>
     rv_owner r = \<lparr>wr_root = ws_state_root w, wr_binding = ws_binding w\<rparr> \<and> rg_binding (lk_registry c) = ws_binding w"

definition runtime_ids :: "domain \<Rightarrow> string list \<Rightarrow> string list" where
  "runtime_ids s rids = filter (\<lambda>rid. case map_of (dm_resources s) rid of None \<Rightarrow> False | Some q \<Rightarrow> k_kind (sh_key q) = Runtime) rids"

definition link_resources ::
  "(string \<Rightarrow> string) \<Rightarrow> domain \<Rightarrow> reservation \<Rightarrow> workspace \<Rightarrow> link_view \<Rightarrow> bool \<Rightarrow> 'w linked_scheme \<Rightarrow> bool" where
  "link_resources sha s r w v fenced_out c \<longleftrightarrow>
     (let rids = rv_resources r; rts = runtime_ids s rids in
      ready_resources s rids \<and> length rts = 1 \<and> set (map fst (lw_leases v)) = set rts \<and>
      (set rids \<noteq> set rts \<or> scope_claim_exists c \<longrightarrow>
        (case verify_scope sha s w (lw_first v) (lw_second v) None True c of Inl e \<Rightarrow> False | Inr sc \<Rightarrow> set rids = set rts \<union> set sc)) \<and>
      (fenced_out \<longrightarrow> unfenced s rids) \<and> list_all (lease_matches s) (lw_leases v))"

definition evidence_of :: "(string \<Rightarrow> string) \<Rightarrow> workspace \<Rightarrow> scope_view \<Rightarrow> 'w linked_scheme \<Rightarrow> link_evidence option" where
  "evidence_of sha w v c =
     (if native_allowed (ws_profile w) \<and> sv_layout v \<and> rg_present (lk_registry c) then
        (case (sv_instance_key v, sv_home_key v, sk_owner c) of
           (Some k, Some h, Some n) \<Rightarrow>
             if saved_owner_ok sha w n then Some \<lparr>ev_registry = lk_registry_physical c,
               ev_instance = \<lparr>pr_path = instance_lock (ws_instance w), pr_key = k\<rparr>,
               ev_home = \<lparr>pr_path = native_home (ws_instance w), pr_key = h\<rparr>, ev_ownership = on_digest n\<rparr> else None
         | _ \<Rightarrow> None)
      else None)"

text \<open>\<open>_check_link\<close>: reservation and record name each other, with the evidence seen now.\<close>

definition record_linked ::
  "(string \<Rightarrow> string) \<Rightarrow> domain \<Rightarrow> reservation \<Rightarrow> link_evidence \<Rightarrow> owner2 \<Rightarrow> owner_state \<Rightarrow> string \<Rightarrow> bool" where
  "record_linked sha s r e x st dg \<longleftrightarrow>
     o_state x = st \<and> o_run x = rv_run r \<and> me_agent x = Omp_Agent \<and> me_backend x = ''managed'' \<and>
     Some (me_runtime x) = runtime_digest sha s r \<and> me_home x = pr_path (ev_home e) \<and>
     me_coordination x = Some (coordination_of sha s r e) \<and> owner_digest sha x = dg"

definition link_holds ::
  "(string \<Rightarrow> string) \<Rightarrow> domain \<Rightarrow> reservation \<Rightarrow> workspace \<Rightarrow> link_view \<Rightarrow> owner option \<Rightarrow> owner_state \<Rightarrow> string option \<Rightarrow> bool \<Rightarrow>
   'w linked_scheme \<Rightarrow> bool" where
  "link_holds sha s r w v rec st dg fenced_out c \<longleftrightarrow>
     link_resources sha s r w v fenced_out c \<and> lw_rooted v \<and>
     (case (evidence_of sha w (lw_first v) c, rv_link r, rec) of
        (Some e, Some l, Some (Owner x)) \<Rightarrow>
          e = link_evidence.truncate l \<and> record_linked sha s r e x st (case dg of None \<Rightarrow> ol_record l | Some d \<Rightarrow> d)
      | _ \<Rightarrow> False)"

text \<open>The reservation of a run in the locked domain, with the registry it names.\<close>

definition with_run :: "domain \<Rightarrow> string \<Rightarrow> workspace \<Rightarrow> (reservation \<Rightarrow> ('w linked_ext runtime_disk_ext scope_disk_ext, 'a) cio) \<Rightarrow> ('w linked_ext runtime_disk_ext scope_disk_ext, 'a) cio" where
  "with_run s run w k =
     (case map_of (dm_reservations s) run of
        None \<Rightarrow> raiseS Invalid
      | Some r \<Rightarrow> bindS (getS (\<lambda>c. ensure (registry_for w r c) Invalid)) (\<lambda>_. k r))"

definition record_of :: "(string \<Rightarrow> string) \<Rightarrow> string \<Rightarrow> 'w linked_scheme \<Rightarrow> invalid + owner option" where
  "record_of sha run c = bindE (ensure (rg_present (lk_registry c)) Invalid) (\<lambda>_.
     bindE (registry_records sha (lk_registry c)) (\<lambda>rs. Inr (map_of rs run)))"

definition current_record :: "(string \<Rightarrow> string) \<Rightarrow> string \<Rightarrow> 'w linked_scheme \<Rightarrow> invalid + owner2" where
  "current_record sha run c = bindE (record_of sha run c) (\<lambda>r. case r of Some (Owner x) \<Rightarrow> Inr x | _ \<Rightarrow> Inl Invalid)"

definition candidate_matches :: "(string \<Rightarrow> string) \<Rightarrow> domain \<Rightarrow> candidate option \<Rightarrow> workspace \<Rightarrow> string \<Rightarrow> reservation_phase \<Rightarrow> bool" where
  "candidate_matches sha s k w run phase \<longleftrightarrow>
     (case k of None \<Rightarrow> True | Some k \<Rightarrow> cn_run k = run \<and> check_omp_reservation sha s k w phase \<noteq> None)"

section \<open>Attaching\<close>

definition attach_metadata_ok :: "metadata \<Rightarrow> bool" where
  "attach_metadata_ok md \<longleftrightarrow> me_coordination md = None \<and> me_agent md = Omp_Agent \<and> me_backend md = ''managed''"

text \<open>
  First transaction: nothing is published; the reservation becomes pending with the link to the
  record that will be. The result is the pending reservation with that record.
\<close>

definition attach_pending ::
  "(string \<Rightarrow> string) \<Rightarrow> (string \<Rightarrow> bool) \<Rightarrow> string \<Rightarrow> workspace \<Rightarrow> manager \<Rightarrow> metadata \<Rightarrow> int \<Rightarrow> candidate option \<Rightarrow> link_view \<Rightarrow>
   domain \<Rightarrow> ('w linked_ext runtime_disk_ext scope_disk_ext, (reservation \<times> owner2) \<times> domain) cio" where
  "attach_pending sha home_there run w m md now expected v s =
     bindS (ensureS (candidate_matches sha s expected w run Reserved) Invalid) (\<lambda>_.
     with_run s run w (\<lambda>r.
     bindS (ensureS (rv_phase r = Reserved \<and> rv_link r = None) Invalid) (\<lambda>_.
     bindS (getS (\<lambda>c. ensure (link_resources sha s r w v True c) Invalid)) (\<lambda>_.
     bindS (on_registry (open_registry True)) (\<lambda>_.
     bindS (getS (record_of sha run)) (\<lambda>old.
     bindS (ensureS (old = None) Invalid) (\<lambda>_.
     bindS (getS (\<lambda>c. case evidence_of sha w (lw_first v) c of None \<Rightarrow> Inl Invalid | Some e \<Rightarrow> Inr e)) (\<lambda>e.
     bindS (liftS (prepare_v2 sha home_there (ws_binding w) run now m (md\<lparr>me_coordination := Some (coordination_of sha s r e)\<rparr>))) (\<lambda>x.
     bindS (ensureS (me_home x = pr_path (ev_home e) \<and> Some (me_runtime x) = runtime_digest sha s r) Invalid) (\<lambda>_.
     let p = r\<lparr>rv_link := Some (link_evidence.extend e (owner_link.fields (owner_digest sha x))), rv_phase := Owner_Pending\<rparr> in
     returnS ((p, x), put_reservation run p s)))))))))))"

text \<open>Second transaction: publish the record, see it linked, and attach.\<close>

definition attach_commit ::
  "(string \<Rightarrow> string) \<Rightarrow> string \<Rightarrow> workspace \<Rightarrow> outcome \<Rightarrow> link_view \<Rightarrow> link_view \<Rightarrow> reservation \<times> owner2 \<Rightarrow> domain \<Rightarrow>
   ('w linked_ext runtime_disk_ext scope_disk_ext, unit \<times> domain) cio" where
  "attach_commit sha run w oc v v2 px s =
     with_run s run w (\<lambda>r.
     bindS (ensureS (r = fst px) Invalid) (\<lambda>_.
     bindS (getS (record_of sha run)) (\<lambda>old.
     bindS (ensureS (old = None) Invalid) (\<lambda>_.
     bindS (getS (\<lambda>c. ensure (link_holds sha s r w v (Some (Owner (snd px))) Active None True c) Invalid)) (\<lambda>_.
     bindS (on_registry (publish_record oc run (Owner (snd px)))) (\<lambda>_.
     bindS (getS (record_of sha run)) (\<lambda>rec.
     bindS (getS (\<lambda>c. ensure (link_holds sha s r w v2 rec Active None True c) Invalid)) (\<lambda>_.
     returnS ((), put_reservation run (r\<lparr>rv_phase := Owner_Attached\<rparr>) s)))))))))"

definition attach_owner ::
  "(string \<Rightarrow> string) \<Rightarrow> (string \<Rightarrow> bool) \<Rightarrow> string \<Rightarrow> workspace \<Rightarrow> manager \<Rightarrow> metadata \<Rightarrow> int \<Rightarrow> candidate option \<Rightarrow> (nat \<Rightarrow> link_view) \<Rightarrow>
   (nat \<Rightarrow> outcome) \<Rightarrow> ('w linked_ext runtime_disk_ext scope_disk_ext, string) cio" where
  "attach_owner sha home_there run w m md now expected v oc =
     bindS (ensureS (attach_metadata_ok md) Invalid) (\<lambda>_.
     bindS (transact sha (oc 0) (attach_pending sha home_there run w m md now expected (v 0))) (\<lambda>px.
     bindS (transact sha (oc 2) (attach_commit sha run w (oc 1) (v 1) (v 2) px)) (\<lambda>_.
     returnS run)))"

section \<open>Dispatching\<close>

definition dispatch_owner_change ::
  "(string \<Rightarrow> string) \<Rightarrow> string \<Rightarrow> workspace \<Rightarrow> candidate option \<Rightarrow> link_view \<Rightarrow> domain \<Rightarrow> ('w linked_ext runtime_disk_ext scope_disk_ext, unit \<times> domain) cio" where
  "dispatch_owner_change sha run w expected v s =
     bindS (ensureS (candidate_matches sha s expected w run Owner_Attached) Invalid) (\<lambda>_.
     with_run s run w (\<lambda>r.
     bindS (ensureS (rv_phase r = Owner_Attached) Invalid) (\<lambda>_.
     bindS (getS (record_of sha run)) (\<lambda>rec.
     bindS (getS (\<lambda>c. ensure (link_holds sha s r w v rec Active None True c) Invalid)) (\<lambda>_.
     returnS ((), put_reservation run (r\<lparr>rv_phase := Sent\<rparr>) s))))))"

section \<open>An incomplete observation\<close>

definition manager_of :: "owner2 \<Rightarrow> manager" where
  "manager_of x = (o_manager x, [])"

definition unknown_pending ::
  "(string \<Rightarrow> string) \<Rightarrow> string \<Rightarrow> workspace \<Rightarrow> manager \<Rightarrow> int \<Rightarrow> link_view \<Rightarrow> domain \<Rightarrow>
   ('w linked_ext runtime_disk_ext scope_disk_ext, (reservation \<times> owner2) \<times> domain) cio" where
  "unknown_pending sha run w m now v s =
     with_run s run w (\<lambda>r.
     bindS (ensureS (rv_phase r \<in> {Owner_Attached, Sent} \<and> rv_receipt r = None) Invalid) (\<lambda>_.
     bindS (getS (current_record sha run)) (\<lambda>x.
     bindS (getS (\<lambda>c. ensure (link_holds sha s r w v (Some (Owner x)) Active None False c) Invalid)) (\<lambda>_.
     bindS (ensureS (manager_of x = m \<and> 0 < now) Invalid) (\<lambda>_.
     let u = x\<lparr>o_state := Unknown_Run, o_observation := observe_state x Unknown_Run now\<rparr>; p = r\<lparr>rv_phase := Unclear\<rparr> in
     bindS (ensureS (owner2_ok sha (ws_binding w) (run @ ''.json'') u) Invalid) (\<lambda>_.
     returnS ((p, u), put_reservation run p s)))))))"

definition unknown_commit ::
  "(string \<Rightarrow> string) \<Rightarrow> string \<Rightarrow> workspace \<Rightarrow> outcome \<Rightarrow> link_view \<Rightarrow> link_view \<Rightarrow> reservation \<times> owner2 \<Rightarrow> domain \<Rightarrow>
   ('w linked_ext runtime_disk_ext scope_disk_ext, unit \<times> domain) cio" where
  "unknown_commit sha run w oc v v2 px s =
     with_run s run w (\<lambda>r.
     bindS (ensureS (r = fst px) Invalid) (\<lambda>_.
     bindS (getS (current_record sha run)) (\<lambda>x.
     bindS (getS (\<lambda>c. ensure (link_holds sha s r w v (Some (Owner x)) Active None False c) Invalid)) (\<lambda>_.
     bindS (on_registry (replace_record oc run (Owner (snd px)))) (\<lambda>_.
     bindS (getS (current_record sha run)) (\<lambda>y.
     let dg = owner_digest sha (snd px) in
     bindS (getS (\<lambda>c. ensure (link_holds sha s r w v2 (Some (Owner y)) Unknown_Run (Some dg) False c) Invalid)) (\<lambda>_.
     returnS ((), put_reservation run (r\<lparr>rv_link := map_option (ol_record_update (\<lambda>_. dg)) (rv_link r)\<rparr>) s))))))))"

text \<open>\<open>me\<close> and \<open>me2\<close> are the identities of the calling process at the two transactions.\<close>

definition mark_owner_unknown ::
  "(string \<Rightarrow> string) \<Rightarrow> string \<Rightarrow> workspace \<Rightarrow> manager \<Rightarrow> manager \<Rightarrow> manager \<Rightarrow> int \<Rightarrow> (nat \<Rightarrow> link_view) \<Rightarrow> (nat \<Rightarrow> outcome) \<Rightarrow>
   ('w linked_ext runtime_disk_ext scope_disk_ext, string) cio" where
  "mark_owner_unknown sha run w m me me2 now v oc =
     bindS (ensureS (manager_ok m \<and> me = m) Invalid) (\<lambda>_.
     bindS (transact sha (oc 0) (unknown_pending sha run w m now (v 0))) (\<lambda>px.
     bindS (ensureS (me2 = m) Invalid) (\<lambda>_.
     bindS (transact sha (oc 2) (unknown_commit sha run w (oc 1) (v 1) (v 2) px)) (\<lambda>_.
     returnS run))))"

section \<open>Releasing\<close>

definition completed_record :: "owner2 \<Rightarrow> int \<Rightarrow> owner2" where
  "completed_record x now = x\<lparr>o_state := Idle, o_observation := observe_state x Idle now\<rparr>"

definition finish_pending ::
  "(string \<Rightarrow> string) \<Rightarrow> string \<Rightarrow> workspace \<Rightarrow> manager \<Rightarrow> int \<Rightarrow> link_view \<Rightarrow> domain \<Rightarrow> ('w linked_ext runtime_disk_ext scope_disk_ext, unit \<times> domain) cio" where
  "finish_pending sha run w m now v s =
     with_run s run w (\<lambda>r.
     bindS (ensureS (rv_phase r = Sent \<and> rv_receipt r = None) Invalid) (\<lambda>_.
     bindS (getS (current_record sha run)) (\<lambda>x.
     bindS (getS (\<lambda>c. ensure (link_holds sha s r w v (Some (Owner x)) Active None False c) Invalid)) (\<lambda>_.
     let y = completed_record x now in
     bindS (ensureS (manager_of x = m \<and> 0 < now \<and> owner2_ok sha (ws_binding w) (run @ ''.json'') y) Invalid) (\<lambda>_.
     returnS ((), put_reservation run (r\<lparr>rv_receipt := Some \<lparr>rr_time = now, rr_digest = owner_digest sha y\<rparr>, rv_phase := Release_Pending\<rparr>) s))))))"

definition release_change ::
  "(string \<Rightarrow> string) \<Rightarrow> string \<Rightarrow> workspace \<Rightarrow> manager \<Rightarrow> outcome \<Rightarrow> outcome \<Rightarrow> link_view \<Rightarrow> link_view \<Rightarrow> domain \<Rightarrow>
   ('w linked_ext runtime_disk_ext scope_disk_ext, unit \<times> domain) cio" where
  "release_change sha run w m oc sync v v2 s =
     with_run s run w (\<lambda>r.
     bindS (ensureS (rv_phase r \<in> {Release_Pending, Released}) Invalid) (\<lambda>_.
     bindS (getS (current_record sha run)) (\<lambda>x.
     bindS (liftS (case rv_receipt r of None \<Rightarrow> Inl Invalid | Some c \<Rightarrow> Inr c)) (\<lambda>c.
     bindS (ensureS (manager_of x = m \<and> o_state x \<in> {Active, Idle} \<and> (rv_phase r = Released \<longrightarrow> o_state x = Idle) \<and>
       (o_state x = Idle \<longrightarrow> po_time (o_observation x) = rr_time c)) Invalid) (\<lambda>_.
     bindS (getS (\<lambda>d. ensure (link_holds sha s r w v (Some (Owner x)) (o_state x)
       (if o_state x = Idle then Some (rr_digest c) else None) False d) Invalid)) (\<lambda>_.
     bindS (if o_state x = Active then
         let y = completed_record x (rr_time c) in
         bindS (ensureS (owner_digest sha y = rr_digest c \<and> owner2_ok sha (ws_binding w) (run @ ''.json'') y) Invalid) (\<lambda>_.
           on_registry (replace_record oc run (Owner y)))
       else returnS ()) (\<lambda>_.
     bindS (ensureS (sync = Done) Invalid) (\<lambda>_.
     bindS (getS (current_record sha run)) (\<lambda>y.
     bindS (getS (\<lambda>d. ensure (link_holds sha s r w v2 (Some (Owner y)) Idle (Some (rr_digest c)) False d) Invalid)) (\<lambda>_.
     returnS ((), put_reservation run (r\<lparr>rv_phase := Released\<rparr>) s)))))))))))"

text \<open>\<open>_release_manager\<close>: the observation is complete, of this run and by the calling process.\<close>

definition release_manager :: "string \<Rightarrow> release_observation \<Rightarrow> manager \<Rightarrow> bool" where
  "release_manager run ob me \<longleftrightarrow> rl_run ob = run \<and> rl_exited ob \<and> rl_complete ob \<and> manager_ok (rl_manager ob) \<and> me = rl_manager ob"

definition reconcile_owner_release ::
  "(string \<Rightarrow> string) \<Rightarrow> string \<Rightarrow> workspace \<Rightarrow> release_observation \<Rightarrow> manager \<Rightarrow> (nat \<Rightarrow> link_view) \<Rightarrow> (nat \<Rightarrow> outcome) \<Rightarrow>
   ('w linked_ext runtime_disk_ext scope_disk_ext, string) cio" where
  "reconcile_owner_release sha run w ob me v oc =
     bindS (ensureS (release_manager run ob me) Invalid) (\<lambda>_.
     bindS (transact sha (oc 2) (release_change sha run w (rl_manager ob) (oc 0) (oc 1) (v 0) (v 1))) (\<lambda>_.
     returnS run))"

definition finish_owner ::
  "(string \<Rightarrow> string) \<Rightarrow> string \<Rightarrow> workspace \<Rightarrow> release_observation \<Rightarrow> manager \<Rightarrow> int \<Rightarrow> link_view \<Rightarrow> (nat \<Rightarrow> link_view) \<Rightarrow> outcome \<Rightarrow>
   (nat \<Rightarrow> outcome) \<Rightarrow> ('w linked_ext runtime_disk_ext scope_disk_ext, string) cio" where
  "finish_owner sha run w ob me now v0 v oc0 oc =
     bindS (ensureS (release_manager run ob me) Invalid) (\<lambda>_.
     bindS (transact sha oc0 (finish_pending sha run w (rl_manager ob) now v0)) (\<lambda>_.
     reconcile_owner_release sha run w ob me v oc))"

section \<open>The contract\<close>

lemma keeps_on_registry [preserved]: "keeps (same_file c0) (on_registry m)"
  by (auto simp: keeps_def on_registry_def same_file_def split: prod.splits)

lemma keeps_with_run [preserved]: "(\<And>r. keeps P (k r)) \<Longrightarrow> keeps P (with_run s run w k)"
  unfolding with_run_def by (auto split: option.split intro!: preserved)

lemma with_run_done [result_simps]:
  "with_run s run w k c = (Inr y, d) \<longleftrightarrow> (\<exists>r. map_of (dm_reservations s) run = Some r \<and> registry_for w r c \<and> k r c = (Inr y, d))"
  by (auto simp: with_run_def result_simps split: option.splits)

text \<open>A change of the reservation of one run: a step of the table, starting phases unfenced.\<close>

definition run_step :: "string \<Rightarrow> domain \<Rightarrow> domain \<Rightarrow> bool" where
  "run_step run s t \<longleftrightarrow> (\<exists>r r'. map_of (dm_reservations s) run = Some r \<and> reservation_evolves r r' \<and>
     (starting (rv_phase r') \<longrightarrow> unfenced s (rv_resources r')) \<and> t = put_reservation run r' s)"

lemma run_writer:
  assumes "\<And>s c0. keeps (same_file c0) (change s)"
    and "\<And>s c x t d. change s c = (Inr (x, t), d) \<Longrightarrow> run_step run s t"
  shows "domain_writer sha change"
proof
  fix s c r d x t
  show "same_file c d" if "change s c = (r, d)"
    using keepsD [OF assms(1) same_file_refl that] .
  assume ok: "domain_ok sha s" and w: "change s c = (Inr (x, t), d)"
  from assms(2) [OF w] obtain v v' where v: "map_of (dm_reservations s) run = Some v" "reservation_evolves v v'"
    "starting (rv_phase v') \<longrightarrow> unfenced s (rv_resources v')" "t = put_reservation run v' s"
    by (auto simp: run_step_def)
  show "evolves s t" unfolding v(4) using v(1,2) by (intro put_reservation_evolves) simp
  show "fences t" if "fences s" unfolding v(4) using v(3) that domain_ok_dicts(1) [OF ok] by (intro put_reservation_fences) simp_all
qed

lemma run_step_put:
  assumes "map_of (dm_reservations s) run = Some r" "reservation_evolves r r'"
    and "starting (rv_phase r') \<Longrightarrow> unfenced s (rv_resources r')"
  shows "run_step run s (put_reservation run r' s)"
  using assms by (auto simp: run_step_def)

lemmas evolves_simps = reservation_evolves_def reservation_phases.steps_def starting_def

lemma link_holds_unfenced: "link_holds sha s r w v rec st dg True c \<Longrightarrow> unfenced s (rv_resources r)"
  and link_resources_unfenced: "link_resources sha s r w v True c \<Longrightarrow> unfenced s (rv_resources r)"
  by (simp_all add: link_holds_def link_resources_def Let_def)

lemma attach_pending_step: "attach_pending sha home run w m md now expected v s c = (Inr (x, t), d) \<Longrightarrow> run_step run s t"
  by (auto simp: attach_pending_def result_simps Let_def evolves_simps dest: link_resources_unfenced intro!: run_step_put)

lemma attach_commit_step:
  assumes "attach_commit sha run w oc v v2 px s c = (Inr (x, t), d)" "rv_phase (fst px) = Owner_Pending"
  shows "run_step run s t"
  using assms by (auto simp: attach_commit_def result_simps evolves_simps dest: link_holds_unfenced intro!: run_step_put)

lemma dispatch_owner_step: "dispatch_owner_change sha run w expected v s c = (Inr (x, t), d) \<Longrightarrow> run_step run s t"
  by (auto simp: dispatch_owner_change_def result_simps evolves_simps intro!: run_step_put)

lemma unknown_pending_step: "unknown_pending sha run w m now v s c = (Inr (x, t), d) \<Longrightarrow> run_step run s t"
  by (auto simp: unknown_pending_def result_simps Let_def evolves_simps intro!: run_step_put)

lemma unknown_commit_step:
  assumes "unknown_commit sha run w oc v v2 px s c = (Inr (x, t), d)" "rv_phase (fst px) = Unclear"
  shows "run_step run s t"
  using assms by (auto simp: unknown_commit_def result_simps Let_def evolves_simps intro!: run_step_put)

lemma finish_pending_step: "finish_pending sha run w m now v s c = (Inr (x, t), d) \<Longrightarrow> run_step run s t"
  by (auto simp: finish_pending_def result_simps Let_def evolves_simps intro!: run_step_put)

lemma release_step: "release_change sha run w m oc sync v v2 s c = (Inr (x, t), d) \<Longrightarrow> run_step run s t"
  by (auto simp: release_change_def result_simps Let_def evolves_simps intro!: run_step_put)

lemma keeps_evidence_case [preserved]: "keeps P (if b then m else returnS ())" if "keeps P m"
  using that by (auto intro: preserved)

lemma link_changes_keep_file [preserved]:
  "keeps (same_file c0) (attach_pending sha home run w m md now expected v s)"
  "keeps (same_file c0) (attach_commit sha run w oc v v2 px s)"
  "keeps (same_file c0) (dispatch_owner_change sha run w expected v s)"
  "keeps (same_file c0) (unknown_pending sha run w m now v s)"
  "keeps (same_file c0) (unknown_commit sha run w oc v v2 px s)"
  "keeps (same_file c0) (finish_pending sha run w m now v s)"
  "keeps (same_file c0) (release_change sha run w m oc sync v v2 s)"
  unfolding attach_pending_def attach_commit_def dispatch_owner_change_def unknown_pending_def unknown_commit_def finish_pending_def
    release_change_def Let_def
  by (intro preserved)+

interpretation attach_pending_writer: domain_writer sha "attach_pending sha' home run w m md now expected v" for sha sha' home run w m md now expected v
  by (rule run_writer) (rule link_changes_keep_file, erule attach_pending_step)

lemma attach_commit_writer: "rv_phase (fst px) = Owner_Pending \<Longrightarrow> domain_writer sha (attach_commit sha' run w oc v v2 px)"
  by (rule run_writer) (rule link_changes_keep_file, erule attach_commit_step)

interpretation dispatch_owner_writer: domain_writer sha "dispatch_owner_change sha' run w expected v" for sha sha' run w expected v
  by (rule run_writer) (rule link_changes_keep_file, erule dispatch_owner_step)

interpretation unknown_pending_writer: domain_writer sha "unknown_pending sha' run w m now v" for sha sha' run w m now v
  by (rule run_writer) (rule link_changes_keep_file, erule unknown_pending_step)

lemma unknown_commit_writer: "rv_phase (fst px) = Unclear \<Longrightarrow> domain_writer sha (unknown_commit sha' run w oc v v2 px)"
  by (rule run_writer) (rule link_changes_keep_file, erule unknown_commit_step)

interpretation finish_pending_writer: domain_writer sha "finish_pending sha' run w m now v" for sha sha' run w m now v
  by (rule run_writer) (rule link_changes_keep_file, erule finish_pending_step)

interpretation release_writer: domain_writer sha "release_change sha' run w m oc sync v v2" for sha sha' run w m oc sync v v2
  by (rule run_writer) (rule link_changes_keep_file, erule release_step)

section \<open>What a release rests on\<close>

lemma record_of_at: "record_of sha run c = Inr (Some r) \<Longrightarrow> owner_at (lk_registry c) run = Some r"
  using find_record_at [of sha "lk_registry c" run r] by (auto simp: record_of_def find_record_def result_simps)

lemma current_record_of: "current_record sha run c = Inr x \<longleftrightarrow> record_of sha run c = Inr (Some (Owner x))"
  by (cases "record_of sha run c") (auto simp: current_record_def split: option.split owner.split)

lemma current_record_at: "current_record sha run c = Inr x \<Longrightarrow> owner_at (lk_registry c) run = Some (Owner x)"
  by (simp add: current_record_of record_of_at)

lemma on_registry_done [result_simps]:
  "on_registry m c = (Inr x, d) \<longleftrightarrow> (\<exists>g. m (lk_registry c) = (Inr x, g) \<and> d = c\<lparr>lk_registry := g\<rparr>)"
  by (auto simp: on_registry_def split: prod.splits)

lemma replace_record_done [result_simps]: "replace_record oc run r g = (Inr x, h) \<longleftrightarrow> oc = Done \<and> h = put_record run r g"
  by (cases oc) (auto simp: replace_record_def settle_def)

lemma release_done:
  assumes "release_change sha run w m oc sync v v2 s c = (Inr (u, t), d)"
  shows "\<exists>r x y q. map_of (dm_reservations s) run = Some r \<and> rv_receipt r = Some q \<and> t = put_reservation run (r\<lparr>rv_phase := Released\<rparr>) s \<and>
    owner_at (lk_registry c) run = Some (Owner x) \<and> manager_of x = m \<and> o_state x \<in> {Active, Idle} \<and>
    owner_at (lk_registry d) run = Some (Owner y) \<and> o_state y = Idle \<and> manager_of y = m \<and> owner_digest sha y = rr_digest q \<and>
    (d = c \<or> d = c\<lparr>lk_registry := put_record run (Owner y) (lk_registry c)\<rparr>)"
proof -
  from assms obtain r x q c1 y where r: "map_of (dm_reservations s) run = Some r" "rv_receipt r = Some q"
      "t = put_reservation run (r\<lparr>rv_phase := Released\<rparr>) s"
    and x: "current_record sha run c = Inr x" "manager_of x = m" "o_state x \<in> {Active, Idle}"
    and c1: "if o_state x = Active then c1 = c\<lparr>lk_registry := put_record run (Owner (completed_record x (rr_time q))) (lk_registry c)\<rparr> else c1 = c"
    and y: "current_record sha run c1 = Inr y" "link_holds sha s r w v2 (Some (Owner y)) Idle (Some (rr_digest q)) False c1" and d: "d = c1"
    by (auto simp: release_change_def result_simps Let_def split: if_splits option.splits)
  have "o_state y = Idle" "owner_digest sha y = rr_digest q"
    using y(2) by (auto simp: link_holds_def record_linked_def split: option.splits)
  moreover note at = current_record_at [OF x(1)] current_record_at [OF y(1)]
  moreover have "manager_of y = m \<and> (d = c \<or> d = c\<lparr>lk_registry := put_record run (Owner y) (lk_registry c)\<rparr>)"
    using c1 at x(2) d by (auto simp: completed_record_def manager_of_def split: if_splits)
  ultimately show ?thesis using r x d by blast
qed

text \<open>C27: A run counts as released only on proof: when \<open>reconcile_owner_release\<close> reports success, the
  domain on disk has the reservation released, the registry on disk has the very record its
  receipt was made for, confirmed idle, and the calling manager, which is that record's manager,
  had itself seen every process of the run exit completely.\<close>

theorem release_needs_idle_owner:
  assumes "reconcile_owner_release sha run w ob me v oc c = (Inr z, d)"
  shows "\<exists>t r x q. dc_state d = Some t \<and> map_of (dm_reservations t) run = Some r \<and> rv_phase r = Released \<and> rv_receipt r = Some q \<and>
    owner_at (lk_registry d) run = Some (Owner x) \<and> o_state x = Idle \<and> owner_digest sha x = rr_digest q \<and>
    manager_of x = rl_manager ob \<and> rl_run ob = run \<and> rl_exited ob \<and> rl_complete ob \<and> me = rl_manager ob"
proof -
  from assms obtain s t e where ob: "release_manager run ob me"
    and ch: "release_change sha run w (rl_manager ob) (oc 0) (oc 1) (v 0) (v 1) s c = (Inr ((), t), e)"
    and d: "d = e\<lparr>dc_state := Some (counted t), dc_mode := 384\<rparr>"
    by (auto simp: reconcile_owner_release_def result_simps transact_done)
  from release_done [OF ch] obtain r y q where r: "rv_receipt r = Some q" "t = put_reservation run (r\<lparr>rv_phase := Released\<rparr>) s"
    and y: "owner_at (lk_registry e) run = Some (Owner y)" "o_state y = Idle" "manager_of y = rl_manager ob" "owner_digest sha y = rr_digest q"
    by auto
  have "lk_registry d = lk_registry e" by (cases e) (simp add: d)
  with r y ob show ?thesis
    by (intro exI [of _ "counted t"] exI [of _ "r\<lparr>rv_phase := Released\<rparr>"] exI [of _ y] exI [of _ q])
      (simp add: d counted_def put_reservation_def release_manager_def)
qed

section \<open>A small release\<close>

definition sample_evidence :: link_evidence where
  "sample_evidence = \<lparr>ev_registry = sample_physical, ev_instance = \<lparr>pr_path = ''/i/.agentcfg-omp.lock'', pr_key = sample_key Instance 5\<rparr>,
     ev_home = \<lparr>pr_path = ''/i/user-home'', pr_key = sample_key Native_Home 6\<rparr>, ev_ownership = replicate 64 CHR ''a''\<rparr>"

definition pending_reservation :: reservation where
  "pending_reservation = \<lparr>rv_run = sample_id CHR ''b'', rv_op = sample_id CHR ''c'', rv_owner = lc_owner sample_context,
     rv_resources = map sample_id ''234'', rv_phase = Release_Pending, rv_generation = Some 2,
     rv_link = Some (link_evidence.extend sample_evidence (owner_link.fields (replicate 64 CHR ''a''))),
     rv_receipt = Some \<lparr>rr_time = 9, rr_digest = replicate 64 CHR ''a''\<rparr>\<rparr>"

definition pending_domain :: domain where
  "pending_domain = launch_domain\<lparr>dm_reservations := [(sample_id CHR ''b'', pending_reservation)]\<rparr>"

definition linked_owner :: owner2 where
  "linked_owner = metadata.extend (sample_metadata\<lparr>me_home := ''/i/user-home'',
       me_coordination := Some \<lparr>cd_domain = sample_id CHR ''d'', cd_physical = sample_physical, cd_op = sample_id CHR ''c'',
         cd_link = replicate 64 CHR ''a''\<rparr>\<rparr>)
     (owner2.fields (replicate 64 CHR ''a'') (sample_id CHR ''b'') \<lparr>pid = 1, birth = ''b''\<rparr> None None Active
       \<lparr>po_kind = Manager_Registered, po_complete = False, po_source = From_Registration, po_time = 5,
        po_manager = \<lparr>pid = 1, birth = ''b''\<rparr>, po_host = None\<rparr> None None)"

definition linked_registry :: registry where
  "linked_registry = \<lparr>rg_binding = sample_binding, rg_present = True,
     rg_files = [(sample_id CHR ''b'' @ ''.json'', \<lparr>of_record = Some (Owner linked_owner), of_mode = 384\<rparr>)], rg_fenced = False\<rparr>"

definition pending_site :: "'w \<Rightarrow> 'w linked_scheme" where
  "pending_site m = (launch_site m)\<lparr>dc_state := Some pending_domain, lk_registry := linked_registry\<rparr>"

definition link_lease :: lease_view where
  "link_lease = \<lparr>lv_key = Some (sample_key Runtime 7), lv_anchor = Some sample_runtime_anchor, lv_claim = Some sample_runtime_anchor,
     lv_key_after = Some (sample_key Runtime 7)\<rparr>"

definition sample_link_view :: link_view where
  "sample_link_view = \<lparr>lw_first = sample_view, lw_second = sample_view, lw_leases = [(sample_id CHR ''4'', link_lease)], lw_rooted = True\<rparr>"

lemma pending_current: "current_state sample_sha (pending_site m) = Inr pending_domain"
proof -
  have "domain_ok sample_sha pending_domain" by code_simp
  then show ?thesis
    by (simp add: current_state_def pending_site_def launch_site_def scoped_site_def sample_site_def
      launch_domain_def pending_domain_def)
qed

lemma linked_owner_ok: "owner2_ok sample_sha sample_binding (sample_id CHR ''b'' @ ''.json'') linked_owner"
  by code_simp

lemma completed_owner_ok: "owner2_ok sample_sha sample_binding (sample_id CHR ''b'' @ ''.json'') (completed_record linked_owner 9)"
  by code_simp

lemma linked_name: "file_name_ok (sample_id CHR ''b'' @ ''.json'')"
  by code_simp

lemma sample_stored:
  assumes "owner2_ok sample_sha sample_binding (sample_id CHR ''b'' @ ''.json'') x"
    and "lk_registry c = linked_registry\<lparr>rg_files := [(sample_id CHR ''b'' @ ''.json'', \<lparr>of_record = Some (Owner x), of_mode = 384\<rparr>)]\<rparr>"
  shows "current_record sample_sha (sample_id CHR ''b'') c = Inr x"
  using assms linked_name by (simp add: current_record_of record_of_def registry_records_def file_ok_def linked_registry_def stored_records_def)

lemma sample_scope_verified:
  "verify_scope sample_sha pending_domain sample_workspace sample_view sample_view None True ((pending_site m)\<lparr>lk_registry := g\<rparr>) =
     Inr (map sample_id ''23'')"
  using sample_records
  by (subst sample_verified) (simp_all add: pending_site_def launch_site_def scoped_site_def sample_site_def pending_domain_def
    launch_domain_def scope_entry_def list_all_iff sample_id_def)

lemma sample_link_resources: "link_resources sample_sha pending_domain pending_reservation sample_workspace sample_link_view False ((pending_site m)\<lparr>lk_registry := g\<rparr>)"
proof -
  have "ready_resources pending_domain (rv_resources pending_reservation)" by code_simp
  moreover have "runtime_ids pending_domain (rv_resources pending_reservation) = [sample_id CHR ''4'']" by code_simp
  moreover have "list_all (lease_matches pending_domain) (lw_leases sample_link_view)" by code_simp
  moreover have "set (rv_resources pending_reservation) = {sample_id CHR ''4''} \<union> set (map sample_id ''23'')"
    by (auto simp: pending_reservation_def)
  ultimately show ?thesis
    using sample_scope_verified [where m = m and g = g] by (simp add: link_resources_def Let_def sample_link_view_def)
qed

lemma sample_evidence_of:
  "rg_present g \<Longrightarrow> evidence_of sample_sha sample_workspace sample_view ((pending_site m)\<lparr>lk_registry := g\<rparr>) = Some sample_evidence"
  using sample_native
  by (simp add: evidence_of_def pending_site_def launch_site_def scoped_site_def sample_site_def saved_owner_ok_def new_owner_def
    sample_evidence_def instance_lock_def native_home_def) (simp add: sample_workspace_def sample_id_def)

lemma sample_runtime_digest: "runtime_digest sample_sha pending_domain pending_reservation = Some (replicate 64 CHR ''a'')"
  by code_simp

lemma pending_fields:
  "rv_link pending_reservation = Some (link_evidence.extend sample_evidence (owner_link.fields (replicate 64 CHR ''a'')))"
  "rv_run pending_reservation = sample_id CHR ''b''" "rv_op pending_reservation = sample_id CHR ''c''"
  "rv_phase pending_reservation = Release_Pending" "rv_receipt pending_reservation = Some \<lparr>rr_time = 9, rr_digest = replicate 64 CHR ''a''\<rparr>"
  "rv_owner pending_reservation = \<lparr>wr_root = ''/r/omp/x'', wr_binding = sample_binding\<rparr>"
  by (simp_all add: pending_reservation_def sample_context_def)

lemma sample_link_ends:
  "link_evidence.truncate (link_evidence.extend sample_evidence (owner_link.fields d)) = sample_evidence"
  "ol_record (link_evidence.extend sample_evidence (owner_link.fields d)) = d" "pr_path (ev_home sample_evidence) = ''/i/user-home''"
  by (simp_all add: link_evidence.defs owner_link.defs sample_evidence_def)

lemma sample_coordination: "coordination_of sample_sha pending_domain pending_reservation sample_evidence = \<lparr>cd_domain = sample_id CHR ''d'',
    cd_physical = sample_physical, cd_op = sample_id CHR ''c'', cd_link = replicate 64 CHR ''a''\<rparr>"
  by (simp add: coordination_of_def pending_domain_def launch_domain_def pending_fields)

lemma linked_fields:
  "o_run linked_owner = sample_id CHR ''b''" "me_agent linked_owner = Omp_Agent" "me_backend linked_owner = ''managed''"
  "me_runtime linked_owner = replicate 64 CHR ''a''" "me_home linked_owner = ''/i/user-home''" "o_state linked_owner = Active"
  "me_coordination linked_owner = Some \<lparr>cd_domain = sample_id CHR ''d'', cd_physical = sample_physical, cd_op = sample_id CHR ''c'',
     cd_link = replicate 64 CHR ''a''\<rparr>" "manager_of linked_owner = sample_manager"
  by (simp_all add: linked_owner_def sample_metadata_def metadata.defs owner2.defs manager_of_def sample_manager_def)

lemma completed_fields:
  "o_run (completed_record x n) = o_run x" "me_agent (completed_record x n) = me_agent x" "me_backend (completed_record x n) = me_backend x"
  "me_runtime (completed_record x n) = me_runtime x" "me_home (completed_record x n) = me_home x" "o_state (completed_record x n) = Idle"
  "me_coordination (completed_record x n) = me_coordination x"
  by (simp_all add: completed_record_def)

lemma sample_record_linked:
  assumes "x = linked_owner \<or> x = completed_record linked_owner 9"
  shows "record_linked sample_sha pending_domain pending_reservation sample_evidence x (o_state x) (replicate 64 CHR ''a'')"
  using assms by (auto simp: record_linked_def linked_fields completed_fields pending_fields sample_coordination sample_runtime_digest
    sample_link_ends owner_digest_def)

lemma sample_link_holds:
  assumes "rg_present g" "x = linked_owner \<or> x = completed_record linked_owner 9" "dg = None \<or> dg = Some (replicate 64 CHR ''a'')" "st = o_state x"
  shows "link_holds sample_sha pending_domain pending_reservation sample_workspace sample_link_view (Some (Owner x)) st dg False
    ((pending_site m)\<lparr>lk_registry := g\<rparr>)"
proof -
  have "lw_first sample_link_view = sample_view" "lw_rooted sample_link_view" by (simp_all add: sample_link_view_def)
  with assms(3,4) sample_record_linked [OF assms(2)] sample_link_resources [of g m] sample_evidence_of [OF assms(1), where m = m]
  show ?thesis by (auto simp: link_holds_def pending_fields sample_link_ends)
qed

definition sample_complete :: release_observation where
  "sample_complete = \<lparr>rl_run = sample_id CHR ''b'', rl_manager = sample_manager, rl_exited = True, rl_complete = True\<rparr>"

lemma released_encodes: "domain_encodes sample_sha (counted (put_reservation (sample_id CHR ''b'') (pending_reservation\<lparr>rv_phase := Released\<rparr>) pending_domain))"
  by code_simp

lemma sample_release_change:
  "\<exists>d. release_change sample_sha (sample_id CHR ''b'') sample_workspace sample_manager Done Done sample_link_view sample_link_view pending_domain (pending_site m) =
     (Inr ((), put_reservation (sample_id CHR ''b'') (pending_reservation\<lparr>rv_phase := Released\<rparr>) pending_domain), d)"
proof -
  have m: "map_of (dm_reservations pending_domain) (sample_id CHR ''b'') = Some pending_reservation" by (simp add: pending_domain_def)
  have reg: "registry_for sample_workspace pending_reservation (pending_site m)"
    by (simp add: registry_for_def pending_fields sample_workspace_def pending_site_def linked_registry_def) (simp add: sample_binding_def)
  let ?g = "put_record (sample_id CHR ''b'') (Owner (completed_record linked_owner 9)) linked_registry"
  have x: "current_record sample_sha (sample_id CHR ''b'') (pending_site m) = Inr linked_owner"
    by (rule sample_stored [OF linked_owner_ok]) (simp add: pending_site_def linked_registry_def)
  have y: "current_record sample_sha (sample_id CHR ''b'') ((pending_site m)\<lparr>lk_registry := ?g\<rparr>) = Inr (completed_record linked_owner 9)"
    by (rule sample_stored [OF completed_owner_ok]) (simp add: put_record_def linked_registry_def)
  have own: "(pending_site m) = (pending_site m)\<lparr>lk_registry := linked_registry\<rparr>" by (simp add: pending_site_def)
  have l: "link_holds sample_sha pending_domain pending_reservation sample_workspace sample_link_view (Some (Owner linked_owner)) Active None False (pending_site m)"
    by (subst own, rule sample_link_holds) (simp_all add: linked_registry_def linked_fields)
  have l2: "link_holds sample_sha pending_domain pending_reservation sample_workspace sample_link_view (Some (Owner (completed_record linked_owner 9)))
      Idle (Some (replicate 64 CHR ''a'')) False ((pending_site m)\<lparr>lk_registry := ?g\<rparr>)"
    by (rule sample_link_holds) (simp_all add: linked_registry_def completed_fields)
  have g: "lk_registry (pending_site m) = linked_registry" by (simp add: pending_site_def)
  show ?thesis
    using completed_owner_ok
    by (simp add: release_change_def result_simps m reg x y l l2 pending_fields linked_fields completed_fields Let_def g owner_digest_def)
      (simp add: sample_workspace_def y l2 [unfolded completed_fields])
qed

lemma sample_reconciled:
  "\<exists>e. reconcile_owner_release sample_sha (sample_id CHR ''b'') sample_workspace sample_complete sample_manager
      (\<lambda>_. sample_link_view) (\<lambda>_. Done) (pending_site m) = (Inr (sample_id CHR ''b''),
    e\<lparr>dc_state := Some (counted (put_reservation (sample_id CHR ''b'') (pending_reservation\<lparr>rv_phase := Released\<rparr>) pending_domain)), dc_mode := 384\<rparr>)"
proof -
  have ob: "release_manager (sample_id CHR ''b'') sample_complete sample_manager" "rl_manager sample_complete = sample_manager"
    by code_simp (simp add: sample_complete_def)
  obtain e where e: "release_change sample_sha (sample_id CHR ''b'') sample_workspace sample_manager Done Done sample_link_view sample_link_view
      pending_domain (pending_site m) = (Inr ((), put_reservation (sample_id CHR ''b'') (pending_reservation\<lparr>rv_phase := Released\<rparr>) pending_domain), e)"
    using sample_release_change [of m] by blast
  then show ?thesis
    using released_encodes by (intro exI [of _ e]) (simp add: reconcile_owner_release_def result_simps transact_done ob pending_current)
qed

theorem release_needs_idle_owner_witness:
  "\<exists>(d::linked) t x r. fst (reconcile_owner_release sample_sha (sample_id CHR ''b'') sample_workspace sample_complete sample_manager
      (\<lambda>_. sample_link_view) (\<lambda>_. Done) (pending_site ())) = Inr (sample_id CHR ''b'') \<and> dc_state d = Some t \<and>
     map_of (dm_reservations t) (sample_id CHR ''b'') = Some r \<and> rv_phase r = Released \<and>
     owner_at (lk_registry d) (sample_id CHR ''b'') = Some (Owner x) \<and> o_state x = Idle"
proof -
  let ?t = "counted (put_reservation (sample_id CHR ''b'') (pending_reservation\<lparr>rv_phase := Released\<rparr>) pending_domain)"
  obtain e :: linked where run: "reconcile_owner_release sample_sha (sample_id CHR ''b'') sample_workspace sample_complete sample_manager
      (\<lambda>_. sample_link_view) (\<lambda>_. Done) (pending_site ()) = (Inr (sample_id CHR ''b''), e\<lparr>dc_state := Some ?t, dc_mode := 384\<rparr>)"
    using sample_reconciled [of "()"] by blast
  let ?d = "e\<lparr>dc_state := Some ?t, dc_mode := 384\<rparr>"
  from release_needs_idle_owner [OF run] obtain t r x where "dc_state ?d = Some t" "map_of (dm_reservations t) (sample_id CHR ''b'') = Some r"
    "rv_phase r = Released" "owner_at (lk_registry ?d) (sample_id CHR ''b'') = Some (Owner x)" "o_state x = Idle" by blast
  then show ?thesis unfolding run fst_conv by (intro exI conjI) (rule refl | assumption)+
qed

end
