(* ===== verification/Maintenance_Flow.thy ===== *)
theory Maintenance_Flow
  imports Owner_Links
begin

text \<open>
  The life of an accepted batch inside the coordination domain: stop requests and exits are
  recorded (\<open>maintenance_progress.py\<close>), the release of all resources is confirmed under the
  physical locks (\<open>maintenance_release.py\<close>, \<open>maintenance_deployment.py\<close>), a reviewed setup is
  dispatched once (\<open>maintenance_permit.py\<close>, \<open>maintenance_dispatch.py\<close>, \<open>maintenance_setup.py\<close>),
  executed and its result recorded (\<open>maintenance_execution.py\<close>), and a succeeded setup is handed
  over to restoration by hand (\<open>maintenance_handoff.py\<close>). Every step is one transaction of the
  domain with a compare-and-swap on the revision of the batch. The runs of a batch share one
  workspace here, as they do in every caller that dispatches a setup.
\<close>

section \<open>State\<close>

text \<open>What the deployment state of an instance says; \<open>dp_setup\<close> digests the deployed contract.\<close>

record deployed =
  dp_binding :: registry_binding
  dp_generation :: string
  dp_identity :: string
  dp_home :: string
  dp_setup :: string

record deployment_state =
  ds_pending :: bool
  ds_owner :: registry_binding
  ds_current :: "deployed option"
  ds_intact :: bool

text \<open>
  A review or a permit is an object of one process that can be used once. \<open>tk_batch\<close> is the batch
  it was issued for; what is compared is its encoded text.
\<close>

record token =
  tk_batch :: batch
  tk_generation :: nat
  tk_digest :: string
  tk_pid :: nat
  tk_used :: bool

datatype stage =
    New | Approved | Preflight | Prepared | Sync_Entering | Sync_Running | Sync_Done
  | Apply_Ready | Apply_Entering | Apply_Running | Apply_Done | Finished

record execution =
  ex_generation :: nat
  ex_digest :: string
  ex_batch :: batch
  ex_stage :: stage
  ex_started :: bool
  ex_workspace :: "workspace option"
  ex_runtime :: string

text \<open>The disk of the instance with its deployment state, and the objects of this process.\<close>

record site = linked +
  si_deployment :: deployment_state
  si_review :: "token option"
  si_permit :: "token option"
  si_execution :: "execution option"

type_synonym ('w, 'a) sio = "('w site_scheme, invalid, 'a) io"

section \<open>Progress\<close>

definition load_batch :: "(string \<Rightarrow> string) \<Rightarrow> string \<Rightarrow> domain \<Rightarrow> 'w cell_scheme \<Rightarrow> invalid + (acceptance \<times> intent \<times> batch)" where
  "load_batch sha bid s c =
     bindE (read_saved sha s bid c) (\<lambda>r. case r of None \<Rightarrow> Inl Invalid
       | Some (a, i) \<Rightarrow> (case it_progress i of None \<Rightarrow> Inl Invalid
           | Some b \<Rightarrow> bindE (batch_cycle sha b) (\<lambda>b'. Inr (a, i, b'))))"

definition read_batch :: "(string \<Rightarrow> string) \<Rightarrow> string \<Rightarrow> ('w, batch) cio" where
  "read_batch sha bid = inspect sha (\<lambda>s c. bindE (load_batch sha bid s c) (\<lambda>(a, i, b). Inr b))"

definition open_intent :: "intent \<Rightarrow> bool" where
  "open_intent i \<longleftrightarrow> it_phase i = Intent_Active \<or> it_phase i = Intent_Dispatched"

definition save_batch :: "(string \<Rightarrow> string) \<Rightarrow> string \<Rightarrow> intent_phase \<Rightarrow> intent \<Rightarrow> batch \<Rightarrow> domain \<Rightarrow> ('w, batch \<times> domain) cio" where
  "save_batch sha bid phase i b s =
     bindS (liftS (batch_cycle sha b)) (\<lambda>n.
       returnS (n, put_intent bid (i\<lparr>it_phase := phase, it_progress := Some n\<rparr>) s))"

definition summed_up :: "batch \<Rightarrow> batch" where
  "summed_up b =
     (if list_ex (\<lambda>x. i_stop x = Stop_Unknown) (b_items b) then b\<lparr>b_phase := Batch_Unknown, b_review := True\<rparr>
      else b\<lparr>b_phase := if list_ex (\<lambda>x. stop_requested (i_facts x)) (b_items b) then Requested else Accepted\<rparr>)"

definition progress_change ::
  "(string \<Rightarrow> string) \<Rightarrow> string \<Rightarrow> nat \<Rightarrow> (batch \<Rightarrow> acceptance \<Rightarrow> invalid + batch) \<Rightarrow> domain \<Rightarrow> ('w, batch \<times> domain) cio" where
  "progress_change sha bid expected change s =
     bindS (ensureS (expected \<le> 18446744073709551615) Invalid) (\<lambda>_.
     bindS (getS (load_batch sha bid s)) (\<lambda>(a, i, b).
     bindS (ensureS (open_intent i \<and> b_phase b \<in> {Accepted, Requested} \<and> b_revision b = expected) Invalid) (\<lambda>_.
     bindS (liftS (change b a)) (\<lambda>x.
     let y = summed_up x in
     save_batch sha bid (if b_phase y = Batch_Unknown then Intent_Unknown else it_phase i) i (y\<lparr>b_revision := b_revision y + 1\<rparr>) s))))"

text \<open>\<open>_item\<close>: the one item of a run, changed.\<close>

fun change_item :: "string \<Rightarrow> (item \<Rightarrow> invalid + item) \<Rightarrow> item list \<Rightarrow> invalid + item list" where
  "change_item run f [] = Inl Invalid"
| "change_item run f (x # xs) =
     (if i_run x = run then bindE (f x) (\<lambda>y. Inr (y # xs)) else bindE (change_item run f xs) (\<lambda>ys. Inr (x # ys)))"

definition with_item :: "string \<Rightarrow> (item \<Rightarrow> invalid + item) \<Rightarrow> batch \<Rightarrow> invalid + batch" where
  "with_item run f b =
     bindE (ensure (is_hex 32 run \<and> run \<in> set (b_accepted b)) Invalid) (\<lambda>_.
     bindE (change_item run f (b_items b)) (\<lambda>xs. Inr (b\<lparr>b_items := xs\<rparr>)))"

definition request_item :: "item \<Rightarrow> invalid + item" where
  "request_item x =
     (if i_stop x = Stop_Accepted \<and> \<not> stop_requested (i_facts x)
      then Inr (x\<lparr>i_facts := (i_facts x)\<lparr>stop_requested := True\<rparr>, i_stop := Stop_Requested\<rparr>) else Inl Invalid)"

definition record_stop_requested :: "(string \<Rightarrow> string) \<Rightarrow> outcome \<Rightarrow> string \<Rightarrow> nat \<Rightarrow> string \<Rightarrow> ('w, batch) cio" where
  "record_stop_requested sha oc bid expected run =
     transact sha oc (progress_change sha bid expected (\<lambda>b a. with_item run request_item b))"

definition proof_matches :: "release_observation \<Rightarrow> string \<Rightarrow> manager \<Rightarrow> bool" where
  "proof_matches ob run m \<longleftrightarrow> rl_run ob = run \<and> rl_complete ob \<and> rl_exited ob \<and> manager_ok (rl_manager ob) \<and> rl_manager ob = m"

definition exit_item :: "item \<Rightarrow> invalid + item" where
  "exit_item x = (if exit_confirmed (i_facts x) then Inl Invalid else Inr (x\<lparr>i_facts := (i_facts x)\<lparr>exit_confirmed := True\<rparr>\<rparr>))"

definition exit_change :: "release_observation \<Rightarrow> batch \<Rightarrow> acceptance \<Rightarrow> invalid + batch" where
  "exit_change ob b a =
     bindE (case map_of (ac_records a) (rl_run ob) of None \<Rightarrow> Inl Invalid
       | Some x \<Rightarrow> ensure (proof_matches ob (rl_run ob) (manager_of x)) Invalid) (\<lambda>_.
     with_item (rl_run ob) exit_item b)"

definition record_exit :: "(string \<Rightarrow> string) \<Rightarrow> outcome \<Rightarrow> string \<Rightarrow> nat \<Rightarrow> release_observation \<Rightarrow> ('w, batch) cio" where
  "record_exit sha oc bid expected ob = transact sha oc (progress_change sha bid expected (exit_change ob))"

definition mark_batch_unknown :: "(string \<Rightarrow> string) \<Rightarrow> outcome \<Rightarrow> string \<Rightarrow> nat \<Rightarrow> string \<Rightarrow> ('w, batch) cio" where
  "mark_batch_unknown sha oc bid expected run =
     transact sha oc (progress_change sha bid expected (\<lambda>b a. with_item run (\<lambda>x. Inr (x\<lparr>i_stop := Stop_Unknown\<rparr>)) b))"

section \<open>Confirmed release\<close>

text \<open>\<open>check_stop_deployment\<close>: the saved record is of what is deployed now.\<close>

definition deployed_runtime :: "(string \<Rightarrow> string) \<Rightarrow> string \<Rightarrow> string" where
  "deployed_runtime sha ident = (if is_hex 64 ident then ident else sha (utf8 ident))"

definition check_stop_deployment :: "(string \<Rightarrow> string) \<Rightarrow> workspace \<Rightarrow> owner2 \<Rightarrow> 'w site_scheme \<Rightarrow> bool" where
  "check_stop_deployment sha w x c \<longleftrightarrow>
     (let ds = si_deployment c in
      ws_agent w = Omp_Agent \<and> ws_profile w = g_profile (ws_binding w) \<and> me_agent x = Omp_Agent \<and> me_backend x = ''managed'' \<and>
      o_state x = Active \<and> owner2_ok sha (ws_binding w) (o_run x @ ''.json'') x \<and> \<not> ds_pending ds \<and>
      (case ds_current ds of None \<Rightarrow> False
       | Some d \<Rightarrow> dp_binding d = ws_binding w \<and> ds_owner ds = ws_binding w \<and> dp_generation d = me_deployment x \<and>
           safe_id (dp_identity d) = Inr (dp_identity d) \<and> deployed_runtime sha (dp_identity d) = me_runtime x \<and>
           dp_home d = native_home (ws_instance w) \<and> me_home x = native_home (ws_instance w)) \<and> ds_intact ds)"

text \<open>\<open>_leases\<close>: the metadata that decides which physical locks are taken.\<close>

definition lease_plan_ok :: "domain \<Rightarrow> workspace \<Rightarrow> string list \<Rightarrow> 'w linked_scheme \<Rightarrow> bool" where
  "lease_plan_ok s w runs c \<longleftrightarrow> sk_instance c \<and> sk_home c \<and>
     list_all (\<lambda>run. case map_of (dm_reservations s) run of None \<Rightarrow> False
       | Some r \<Rightarrow> registry_for w r c \<and>
           (case runtime_ids s (rv_resources r) of
              [rid] \<Rightarrow> (case map_of (dm_resources s) rid of None \<Rightarrow> False
                | Some q \<Rightarrow> (case sh_place q of Runtime_Place cache ident \<Rightarrow> cache = ws_cache w \<and> safe_id ident = Inr ident
                    | Scope_Place _ _ _ \<Rightarrow> False))
            | _ \<Rightarrow> False)) runs"

text \<open>\<open>_record_link\<close> of the observation module, for any record of the registry.\<close>

definition record_link_ok :: "(string \<Rightarrow> string) \<Rightarrow> domain \<Rightarrow> reservation \<Rightarrow> workspace \<Rightarrow> link_view \<Rightarrow> owner2 \<Rightarrow> string list \<Rightarrow> 'w linked_scheme \<Rightarrow> bool" where
  "record_link_ok sha s r w v x scope c \<longleftrightarrow>
     (let rts = filter (\<lambda>rid. rid \<notin> set scope) (remdups (rv_resources r)) in
      length rts = 1 \<and> set (rv_resources r) = set scope \<union> set rts \<and> rv_owner r = \<lparr>wr_root = ws_state_root w, wr_binding = ws_binding w\<rparr> \<and>
      (case map_of (dm_resources s) (hd rts) of None \<Rightarrow> False
       | Some q \<Rightarrow> sh_status q = Ready \<and> k_kind (sh_key q) = Runtime \<and>
           (case sh_place q of Runtime_Place cache ident \<Rightarrow> cache = ws_cache w | Scope_Place _ _ _ \<Rightarrow> False)) \<and>
      (case (evidence_of sha w (lw_first v) c, rv_link r) of
         (Some e, Some l) \<Rightarrow> e = link_evidence.truncate l \<and> me_agent x = Omp_Agent \<and> me_backend x = ''managed'' \<and>
           me_home x = pr_path (ev_home e) \<and> Some (me_runtime x) = runtime_digest sha s r \<and>
           me_coordination x = Some (coordination_of sha s r e) \<and>
           owner_digest sha x = (case rv_receipt r of
              Some q \<Rightarrow> if o_state x = Idle \<and> rv_phase r \<in> {Release_Pending, Released} then rr_digest q else ol_record l
            | None \<Rightarrow> ol_record l)
       | _ \<Rightarrow> False) \<and> lw_rooted v)"

definition related :: "domain \<Rightarrow> string list \<Rightarrow> (string \<times> reservation) list" where
  "related s scope = filter (\<lambda>(run, r). overlaps scope (rv_resources r)) (dm_reservations s)"

text \<open>Every record of the registry is linked, every related reservation ended with an idle record.\<close>

definition registry_released :: "(string \<Rightarrow> string) \<Rightarrow> domain \<Rightarrow> workspace \<Rightarrow> link_view \<Rightarrow> (string \<times> owner) list \<Rightarrow> string list \<Rightarrow> 'w linked_scheme \<Rightarrow> bool" where
  "registry_released sha s w v rs scope c \<longleftrightarrow>
     list_all (\<lambda>(run, x). case (x, map_of (related s scope) run) of
        (Owner y, Some r) \<Rightarrow> me_coordination y \<noteq> None \<and> record_link_ok sha s r w v y scope c
      | _ \<Rightarrow> False) rs \<and>
     list_all (\<lambda>(run, r). rv_phase r = Withdrawn \<and> map_of rs run = None \<or>
        rv_phase r = Released \<and> (case map_of rs run of None \<Rightarrow> False | Some x \<Rightarrow> record_state x = Idle)) (related s scope)"

definition run_released ::
  "(string \<Rightarrow> string) \<Rightarrow> domain \<Rightarrow> acceptance \<Rightarrow> workspace \<Rightarrow> link_view \<Rightarrow> (string \<times> owner) list \<Rightarrow> run \<Rightarrow> 'w linked_scheme \<Rightarrow> bool" where
  "run_released sha s a w v rs u c \<longleftrightarrow>
     (case (map_of (dm_reservations s) (u_id u), map_of (ac_records a) (u_id u)) of
        (Some r, Some x) \<Rightarrow>
          rv_phase r = Released \<and> rv_resources r = u_resources u \<and> registry_for w r c \<and>
          (case rv_receipt r of None \<Rightarrow> False
           | Some q \<Rightarrow> map_of rs (u_id u) = Some (Owner (completed_record x (rr_time q))) \<and>
               link_holds sha s r w v (Some (Owner (completed_record x (rr_time q)))) Idle (Some (rr_digest q)) False c)
      | _ \<Rightarrow> False)"

definition hold_released ::
  "(string \<Rightarrow> string) \<Rightarrow> domain \<Rightarrow> acceptance \<Rightarrow> batch \<Rightarrow> workspace \<Rightarrow> link_view \<Rightarrow> 'w linked_scheme \<Rightarrow> invalid + unit" where
  "hold_released sha s a b w v c =
     (let p = b_plan b; rids = resource_ids (p_resources p) in
      bindE (ensure (ready_resources s rids \<and>
        list_all (\<lambda>q. case map_of (dm_resources s) (q_id q) of None \<Rightarrow> False | Some d \<Rightarrow> q_key q = sh_key d) (p_resources p) \<and>
        list_all (\<lambda>(run, r). overlaps rids (rv_resources r) \<longrightarrow> over (rv_phase r)) (dm_reservations s) \<and>
        list_all (\<lambda>(k, i). k \<noteq> b_id b \<and> overlaps rids (it_resources i) \<longrightarrow> terminal_intent i) (dm_intents s) \<and>
        rg_present (lk_registry c)) Invalid) (\<lambda>_.
      bindE (registry_records sha (lk_registry c)) (\<lambda>rs.
      bindE (verify_scope sha s w (lw_first v) (lw_second v) None True c) (\<lambda>scope.
      ensure (registry_released sha s w v rs scope c \<and> list_all (\<lambda>u. run_released sha s a w v rs u c) (p_runs p)) Invalid))))"

definition release_load :: "(string \<Rightarrow> string) \<Rightarrow> string \<Rightarrow> nat \<Rightarrow> domain \<Rightarrow> 'w cell_scheme \<Rightarrow> invalid + (acceptance \<times> intent \<times> batch)" where
  "release_load sha bid expected s c =
     bindE (load_batch sha bid s c) (\<lambda>(a, i, b).
     bindE (ensure (b_revision b = expected \<and> open_intent i \<and> b_operation b = Setup_Operation \<and> b_phase b \<in> {Accepted, Requested} \<and>
       list_all (\<lambda>x. exit_confirmed (i_facts x) \<and> \<not> resources_released (i_facts x) \<and> i_stop x \<in> {Stop_Accepted, Stop_Requested}) (b_items b))
       Invalid) (\<lambda>_. Inr (a, i, b)))"

definition released_item :: "item \<Rightarrow> item" where
  "released_item x = x\<lparr>i_facts := (i_facts x)\<lparr>resources_released := True\<rparr>, i_stop := Stop_Confirmed\<rparr>"

definition release_confirmation ::
  "(string \<Rightarrow> string) \<Rightarrow> string \<Rightarrow> nat \<Rightarrow> workspace \<Rightarrow> link_view \<Rightarrow> domain \<Rightarrow> ('w linked_ext runtime_disk_ext scope_disk_ext, batch \<times> domain) cio" where
  "release_confirmation sha bid expected w v s =
     bindS (getS (release_load sha bid expected s)) (\<lambda>(a, i, b).
     bindS (getS (hold_released sha s a b w v)) (\<lambda>_.
     save_batch sha bid (it_phase i) i (b\<lparr>b_items := map released_item (b_items b), b_phase := Stopped, b_revision := b_revision b + 1\<rparr>) s))"

text \<open>What is checked outside the transaction, while the physical locks are taken.\<close>

definition physical_ready ::
  "(string \<Rightarrow> string) \<Rightarrow> workspace \<Rightarrow> acceptance \<Rightarrow> batch \<Rightarrow> domain \<Rightarrow> 'w site_scheme \<Rightarrow> bool" where
  "physical_ready sha w a b s c \<longleftrightarrow>
     lease_plan_ok s w (b_accepted b) c \<and>
     list_all (\<lambda>run. case map_of (ac_records a) run of None \<Rightarrow> False | Some x \<Rightarrow> check_stop_deployment sha w x c) (b_accepted b)"

definition confirm_setup_release ::
  "(string \<Rightarrow> string) \<Rightarrow> outcome \<Rightarrow> string \<Rightarrow> nat \<Rightarrow> workspace \<Rightarrow> link_view \<Rightarrow> ('w, batch) sio" where
  "confirm_setup_release sha oc bid expected w v =
     bindS (inspect sha (\<lambda>s c. bindE (release_load sha bid expected s c) (\<lambda>(a, i, b).
       ensure (physical_ready sha w a b s c) Invalid))) (\<lambda>_.
     transact sha oc (release_confirmation sha bid expected w v))"

end
