(* ===== verification/Maintenance_Setup.thy ===== *)
theory Maintenance_Setup
  imports Maintenance_Flow
begin

text \<open>
  Reviewing, dispatching, executing and completing a setup (\<open>maintenance_permit.py\<close>,
  \<open>maintenance_setup.py\<close>, \<open>maintenance_dispatch.py\<close>, \<open>maintenance_execution.py\<close>,
  \<open>maintenance_handoff.py\<close>). A review is bound to one batch in one process and consumed before
  the dispatch is written; the permit issued after the write is consumed before the first side
  effect. Consumption is never undone.
\<close>

section \<open>Reviews and permits\<close>

definition settled_item :: "item \<Rightarrow> bool" where
  "settled_item x \<longleftrightarrow> i_stop x = Stop_Confirmed \<and> exit_confirmed (i_facts x) \<and> resources_released (i_facts x) \<and>
     i_restore x \<in> {Not_Requested, Restore_Manual} \<and> \<not> launched x"

definition manual_plan :: "plan \<Rightarrow> bool" where
  "manual_plan p \<longleftrightarrow> list_all (\<lambda>u. re_mode (u_restore u) = Manual) (p_runs p)"

definition permit_normalized :: "(string \<Rightarrow> string) \<Rightarrow> bool \<Rightarrow> batch \<Rightarrow> nat \<Rightarrow> string \<Rightarrow> invalid + batch" where
  "permit_normalized sha issued b gen dg =
     bindE (ensure (gen \<le> 18446744073709551615 \<and> is_hex 64 dg) Invalid) (\<lambda>_.
     bindE (batch_cycle sha b) (\<lambda>v.
     bindE (ensure (b_operation v = Setup_Operation \<and> \<not> b_review v \<and> b_result v = None \<and>
       b_phase v = (if issued then Setup_Intent else Stopped) \<and>
       di_state (b_dispatch v) = (if issued then Dispatch_Intent else Not_Dispatched) \<and>
       manual_plan (b_plan v) \<and> list_all settled_item (b_items v) \<and>
       (if issued then di_id (b_dispatch v) \<noteq> None \<and> di_setup (b_dispatch v) = Some dg
        else di_id (b_dispatch v) = None \<and> di_setup (b_dispatch v) = None)) Invalid) (\<lambda>_.
     Inr v)))"

definition new_token :: "batch \<Rightarrow> nat \<Rightarrow> string \<Rightarrow> nat \<Rightarrow> token" where
  "new_token v gen dg proc = \<lparr>tk_batch = v, tk_generation = gen, tk_digest = dg, tk_pid = proc, tk_used = False\<rparr>"

text \<open>\<open>approve\<close> is the answer of the reviewer, who is asked without any lock held.\<close>

definition review_setup :: "(string \<Rightarrow> string) \<Rightarrow> nat \<Rightarrow> batch \<Rightarrow> nat \<Rightarrow> string \<Rightarrow> (batch \<Rightarrow> bool) \<Rightarrow> invalid + token" where
  "review_setup sha proc b gen dg approve =
     bindE (permit_normalized sha False b gen dg) (\<lambda>v.
     bindE (ensure (approve v) Invalid) (\<lambda>_. Inr (new_token v gen dg proc)))"

definition issue_permit :: "(string \<Rightarrow> string) \<Rightarrow> nat \<Rightarrow> batch \<Rightarrow> nat \<Rightarrow> string \<Rightarrow> invalid + token" where
  "issue_permit sha proc b gen dg = bindE (permit_normalized sha True b gen dg) (\<lambda>v. Inr (new_token v gen dg proc))"

definition same_text :: "batch \<Rightarrow> batch \<Rightarrow> bool" where
  "same_text b c \<longleftrightarrow> json_bytes (batch_json b) = json_bytes (batch_json c)"

definition token_fits :: "token \<Rightarrow> batch \<Rightarrow> nat \<Rightarrow> string \<Rightarrow> nat \<Rightarrow> bool" where
  "token_fits t v gen dg proc \<longleftrightarrow>
     \<not> tk_used t \<and> tk_pid t = proc \<and> same_text (tk_batch t) v \<and> tk_generation t = gen \<and> tk_digest t = dg"

definition consume_review :: "(string \<Rightarrow> string) \<Rightarrow> nat \<Rightarrow> batch \<Rightarrow> nat \<Rightarrow> string \<Rightarrow> ('w, unit) sio" where
  "consume_review sha proc b gen dg =
     bindS (liftS (permit_normalized sha False b gen dg)) (\<lambda>v.
     bindS (getS (\<lambda>c. case si_review c of None \<Rightarrow> Inl Invalid
       | Some t \<Rightarrow> if token_fits t v gen dg proc then Inr t else Inl Invalid)) (\<lambda>t c.
     (Inr (), c\<lparr>si_review := Some (t\<lparr>tk_used := True\<rparr>)\<rparr>)))"

definition consume_permit :: "(string \<Rightarrow> string) \<Rightarrow> nat \<Rightarrow> batch \<Rightarrow> nat \<Rightarrow> string \<Rightarrow> ('w, unit) sio" where
  "consume_permit sha proc b gen dg =
     bindS (liftS (permit_normalized sha True b gen dg)) (\<lambda>v.
     bindS (getS (\<lambda>c. case si_permit c of None \<Rightarrow> Inl Invalid
       | Some t \<Rightarrow> if token_fits t v gen dg proc then Inr t else Inl Invalid)) (\<lambda>t c.
     (Inr (), c\<lparr>si_permit := Some (t\<lparr>tk_used := True\<rparr>)\<rparr>)))"

section \<open>Dispatch\<close>

definition dispatch_load :: "(string \<Rightarrow> string) \<Rightarrow> string \<Rightarrow> nat \<Rightarrow> domain \<Rightarrow> 'w cell_scheme \<Rightarrow> invalid + (acceptance \<times> intent \<times> batch)" where
  "dispatch_load sha bid expected s c =
     bindE (load_batch sha bid s c) (\<lambda>(a, i, b).
     bindE (ensure (b_revision b = expected \<and> open_intent i \<and> b_operation b = Setup_Operation \<and> b_phase b = Stopped \<and> \<not> b_review b \<and>
       b_result b = None \<and> di_state (b_dispatch b) = Not_Dispatched \<and> manual_plan (b_plan b) \<and> list_all settled_item (b_items b))
       Invalid) (\<lambda>_. Inr (a, i, b)))"

definition unused_dispatch :: "domain \<Rightarrow> string \<Rightarrow> bool" where
  "unused_dispatch s did \<longleftrightarrow> is_hex 32 did \<and>
     list_all (\<lambda>(k, i). case it_progress i of None \<Rightarrow> True
       | Some b \<Rightarrow> di_id (b_dispatch b) \<noteq> Some did \<and> list_all (\<lambda>x. la_id (i_launch x) \<noteq> Some did) (b_items b)) (dm_intents s)"

definition setup_dispatch_change ::
  "(string \<Rightarrow> string) \<Rightarrow> nat \<Rightarrow> string \<Rightarrow> nat \<Rightarrow> workspace \<Rightarrow> link_view \<Rightarrow> string \<Rightarrow> string \<Rightarrow> domain \<Rightarrow>
   ('w site_ext linked_ext runtime_disk_ext scope_disk_ext, (batch \<times> nat) \<times> domain) cio" where
  "setup_dispatch_change sha proc bid expected w v did dg s =
     bindS (getS (dispatch_load sha bid expected s)) (\<lambda>(a, i, b).
     bindS (getS (hold_released sha s a b w v)) (\<lambda>_.
     bindS (ensureS (unused_dispatch s did) Invalid) (\<lambda>_.
     bindS (consume_review sha proc b (it_generation i) dg) (\<lambda>_.
     bindS (save_batch sha bid (it_phase i) i (b\<lparr>b_revision := b_revision b + 1, b_phase := Setup_Intent,
       b_dispatch := \<lparr>di_state = Dispatch_Intent, di_id = Some did, di_setup = Some dg, di_target = None\<rparr>\<rparr>) s) (\<lambda>(n, t).
     returnS ((n, it_generation i), t))))))"

text \<open>The permit exists only once the transaction has been acknowledged.\<close>

definition record_setup_dispatch ::
  "(string \<Rightarrow> string) \<Rightarrow> nat \<Rightarrow> outcome \<Rightarrow> string \<Rightarrow> nat \<Rightarrow> workspace \<Rightarrow> link_view \<Rightarrow> string \<Rightarrow> string \<Rightarrow> ('w, batch) sio" where
  "record_setup_dispatch sha proc oc bid expected w v did dg =
     bindS (inspect sha (\<lambda>s c. bindE (dispatch_load sha bid expected s c) (\<lambda>(a, i, b).
       ensure (physical_ready sha w a b s c) Invalid))) (\<lambda>_.
     bindS (transact sha oc (setup_dispatch_change sha proc bid expected w v did dg)) (\<lambda>(n, gen).
     bindS (liftS (issue_permit sha proc n gen dg)) (\<lambda>t c. (Inr n, c\<lparr>si_permit := Some t\<rparr>))))"

text \<open>\<open>_check_target\<close>: the plan's runs and resources are those of this workspace and runtime.\<close>

definition kind_of :: "domain \<Rightarrow> string list \<Rightarrow> resource_kind \<Rightarrow> shared_resource list" where
  "kind_of s rids k = filter (\<lambda>q. k_kind (sh_key q) = k) (map (\<lambda>rid. the (map_of (dm_resources s) rid)) rids)"

definition target_run :: "domain \<Rightarrow> batch \<Rightarrow> workspace \<Rightarrow> string \<Rightarrow> run \<Rightarrow> bool" where
  "target_run s b w ident u \<longleftrightarrow>
     (case map_of (dm_reservations s) (u_id u) of
        None \<Rightarrow> False
      | Some r \<Rightarrow> rv_resources r = u_resources u \<and> rv_owner r = \<lparr>wr_root = ws_state_root w, wr_binding = ws_binding w\<rparr> \<and>
          set (rv_resources r) \<subseteq> set (resource_ids (p_resources (b_plan b))) \<and> length (rv_resources r) = 3 \<and>
          (case (kind_of s (rv_resources r) Runtime, kind_of s (rv_resources r) Instance, kind_of s (rv_resources r) Native_Home) of
             ([q], [i], [h]) \<Rightarrow>
               sh_place q = Runtime_Place (ws_cache w) ident \<and>
               (case (sh_place i, sh_place h) of
                  (Scope_Place p _ _, Scope_Place p' _ _) \<Rightarrow> p = instance_lock (ws_instance w) \<and> p' = native_home (ws_instance w)
                | _ \<Rightarrow> False)
           | _ \<Rightarrow> False))"

definition workspace_scope :: "workspace \<Rightarrow> scope" where
  "workspace_scope w = \<lparr>sc_machine = g_machine (ws_binding w), sc_local = g_local (ws_binding w), sc_agent = Some (ws_agent w),
     sc_profile = Some (g_profile (ws_binding w))\<rparr>"

definition check_target :: "domain \<Rightarrow> batch \<Rightarrow> workspace \<Rightarrow> string \<Rightarrow> bool" where
  "check_target s b w ident \<longleftrightarrow>
     list_all (\<lambda>u. u_scope u = workspace_scope w) (p_runs (b_plan b)) \<and>
     list_all (\<lambda>q. case map_of (dm_resources s) (q_id q) of None \<Rightarrow> False | Some d \<Rightarrow> sh_id d = q_id q \<and> sh_key d = q_key q)
       (p_resources (b_plan b)) \<and>
     list_all (target_run s b w ident) (p_runs (b_plan b))"

text \<open>
  A preview as computed for the current configuration: the digest of the setup plan, the runtime it
  deploys, the digest of what will be deployed, and whether it has conflicts or drift.
\<close>

record preview =
  pv_workspace :: workspace
  pv_digest :: string
  pv_runtime :: string
  pv_target :: string
  pv_clean :: bool

definition review_and_dispatch_setup ::
  "(string \<Rightarrow> string) \<Rightarrow> nat \<Rightarrow> outcome \<Rightarrow> string \<Rightarrow> nat \<Rightarrow> preview \<Rightarrow> (batch \<Rightarrow> bool) \<Rightarrow> link_view \<Rightarrow> string \<Rightarrow> ('w, batch) sio" where
  "review_and_dispatch_setup sha proc oc bid expected pv approve v did =
     (let w = pv_workspace pv in
      bindS (ensureS (ws_agent w = Omp_Agent \<and> pv_clean pv) Invalid) (\<lambda>_.
      bindS (inspect sha (\<lambda>s c. bindE (dispatch_load sha bid expected s c) (\<lambda>(a, i, b).
        bindE (ensure (check_target s b w (pv_runtime pv)) Invalid) (\<lambda>_. Inr (b, it_generation i))))) (\<lambda>(b, gen).
      bindS (liftS (review_setup sha proc b gen (pv_digest pv) approve)) (\<lambda>t.
      bindS (\<lambda>c. (Inr (), c\<lparr>si_review := Some t\<rparr>)) (\<lambda>_.
      record_setup_dispatch sha proc oc bid expected w v did (pv_digest pv))))))"

section \<open>Execution\<close>

text \<open>\<open>_Execution\<close>: made from a dispatch of this process, or not at all.\<close>

definition new_execution :: "(string \<Rightarrow> string) \<Rightarrow> batch \<Rightarrow> 'w site_scheme \<Rightarrow> invalid + execution" where
  "new_execution sha b c =
     (case (si_permit c, di_setup (b_dispatch b)) of
        (Some t, Some dg) \<Rightarrow> bindE (permit_normalized sha True b (tk_generation t) dg) (\<lambda>v.
          Inr \<lparr>ex_generation = tk_generation t, ex_digest = dg, ex_batch = v, ex_stage = New, ex_started = False,
               ex_workspace = None, ex_runtime = ''''\<rparr>)
      | _ \<Rightarrow> Inl Invalid)"

definition execution_load :: "(string \<Rightarrow> string) \<Rightarrow> execution \<Rightarrow> domain \<Rightarrow> 'w cell_scheme \<Rightarrow> invalid + (acceptance \<times> intent \<times> batch)" where
  "execution_load sha x s c =
     bindE (load_batch sha (b_id (ex_batch x)) s c) (\<lambda>(a, i, b).
     bindE (ensure (open_intent i \<and> it_generation i = ex_generation x \<and> same_text b (ex_batch x)) Invalid) (\<lambda>_. Inr (a, i, b)))"

definition the_execution :: "'w site_scheme \<Rightarrow> invalid + execution" where
  "the_execution c = (case si_execution c of None \<Rightarrow> Inl Invalid | Some x \<Rightarrow> Inr x)"

definition put_execution :: "execution \<Rightarrow> ('w, unit) sio" where
  "put_execution x c = (Inr (), c\<lparr>si_execution := Some x\<rparr>)"

text \<open>The current plan is the reviewed one, and the batch still aims at this workspace.\<close>

definition plan_agrees :: "(string \<Rightarrow> string) \<Rightarrow> execution \<Rightarrow> preview \<Rightarrow> ('w, unit) sio" where
  "plan_agrees sha x pv =
     bindS (ensureS (pv_digest pv = ex_digest x) Invalid) (\<lambda>_.
     inspect sha (\<lambda>s c. bindE (execution_load sha x s c) (\<lambda>(a, i, b).
       ensure (check_target s b (pv_workspace pv) (pv_runtime pv)) Invalid)))"

definition approve_plan :: "(string \<Rightarrow> string) \<Rightarrow> preview \<Rightarrow> ('w, unit) sio" where
  "approve_plan sha pv =
     bindS (getS the_execution) (\<lambda>x.
     bindS (ensureS (ex_stage x = New \<and> ws_agent (pv_workspace pv) = Omp_Agent) Invalid) (\<lambda>_.
     bindS (plan_agrees sha x pv) (\<lambda>_.
     put_execution (x\<lparr>ex_workspace := Some (pv_workspace pv), ex_runtime := pv_runtime pv, ex_stage := Approved\<rparr>))))"

text \<open>The points at which the setup core asks: which stage each needs and leads to.\<close>

datatype scope_point = At_Preflight | At_Prepare | At_Apply

fun scope_from :: "scope_point \<Rightarrow> stage" where
  "scope_from At_Preflight = Approved"
| "scope_from At_Prepare = Preflight"
| "scope_from At_Apply = Sync_Done"

fun scope_to :: "scope_point \<Rightarrow> stage" where
  "scope_to At_Preflight = Preflight"
| "scope_to At_Prepare = Prepared"
| "scope_to At_Apply = Apply_Ready"

datatype runtime_point = Runtime_Prepare | Runtime_Sync | Runtime_Apply

fun runtime_stage :: "runtime_point \<Rightarrow> stage" where
  "runtime_stage Runtime_Prepare = Preflight"
| "runtime_stage Runtime_Sync = Prepared"
| "runtime_stage Runtime_Apply = Sync_Done"

definition runtime_admitted :: "execution \<Rightarrow> workspace \<Rightarrow> string \<Rightarrow> runtime_point \<Rightarrow> bool" where
  "runtime_admitted x w ident p \<longleftrightarrow> ex_workspace x = Some w \<and> ident = ex_runtime x \<and> ex_stage x = runtime_stage p"

definition check_execution_scope :: "(string \<Rightarrow> string) \<Rightarrow> workspace \<Rightarrow> string list \<Rightarrow> scope_point \<Rightarrow> ('w, unit) sio" where
  "check_execution_scope sha w rids p =
     bindS (getS the_execution) (\<lambda>x.
     bindS (ensureS (ex_workspace x = Some w \<and> ex_stage x = scope_from p) Invalid) (\<lambda>_.
     bindS (inspect sha (\<lambda>s c. bindE (execution_load sha x s c) (\<lambda>(a, i, b).
       ensure (set rids = set (map q_id (filter (\<lambda>q. k_kind (q_key q) \<noteq> Runtime) (p_resources (b_plan b)))) \<and>
         list_all (\<lambda>(k, i). k \<noteq> b_id b \<and> overlaps rids (it_resources i) \<longrightarrow> terminal_intent i) (dm_intents s)) Invalid))) (\<lambda>_.
     put_execution (x\<lparr>ex_stage := scope_to p\<rparr>))))"

text \<open>\<open>_physical\<close>: the plan computed again agrees, and every stopped run's deployment is the saved one.\<close>

definition physical_agrees :: "(string \<Rightarrow> string) \<Rightarrow> execution \<Rightarrow> workspace \<Rightarrow> preview \<Rightarrow> ('w, unit) sio" where
  "physical_agrees sha x w pv =
     bindS (ensureS (ex_workspace x = Some (pv_workspace pv) \<and> ex_workspace x = Some w) Invalid) (\<lambda>_.
     bindS (plan_agrees sha x pv) (\<lambda>_.
     inspect sha (\<lambda>s c. bindE (execution_load sha x s c) (\<lambda>(a, i, b).
       ensure (list_all (\<lambda>run. case map_of (ac_records a) run of None \<Rightarrow> False
         | Some y \<Rightarrow> check_stop_deployment sha w y c) (b_accepted b)) Invalid))))"

definition one_runtime :: "batch \<Rightarrow> bool" where
  "one_runtime b \<longleftrightarrow> length (filter (\<lambda>q. k_kind (q_key q) = Runtime) (p_resources (b_plan b))) = 1"

definition begin_change ::
  "(string \<Rightarrow> string) \<Rightarrow> nat \<Rightarrow> execution \<Rightarrow> workspace \<Rightarrow> link_view \<Rightarrow> string \<Rightarrow> domain \<Rightarrow>
   ('w site_ext linked_ext runtime_disk_ext scope_disk_ext, batch \<times> domain) cio" where
  "begin_change sha proc x w v target s =
     bindS (getS (execution_load sha x s)) (\<lambda>(a, i, b).
     bindS (getS (hold_released sha s a b w v)) (\<lambda>_.
     bindS (consume_permit sha proc b (ex_generation x) (ex_digest x)) (\<lambda>_.
     save_batch sha (b_id (ex_batch x)) (it_phase i) i (b\<lparr>b_revision := b_revision b + 1, b_phase := Setup_Running,
       b_dispatch := (b_dispatch b)\<lparr>di_state := Dispatched, di_target := Some target\<rparr>\<rparr>) s)))"

definition begin_sync :: "(string \<Rightarrow> string) \<Rightarrow> nat \<Rightarrow> outcome \<Rightarrow> workspace \<Rightarrow> string \<Rightarrow> preview \<Rightarrow> link_view \<Rightarrow> ('w, unit) sio" where
  "begin_sync sha proc oc w ident pv v =
     bindS (getS the_execution) (\<lambda>x.
     bindS (ensureS (runtime_admitted x w ident Runtime_Sync) Invalid) (\<lambda>_.
     bindS (put_execution (x\<lparr>ex_stage := Sync_Entering\<rparr>)) (\<lambda>_.
     bindS (inspect sha (\<lambda>s c. bindE (execution_load sha x s c) (\<lambda>(a, i, b). ensure (one_runtime b) Invalid))) (\<lambda>_.
     bindS (physical_agrees sha x w pv) (\<lambda>_.
     bindS (transact sha oc (begin_change sha proc x w v (pv_target pv))) (\<lambda>n.
     put_execution (x\<lparr>ex_batch := n, ex_started := True, ex_stage := Sync_Running\<rparr>)))))))"

definition finish_sync :: "('w, unit) sio" where
  "finish_sync =
     bindS (getS the_execution) (\<lambda>x.
     bindS (ensureS (ex_stage x = Sync_Running) Invalid) (\<lambda>_. put_execution (x\<lparr>ex_stage := Sync_Done\<rparr>)))"

definition released_now :: "(string \<Rightarrow> string) \<Rightarrow> execution \<Rightarrow> workspace \<Rightarrow> link_view \<Rightarrow> ('w, batch) sio" where
  "released_now sha x w v = inspect sha (\<lambda>s c. bindE (execution_load sha x s c) (\<lambda>(a, i, b).
     bindE (hold_released sha s a b w v c) (\<lambda>_. Inr b)))"

text \<open>The two halves of \<open>apply_guard\<close>, around the deployment itself.\<close>

definition apply_enter :: "(string \<Rightarrow> string) \<Rightarrow> workspace \<Rightarrow> preview \<Rightarrow> preview \<Rightarrow> link_view \<Rightarrow> ('w, unit) sio" where
  "apply_enter sha w pv0 pv v =
     bindS (getS the_execution) (\<lambda>x.
     bindS (ensureS (ex_workspace x = Some w \<and> ex_stage x = Apply_Ready \<and> pv_digest pv0 = ex_digest x) Invalid) (\<lambda>_.
     bindS (put_execution (x\<lparr>ex_stage := Apply_Entering\<rparr>)) (\<lambda>_.
     bindS (inspect sha (\<lambda>s c. bindE (execution_load sha x s c) (\<lambda>(a, i, b). ensure (one_runtime b \<and> sk_home c) Invalid))) (\<lambda>_.
     bindS (physical_agrees sha x w pv) (\<lambda>_.
     bindS (released_now sha x w v) (\<lambda>_.
     put_execution (x\<lparr>ex_stage := Apply_Running\<rparr>)))))))"

definition deployed_as :: "batch \<Rightarrow> 'w site_scheme \<Rightarrow> bool" where
  "deployed_as b c \<longleftrightarrow> \<not> ds_pending (si_deployment c) \<and> ds_intact (si_deployment c) \<and>
     (case ds_current (si_deployment c) of None \<Rightarrow> False | Some d \<Rightarrow> di_target (b_dispatch b) = Some (dp_setup d))"

definition apply_leave :: "(string \<Rightarrow> string) \<Rightarrow> workspace \<Rightarrow> link_view \<Rightarrow> link_view \<Rightarrow> ('w, unit) sio" where
  "apply_leave sha w v v2 =
     bindS (getS the_execution) (\<lambda>x.
     bindS (ensureS (ex_stage x = Apply_Running) Invalid) (\<lambda>_.
     bindS (released_now sha x w v) (\<lambda>b.
     bindS (getS (\<lambda>c. ensure (deployed_as b c) Invalid)) (\<lambda>_.
     bindS (released_now sha x w v2) (\<lambda>_.
     put_execution (x\<lparr>ex_stage := Apply_Done\<rparr>))))))"

text \<open>The outcome of the setup core: its exit code with the digest of its report, or nothing.\<close>

definition finish_result :: "(int \<times> string) option \<Rightarrow> operation_result" where
  "finish_result res = (case res of
     None \<Rightarrow> \<lparr>or_status = Result_Unknown, or_exit = None, or_digest = None\<rparr>
   | Some (rc, dg) \<Rightarrow> \<lparr>or_status = if rc = 0 then Succeeded else Partial, or_exit = Some rc, or_digest = Some dg\<rparr>)"

definition finish_phase :: "(int \<times> string) option \<Rightarrow> batch_phase" where
  "finish_phase res = (case res of None \<Rightarrow> Batch_Unknown | Some (rc, dg) \<Rightarrow> if rc = 0 then Setup_Succeeded else Batch_Partial)"

definition finish_change ::
  "(string \<Rightarrow> string) \<Rightarrow> execution \<Rightarrow> (int \<times> string) option \<Rightarrow> domain \<Rightarrow> ('w, batch \<times> domain) cio" where
  "finish_change sha x res s =
     bindS (getS (execution_load sha x s)) (\<lambda>(a, i, b).
     save_batch sha (b_id (ex_batch x)) (if open_phase (finish_phase res) then Intent_Unknown else it_phase i) i
       (b\<lparr>b_revision := b_revision b + 1, b_phase := finish_phase res,
          b_dispatch := (b_dispatch b)\<lparr>di_state := if res = None then Dispatch_Unknown else Dispatch_Confirmed\<rparr>,
          b_result := Some (finish_result res), b_review := finish_phase res \<noteq> Setup_Succeeded\<rparr>) s)"

definition finish_execution :: "(string \<Rightarrow> string) \<Rightarrow> outcome \<Rightarrow> (int \<times> string) option \<Rightarrow> ('w, batch) sio" where
  "finish_execution sha oc res =
     bindS (getS the_execution) (\<lambda>x.
     bindS (ensureS (ex_started x \<and> (case res of Some (rc, dg) \<Rightarrow> rc = 0 \<longrightarrow> ex_stage x = Apply_Done | None \<Rightarrow> True)) Invalid) (\<lambda>_.
     bindS (transact sha oc (finish_change sha x res)) (\<lambda>n.
     bindS (put_execution (x\<lparr>ex_batch := n, ex_stage := Finished\<rparr>)) (\<lambda>_. returnS n))))"

text \<open>
  \<open>execute_setup\<close>: \<open>core\<close> is the setup command, which calls the steps above at its own points and
  then returns its outcome or raises; its exception is passed on, after an unknown result has been
  recorded if the synchronisation had begun.
\<close>

definition close_execution :: "('r \<times> 'w site_scheme) \<Rightarrow> ('r \<times> 'w site_scheme)" where
  "close_execution rc = (fst rc, (snd rc)\<lparr>si_execution := None\<rparr>)"

definition started :: "'w site_scheme \<Rightarrow> bool" where
  "started c \<longleftrightarrow> (case si_execution c of None \<Rightarrow> False | Some x \<Rightarrow> ex_started x)"

definition execute_setup :: "(string \<Rightarrow> string) \<Rightarrow> outcome \<Rightarrow> ('w, int \<times> string) sio \<Rightarrow> batch \<Rightarrow> ('w, batch) sio" where
  "execute_setup sha oc core b =
     bindS (getS (new_execution sha b)) (\<lambda>x.
     bindS (put_execution x) (\<lambda>_ c. close_execution
       (case core c of
          (Inl e, d) \<Rightarrow> (Inl e, if started d then snd (finish_execution sha oc None d) else d)
        | (Inr res, d) \<Rightarrow> if started d then finish_execution sha oc (Some res) d else (Inr (ex_batch x), d))))"

section \<open>Handover\<close>

definition handoff_load ::
  "(string \<Rightarrow> string) \<Rightarrow> string \<Rightarrow> nat \<Rightarrow> (batch \<times> nat) option \<Rightarrow> domain \<Rightarrow> 'w cell_scheme \<Rightarrow> invalid + (acceptance \<times> intent \<times> batch)" where
  "handoff_load sha bid expected prior s c =
     bindE (load_batch sha bid s c) (\<lambda>(a, i, b).
     bindE (ensure (b_revision b = expected \<and> b_operation b = Setup_Operation \<and> open_intent i \<and>
       (case prior of None \<Rightarrow> True | Some (b', gen) \<Rightarrow> same_text b b' \<and> it_generation i = gen) \<and>
       b_phase b = Setup_Succeeded \<and> \<not> b_review b \<and> di_state (b_dispatch b) = Dispatch_Confirmed \<and>
       di_setup (b_dispatch b) \<noteq> None \<and> di_target (b_dispatch b) \<noteq> None \<and>
       (case b_result b of None \<Rightarrow> False | Some r \<Rightarrow> or_status r = Succeeded \<and> or_exit r = Some 0 \<and> or_digest r \<noteq> None) \<and>
       manual_plan (b_plan b) \<and> list_all settled_item (b_items b)) Invalid) (\<lambda>_. Inr (a, i, b)))"

definition scope_agrees :: "workspace \<Rightarrow> batch \<Rightarrow> bool" where
  "scope_agrees w b \<longleftrightarrow> ws_agent w = Omp_Agent \<and> list_all (\<lambda>u. u_scope u = workspace_scope w) (p_runs (b_plan b))"

text \<open>\<open>_read_target\<close>: what is deployed now, compared with the target of the batch.\<close>

datatype target_state = Journal_Pending | Target_Matches | Target_Differs

definition read_target :: "workspace \<Rightarrow> string \<Rightarrow> 'w site_scheme \<Rightarrow> invalid + target_state" where
  "read_target w target c =
     (let ds = si_deployment c in
      if ds_pending ds then Inr Journal_Pending
      else case ds_current ds of
        None \<Rightarrow> Inr Target_Differs
      | Some d \<Rightarrow> if dp_binding d = ws_binding w \<and> ds_owner ds = ws_binding w \<and> dp_setup d = target
          then (if ds_intact ds then Inr Target_Matches else Inl Invalid) else Inr Target_Differs)"

definition handoff_ready :: "(string \<Rightarrow> string) \<Rightarrow> string \<Rightarrow> nat \<Rightarrow> batch \<times> nat \<Rightarrow> workspace \<Rightarrow> link_view \<Rightarrow> ('w, unit) sio" where
  "handoff_ready sha bid expected prior w v = inspect sha (\<lambda>s c.
     bindE (handoff_load sha bid expected (Some prior) s c) (\<lambda>(a, i, b).
     bindE (ensure (scope_agrees w b \<and> lease_plan_ok s w (b_accepted b) c) Invalid) (\<lambda>_.
     bindE (hold_released sha s a b w v c) (\<lambda>_.
     bindE (read_target w (the (di_target (b_dispatch b))) c) (\<lambda>t. ensure (t = Target_Matches) Invalid)))))"

definition handoff_change ::
  "(string \<Rightarrow> string) \<Rightarrow> string \<Rightarrow> nat \<Rightarrow> batch \<times> nat \<Rightarrow> workspace \<Rightarrow> link_view \<Rightarrow> domain \<Rightarrow> ('w linked_ext runtime_disk_ext scope_disk_ext, batch \<times> domain) cio" where
  "handoff_change sha bid expected prior w v s =
     bindS (getS (handoff_load sha bid expected (Some prior) s)) (\<lambda>(a, i, b).
     bindS (ensureS (scope_agrees w b) Invalid) (\<lambda>_.
     bindS (getS (hold_released sha s a b w v)) (\<lambda>_.
     save_batch sha bid Intent_Completed i (b\<lparr>b_revision := b_revision b + 1,
       b_items := map (\<lambda>x. x\<lparr>i_restore := Restore_Manual\<rparr>) (b_items b)\<rparr>) s)))"

definition complete_setup_manual ::
  "(string \<Rightarrow> string) \<Rightarrow> outcome \<Rightarrow> string \<Rightarrow> nat \<Rightarrow> workspace \<Rightarrow> link_view \<Rightarrow> link_view \<Rightarrow> link_view \<Rightarrow> (batch \<Rightarrow> nat \<Rightarrow> bool) \<Rightarrow> ('w, batch) sio" where
  "complete_setup_manual sha oc bid expected w v v2 v3 approve =
     bindS (inspect sha (\<lambda>s c. bindE (handoff_load sha bid expected None s c) (\<lambda>(a, i, b). Inr (b, it_generation i)))) (\<lambda>prior.
     bindS (handoff_ready sha bid expected prior w v) (\<lambda>_.
     bindS (ensureS (approve (fst prior) (snd prior)) Invalid) (\<lambda>_.
     bindS (handoff_ready sha bid expected prior w v2) (\<lambda>_.
     transact sha oc (handoff_change sha bid expected prior w v3)))))"

text \<open>\<open>observe_setup\<close>: a read-only answer; an unconfirmed site is reported as such.\<close>

datatype observed_target = No_Target | Site_Unconfirmed | Site_Target target_state

definition observe_setup :: "(string \<Rightarrow> string) \<Rightarrow> string \<Rightarrow> nat \<Rightarrow> workspace \<Rightarrow> link_view \<Rightarrow> ('w, observed_target) sio" where
  "observe_setup sha bid expected w v = inspect sha (\<lambda>s c.
     bindE (load_batch sha bid s c) (\<lambda>(a, i, b).
     bindE (ensure (b_revision b = expected \<and> b_operation b = Setup_Operation \<and> scope_agrees w b) Invalid) (\<lambda>_.
     case di_target (b_dispatch b) of None \<Rightarrow> Inr No_Target
     | Some target \<Rightarrow>
         (case (hold_released sha s a b w v c, read_target w target c) of
            (Inr _, Inr t) \<Rightarrow> Inr (if lease_plan_ok s w (b_accepted b) c then Site_Target t else Site_Unconfirmed)
          | _ \<Rightarrow> Inr Site_Unconfirmed))))"

end
