(* ===== verification/Batch_Life.thy ===== *)
theory Batch_Life
  imports Maintenance_Setup
begin

text \<open>
  What all steps of a batch have in common: the abstract machine of its phases, the contract of a
  change of one batch (the locale \<open>batch_writer\<close>, an extension of the contract of the domain) and
  its interpretation by every step of the maintenance flow.
\<close>

section \<open>The abstract machine\<close>

fun batch_next :: "batch_phase \<Rightarrow> batch_phase list" where
  "batch_next Accepted = [Requested, Stopped, Batch_Unknown]"
| "batch_next Requested = [Stopped, Batch_Unknown]"
| "batch_next Stopped = [Setup_Intent, Batch_Unknown]"
| "batch_next Setup_Intent = [Setup_Running, Batch_Unknown]"
| "batch_next Setup_Running = [Setup_Succeeded, Batch_Partial, Batch_Unknown]"
| "batch_next Setup_Succeeded = [Batch_Unknown]"
| "batch_next Batch_Partial = [Batch_Unknown]"
| "batch_next Batch_Unknown = []"
| "batch_next _ = [Batch_Unknown]"

fun batch_rank :: "batch_phase \<Rightarrow> nat" where
  "batch_rank Accepted = 0"
| "batch_rank Requested = 1"
| "batch_rank Stopped = 2"
| "batch_rank Setup_Intent = 3"
| "batch_rank Setup_Running = 4"
| "batch_rank Batch_Unknown = 7"
| "batch_rank Batch_Partial = 6"
| "batch_rank _ = 5"

interpretation batch_phases: phase_machine batch_next batch_rank
  by unfold_locales (rename_tac q p, case_tac p, auto)

text \<open>Facts are never taken back, item by item.\<close>

definition facts_grow :: "facts \<Rightarrow> facts \<Rightarrow> bool" where
  "facts_grow f g \<longleftrightarrow> (stop_requested f \<longrightarrow> stop_requested g) \<and> (exit_confirmed f \<longrightarrow> exit_confirmed g) \<and>
     (resources_released f \<longrightarrow> resources_released g) \<and> (session_sealed f \<longrightarrow> session_sealed g)"

definition item_grows :: "item \<Rightarrow> item \<Rightarrow> bool" where
  "item_grows x y \<longleftrightarrow> i_run y = i_run x \<and> i_launch y = i_launch x \<and> facts_grow (i_facts x) (i_facts y) \<and>
     (i_stop x \<noteq> Stop_Accepted \<longrightarrow> i_stop y \<noteq> Stop_Accepted)"

definition batch_evolves :: "batch \<Rightarrow> batch \<Rightarrow> bool" where
  "batch_evolves b c \<longleftrightarrow>
     b_id c = b_id b \<and> b_plan c = b_plan b \<and> b_operation c = b_operation b \<and> b_accepted c = b_accepted b \<and>
     b_revision c = b_revision b + 1 \<and> batch_phases.steps (b_phase b) (b_phase c) \<and>
     list_all2 item_grows (b_items b) (b_items c)"

lemma facts_grow_refl [simp]: "facts_grow f f"
  by (simp add: facts_grow_def)

lemma item_grows_refl [simp]: "item_grows x x"
  by (simp add: item_grows_def)

section \<open>The contract\<close>

definition progress_evolves :: "domain \<Rightarrow> domain \<Rightarrow> bool" where
  "progress_evolves s t \<longleftrightarrow> (\<forall>k i b. map_of (dm_intents s) k = Some i \<and> it_progress i = Some b \<longrightarrow>
     (\<exists>j c. map_of (dm_intents t) k = Some j \<and> it_progress j = Some c \<and> (c = b \<or> batch_evolves b c)))"

text \<open>No reservation counts as released that did not before.\<close>

definition no_new_release :: "domain \<Rightarrow> domain \<Rightarrow> bool" where
  "no_new_release s t \<longleftrightarrow> (\<forall>run r. map_of (dm_reservations t) run = Some r \<and> rv_phase r = Released \<longrightarrow>
     (\<exists>q. map_of (dm_reservations s) run = Some q \<and> rv_phase q = Released))"

locale progress_keeper = domain_writer sha change for sha :: "string \<Rightarrow> string" and change :: "domain \<Rightarrow> ('w, 'a \<times> domain) cio" +
  assumes change_progress: "domain_ok sha s \<Longrightarrow> change s c = (Inr (x, t), d) \<Longrightarrow> progress_evolves s t"
begin

lemma transact_progress:
  assumes "transact sha oc change c = (r, d)"
  shows "same_file c d \<or> (\<exists>s t. dc_state c = Some s \<and> domain_ok sha s \<and>
    (evolves s t \<and> (fences s \<longrightarrow> fences t) \<and> progress_evolves s t) \<and>
    dc_state d = Some (counted t) \<and> dc_mode d = 384 \<and> dc_root d = dc_root c \<and> domain_encodes sha (counted t))"
  using assms by (rule transact_related) (auto intro: leaves_file change_evolves change_fences change_progress)

end

locale batch_writer = progress_keeper sha change for sha :: "string \<Rightarrow> string" and change :: "domain \<Rightarrow> ('w, 'a \<times> domain) cio" +
  assumes change_quiet: "domain_ok sha s \<Longrightarrow> change s c = (Inr (x, t), d) \<Longrightarrow> no_new_release s t"
begin

lemma transact_all:
  assumes "transact sha oc change c = (r, d)"
  shows "same_file c d \<or> (\<exists>s t. dc_state c = Some s \<and> domain_ok sha s \<and>
    (evolves s t \<and> (fences s \<longrightarrow> fences t) \<and> progress_evolves s t \<and> no_new_release s t) \<and>
    dc_state d = Some (counted t) \<and> dc_mode d = 384 \<and> dc_root d = dc_root c \<and> domain_encodes sha (counted t))"
  using assms by (rule transact_related) (auto intro: leaves_file change_evolves change_fences change_progress change_quiet)

end

section \<open>Changes that leave one of the tables alone\<close>

lemma progress_evolves_refl: "dm_intents t = dm_intents s \<Longrightarrow> progress_evolves s t"
  by (auto simp: progress_evolves_def)

lemma no_new_release_refl: "dm_reservations t = dm_reservations s \<Longrightarrow> no_new_release s t"
  by (auto simp: no_new_release_def)

lemma tables_put [simp]:
  "dm_intents (put_reservation k r s) = dm_intents s" "dm_reservations (put_intent k i s) = dm_reservations s"
  "dm_intents (add_resource e s) = dm_intents s" "dm_reservations (add_resource e s) = dm_reservations s"
  by (simp_all add: put_reservation_def put_intent_def add_resource_def)

lemma put_reservation_quiet:
  assumes "rv_phase r = Released \<Longrightarrow> \<exists>q. map_of (dm_reservations s) run = Some q \<and> rv_phase q = Released"
  shows "no_new_release s (put_reservation run r s)"
  using assms by (auto simp: no_new_release_def put_reservation_def split: if_splits)

lemma put_intent_progress:
  assumes "\<And>i b. map_of (dm_intents s) k = Some i \<Longrightarrow> it_progress i = Some b \<Longrightarrow>
    \<exists>c. it_progress j = Some c \<and> (c = b \<or> batch_evolves b c)"
  shows "progress_evolves s (put_intent k j s)"
  using assms by (auto simp: progress_evolves_def put_intent_def)

section \<open>A saved batch\<close>

lemma stored_normal:
  assumes "domain_ok sha s" "map_of (dm_intents s) bid = Some i" "it_progress i = Some b"
  shows "batch_normalize sha b = Inr b" "it_batch i = bid"
proof -
  have "intent_ok sha s (bid, i)"
    using assms(1) map_of_SomeD [OF assms(2)] by (auto simp: domain_ok_def list_all_iff)
  with assms(3) show "batch_normalize sha b = Inr b" "it_batch i = bid" by (simp_all add: intent_ok_def progress_ok_def Let_def)
qed

lemma load_batch_at:
  assumes "domain_ok sha s" "load_batch sha bid s c = Inr (a, i, b)"
  shows "map_of (dm_intents s) bid = Some i \<and> it_progress i = Some b"
proof -
  from assms(2) obtain x where x: "read_saved sha s bid c = Inr x" and k: "(case x of None \<Rightarrow> Inl Invalid
      | Some (a, i) \<Rightarrow> case it_progress i of None \<Rightarrow> Inl Invalid | Some b \<Rightarrow> bindE (batch_cycle sha b) (\<lambda>b'. Inr (a, i, b'))) = Inr (a, i, b)"
    unfolding load_batch_def bindE_eq_Inr by blast
  then obtain a0 i0 where y: "x = Some (a0, i0)" by (cases x) auto
  with k obtain b0 where z: "it_progress i0 = Some b0" by (cases "it_progress i0") auto
  with k y have b0: "it_progress i = Some b0" "batch_cycle sha b0 = Inr b" and r: "read_saved sha s bid c = Inr (Some (a, i))"
    using x by (auto simp: bindE_eq_Inr)
  from r have i: "map_of (dm_intents s) bid = Some i"
    by (auto simp: read_saved_def result_simps split: option.splits if_splits)
  have "batch_normalize sha b0 = Inr b0" using stored_normal(1) [OF assms(1) i b0(1)] .
  then have "b = b0" using b0(2) by (auto simp: batch_cycle_def split: if_splits)
  with i b0 show ?thesis by simp
qed

lemma grown_items:
  assumes "list_all2 item_grows xs ys"
  shows "map i_run ys = map i_run xs"
  using assms by (induction rule: list_all2_induct) (auto simp: item_grows_def)

lemma normal_parts:
  assumes "batch_normalize sha b = Inr b"
  shows "plan_normalize sha True (b_plan b) = Inr (b_plan b)" "sorted (b_accepted b)" "sorted (map i_run (b_items b))"
proof -
  obtain p where p: "plan_normalize sha True (b_plan b) = Inr p"
    and b: "b = b\<lparr>b_plan := p, b_accepted := sort (b_accepted b), b_items := sort_key i_run (b_items b)\<rparr>"
    using assms by (rule batch_normalize_Inr)
  from arg_cong [OF b, of b_plan] have "b_plan b = p" by simp
  with p show "plan_normalize sha True (b_plan b) = Inr (b_plan b)" by simp
  from arg_cong [OF b, of b_accepted] have "b_accepted b = sort (b_accepted b)" by simp
  then show "sorted (b_accepted b)" by (metis sorted_sort)
  from arg_cong [OF b, of b_items] have "b_items b = sort_key i_run (b_items b)" by simp
  then show "sorted (map i_run (b_items b))" by (metis sorted_sort_key)
qed

lemma saved_evolves:
  assumes "domain_ok sha s" "map_of (dm_intents s) bid = Some i" "it_progress i = Some b"
    and "batch_evolves b b'" "batch_cycle sha b' = Inr n"
  shows "n = b'"
proof -
  note nb = normal_parts [OF stored_normal(1) [OF assms(1-3)]]
  have same: "b_plan b' = b_plan b" "b_accepted b' = b_accepted b" "list_all2 item_grows (b_items b) (b_items b')"
    using assms(4) by (simp_all add: batch_evolves_def)
  have "sorted (map i_run (b_items b'))" using grown_items [OF same(3)] nb(3) by simp
  then have fix_: "b'\<lparr>b_plan := b_plan b', b_accepted := sort (b_accepted b'), b_items := sort_key i_run (b_items b')\<rparr> = b'"
    using nb(2) same(2) by (simp add: sort_key_id_if_sorted sorted_sort_id)
  from assms(5) obtain c where c: "batch_normalize sha b' = Inr c" "batch_normalize sha c = Inr n"
    by (auto simp: batch_cycle_def result_simps split: if_splits)
  from c(1) nb(1) same(1) fix_ have "c = b'" by (elim batch_normalize_Inr) simp
  with c show ?thesis by simp
qed

lemma cycle_valid: "batch_cycle sha b = Inr n \<Longrightarrow> \<exists>p. batch_ok p b"
  by (auto simp: batch_cycle_def result_simps elim: batch_normalize_Inr)

text \<open>Saving a grown batch: what becomes of the domain.\<close>

lemma save_batch_result:
  assumes "save_batch sha bid phase i b' s c = (Inr (n, t), d)" "domain_ok sha s" "map_of (dm_intents s) bid = Some i"
    and "it_progress i = Some b" "batch_evolves b b'" "intent_phases.steps (it_phase i) phase"
  shows "n = b'" "evolves s t" "fences s \<Longrightarrow> fences t" "progress_evolves s t" "no_new_release s t" "(\<exists>p. batch_ok p b')"
    "t = put_intent bid (i\<lparr>it_phase := phase, it_progress := Some b'\<rparr>) s"
proof -
  from assms(1) have n: "batch_cycle sha b' = Inr n" "t = put_intent bid (i\<lparr>it_phase := phase, it_progress := Some n\<rparr>) s"
    by (auto simp: save_batch_def result_simps)
  show eq: "n = b'" using saved_evolves [OF assms(2-5) n(1)] .
  have "intent_evolves i (i\<lparr>it_phase := phase, it_progress := Some n\<rparr>)"
    using assms(6) by (simp add: intent_evolves_def)
  note st = intent_step [OF assms(2,3) this]
  show "evolves s t" "fences s \<Longrightarrow> fences t" using st n(2) by simp_all
  show "progress_evolves s t" unfolding n(2) eq using assms(3-5) by (intro put_intent_progress) auto
  show "no_new_release s t" unfolding n(2) by (simp add: no_new_release_refl)
  show "\<exists>p. batch_ok p b'" using cycle_valid [OF n(1)] .
  show "t = put_intent bid (i\<lparr>it_phase := phase, it_progress := Some b'\<rparr>) s" using n(2) eq by simp
qed

section \<open>The steps keep the contract\<close>

lemma keeps_case_prod [preserved]: "(\<And>a b. keeps P (f a b)) \<Longrightarrow> keeps P (case p of (a, b) \<Rightarrow> f a b)"
  by (cases p) simp

text \<open>Everything the contract asks of an acknowledged change.\<close>

definition steps_well :: "domain \<Rightarrow> domain \<Rightarrow> bool" where
  "steps_well s t \<longleftrightarrow> evolves s t \<and> (fences s \<longrightarrow> fences t) \<and> progress_evolves s t \<and> no_new_release s t"

lemma batch_writerI:
  assumes "\<And>s c0. keeps (same_file c0) (change s)"
    and "\<And>s c x t d. domain_ok sha s \<Longrightarrow> change s c = (Inr (x, t), d) \<Longrightarrow> steps_well s t"
  shows "batch_writer sha change"
proof
  fix s c r d x t
  show "same_file c d" if "change s c = (r, d)"
    using keepsD [OF assms(1) same_file_refl that] .
  assume "domain_ok sha s" and "change s c = (Inr (x, t), d)"
  from assms(2) [OF this] show "evolves s t" "fences s \<Longrightarrow> fences t" "progress_evolves s t" "no_new_release s t"
    by (simp_all add: steps_well_def)
qed

lemma keeps_save_batch [preserved]: "keeps P (save_batch sha bid phase i b s)"
  unfolding save_batch_def by (intro preserved)

lemma save_batch_well:
  assumes "save_batch sha bid phase i b' s c = (Inr (n, t), d)" "domain_ok sha s" "load_batch sha bid s c0 = Inr (a, i, b)"
    and "batch_evolves b b'" "intent_phases.steps (it_phase i) phase"
  shows "steps_well s t" "n = b'" "t = put_intent bid (i\<lparr>it_phase := phase, it_progress := Some b'\<rparr>) s"
  using save_batch_result [OF assms(1,2) _ _ assms(4,5)] load_batch_at [OF assms(2,3)] by (simp_all add: steps_well_def)

lemma open_intent_steps:
  "open_intent i \<Longrightarrow> intent_phases.steps (it_phase i) (it_phase i)"
  "open_intent i \<Longrightarrow> intent_phases.steps (it_phase i) Intent_Unknown"
  "open_intent i \<Longrightarrow> intent_phases.steps (it_phase i) Intent_Completed"
  by (auto simp: open_intent_def intent_phases.steps_def)

subsection \<open>Progress\<close>

lemma change_item_grows:
  "change_item run f xs = Inr ys \<Longrightarrow> (\<And>x y. f x = Inr y \<Longrightarrow> item_grows x y) \<Longrightarrow> list_all2 item_grows xs ys"
  by (induction xs arbitrary: ys) (auto simp: result_simps list.rel_refl split: if_splits)

definition grows_items :: "(batch \<Rightarrow> acceptance \<Rightarrow> invalid + batch) \<Rightarrow> bool" where
  "grows_items change \<longleftrightarrow> (\<forall>b a x. change b a = Inr x \<longrightarrow> (\<exists>xs. x = b\<lparr>b_items := xs\<rparr> \<and> list_all2 item_grows (b_items b) xs))"

lemma with_item_grows:
  assumes "with_item run f b = Inr x" "\<And>x y. f x = Inr y \<Longrightarrow> item_grows x y"
  shows "\<exists>xs. x = b\<lparr>b_items := xs\<rparr> \<and> list_all2 item_grows (b_items b) xs"
  using assms(1) change_item_grows [of run f "b_items b", OF _ assms(2)] by (auto simp: with_item_def result_simps)

lemma request_grows: "grows_items (\<lambda>b a. with_item run request_item b)"
  unfolding grows_items_def
  by (intro allI impI, erule with_item_grows) (auto simp: request_item_def item_grows_def facts_grow_def split: if_splits)

lemma exit_grows: "grows_items (exit_change ob)"
proof -
  have "item_grows x y" if "exit_item x = Inr y" for x y
    using that by (auto simp: exit_item_def item_grows_def facts_grow_def split: if_splits)
  then show ?thesis
    by (auto simp: grows_items_def exit_change_def result_simps dest!: with_item_grows split: option.splits)
qed

lemma unknown_grows: "grows_items (\<lambda>b a. with_item run (\<lambda>x. Inr (x\<lparr>i_stop := Stop_Unknown\<rparr>)) b)"
  unfolding grows_items_def
  by (intro allI impI, erule with_item_grows) (auto simp: item_grows_def)

text \<open>The phase is computed anew, yet never falls back to \<open>Accepted\<close>.\<close>

lemma requested_stays:
  assumes "batch_ok p b" "b_phase b = Requested" "list_all2 item_grows (b_items b) (b_items c)" "batch_ok q c"
  shows "b_phase c \<noteq> Accepted"
proof
  assume "b_phase c = Accepted"
  with assms(4) have all: "\<forall>y\<in>set (b_items c). i_stop y = Stop_Accepted"
    by (auto simp: batch_ok_def phase_ok_def Let_def list_all_iff)
  have "phase_ok b" using assms(1) by (simp add: batch_ok_def)
  then have "list_ex (\<lambda>i. i_stop i \<in> {Stop_Requested, Stop_Confirmed}) (b_items b)"
    using assms(2) by (simp add: phase_ok_def Let_def)
  then obtain x where x: "x \<in> set (b_items b)" "i_stop x \<noteq> Stop_Accepted"
    by (auto simp: list_ex_iff)
  then obtain k where k: "k < length (b_items b)" "x = b_items b ! k" by (auto simp: in_set_conv_nth)
  with assms(3) have "item_grows x (b_items c ! k)" "b_items c ! k \<in> set (b_items c)"
    by (auto simp: list_all2_conv_all_nth)
  with x all show False by (auto simp: item_grows_def)
qed

lemma progress_change_well:
  assumes "grows_items change" "domain_ok sha s" "progress_change sha bid expected change s c = (Inr (n, t), d)"
  shows "steps_well s t"
proof -
  from assms(3) obtain a i b x where ld: "load_batch sha bid s c = Inr (a, i, b)" and op: "open_intent i"
    and ph: "b_phase b \<in> {Accepted, Requested}" and ch: "change b a = Inr x"
    and sv: "save_batch sha bid (if b_phase (summed_up x) = Batch_Unknown then Intent_Unknown else it_phase i) i
      ((summed_up x)\<lparr>b_revision := b_revision (summed_up x) + 1\<rparr>) s c = (Inr (n, t), d)" (is "save_batch _ _ ?ph _ ?b _ _ = _")
    by (auto simp: progress_change_def result_simps Let_def)
  from assms(1) ch obtain xs where x: "x = b\<lparr>b_items := xs\<rparr>" "list_all2 item_grows (b_items b) xs"
    unfolding grows_items_def by blast
  have ok: "\<exists>p. batch_ok p ?b"
    using sv cycle_valid by (auto simp: save_batch_def result_simps)
  have "\<exists>p. batch_ok p b"
    using stored_normal(1) [OF assms(2)] load_batch_at [OF assms(2) ld] by (blast elim: batch_normalize_Inr)
  then have "batch_phases.steps (b_phase b) (b_phase ?b)"
    using ph ok requested_stays [of _ b ?b] x by (auto simp: summed_up_def batch_phases.steps_def)
  then have ev: "batch_evolves b ?b"
    using x by (simp add: batch_evolves_def summed_up_def)
  have "intent_phases.steps (it_phase i) ?ph" using open_intent_steps [OF op] by simp
  from save_batch_well(1) [OF sv assms(2) ld ev this] show ?thesis .
qed

lemma keeps_progress_change [preserved]: "keeps P (progress_change sha bid expected change s)"
  unfolding progress_change_def Let_def by (intro preserved)

lemma progress_writer: "grows_items change \<Longrightarrow> batch_writer sha (progress_change sha bid expected change)"
  by (rule batch_writerI) (auto intro: keeps_progress_change progress_change_well)

interpretation request_writer: batch_writer sha "progress_change sha bid expected (\<lambda>b a. with_item run request_item b)" for sha bid expected run
  by (rule progress_writer) (rule request_grows)

interpretation exit_writer: batch_writer sha "progress_change sha bid expected (exit_change ob)" for sha bid expected ob
  by (rule progress_writer) (rule exit_grows)

interpretation batch_unknown_writer: batch_writer sha
  "progress_change sha bid expected (\<lambda>b a. with_item run (\<lambda>x. Inr (x\<lparr>i_stop := Stop_Unknown\<rparr>)) b)" for sha bid expected run
  by (rule progress_writer) (rule unknown_grows)

subsection \<open>Release, setup and handover\<close>

lemma open_intent_keeps: "open_intent i \<Longrightarrow> open_intent (i\<lparr>it_progress := p\<rparr>)"
  by (simp add: open_intent_def)

lemma keeps_update [preserved]: "(\<And>c. P c \<Longrightarrow> P (f c)) \<Longrightarrow> keeps P (\<lambda>c. (Inr (), f c))"
  by (simp add: keeps_def)

lemma keeps_consume_review [preserved]: "(\<And>c t. P c \<Longrightarrow> P (c\<lparr>si_review := t\<rparr>)) \<Longrightarrow> keeps P (consume_review sha proc b gen dg)"
  unfolding consume_review_def by (intro keeps_bindS preserved)

lemma keeps_consume_permit [preserved]: "(\<And>c t. P c \<Longrightarrow> P (c\<lparr>si_permit := t\<rparr>)) \<Longrightarrow> keeps P (consume_permit sha proc b gen dg)"
  unfolding consume_permit_def by (intro keeps_bindS preserved)

lemma released_grows: "list_all (\<lambda>x. exit_confirmed (i_facts x) \<and> \<not> resources_released (i_facts x) \<and>
     (i_stop x = Stop_Accepted \<or> i_stop x = Stop_Requested)) xs \<Longrightarrow>
    list_all2 item_grows xs (map released_item xs)"
  by (induction xs) (auto simp: released_item_def item_grows_def facts_grow_def)

lemma manual_grows: "list_all2 item_grows xs (map (\<lambda>x. x\<lparr>i_restore := Restore_Manual\<rparr>) xs)"
  by (induction xs) (auto simp: item_grows_def)

lemma same_items: "list_all2 item_grows xs xs"
  by (simp add: list.rel_refl)

lemma release_loaded:
  assumes "release_load sha bid expected s c = Inr (a, i, b)"
  shows "load_batch sha bid s c = Inr (a, i, b)" "open_intent i" "b_phase b \<in> {Accepted, Requested}"
    "list_all2 item_grows (b_items b) (map released_item (b_items b))"
  using assms by (auto simp: release_load_def bindE_eq_Inr ensure_def intro!: released_grows split: if_splits)

lemma release_confirmation_well:
  assumes "domain_ok sha s" "release_confirmation sha bid expected w v s c = (Inr (n, t), d)"
  shows "steps_well s t"
proof -
  from assms(2) obtain a i b where ld: "release_load sha bid expected s c = Inr (a, i, b)"
    and sv: "save_batch sha bid (it_phase i) i (b\<lparr>b_items := map released_item (b_items b), b_phase := Stopped,
      b_revision := b_revision b + 1\<rparr>) s c = (Inr (n, t), d)"
    by (auto simp: release_confirmation_def result_simps)
  note l = release_loaded [OF ld]
  show ?thesis
    by (rule save_batch_well(1) [OF sv assms(1) l(1)])
      (use l in \<open>auto simp: batch_evolves_def batch_phases.steps_def intent_phases.steps_def\<close>)
qed

section \<open>Texts of batches\<close>

lemma canonical_leaves [simp]: "canonical (jtexts xs)" "canonical (jnat n)" "(\<And>x. canonical (f x)) \<Longrightarrow> canonical (null_or f y)"
  by (auto simp: jtexts_def jnat_def null_or_def list_all_iff split: option.split)

lemma canonical_parts [simp]:
  "canonical (physical_json p)" "canonical (key_json k)" "canonical (process_json q)" "canonical (restore_json r)"
  "canonical (coverage_json z)" "canonical (readiness_json z)" "canonical (facts_json f)" "canonical (launch_json l)" "canonical (result_json t)"
  by (simp_all add: physical_json_def key_json_def process_json_def restore_json_def coverage_json_def readiness_json_def
      facts_json_def launch_json_def result_json_def)

lemma canonical_members [simp]:
  "canonical (observation_json b)" "canonical (scope_json s)" "canonical (dispatch_json d)" "canonical (item_json i)" "canonical (resource_json q)"
  by (auto simp: observation_json_def scope_json_def dispatch_json_def optional_def item_json_def resource_json_def split: option.split)

lemma canonical_run [simp]: "canonical (run_json u)"
  by (simp add: run_json_def)

lemma canonical_plan [simp]: "canonical (plan_json p)"
  by (simp add: plan_json_def plan_head_def plan_tail_def list_all_iff)

lemma canonical_batch: "canonical (batch_json b)"
  by (simp add: batch_json_def list_all_iff)

lemma batch_phase_name_inj: "batch_phase_name p = batch_phase_name q \<Longrightarrow> p = q"
  by (cases p; cases q; simp)

lemma same_text_phase: "same_text b c \<Longrightarrow> b_phase b = b_phase c \<and> b_revision b = b_revision c"
  using json_bytes_inj [OF canonical_batch canonical_batch, of b c]
  by (auto simp: same_text_def batch_json_def jnat_def dest: batch_phase_name_inj)

text \<open>What the loaders of the later steps establish.\<close>

lemma dispatch_loaded:
  assumes "dispatch_load sha bid expected s c = Inr (a, i, b)"
  shows "load_batch sha bid s c = Inr (a, i, b)" "open_intent i" "b_phase b = Stopped"
  using assms by (auto simp: dispatch_load_def bindE_eq_Inr ensure_def split: if_splits)

lemma execution_loaded:
  assumes "execution_load sha x s c = Inr (a, i, b)"
  shows "load_batch sha (b_id (ex_batch x)) s c = Inr (a, i, b)" "open_intent i" "same_text b (ex_batch x)"
  using assms by (auto simp: execution_load_def bindE_eq_Inr ensure_def split: if_splits)

lemma handoff_loaded:
  assumes "handoff_load sha bid expected prior s c = Inr (a, i, b)"
  shows "load_batch sha bid s c = Inr (a, i, b)" "open_intent i" "b_phase b = Setup_Succeeded" "b_revision b = expected"
  using assms by (auto simp: handoff_load_def bindE_eq_Inr ensure_def split: if_splits)

lemma setup_dispatch_well:
  assumes "domain_ok sha s" "setup_dispatch_change sha proc bid expected w v did dg s c = (Inr (n, t), d)"
  shows "steps_well s t"
proof -
  from assms(2) obtain a i b n' c' where ld: "dispatch_load sha bid expected s c = Inr (a, i, b)"
    and sv: "save_batch sha bid (it_phase i) i (b\<lparr>b_revision := b_revision b + 1, b_phase := Setup_Intent,
       b_dispatch := \<lparr>di_state = Dispatch_Intent, di_id = Some did, di_setup = Some dg, di_target = None\<rparr>\<rparr>) s c' = (Inr (n', t), d)"
    by (auto simp: setup_dispatch_change_def result_simps)
  note l = dispatch_loaded [OF ld]
  show ?thesis
    by (rule save_batch_well(1) [OF sv assms(1) l(1)])
      (use l in \<open>auto simp: batch_evolves_def batch_phases.steps_def intent_phases.steps_def same_items\<close>)
qed

text \<open>The permit can only have been issued for a batch whose dispatch was written.\<close>

lemma permit_phase: "permit_normalized sha True b gen dg = Inr v \<Longrightarrow> batch_cycle sha b = Inr v \<and> b_phase v = Setup_Intent"
  by (auto simp: permit_normalized_def bindE_eq_Inr ensure_def split: if_splits)

lemma loaded_cycle:
  assumes "domain_ok sha s" "load_batch sha bid s c = Inr (a, i, b)" "batch_cycle sha b = Inr v"
  shows "v = b"
proof -
  from load_batch_at [OF assms(1,2)] have "batch_normalize sha b = Inr b"
    using stored_normal(1) [OF assms(1)] by blast
  with assms(3) show ?thesis by (auto simp: batch_cycle_def split: if_splits)
qed

lemma begin_well:
  assumes "domain_ok sha s" "begin_change sha proc x w v target s c = (Inr (n, t), d)"
  shows "steps_well s t"
proof -
  from assms(2) obtain a i b u c' where ld: "execution_load sha x s c = Inr (a, i, b)"
    and p: "permit_normalized sha True b (ex_generation x) (ex_digest x) = Inr u"
    and sv: "save_batch sha (b_id (ex_batch x)) (it_phase i) i (b\<lparr>b_revision := b_revision b + 1, b_phase := Setup_Running,
       b_dispatch := (b_dispatch b)\<lparr>di_state := Dispatched, di_target := Some target\<rparr>\<rparr>) s c' = (Inr (n, t), d)"
    by (auto simp: begin_change_def consume_permit_def result_simps split: option.splits)
  note l = execution_loaded [OF ld]
  have "b_phase b = Setup_Intent"
    using permit_phase [OF p] loaded_cycle [OF assms(1) l(1)] by auto
  then show ?thesis
    by (intro save_batch_well(1) [OF sv assms(1) l(1)])
      (use l in \<open>auto simp: batch_evolves_def batch_phases.steps_def intent_phases.steps_def same_items\<close>)
qed

text \<open>The end of a setup: only ever of one that was running.\<close>

lemma finish_well:
  assumes "domain_ok sha s" "finish_change sha x res s c = (Inr (n, t), d)" "b_phase (ex_batch x) = Setup_Running"
  shows "steps_well s t"
proof -
  from assms(2) obtain a i b where ld: "execution_load sha x s c = Inr (a, i, b)"
    and sv: "save_batch sha (b_id (ex_batch x)) (if open_phase (finish_phase res) then Intent_Unknown else it_phase i) i
       (b\<lparr>b_revision := b_revision b + 1, b_phase := finish_phase res,
          b_dispatch := (b_dispatch b)\<lparr>di_state := if res = None then Dispatch_Unknown else Dispatch_Confirmed\<rparr>,
          b_result := Some (finish_result res), b_review := finish_phase res \<noteq> Setup_Succeeded\<rparr>) s c = (Inr (n, t), d)"
    by (auto simp: finish_change_def result_simps)
  note l = execution_loaded [OF ld]
  have "b_phase b = Setup_Running" using same_text_phase [OF l(3)] assms(3) by simp
  then show ?thesis
    by (intro save_batch_well(1) [OF sv assms(1) l(1)])
      (use l open_intent_steps [OF l(2)] in \<open>auto simp: batch_evolves_def batch_phases.steps_def same_items finish_phase_def split: option.splits\<close>)
qed

lemma handoff_well:
  assumes "domain_ok sha s" "handoff_change sha bid expected prior w v s c = (Inr (n, t), d)"
  shows "steps_well s t"
proof -
  from assms(2) obtain a i b where ld: "handoff_load sha bid expected (Some prior) s c = Inr (a, i, b)"
    and sv: "save_batch sha bid Intent_Completed i (b\<lparr>b_revision := b_revision b + 1,
       b_items := map (\<lambda>x. x\<lparr>i_restore := Restore_Manual\<rparr>) (b_items b)\<rparr>) s c = (Inr (n, t), d)"
    by (auto simp: handoff_change_def result_simps)
  note l = handoff_loaded [OF ld]
  show ?thesis
    by (rule save_batch_well(1) [OF sv assms(1) l(1)])
      (use l manual_grows open_intent_steps [OF l(2)] in \<open>auto simp: batch_evolves_def batch_phases.steps_def\<close>)
qed

lemma keeps_setup_changes [preserved]:
  "keeps (same_file c0) (release_confirmation sha bid expected w v s)"
  "keeps (same_file c0) (handoff_change sha bid expected prior w v s)"
  unfolding release_confirmation_def handoff_change_def by (intro preserved)+

lemma keeps_finish_change [preserved]: "keeps (same_file c0) (finish_change sha x res s)"
  unfolding finish_change_def by (intro preserved)

lemma same_file_tokens [simp]: "same_file c (d\<lparr>si_review := t\<rparr>) = same_file c d" "same_file c (d\<lparr>si_permit := t\<rparr>) = same_file c d"
  by (simp_all add: same_file_def)

lemma keeps_dispatch_change [preserved]: "keeps (same_file c0) (setup_dispatch_change sha proc bid expected w v did dg s)"
  unfolding setup_dispatch_change_def by (intro preserved) simp

lemma keeps_begin_change [preserved]: "keeps (same_file c0) (begin_change sha proc x w v target s)"
  unfolding begin_change_def by (intro preserved) simp

interpretation release_confirmation_writer: batch_writer sha "release_confirmation sha bid expected w v" for sha bid expected w v
  by (rule batch_writerI) (rule keeps_setup_changes, erule (1) release_confirmation_well)

interpretation setup_dispatch_writer: batch_writer sha "setup_dispatch_change sha proc bid expected w v did dg" for sha proc bid expected w v did dg
proof (rule batch_writerI)
  show "domain_ok sha s \<Longrightarrow> setup_dispatch_change sha proc bid expected w v did dg s c = (Inr (x, t), d) \<Longrightarrow> steps_well s t" for s c x t d
    by (cases x) (erule (1) setup_dispatch_well)
qed (rule keeps_dispatch_change)

interpretation begin_writer: batch_writer sha "begin_change sha proc x w v target" for sha proc x w v target
  by (rule batch_writerI) (rule keeps_begin_change, erule (1) begin_well)

lemma finish_writer: "b_phase (ex_batch x) = Setup_Running \<Longrightarrow> batch_writer sha (finish_change sha x res)"
proof (rule batch_writerI)
  assume "b_phase (ex_batch x) = Setup_Running"
  then show "domain_ok sha s \<Longrightarrow> finish_change sha x res s c = (Inr (n, t), d) \<Longrightarrow> steps_well s t" for s c n t d
    by (rule finish_well [rotated 2])
qed (rule keeps_finish_change)

interpretation handoff_writer: batch_writer sha "handoff_change sha bid expected prior w v" for sha bid expected prior w v
  by (rule batch_writerI) (rule keeps_setup_changes, erule (1) handoff_well)

section \<open>The other operations keep the contract\<close>

lemma quiet_changeI:
  assumes "domain_writer sha change"
    and "\<And>s c x t d. change s c = (Inr (x, t), d) \<Longrightarrow> progress_evolves s t \<and> no_new_release s t"
  shows "batch_writer sha change"
  using assms unfolding batch_writer_def progress_keeper_def batch_writer_axioms_def progress_keeper_axioms_def by blast

definition puts_unreleased :: "domain \<Rightarrow> domain \<Rightarrow> bool" where
  "puts_unreleased s t \<longleftrightarrow> (\<exists>run r. t = put_reservation run r s \<and> rv_phase r \<noteq> Released)"

lemma puts_unreleasedI: "rv_phase r \<noteq> Released \<Longrightarrow> puts_unreleased s (put_reservation run r s)"
  by (auto simp: puts_unreleased_def)

lemma reservation_quiet:
  assumes "domain_writer sha change"
    and "\<And>s c x t d. change s c = (Inr (x, t), d) \<Longrightarrow> puts_unreleased s t"
  shows "batch_writer sha change"
proof (rule quiet_changeI [OF assms(1)])
  fix s c x t d
  assume "change s c = (Inr (x, t), d)"
  from assms(2) [OF this] show "progress_evolves s t \<and> no_new_release s t"
    by (auto simp: puts_unreleased_def intro: progress_evolves_refl put_reservation_quiet)
qed

lemma guarded_quiet:
  assumes "domain_writer sha change" "\<And>s. change s = with_reservation s run (guard s) f" "\<And>v. rv_phase (f v) \<noteq> Released"
  shows "batch_writer sha change"
proof (rule reservation_quiet [OF assms(1)])
  fix s c x t d
  assume "change s c = (Inr (x, t), d)"
  then have "with_reservation s run (guard s) f c = (Inr (x, t), d)" by (simp add: assms(2))
  from with_reservation_result [OF this] assms(3) show "puts_unreleased s t" by (auto intro: puts_unreleasedI)
qed

interpretation dispatch_writer: batch_writer sha "dispatch_change run leases" for sha run leases
  by (rule guarded_quiet [OF dispatch_writer.domain_writer_axioms dispatch_change_def]) simp

interpretation cancel_writer: batch_writer sha "cancel_change run" for sha run
  by (rule guarded_quiet [OF cancel_writer.domain_writer_axioms cancel_change_def]) simp

interpretation unclear_writer: batch_writer sha "unclear_change run" for sha run
  by (rule guarded_quiet [OF unclear_writer.domain_writer_axioms unclear_change_def]) simp

interpretation cancel_omp_writer: batch_writer sha "cancel_omp_change sha' k w" for sha sha' k w
  by (rule guarded_quiet [OF cancel_omp_writer.domain_writer_axioms cancel_omp_change_def]) simp

interpretation reserve_writer: batch_writer sha "reserve_change run op w rids expected" for sha run op w rids expected
  by (rule reservation_quiet [OF reserve_writer.domain_writer_axioms]) (auto simp: reserve_change_def new_reservation_def intro!: puts_unreleasedI dest!: pure_change)

interpretation reserve_omp_writer: batch_writer sha "reserve_omp_change sha' w x ident run op" for sha sha' w x ident run op
proof (rule reservation_quiet [OF reserve_omp_writer.domain_writer_axioms])
  fix s c y t d
  assume "reserve_omp_change sha' w x ident run op s c = (Inr (y, t), d)"
  from reserve_omp_result [OF this] show "puts_unreleased s t"
    by (auto simp: reserve_change_def new_reservation_def intro!: puts_unreleasedI dest!: pure_change)
qed

interpretation attach_pending_writer: batch_writer sha "attach_pending sha' home run w m md now expected v" for sha sha' home run w m md now expected v
  by (rule reservation_quiet [OF attach_pending_writer.domain_writer_axioms]) (auto simp: attach_pending_def result_simps Let_def intro!: puts_unreleasedI)

lemma attach_commit_quiet: "rv_phase (fst px) = Owner_Pending \<Longrightarrow> batch_writer sha (attach_commit sha' run w oc v v2 px)"
  by (rule reservation_quiet [OF attach_commit_writer]) (auto simp: attach_commit_def result_simps intro!: puts_unreleasedI)

interpretation dispatch_owner_writer: batch_writer sha "dispatch_owner_change sha' run w expected v" for sha sha' run w expected v
  by (rule reservation_quiet [OF dispatch_owner_writer.domain_writer_axioms]) (auto simp: dispatch_owner_change_def result_simps intro!: puts_unreleasedI)

interpretation unknown_pending_writer: batch_writer sha "unknown_pending sha' run w m now v" for sha sha' run w m now v
  by (rule reservation_quiet [OF unknown_pending_writer.domain_writer_axioms]) (auto simp: unknown_pending_def result_simps Let_def intro!: puts_unreleasedI)

lemma unknown_commit_quiet: "rv_phase (fst px) = Unclear \<Longrightarrow> batch_writer sha (unknown_commit sha' run w oc v v2 px)"
  by (rule reservation_quiet [OF unknown_commit_writer]) (auto simp: unknown_commit_def result_simps Let_def intro!: puts_unreleasedI)

interpretation finish_pending_writer: batch_writer sha "finish_pending sha' run w m now v" for sha sha' run w m now v
  by (rule reservation_quiet [OF finish_pending_writer.domain_writer_axioms]) (auto simp: finish_pending_def result_simps Let_def intro!: puts_unreleasedI)

lemma intent_quiet:
  assumes "domain_writer sha change"
    and "\<And>s c x t d. change s c = (Inr (x, t), d) \<Longrightarrow> \<exists>k j. t = put_intent k j s \<and>
      (\<forall>i b. map_of (dm_intents s) k = Some i \<and> it_progress i = Some b \<longrightarrow> (\<exists>c. it_progress j = Some c \<and> (c = b \<or> batch_evolves b c)))"
  shows "batch_writer sha change"
proof (rule quiet_changeI [OF assms(1)])
  fix s c x t d
  assume "change s c = (Inr (x, t), d)"
  from assms(2) [OF this] show "progress_evolves s t \<and> no_new_release s t"
    by (auto intro!: put_intent_progress no_new_release_refl)
qed

interpretation accept_writer: batch_writer sha "accept_change bid gen op expected rids selected" for sha bid gen op expected rids selected
proof (rule intent_quiet [OF accept_writer.domain_writer_axioms])
  fix s c x t d
  assume "accept_change bid gen op expected rids selected s c = (Inr (x, t), d)"
  then show "\<exists>k j. t = put_intent k j s \<and>
      (\<forall>i b. map_of (dm_intents s) k = Some i \<and> it_progress i = Some b \<longrightarrow> (\<exists>c. it_progress j = Some c \<and> (c = b \<or> batch_evolves b c)))"
    by (intro exI [of _ bid]) (auto simp: accept_change_def dest!: pure_change)
qed

interpretation dispatch_intent_writer: batch_writer sha "dispatch_intent_change sha bid" for sha bid
proof (rule intent_quiet [OF dispatch_intent_writer.domain_writer_axioms])
  fix s c x t d
  assume "dispatch_intent_change sha bid s c = (Inr (x, t), d)"
  then show "\<exists>k j. t = put_intent k j s \<and>
      (\<forall>i b. map_of (dm_intents s) k = Some i \<and> it_progress i = Some b \<longrightarrow> (\<exists>c. it_progress j = Some c \<and> (c = b \<or> batch_evolves b c)))"
    by (intro exI [of _ bid]) (auto simp: dispatch_intent_change_def result_simps split: option.splits)
qed

lemma unknown_batch_evolves: "batch_evolves b (b\<lparr>b_revision := b_revision b + 1, b_phase := Batch_Unknown, b_review := True\<rparr>)"
  by (cases "b_phase b") (auto simp: batch_evolves_def batch_phases.steps_def same_items)

lemma move_intent_quiet:
  assumes "\<And>p. p \<in> set allowed \<Longrightarrow> intent_phases.steps p phase"
  shows "batch_writer sha (move_intent sha bid allowed phase)"
proof (rule intent_quiet [OF move_intent_writer [OF assms]])
  fix s c x t d
  assume m: "move_intent sha bid allowed phase s c = (Inr (x, t), d)"
  then obtain i where i: "map_of (dm_intents s) bid = Some i" by (auto simp: move_intent_def raiseS_eq split: option.splits)
  with m show "\<exists>k j. t = put_intent k j s \<and>
      (\<forall>i b. map_of (dm_intents s) k = Some i \<and> it_progress i = Some b \<longrightarrow> (\<exists>c. it_progress j = Some c \<and> (c = b \<or> batch_evolves b c)))"
    using unknown_batch_evolves
    by (cases "it_progress i") (intro exI [of _ bid], auto simp: move_intent_def result_simps split: if_splits)+
qed

interpretation unknown_intent_writer: batch_writer sha "unknown_intent_change sha bid" for sha bid
  unfolding unknown_intent_change_def by (rule move_intent_quiet) (auto simp: intent_phases.steps_def)

interpretation cancel_intent_writer: batch_writer sha "cancel_intent_change sha bid" for sha bid
  unfolding cancel_intent_change_def by (rule move_intent_quiet) (auto simp: intent_phases.steps_def)

interpretation scope_writer: batch_writer sha "enroll_scope_change sha first w v v2 a" for sha first w v v2 a
proof (rule quiet_changeI [OF scope_writer.domain_writer_axioms])
  fix s c x t d
  assume "enroll_scope_change sha first w v v2 a s c = (Inr (x, t), d)"
  then have "add_records (scope_records sha a) s = Inr t" by (auto simp: enroll_scope_change_def result_simps)
  from add_records_result [OF this] show "progress_evolves s t \<and> no_new_release s t"
    by (simp add: progress_evolves_refl no_new_release_refl)
qed

interpretation runtime_writer: batch_writer sha "enroll_runtime_change sha first cache ident a key_now" for sha first cache ident a key_now
proof (rule quiet_changeI [OF runtime_writer.domain_writer_axioms])
  fix s c x t d
  assume "enroll_runtime_change sha first cache ident a key_now s c = (Inr (x, t), d)"
  then show "progress_evolves s t \<and> no_new_release s t"
    by (auto simp: enroll_runtime_change_def result_simps intro: progress_evolves_refl no_new_release_refl)
qed

text \<open>The acceptance of a stop: the intent is new, and nothing starts on its resources.\<close>

definition accept_snapshot_change ::
  "(string \<Rightarrow> string) \<Rightarrow> outcome \<Rightarrow> (domain \<Rightarrow> acceptance \<Rightarrow> bool) \<Rightarrow> acceptance \<Rightarrow> domain \<Rightarrow> ('w, unit \<times> domain) cio" where
  "accept_snapshot_change sha oc live a s =
     bindS (ensureS (acceptance_free sha s a \<and> live s a) Invalid) (\<lambda>_. publish_snapshot sha oc a s)"

lemma accept_snapshot_eq:
  "accept_snapshot sha oc1 oc2 live v = bindS (liftS (acceptance_cycle sha v)) (\<lambda>a. transact sha oc2 (accept_snapshot_change sha oc1 live a))"
  by (simp add: accept_snapshot_def accept_snapshot_change_def [abs_def])

lemma keeps_publish_snapshot [preserved]: "keeps (same_file c0) (publish_snapshot sha oc a s)"
proof -
  have "keeps (same_file c0) (cell_settle oc (\<lambda>c. c\<lparr>dc_snapshots := f c\<rparr>))" for f
    by (cases oc) (auto simp: keeps_def cell_settle_def same_file_def)
  then show ?thesis unfolding publish_snapshot_def Let_def by (intro keeps_bindS preserved)
qed

lemma accepted_birth:
  assumes "domain_ok sha s" "accept_snapshot_change sha' oc live a s c = (Inr (x, t), d)"
  shows "map_of (dm_intents s) (b_id (ac_batch a)) = None" "t = put_intent (b_id (ac_batch a)) (accepted_intent sha' a) s"
    "unfenced s (it_resources (accepted_intent sha' a))"
    "selection_ok s (it_resources (accepted_intent sha' a)) (p_selected (b_plan (ac_batch a))) (p_operation (b_plan (ac_batch a)))"
  using assms(2)
  by (auto simp: accept_snapshot_change_def publish_snapshot_def result_simps Let_def put_intent_def acceptance_free_def acceptance_current_def
      accepted_intent_def unfenced_sort selection_sort)

interpretation accept_snapshot_writer: batch_writer sha "accept_snapshot_change sha' oc live a" for sha sha' oc live a
proof (rule batch_writerI)
  show "keeps (same_file c0) (accept_snapshot_change sha' oc live a s)" for c0 s
    unfolding accept_snapshot_change_def by (intro keeps_bindS preserved)
  fix s c x t d
  assume ok: "domain_ok sha s" and ch: "accept_snapshot_change sha' oc live a s c = (Inr (x, t), d)"
  note b = accepted_birth [OF ok ch]
  from intent_birth [OF ok b(1,3,4)] b(1) show "steps_well s t"
    by (auto simp: steps_well_def b(2) intro: put_intent_progress no_new_release_refl)
qed

text \<open>The release of a run: the one change after which a reservation is released that was not.\<close>

interpretation release_keeper: progress_keeper sha "release_change sha' run w m oc sync v v2" for sha sha' run w m oc sync v v2
proof
  fix s c x t d
  assume "release_change sha' run w m oc sync v v2 s c = (Inr (x, t), d)"
  from release_step [OF this] show "progress_evolves s t" by (auto simp: run_step_def intro: progress_evolves_refl)
qed

end
