(* ===== verification/Coordination_World.thy ===== *)
theory Coordination_World
  imports Batch_Life
begin

text \<open>
  The whole coordinated instance as one state machine: the disk of a domain with one instance, its
  runtime and its ownership registry, and every operation of the components as a step, whatever
  its arguments, what the kernel shows and which writes are lost or unacknowledged. The relation
  \<open>cell_grows\<close> is what every operation promises about the domain on disk.
\<close>

section \<open>Histories of a domain\<close>

text \<open>One acknowledged or unacknowledged transaction that took effect.\<close>

definition one_change :: "(string \<Rightarrow> string) \<Rightarrow> domain \<Rightarrow> domain \<Rightarrow> bool" where
  "one_change sha s t \<longleftrightarrow> domain_ok sha s \<and> domain_encodes sha t \<and>
     (\<exists>u. t = counted u \<and> evolves s u \<and> (fences s \<longrightarrow> fences u) \<and> progress_evolves s u)"

definition cell_grows :: "(string \<Rightarrow> string) \<Rightarrow> 'w cell_scheme \<Rightarrow> 'v cell_scheme \<Rightarrow> bool" where
  "cell_grows sha c d \<longleftrightarrow> dc_root d = dc_root c \<and>
     (dc_state d = dc_state c \<and> dc_mode d = dc_mode c \<or>
      (\<exists>s t. dc_state c = Some s \<and> dc_state d = Some t \<and> dc_mode d = 384 \<and> (one_change sha)\<^sup>+\<^sup>+ s t))"

lemma cell_grows_refl [simp]: "cell_grows sha c c"
  by (simp add: cell_grows_def)

lemma cell_grows_same: "same_file c d \<Longrightarrow> cell_grows sha c d"
  by (simp add: cell_grows_def same_file_def)

lemma cell_grows_trans: "cell_grows sha c d \<Longrightarrow> cell_grows sha d e \<Longrightarrow> cell_grows sha c e"
  by (auto simp: cell_grows_def)

context progress_keeper
begin

lemma grows_transact: "cell_grows sha c (snd (transact sha oc change c))"
proof -
  obtain r d where t: "transact sha oc change c = (r, d)" by fastforce
  from transact_progress [OF t] show ?thesis
  proof (elim disjE exE conjE)
    fix s u
    assume u: "dc_state c = Some s" "domain_ok sha s" "evolves s u" "fences s \<longrightarrow> fences u" "progress_evolves s u"
      "dc_state d = Some (counted u)" "dc_mode d = 384" "dc_root d = dc_root c" "domain_encodes sha (counted u)"
    then have "one_change sha s (counted u)" by (auto simp: one_change_def)
    with u show ?thesis by (auto simp: cell_grows_def t)
  qed (simp add: t cell_grows_same)
qed

end

section \<open>Programs that only let the domain grow\<close>

definition moves :: "(string \<Rightarrow> string) \<Rightarrow> ('w, 'a) cio \<Rightarrow> bool" where
  "moves sha m \<longleftrightarrow> (\<forall>c. cell_grows sha c (snd (m c)))"

lemma moves_keeps: "(\<And>c0. keeps (same_file c0) m) \<Longrightarrow> moves sha m"
  by (metis moves_def cell_grows_same keeps_at same_file_refl)

lemma moves_bind_result:
  assumes "moves sha m" "\<And>c x d. m c = (Inr x, d) \<Longrightarrow> cell_grows sha d (snd (k x d))"
  shows "moves sha (bindS m k)"
  unfolding moves_def
proof
  fix c
  obtain r d where m: "m c = (r, d)" by fastforce
  with assms(1) have "cell_grows sha c d" by (metis moves_def snd_conv)
  with m assms(2) [of c _ d] show "cell_grows sha c (snd (bindS m k c))"
    by (cases r) (auto simp: snd_bindS intro: cell_grows_trans)
qed

lemma moves_bind: "moves sha m \<Longrightarrow> (\<And>x. moves sha (k x)) \<Longrightarrow> moves sha (bindS m k)"
  by (rule moves_bind_result) (simp_all add: moves_def)

lemma moves_simple: "moves sha (returnS x)" "moves sha (raiseS e)" "moves sha (liftS r)" "moves sha (getS f)" "moves sha (ensureS b e)"
  by (simp_all add: moves_def)

lemma moves_inspect: "moves sha (inspect sha f)"
  unfolding inspect_def by (intro moves_bind moves_simple)

lemma moves_transact: "progress_keeper sha change \<Longrightarrow> moves sha (transact sha oc change)"
  by (simp add: moves_def progress_keeper.grows_transact)

lemma moves_quiet: "batch_writer sha change \<Longrightarrow> moves sha (transact sha oc change)"
  by (rule moves_transact) (rule batch_writer.axioms)

lemmas moves_rules = moves_bind moves_simple moves_inspect moves_quiet

text \<open>Writes elsewhere on the disk of the instance.\<close>

lemma same_file_fields [simp]:
  "same_file c (d\<lparr>sk_instance := a, sk_lock := b, sk_home := e, sk_owner := f, sk_anchor := g, sk_home_anchor := h\<rparr>) = same_file c d"
  "same_file c (d\<lparr>sk_instance := a\<rparr>) = same_file c d" "same_file c (d\<lparr>sk_claim := i\<rparr>) = same_file c d" "same_file c (d\<lparr>sk_lock := b\<rparr>) = same_file c d" "same_file c (d\<lparr>sk_home := e\<rparr>) = same_file c d"
  "same_file c (d\<lparr>sk_owner := f\<rparr>) = same_file c d" "same_file c (d\<lparr>sk_anchor := g\<rparr>) = same_file c d"
  "same_file c (d\<lparr>sk_home_anchor := h\<rparr>) = same_file c d"
  by (simp_all add: same_file_def)

lemma same_file_runtime [simp]:
  "same_file c (d\<lparr>rt_claim := i\<rparr>) = same_file c d" "same_file c (d\<lparr>rt_lease := j\<rparr>) = same_file c d"
  by (simp_all add: same_file_def)

lemma moves_disk_settle: "(\<And>c d. same_file c d \<Longrightarrow> same_file c (f d)) \<Longrightarrow> moves sha (disk_settle oc f)"
  by (rule moves_keeps) (rule keeps_disk_settle)

lemma moves_runtime_settle: "(\<And>c d. same_file c d \<Longrightarrow> same_file c (f d)) \<Longrightarrow> moves sha (runtime_disk_settle oc f)"
  by (rule moves_keeps) (rule keeps_runtime_settle)

lemma enroll_scope_moves: "moves sha (enroll_scope sha w v v2 ids oc)"
  unfolding enroll_scope_def build_scope_def Let_def
  by (intro moves_rules moves_disk_settle scope_writer.batch_writer_axioms) simp_all

lemma enroll_runtime_moves: "moves sha (enroll_runtime sha cache ident rid key kl kn oc)"
  unfolding enroll_runtime_def link_runtime_def
  by (intro moves_rules moves_runtime_settle runtime_writer.batch_writer_axioms) simp_all

lemma accept_snapshot_moves: "moves sha (accept_snapshot sha oc1 oc2 live v)"
  unfolding accept_snapshot_eq by (intro moves_rules accept_snapshot_writer.batch_writer_axioms)

lemma reserve_omp_moves: "moves sha (reserve_omp_launch sha oc w ident run op)"
  unfolding reserve_omp_launch_def by (intro moves_rules reserve_omp_writer.batch_writer_axioms)

section \<open>The owners of runs\<close>

text \<open>The second transaction of an attachment continues what the first has written.\<close>

lemma transact_value: "transact sha oc change c = (Inr x, d) \<Longrightarrow> \<exists>s t e. change s c = (Inr (x, t), e)"
  by (auto simp: transact_done)

lemma movesD: "moves sha m \<Longrightarrow> cell_grows sha c (snd (m c))"
  by (simp add: moves_def)

lemma attach_owner_moves: "moves sha (attach_owner sha home run w m md now expected v oc)"
  unfolding attach_owner_def
proof (rule moves_bind, rule moves_simple, rule moves_bind_result)
  show "moves sha (transact sha (oc 0) (attach_pending sha home run w m md now expected (v 0)))"
    by (intro moves_rules attach_pending_writer.batch_writer_axioms)
next
  fix c px d
  assume "transact sha (oc 0) (attach_pending sha home run w m md now expected (v 0)) c = (Inr px, d)"
  then have "rv_phase (fst px) = Owner_Pending"
    by (auto simp: attach_pending_def result_simps Let_def dest!: transact_value)
  then show "cell_grows sha d (snd (bindS (transact sha (oc 2) (attach_commit sha run w (oc 1) (v 1) (v 2) px)) (\<lambda>_. returnS run) d))"
    by (intro movesD moves_rules attach_commit_quiet)
qed

lemma mark_owner_unknown_moves: "moves sha (mark_owner_unknown sha run w m me me2 now v oc)"
  unfolding mark_owner_unknown_def
proof (rule moves_bind, rule moves_simple, rule moves_bind_result)
  show "moves sha (transact sha (oc 0) (unknown_pending sha run w m now (v 0)))"
    by (intro moves_rules unknown_pending_writer.batch_writer_axioms)
next
  fix c px d
  assume "transact sha (oc 0) (unknown_pending sha run w m now (v 0)) c = (Inr px, d)"
  then have "rv_phase (fst px) = Unclear"
    by (auto simp: unknown_pending_def result_simps Let_def dest!: transact_value)
  then show "cell_grows sha d (snd (bindS (ensureS (me2 = m) Invalid) (\<lambda>_. bindS (transact sha (oc 2) (unknown_commit sha run w (oc 1) (v 1) (v 2) px)) (\<lambda>_. returnS run)) d))"
    by (intro movesD moves_rules unknown_commit_quiet)
qed

lemma reconcile_moves: "moves sha (reconcile_owner_release sha run w ob me v oc)"
  unfolding reconcile_owner_release_def by (intro moves_rules moves_transact release_keeper.progress_keeper_axioms)

lemma finish_owner_moves: "moves sha (finish_owner sha run w ob me now v0 v oc0 oc)"
  unfolding finish_owner_def by (intro moves_rules finish_pending_writer.batch_writer_axioms reconcile_moves)

section \<open>Maintenance\<close>

lemma progress_moves:
  "moves sha (record_stop_requested sha oc bid expected run)" "moves sha (record_exit sha oc bid expected ob)"
  "moves sha (mark_batch_unknown sha oc bid expected run)"
  unfolding record_stop_requested_def record_exit_def mark_batch_unknown_def
  by (intro moves_rules request_writer.batch_writer_axioms exit_writer.batch_writer_axioms batch_unknown_writer.batch_writer_axioms)+

lemma confirm_release_moves: "moves sha (confirm_setup_release sha oc bid expected w v)"
  unfolding confirm_setup_release_def by (intro moves_rules release_confirmation_writer.batch_writer_axioms)

lemma complete_moves: "moves sha (complete_setup_manual sha oc bid expected w v v2 v3 approve)"
  unfolding complete_setup_manual_def handoff_ready_def by (intro moves_rules handoff_writer.batch_writer_axioms)

lemma moves_update: "(\<And>c. same_file c (f c)) \<Longrightarrow> moves sha (\<lambda>c. (Inr x, f c))"
  by (simp add: moves_def cell_grows_same)

lemma moves_case_prod: "(\<And>a b. moves sha (f a b)) \<Longrightarrow> moves sha (case p of (a, b) \<Rightarrow> f a b)"
  by (cases p) simp

lemma review_and_dispatch_moves: "moves sha (review_and_dispatch_setup sha proc oc bid expected pv approve v did)"
proof -
  have "moves sha (\<lambda>c. (Inr (), c\<lparr>si_review := t\<rparr>))" "moves sha (\<lambda>c. (Inr n, c\<lparr>si_permit := t'\<rparr>))" for t t' and n :: batch
    by (rule moves_update, simp)+
  then show ?thesis
    unfolding review_and_dispatch_setup_def record_setup_dispatch_def Let_def
    by (intro moves_rules moves_case_prod setup_dispatch_writer.batch_writer_axioms)
qed

section \<open>Executions\<close>

text \<open>
  The setup core calls the execution at points of its own choosing: any sequence of these calls,
  each of which may fail, with any outcome at the end.
\<close>

datatype core_call =
    Approve_Call preview
  | Scope_Call workspace "string list" scope_point
  | Begin_Call outcome workspace string preview link_view
  | Synced_Call
  | Enter_Call workspace preview preview link_view
  | Leave_Call workspace link_view link_view

fun core_step :: "(string \<Rightarrow> string) \<Rightarrow> nat \<Rightarrow> core_call \<Rightarrow> ('w, unit) sio" where
  "core_step sha proc (Approve_Call pv) = approve_plan sha pv"
| "core_step sha proc (Scope_Call w rids p) = check_execution_scope sha w rids p"
| "core_step sha proc (Begin_Call oc w ident pv v) = begin_sync sha proc oc w ident pv v"
| "core_step sha proc Synced_Call = finish_sync"
| "core_step sha proc (Enter_Call w pv0 pv v) = apply_enter sha w pv0 pv v"
| "core_step sha proc (Leave_Call w v v2) = apply_leave sha w v v2"

text \<open>A failing call need not end the core; only its outcome counts.\<close>

fun run_core :: "(string \<Rightarrow> string) \<Rightarrow> nat \<Rightarrow> core_call list \<Rightarrow> ('w, unit) sio" where
  "run_core sha proc [] = returnS ()"
| "run_core sha proc (k # ks) = (\<lambda>c. run_core sha proc ks (snd (core_step sha proc k c)))"

definition setup_core :: "(string \<Rightarrow> string) \<Rightarrow> nat \<Rightarrow> core_call list \<Rightarrow> invalid + int \<times> string \<Rightarrow> ('w, int \<times> string) sio" where
  "setup_core sha proc ks outcome = bindS (run_core sha proc ks) (\<lambda>_. liftS outcome)"

lemma moves_put_execution: "moves sha (put_execution x)"
  by (simp add: moves_def put_execution_def cell_grows_same same_file_def)

lemma core_step_moves: "moves sha (core_step sha proc k)"
  by (cases k) (simp_all add: approve_plan_def check_execution_scope_def begin_sync_def finish_sync_def apply_enter_def apply_leave_def
      plan_agrees_def physical_agrees_def released_now_def,
    (intro moves_rules moves_put_execution begin_writer.batch_writer_axioms)+)

lemma run_core_moves: "moves sha (run_core sha proc ks)"
proof (induction ks)
  case (Cons k ks)
  then show ?case
    using core_step_moves [of sha proc k] by (auto simp: moves_def intro: cell_grows_trans)
qed (simp add: moves_simple)

text \<open>A started execution holds the batch that it has set running.\<close>

definition execution_ok :: "'w site_scheme \<Rightarrow> bool" where
  "execution_ok c \<longleftrightarrow> (case si_execution c of None \<Rightarrow> True | Some x \<Rightarrow> ex_started x \<longrightarrow> b_phase (ex_batch x) = Setup_Running)"

lemma save_batch_phase: "save_batch sha bid ph i b s c = (Inr (n, t), d) \<Longrightarrow> b_phase n = b_phase b"
  by (auto simp: save_batch_def batch_cycle_def result_simps split: if_splits elim!: batch_normalize_Inr)

definition running_fits :: "execution \<Rightarrow> bool" where
  "running_fits x \<longleftrightarrow> (ex_started x \<longrightarrow> b_phase (ex_batch x) = Setup_Running)"

lemma execution_ok_at: "si_execution c = Some x \<Longrightarrow> execution_ok c \<longleftrightarrow> running_fits x"
  by (simp add: execution_ok_def running_fits_def)

lemma execution_ok_fields [simp]:
  "execution_ok (c\<lparr>dc_state := a, dc_mode := b\<rparr>) = execution_ok c" "execution_ok (c\<lparr>si_permit := p\<rparr>) = execution_ok c"
  by (simp_all add: execution_ok_def)

lemma keeps_the_execution:
  fixes k :: "execution \<Rightarrow> ('w, 'a) sio"
  assumes "\<And>x. running_fits x \<Longrightarrow> keeps execution_ok (k x)"
  shows "keeps execution_ok (bindS (getS the_execution) k)"
  unfolding keeps_def
proof (intro allI impI)
  fix c :: "'w site_scheme"
  assume c: "execution_ok c"
  show "execution_ok (snd (bindS (getS the_execution) k c))"
  proof (cases "si_execution c")
    case (Some x)
    then have "running_fits x" using c execution_ok_at by blast
    from keeps_at [OF assms [OF this] c] Some show ?thesis by (simp add: snd_get the_execution_def)
  qed (simp add: snd_get the_execution_def c)
qed

lemma keeps_put_execution: "running_fits x \<Longrightarrow> keeps execution_ok (put_execution x)"
  by (simp add: keeps_def put_execution_def execution_ok_def running_fits_def)

lemma keeps_bind_result:
  assumes "keeps P m" "\<And>c x d. m c = (Inr x, d) \<Longrightarrow> keeps P (k x)"
  shows "keeps P (bindS m k)"
  unfolding keeps_def
proof (intro allI impI)
  fix c assume "P c"
  obtain r d where m: "m c = (r, d)" by fastforce
  with assms(1) \<open>P c\<close> have "P d" by (rule keepsD)
  with m assms(2) show "P (snd (bindS m k c))"
    by (cases r) (auto simp: snd_bindS keeps_def)
qed

lemma keeps_inspect [preserved]: "keeps P (inspect sha f)"
  unfolding inspect_def by (intro preserved)

lemma keeps_begin_execution [preserved]: "keeps execution_ok (begin_change sha proc x w v target s)"
  unfolding begin_change_def by (intro preserved) simp

lemma begin_phase:
  assumes "transact sha oc (begin_change sha proc x w v target) c = (Inr n, d)"
  shows "b_phase n = Setup_Running"
proof -
  from transact_value [OF assms] obtain s t e where "begin_change sha proc x w v target s c = (Inr (n, t), e)" by blast
  then show ?thesis by (auto simp: begin_change_def result_simps dest!: save_batch_phase)
qed

lemma stage_fits [simp]: "running_fits (x\<lparr>ex_stage := st\<rparr>) = running_fits x"
  "running_fits (x\<lparr>ex_workspace := w, ex_runtime := r\<rparr>) = running_fits x"
  by (simp_all add: running_fits_def)

lemma keeps_checks [preserved]:
  "keeps P (plan_agrees sha x pv)" "keeps P (physical_agrees sha x w pv)" "keeps P (released_now sha x w v)"
  unfolding physical_agrees_def plan_agrees_def released_now_def by (intro preserved)+

lemmas keeps_execution = keeps_the_execution keeps_put_execution preserved

lemma begin_sync_execution: "keeps execution_ok (begin_sync sha proc oc w ident pv v)"
  unfolding begin_sync_def
  by (intro keeps_execution keeps_bind_result [where m = "transact _ _ _"]) (auto simp: running_fits_def dest: begin_phase)

lemma approve_execution: "keeps execution_ok (approve_plan sha pv)"
  unfolding approve_plan_def by (intro keeps_execution) simp

lemma scope_execution: "keeps execution_ok (check_execution_scope sha w rids p)"
  unfolding check_execution_scope_def by (intro keeps_execution) simp

lemma apply_execution: "keeps execution_ok finish_sync"
  "keeps execution_ok (apply_enter sha w pv0 pv v)" "keeps execution_ok (apply_leave sha w v v2)"
  unfolding finish_sync_def apply_enter_def apply_leave_def by ((intro keeps_execution; simp)+)

lemma core_step_execution: "keeps execution_ok (core_step sha proc k)"
  by (cases k) (simp_all add: begin_sync_execution approve_execution scope_execution apply_execution)

lemma run_core_execution: "keeps execution_ok (run_core sha proc ks)"
proof (induction ks)
  case (Cons k ks)
  show ?case
    unfolding keeps_def run_core.simps by (intro allI impI keeps_at [OF Cons.IH] keeps_at [OF core_step_execution])
qed (simp add: keeps_simple)

lemma finish_execution_grows:
  assumes "execution_ok c"
  shows "cell_grows sha c (snd (finish_execution sha oc res c))"
proof (cases "si_execution c")
  case None
  then show ?thesis by (simp add: finish_execution_def snd_get the_execution_def)
next
  case (Some x)
  show ?thesis
  proof (cases "ex_started x")
    case True
    with assms Some have "b_phase (ex_batch x) = Setup_Running" by (simp add: execution_ok_def)
    from finish_writer [OF this]
    have "cell_grows sha c (snd (bindS (transact sha oc (finish_change sha x res))
        (\<lambda>n. bindS (put_execution (x\<lparr>ex_batch := n, ex_stage := Finished\<rparr>)) (\<lambda>_. returnS n)) c))"
      by (intro movesD moves_rules moves_put_execution)
    with Some show ?thesis by (simp add: finish_execution_def snd_get the_execution_def snd_ensure)
  qed (simp add: finish_execution_def snd_get the_execution_def snd_ensure Some)
qed

text \<open>What an execution leaves: what the core left, possibly with its result recorded.\<close>

lemma execute_setup_shape:
  fixes c :: "'w site_scheme" and sha proc ks outcome oc b
  defines "e \<equiv> snd (execute_setup sha oc (setup_core sha proc ks outcome) b c)"
  shows "e = c \<or> (\<exists>x d. d = snd (run_core sha proc ks (c\<lparr>si_execution := Some x\<rparr>)) \<and> execution_ok d \<and>
    (e = d\<lparr>si_execution := None\<rparr> \<or> (\<exists>res. e = (snd (finish_execution sha oc res d))\<lparr>si_execution := None\<rparr>)))"
proof (cases "new_execution sha b c")
  case (Inl f)
  then show ?thesis by (simp add: e_def execute_setup_def snd_get)
next
  case (Inr x)
  let ?c = "c\<lparr>si_execution := Some x\<rparr>"
  obtain r d where core: "setup_core sha proc ks outcome ?c = (r, d)" by fastforce
  have "execution_ok ?c"
    using Inr by (auto simp: execution_ok_def new_execution_def result_simps split: option.splits)
  moreover have d: "d = snd (run_core sha proc ks ?c)"
    using arg_cong [OF core, of snd] by (simp add: setup_core_def snd_bindS split: prod.splits sum.splits)
  ultimately have "execution_ok d" using keeps_at [OF run_core_execution] by blast
  moreover have "e = d\<lparr>si_execution := None\<rparr> \<or> (\<exists>res. e = (snd (finish_execution sha oc res d))\<lparr>si_execution := None\<rparr>)"
    unfolding e_def
    by (cases r) (auto simp: execute_setup_def snd_get Inr snd_bindS [of "put_execution x"] put_execution_def core close_execution_def)
  ultimately show ?thesis using d by blast
qed

lemma execute_setup_grows: "cell_grows sha c (snd (execute_setup sha oc (setup_core sha proc ks outcome) b c))"
  using execute_setup_shape [of sha oc proc ks outcome b c]
proof (elim disjE exE conjE)
  fix x d
  assume d: "d = snd (run_core sha proc ks (c\<lparr>si_execution := Some x\<rparr>))" and ok: "execution_ok d"
  have g: "cell_grows sha c d"
    using movesD [OF run_core_moves, of sha "c\<lparr>si_execution := Some x\<rparr>" proc ks] unfolding d by (simp add: cell_grows_def)
  have none: "cell_grows sha c (f\<lparr>si_execution := None\<rparr>) = cell_grows sha c f" for f by (simp add: cell_grows_def)
  show ?thesis if "snd (execute_setup sha oc (setup_core sha proc ks outcome) b c) = d\<lparr>si_execution := None\<rparr>"
    using g unfolding that none .
  show ?thesis if "snd (execute_setup sha oc (setup_core sha proc ks outcome) b c) = (snd (finish_execution sha oc res d))\<lparr>si_execution := None\<rparr>" for res
    using cell_grows_trans [OF g finish_execution_grows [OF ok]] unfolding that none .
qed simp

section \<open>The steps\<close>

text \<open>
  Every operation at every instant, in the order of its component. The registry's own operations
  and the deployment of the instance change nothing of the domain.
\<close>

inductive site_step :: "(string \<Rightarrow> string) \<Rightarrow> (string \<Rightarrow> bool) \<Rightarrow> nat \<Rightarrow> site \<Rightarrow> site \<Rightarrow> bool" for sha home proc where
  initialize: "site_step sha home proc c (snd (initialize_domain sha oc did phys entries c))"
| enroll_scope: "site_step sha home proc c (snd (enroll_scope sha w v v2 ids oc c))"
| enroll_runtime: "site_step sha home proc c (snd (enroll_runtime sha cache ident rid key kl kn oc c))"
| reserve: "site_step sha home proc c (snd (transact sha oc (reserve_change run op r rids expected) c))"
| dispatch: "site_step sha home proc c (snd (transact sha oc (dispatch_change run leases) c))"
| cancel: "site_step sha home proc c (snd (transact sha oc (cancel_change run) c))"
| unclear: "site_step sha home proc c (snd (transact sha oc (unclear_change run) c))"
| accept_intent: "site_step sha home proc c (snd (transact sha oc (accept_change bid gen oper expected' rids selected) c))"
| dispatch_intent: "site_step sha home proc c (snd (transact sha oc (dispatch_intent_change sha bid) c))"
| unknown_intent: "site_step sha home proc c (snd (transact sha oc (unknown_intent_change sha bid) c))"
| cancel_intent: "site_step sha home proc c (snd (transact sha oc (cancel_intent_change sha bid) c))"
| accept_snapshot: "site_step sha home proc c (snd (accept_snapshot sha oc oc' live a c))"
| reserve_launch: "site_step sha home proc c (snd (reserve_omp_launch sha oc w ident run op c))"
| cancel_launch: "site_step sha home proc c (snd (transact sha oc (cancel_omp_change sha k w) c))"
| attach: "site_step sha home proc c (snd (attach_owner sha home run w m md now expected'' vs ocs c))"
| dispatch_owner: "site_step sha home proc c (snd (transact sha oc (dispatch_owner_change sha run w expected'' v) c))"
| owner_unknown: "site_step sha home proc c (snd (mark_owner_unknown sha run w m me me' now vs ocs c))"
| finish: "site_step sha home proc c (snd (finish_owner sha run w ob me now v vs oc ocs c))"
| reconcile: "site_step sha home proc c (snd (reconcile_owner_release sha run w ob me vs ocs c))"
| registry: "site_step sha home proc c (c\<lparr>lk_registry := owner_step sha home ev (lk_registry c)\<rparr>)"
| stop_requested: "site_step sha home proc c (snd (record_stop_requested sha oc bid n run c))"
| exit_seen: "site_step sha home proc c (snd (record_exit sha oc bid n ob c))"
| batch_unknown: "site_step sha home proc c (snd (mark_batch_unknown sha oc bid n run c))"
| confirm_release: "site_step sha home proc c (snd (confirm_setup_release sha oc bid n w v c))"
| review_dispatch: "site_step sha home proc c (snd (review_and_dispatch_setup sha proc oc bid n pv approve v did c))"
| execute: "site_step sha home proc c (snd (execute_setup sha oc (setup_core sha proc ks outcome) b c))"
| complete: "site_step sha home proc c (snd (complete_setup_manual sha oc bid n w v v' v'' approve' c))"
| deploy: "site_step sha home proc c (c\<lparr>si_deployment := ds\<rparr>)"

lemma changes_move:
  "moves sha (transact sha oc (reserve_change run op r rids expected))" "moves sha (transact sha oc (dispatch_change run leases))"
  "moves sha (transact sha oc (cancel_change run))" "moves sha (transact sha oc (unclear_change run))"
  "moves sha (transact sha oc (accept_change bid gen oper expected' rids selected))"
  "moves sha (transact sha oc (dispatch_intent_change sha bid))" "moves sha (transact sha oc (unknown_intent_change sha bid))"
  "moves sha (transact sha oc (cancel_intent_change sha bid))" "moves sha (transact sha oc (cancel_omp_change sha k w))"
  by (intro moves_quiet reserve_writer.batch_writer_axioms dispatch_writer.batch_writer_axioms cancel_writer.batch_writer_axioms
      unclear_writer.batch_writer_axioms accept_writer.batch_writer_axioms dispatch_intent_writer.batch_writer_axioms
      unknown_intent_writer.batch_writer_axioms cancel_intent_writer.batch_writer_axioms cancel_omp_writer.batch_writer_axioms)+

lemma dispatch_owner_moves: "moves sha (transact sha oc (dispatch_owner_change sha run w expected v))"
  by (intro moves_quiet dispatch_owner_writer.batch_writer_axioms)

lemmas all_moves = enroll_scope_moves enroll_runtime_moves changes_move accept_snapshot_moves reserve_omp_moves attach_owner_moves
  dispatch_owner_moves mark_owner_unknown_moves finish_owner_moves reconcile_moves progress_moves confirm_release_moves
  review_and_dispatch_moves complete_moves

text \<open>A new domain is empty, an existing one is left alone.\<close>

definition empty_domain_at :: "domain \<Rightarrow> bool" where
  "empty_domain_at s \<longleftrightarrow> dm_revision s = 0 \<and> dm_resources s = [] \<and> dm_reservations s = [] \<and> dm_intents s = []"

definition begins :: "(string \<Rightarrow> string) \<Rightarrow> 'w cell_scheme \<Rightarrow> 'w cell_scheme \<Rightarrow> bool" where
  "begins sha c d \<longleftrightarrow> dc_state c = None \<and> (dc_state d = None \<or>
     (\<exists>s. dc_state d = Some s \<and> empty_domain_at s \<and> domain_encodes sha s \<and> dc_mode d = 384 \<and> dc_root d = Some (dm_physical s)))"

lemma initialize_begins:
  "begins sha c (snd (initialize_domain sha oc did phys entries c)) \<or>
   dc_state (snd (initialize_domain sha oc did phys entries c)) = dc_state c \<and> dc_mode (snd (initialize_domain sha oc did phys entries c)) = dc_mode c \<and>
   (dc_root c = None \<or> dc_root (snd (initialize_domain sha oc did phys entries c)) = dc_root c)"
  by (cases oc) (auto simp: initialize_domain_def Let_def begins_def empty_domain_at_def cell_settle_def split: option.split)

lemma site_step_grows:
  assumes "site_step sha home proc c d"
  shows "cell_grows sha c d \<or> begins sha c d \<or> dc_state d = dc_state c \<and> dc_mode d = dc_mode c \<and> (dc_root c = None \<or> dc_root d = dc_root c)"
  using assms
proof cases
  case (initialize oc did phys entries)
  then show ?thesis using initialize_begins by blast
next
  case (execute oc ks outcome b)
  then show ?thesis using execute_setup_grows by blast
qed (blast intro: movesD all_moves | simp add: cell_grows_def)+

end
