(* ===== verification/Batch_Sample.thy ===== *)
theory Batch_Sample
  imports Coordination_World
begin

text \<open>
  A concrete instance at the moment its one run has ended: the reservation is released with its
  receipt, the record is idle, the accepted batch waits for the release to be confirmed. The
  witnesses of the waits and of the setup start here.
\<close>

section \<open>The run and its plan\<close>

definition sample_host :: host where
  "sample_host = \<lparr>ho_identity = \<lparr>pid = 2, birth = ''b''\<rparr>, ho_manager = \<lparr>pid = 1, birth = ''b''\<rparr>, ho_source = ''s''\<rparr>"

definition hosted_owner :: owner2 where
  "hosted_owner = linked_owner\<lparr>o_host := Some sample_host, o_observation := (o_observation linked_owner)\<lparr>po_host := Some sample_host\<rparr>\<rparr>"

definition done_resource :: "char \<Rightarrow> resource_kind \<Rightarrow> nat \<Rightarrow> resource" where
  "done_resource c k ino = \<lparr>q_id = sample_id c, q_key = sample_key k ino, q_runs = [sample_id CHR ''b''], q_complete = True,
     q_domain = sample_id CHR ''d'', q_physical = sample_physical, q_generation = 2\<rparr>"

definition done_plan :: plan where
  "done_plan = \<lparr>p_scope = sample_scope, p_operation = Setup_Operation, p_selected = [sample_id CHR ''b''],
     p_runs = [observed_run sample_sha (sample_snapshot CHR ''b'' (map sample_id ''234''))],
     p_resources = [done_resource CHR ''2'' Instance 5, done_resource CHR ''3'' Native_Home 6, done_resource CHR ''4'' Runtime 7],
     p_ready = True, p_blockers = [], p_id = replicate 64 CHR ''a''\<rparr>"

definition exited_batch :: batch where
  "exited_batch = (initial_batch (sample_id CHR ''e'') done_plan)\<lparr>b_revision := 1,
     b_items := [(initial_item (sample_id CHR ''b''))\<lparr>i_facts := \<lparr>stop_requested = False, exit_confirmed = True,
       resources_released = False, session_sealed = False\<rparr>\<rparr>]\<rparr>"

definition stopped_batch :: batch where
  "stopped_batch = exited_batch\<lparr>b_items := map released_item (b_items exited_batch), b_phase := Stopped, b_revision := 2\<rparr>"

definition done_acceptance :: acceptance where
  "done_acceptance = \<lparr>ac_domain = sample_id CHR ''d'', ac_physical = sample_physical, ac_expected = 2,
     ac_batch = initial_batch (sample_id CHR ''e'') done_plan, ac_records = [(sample_id CHR ''b'', hosted_owner)]\<rparr>"

definition released_reservation :: reservation where
  "released_reservation = pending_reservation\<lparr>rv_phase := Released\<rparr>"

definition done_intent :: "batch \<Rightarrow> intent" where
  "done_intent b = \<lparr>it_batch = sample_id CHR ''e'', it_generation = 3, it_operation = Setup_Operation, it_resources = map sample_id ''234'',
     it_runs = [sample_id CHR ''b''], it_phase = Intent_Active, it_digest = Some (replicate 64 CHR ''a''), it_progress = Some b\<rparr>"

definition idle_domain :: domain where
  "idle_domain = launch_domain\<lparr>dm_revision := 3, dm_reservations := [(sample_id CHR ''b'', released_reservation)]\<rparr>"

definition done_domain :: "batch \<Rightarrow> domain" where
  "done_domain b = idle_domain\<lparr>dm_intents := [(sample_id CHR ''e'', done_intent b)]\<rparr>"

definition done_registry :: registry where
  "done_registry = linked_registry\<lparr>rg_files := [(sample_id CHR ''b'' @ ''.json'',
     \<lparr>of_record = Some (Owner (completed_record hosted_owner 9)), of_mode = 384\<rparr>)]\<rparr>"

definition deployed_objects :: "unit site_ext" where
  "deployed_objects = site_ext \<lparr>ds_pending = False, ds_owner = sample_binding, ds_current = Some \<lparr>dp_binding = sample_binding,
     dp_generation = replicate 64 CHR ''a'', dp_identity = replicate 64 CHR ''a'', dp_home = ''/i/user-home'', dp_setup = replicate 64 CHR ''a''\<rparr>,
     ds_intact = True\<rparr> None None None ()"

definition done_site :: "batch \<Rightarrow> site" where
  "done_site b = (pending_site deployed_objects)\<lparr>dc_state := Some (done_domain b), lk_registry := done_registry,
     dc_snapshots := [(sample_id CHR ''e'', \<lparr>sf_value = Some done_acceptance, sf_mode = 384, sf_digest = replicate 64 CHR ''a''\<rparr>)]\<rparr>"

section \<open>It is valid\<close>

lemma done_plan_normal: "plan_normalize sample_sha True done_plan = Inr done_plan"
proof -
  have s: "(sorted_plan done_plan)\<lparr>p_id := replicate 64 CHR ''a''\<rparr> = done_plan" by code_simp
  have "p_blockers (sorted_plan done_plan) = p_blockers done_plan" "p_ready (sorted_plan done_plan) = p_ready done_plan"
    by (subst (2) s [symmetric], simp)+
  moreover have "plan_body_json (sorted_plan done_plan) = plan_body_json done_plan" using s by (metis plan_body_id)
  moreover have "dump_ok (plan_body_json done_plan)" by (rule small_dump_ok) code_simp
  moreover have "shape_ok (plan_json done_plan)" by code_simp
  moreover have "plan_ok sample_sha done_plan" by code_simp
  moreover have "p_id done_plan = replicate 64 CHR ''a''" by (simp add: done_plan_def)
  ultimately show ?thesis using s by (simp add: plan_normalize_def Let_def)
qed

lemma done_batch_normal:
  assumes "shape_ok (batch_json b)" "batch_ok done_plan b" "b_plan b = done_plan" "b_accepted b = [sample_id CHR ''b'']" "length (b_items b) = 1"
  shows "batch_normalize sample_sha b = Inr b"
proof -
  obtain x where "b_items b = [x]" using assms(5) by (auto simp: length_Suc_conv)
  with assms done_plan_normal show ?thesis by (simp add: batch_normalize_def)
qed

lemma done_cycle:
  assumes "shape_ok (batch_json b)" "batch_ok done_plan b" "b_plan b = done_plan" "b_accepted b = [sample_id CHR ''b'']" "length (b_items b) = 1"
    "dump_ok (batch_json b)"
  shows "batch_cycle sample_sha b = Inr b"
  using done_batch_normal [OF assms(1-5)] assms(6) by (simp add: batch_cycle_def)

lemma exited_parts:
  "b_plan exited_batch = done_plan" "b_accepted exited_batch = [sample_id CHR ''b'']" "length (b_items exited_batch) = 1"
  "b_plan stopped_batch = done_plan" "b_accepted stopped_batch = [sample_id CHR ''b'']" "length (b_items stopped_batch) = 1"
  by (simp_all add: stopped_batch_def exited_batch_def initial_batch_def done_plan_def)

lemma exited_cycle: "batch_cycle sample_sha exited_batch = Inr exited_batch" "batch_normalize sample_sha exited_batch = Inr exited_batch"
proof -
  have a: "shape_ok (batch_json exited_batch)" "batch_ok done_plan exited_batch" by code_simp+
  have "dump_ok (batch_json exited_batch)" by (rule small_dump_ok) code_simp
  with a show "batch_cycle sample_sha exited_batch = Inr exited_batch" "batch_normalize sample_sha exited_batch = Inr exited_batch"
    by (simp_all add: done_cycle done_batch_normal exited_parts)
qed

lemma stopped_cycle: "batch_cycle sample_sha stopped_batch = Inr stopped_batch" "batch_normalize sample_sha stopped_batch = Inr stopped_batch"
proof -
  have a: "shape_ok (batch_json stopped_batch)" "batch_ok done_plan stopped_batch" by code_simp+
  have "dump_ok (batch_json stopped_batch)" by (rule small_dump_ok) code_simp
  with a show "batch_cycle sample_sha stopped_batch = Inr stopped_batch" "batch_normalize sample_sha stopped_batch = Inr stopped_batch"
    by (simp_all add: done_cycle done_batch_normal exited_parts)
qed

lemma idle_domain_ok: "domain_ok sample_sha idle_domain"
  by code_simp

lemma done_domain_ok:
  assumes "batch_normalize sample_sha b = Inr b" "b_plan b = done_plan" "b_accepted b = [sample_id CHR ''b'']" "b_id b = sample_id CHR ''e''"
    "b_operation b = Setup_Operation" "\<not> open_phase (b_phase b)"
  shows "domain_ok sample_sha (done_domain b)"
proof -
  have same: "reservation_ok sample_sha (done_domain b) = reservation_ok sample_sha idle_domain"
    by (simp add: fun_eq_iff reservation_ok_def done_domain_def cong: option.case_cong)
  have plan: "set (resource_ids (p_resources done_plan)) = set (map sample_id ''234'')"
    "list_all (\<lambda>q. q_domain q = sample_id CHR ''d'' \<and> q_physical q = sample_physical \<and> q_generation q + 1 = 3) (p_resources done_plan)"
    by code_simp+
  have dom: "dm_id idle_domain = sample_id CHR ''d''" "dm_physical idle_domain = sample_physical"
    "map fst (dm_resources idle_domain) = map sample_id ''234''"
    "map_of (dm_reservations idle_domain) (sample_id CHR ''b'') = Some released_reservation"
    by (simp_all add: idle_domain_def launch_domain_def scope_entry_def runtime_entry_def)
  have ids: "list_all (is_hex 32) (map sample_id ''234'')" "distinct (map sample_id ''234'')" "is_hex 32 (sample_id CHR ''b'')"
    "is_hex 32 (sample_id CHR ''e'')" "is_hex 64 (replicate 64 CHR ''a'')" by code_simp+
  have "rv_resources released_reservation = map sample_id ''234''" by (simp add: released_reservation_def pending_reservation_def)
  with assms plan dom ids have "intent_ok sample_sha (done_domain b) (sample_id CHR ''e'', done_intent b)"
    by (simp add: intent_ok_def Let_def progress_ok_def done_domain_def done_intent_def)
  with idle_domain_ok same show ?thesis by (simp add: domain_ok_def done_domain_def)
qed

lemma exited_fields:
  "b_id exited_batch = sample_id CHR ''e''" "b_operation exited_batch = Setup_Operation" "b_phase exited_batch = Accepted" "b_revision exited_batch = 1"
  "b_id stopped_batch = sample_id CHR ''e''" "b_operation stopped_batch = Setup_Operation" "b_phase stopped_batch = Stopped" "b_revision stopped_batch = 2"
  by (simp_all add: stopped_batch_def exited_batch_def initial_batch_def done_plan_def)

lemma done_current: "domain_ok sample_sha (done_domain b) \<Longrightarrow> current_state sample_sha (done_site b) = Inr (done_domain b)"
  by (simp add: current_state_def done_site_def pending_site_def launch_site_def scoped_site_def sample_site_def done_domain_def
      idle_domain_def launch_domain_def)

lemma exited_current: "current_state sample_sha (done_site exited_batch) = Inr (done_domain exited_batch)"
  by (rule done_current, rule done_domain_ok) (simp_all add: exited_cycle exited_parts exited_fields open_phase_def)

lemma done_acceptance_normal: "acceptance_normalize sample_sha done_acceptance = Inr done_acceptance"
proof -
  have a: "shape_ok (acceptance_json done_acceptance)" by code_simp
  have d: "dump_ok (acceptance_json done_acceptance)" by (rule small_dump_ok) code_simp
  have o: "acceptance_ok sample_sha done_acceptance (initial_batch (sample_id CHR ''e'') done_plan)" by code_simp
  have i: "shape_ok (batch_json (initial_batch (sample_id CHR ''e'') done_plan))" "batch_ok done_plan (initial_batch (sample_id CHR ''e'') done_plan)"
    by code_simp+
  then have "batch_normalize sample_sha (initial_batch (sample_id CHR ''e'') done_plan) = Inr (initial_batch (sample_id CHR ''e'') done_plan)"
    by (rule done_batch_normal) (simp_all add: initial_batch_def done_plan_def)
  with a d o show ?thesis by (simp add: acceptance_normalize_def) (simp add: done_acceptance_def)
qed

lemma done_loaded:
  assumes "batch_cycle sample_sha b = Inr b" "b_plan b = done_plan" "b_accepted b = [sample_id CHR ''b'']" "b_id b = sample_id CHR ''e''"
    "b_operation b = Setup_Operation"
  shows "load_batch sample_sha (sample_id CHR ''e'') (done_domain b) (done_site b) = Inr (done_acceptance, done_intent b, b)"
proof -
  have plan: "sort (resource_ids (p_resources done_plan)) = map sample_id ''234''" "p_operation done_plan = Setup_Operation"
    "p_selected done_plan = [sample_id CHR ''b'']" by code_simp+
  have "saved_ok sample_sha (done_domain b) (sample_id CHR ''e'') (done_intent b) done_acceptance"
    using assms plan by (simp add: saved_ok_def Let_def done_acceptance_def done_domain_def idle_domain_def launch_domain_def done_intent_def
      initial_batch_def same_origin_def)
  moreover have "is_hex 32 (sample_id CHR ''e'')" by code_simp
  moreover have "dc_root (done_site b) = Some (dm_physical (done_domain b))"
    by (simp add: done_site_def pending_site_def launch_site_def scoped_site_def sample_site_def done_domain_def idle_domain_def launch_domain_def)
  moreover have "map_of (dm_intents (done_domain b)) (sample_id CHR ''e'') = Some (done_intent b)"
    "map_of (dc_snapshots (done_site b)) (sample_id CHR ''e'') = Some \<lparr>sf_value = Some done_acceptance, sf_mode = 384, sf_digest = replicate 64 CHR ''a''\<rparr>"
    "it_digest (done_intent b) = Some (replicate 64 CHR ''a'')" "it_progress (done_intent b) = Some b"
    by (simp_all add: done_domain_def done_site_def done_intent_def)
  ultimately show ?thesis
    using assms(1) done_acceptance_normal by (simp add: load_batch_def read_saved_def)
qed

lemma exited_loaded:
  "load_batch sample_sha (sample_id CHR ''e'') (done_domain exited_batch) (done_site exited_batch) = Inr (done_acceptance, done_intent exited_batch, exited_batch)"
  by (rule done_loaded) (simp_all add: exited_cycle exited_parts exited_fields open_phase_def)

section \<open>Its links\<close>

lemma done_parts:
  "dm_id (done_domain b) = sample_id CHR ''d''" "dm_physical (done_domain b) = sample_physical" "dm_resources (done_domain b) = dm_resources launch_domain"
  "dm_reservations (done_domain b) = [(sample_id CHR ''b'', released_reservation)]"
  "dm_intents (done_domain b) = [(sample_id CHR ''e'', done_intent b)]" "dm_revision (done_domain b) = 3"
  by (simp_all add: done_domain_def idle_domain_def launch_domain_def)

lemma released_fields:
  "rv_link released_reservation = Some (link_evidence.extend sample_evidence (owner_link.fields (replicate 64 CHR ''a'')))"
  "rv_run released_reservation = sample_id CHR ''b''" "rv_op released_reservation = sample_id CHR ''c''"
  "rv_phase released_reservation = Released" "rv_receipt released_reservation = Some \<lparr>rr_time = 9, rr_digest = replicate 64 CHR ''a''\<rparr>"
  "rv_owner released_reservation = \<lparr>wr_root = ''/r/omp/x'', wr_binding = sample_binding\<rparr>" "rv_resources released_reservation = map sample_id ''234''"
  by (simp_all add: released_reservation_def pending_fields) (simp_all add: pending_reservation_def)

lemma hosted_fields:
  "o_run hosted_owner = sample_id CHR ''b''" "me_agent hosted_owner = Omp_Agent" "me_backend hosted_owner = ''managed''"
  "me_runtime hosted_owner = replicate 64 CHR ''a''" "me_home hosted_owner = ''/i/user-home''" "o_state hosted_owner = Active"
  "me_coordination hosted_owner = me_coordination linked_owner" "me_deployment hosted_owner = replicate 64 CHR ''a''"
  by (simp_all add: hosted_owner_def linked_fields) (simp add: linked_owner_def sample_metadata_def metadata.defs owner2.defs)

lemma hosted_ok: "owner2_ok sample_sha sample_binding (sample_id CHR ''b'' @ ''.json'') hosted_owner"
  by code_simp

lemma hosted_done_ok: "owner2_ok sample_sha sample_binding (sample_id CHR ''b'' @ ''.json'') (completed_record hosted_owner 9)"
  by code_simp

lemma done_records: "registry_records sample_sha done_registry = Inr [(sample_id CHR ''b'', Owner (completed_record hosted_owner 9))]"
  using hosted_done_ok linked_name by (simp add: registry_records_def done_registry_def linked_registry_def file_ok_def stored_records_def)

lemma done_fields:
  "lk_registry (done_site b) = done_registry" "rg_present done_registry" "rg_binding done_registry = sample_binding"
  "sk_instance (done_site b)" "sk_home (done_site b)" "si_deployment (done_site b) = \<lparr>ds_pending = False, ds_owner = sample_binding, ds_current = Some \<lparr>dp_binding = sample_binding,
     dp_generation = replicate 64 CHR ''a'', dp_identity = replicate 64 CHR ''a'', dp_home = ''/i/user-home'', dp_setup = replicate 64 CHR ''a''\<rparr>,
     ds_intact = True\<rparr>"
  by (simp_all add: deployed_objects_def done_site_def done_registry_def linked_registry_def pending_site_def launch_site_def scoped_site_def sample_site_def)

lemma done_scope: "verify_scope sample_sha (done_domain b) sample_workspace sample_view sample_view None True (done_site b) = Inr (map sample_id ''23'')"
  using sample_records
  by (subst sample_verified) (simp_all add: done_site_def pending_site_def launch_site_def scoped_site_def sample_site_def done_parts
    launch_domain_def scope_entry_def list_all_iff sample_id_def)

lemma done_evidence: "evidence_of sample_sha sample_workspace sample_view (done_site b) = Some sample_evidence"
  using sample_native done_fields(2)
  by (simp add: evidence_of_def done_site_def pending_site_def launch_site_def scoped_site_def sample_site_def saved_owner_ok_def new_owner_def
    sample_evidence_def instance_lock_def native_home_def) (simp add: sample_workspace_def sample_id_def)

lemma done_runtime: "runtime_digest sample_sha (done_domain b) released_reservation = Some (replicate 64 CHR ''a'')"
proof -
  have "runtime_digest sample_sha launch_domain released_reservation = Some (replicate 64 CHR ''a'')" by code_simp
  then show ?thesis by (simp add: runtime_digest_def runtimes_of_def done_parts cong: option.case_cong)
qed

lemma done_coordination: "coordination_of sample_sha (done_domain b) released_reservation sample_evidence = the (me_coordination linked_owner)"
  by (simp add: coordination_of_def done_parts released_fields linked_fields)

lemma done_link_resources:
  "ready_resources (done_domain b) (map sample_id ''234'')"
  "link_resources sample_sha (done_domain b) released_reservation sample_workspace sample_link_view False (done_site b)"
proof -
  have "ready_resources launch_domain (map sample_id ''234'')" by code_simp
  then show r: "ready_resources (done_domain b) (map sample_id ''234'')" by (simp add: ready_resources_def done_parts cong: option.case_cong)
  have "runtime_ids launch_domain (map sample_id ''234'') = [sample_id CHR ''4'']" by code_simp
  then have t: "runtime_ids (done_domain b) (map sample_id ''234'') = [sample_id CHR ''4'']" by (simp add: runtime_ids_def done_parts)
  have "dm_id launch_domain = sample_id CHR ''d''" "dm_physical launch_domain = sample_physical" by (simp_all add: launch_domain_def)
  then have "runtime_of (done_domain b) = runtime_of launch_domain"
    by (simp add: fun_eq_iff runtime_of_def done_parts cong: option.case_cong)
  then have "lease_matches (done_domain b) = lease_matches launch_domain" by (simp add: fun_eq_iff lease_matches_def done_parts cong: option.case_cong place.case_cong)
  moreover have "list_all (lease_matches launch_domain) (lw_leases sample_link_view)" by code_simp
  ultimately have l: "list_all (lease_matches (done_domain b)) (lw_leases sample_link_view)" by simp
  from r t l done_scope [of b]
  show "link_resources sample_sha (done_domain b) released_reservation sample_workspace sample_link_view False (done_site b)"
    by (simp add: link_resources_def Let_def released_fields) (simp add: sample_link_view_def insert_commute)
qed

lemma done_record_linked:
  "record_linked sample_sha (done_domain b) released_reservation sample_evidence (completed_record hosted_owner 9) Idle (replicate 64 CHR ''a'')"
  by (simp add: record_linked_def hosted_fields completed_fields released_fields done_coordination done_runtime sample_link_ends owner_digest_def linked_fields)

lemma view_fields: "lw_first sample_link_view = sample_view" "lw_second sample_link_view = sample_view" "lw_rooted sample_link_view"
  by (simp_all add: sample_link_view_def)

lemma done_link: "link_holds sample_sha (done_domain b) released_reservation sample_workspace sample_link_view
    (Some (Owner (completed_record hosted_owner 9))) Idle (Some (replicate 64 CHR ''a'')) False (done_site b)"
  using done_link_resources(2) [of b] done_evidence [of b] done_record_linked [of b]
  by (simp add: link_holds_def view_fields released_fields sample_link_ends)

lemma done_registry_for: "registry_for sample_workspace released_reservation (done_site b)"
  by (simp add: registry_for_def released_fields done_fields) (simp add: sample_workspace_def sample_binding_def)

lemma done_related: "related (done_domain b) (map sample_id ''23'') = [(sample_id CHR ''b'', released_reservation)]"
  by (simp add: related_def done_parts released_fields overlaps_def)

lemma done_record_link_ok: "record_link_ok sample_sha (done_domain b) released_reservation sample_workspace sample_link_view
    (completed_record hosted_owner 9) (map sample_id ''23'') (done_site b)"
proof -
  have "filter (\<lambda>rid. rid \<notin> set (map sample_id ''23'')) (remdups (map sample_id ''234'')) = [sample_id CHR ''4'']" by code_simp
  moreover have "map_of (dm_resources launch_domain) (sample_id CHR ''4'') = Some (snd runtime_entry)" by (simp add: launch_domain_def runtime_entry_def scope_entry_def sample_id_def)
  moreover have "sh_status (snd runtime_entry) = Ready" "k_kind (sh_key (snd runtime_entry)) = Runtime" "sh_place (snd runtime_entry) = Runtime_Place ''/c'' ''rt''"
    by (simp_all add: runtime_entry_def sample_key_def)
  moreover have "ws_cache sample_workspace = ''/c''" "ws_state_root sample_workspace = ''/r/omp/x''" "ws_binding sample_workspace = sample_binding"
    by (simp_all add: sample_workspace_def)
  ultimately show ?thesis
    using done_record_linked [of b] done_evidence [of b]
    by (auto simp: record_link_ok_def Let_def released_fields done_parts view_fields record_linked_def sample_link_ends hosted_fields completed_fields done_runtime
        done_coordination linked_fields owner_digest_def)
qed

lemma done_registry_released: "registry_released sample_sha (done_domain b) sample_workspace sample_link_view
    [(sample_id CHR ''b'', Owner (completed_record hosted_owner 9))] (map sample_id ''23'') (done_site b)"
  using done_record_link_ok [of b]
  by (simp add: registry_released_def done_related [simplified] completed_fields hosted_fields linked_fields released_fields)

lemma done_run_released:
  "list_all (\<lambda>u. run_released sample_sha (done_domain b) done_acceptance sample_workspace sample_link_view
      [(sample_id CHR ''b'', Owner (completed_record hosted_owner 9))] u (done_site b)) (p_runs done_plan)"
proof -
  let ?u = "observed_run sample_sha (sample_snapshot CHR ''b'' (map sample_id ''234''))"
  have "u_id ?u = sample_id CHR ''b''" "u_resources ?u = map sample_id ''234''" by code_simp+
  moreover have "p_runs done_plan = [?u]" by (simp add: done_plan_def)
  ultimately show ?thesis
    using done_link [of b] done_registry_for [of b] by (simp add: run_released_def done_parts released_fields done_acceptance_def)
qed

lemma done_held: "b_plan b = done_plan \<Longrightarrow> b_id b = sample_id CHR ''e'' \<Longrightarrow>
  hold_released sample_sha (done_domain b) done_acceptance b sample_workspace sample_link_view (done_site b) = Inr ()"
proof -
  assume b: "b_plan b = done_plan" "b_id b = sample_id CHR ''e''"
  have r: "resource_ids (p_resources done_plan) = map sample_id ''234''" by code_simp
  have k: "list_all (\<lambda>q. case map_of (dm_resources launch_domain) (q_id q) of None \<Rightarrow> False | Some d \<Rightarrow> q_key q = sh_key d) (p_resources done_plan)"
    by code_simp
  show ?thesis
    using b r k done_link_resources(1) [of b] done_scope [of b] done_records done_registry_released [of b] done_run_released [of b]
    by (simp add: hold_released_def Let_def done_parts done_fields view_fields released_fields over_def)
qed

section \<open>Its release is confirmed\<close>

lemma domain_ok_counted: "domain_ok sha s \<Longrightarrow> domain_ok sha (counted s)"
proof -
  have "reservation_ok sha s e \<Longrightarrow> reservation_ok sha (counted s) e" for e
    by (auto simp: reservation_ok_def counted_def Let_def split: option.splits)
  moreover have "intent_ok sha (counted s) = intent_ok sha s"
    by (simp add: fun_eq_iff intent_ok_def progress_ok_def completed_ok_def counted_def cong: option.case_cong)
  ultimately show "domain_ok sha s \<Longrightarrow> domain_ok sha (counted s)"
    by (auto simp: domain_ok_def list_all_iff counted_def)
qed

lemma stopped_encodes: "domain_encodes sample_sha (counted (done_domain stopped_batch))"
proof -
  have "depth (domain_json (counted (done_domain stopped_batch))) \<le> 32" by code_simp
  moreover have "dump_weight (domain_json (counted (done_domain stopped_batch))) \<le> 1000000" by code_simp
  then have "length (json_bytes (domain_json (counted (done_domain stopped_batch)))) \<le> 2 * 1024 * 1024" by (rule small_bytes)
  moreover have "domain_ok sample_sha (counted (done_domain stopped_batch))"
    by (rule domain_ok_counted, rule done_domain_ok) (simp_all add: stopped_cycle exited_parts exited_fields open_phase_def)
  ultimately show ?thesis by (simp add: domain_encodes_def)
qed

lemma done_release_load:
  "release_load sample_sha (sample_id CHR ''e'') 1 (done_domain exited_batch) (done_site exited_batch) = Inr (done_acceptance, done_intent exited_batch, exited_batch)"
proof -
  have "list_all (\<lambda>x. exit_confirmed (i_facts x) \<and> \<not> resources_released (i_facts x) \<and> i_stop x \<in> {Stop_Accepted, Stop_Requested}) (b_items exited_batch)"
    by (simp add: exited_batch_def initial_item_def)
  moreover have "open_intent (done_intent exited_batch)" by (simp add: open_intent_def done_intent_def)
  ultimately show ?thesis by (simp add: release_load_def exited_loaded exited_fields)
qed

lemma done_deployed: "check_stop_deployment sample_sha sample_workspace hosted_owner (done_site b)"
proof -
  have "safe_id (replicate 64 CHR ''a'') = Inr (replicate 64 CHR ''a'')" "is_hex 64 (replicate 64 CHR ''a'')" by code_simp+
  moreover have "ws_agent sample_workspace = Omp_Agent" "ws_profile sample_workspace = g_profile (ws_binding sample_workspace)"
    "ws_binding sample_workspace = sample_binding" "native_home (ws_instance sample_workspace) = ''/i/user-home''"
    by (simp_all add: sample_workspace_def sample_binding_def native_home_def)
  ultimately show ?thesis using hosted_ok
    by (simp add: check_stop_deployment_def done_fields hosted_fields deployed_runtime_def)
qed

lemma done_physical: "physical_ready sample_sha sample_workspace done_acceptance exited_batch (done_domain exited_batch) (done_site exited_batch)"
proof -
  have "runtime_ids launch_domain (map sample_id ''234'') = [sample_id CHR ''4'']" by code_simp
  then have t: "runtime_ids (done_domain exited_batch) (map sample_id ''234'') = [sample_id CHR ''4'']" by (simp add: runtime_ids_def done_parts)
  have q: "map_of (dm_resources launch_domain) (sample_id CHR ''4'') = Some (snd runtime_entry)" by (simp add: launch_domain_def runtime_entry_def scope_entry_def sample_id_def)
  have p: "sh_place (snd runtime_entry) = Runtime_Place ''/c'' ''rt''" "ws_cache sample_workspace = ''/c''" by (simp_all add: runtime_entry_def sample_workspace_def)
  have "safe_id ''rt'' = Inr ''rt''" by code_simp
  with t q p done_deployed [of exited_batch] done_registry_for [of exited_batch] show ?thesis
    by (simp add: physical_ready_def lease_plan_ok_def exited_parts done_parts released_fields done_fields) (simp add: done_acceptance_def)
qed

lemma done_confirmed:
  "confirm_setup_release sample_sha Done (sample_id CHR ''e'') 1 sample_workspace sample_link_view (done_site exited_batch) =
     (Inr stopped_batch, (done_site exited_batch)\<lparr>dc_state := Some (counted (done_domain stopped_batch)), dc_mode := 384\<rparr>)"
proof -
  have put: "put_intent (sample_id CHR ''e'') ((done_intent exited_batch)\<lparr>it_progress := Some stopped_batch\<rparr>) (done_domain exited_batch) = done_domain stopped_batch"
    by (simp add: put_intent_def done_domain_def done_intent_def)
  have b: "exited_batch\<lparr>b_items := map released_item (b_items exited_batch), b_phase := Stopped, b_revision := b_revision exited_batch + 1\<rparr> = stopped_batch"
    by (simp add: stopped_batch_def exited_fields)
  have phase: "(done_intent exited_batch)\<lparr>it_phase := it_phase (done_intent exited_batch)\<rparr> = done_intent exited_batch" by simp
  have "release_confirmation sample_sha (sample_id CHR ''e'') 1 sample_workspace sample_link_view (done_domain exited_batch) (done_site exited_batch) =
      (Inr (stopped_batch, done_domain stopped_batch), done_site exited_batch)"
    unfolding release_confirmation_def save_batch_def
    using b stopped_cycle put by (simp add: result_simps done_release_load [simplified] done_held exited_parts exited_fields)
  with stopped_encodes exited_current done_release_load done_physical show ?thesis
    by (simp add: confirm_setup_release_def result_simps inspect_def transact_done)
qed

section \<open>Its exit is recorded\<close>

definition first_batch :: batch where
  "first_batch = initial_batch (sample_id CHR ''e'') done_plan"

lemma first_fields:
  "b_plan first_batch = done_plan" "b_accepted first_batch = [sample_id CHR ''b'']" "b_id first_batch = sample_id CHR ''e''"
  "b_operation first_batch = Setup_Operation" "b_phase first_batch = Accepted" "b_revision first_batch = 0"
  "b_items first_batch = [initial_item (sample_id CHR ''b'')]"
  by (simp_all add: first_batch_def initial_batch_def done_plan_def)

lemma first_cycle: "batch_cycle sample_sha first_batch = Inr first_batch" "batch_normalize sample_sha first_batch = Inr first_batch"
proof -
  have a: "shape_ok (batch_json first_batch)" "batch_ok done_plan first_batch" by code_simp+
  have "dump_ok (batch_json first_batch)" by (rule small_dump_ok) code_simp
  with a show "batch_cycle sample_sha first_batch = Inr first_batch" "batch_normalize sample_sha first_batch = Inr first_batch"
    by (simp_all add: done_cycle done_batch_normal first_fields)
qed

lemma first_current: "current_state sample_sha (done_site first_batch) = Inr (done_domain first_batch)"
  by (rule done_current, rule done_domain_ok) (simp_all add: first_cycle first_fields open_phase_def)

lemma first_loaded:
  "load_batch sample_sha (sample_id CHR ''e'') (done_domain first_batch) (done_site first_batch) = Inr (done_acceptance, done_intent first_batch, first_batch)"
  by (rule done_loaded) (simp_all add: first_cycle first_fields)

lemma exited_encodes: "domain_encodes sample_sha (counted (done_domain exited_batch))"
proof -
  have "depth (domain_json (counted (done_domain exited_batch))) \<le> 32" by code_simp
  moreover have "dump_weight (domain_json (counted (done_domain exited_batch))) \<le> 1000000" by code_simp
  then have "length (json_bytes (domain_json (counted (done_domain exited_batch)))) \<le> 2 * 1024 * 1024" by (rule small_bytes)
  moreover have "domain_ok sample_sha (counted (done_domain exited_batch))"
    by (rule domain_ok_counted, rule done_domain_ok) (simp_all add: exited_cycle exited_parts exited_fields open_phase_def)
  ultimately show ?thesis by (simp add: domain_encodes_def)
qed

lemma first_exit: "exit_change sample_complete first_batch done_acceptance = Inr (exited_batch\<lparr>b_revision := 0\<rparr>)"
proof -
  have m: "manager_of hosted_owner = sample_manager" by (simp add: manager_of_def hosted_owner_def linked_fields [unfolded manager_of_def])
  have "proof_matches sample_complete (sample_id CHR ''b'') sample_manager" by code_simp
  moreover have "is_hex 32 (sample_id CHR ''b'')" by code_simp
  moreover have "first_batch\<lparr>b_items := b_items exited_batch\<rparr> = exited_batch\<lparr>b_revision := 0\<rparr>"
    by (simp add: first_batch_def exited_batch_def) (simp add: initial_batch_def)
  ultimately show ?thesis
    using m by (simp add: exit_change_def with_item_def first_fields done_acceptance_def sample_complete_def exited_batch_def)
      (simp add: initial_item_def exit_item_def first_batch_def)
qed

lemma first_recorded:
  "record_exit sample_sha Done (sample_id CHR ''e'') 0 sample_complete (done_site first_batch) =
     (Inr exited_batch, (done_site first_batch)\<lparr>dc_state := Some (counted (done_domain exited_batch)), dc_mode := 384\<rparr>)"
proof -
  have put: "put_intent (sample_id CHR ''e'') ((done_intent first_batch)\<lparr>it_progress := Some exited_batch\<rparr>) (done_domain first_batch) = done_domain exited_batch"
    by (simp add: put_intent_def done_domain_def done_intent_def)
  have s: "(summed_up (exited_batch\<lparr>b_revision := 0\<rparr>))\<lparr>b_revision := 1\<rparr> = exited_batch" "b_phase (summed_up (exited_batch\<lparr>b_revision := 0\<rparr>)) = Accepted"
    "b_revision (summed_up (exited_batch\<lparr>b_revision := 0\<rparr>)) = 0"
    by (simp_all add: summed_up_def exited_batch_def initial_item_def) (simp add: initial_batch_def)
  have "open_intent (done_intent first_batch)" by (simp add: open_intent_def done_intent_def)
  with s put first_exit first_loaded exited_cycle
  have "progress_change sample_sha (sample_id CHR ''e'') 0 (exit_change sample_complete) (done_domain first_batch) (done_site first_batch) =
      (Inr (exited_batch, done_domain exited_batch), done_site first_batch)"
    by (simp add: progress_change_def result_simps first_fields Let_def save_batch_def)
  with exited_encodes first_current show ?thesis by (simp add: record_exit_def transact_done)
qed

end
