(* ===== verification/Coordination_Safety.thy ===== *)
theory Coordination_Safety
  imports Batch_Sample
begin

text \<open>
  What holds of every state a coordinated instance can reach, whatever operations run in whatever
  order and wherever they are cut short: the state on disk is valid, maintenance and starting runs
  exclude each other, nothing recorded is lost or taken back, batches move along their machine and
  a released run has an idle record.
\<close>

abbreviation site_reach :: "(string \<Rightarrow> string) \<Rightarrow> (string \<Rightarrow> bool) \<Rightarrow> nat \<Rightarrow> site \<Rightarrow> site \<Rightarrow> bool" where
  "site_reach sha home proc \<equiv> (site_step sha home proc)\<^sup>*\<^sup>*"

section \<open>Valid states\<close>

definition typed_cell :: "(string \<Rightarrow> string) \<Rightarrow> 'w cell_scheme \<Rightarrow> bool" where
  "typed_cell sha c \<longleftrightarrow> (\<forall>s. dc_state c = Some s \<longrightarrow> current_state sha c = Inr s \<and> fences s)"

lemma one_change_typed:
  assumes "(one_change sha)\<^sup>+\<^sup>+ s t"
  shows "domain_ok sha t" "dm_id t = dm_id s" "dm_physical t = dm_physical s" "fences s \<Longrightarrow> fences t"
proof -
  have "domain_ok sha t \<and> dm_id t = dm_id s \<and> dm_physical t = dm_physical s \<and> (fences s \<longrightarrow> fences t)"
    using assms by induction (auto simp: one_change_def domain_encodes_def evolves_def counted_def)
  then show "domain_ok sha t" "dm_id t = dm_id s" "dm_physical t = dm_physical s" "fences s \<Longrightarrow> fences t" by simp_all
qed

lemma site_step_typed:
  assumes "site_step sha home proc c d" "typed_cell sha c"
  shows "typed_cell sha d"
  using site_step_grows [OF assms(1)]
proof (elim disjE)
  assume "cell_grows sha c d"
  then show ?thesis
    using assms(2) one_change_typed by (fastforce simp: cell_grows_def typed_cell_def current_state_iff)
next
  assume "begins sha c d"
  then show ?thesis by (auto simp: begins_def typed_cell_def current_state_iff domain_encodes_def empty_domain_at_def fences_def)
next
  assume "dc_state d = dc_state c \<and> dc_mode d = dc_mode c \<and> (dc_root c = None \<or> dc_root d = dc_root c)"
  then show ?thesis using assms(2) by (auto simp: typed_cell_def current_state_iff)
qed

lemma site_reach_typed:
  assumes "site_reach sha home proc c d" "typed_cell sha c"
  shows "typed_cell sha d"
  using assms by induction (auto intro: site_step_typed)

lemma fresh_typed: "dc_state c = None \<Longrightarrow> typed_cell sha c"
  by (simp add: typed_cell_def)



section \<open>Histories\<close>

definition reservation_follows :: "reservation \<Rightarrow> reservation \<Rightarrow> bool" where
  "reservation_follows r r' \<longleftrightarrow>
     rv_run r' = rv_run r \<and> rv_op r' = rv_op r \<and> rv_owner r' = rv_owner r \<and> rv_resources r' = rv_resources r \<and>
     rv_generation r' = rv_generation r \<and> reservation_phases.follows (rv_phase r) (rv_phase r')"

definition intent_follows :: "intent \<Rightarrow> intent \<Rightarrow> bool" where
  "intent_follows i i' \<longleftrightarrow>
     it_batch i' = it_batch i \<and> it_generation i' = it_generation i \<and> it_operation i' = it_operation i \<and>
     it_resources i' = it_resources i \<and> it_runs i' = it_runs i \<and> it_digest i' = it_digest i \<and>
     intent_phases.follows (it_phase i) (it_phase i')"

definition batch_follows :: "batch \<Rightarrow> batch \<Rightarrow> bool" where
  "batch_follows b c \<longleftrightarrow>
     b_id c = b_id b \<and> b_plan c = b_plan b \<and> b_operation c = b_operation b \<and> b_accepted c = b_accepted b \<and>
     (c = b \<or> b_revision b < b_revision c) \<and> batch_phases.follows (b_phase b) (b_phase c) \<and>
     list_all2 item_grows (b_items b) (b_items c)"

text \<open>Nothing recorded in \<open>s\<close> is missing in \<open>t\<close>, and what changed moved forward.\<close>

definition remembers :: "domain \<Rightarrow> domain \<Rightarrow> bool" where
  "remembers s t \<longleftrightarrow>
     (t = s \<or> dm_revision s < dm_revision t) \<and>
     (\<forall>k q. map_of (dm_resources s) k = Some q \<longrightarrow> map_of (dm_resources t) k = Some q) \<and>
     (\<forall>k r. map_of (dm_reservations s) k = Some r \<longrightarrow> (\<exists>r'. map_of (dm_reservations t) k = Some r' \<and> reservation_follows r r')) \<and>
     (\<forall>k i. map_of (dm_intents s) k = Some i \<longrightarrow> (\<exists>i'. map_of (dm_intents t) k = Some i' \<and> intent_follows i i' \<and>
        (\<forall>b. it_progress i = Some b \<longrightarrow> (\<exists>c. it_progress i' = Some c \<and> batch_follows b c))))"

lemma item_grows_trans: "item_grows x y \<Longrightarrow> item_grows y z \<Longrightarrow> item_grows x z"
  by (auto simp: item_grows_def facts_grow_def)

lemma items_grow_trans: "list_all2 item_grows xs ys \<Longrightarrow> list_all2 item_grows ys zs \<Longrightarrow> list_all2 item_grows xs zs"
  by (rule list_all2_trans [OF item_grows_trans])

lemma batch_follows_refl [simp]: "batch_follows b b"
  by (simp add: batch_follows_def batch_phases.follows.stay same_items)

lemma batch_follows_step: "batch_follows a b \<Longrightarrow> c = b \<or> batch_evolves b c \<Longrightarrow> batch_follows a c"
  by (auto simp: batch_follows_def batch_evolves_def intro: batch_phases.follows.move items_grow_trans)

lemma remembers_refl [simp]: "remembers s s"
  by (auto simp: remembers_def reservation_follows_def intent_follows_def intro: reservation_phases.follows.stay intent_phases.follows.stay)

lemma reservation_follows_step: "reservation_follows r r' \<Longrightarrow> reservation_evolves r' r'' \<Longrightarrow> reservation_follows r r''"
  by (auto simp: reservation_follows_def reservation_evolves_def intro: reservation_phases.follows.move)

lemma intent_follows_step: "intent_follows i i' \<Longrightarrow> intent_evolves i' i'' \<Longrightarrow> intent_follows i i''"
  by (auto simp: intent_follows_def intent_evolves_def intro: intent_phases.follows.move)

lemma remembers_step:
  assumes "remembers s t" "one_change sha t u"
  shows "remembers s u"
proof -
  from assms(2) obtain v where u: "u = counted v" and ev: "evolves t v" and pe: "progress_evolves t v" by (auto simp: one_change_def)
  have rv: "\<exists>r''. map_of (dm_reservations u) k = Some r'' \<and> reservation_follows r r''" if "map_of (dm_reservations s) k = Some r" for k r
  proof -
    from assms(1) that obtain r' where r': "map_of (dm_reservations t) k = Some r'" "reservation_follows r r'" unfolding remembers_def by blast
    with ev obtain r'' where "map_of (dm_reservations v) k = Some r''" "reservation_evolves r' r''" unfolding evolves_def by blast
    with r' u show ?thesis by (auto simp: counted_def intro: reservation_follows_step)
  qed
  have it: "\<exists>i''. map_of (dm_intents u) k = Some i'' \<and> intent_follows i i'' \<and>
      (\<forall>b. it_progress i = Some b \<longrightarrow> (\<exists>c. it_progress i'' = Some c \<and> batch_follows b c))" if "map_of (dm_intents s) k = Some i" for k i
  proof -
    from assms(1) that obtain i' where i': "map_of (dm_intents t) k = Some i'" "intent_follows i i'"
      "\<forall>b. it_progress i = Some b \<longrightarrow> (\<exists>c. it_progress i' = Some c \<and> batch_follows b c)" unfolding remembers_def by blast
    from ev i'(1) u obtain i'' where i'': "map_of (dm_intents u) k = Some i''" "intent_evolves i' i''" unfolding evolves_def counted_def by fastforce
    have "\<exists>c. it_progress i'' = Some c \<and> batch_follows b c" if b: "it_progress i = Some b" for b
    proof -
      from i'(3) b obtain c where c: "it_progress i' = Some c" "batch_follows b c" by blast
      with pe i'(1) i''(1) u show ?thesis unfolding progress_evolves_def counted_def by (fastforce intro: batch_follows_step)
    qed
    with i' i'' show ?thesis by (blast intro: intent_follows_step)
  qed
  have "dm_revision u = dm_revision t + 1" using ev u by (simp add: evolves_def counted_def)
  moreover have "map_of (dm_resources u) k = Some q" if "map_of (dm_resources s) k = Some q" for k q
    using that assms(1) ev u by (auto simp: remembers_def evolves_def counted_def)
  ultimately show ?thesis using rv it assms(1) by (auto simp: remembers_def)
qed

lemma remembers_changes: "(one_change sha)\<^sup>+\<^sup>+ s t \<Longrightarrow> remembers s t"
  by (induction rule: tranclp_induct) (auto intro: remembers_step [OF remembers_refl] remembers_step)

lemma changes_remember: "(one_change sha)\<^sup>+\<^sup>+ t u \<Longrightarrow> remembers s t \<Longrightarrow> remembers s u"
  by (induction rule: tranclp_induct) (auto intro: remembers_step)

lemma site_step_remembers:
  assumes "site_step sha home proc c d" "dc_state c = Some t" "remembers s t"
  shows "\<exists>u. dc_state d = Some u \<and> remembers s u"
  using site_step_grows [OF assms(1)] assms(2,3)
  by (auto simp: cell_grows_def begins_def intro: changes_remember)

lemma site_reach_remembers:
  assumes "site_reach sha home proc c d" "dc_state c = Some s"
  shows "\<exists>t. dc_state d = Some t \<and> remembers s t"
  using assms(1)
proof (induction rule: rtranclp_induct)
  case (step d e)
  then show ?case using site_step_remembers by blast
qed (use assms(2) in simp)


section \<open>The abstract machine of batches\<close>

text \<open>What a batch promises, seen from outside: its phase and the facts of each run.\<close>

definition stored_batch :: "'w cell_scheme \<Rightarrow> string \<Rightarrow> batch option" where
  "stored_batch c bid = Option.bind (dc_state c) (\<lambda>s. Option.bind (map_of (dm_intents s) bid) it_progress)"

text \<open>C3: Every operation refines the machine of batches: seen as plan, phase and facts per run, a stored
  batch either stays as it is or, under a higher revision, follows the table of its phases
  without ever taking back a confirmed fact, a stop that was begun, or the runs it was accepted
  for; no operation of any component removes a batch.\<close>

theorem operations_refine_batches:
  assumes "site_step sha home proc c d" "stored_batch c bid = Some b"
  shows "\<exists>b'. stored_batch d bid = Some b' \<and> batch_follows b b'"
proof -
  from assms(2) obtain s i where s: "dc_state c = Some s" and i: "map_of (dm_intents s) bid = Some i" "it_progress i = Some b"
    by (auto simp: stored_batch_def Option.bind_eq_Some_conv)
  from site_step_remembers [OF assms(1) s remembers_refl] obtain t where t: "dc_state d = Some t" "remembers s t" by blast
  from t(2) i show ?thesis
    unfolding remembers_def stored_batch_def by (fastforce simp: t(1))
qed

section \<open>Released runs\<close>

definition idle_at :: "registry \<Rightarrow> string \<Rightarrow> bool" where
  "idle_at g run \<longleftrightarrow> (case owner_at g run of None \<Rightarrow> False | Some x \<Rightarrow> record_state x = Idle)"

text \<open>No record is taken out of the idle state between two disks.\<close>

definition idle_kept :: "'w linked_scheme \<Rightarrow> 'w linked_scheme \<Rightarrow> bool" where
  "idle_kept c d \<longleftrightarrow> (\<forall>run. idle_at (lk_registry c) run \<longrightarrow> idle_at (lk_registry d) run)"

definition released_backed :: "'w linked_scheme \<Rightarrow> bool" where
  "released_backed c \<longleftrightarrow> (\<forall>s run r. dc_state c = Some s \<and> map_of (dm_reservations s) run = Some r \<and> rv_phase r = Released \<longrightarrow>
     idle_at (lk_registry c) run)"

lemma idle_kept_refl [simp]: "idle_kept c c"
  by (simp add: idle_kept_def)

lemma idle_kept_registry: "idle_kept c d \<longleftrightarrow> idle_kept c (d\<lparr>lk_registry := lk_registry d\<rparr>)"
  by simp

lemma idle_kept_fields [simp]:
  "idle_kept c (d\<lparr>dc_state := a, dc_mode := b\<rparr>) = idle_kept c d" "idle_kept c (d\<lparr>dc_snapshots := e\<rparr>) = idle_kept c d"
  by (simp_all add: idle_kept_def)

lemma transact_backed:
  fixes change :: "domain \<Rightarrow> ('w linked_ext runtime_disk_ext scope_disk_ext, 'a \<times> domain) cio"
  assumes "batch_writer sha change" "\<And>s c0. keeps (idle_kept c0) (change s)"
  shows "keeps released_backed (transact sha oc change)"
  unfolding keeps_def
proof (intro allI impI)
  fix c :: "'w linked_scheme"
  assume b: "released_backed c"
  obtain r d where t: "transact sha oc change c = (r, d)" by fastforce
  have k: "idle_kept c d"
    using keepsD [OF keeps_transact [OF assms(2)] idle_kept_refl t] by simp
  from batch_writer.transact_all [OF assms(1) t] have "released_backed d"
  proof (elim disjE exE conjE)
    assume "same_file c d"
    with b k show ?thesis by (auto simp: released_backed_def same_file_def idle_kept_def)
  next
    fix s u
    assume "dc_state c = Some s" "no_new_release s u" "dc_state d = Some (counted u)"
    with b k show ?thesis by (fastforce simp: released_backed_def idle_kept_def no_new_release_def counted_def)
  qed
  then show "released_backed (snd (transact sha oc change c))" by (simp add: t)
qed

text \<open>Changes that leave the registry alone.\<close>

lemma keeps_guarded [preserved]: "keeps P (with_reservation s run guard f)"
  unfolding with_reservation_def by (auto split: option.split intro: preserved)

lemma keeps_domain_changes [preserved]:
  "keeps P (reserve_change run op w rids expected s)" "keeps P (dispatch_change run leases s)" "keeps P (cancel_change run s)"
  "keeps P (unclear_change run s)" "keeps P (accept_change bid gen oper exp rids selected s)" "keeps P (cancel_omp_change sha k w' s)"
  unfolding reserve_change_def dispatch_change_def cancel_change_def unclear_change_def accept_change_def cancel_omp_change_def
  by (intro preserved)+

lemma keeps_intent_changes [preserved]:
  "keeps P (dispatch_intent_change sha bid s)" "keeps P (move_intent sha bid allowed phase s)"
  "keeps P (unknown_intent_change sha bid s)" "keeps P (cancel_intent_change sha bid s)"
  unfolding dispatch_intent_change_def move_intent_def unknown_intent_change_def cancel_intent_change_def
  by (auto split: option.split intro!: preserved)

lemma keeps_reserve_omp [preserved]: "keeps P (reserve_omp_change sha w x ident run op s)"
  unfolding reserve_omp_change_def by (auto split: option.split intro!: preserved)

lemma keeps_accept_snapshot [preserved]:
  "(\<And>c e. P c \<Longrightarrow> P (c\<lparr>dc_snapshots := e\<rparr>)) \<Longrightarrow> keeps P (accept_snapshot_change sha oc live a s)"
proof -
  assume "\<And>c e. P c \<Longrightarrow> P (c\<lparr>dc_snapshots := e\<rparr>)"
  then have "keeps P (cell_settle oc (\<lambda>c. c\<lparr>dc_snapshots := f c\<rparr>))" for f
    by (cases oc) (auto simp: keeps_def cell_settle_def)
  then show ?thesis unfolding accept_snapshot_change_def publish_snapshot_def Let_def by (intro preserved)
qed

lemma keeps_pure_changes [preserved]:
  "keeps P (progress_change sha bid n change s)" "keeps Q (release_confirmation sha bid n w v s)"
  "keeps Q (handoff_change sha bid n prior w v s)"
  unfolding release_confirmation_def handoff_change_def by (intro preserved)+

lemma keeps_owner_dispatch [preserved]: "keeps P (dispatch_owner_change sha run w expected v s)"
  "keeps P (unknown_pending sha run w m now v s)" "keeps P (finish_pending sha run w m now v s)"
  unfolding dispatch_owner_change_def unknown_pending_def finish_pending_def Let_def by (intro preserved)+

lemma keeps_finish_pure [preserved]: "keeps P (finish_change sha x res s)"
  unfolding finish_change_def by (intro preserved)

text \<open>What the operations do to the registry never takes a record out of the idle state.\<close>

lemma advances_idle: "advances ev g h \<Longrightarrow> idle_at g run \<Longrightarrow> idle_at h run"
  by (cases "owner_at g run") (force simp: advances_def idle_at_def owner_phases.steps_def)+

lemma keeps_registry_step:
  assumes "\<And>g run. idle_at g run \<Longrightarrow> idle_at (snd (m g)) run"
  shows "keeps (idle_kept c0) (on_registry m)"
  using assms by (auto simp: keeps_def on_registry_def idle_kept_def split: prod.split) (metis snd_conv)

lemma idle_at_put: "idle_at (put_record run r g) run' \<longleftrightarrow> (if run' = run then record_state r = Idle else idle_at g run')"
  by (simp add: idle_at_def)

lemma open_registry_idle: "keeps (idle_kept c0) (on_registry (open_registry b))"
  by (rule keeps_registry_step) (simp add: open_registry_def idle_at_def)

lemma publish_idle: "keeps (idle_kept c0) (on_registry (publish_record oc run r))"
proof (rule keeps_registry_step)
  fix g run' assume "idle_at g run'"
  moreover have "advances Fence g (snd (publish_record oc run r g))"
    using advances_publish [of Fence g oc run r "rg_present g"] by simp
  ultimately show "idle_at (snd (publish_record oc run r g)) run'" by (rule advances_idle [rotated])
qed

lemma complete_idle: "record_state r = Idle \<Longrightarrow> keeps (idle_kept c0) (on_registry (replace_record oc run r))"
  by (rule keeps_registry_step) (cases oc; simp add: replace_record_def settle_def idle_at_put)

lemma attach_pending_idle: "keeps (idle_kept c0) (attach_pending sha home run w m md now expected v s)"
  unfolding attach_pending_def Let_def by (intro preserved open_registry_idle)

lemma attach_commit_idle: "keeps (idle_kept c0) (attach_commit sha run w oc v v2 px s)"
  unfolding attach_commit_def by (intro preserved publish_idle)

lemma release_change_idle: "keeps (idle_kept c0) (release_change sha run w m oc sync v v2 s)"
  unfolding release_change_def Let_def by (intro preserved complete_idle) (simp add: completed_record_def)

text \<open>Marking a run unknown replaces only a record that was active.\<close>

lemma replace_active_idle:
  assumes "owner_at (lk_registry c) run = Some x" "record_state x \<noteq> Idle" "idle_kept c0 c"
  shows "idle_kept c0 (snd (on_registry (replace_record oc run r) c))"
  using assms by (cases oc) (auto simp: on_registry_def replace_record_def settle_def idle_kept_def idle_at_put idle_at_def)

lemma link_holds_state: "link_holds sha s r w v (Some (Owner x)) st dg f c \<Longrightarrow> o_state x = st"
  by (auto simp: link_holds_def record_linked_def split: option.splits)

lemma unknown_commit_idle: "keeps (idle_kept c0) (unknown_commit sha run w oc v v2 px s)"
  unfolding keeps_def
proof (intro allI impI)
  fix c assume k: "idle_kept c0 c"
  let ?rest = "\<lambda>r. bindS (getS (current_record sha run)) (\<lambda>y. let dg = owner_digest sha (snd px) in
     bindS (getS (\<lambda>c. ensure (link_holds sha s r w v2 (Some (Owner y)) Unknown_Run (Some dg) False c) Invalid)) (\<lambda>_.
     returnS ((), put_reservation run (r\<lparr>rv_link := map_option (ol_record_update (\<lambda>_. dg)) (rv_link r)\<rparr>) s)))"
  have rest: "keeps (idle_kept c0) (?rest r)" for r
    unfolding Let_def by (intro preserved)
  have step: "idle_kept c0 (snd (bindS (on_registry (replace_record oc run (Owner (snd px)))) (\<lambda>_. ?rest r) c))"
    if "current_record sha run c = Inr x" "link_holds sha s r w v (Some (Owner x)) Active None False c" for r x
  proof (rule keeps_bind_at [where P = "idle_kept c0"])
    show "idle_kept c0 (snd (on_registry (replace_record oc run (Owner (snd px))) c))"
      using replace_active_idle [OF current_record_at [OF that(1)] _ k] link_holds_state [OF that(2)] by simp
  qed (rule rest)
  note unfold = unknown_commit_def with_run_def snd_get snd_ensure ensure_def
  show "idle_kept c0 (snd (unknown_commit sha run w oc v v2 px s c))"
  proof (cases "map_of (dm_reservations s) run")
    case (Some r)
    show ?thesis
    proof (cases "current_record sha run c")
      case (Inr x)
      then show ?thesis
        using k step [OF Inr, of r] by (auto simp: unfold Some)
    qed (simp add: unfold Some k)
  qed (simp add: unfold k)
qed

subsection \<open>Every program keeps released runs backed\<close>

lemma released_backed_fields [simp]:
  "released_backed (c\<lparr>sk_instance := a, sk_lock := b, sk_home := e, sk_owner := f, sk_anchor := g, sk_home_anchor := h\<rparr>) = released_backed c"
  "released_backed (c\<lparr>sk_claim := i\<rparr>) = released_backed c" "released_backed (c\<lparr>sk_lock := b\<rparr>) = released_backed c"
  "released_backed (c\<lparr>sk_home := e\<rparr>) = released_backed c" "released_backed (c\<lparr>sk_owner := f\<rparr>) = released_backed c"
  "released_backed (c\<lparr>sk_anchor := g\<rparr>) = released_backed c" "released_backed (c\<lparr>sk_home_anchor := h\<rparr>) = released_backed c"
  "released_backed (c\<lparr>sk_instance := a\<rparr>) = released_backed c"
  "released_backed (c\<lparr>rt_claim := j\<rparr>) = released_backed c" "released_backed (c\<lparr>rt_lease := k\<rparr>) = released_backed c"
  by (simp_all add: released_backed_def)

lemma released_backed_objects [simp]:
  "released_backed (s\<lparr>si_review := t\<rparr>) = released_backed s" "released_backed (s\<lparr>si_permit := t\<rparr>) = released_backed s"
  "released_backed (s\<lparr>si_execution := x\<rparr>) = released_backed s" "released_backed (s\<lparr>si_deployment := y\<rparr>) = released_backed s"
  by (simp_all add: released_backed_def)

lemmas backed = keeps_bindS keeps_simple keeps_inspect keeps_disk_settle keeps_runtime_settle transact_backed

lemma enroll_scope_backed: "keeps released_backed (enroll_scope sha w v v2 ids oc)"
  unfolding enroll_scope_def build_scope_def Let_def
  by (intro backed scope_writer.batch_writer_axioms preserved) simp_all

lemma enroll_runtime_backed: "keeps released_backed (enroll_runtime sha cache ident rid key kl kn oc)"
  unfolding enroll_runtime_def link_runtime_def
  by (intro backed runtime_writer.batch_writer_axioms preserved) simp_all

lemma accept_snapshot_backed: "keeps released_backed (accept_snapshot sha oc1 oc2 live v)"
  unfolding accept_snapshot_eq by (intro backed accept_snapshot_writer.batch_writer_axioms preserved) simp

lemma reserve_omp_backed: "keeps released_backed (reserve_omp_launch sha oc w ident run op)"
  unfolding reserve_omp_launch_def by (intro backed reserve_omp_writer.batch_writer_axioms preserved)

lemma changes_backed:
  "keeps released_backed (transact sha oc (reserve_change run op r rids expected))"
  "keeps released_backed (transact sha oc (dispatch_change run leases))"
  "keeps released_backed (transact sha oc (cancel_change run))" "keeps released_backed (transact sha oc (unclear_change run))"
  "keeps released_backed (transact sha oc (accept_change bid gen oper expected' rids selected))"
  "keeps released_backed (transact sha oc (dispatch_intent_change sha bid))"
  "keeps released_backed (transact sha oc (unknown_intent_change sha bid))"
  "keeps released_backed (transact sha oc (cancel_intent_change sha bid))"
  "keeps released_backed (transact sha oc (cancel_omp_change sha k w))"
  by (intro transact_backed reserve_writer.batch_writer_axioms dispatch_writer.batch_writer_axioms cancel_writer.batch_writer_axioms
      unclear_writer.batch_writer_axioms accept_writer.batch_writer_axioms dispatch_intent_writer.batch_writer_axioms
      unknown_intent_writer.batch_writer_axioms cancel_intent_writer.batch_writer_axioms cancel_omp_writer.batch_writer_axioms
      keeps_domain_changes keeps_intent_changes)+

lemma dispatch_owner_backed: "keeps released_backed (transact sha oc (dispatch_owner_change sha run w expected v))"
  by (intro transact_backed dispatch_owner_writer.batch_writer_axioms keeps_owner_dispatch)

lemma attach_owner_backed: "keeps released_backed (attach_owner sha home run w m md now expected v oc)"
  unfolding attach_owner_def
proof (rule keeps_bindS, rule keeps_simple, rule keeps_bind_result)
  show "keeps released_backed (transact sha (oc 0) (attach_pending sha home run w m md now expected (v 0)))"
    by (intro transact_backed attach_pending_writer.batch_writer_axioms attach_pending_idle)
next
  fix c px d
  assume "transact sha (oc 0) (attach_pending sha home run w m md now expected (v 0)) c = (Inr px, d)"
  then have "rv_phase (fst px) = Owner_Pending"
    by (auto simp: attach_pending_def result_simps Let_def dest!: transact_value)
  then show "keeps released_backed (bindS (transact sha (oc 2) (attach_commit sha run w (oc 1) (v 1) (v 2) px)) (\<lambda>_. returnS run))"
    by (intro backed attach_commit_quiet attach_commit_idle)
qed

lemma mark_owner_unknown_backed: "keeps released_backed (mark_owner_unknown sha run w m me me2 now v oc)"
  unfolding mark_owner_unknown_def
proof (rule keeps_bindS, rule keeps_simple, rule keeps_bind_result)
  show "keeps released_backed (transact sha (oc 0) (unknown_pending sha run w m now (v 0)))"
    by (intro transact_backed unknown_pending_writer.batch_writer_axioms keeps_owner_dispatch)
next
  fix c px d
  assume "transact sha (oc 0) (unknown_pending sha run w m now (v 0)) c = (Inr px, d)"
  then have "rv_phase (fst px) = Unclear"
    by (auto simp: unknown_pending_def result_simps Let_def dest!: transact_value)
  then show "keeps released_backed (bindS (ensureS (me2 = m) Invalid)
      (\<lambda>_. bindS (transact sha (oc 2) (unknown_commit sha run w (oc 1) (v 1) (v 2) px)) (\<lambda>_. returnS run)))"
    by (intro backed unknown_commit_quiet unknown_commit_idle)
qed

text \<open>The release itself: the record is idle on disk before the reservation is released.\<close>

lemma release_backed: "keeps released_backed (transact sha oc (release_change sha run w m oc0 sync v v2))"
  unfolding keeps_def
proof (intro allI impI)
  fix c assume b: "released_backed c"
  let ?ch = "release_change sha run w m oc0 sync v v2"
  obtain r d where t: "transact sha oc ?ch c = (r, d)" by fastforce
  have k: "idle_kept c d"
    using keepsD [OF keeps_transact [OF release_change_idle] idle_kept_refl t] by simp
  have same: "released_backed e" if "same_file c e" "idle_kept c e" for e
    using b that by (auto simp: released_backed_def same_file_def idle_kept_def)
  show "released_backed (snd (transact sha oc ?ch c))"
    using transact_cases [OF t]
  proof (elim disjE exE conjE)
    fix s x u e
    assume s: "current_state sha c = Inr s" and ch: "?ch s c = (Inr (x, u), e)" and d: "d = e\<lparr>dc_state := Some (counted u), dc_mode := 384\<rparr>"
    from release_done [OF ch] obtain v y where u: "u = put_reservation run (v\<lparr>rv_phase := Released\<rparr>) s"
      and y: "owner_at (lk_registry e) run = Some (Owner y)" "o_state y = Idle" by blast
    have "lk_registry d = lk_registry e" "dc_state d = Some (counted u)" by (simp_all add: d)
    moreover have "dc_state c = Some s" using s by (simp add: current_state_iff)
    ultimately show ?thesis
      using b k y unfolding t u released_backed_def idle_kept_def
      by (auto simp: counted_def put_reservation_def idle_at_def split: if_splits)
  next
    fix s e assume "?ch s c = (Inl e, d)"
    from same [OF release_writer.leaves_file [OF this] k] show ?thesis by (simp add: t)
  next
    fix s x u e assume ch: "?ch s c = (Inr (x, u), e)" and d: "d = e"
    from same [OF release_writer.leaves_file [OF ch]] k show ?thesis by (simp add: t d)
  qed (simp add: t b)
qed

lemma reconcile_backed: "keeps released_backed (reconcile_owner_release sha run w ob me v oc)"
  unfolding reconcile_owner_release_def by (intro backed release_backed)

lemma finish_owner_backed: "keeps released_backed (finish_owner sha run w ob me now v0 v oc0 oc)"
  unfolding finish_owner_def by (intro backed finish_pending_writer.batch_writer_axioms keeps_owner_dispatch reconcile_backed)

lemma progress_backed:
  "keeps released_backed (record_stop_requested sha oc bid n run)" "keeps released_backed (record_exit sha oc bid n ob)"
  "keeps released_backed (mark_batch_unknown sha oc bid n run)"
  unfolding record_stop_requested_def record_exit_def mark_batch_unknown_def
  by (intro transact_backed request_writer.batch_writer_axioms exit_writer.batch_writer_axioms batch_unknown_writer.batch_writer_axioms
      keeps_progress_change)+

lemma confirm_release_backed: "keeps released_backed (confirm_setup_release sha oc bid n w v)"
  unfolding confirm_setup_release_def by (intro backed release_confirmation_writer.batch_writer_axioms preserved)

lemma complete_backed: "keeps released_backed (complete_setup_manual sha oc bid n w v v2 v3 approve)"
  unfolding complete_setup_manual_def handoff_ready_def by (intro backed handoff_writer.batch_writer_axioms preserved)

lemma idle_kept_objects [simp]:
  "idle_kept c (s\<lparr>si_review := t\<rparr>) = idle_kept c s" "idle_kept c (s\<lparr>si_permit := t\<rparr>) = idle_kept c s"
  by (simp_all add: idle_kept_def)

lemma setup_dispatch_idle: "keeps (idle_kept c0) (setup_dispatch_change sha proc bid n w v did dg s)"
  unfolding setup_dispatch_change_def by (intro preserved) simp

lemma begin_idle: "keeps (idle_kept c0) (begin_change sha proc x w v target s)"
  unfolding begin_change_def by (intro preserved) simp

lemma review_dispatch_backed: "keeps released_backed (review_and_dispatch_setup sha proc oc bid n pv approve v did)"
proof -
  have "keeps released_backed (\<lambda>c. (Inr m, c\<lparr>si_permit := t\<rparr>))" for m :: batch and t by (simp add: keeps_def)
  then show ?thesis
    unfolding review_and_dispatch_setup_def record_setup_dispatch_def Let_def
    by (intro backed setup_dispatch_writer.batch_writer_axioms setup_dispatch_idle keeps_case_prod keeps_update) simp
qed

lemma put_execution_backed: "keeps released_backed (put_execution x)"
  by (simp add: keeps_def put_execution_def)

lemma core_step_backed: "keeps released_backed (core_step sha proc k)"
  by (cases k) (simp_all add: approve_plan_def check_execution_scope_def begin_sync_def finish_sync_def apply_enter_def apply_leave_def,
    (intro backed keeps_checks put_execution_backed begin_writer.batch_writer_axioms begin_idle)+)

lemma run_core_backed: "keeps released_backed (run_core sha proc ks)"
proof (induction ks)
  case (Cons k ks)
  show ?case
    unfolding keeps_def run_core.simps by (intro allI impI keeps_at [OF Cons.IH] keeps_at [OF core_step_backed])
qed (simp add: keeps_simple)

lemma finish_execution_backed:
  assumes "execution_ok c" "released_backed c"
  shows "released_backed (snd (finish_execution sha oc res c))"
proof (cases "si_execution c")
  case None
  then show ?thesis by (simp add: finish_execution_def snd_get the_execution_def assms(2))
next
  case (Some x)
  show ?thesis
  proof (cases "ex_started x")
    case True
    with assms Some have "b_phase (ex_batch x) = Setup_Running" by (simp add: execution_ok_def)
    from finish_writer [OF this]
    have "released_backed (snd (bindS (transact sha oc (finish_change sha x res))
        (\<lambda>n. bindS (put_execution (x\<lparr>ex_batch := n, ex_stage := Finished\<rparr>)) (\<lambda>_. returnS n)) c))"
      by (intro keeps_at [where P = released_backed, OF _ assms(2)] backed put_execution_backed keeps_finish_pure)
    with Some assms(2) show ?thesis by (simp add: finish_execution_def snd_get the_execution_def snd_ensure)
  qed (simp add: finish_execution_def snd_get the_execution_def snd_ensure Some assms(2))
qed

lemma execute_setup_backed:
  assumes "released_backed c"
  shows "released_backed (snd (execute_setup sha oc (setup_core sha proc ks outcome) b c))"
  using execute_setup_shape [of sha oc proc ks outcome b c]
proof (elim disjE exE conjE)
  fix x d
  assume d: "d = snd (run_core sha proc ks (c\<lparr>si_execution := Some x\<rparr>))" and ok: "execution_ok d"
  have bd: "released_backed d" unfolding d using assms by (intro keeps_at [OF run_core_backed]) simp
  show ?thesis if "snd (execute_setup sha oc (setup_core sha proc ks outcome) b c) = d\<lparr>si_execution := None\<rparr>"
    using bd by (simp add: that)
  show ?thesis if "snd (execute_setup sha oc (setup_core sha proc ks outcome) b c) = (snd (finish_execution sha oc res d))\<lparr>si_execution := None\<rparr>" for res
    using finish_execution_backed [OF ok bd] by (simp add: that)
qed (simp add: assms)

lemma initialize_backed:
  assumes "released_backed c"
  shows "released_backed (snd (initialize_domain sha oc did phys entries c))"
  using assms by (cases oc) (auto simp: initialize_domain_def Let_def released_backed_def cell_settle_def split: option.split)

lemmas all_backed = enroll_scope_backed enroll_runtime_backed changes_backed accept_snapshot_backed reserve_omp_backed attach_owner_backed
  dispatch_owner_backed mark_owner_unknown_backed finish_owner_backed reconcile_backed progress_backed confirm_release_backed
  review_dispatch_backed complete_backed

lemma site_step_backed:
  assumes "site_step sha home proc c d" "released_backed c"
  shows "released_backed d"
  using assms(1)
proof cases
  case (initialize oc did phys entries)
  then show ?thesis using initialize_backed [OF assms(2)] by simp
next
  case (execute oc ks outcome b)
  then show ?thesis using execute_setup_backed [OF assms(2)] by simp
next
  case (registry ev)
  have "idle_at (lk_registry c) run \<Longrightarrow> idle_at (lk_registry d) run" for run
    unfolding registry using advances_idle [OF owner_step_advances] by simp
  then show ?thesis using assms(2) by (simp add: registry released_backed_def) blast
next
  case (deploy ds)
  then show ?thesis using assms(2) by simp
qed (auto intro: keeps_at [where P = released_backed, OF _ assms(2)] all_backed)


section \<open>A small history\<close>

text \<open>From nothing: a domain, an instance in it, a reservation on the instance, an intent on its home.\<close>

definition sample_objects :: "unit site_ext" where
  "sample_objects = site_ext \<lparr>ds_pending = False, ds_owner = sample_binding, ds_current = None, ds_intact = True\<rparr> None None None ()"

definition sample_rest :: "unit site_ext linked_ext runtime_disk_ext" where
  "sample_rest = runtime_disk_ext None None False (linked_ext empty_registry sample_physical sample_objects)"

definition fresh_site :: site where
  "fresh_site = (sample_site sample_rest)\<lparr>dc_root := None, dc_state := None, dc_mode := 0\<rparr>"

definition reserved_domain :: domain where
  "reserved_domain = counted (put_reservation (sample_id CHR ''b'')
     (new_reservation (counted scoped_domain) (sample_id CHR ''b'') (sample_id CHR ''c'') \<lparr>wr_root = ''/r/omp/x'', wr_binding = sample_binding\<rparr>
        [sample_id CHR ''2'']) (counted scoped_domain))"

definition stopping_intent :: intent where
  "stopping_intent = \<lparr>it_batch = sample_id CHR ''e'', it_generation = 3, it_operation = Stop_Only, it_resources = [sample_id CHR ''3''],
     it_runs = [], it_phase = Intent_Active, it_digest = None, it_progress = None\<rparr>"

definition stopping_domain :: domain where
  "stopping_domain = counted (put_intent (sample_id CHR ''e'') stopping_intent reserved_domain)"

definition site_in :: "domain \<Rightarrow> site" where
  "site_in s = (scoped_site sample_rest)\<lparr>dc_state := Some s, dc_mode := 384\<rparr>"

lemma scoped_current: "domain_ok sample_sha s \<Longrightarrow> dm_physical s = sample_physical \<Longrightarrow> current_state sample_sha (site_in s) = Inr s"
  by (simp add: current_state_def site_in_def scoped_site_def sample_site_def)

lemma sample_begins: "initialize_domain sample_sha Done (sample_id CHR ''d'') sample_physical 0 fresh_site = (Inr (), sample_site sample_rest)"
proof -
  have "domain_encodes sample_sha empty_domain" by code_simp
  then show ?thesis
    by (simp add: initialize_domain_def fresh_site_def sample_site_def cell_settle_def empty_domain_def Let_def)
qed

lemma scoped_eq: "scoped_domain = empty_domain\<lparr>dm_resources := scope_records sample_sha sample_anchor\<rparr>"
  unfolding scoped_domain_def sample_records by code_simp

lemma scoped_states: "domain_ok sample_sha (counted scoped_domain)" "domain_ok sample_sha reserved_domain" "domain_encodes sample_sha reserved_domain"
  "domain_encodes sample_sha stopping_domain"
  unfolding stopping_domain_def reserved_domain_def scoped_eq sample_records by code_simp+

lemma sample_scoped: "scoped_site sample_rest = site_in (counted scoped_domain)"
  by (simp add: site_in_def scoped_site_def sample_site_def)

lemma sample_reserve:
  "snd (transact sample_sha Done (reserve_change (sample_id CHR ''b'') (sample_id CHR ''c'') \<lparr>wr_root = ''/r/omp/x'', wr_binding = sample_binding\<rparr>
     [sample_id CHR ''2''] None) (site_in (counted scoped_domain))) = site_in reserved_domain"
proof -
  have "free_reservation (counted scoped_domain) (sample_id CHR ''b'') (sample_id CHR ''c'') [sample_id CHR ''2''] None"
    unfolding scoped_eq sample_records by code_simp
  moreover have "current_state sample_sha (site_in (counted scoped_domain)) = Inr (counted scoped_domain)"
    using scoped_states(1) by (rule scoped_current) (simp add: scoped_eq counted_def)
  moreover note scoped_states(3) [unfolded reserved_domain_def]
  ultimately show ?thesis
    by (simp add: transact_def reserve_change_def bindS_def getS_def ensureS_def ensure_def returnS_def cell_settle_def Let_def counted_def
        reserved_domain_def) (simp add: site_in_def)
qed

lemma sample_accept:
  "snd (transact sample_sha Done (accept_change (sample_id CHR ''e'') 3 Stop_Only 2 [sample_id CHR ''3''] []) (site_in reserved_domain)) =
     site_in stopping_domain"
proof -
  have "ready_resources reserved_domain [sample_id CHR ''3'']" "unfenced reserved_domain [sample_id CHR ''3'']"
    "dm_revision reserved_domain = 2" "map_of (dm_intents reserved_domain) (sample_id CHR ''e'') = None"
    "selection_ok reserved_domain [sample_id CHR ''3''] [] Stop_Only" "dm_physical reserved_domain = sample_physical"
    unfolding reserved_domain_def scoped_eq sample_records by code_simp+
  moreover have "domain_encodes sample_sha (stopping_domain)" by (rule scoped_states(4))
  ultimately show ?thesis
    using scoped_current [OF scoped_states(2)]
    by (simp add: transact_def accept_change_def bindS_def getS_def ensureS_def ensure_def returnS_def cell_settle_def Let_def counted_def
        stopping_domain_def stopping_intent_def) (simp add: site_in_def)
qed

abbreviation any_home :: "string \<Rightarrow> bool" where
  "any_home \<equiv> \<lambda>_. True"

lemma sample_registered: "site_reach sample_sha any_home 1 fresh_site (site_in (counted scoped_domain))"
proof -
  have "site_step sample_sha any_home 1 fresh_site (sample_site sample_rest)"
    using site_step.initialize [of sample_sha any_home 1 fresh_site Done "sample_id CHR ''d''" sample_physical 0] by (simp add: sample_begins)
  moreover have "site_step sample_sha any_home 1 (sample_site sample_rest) (site_in (counted scoped_domain))"
    using site_step.enroll_scope [of sample_sha any_home 1 "sample_site sample_rest" sample_workspace sample_view sample_view sample_enrolment "\<lambda>_. Done"]
    by (simp add: sample_enrolled sample_scoped)
  ultimately show ?thesis by (simp add: converse_rtranclp_into_rtranclp)
qed

lemma sample_fenced: "site_reach sample_sha any_home 1 (site_in (counted scoped_domain)) (site_in stopping_domain)"
proof -
  have "site_step sample_sha any_home 1 (site_in (counted scoped_domain)) (site_in reserved_domain)"
    using site_step.reserve [of sample_sha any_home 1 "site_in (counted scoped_domain)" Done "sample_id CHR ''b''" "sample_id CHR ''c''"
        "\<lparr>wr_root = ''/r/omp/x'', wr_binding = sample_binding\<rparr>" "[sample_id CHR ''2'']" None]
    unfolding sample_reserve .
  moreover have "site_step sample_sha any_home 1 (site_in reserved_domain) (site_in stopping_domain)"
    using site_step.accept_intent [of sample_sha any_home 1 "site_in reserved_domain" Done "sample_id CHR ''e''" 3 Stop_Only 2 "[sample_id CHR ''3'']" "[]"]
    unfolding sample_accept .
  ultimately show ?thesis by (simp add: converse_rtranclp_into_rtranclp)
qed

lemma sample_history: "site_reach sample_sha any_home 1 fresh_site (site_in stopping_domain)" "dc_state fresh_site = None"
  using sample_registered sample_fenced by (auto simp: fresh_site_def)

lemma site_in_state [simp]: "dc_state (site_in s) = Some s"
  by (simp add: site_in_def)


lemma stopping_parts:
  "map_of (dm_intents stopping_domain) (sample_id CHR ''e'') = Some stopping_intent" "\<not> terminal_intent stopping_intent"
  "\<exists>r. map_of (dm_reservations stopping_domain) (sample_id CHR ''b'') = Some r \<and> starting (rv_phase r)"
  by (simp_all add: stopping_domain_def counted_def put_intent_def stopping_intent_def terminal_intent_def reserved_domain_def
      put_reservation_def new_reservation_def starting_def)



theorem operations_refine_batches_witness:
  "\<exists>b. stored_batch (snd (record_exit sample_sha Done (sample_id CHR ''e'') 0 sample_complete (done_site first_batch))) (sample_id CHR ''e'') = Some b \<and>
     batch_follows first_batch b \<and> b = exited_batch"
proof -
  have "stored_batch (done_site first_batch) (sample_id CHR ''e'') = Some first_batch"
    by (simp add: stored_batch_def done_site_def done_domain_def done_intent_def)
  from operations_refine_batches [OF site_step.exit_seen [of sample_sha any_home 1 "done_site first_batch" Done "sample_id CHR ''e''" 0 sample_complete] this]
  show ?thesis by (simp add: first_recorded) (simp add: stored_batch_def counted_def done_domain_def done_intent_def)
qed


end
