(* ===== verification/Release_Wait.thy ===== *)
theory Release_Wait
  imports Complex_Main Deadlines Coordination_Safety
begin

text \<open>
  The bounded waits of a stop (\<open>agentcfg/maintenance_wait.py\<close>, \<open>wait_for_batch_release\<close> in
  \<open>maintenance_progress.py\<close>, \<open>wait_for_setup_release\<close> in \<open>maintenance_release.py\<close>). What the caller
  supplies is a parameter: \<open>observe\<close>, \<open>record\<close> and \<open>sleep\<close> are operations on the world, so that
  other processes may act while they run; the clock is read only through the shared deadline. The
  rounds of the loop are counted by a fuel; \<open>None\<close> means that the rounds given did not end it.
\<close>

section \<open>State\<close>

datatype wait_reason =
  Clock_Unconfirmed | Deadline_Expired | Observation_Unconfirmed | Record_Unconfirmed | Wait_Unconfirmed | Release_Unconfirmed

record 's phase_state =
  ph_clock :: clockwork
  ph_deadline :: control
  ph_world :: 's

record 's waiting = "'s phase_state" +
  wg_pending :: "string list"
  wg_confirmed :: "string list"

record wait_result =
  wr_confirmed :: "string list"
  wr_pending :: "string list"
  wr_exit :: nat
  wr_reason :: "wait_reason option"

record batch_wait_result = wait_result +
  br_revision :: nat

record setup_wait_result = wait_result +
  sr_released :: bool
  sr_revision :: nat

type_synonym ('s, 'm, 'a) wio = "(('s, 'm) phase_state_scheme, wait_reason, 'a) io"

type_synonym 's observer = "string \<Rightarrow> manager \<Rightarrow> ('s, unit, release_observation option) io"

section \<open>One pass\<close>

text \<open>\<open>deadline.remaining()\<close> on the shared deadline; \<open>check_budget\<close> is the test after it.\<close>

definition phase_left :: "('s, 'm, int) wio" where
  "phase_left z =
     (case remaining (ph_deadline z) (ph_clock z) of
        (Inl e, c) \<Rightarrow> (Inl Clock_Unconfirmed, z\<lparr>ph_clock := c\<rparr>)
      | (Inr (l, d), c) \<Rightarrow> (Inr l, z\<lparr>ph_clock := c, ph_deadline := d\<rparr>))"

definition check_budget :: "('s, 'm, int) wio" where
  "check_budget = bindS phase_left (\<lambda>l. bindS (ensureS (l \<noteq> 0) Deadline_Expired) (\<lambda>_. returnS l))"

text \<open>A call into the caller's world: whatever it raises becomes one reason.\<close>

definition calling :: "wait_reason \<Rightarrow> ('s, unit, 'a) io \<Rightarrow> ('s, 'm, 'a) wio" where
  "calling r m z = (case m (ph_world z) of (Inl _, w) \<Rightarrow> (Inl r, z\<lparr>ph_world := w\<rparr>) | (Inr x, w) \<Rightarrow> (Inr x, z\<lparr>ph_world := w\<rparr>))"

definition confirm_run :: "string \<Rightarrow> (('s, 'm) waiting_scheme, wait_reason, unit) io" where
  "confirm_run run z = (Inr (), z\<lparr>wg_pending := filter (\<lambda>k. k \<noteq> run) (wg_pending z), wg_confirmed := insort_insert run (wg_confirmed z)\<rparr>)"

definition wait_run ::
  "'s observer \<Rightarrow> (release_observation \<Rightarrow> ('s, unit, unit) io) \<Rightarrow> string \<Rightarrow> manager \<Rightarrow> (('s, 'm) waiting_scheme, wait_reason, unit) io" where
  "wait_run observe record run m =
     bindS check_budget (\<lambda>_.
     bindS (calling Observation_Unconfirmed (observe run m)) (\<lambda>proof.
     bindS (case proof of
         None \<Rightarrow> returnS ()
       | Some ob \<Rightarrow>
           if proof_matches ob run m then bindS (calling Record_Unconfirmed (record ob)) (\<lambda>_. confirm_run run)
           else returnS ()) (\<lambda>_.
     bindS check_budget (\<lambda>_. returnS ()))))"

fun wait_pass ::
  "'s observer \<Rightarrow> (release_observation \<Rightarrow> ('s, unit, unit) io) \<Rightarrow> (string \<times> manager) list \<Rightarrow>
   (('s, 'm) waiting_scheme, wait_reason, unit) io" where
  "wait_pass observe record [] = returnS ()"
| "wait_pass observe record ((run, m) # rest) = bindS (wait_run observe record run m) (\<lambda>_. wait_pass observe record rest)"

section \<open>The loop\<close>

definition still_pending :: "(string \<times> manager) list \<Rightarrow> ('s, 'm) waiting_scheme \<Rightarrow> (string \<times> manager) list" where
  "still_pending ms z = filter (\<lambda>(run, m). run \<in> set (wg_pending z)) ms"

definition pause :: "rat \<Rightarrow> (rat \<Rightarrow> ('s, unit, unit) io) \<Rightarrow> ('s, 'm, unit) wio" where
  "pause interval sleep = bindS check_budget (\<lambda>l. calling Wait_Unconfirmed (sleep (min interval (of_int l))))"

fun wait_rounds ::
  "'s observer \<Rightarrow> (release_observation \<Rightarrow> ('s, unit, unit) io) \<Rightarrow> (rat \<Rightarrow> ('s, unit, unit) io) \<Rightarrow> rat \<Rightarrow> (string \<times> manager) list \<Rightarrow>
   nat \<Rightarrow> ('s, 'm) waiting_scheme \<Rightarrow> ((wait_reason + unit) \<times> ('s, 'm) waiting_scheme) option" where
  "wait_rounds observe record sleep interval ms 0 z = None"
| "wait_rounds observe record sleep interval ms (Suc n) z =
     (if wg_pending z = [] then Some (Inr (), z)
      else case wait_pass observe record (still_pending ms z) z of
        (Inl e, y) \<Rightarrow> Some (Inl e, y)
      | (Inr _, y) \<Rightarrow>
          if wg_pending y = [] then Some (Inr (), y)
          else (case pause interval sleep y of
              (Inl e, x) \<Rightarrow> Some (Inl e, x)
            | (Inr _, x) \<Rightarrow> wait_rounds observe record sleep interval ms n x))"

definition targets_ok :: "(string \<times> manager) list \<Rightarrow> rat \<Rightarrow> bool" where
  "targets_ok ms interval \<longleftrightarrow> dict_ok ms \<and> 1 \<le> length ms \<and> length ms \<le> 1024 \<and> 0 < interval \<and> interval \<le> 1 \<and>
     list_all (\<lambda>(run, m). is_hex 32 run \<and> manager_ok m) ms"

definition wait_result_of :: "wait_reason + unit \<Rightarrow> 's waiting \<Rightarrow> wait_result" where
  "wait_result_of r z = \<lparr>wr_confirmed = wg_confirmed z, wr_pending = wg_pending z,
     wr_exit = (case r of Inl _ \<Rightarrow> 4 | Inr _ \<Rightarrow> 0), wr_reason = (case r of Inl e \<Rightarrow> Some e | Inr _ \<Rightarrow> None)\<rparr>"

definition wait_for_release ::
  "(string \<times> manager) list \<Rightarrow> 's observer \<Rightarrow> (release_observation \<Rightarrow> ('s, unit, unit) io) \<Rightarrow> (rat \<Rightarrow> ('s, unit, unit) io) \<Rightarrow> rat \<Rightarrow> nat \<Rightarrow>
   's phase_state \<Rightarrow> ((invalid + wait_result) \<times> 's phase_state) option" where
  "wait_for_release ms observe record sleep interval n z =
     (if \<not> targets_ok ms interval then Some (Inl Invalid, z)
      else case wait_rounds observe record sleep interval ms n (phase_state.extend z (waiting.fields (map fst ms) [])) of
        None \<Rightarrow> None
      | Some (r, y) \<Rightarrow> Some (Inr (wait_result_of r y), phase_state.truncate y))"

section \<open>The waits of a batch\<close>

text \<open>\<open>_budget_reason\<close>\<close>

definition budget_reason :: "'s phase_state \<Rightarrow> wait_reason option \<times> 's phase_state" where
  "budget_reason z = (case check_budget z of (Inl e, y) \<Rightarrow> (Some e, y) | (Inr _, y) \<Rightarrow> (None, y))"

definition waiting_batch :: "(string \<Rightarrow> string) \<Rightarrow> string \<Rightarrow> ('w, acceptance \<times> batch) cio" where
  "waiting_batch sha bid = inspect sha (\<lambda>s c. bindE (load_batch sha bid s c) (\<lambda>(a, i, b).
     bindE (ensure (open_intent i \<and> b_phase b \<in> {Accepted, Requested}) Invalid) (\<lambda>_. Inr (a, b))))"

definition exited_runs :: "batch \<Rightarrow> string list" where
  "exited_runs b = map i_run (filter (\<lambda>x. exit_confirmed (i_facts x)) (b_items b))"

text \<open>The runs to wait for, with the manager of their accepted record.\<close>

definition wait_targets :: "acceptance \<Rightarrow> batch \<Rightarrow> invalid + (string \<times> manager) list" where
  "wait_targets a b = mapE (\<lambda>run. case map_of (ac_records a) run of None \<Rightarrow> Inl Invalid | Some x \<Rightarrow> Inr (run, manager_of x))
     (filter (\<lambda>run. run \<notin> set (exited_runs b)) (b_accepted b))"

text \<open>The record of one proof keeps the revision that the next compare-and-swap expects.\<close>

definition record_proof ::
  "(string \<Rightarrow> string) \<Rightarrow> outcome \<Rightarrow> string \<Rightarrow> release_observation \<Rightarrow> ('w cell_scheme \<times> nat, unit, unit) io" where
  "record_proof sha oc bid ob = (\<lambda>(c, n).
     case record_exit sha oc bid n ob c of (Inl _, d) \<Rightarrow> (Inl (), d, n) | (Inr b, d) \<Rightarrow> (Inr (), d, b_revision b))"

definition beside :: "('s, 'e, 'a) io \<Rightarrow> ('s \<times> nat, 'e, 'a) io" where
  "beside m = (\<lambda>(c, n). case m c of (r, d) \<Rightarrow> (r, d, n))"

definition batch_result :: "string list \<Rightarrow> wait_result \<Rightarrow> nat \<Rightarrow> batch_wait_result" where
  "batch_result known r n = wait_result.extend (r\<lparr>wr_confirmed := sort (remdups (known @ wr_confirmed r))\<rparr>) (batch_wait_result.fields n)"

definition wait_for_batch_release ::
  "(string \<Rightarrow> string) \<Rightarrow> outcome \<Rightarrow> string \<Rightarrow> 'w cell_scheme observer \<Rightarrow> (rat \<Rightarrow> ('w cell_scheme, unit, unit) io) \<Rightarrow> nat \<Rightarrow>
   'w cell_scheme phase_state \<Rightarrow> ((invalid + batch_wait_result) \<times> 'w cell_scheme phase_state) option" where
  "wait_for_batch_release sha oc bid observe sleep n z =
     (case waiting_batch sha bid (ph_world z) of
        (Inl e, _) \<Rightarrow> Some (Inl Invalid, z)
      | (Inr (a, b), _) \<Rightarrow>
          (case wait_targets a b of
             Inl e \<Rightarrow> Some (Inl Invalid, z)
           | Inr [] \<Rightarrow> (case budget_reason z of (why, y) \<Rightarrow>
               Some (Inr (batch_result (exited_runs b) \<lparr>wr_confirmed = [], wr_pending = [], wr_exit = (if why = None then 0 else 4), wr_reason = why\<rparr>
                 (b_revision b)), y))
           | Inr ms \<Rightarrow>
               (case wait_for_release ms (\<lambda>run m. beside (observe run m)) (record_proof sha oc bid) (\<lambda>q. beside (sleep q)) (1 / 20) n
                   \<lparr>ph_clock = ph_clock z, ph_deadline = ph_deadline z, ph_world = (ph_world z, b_revision b)\<rparr> of
                  None \<Rightarrow> None
                | Some (r, y) \<Rightarrow> Some (case r of Inl e \<Rightarrow> Inl e
                    | Inr q \<Rightarrow> Inr (batch_result (exited_runs b) q (snd (ph_world y))),
                    \<lparr>ph_clock = ph_clock y, ph_deadline = ph_deadline y, ph_world = fst (ph_world y)\<rparr>))))"

section \<open>The wait of a setup\<close>

definition setup_waiting :: "(string \<Rightarrow> string) \<Rightarrow> string \<Rightarrow> string list \<Rightarrow> ('w, batch) cio" where
  "setup_waiting sha bid selected = bindS (waiting_batch sha bid) (\<lambda>(a, b).
     bindS (ensureS (b_operation b = Setup_Operation \<and> set selected = set (b_accepted b)) Invalid) (\<lambda>_. returnS b))"

definition setup_result :: "string list \<Rightarrow> string list \<Rightarrow> nat \<Rightarrow> bool \<Rightarrow> wait_reason option \<Rightarrow> setup_wait_result" where
  "setup_result confirmed pending n done_now why =
     \<lparr>wr_confirmed = confirmed, wr_pending = pending, wr_exit = (if why = None then 0 else 4), wr_reason = why,
      sr_released = done_now, sr_revision = n\<rparr>"

definition confirm_after ::
  "(string \<Rightarrow> string) \<Rightarrow> outcome \<Rightarrow> string \<Rightarrow> workspace \<Rightarrow> link_view \<Rightarrow> batch_wait_result \<Rightarrow>
   'w site_scheme phase_state \<Rightarrow> setup_wait_result \<times> 'w site_scheme phase_state" where
  "confirm_after sha oc bid w v q z =
     (case budget_reason z of
        (Some e, y) \<Rightarrow> (setup_result (wr_confirmed q) (wr_pending q) (br_revision q) False (Some e), y)
      | (None, y) \<Rightarrow>
          (case confirm_setup_release sha oc bid (br_revision q) w v (ph_world y) of
             (Inl _, d) \<Rightarrow> (setup_result (wr_confirmed q) (wr_pending q) (br_revision q) False (Some Release_Unconfirmed), y\<lparr>ph_world := d\<rparr>)
           | (Inr b, d) \<Rightarrow>
               (case budget_reason (y\<lparr>ph_world := d\<rparr>) of
                  (why, x) \<Rightarrow> (setup_result (wr_confirmed q) (wr_pending q) (b_revision b) True why, x))))"

definition wait_for_setup_release ::
  "(string \<Rightarrow> string) \<Rightarrow> outcome \<Rightarrow> string \<Rightarrow> string list \<Rightarrow> workspace \<Rightarrow> link_view \<Rightarrow> 'w site_scheme observer \<Rightarrow>
   (rat \<Rightarrow> ('w site_scheme, unit, unit) io) \<Rightarrow> nat \<Rightarrow>
   'w site_scheme phase_state \<Rightarrow> ((invalid + setup_wait_result) \<times> 'w site_scheme phase_state) option" where
  "wait_for_setup_release sha oc bid selected w v observe sleep n z =
     (case setup_waiting sha bid selected (ph_world z) of
        (Inl e, _) \<Rightarrow> Some (Inl Invalid, z)
      | (Inr b, _) \<Rightarrow>
          (case budget_reason z of
             (Some e, y) \<Rightarrow> Some (Inr (setup_result (sort (exited_runs b)) (sort (filter (\<lambda>k. k \<notin> set (exited_runs b)) (b_accepted b)))
                 (b_revision b) False (Some e)), y)
           | (None, y) \<Rightarrow>
               (case wait_for_batch_release sha oc bid observe sleep n y of
                  None \<Rightarrow> None
                | Some (Inl e, x) \<Rightarrow> Some (Inl e, x)
                | Some (Inr q, x) \<Rightarrow>
                    if wr_exit q \<noteq> 0
                    then Some (Inr (wait_result.extend (wait_result.truncate q) (setup_wait_result.fields False (br_revision q))), x)
                    else (case confirm_after sha oc bid w v q x of (s, u) \<Rightarrow> Some (Inr s, u)))))"

section \<open>The deadline ends every wait\<close>

text \<open>The reading at which the budget is used up is still to come, and the clock is not read after it.\<close>

definition ends_within :: "int \<Rightarrow> reading list \<Rightarrow> nat \<Rightarrow> ('s, 'm) phase_state_scheme \<Rightarrow> bool" where
  "ends_within t post k z \<longleftrightarrow> until (ph_deadline z) \<le> t \<and> 0 \<le> budget (ph_deadline z) \<and>
     (\<exists>pre. script (ph_clock z) = pre @ Now t # post \<and> length pre \<le> k)"

definition not_past :: "reading list \<Rightarrow> ('s, 'm) phase_state_scheme \<Rightarrow> bool" where
  "not_past post z \<longleftrightarrow> (\<exists>pre. script (ph_clock z) = pre @ post)"

lemma ends_not_past: "ends_within t post k z \<Longrightarrow> not_past post z"
proof -
  assume "ends_within t post k z"
  then obtain pre where "script (ph_clock z) = (pre @ [Now t]) @ post" by (auto simp: ends_within_def)
  then show ?thesis unfolding not_past_def by blast
qed

lemma ends_mono: "ends_within t post k z \<Longrightarrow> k \<le> l \<Longrightarrow> ends_within t post l z"
  by (auto simp: ends_within_def)

text \<open>What a step owes: it stays before the end of the clock, and where it goes on it has read the clock.\<close>

definition ticks :: "('a \<Rightarrow> bool) \<Rightarrow> (('s, 'm, 'a) wio) \<Rightarrow> bool" where
  "ticks reads m \<longleftrightarrow> (\<forall>t post k z r y. ends_within t post k z \<and> m z = (r, y) \<longrightarrow>
     not_past post y \<and> (\<forall>x. r = Inr x \<longrightarrow> ends_within t post k y \<and> (reads x \<longrightarrow> 0 < k \<and> ends_within t post (k - 1) y)))"

lemma ticksI:
  assumes "\<And>t post k z e y. ends_within t post k z \<Longrightarrow> m z = (Inl e, y) \<Longrightarrow> not_past post y"
    and "\<And>t post k z x y. ends_within t post k z \<Longrightarrow> m z = (Inr x, y) \<Longrightarrow>
      ends_within t post k y \<and> (reads x \<longrightarrow> 0 < k \<and> ends_within t post (k - 1) y)"
  shows "ticks reads m"
  unfolding ticks_def using assms ends_not_past by (metis sum.exhaust)

lemma ticksD:
  assumes "ticks reads m" "ends_within t post k z" "m z = (r, y)"
  shows "not_past post y" "r = Inr x \<Longrightarrow> ends_within t post k y" "r = Inr x \<Longrightarrow> reads x \<Longrightarrow> 0 < k" "r = Inr x \<Longrightarrow> reads x \<Longrightarrow> ends_within t post (k - 1) y"
  using assms unfolding ticks_def by blast+

lemma check_passed:
  assumes "check_budget z = (Inr x, y)"
  shows "\<exists>now rest. script (ph_clock z) = Now now # rest \<and> script (ph_clock y) = rest \<and> until (ph_deadline y) = until (ph_deadline z) \<and>
    x = min (budget (ph_deadline z)) (max 0 (until (ph_deadline z) - now)) \<and> x \<noteq> 0 \<and> budget (ph_deadline y) = x"
  using assms
  by (auto simp: check_budget_def phase_left_def result_simps remaining_def read_clock_def bindS_def returnS_def Let_def
      split: prod.splits sum.splits list.splits reading.splits if_splits)

lemma ticks_check: "ticks (\<lambda>_. True) check_budget"
proof (rule ticksI)
  fix t post k e y z
  assume z: "ends_within t post k z" and "check_budget z = (Inl e, y)"
  then show "not_past post y"
    by (cases "script (ph_clock z)")
      (auto simp: check_budget_def phase_left_def bindS_def ensureS_def ensure_def returnS_def remaining_def read_clock_def ends_within_def not_past_def
        Cons_eq_append_conv Let_def split: prod.splits sum.splits list.splits reading.splits if_splits)
next
  fix t post k x y z
  assume z: "ends_within t post k z" and c: "check_budget z = (Inr x, y)"
  from check_passed [OF c] obtain now rest where s: "script (ph_clock z) = Now now # rest" "script (ph_clock y) = rest"
    and d: "until (ph_deadline y) = until (ph_deadline z)" "x = min (budget (ph_deadline z)) (max 0 (until (ph_deadline z) - now))"
    "x \<noteq> 0" "budget (ph_deadline y) = x" by blast
  from z obtain pre where pre: "script (ph_clock z) = pre @ Now t # post" "length pre \<le> k" by (auto simp: ends_within_def)
  have "pre \<noteq> []" using pre s d z by (auto simp: ends_within_def)
  with pre s obtain a pre' where "pre = a # pre'" "rest = pre' @ Now t # post" by (cases pre) auto
  with pre(2) s d z show "ends_within t post k y \<and> (True \<longrightarrow> 0 < k \<and> ends_within t post (k - 1) y)"
    by (auto simp: ends_within_def)
qed

lemma ticks_silent:
  fixes m :: "('s, 'm, 'a) wio"
  assumes "\<And>z. ph_clock (snd (m z)) = ph_clock z \<and> ph_deadline (snd (m z)) = ph_deadline z"
  shows "ticks (\<lambda>_. False) m"
proof (rule ticksI)
  fix t post k x y e and z :: "('s, 'm) phase_state_scheme"
  assume z: "ends_within t post k z"
  show "not_past post y" if "m z = (Inl e, y)" using assms [of z] that ends_not_past [OF z] by (simp add: not_past_def)
  show "ends_within t post k y \<and> (False \<longrightarrow> 0 < k \<and> ends_within t post (k - 1) y)" if "m z = (Inr x, y)"
    using assms [of z] that z by (simp add: ends_within_def)
qed

lemma ticks_return: "ticks (\<lambda>_. False) (returnS x)"
  by (rule ticks_silent) simp

lemma ticks_calling: "ticks (\<lambda>_. False) (calling r w)"
  by (rule ticks_silent) (simp add: calling_def split: prod.splits sum.splits)

lemma ticks_confirm: "ticks (\<lambda>_. False) (confirm_run run)"
  by (rule ticks_silent) (simp add: confirm_run_def)

lemmas ticks_pure = ticks_return ticks_calling ticks_confirm

lemma ticks_first:
  fixes m :: "('s, 'm, 'a) wio" and k :: "'a \<Rightarrow> ('s, 'm, 'b) wio"
  assumes "ticks (\<lambda>_. True) m" "\<And>x. ticks (\<lambda>_. False) (k x)"
  shows "ticks (\<lambda>_. True) (bindS m k)"
proof (rule ticksI)
  fix t post n e y and z :: "('s, 'm) phase_state_scheme"
  assume z: "ends_within t post n z"
  show "not_past post y" if "bindS m k z = (Inl e, y)"
    using that ticksD [OF assms(1) z] ticksD(1) [OF assms(2)] by (auto simp: bindS_def split: prod.splits sum.splits)
  show "ends_within t post n y \<and> (True \<longrightarrow> 0 < n \<and> ends_within t post (n - 1) y)" if "bindS m k z = (Inr x, y)" for x
  proof -
    from that obtain u w where m: "m z = (Inr u, w)" "k u w = (Inr x, y)" by (auto simp: result_simps)
    from ticksD(3,4) [OF assms(1) z m(1)] have n: "0 < n" "ends_within t post (n - 1) w" by auto
    from ticksD(2) [OF assms(2) n(2) m(2)] have "ends_within t post (n - 1) y" by simp
    with n(1) show ?thesis using ends_mono [of t post "n - 1" y n] by simp
  qed
qed

lemma ticks_weak: "ticks reads m \<Longrightarrow> ticks (\<lambda>_. False) m"
  by (simp add: ticks_def)

lemma ticks_bind:
  fixes m :: "('s, 'm, 'a) wio" and k :: "'a \<Rightarrow> ('s, 'm, 'b) wio"
  assumes "ticks (\<lambda>_. False) m" "\<And>x. ticks (\<lambda>_. False) (k x)"
  shows "ticks (\<lambda>_. False) (bindS m k)"
proof (rule ticksI)
  fix t post n e x y and z :: "('s, 'm) phase_state_scheme"
  assume z: "ends_within t post n z"
  show "not_past post y" if "bindS m k z = (Inl e, y)"
    using that ticksD [OF assms(1) z] ticksD(1) [OF assms(2)] by (auto simp: bindS_def split: prod.splits sum.splits)
  show "ends_within t post n y \<and> (False \<longrightarrow> 0 < n \<and> ends_within t post (n - 1) y)" if "bindS m k z = (Inr x, y)"
    using that ticksD(2) [OF assms(1) z] ticksD(2) [OF assms(2)] by (fastforce simp: result_simps)
qed

lemma ticks_run: "ticks (\<lambda>_. True) (wait_run observe record run m)"
  unfolding wait_run_def
  by (rule ticks_first [OF ticks_check]) (auto split: option.split intro!: ticks_bind ticks_pure ticks_weak [OF ticks_check])

lemma ticks_pass: "ticks (\<lambda>_. False) (wait_pass observe record ms)"
proof (induction ms)
  case (Cons x ms)
  then show ?case by (cases x) (simp add: ticks_bind ticks_weak [OF ticks_run])
qed (simp add: ticks_pure)

lemma ticks_pause: "ticks (\<lambda>_. True) (pause interval sleep)"
  unfolding pause_def by (intro ticks_first [OF ticks_check] ticks_pure)

lemma rounds_end:
  "ends_within t post k z \<Longrightarrow> k < n \<Longrightarrow> \<exists>r y. wait_rounds observe record sleep interval ms n z = Some (r, y) \<and> not_past post y"
proof (induction n arbitrary: k z)
  case (Suc n)
  obtain r y where p: "wait_pass observe record (still_pending ms z) z = (r, y)" by fastforce
  obtain r' x where q: "pause interval sleep y = (r', x)" by fastforce
  note tp = ticksD [OF ticks_pass Suc.prems(1) p]
  show ?case
  proof (cases r)
    case (Inr u)
    note tq = ticksD [OF ticks_pause tp(2) [OF Inr] q]
    show ?thesis
    proof (cases r')
      case (Inr v)
      from tq(3,4) [OF Inr] have "0 < k" "ends_within t post (k - 1) x" by auto
      moreover have "k - 1 < n" using \<open>0 < k\<close> Suc.prems(2) by simp
      ultimately have "\<exists>r y. wait_rounds observe record sleep interval ms n x = Some (r, y) \<and> not_past post y" using Suc.IH by blast
      then show ?thesis using p q Inr \<open>r = Inr u\<close> tp(1) ends_not_past [OF Suc.prems(1)] by simp
    qed (use p q Inr tp(1) tq(1) ends_not_past [OF Suc.prems(1)] in auto)
  qed (use p tp(1) ends_not_past [OF Suc.prems(1)] in auto)
qed simp

text \<open>C25: Every wait for a release ends by its deadline: if some later reading of the clock is at or after
  the deadline, the loop returns within as many rounds as there are readings up to that one,
  whatever the observer, the record and the sleep do, and it never reads the clock again after it.\<close>

theorem wait_ends_by_deadline:
  assumes "script (ph_clock z) = pre @ Now t # post" "until (ph_deadline z) \<le> t" "0 \<le> budget (ph_deadline z)" "length pre < n"
  shows "\<exists>r y. wait_for_release ms observe record sleep interval n z = Some (r, y) \<and> (\<exists>used. script (ph_clock y) = used @ post)"
proof -
  let ?w = "phase_state.extend z (waiting.fields (map fst ms) [])"
  have w: "ends_within t post (length pre) ?w"
    using assms by (auto simp: ends_within_def phase_state.defs)
  have "not_past post z" unfolding not_past_def using assms(1) by (metis append.assoc append_Cons append_Nil)
  moreover have "\<exists>r y. wait_rounds observe record sleep interval ms n ?w = Some (r, y) \<and> not_past post y"
    using rounds_end [OF w assms(4)] by blast
  ultimately show ?thesis
    by (auto simp: wait_for_release_def not_past_def phase_state.defs split: option.splits)
qed

section \<open>Accounts\<close>

lemma check_keeps [preserved]: "(\<And>z c d. P z \<Longrightarrow> P (z\<lparr>ph_clock := c, ph_deadline := d\<rparr>)) \<Longrightarrow> (\<And>z c. P z \<Longrightarrow> P (z\<lparr>ph_clock := c\<rparr>)) \<Longrightarrow> keeps P check_budget"
  unfolding check_budget_def phase_left_def
  by (intro keeps_bindS keeps_simple) (auto simp: keeps_def split: prod.splits sum.splits)

lemma keeps_calling [preserved]:
  assumes "\<And>z. P z \<Longrightarrow> P (z\<lparr>ph_world := snd (m (ph_world z))\<rparr>)"
  shows "keeps P (calling r m)"
  unfolding keeps_def
proof (intro allI impI)
  fix z assume "P z"
  from assms [OF this] show "P (snd (calling r m z))"
    by (cases "m (ph_world z)") (auto simp: calling_def split: sum.splits)
qed

lemma rounds_keep:
  assumes "\<And>x. x \<in> set ms \<Longrightarrow> keeps P (wait_run observe record (fst x) (snd x))" "keeps P (pause interval sleep)"
    and "P z" "wait_rounds observe record sleep interval ms n z = Some (r, y)"
  shows "P y"
  using assms(3,4)
proof (induction n arbitrary: z)
  case (Suc n)
  have pass: "keeps P (wait_pass observe record xs)" if "set xs \<subseteq> set ms" for xs
    using that
  proof (induction xs)
    case (Cons x xs)
    then show ?case using assms(1) by (cases x) (auto intro: keeps_bindS)
  qed (simp add: keeps_simple)
  have "keeps P (wait_pass observe record (still_pending ms z))" by (rule pass) (auto simp: still_pending_def)
  then have "P (snd (wait_pass observe record (still_pending ms z) z))" using Suc.prems(1) by (simp add: keeps_def)
  then show ?case
    using Suc assms(2) by (auto simp: keeps_def split: prod.splits sum.splits if_splits)
qed simp

definition accounts :: "string list \<Rightarrow> ('s, 'm) waiting_scheme \<Rightarrow> bool" where
  "accounts ks z \<longleftrightarrow> set (wg_pending z) \<union> set (wg_confirmed z) = set ks \<and> set (wg_pending z) \<inter> set (wg_confirmed z) = {} \<and>
     sorted (wg_confirmed z) \<and> distinct (wg_confirmed z) \<and> sorted (wg_pending z) \<and> distinct (wg_pending z)"

lemma accounts_confirm: "run \<in> set ks \<Longrightarrow> accounts ks z \<Longrightarrow> accounts ks (snd (confirm_run run z))"
  by (auto simp: accounts_def confirm_run_def set_insort_insert sorted_insort_insert distinct_insort_insert sorted_filter[where f = "\<lambda>x. x", simplified])

lemma accounts_run: "run \<in> set ks \<Longrightarrow> keeps (accounts ks) (wait_run observe record run m)"
proof -
  assume "run \<in> set ks"
  then have "keeps (accounts ks) (confirm_run run)" by (simp add: keeps_def accounts_confirm)
  then show ?thesis unfolding wait_run_def
    by (intro keeps_bindS check_keeps keeps_calling keeps_simple) (auto simp: accounts_def split: option.split intro!: keeps_bindS keeps_calling keeps_simple)
qed

lemma accounts_pause: "keeps (accounts ks) (pause interval sleep)"
  unfolding pause_def by (intro keeps_bindS check_keeps keeps_calling) (simp_all add: accounts_def)

lemma rounds_finished: "wait_rounds observe record sleep interval ms n z = Some (Inr u, y) \<Longrightarrow> wg_pending y = []"
  by (induction n arbitrary: z) (auto split: if_splits prod.splits sum.splits)

lemma wait_accounts:
  assumes "wait_for_release ms observe record sleep interval n z = Some (Inr q, y)"
  shows "set (wr_pending q) \<union> set (wr_confirmed q) = fst ` set ms" "set (wr_pending q) \<inter> set (wr_confirmed q) = {}"
    "distinct (wr_confirmed q)" "wr_exit q = 0 \<longleftrightarrow> wr_reason q = None" "wr_reason q = None \<Longrightarrow> wr_pending q = []"
proof -
  let ?z = "phase_state.extend z (waiting.fields (map fst ms) [])"
  from assms obtain r w where w: "targets_ok ms interval" "wait_rounds observe record sleep interval ms n ?z = Some (r, w)" "q = wait_result_of r w"
    by (auto simp: wait_for_release_def split: if_splits option.splits)
  have "accounts (map fst ms) ?z"
    using w(1) by (auto simp: accounts_def phase_state.defs waiting.defs targets_ok_def dict_ok_def strict_sorted_iff)
  from rounds_keep [where P = "accounts (map fst ms)", OF accounts_run accounts_pause this w(2)]
  have a: "accounts (map fst ms) w" by auto
  show "set (wr_pending q) \<union> set (wr_confirmed q) = fst ` set ms" "set (wr_pending q) \<inter> set (wr_confirmed q) = {}" "distinct (wr_confirmed q)"
    using a w(3) by (auto simp: accounts_def wait_result_of_def)
  show "wr_exit q = 0 \<longleftrightarrow> wr_reason q = None" "wr_reason q = None \<Longrightarrow> wr_pending q = []"
    using w(2,3) rounds_finished by (auto simp: wait_result_of_def split: sum.splits)
qed

section \<open>What a wait leaves in the domain\<close>

definition exited :: "string \<Rightarrow> batch \<Rightarrow> bool" where
  "exited run b \<longleftrightarrow> (\<exists>x\<in>set (b_items b). i_run x = run \<and> exit_confirmed (i_facts x))"

lemma grown_item: "list_all2 item_grows xs ys \<Longrightarrow> x \<in> set xs \<Longrightarrow> \<exists>y\<in>set ys. item_grows x y"
  by (auto simp: list_all2_conv_all_nth in_set_conv_nth) (metis nth_mem)

lemma exited_follows:
  assumes "batch_follows b c" "exited run b"
  shows "exited run c"
proof -
  from assms(2) obtain x where x: "x \<in> set (b_items b)" "i_run x = run" "exit_confirmed (i_facts x)" by (auto simp: exited_def)
  from assms(1) have "list_all2 item_grows (b_items b) (b_items c)" by (simp add: batch_follows_def)
  from grown_item [OF this x(1)] x(2,3) show ?thesis by (auto simp: exited_def item_grows_def facts_grow_def)
qed

lemma stored_grows:
  assumes "cell_grows sha c d" "stored_batch c bid = Some b"
  shows "\<exists>b'. stored_batch d bid = Some b' \<and> batch_follows b b'"
proof -
  from assms(2) obtain s i where s: "dc_state c = Some s" "map_of (dm_intents s) bid = Some i" "it_progress i = Some b"
    by (auto simp: stored_batch_def Option.bind_eq_Some_conv)
  from assms(1) s(1) obtain t where "dc_state d = Some t" "remembers s t"
    by (auto simp: cell_grows_def intro: remembers_changes)
  with s show ?thesis unfolding remembers_def stored_batch_def by fastforce
qed

lemma cycle_parts:
  assumes "batch_cycle sha b = Inr n"
  shows "set (b_items n) = set (b_items b)" "b_phase n = b_phase b" "b_revision n = b_revision b"
proof -
  from assms obtain c where c: "batch_normalize sha b = Inr c" "batch_normalize sha c = Inr n"
    by (auto simp: batch_cycle_def result_simps split: if_splits)
  then show "set (b_items n) = set (b_items b)" "b_phase n = b_phase b" "b_revision n = b_revision b"
    by (auto elim!: batch_normalize_Inr)
qed

lemma saved_stored:
  "save_batch sha bid phase i b s c = (Inr (n, t), e) \<Longrightarrow> stored_batch (d\<lparr>dc_state := Some (counted t), dc_mode := m\<rparr>) bid = Some n"
  by (auto simp: save_batch_def result_simps stored_batch_def counted_def put_intent_def)

lemma progress_saved:
  assumes "progress_change sha bid k change s c = (Inr (n, t), e)"
  shows "\<exists>b a x y i phase. change b a = Inr x \<and> b_items y = b_items x \<and> save_batch sha bid phase i y s c = (Inr (n, t), e)"
proof -
  from assms obtain a i b x where "change b a = Inr x" "save_batch sha bid (if b_phase (summed_up x) = Batch_Unknown then Intent_Unknown
      else it_phase i) i ((summed_up x)\<lparr>b_revision := b_revision (summed_up x) + 1\<rparr>) s c = (Inr (n, t), e)"
    by (auto simp: progress_change_def result_simps Let_def)
  moreover have "b_items ((summed_up x)\<lparr>b_revision := b_revision (summed_up x) + 1\<rparr>) = b_items x" by (simp add: summed_up_def)
  ultimately show ?thesis by blast
qed

lemma record_exit_done:
  assumes "record_exit sha oc bid k ob c = (Inr n, d)"
  shows "stored_batch d bid = Some n \<and> exited (rl_run ob) n"
proof -
  from assms obtain s t e where ch: "progress_change sha bid k (exit_change ob) s c = (Inr (n, t), e)" and
    d: "d = e\<lparr>dc_state := Some (counted t), dc_mode := 384\<rparr>" by (auto simp: record_exit_def transact_done)
  from progress_saved [OF ch] obtain i b a x phase y where x: "exit_change ob b a = Inr x" and y: "b_items y = b_items x"
    and sv: "save_batch sha bid phase i y s c = (Inr (n, t), e)" by blast
  have item: "change_item (rl_run ob) exit_item xs = Inr ys \<Longrightarrow> \<exists>x\<in>set ys. i_run x = rl_run ob \<and> exit_confirmed (i_facts x)" for xs ys
    by (induction xs arbitrary: ys) (auto simp: result_simps exit_item_def split: if_splits)
  have "exited (rl_run ob) x"
    using x by (auto dest!: item simp: exit_change_def with_item_def result_simps exited_def split: option.splits)
  moreover have "batch_cycle sha y = Inr n" using sv by (auto simp: save_batch_def result_simps)
  ultimately show ?thesis
    using saved_stored [OF sv] cycle_parts(1) [of sha y n] y by (simp add: d exited_def)
qed

definition holds_exits :: "string list \<Rightarrow> string list \<Rightarrow> string \<Rightarrow> ('w cell_scheme \<times> nat, 'm) waiting_scheme \<Rightarrow> bool" where
  "holds_exits acc known bid z \<longleftrightarrow> (\<exists>b. stored_batch (fst (ph_world z)) bid = Some b \<and> b_accepted b = acc \<and>
     (\<forall>run\<in>set known \<union> set (wg_confirmed z). exited run b))"

lemma holds_exits_grows:
  assumes "holds_exits acc known bid z" "cell_grows sha (fst (ph_world z)) c"
  shows "holds_exits acc known bid (z\<lparr>ph_world := (c, n)\<rparr>)"
  using assms stored_grows [OF assms(2)] unfolding holds_exits_def
  by simp (metis exited_follows batch_follows_def)

lemma holds_exits_clock [simp]:
  "holds_exits acc known bid (z\<lparr>ph_clock := c, ph_deadline := d\<rparr>) = holds_exits acc known bid z"
  "holds_exits acc known bid (z\<lparr>ph_clock := c\<rparr>) = holds_exits acc known bid z"
  by (simp_all add: holds_exits_def)

lemma keeps_exits_beside:
  fixes m :: "('w cell_scheme, unit, 'a) io"
  assumes "\<And>c. cell_grows sha c (snd (m c))"
  shows "keeps (holds_exits acc known bid) (calling r (beside m))"
proof (rule keeps_calling)
  fix z :: "('w cell_scheme \<times> nat, 'm) waiting_scheme"
  assume z: "holds_exits acc known bid z"
  obtain c n where w: "ph_world z = (c, n)" by fastforce
  have "snd (beside m (c, n)) = (snd (m c), n)" by (simp add: beside_def split: prod.split)
  with holds_exits_grows [OF z, of sha "snd (m c)" n] assms [of c] w
  show "holds_exits acc known bid (z\<lparr>ph_world := snd (beside m (ph_world z))\<rparr>)" by simp
qed

lemma record_exits:
  assumes "holds_exits acc known bid z" "proof_matches ob run m"
  shows "holds_exits acc known bid (snd (bindS (calling Record_Unconfirmed (record_proof sha oc bid ob)) (\<lambda>_. confirm_run run) z))"
proof -
  obtain c n where w: "ph_world z = (c, n)" by fastforce
  obtain r d where e: "record_exit sha oc bid n ob c = (r, d)" by fastforce
  have "cell_grows sha c d" using movesD [OF progress_moves(2), of sha c oc bid n ob] e by simp
  then have g: "holds_exits acc known bid (z\<lparr>ph_world := (d, k)\<rparr>)" for k using holds_exits_grows [OF assms(1)] w by simp
  show ?thesis
  proof (cases r)
    case (Inl x)
    with g e w show ?thesis by (simp add: snd_bindS calling_def record_proof_def)
  next
    case (Inr b)
    with record_exit_done [of sha oc bid n ob c b d] e assms(2) have "stored_batch d bid = Some b" "exited run b" by (auto simp: proof_matches_def)
    with g [of "b_revision b"] e w Inr show ?thesis
      by (auto simp: snd_bindS calling_def record_proof_def holds_exits_def confirm_run_def set_insort_insert)
  qed
qed

lemma keeps_exits_run:
  assumes "\<And>c. cell_grows sha c (snd (observe run m c))"
  shows "keeps (holds_exits acc known bid) (wait_run (\<lambda>run m. beside (observe run m)) (record_proof sha oc bid) run m)"
  unfolding wait_run_def
  by (intro keeps_bindS check_keeps keeps_exits_beside [OF assms] keeps_simple)
    (auto simp: keeps_def record_exits returnS_def split: option.split)

lemma mapE_keys: "mapE (\<lambda>k. case g k of None \<Rightarrow> Inl e | Some x \<Rightarrow> Inr (k, h x)) ks = Inr ms \<Longrightarrow> map fst ms = ks"
  by (induction ks arbitrary: ms) (auto simp: result_simps split: option.splits)

lemma waiting_loaded:
  assumes "waiting_batch sha bid c = (Inr (a, b), d)"
  shows "\<exists>s i. current_state sha c = Inr s \<and> load_batch sha bid s c = Inr (a, i, b) \<and> open_intent i \<and> b_phase b \<in> {Accepted, Requested}"
  using assms by (auto simp: waiting_batch_def inspect_def result_simps)

lemma loaded_stored:
  assumes "current_state sha c = Inr s" "load_batch sha bid s c = Inr (a, i, b)"
  shows "stored_batch c bid = Some b" "set (exited_runs b) \<subseteq> set (b_accepted b)" "dict_ok ms \<Longrightarrow> wait_targets a b = Inr ms \<Longrightarrow> fst ` set ms = set (b_accepted b) - set (exited_runs b)"
proof -
  have l: "map_of (dm_intents s) bid = Some i" "it_progress i = Some b" and ok: "domain_ok sha s"
    using load_batch_at [OF _ assms(2)] assms(1) by (auto simp: current_state_iff)
  then show "stored_batch c bid = Some b" using assms(1) by (auto simp: stored_batch_def current_state_iff)
  from stored_normal(1) [OF ok l] have "set (item_ids (b_items b)) = set (b_accepted b)"
    by (auto simp: batch_ok_def elim!: batch_normalize_Inr)
  then show "set (exited_runs b) \<subseteq> set (b_accepted b)" by (auto simp: exited_runs_def item_ids_def)
  assume "wait_targets a b = Inr ms"
  then have "map fst ms = filter (\<lambda>run. run \<notin> set (exited_runs b)) (b_accepted b)"
    unfolding wait_targets_def by (rule mapE_keys)
  then have "set (map fst ms) = set (filter (\<lambda>run. run \<notin> set (exited_runs b)) (b_accepted b))" by simp
  then show "fst ` set ms = set (b_accepted b) - set (exited_runs b)" by auto
qed

lemma budget_world: "budget_reason z = (e, y) \<Longrightarrow> ph_world y = ph_world z"
  using keeps_at [OF check_keeps, of "\<lambda>y. ph_world y = ph_world z" z]
  by (auto simp: budget_reason_def split: prod.splits sum.splits)

text \<open>C24: What a wait reports is what the domain holds, also when other operations of the domain run while it
  observes and sleeps: every accepted run of the batch is reported once, as confirmed or as
  pending, and each confirmed run has its exit recorded in the stored batch; exit code 0 is
  reported only when no run is pending.\<close>

theorem batch_wait_accounts:
  assumes "\<And>run m c. cell_grows sha c (snd (observe run m c))" "\<And>q c. cell_grows sha c (snd (sleep q c))"
    and "wait_for_batch_release sha oc bid observe sleep n z = Some (Inr q, y)"
  shows "\<exists>b. stored_batch (ph_world y) bid = Some b \<and> set (wr_confirmed q) \<union> set (wr_pending q) = set (b_accepted b) \<and>
    set (wr_confirmed q) \<inter> set (wr_pending q) = {} \<and> (\<forall>run\<in>set (wr_confirmed q). exited run b) \<and> (wr_exit q = 0 \<longrightarrow> wr_pending q = [])"
proof -
  from assms(3) obtain a b d ms where w: "waiting_batch sha bid (ph_world z) = (Inr (a, b), d)" and t: "wait_targets a b = Inr ms"
    by (auto simp: wait_for_batch_release_def split: prod.splits sum.splits)
  from waiting_loaded [OF w] obtain s i where l: "current_state sha (ph_world z) = Inr s" "load_batch sha bid s (ph_world z) = Inr (a, i, b)" by blast
  note st = loaded_stored [OF l]
  have known: "\<forall>run\<in>set (exited_runs b). exited run b" by (auto simp: exited_runs_def exited_def)
  show ?thesis
  proof (cases ms)
    case Nil
    then have "set (exited_runs b) = set (b_accepted b)" using st(2) st(3) [of ms] t by auto
    with Nil w t assms(3) st(1) known show ?thesis
      by (auto simp: wait_for_batch_release_def batch_result_def wait_result.defs budget_world split: prod.splits if_splits)
  next
    case (Cons x xs)
    let ?z = "\<lparr>ph_clock = ph_clock z, ph_deadline = ph_deadline z, ph_world = (ph_world z, b_revision b)\<rparr>"
    from assms(3) w t Cons obtain r u where u: "wait_for_release ms (\<lambda>run m. beside (observe run m)) (record_proof sha oc bid) (\<lambda>q. beside (sleep q))
        (1 / 20) n ?z = Some (Inr r, u)" and q: "q = batch_result (exited_runs b) r (snd (ph_world u))" and y: "ph_world y = fst (ph_world u)"
      by (auto simp: wait_for_batch_release_def split: option.splits sum.splits)
    from u obtain e v where v: "wait_rounds (\<lambda>run m. beside (observe run m)) (record_proof sha oc bid) (\<lambda>q. beside (sleep q)) (1 / 20) ms n
        (phase_state.extend ?z (waiting.fields (map fst ms) [])) = Some (e, v)" and ev: "r = wait_result_of e v" "u = phase_state.truncate v"
      and ok: "targets_ok ms (1 / 20)"
      by (auto simp: wait_for_release_def split: if_splits option.splits)
    have "holds_exits (b_accepted b) (exited_runs b) bid v"
    proof (rule rounds_keep [where P = "holds_exits (b_accepted b) (exited_runs b) bid", OF _ _ _ v])
      show "keeps (holds_exits (b_accepted b) (exited_runs b) bid) (wait_run (\<lambda>run m. beside (observe run m)) (record_proof sha oc bid) (fst x) (snd x))" for x
        by (rule keeps_exits_run [OF assms(1)])
      show "keeps (holds_exits (b_accepted b) (exited_runs b) bid) (pause (1 / 20) (\<lambda>q. beside (sleep q)))"
        unfolding pause_def by (intro keeps_bindS check_keeps keeps_exits_beside [OF assms(2)]) simp_all
      show "holds_exits (b_accepted b) (exited_runs b) bid (phase_state.extend ?z (waiting.fields (map fst ms) []))"
        using st(1) known by (simp add: holds_exits_def phase_state.defs waiting.defs)
    qed
    then obtain b' where b': "stored_batch (ph_world y) bid = Some b'" "b_accepted b' = b_accepted b"
      "\<forall>run\<in>set (exited_runs b) \<union> set (wr_confirmed r). exited run b'"
      using y ev by (auto simp: holds_exits_def wait_result_of_def phase_state.defs)
    have "dict_ok ms" using ok by (simp add: targets_ok_def)
    with st(3) [OF this t] wait_accounts [OF u] st(2) b' show ?thesis
      by (auto simp: q batch_result_def wait_result.defs)
  qed
qed

lemma wait_zero: "wait_for_release ms observe record sleep interval n z = Some (Inr q, y) \<Longrightarrow> wr_exit q = 0 \<Longrightarrow> wr_pending q = []"
  using wait_accounts(4,5) by blast

lemma confirmed_stored:
  assumes "confirm_setup_release sha oc bid k w v c = (Inr n, d)"
  shows "stored_batch d bid = Some n \<and> b_phase n = Stopped \<and>
    (\<forall>x\<in>set (b_items n). exit_confirmed (i_facts x) \<and> resources_released (i_facts x) \<and> i_stop x = Stop_Confirmed)"
proof -
  from assms obtain s t e where ch: "release_confirmation sha bid k w v s c = (Inr (n, t), e)" and d: "d = e\<lparr>dc_state := Some (counted t), dc_mode := 384\<rparr>"
    by (auto simp: confirm_setup_release_def transact_done result_simps inspect_def)
  then obtain a i b where ld: "release_load sha bid k s c = Inr (a, i, b)"
    and sv: "save_batch sha bid (it_phase i) i (b\<lparr>b_items := map released_item (b_items b), b_phase := Stopped, b_revision := b_revision b + 1\<rparr>) s c =
      (Inr (n, t), e)"
    by (auto simp: release_confirmation_def result_simps)
  have "batch_cycle sha (b\<lparr>b_items := map released_item (b_items b), b_phase := Stopped, b_revision := b_revision b + 1\<rparr>) = Inr n"
    using sv by (auto simp: save_batch_def result_simps)
  note parts = cycle_parts [OF this]
  have "\<forall>x\<in>set (b_items b). exit_confirmed (i_facts x)"
    using ld by (auto simp: release_load_def bindE_eq_Inr ensure_def list_all_iff split: if_splits)
  with parts saved_stored [OF sv, where d = e and m = 384] show ?thesis by (auto simp: d released_item_def)
qed

text \<open>C23: Exit code 0 of the wait of a setup means that the setup may be reviewed: then the batch stored in the
  domain is stopped under exactly the reported revision, every run has exited and released its
  resources, and no run is reported as pending; and the release is confirmed in no other case
  than that.\<close>

theorem setup_wait_means_stopped:
  assumes "wait_for_setup_release sha oc bid selected w v observe sleep n z = Some (Inr s, y)"
    and "wr_exit s = 0 \<or> sr_released s"
  shows "\<exists>b. stored_batch (ph_world y) bid = Some b \<and> b_phase b = Stopped \<and> b_revision b = sr_revision s \<and> sr_released s \<and>
    wr_pending s = [] \<and> (\<forall>x\<in>set (b_items b). exit_confirmed (i_facts x) \<and> resources_released (i_facts x) \<and> i_stop x = Stop_Confirmed)"
proof -
  from assms obtain q u where q: "wait_for_batch_release sha oc bid observe sleep n (snd (budget_reason z)) = Some (Inr q, u)" "wr_exit q = 0"
    and c: "confirm_after sha oc bid w v q u = (s, y)"
    by (auto simp: wait_for_setup_release_def setup_result_def wait_result.defs setup_wait_result.defs
        split: prod.splits sum.splits option.splits if_splits)
  have p: "wr_pending q = []"
    using q by (auto simp: wait_for_batch_release_def batch_result_def wait_result.defs dest: wait_zero
        split: prod.splits sum.splits list.splits option.splits)
  from c assms(2) obtain x b d why where b: "budget_reason u = (None, x)" "confirm_setup_release sha oc bid (br_revision q) w v (ph_world x) = (Inr b, d)"
    and r: "budget_reason (x\<lparr>ph_world := d\<rparr>) = (why, y)" "s = setup_result (wr_confirmed q) (wr_pending q) (b_revision b) True why"
    by (auto simp: confirm_after_def setup_result_def split: prod.splits sum.splits option.splits if_splits)
  from budget_world [OF r(1)] confirmed_stored [OF b(2)] p show ?thesis by (simp add: r(2) setup_result_def)
qed

section \<open>Waits that succeed\<close>

text \<open>The next readings of the clock are in order and before the deadline.\<close>

definition time_left :: "nat \<Rightarrow> ('s, 'm) phase_state_scheme \<Rightarrow> bool" where
  "time_left k z \<longleftrightarrow> 0 < budget (ph_deadline z) \<and> (\<exists>ts rest. script (ph_clock z) = map Now ts @ rest \<and> k \<le> length ts \<and>
     sorted (case clockwork.last (ph_clock z) of None \<Rightarrow> ts | Some l \<Rightarrow> l # ts) \<and> (\<forall>t\<in>set ts. t < until (ph_deadline z)))"

lemma check_in_time:
  assumes "time_left (Suc k) z"
  shows "\<exists>c d. check_budget z = (Inr (budget d), z\<lparr>ph_clock := c, ph_deadline := d\<rparr>) \<and> time_left k (z\<lparr>ph_clock := c, ph_deadline := d\<rparr>)"
proof -
  from assms obtain us rest where us: "script (ph_clock z) = map Now us @ rest" "Suc k \<le> length us" and b: "0 < budget (ph_deadline z)"
    and o': "sorted (case clockwork.last (ph_clock z) of None \<Rightarrow> us | Some l \<Rightarrow> l # us)" and u': "\<forall>x\<in>set us. x < until (ph_deadline z)"
    unfolding time_left_def by blast
  from us(2) obtain t ts where ts: "us = t # ts" by (cases us) auto
  note s = us(1) [unfolded ts] and k = us(2) [unfolded ts, simplified] and o = o' [unfolded ts] and u = u' [unfolded ts]
  let ?l = "min (budget (ph_deadline z)) (max 0 (until (ph_deadline z) - t))"
  let ?c = "(ph_clock z)\<lparr>script := map Now ts @ rest, last := Some t\<rparr>" and ?d = "(ph_deadline z)\<lparr>budget := ?l\<rparr>"
  have ge: "\<not> (case clockwork.last (ph_clock z) of None \<Rightarrow> False | Some l \<Rightarrow> t < l)" and st: "sorted (t # ts)"
    using o by (auto split: option.splits)
  have "0 < ?l" using b u by simp
  then have "check_budget z = (Inr (budget ?d), z\<lparr>ph_clock := ?c, ph_deadline := ?d\<rparr>)"
    using ge s by (auto simp: check_budget_def phase_left_def result_simps remaining_def read_clock_def Let_def bindS_def returnS_def ensureS_def ensure_def)
  moreover have "time_left k (z\<lparr>ph_clock := ?c, ph_deadline := ?d\<rparr>)"
    unfolding time_left_def using \<open>0 < ?l\<close> k st u by (intro conjI exI [of _ ts] exI [of _ rest]) auto
  ultimately show ?thesis by blast
qed

lemma time_left_fields [simp]:
  "time_left k (z\<lparr>ph_world := w\<rparr>) = time_left k z" "time_left k (z\<lparr>wg_pending := p, wg_confirmed := q\<rparr>) = time_left k z"
  by (simp_all add: time_left_def)

text \<open>An observer that sees every target gone and a record that is acknowledged.\<close>

definition sees_exit :: "'s observer \<Rightarrow> (release_observation \<Rightarrow> ('s, unit, unit) io) \<Rightarrow> string \<times> manager \<Rightarrow> bool" where
  "sees_exit observe record x \<longleftrightarrow> (\<forall>w. \<exists>ob u. observe (fst x) (snd x) w = (Inr (Some ob), u) \<and> proof_matches ob (fst x) (snd x) \<and>
     (\<exists>v. record ob u = (Inr (), v)))"

lemma run_confirmed:
  assumes "time_left (k + 2) z" "sees_exit observe record (run, m)"
  shows "\<exists>y. wait_run observe record run m z = (Inr (), y) \<and> time_left k y \<and> wg_pending y = filter (\<lambda>k. k \<noteq> run) (wg_pending z) \<and>
    wg_confirmed y = insort_insert run (wg_confirmed z)"
proof -
  from check_in_time [of "Suc k" z] assms(1) obtain c d where c: "check_budget z = (Inr (budget d), z\<lparr>ph_clock := c, ph_deadline := d\<rparr>)"
    and t: "time_left (Suc k) (z\<lparr>ph_clock := c, ph_deadline := d\<rparr>)" by auto
  from assms(2) obtain ob u v where o: "observe run m (ph_world z) = (Inr (Some ob), u)" "proof_matches ob run m" "record ob u = (Inr (), v)"
    unfolding sees_exit_def by (metis fst_conv snd_conv)
  let ?y = "z\<lparr>ph_clock := c, ph_deadline := d, ph_world := v, wg_pending := filter (\<lambda>k. k \<noteq> run) (wg_pending z), wg_confirmed := insort_insert run (wg_confirmed z)\<rparr>"
  have "time_left (Suc k) ?y" using t by (simp add: time_left_def)
  from check_in_time [OF this] obtain c' d' where "check_budget ?y = (Inr (budget d'), ?y\<lparr>ph_clock := c', ph_deadline := d'\<rparr>)"
    "time_left k (?y\<lparr>ph_clock := c', ph_deadline := d'\<rparr>)" by blast
  with c o show ?thesis
    by (intro exI [of _ "?y\<lparr>ph_clock := c', ph_deadline := d'\<rparr>"])
      (simp add: wait_run_def bindS_def calling_def confirm_run_def returnS_def)
qed

lemma pass_confirmed:
  assumes "time_left (2 * length xs + k) z" "\<forall>x\<in>set xs. sees_exit observe record x"
  shows "\<exists>y. wait_pass observe record xs z = (Inr (), y) \<and> wg_pending y = filter (\<lambda>k. k \<notin> fst ` set xs) (wg_pending z) \<and>
    wg_confirmed y = fold insort_insert (map fst xs) (wg_confirmed z)"
  using assms
proof (induction xs arbitrary: z)
  case (Cons x xs)
  obtain run m where x: "x = (run, m)" by (cases x)
  have "time_left (2 * length xs + k + 2) z" using Cons.prems(1) by (simp add: add.commute add.left_commute)
  from run_confirmed [OF this, of observe "record" run m] Cons.prems(2) x obtain y where y: "wait_run observe record run m z = (Inr (), y)"
    "time_left (2 * length xs + k) y" "wg_pending y = filter (\<lambda>k. k \<noteq> run) (wg_pending z)" "wg_confirmed y = insort_insert run (wg_confirmed z)" by auto
  from Cons.IH [OF y(2)] Cons.prems(2) obtain u where "wait_pass observe record xs y = (Inr (), u)"
    "wg_pending u = filter (\<lambda>k. k \<notin> fst ` set xs) (wg_pending y)" "wg_confirmed u = fold insort_insert (map fst xs) (wg_confirmed y)" by auto
  with y x show ?case by (auto simp: bindS_def filter_filter intro: filter_cong)
qed (simp add: returnS_def)

text \<open>C26: A wait whose targets have exited succeeds in its first pass: if the observer sees every run gone, each
  record is acknowledged and the clock stays before the deadline for two readings per run, then
  the wait returns with exit code 0, all runs confirmed and none pending.\<close>

theorem exited_runs_confirmed:
  assumes "targets_ok ms interval" "\<forall>x\<in>set ms. sees_exit observe record x" "time_left (2 * length ms) z"
  shows "\<exists>q y. wait_for_release ms observe record sleep interval (Suc n) z = Some (Inr q, y) \<and>
    wr_exit q = 0 \<and> wr_reason q = None \<and> wr_pending q = [] \<and> wr_confirmed q = map fst ms"
proof -
  let ?z = "phase_state.extend z (waiting.fields (map fst ms) [])"
  have z: "time_left (2 * length ms + 0) ?z" "wg_pending ?z = map fst ms" "wg_confirmed ?z = []"
    using assms(3) by (simp_all add: time_left_def phase_state.defs waiting.defs)
  have s: "sorted (map fst ms)" "distinct (map fst ms)" "ms \<noteq> []"
    using assms(1) by (auto simp: targets_ok_def dict_ok_def strict_sorted_iff)
  have pass: "still_pending ms ?z = ms" by (force simp: still_pending_def z filter_id_conv)
  from pass_confirmed [OF z(1) assms(2)] obtain y where y: "wait_pass observe record ms ?z = (Inr (), y)" "wg_pending y = []"
    "wg_confirmed y = fold insort_insert (map fst ms) []" by (auto simp: z)
  have fold: "sorted xs \<Longrightarrow> distinct xs \<Longrightarrow> sorted (fold insort_insert ks xs) \<and> distinct (fold insort_insert ks xs) \<and>
      set (fold insort_insert ks xs) = set ks \<union> set xs" for ks xs :: "string list"
    by (induction ks arbitrary: xs) (auto simp: sorted_insort_insert distinct_insort_insert set_insort_insert)
  have "fold insort_insert (map fst ms) [] = map fst ms"
    using fold [of "[]" "map fst ms"] s(1,2) by (intro sorted_distinct_set_unique) auto
  with y pass z s(3) assms(1) show ?thesis
    by (auto simp: wait_for_release_def wait_result_of_def)
qed

section \<open>Small waits\<close>

definition waiting_phase :: "reading list \<Rightarrow> 's \<Rightarrow> 's phase_state" where
  "waiting_phase ts w = \<lparr>ph_clock = \<lparr>script = ts, last = None\<rparr>, ph_deadline = \<lparr>until = 30, budget = 30\<rparr>, ph_world = w\<rparr>"

definition blind :: "'s observer" where
  "blind run m = returnS None"

definition seeing :: "'s observer" where
  "seeing run m = returnS (Some \<lparr>rl_run = run, rl_manager = m, rl_exited = True, rl_complete = True\<rparr>)"

theorem wait_ends_by_deadline_witness:
  "\<exists>r y used. wait_for_release [(sample_id CHR ''b'', sample_manager)] blind (\<lambda>ob. returnS ()) (\<lambda>q. returnS ()) (1 / 20) 5
      (waiting_phase [Now 1, Now 2, Now 9, Now 40, Now 50] ()) = Some (r, y) \<and> script (ph_clock y) = used @ [Now 50]"
  using wait_ends_by_deadline [of "waiting_phase [Now 1, Now 2, Now 9, Now 40, Now 50] ()" "[Now 1, Now 2, Now 9]" 40 "[Now 50]" 5
      "[(sample_id CHR ''b'', sample_manager)]" blind "\<lambda>ob. returnS ()" "\<lambda>q. returnS ()" "1 / 20"]
  by (auto simp: waiting_phase_def)

lemma sample_targets: "targets_ok [(sample_id CHR ''b'', sample_manager)] (1 / 20)"
proof -
  have "is_hex 32 (sample_id CHR ''b'')" "manager_ok sample_manager" by code_simp+
  then show ?thesis by (simp add: targets_ok_def dict_ok_def)
qed

theorem exited_runs_confirmed_witness:
  "\<exists>q y. wait_for_release [(sample_id CHR ''b'', sample_manager)] seeing (\<lambda>ob. returnS ()) (\<lambda>q. returnS ()) (1 / 20) 1
      (waiting_phase [Now 1, Now 2] ()) = Some (Inr q, y) \<and> wr_exit q = 0 \<and> wr_confirmed q = [sample_id CHR ''b'']"
proof -
  have "manager_ok sample_manager" by code_simp
  then have "sees_exit seeing (\<lambda>ob. returnS ()) (sample_id CHR ''b'', sample_manager)"
    by (simp add: sees_exit_def seeing_def returnS_def proof_matches_def)
  moreover have "time_left 2 (waiting_phase [Now 1, Now 2] ())"
    unfolding time_left_def by (intro conjI exI [of _ "[1, 2]"]) (simp_all add: waiting_phase_def)
  ultimately show ?thesis
    using exited_runs_confirmed [OF sample_targets, of seeing "\<lambda>ob. returnS ()" "waiting_phase [Now 1, Now 2] ()" "\<lambda>q. returnS ()" 0] by auto
qed

lemma first_waiting: "waiting_batch sample_sha (sample_id CHR ''e'') (done_site first_batch) = (Inr (done_acceptance, first_batch), done_site first_batch)"
  by (simp add: waiting_batch_def inspect_def bindS_def getS_def first_current first_loaded first_fields)
    (simp add: done_intent_def open_intent_def)

lemma exited_waiting: "waiting_batch sample_sha (sample_id CHR ''e'') (done_site exited_batch) = (Inr (done_acceptance, exited_batch), done_site exited_batch)"
  by (simp add: waiting_batch_def inspect_def bindS_def getS_def exited_current exited_loaded exited_fields)
    (simp add: done_intent_def open_intent_def)

definition ready_phase :: "batch \<Rightarrow> site phase_state" where
  "ready_phase b = waiting_phase [Now 1, Now 1, Now 1, Now 1] (done_site b)"

lemma first_wait:
  "\<exists>q y. wait_for_batch_release sample_sha Done (sample_id CHR ''e'') seeing (\<lambda>q. returnS ()) 1 (ready_phase first_batch) = Some (Inr q, y) \<and>
     wr_confirmed q = [sample_id CHR ''b'']"
proof -
  have m: "manager_of hosted_owner = sample_manager" by (simp add: manager_of_def hosted_owner_def linked_fields [unfolded manager_of_def])
  have "exited_runs first_batch = []" by (simp add: exited_runs_def first_fields initial_item_def)
  then have t: "wait_targets done_acceptance first_batch = Inr [(sample_id CHR ''b'', sample_manager)]"
    using m by (simp add: wait_targets_def first_fields done_acceptance_def)
  have ob: "\<lparr>rl_run = sample_id CHR ''b'', rl_manager = sample_manager, rl_exited = True, rl_complete = True\<rparr> = sample_complete"
    by (simp add: sample_complete_def)
  have pm: "proof_matches sample_complete (sample_id CHR ''b'') sample_manager" by code_simp
  show ?thesis
    using first_waiting t first_recorded ob pm sample_targets \<open>exited_runs first_batch = []\<close>
    by (simp add: wait_for_batch_release_def ready_phase_def waiting_phase_def wait_for_release_def still_pending_def phase_state.defs waiting.defs
      wait_run_def check_budget_def phase_left_def remaining_def read_clock_def bindS_def ensureS_def ensure_def returnS_def Let_def calling_def beside_def seeing_def
      record_proof_def confirm_run_def first_fields insort_insert_key_def wait_result_of_def batch_result_def wait_result.defs)
qed

theorem batch_wait_accounts_witness:
  "\<exists>q y b. wait_for_batch_release sample_sha Done (sample_id CHR ''e'') seeing (\<lambda>q. returnS ()) 1 (ready_phase first_batch) = Some (Inr q, y) \<and>
     stored_batch (ph_world y) (sample_id CHR ''e'') = Some b \<and> exited (sample_id CHR ''b'') b"
proof -
  obtain q y where w: "wait_for_batch_release sample_sha Done (sample_id CHR ''e'') seeing (\<lambda>q. returnS ()) 1 (ready_phase first_batch) = Some (Inr q, y)"
    "wr_confirmed q = [sample_id CHR ''b'']" using first_wait by blast
  from batch_wait_accounts [OF _ _ w(1)] w show ?thesis by (auto simp: seeing_def)
qed

theorem setup_wait_means_stopped_witness:
  "\<exists>s y b. wait_for_setup_release sample_sha Done (sample_id CHR ''e'') [sample_id CHR ''b''] sample_workspace sample_link_view seeing (\<lambda>q. returnS ()) 1
      (ready_phase exited_batch) = Some (Inr s, y) \<and> stored_batch (ph_world y) (sample_id CHR ''e'') = Some b \<and> b_phase b = Stopped \<and> sr_released s"
proof -
  have x: "exited_runs exited_batch = [sample_id CHR ''b'']" by (simp add: exited_runs_def exited_batch_def initial_item_def)
  then have t: "wait_targets done_acceptance exited_batch = Inr []" by (simp add: wait_targets_def exited_parts)
  have "\<exists>s y. wait_for_setup_release sample_sha Done (sample_id CHR ''e'') [sample_id CHR ''b''] sample_workspace sample_link_view seeing (\<lambda>q. returnS ()) 1
      (ready_phase exited_batch) = Some (Inr s, y) \<and> wr_exit s = 0"
    using exited_waiting t x done_confirmed
    by (simp add: wait_for_setup_release_def setup_waiting_def wait_for_batch_release_def ready_phase_def waiting_phase_def budget_reason_def confirm_after_def
      check_budget_def phase_left_def remaining_def read_clock_def bindS_def ensureS_def ensure_def returnS_def Let_def exited_parts exited_fields
      batch_result_def wait_result.defs setup_result_def batch_wait_result.defs)
  then obtain s y where w: "wait_for_setup_release sample_sha Done (sample_id CHR ''e'') [sample_id CHR ''b''] sample_workspace sample_link_view seeing
      (\<lambda>q. returnS ()) 1 (ready_phase exited_batch) = Some (Inr s, y)" "wr_exit s = 0" by blast
  from setup_wait_means_stopped [OF w(1)] w show ?thesis by blast
qed

end
