(* ===== verification/Home_Targets.thy ===== *)
theory Home_Targets
  imports Rotom_Prelude
begin

text \<open>
  The files of a user's home that public configuration replaces (\<open>termcfg/home_targets.py\<close>) and the
  admission of what is there already (\<open>termcfg/secret_boundary.py\<close>).
  \<^item> The home is a table of nodes by relative path. A new node gets a stamp that no other node has:
    device, inode and times are the clock of the home at its creation.
  \<^item> Every effect on the disk consumes the next fate: it works, or it breaks with or without having
    taken effect, by an error of the system, an interrupt, or the death of the process. Code can
    handle the first two only. When the fates are used up everything works.
  \<^item> The temporary files next to a target, which carry random names, are not represented.
\<close>

datatype cause = System | Interrupt | Died

datatype trouble = Refused nat string | Broken cause

datatype fate = Works | Breaks cause | Breaks_After cause

section \<open>The home\<close>

record file_stamp =
  fs_uid :: nat
  fs_dev :: nat
  fs_ino :: nat
  fs_mode :: nat
  fs_mtime :: nat
  fs_size :: nat

datatype node = Folder nat nat | Regular file_stamp string nat | Symbolic file_stamp string | Special nat

text \<open>\<open>TargetIdentity\<close>; only some identities of a file carry the digest of its content.\<close>

datatype ident = Absent | File_At file_stamp "string option" | Link_At file_stamp string

record home =
  ho_folder :: bool
  ho_owned :: bool
  ho_user :: nat
  ho_device :: nat
  ho_nodes :: "(string list \<times> node) list"
  ho_clock :: nat
  ho_fates :: "fate list"

type_synonym ('w, 'a) hio = "('w home_scheme, trouble, 'a) io"

definition node_at :: "'w home_scheme \<Rightarrow> string list \<Rightarrow> node option" where
  "node_at h p = map_of (ho_nodes h) p"

definition put_node :: "string list \<Rightarrow> node \<Rightarrow> 'w home_scheme \<Rightarrow> 'w home_scheme" where
  "put_node p n h = h\<lparr>ho_nodes := (p, n) # filter (\<lambda>e. fst e \<noteq> p) (ho_nodes h)\<rparr>"

definition drop_node :: "string list \<Rightarrow> 'w home_scheme \<Rightarrow> 'w home_scheme" where
  "drop_node p h = h\<lparr>ho_nodes := filter (\<lambda>e. fst e \<noteq> p) (ho_nodes h)\<rparr>"

definition effect :: "('w home_scheme \<Rightarrow> 'w home_scheme) \<Rightarrow> ('w, unit) hio" where
  "effect f h =
     (let g = h\<lparr>ho_fates := tl (ho_fates h)\<rparr> in
      case ho_fates h of
        Breaks c # _ \<Rightarrow> (Inl (Broken c), g)
      | Breaks_After c # _ \<Rightarrow> (Inl (Broken c), f g)
      | _ \<Rightarrow> (Inr (), f g))"

section \<open>Looking\<close>

definition relative_parts :: "string list \<Rightarrow> bool" where
  "relative_parts p \<longleftrightarrow> p \<noteq> [] \<and> hd p \<noteq> ''/'' \<and> list_all (\<lambda>s. s \<noteq> ''.'' \<and> s \<noteq> ''..'') p"

definition folder_safe :: "'w home_scheme \<Rightarrow> nat \<Rightarrow> nat \<Rightarrow> bool" where
  "folder_safe h u m \<longleftrightarrow> u = ho_user h \<and> (m div 16) mod 2 = 0 \<and> (m div 2) mod 2 = 0"

fun parents_there :: "'w home_scheme \<Rightarrow> string list \<Rightarrow> string list \<Rightarrow> trouble + bool" where
  "parents_there h base [] = Inr True"
| "parents_there h base (x # xs) =
     (case node_at h (base @ [x]) of
        None \<Rightarrow> Inr False
      | Some (Folder u m) \<Rightarrow>
          if folder_safe h u m then parents_there h (base @ [x]) xs else Inl (Refused 4 ''unsafe_target_parent'')
      | Some _ \<Rightarrow> Inl (Refused 4 ''unsafe_target_parent''))"

fun node_ident :: "nat \<Rightarrow> node option \<Rightarrow> trouble + ident" where
  "node_ident user None = Inr Absent"
| "node_ident user (Some (Symbolic s l)) = (if fs_uid s = user then Inr (Link_At s l) else Inl (Refused 4 ''target_owner_conflict''))"
| "node_ident user (Some (Regular s c k)) =
     (if fs_uid s \<noteq> user then Inl (Refused 4 ''target_owner_conflict'')
      else if k = 1 then Inr (File_At s None) else Inl (Refused 4 ''unsupported_target_type''))"
| "node_ident user (Some (Folder u m)) = (if u = user then Inl (Refused 4 ''unsupported_target_type'') else Inl (Refused 4 ''target_owner_conflict''))"
| "node_ident user (Some (Special u)) = (if u = user then Inl (Refused 4 ''unsupported_target_type'') else Inl (Refused 4 ''target_owner_conflict''))"

definition inspect_target :: "string list \<Rightarrow> 'w home_scheme \<Rightarrow> trouble + ident" where
  "inspect_target p h =
     bindE (ensure (relative_parts p) (Refused 2 ''invalid_target_path'')) (\<lambda>_.
     bindE (ensure (ho_folder h \<and> ho_owned h) (Refused 4 ''unsafe_home'')) (\<lambda>_.
     bindE (parents_there h [] (butlast p)) (\<lambda>there. if there then node_ident (ho_user h) (node_at h p) else Inr Absent)))"

definition read_regular :: "string list \<Rightarrow> ident \<Rightarrow> 'w home_scheme \<Rightarrow> trouble + string" where
  "read_regular p i h =
     (case i of
        File_At s d \<Rightarrow>
          (case node_at h p of
             Some (Regular t c k) \<Rightarrow>
               if fs_dev t = fs_dev s \<and> fs_ino t = fs_ino s \<and> fs_mtime t = fs_mtime s \<and> fs_size t = fs_size s \<and> k = 1 \<and> length c = fs_size t
               then Inr c else Inl (Refused 4 ''target_changed'')
           | Some (Folder u m) \<Rightarrow> Inl (Refused 4 ''target_changed'')
           | _ \<Rightarrow> Inl (Broken System))
      | _ \<Rightarrow> Inl (Refused 4 ''target_changed''))"

section \<open>Writing\<close>

text \<open>\<open>target_parent_fd\<close>: the parents are opened one after the other, and created where that is asked.\<close>

fun open_parents :: "bool \<Rightarrow> string list \<Rightarrow> string list \<Rightarrow> ('w, unit) hio" where
  "open_parents create base [] h = (Inr (), h)"
| "open_parents create base (x # xs) h =
     (case node_at h (base @ [x]) of
        None \<Rightarrow>
          if create then bindS (effect (put_node (base @ [x]) (Folder (ho_user h) 448))) (\<lambda>_. open_parents create (base @ [x]) xs) h
          else (Inl (Broken System), h)
      | Some (Folder u m) \<Rightarrow>
          if folder_safe h u m then open_parents create (base @ [x]) xs h else (Inl (Refused 4 ''unsafe_target_parent''), h)
      | Some _ \<Rightarrow> (Inl (Broken System), h))"

definition target_parent :: "bool \<Rightarrow> string list \<Rightarrow> ('w, unit) hio" where
  "target_parent create p =
     bindS (ensureS (relative_parts p) (Refused 2 ''invalid_target_path'')) (\<lambda>_.
     bindS (getS (\<lambda>h. ensure (ho_folder h) (Broken System))) (\<lambda>_.
     bindS (getS (\<lambda>h. ensure (ho_owned h) (Refused 4 ''unsafe_home''))) (\<lambda>_.
     open_parents create [] (butlast p))))"

definition new_stamp :: "nat \<Rightarrow> nat \<Rightarrow> 'w home_scheme \<Rightarrow> file_stamp" where
  "new_stamp mode len h = \<lparr>fs_uid = ho_user h, fs_dev = ho_device h, fs_ino = ho_clock h, fs_mode = mode, fs_mtime = ho_clock h, fs_size = len\<rparr>"

definition temporary :: "nat \<Rightarrow> nat \<Rightarrow> ('w, file_stamp) hio" where
  "temporary mode len =
     bindS (getS (\<lambda>h. Inr (new_stamp mode len h))) (\<lambda>s. bindS (effect (\<lambda>h. h\<lparr>ho_clock := ho_clock h + 1\<rparr>)) (\<lambda>_. returnS s))"

text \<open>\<open>_check_expected\<close>: everything but the digest is compared again, right before the replacement.\<close>

fun still_expected :: "ident \<Rightarrow> node option \<Rightarrow> bool" where
  "still_expected Absent n = (n = None)"
| "still_expected (File_At s d) (Some (Regular t c k)) = (s = t)"
| "still_expected (Link_At s l) (Some (Symbolic t m)) = (s = t \<and> l = m)"
| "still_expected _ _ = False"

definition check_expected :: "string list \<Rightarrow> ident \<Rightarrow> 'w home_scheme \<Rightarrow> trouble + unit" where
  "check_expected p e h = ensure (still_expected e (node_at h p)) (Refused 4 ''target_changed_during_write'')"

definition atomic_target_bytes ::
  "(string \<Rightarrow> string) \<Rightarrow> string list \<Rightarrow> string \<Rightarrow> nat \<Rightarrow> (ident \<Rightarrow> ('w, unit) hio) \<Rightarrow> ident \<Rightarrow> ('w, unit) hio" where
  "atomic_target_bytes sha p c mode before_replace e =
     bindS (target_parent True p) (\<lambda>_.
     bindS (temporary mode (length c)) (\<lambda>s.
     bindS (before_replace (File_At s (Some (sha c)))) (\<lambda>_.
     bindS (getS (check_expected p e)) (\<lambda>_.
     effect (put_node p (Regular s c 1))))))"

definition atomic_target_link :: "string list \<Rightarrow> string \<Rightarrow> (ident \<Rightarrow> ('w, unit) hio) \<Rightarrow> ident \<Rightarrow> ('w, unit) hio" where
  "atomic_target_link p l before_replace e =
     bindS (target_parent True p) (\<lambda>_.
     bindS (temporary 511 (length l)) (\<lambda>s.
     bindS (before_replace (Link_At s l)) (\<lambda>_.
     bindS (getS (check_expected p e)) (\<lambda>_.
     effect (put_node p (Symbolic s l))))))"

definition remove_target :: "string list \<Rightarrow> (ident \<Rightarrow> ('w, unit) hio) \<Rightarrow> ident \<Rightarrow> ('w, unit) hio" where
  "remove_target p before_remove e =
     bindS (target_parent False p) (\<lambda>_.
     bindS (before_remove Absent) (\<lambda>_.
     bindS (getS (check_expected p e)) (\<lambda>_.
     bindS (getS (\<lambda>h. ensure (node_at h p \<noteq> None) (Broken System))) (\<lambda>_.
     effect (drop_node p)))))"

section \<open>What may be read and kept\<close>

definition lower_char :: "char \<Rightarrow> char" where
  "lower_char c = (if 65 \<le> code c \<and> code c \<le> 90 then char_of (code c + 32) else c)"

fun has_word :: "string \<Rightarrow> string \<Rightarrow> bool" where
  "has_word w [] = (w = [])"
| "has_word w (x # xs) = (take (length w) (x # xs) = w \<or> has_word w xs)"

text \<open>\<open>_SENSITIVE\<close>; an optional \<open>_\<close> or \<open>-\<close> is written out.\<close>

definition sensitive_words :: "string list" where
  "sensitive_words = [''token'', ''secret'', ''password'', ''apikey'', ''api_key'', ''api-key'', ''subscription'', ''suburl'', ''sub_url'',
     ''sub-url'', ''bearer'', ''authorization'', ''webhook'', ''privatekey'', ''private_key'', ''private-key'', ''proxy-authorization'']"

definition sensitive :: "string \<Rightarrow> bool" where
  "sensitive c = list_ex (\<lambda>w. has_word w (map lower_char c)) sensitive_words"

definition blank_char :: "char \<Rightarrow> bool" where
  "blank_char c \<longleftrightarrow> code c = 32 \<or> 9 \<le> code c \<and> code c \<le> 13"

definition upper_char :: "char \<Rightarrow> bool" where
  "upper_char c \<longleftrightarrow> 65 \<le> code c \<and> code c \<le> 90"

definition value_ok :: "string \<Rightarrow> string \<Rightarrow> bool" where
  "value_ok extra v \<longleftrightarrow> 1 \<le> length v \<and> length v \<le> 64 \<and> list_all (\<lambda>c. alnum_char c \<or> c \<in> set extra) v"

definition assignment_ok :: "string \<Rightarrow> bool" where
  "assignment_ok r \<longleftrightarrow>
     (let n = takeWhile (\<lambda>c. c \<noteq> CHR ''='') r; v = drop (length n + 1) r in
      length n < length r \<and>
      ((n = ''LANG'' \<or> take 3 n = ''LC_'' \<and> drop 3 n \<noteq> [] \<and> list_all (\<lambda>c. upper_char c \<or> c = CHR ''_'') (drop 3 n)) \<and> value_ok ''_.@-'' v \<or>
       n \<in> {''EDITOR'', ''VISUAL'', ''PAGER''} \<and> value_ok ''_./-'' v))"

text \<open>\<open>_SIMPLE_ZSH\<close>: a comment, a blank line, or the setting of a locale or of an editor.\<close>

definition simple_line :: "string \<Rightarrow> bool" where
  "simple_line l \<longleftrightarrow>
     (let r = dropWhile blank_char l; e = drop 6 r in
      r = [] \<or> take 1 r = ''#'' \<or> assignment_ok r \<or>
      take 6 r = ''export'' \<and> e \<noteq> [] \<and> blank_char (hd e) \<and> assignment_ok (dropWhile blank_char e))"

text \<open>\<open>bytes.splitlines\<close>: lines end with a line feed, a carriage return, or both in this order.\<close>

definition glue :: "char \<Rightarrow> string list \<Rightarrow> string list" where
  "glue x ls = (case ls of [] \<Rightarrow> [[x]] | l # rest \<Rightarrow> (x # l) # rest)"

fun split_lines :: "string \<Rightarrow> string list" where
  "split_lines [] = []"
| "split_lines [x] = (if code x = 10 \<or> code x = 13 then [[]] else [[x]])"
| "split_lines (x # y # ys) =
     (if code x = 10 then [] # split_lines (y # ys)
      else if code x = 13 then [] # (if code y = 10 then split_lines ys else split_lines (y # ys))
      else glue x (split_lines (y # ys)))"

definition admit_existing ::
  "(string \<Rightarrow> string) \<Rightarrow> (string \<Rightarrow> trouble + unit) \<Rightarrow> string \<Rightarrow> string \<Rightarrow> string list \<Rightarrow> string option \<Rightarrow> trouble + string" where
  "admit_existing sha known_binding target c known trusted =
     (if c \<in> set known then Inr (sha c)
      else if target = ''rotom-entry-binding'' then bindE (known_binding c) (\<lambda>_. Inr (sha c))
      else if 1024 * 1024 < length c \<or> list_ex (\<lambda>x. code x = 0) c \<or> sensitive c then Inl (Refused 4 ''possible_private_content'')
      else if trusted = Some (sha c) then Inr (sha c)
      else if target = ''zshenv'' \<and> list_all simple_line (split_lines c) then Inr (sha c)
      else Inl (Refused 4 ''unclassified_existing_content''))"

end
