(* ===== verification/Config_Journal.thy ===== *)
theory Config_Journal
  imports Home_Targets
begin

text \<open>
  The private state of public configuration (\<open>termcfg/state.py\<close>) and what its transactions share
  (\<open>termcfg/transaction.py\<close>): records, journal, backups, payloads, and the restoration of a target.
  The journal exists twice: on disk, and in the memory of the process, which edits it and writes it
  out as a whole. \<open>parse_binding\<close> and the repository's sources are parameters. Backup files are
  addressed by their absolute path; symbolic links inside the private directory are not modelled.
\<close>

section \<open>Records\<close>

datatype artifact_kind = Static_Source string | Entry_Binding string

record artifact =
  ar_id :: string
  ar_component :: string
  ar_destination :: "string list"
  ar_sha :: string
  ar_mode :: nat
  ar_kind :: artifact_kind

datatype action = Create | Replace | Unchanged | Adopt_Required | Blocked | Drifted

record planned =
  pt_artifact :: artifact
  pt_before :: ident
  pt_action :: action
  pt_reason :: "string option"
  pt_custom :: bool

record generated =
  gn_schema :: nat
  gn_generator :: nat
  gn_inputs :: string
  gn_relative :: string
  gn_sha :: string
  gn_mode :: nat

record target_record =
  tr_component :: string
  tr_after :: ident
  tr_source :: string
  tr_generated :: "generated option"

record backup =
  bk_before :: ident
  bk_path :: "string option"
  bk_digest :: "string option"
  bk_managed :: bool
  bk_prior_source :: "string option"
  bk_prior_generated :: "generated option"

record tstate =
  ts_version :: nat
  ts_machine :: string
  ts_targets :: "(string \<times> target_record) list"
  ts_previous :: "(string \<times> (string \<times> backup) list) list"

datatype journal_kind = Apply_Kind | Rollback_Kind

datatype journal_phase = Prepared_Phase | Backed_Up | Writing | Activated | Committed | Recovery_Pending

datatype item_stage = Stage_Pending | Stage_Verified | Stage_Recovered

record jitem =
  ji_target :: string
  ji_component :: string
  ji_relative :: "string list"
  ji_before :: ident
  ji_desired :: "string option"
  ji_mode :: "nat option"
  ji_backup :: "backup option"
  ji_intended :: "ident option"
  ji_after :: "ident option"
  ji_recovery :: "ident option"
  ji_expected :: "ident option"
  ji_stage :: item_stage
  ji_generated :: "generated option"

record journal =
  jn_version :: nat
  jn_kind :: journal_kind
  jn_id :: string
  jn_phase :: journal_phase
  jn_plan :: string
  jn_before :: tstate
  jn_items :: "jitem list"

record preview =
  pw_plan :: string
  pw_targets :: "planned list"
  pw_state :: tstate

record setup_env =
  te_sha :: "string \<Rightarrow> string"
  te_machine :: string
  te_root :: string
  te_binding :: "string \<Rightarrow> trouble + unit"
  te_live_binding :: "string \<Rightarrow> trouble + unit"
  te_source :: "string \<Rightarrow> string option"

record private_file =
  pf_content :: string
  pf_mode :: nat

text \<open>The home with the private files of the machine, and the memory of the running process.\<close>

record setup_disk = home +
  pv_safe :: bool
  pv_state :: "tstate option"
  pv_journal :: "journal option"
  pv_files :: "(string \<times> private_file) list"
  me_journal :: journal
  me_entry :: "string option"

type_synonym 'a cfg = "(setup_disk, trouble, 'a) io"

section \<open>Private files\<close>

definition private_dir :: "unit cfg" where
  "private_dir = bindS (getS (\<lambda>s. ensure (pv_safe s) (Refused 4 ''unsafe_private_directory''))) (\<lambda>_. effect (\<lambda>s. s))"

definition atomic_bytes :: "string \<Rightarrow> string \<Rightarrow> unit cfg" where
  "atomic_bytes path c = effect (\<lambda>s. s\<lparr>pv_files := (path, \<lparr>pf_content = c, pf_mode = 384\<rparr>) # filter (\<lambda>e. fst e \<noteq> path) (pv_files s)\<rparr>)"

definition write_journal :: "unit cfg" where
  "write_journal = bindS private_dir (\<lambda>_. effect (\<lambda>s. s\<lparr>pv_journal := Some (me_journal s)\<rparr>))"

definition write_state_file :: "tstate \<Rightarrow> unit cfg" where
  "write_state_file t = bindS private_dir (\<lambda>_. effect (\<lambda>s. s\<lparr>pv_state := Some t\<rparr>))"

definition unlink_journal :: "unit cfg" where
  "unlink_journal = effect (\<lambda>s. s\<lparr>pv_journal := None\<rparr>)"

definition remember :: "(journal \<Rightarrow> journal) \<Rightarrow> unit cfg" where
  "remember f s = (Inr (), s\<lparr>me_journal := f (me_journal s)\<rparr>)"

definition set_entry :: "string option \<Rightarrow> unit cfg" where
  "set_entry e s = (Inr (), s\<lparr>me_entry := e\<rparr>)"

definition set_phase :: "journal_phase \<Rightarrow> unit cfg" where
  "set_phase p = remember (\<lambda>j. j\<lparr>jn_phase := p\<rparr>)"

definition update_item :: "string \<Rightarrow> (jitem \<Rightarrow> jitem) \<Rightarrow> journal \<Rightarrow> journal" where
  "update_item k f j = j\<lparr>jn_items := map (\<lambda>r. if ji_target r = k then f r else r) (jn_items j)\<rparr>"

text \<open>The edit of an item and the journal written out.\<close>

definition note_item :: "string \<Rightarrow> (jitem \<Rightarrow> jitem) \<Rightarrow> unit cfg" where
  "note_item k f = bindS (remember (update_item k f)) (\<lambda>_. write_journal)"

definition find_item :: "string \<Rightarrow> journal \<Rightarrow> jitem option" where
  "find_item k j = find (\<lambda>r. ji_target r = k) (jn_items j)"

section \<open>Reading the state\<close>

definition slashes :: "string \<Rightarrow> string list" where
  "slashes p = split_on CHR ''/'' p"

definition plain_part :: "string \<Rightarrow> bool" where
  "plain_part x \<longleftrightarrow> x \<noteq> '''' \<and> x \<noteq> ''.'' \<and> x \<noteq> ''..'' \<and> list_all (\<lambda>c. code c \<noteq> 92 \<and> c \<noteq> CHR ''/'') x"

text \<open>\<open>resolve().parent.parent == private_state_root / "backups"\<close>, without links.\<close>

definition inside_backups :: "setup_env \<Rightarrow> string \<Rightarrow> bool" where
  "inside_backups env p \<longleftrightarrow>
     (let top = te_root env @ ''/backups/''; below = slashes (drop (length top) p) in
      take (length top) p = top \<and> length below = 2 \<and> list_all (\<lambda>x. x \<noteq> '''' \<and> x \<noteq> ''.'' \<and> x \<noteq> ''..'') below)"

definition generated_ok :: "string \<Rightarrow> generated option \<Rightarrow> bool" where
  "generated_ok target g \<longleftrightarrow>
     (case g of None \<Rightarrow> True
      | Some g \<Rightarrow> target = ''rotom-entry-binding'' \<and> gn_schema g = 1 \<and> gn_generator g = 1 \<and>
          list_all plain_part (slashes (gn_relative g)))"

definition backup_inside :: "setup_env \<Rightarrow> backup \<Rightarrow> bool" where
  "backup_inside env b \<longleftrightarrow> (case bk_path b of None \<Rightarrow> True | Some p \<Rightarrow> inside_backups env p)"

definition previous_inside :: "setup_env \<Rightarrow> tstate \<Rightarrow> bool" where
  "previous_inside env t \<longleftrightarrow> list_all (\<lambda>(c, bs). list_all (\<lambda>(k, b). backup_inside env b) bs) (ts_previous t)"

definition blank_state :: "setup_env \<Rightarrow> tstate" where
  "blank_state env = \<lparr>ts_version = 2, ts_machine = te_machine env, ts_targets = [], ts_previous = []\<rparr>"

definition read_state :: "setup_env \<Rightarrow> setup_disk \<Rightarrow> trouble + tstate" where
  "read_state env s =
     (case pv_state s of
        None \<Rightarrow> Inr (blank_state env)
      | Some t \<Rightarrow>
          if \<not> (ts_version t \<in> {1, 2, 3} \<and> list_all (\<lambda>(k, r). generated_ok k (tr_generated r)) (ts_targets t) \<and>
              list_all (\<lambda>(c, bs). list_all (\<lambda>(k, b). generated_ok k (bk_prior_generated b)) bs) (ts_previous t))
          then Inl (Refused 2 ''invalid_private_state'')
          else if ts_version t = 1 then Inl (Refused 4 ''legacy_migration_required'')
          else if ts_machine t \<noteq> te_machine env then Inl (Refused 2 ''state_machine_mismatch'')
          else if \<not> previous_inside env t then Inl (Refused 4 ''backup_outside_private_root'')
          else Inr t)"

definition target_char :: "char \<Rightarrow> bool" where
  "target_char c \<longleftrightarrow> 97 \<le> code c \<and> code c \<le> 122 \<or> digit_char c \<or> c \<in> set ''-_.''"

definition journal_item_ok :: "setup_env \<Rightarrow> jitem \<Rightarrow> bool" where
  "journal_item_ok env r \<longleftrightarrow>
     ji_target r \<noteq> [] \<and> length (ji_target r) \<le> 64 \<and> list_all target_char (ji_target r) \<and>
     ji_relative r \<noteq> [] \<and> list_all plain_part (ji_relative r) \<and> generated_ok (ji_target r) (ji_generated r) \<and>
     (case ji_generated r of None \<Rightarrow> True
      | Some g \<Rightarrow> ji_relative r = [''.local'', ''share'', ''rotom'', ''entry.json''] \<and> ji_component r = ''zsh'' \<and> Some (gn_sha g) = ji_desired r) \<and>
     (case ji_backup r of None \<Rightarrow> True | Some b \<Rightarrow> backup_inside env b)"

definition journal_ok :: "setup_env \<Rightarrow> journal \<Rightarrow> bool" where
  "journal_ok env j \<longleftrightarrow>
     jn_version j \<in> {1, 2, 3} \<and> ts_version (jn_before j) \<le> jn_version j \<and> ts_machine (jn_before j) = te_machine env \<and>
     (jn_version j \<noteq> 3 \<longrightarrow> jn_phase j \<noteq> Activated \<and> list_all (\<lambda>r. ji_generated r = None) (jn_items j)) \<and>
     list_all (journal_item_ok env) (jn_items j) \<and> distinct (map ji_target (jn_items j)) \<and> previous_inside env (jn_before j)"

definition read_journal :: "setup_env \<Rightarrow> setup_disk \<Rightarrow> trouble + journal option" where
  "read_journal env s =
     (case pv_journal s of
        None \<Rightarrow> Inr None
      | Some j \<Rightarrow> if journal_ok env j then Inr (Some j) else Inl (Refused 2 ''invalid_transaction_journal''))"

section \<open>Artifacts, payloads and backups\<close>

definition artifact_bytes :: "setup_env \<Rightarrow> artifact \<Rightarrow> trouble + string" where
  "artifact_bytes env a =
     (case ar_kind a of
        Entry_Binding c \<Rightarrow> Inr c
      | Static_Source path \<Rightarrow>
          (case te_source env path of
             None \<Rightarrow> Inl (Refused 2 ''unsafe_source'')
           | Some c \<Rightarrow> if te_sha env c = ar_sha a then Inr c else Inl (Refused 5 ''source_digest_mismatch'')))"

definition is_generated :: "artifact \<Rightarrow> bool" where
  "is_generated a \<longleftrightarrow> (case ar_kind a of Entry_Binding c \<Rightarrow> True | Static_Source p \<Rightarrow> False)"

definition verify_source :: "setup_env \<Rightarrow> artifact \<Rightarrow> trouble + unit" where
  "verify_source env a = (case ar_kind a of Entry_Binding c \<Rightarrow> te_live_binding env c | Static_Source p \<Rightarrow> Inr ())"

definition private_file_at :: "string \<Rightarrow> setup_disk \<Rightarrow> string option" where
  "private_file_at path s =
     (case map_of (pv_files s) path of None \<Rightarrow> None
      | Some f \<Rightarrow> if pv_safe s \<and> pf_mode f = 384 then Some (pf_content f) else None)"

definition verified_payload :: "setup_env \<Rightarrow> generated \<Rightarrow> setup_disk \<Rightarrow> trouble + string" where
  "verified_payload env g s =
     bindE (ensure (generated_ok ''rotom-entry-binding'' (Some g)) (Broken System)) (\<lambda>_.
     case private_file_at (te_root env @ ''/'' @ gn_relative g) s of
       None \<Rightarrow> Inl (Refused 4 ''unsafe_payload'')
     | Some c \<Rightarrow>
         bindE (ensure (te_sha env c = gn_sha g) (Refused 4 ''generated_payload_changed'')) (\<lambda>_.
         bindE (te_binding env c) (\<lambda>_. Inr c)))"

definition write_generated_payload :: "setup_env \<Rightarrow> string \<Rightarrow> artifact \<Rightarrow> string \<Rightarrow> generated cfg" where
  "write_generated_payload env tid a c =
     (let relative = ''payloads/'' @ tid @ ''/rotom-entry-binding.json'';
          g = \<lparr>gn_schema = 1, gn_generator = 1, gn_inputs = ar_sha a, gn_relative = relative, gn_sha = ar_sha a, gn_mode = 384\<rparr> in
      bindS private_dir (\<lambda>_.
      bindS (atomic_bytes (te_root env @ ''/'' @ relative) c) (\<lambda>_.
      bindS (getS (verified_payload env g)) (\<lambda>_. returnS g))))"

fun ident_digest :: "ident \<Rightarrow> string option" where
  "ident_digest (File_At s d) = d"
| "ident_digest _ = None"

text \<open>\<open>_identity_with_digest\<close>: the target as it is now, its content admitted and digested.\<close>

definition identity_with_digest :: "setup_env \<Rightarrow> planned \<Rightarrow> setup_disk \<Rightarrow> trouble + ident" where
  "identity_with_digest env t s =
     (let a = pt_artifact t in
      bindE (inspect_target (ar_destination a) s) (\<lambda>i.
      case i of
        File_At st d \<Rightarrow>
          bindE (read_regular (ar_destination a) i s) (\<lambda>c.
          bindE (artifact_bytes env a) (\<lambda>b.
          bindE (admit_existing (te_sha env) (te_binding env) (ar_id a) c [b] (ident_digest (pt_before t))) (\<lambda>dg.
            Inr (File_At st (Some dg)))))
      | _ \<Rightarrow> Inr i))"

definition plain_backup :: "ident \<Rightarrow> backup" where
  "plain_backup i = \<lparr>bk_before = i, bk_path = None, bk_digest = None, bk_managed = False, bk_prior_source = None, bk_prior_generated = None\<rparr>"

definition backup_path :: "setup_env \<Rightarrow> string \<Rightarrow> string \<Rightarrow> string" where
  "backup_path env tid k = te_root env @ ''/backups/'' @ tid @ ''/'' @ k @ ''.backup''"

definition backup_one :: "setup_env \<Rightarrow> string \<Rightarrow> planned \<Rightarrow> backup cfg" where
  "backup_one env tid t =
     (let a = pt_artifact t; i = pt_before t in
      case i of
        File_At st d \<Rightarrow>
          bindS (getS (read_regular (ar_destination a) i)) (\<lambda>c.
          bindS (liftS (artifact_bytes env a)) (\<lambda>b.
          bindS (liftS (admit_existing (te_sha env) (te_binding env) (ar_id a) c [b] d)) (\<lambda>dg.
          bindS (ensureS (Some dg = d) (Refused 4 ''target_changed_before_backup'')) (\<lambda>_.
          bindS (atomic_bytes (backup_path env tid (ar_id a)) c) (\<lambda>_.
          bindS (getS (\<lambda>s. ensure (case map_of (pv_files s) (backup_path env tid (ar_id a)) of None \<Rightarrow> False
            | Some f \<Rightarrow> pf_mode f = 384 \<and> Some (te_sha env (pf_content f)) = d) (Refused 6 ''backup_verify_failed''))) (\<lambda>_.
          returnS ((plain_backup i)\<lparr>bk_path := Some (backup_path env tid (ar_id a)), bk_digest := d\<rparr>)))))))
      | _ \<Rightarrow> returnS (plain_backup i))"

definition verified_backup :: "setup_env \<Rightarrow> backup \<Rightarrow> setup_disk \<Rightarrow> trouble + string option" where
  "verified_backup env b s =
     (case bk_path b of
        None \<Rightarrow> Inr None
      | Some p \<Rightarrow>
          bindE (ensure (inside_backups env p) (Refused 4 ''backup_outside_private_root'')) (\<lambda>_.
          case private_file_at p s of
            None \<Rightarrow> Inl (Refused 4 ''unsafe_backup'')
          | Some c \<Rightarrow> if Some (te_sha env c) = bk_digest b then Inr (Some c) else Inl (Refused 4 ''backup_changed'')))"

text \<open>\<open>_restore_one\<close>; a backup of a file without content is the failed assertion of the code.\<close>

definition restore_one :: "setup_env \<Rightarrow> string list \<Rightarrow> backup \<Rightarrow> (ident \<Rightarrow> unit cfg) \<Rightarrow> ident \<Rightarrow> unit cfg" where
  "restore_one env p b note e =
     (case bk_before b of
        Absent \<Rightarrow> remove_target p note e
      | Link_At st l \<Rightarrow> atomic_target_link p l note e
      | File_At st d \<Rightarrow>
          bindS (getS (verified_backup env b)) (\<lambda>c.
          case c of None \<Rightarrow> raiseS (Broken System) | Some c \<Rightarrow> atomic_target_bytes (te_sha env) p c (fs_mode st) note e))"

section \<open>Identities of a recovery\<close>

definition identity_complete :: "ident \<Rightarrow> bool" where
  "identity_complete i \<longleftrightarrow> (case i of File_At st d \<Rightarrow> (case d of None \<Rightarrow> False | Some x \<Rightarrow> is_hex 64 x) | _ \<Rightarrow> True)"

fun same_but_digest :: "ident \<Rightarrow> ident \<Rightarrow> bool" where
  "same_but_digest Absent Absent = True"
| "same_but_digest (File_At s d) (File_At t e) = (s = t)"
| "same_but_digest (Link_At s l) (Link_At t m) = (s = t \<and> l = m)"
| "same_but_digest _ _ = False"

definition known_idents :: "jitem \<Rightarrow> ident list" where
  "known_idents r = ji_before r # concat (map (\<lambda>x. case x of None \<Rightarrow> [] | Some i \<Rightarrow> [i]) [ji_after r, ji_intended r, ji_recovery r])"

text \<open>\<open>_recovery_identity\<close>: which of the recorded identities the target has now.\<close>

definition recovery_identity :: "setup_env \<Rightarrow> jitem \<Rightarrow> setup_disk \<Rightarrow> trouble + ident" where
  "recovery_identity env r s =
     bindE (ensure (list_all identity_complete (known_idents r) \<and> (case ji_expected r of None \<Rightarrow> True | Some i \<Rightarrow> identity_complete i))
       (Refused 2 ''incomplete_recovery_identity'')) (\<lambda>_.
     bindE (inspect_target (ji_relative r) s) (\<lambda>now.
     let fit = filter (\<lambda>i. same_but_digest i now) (known_idents r);
         otherwise = (if now = Absent \<and> ji_expected r = Some Absent then Inr Absent else Inl (Refused 4 ''recovery_target_drift'')) in
     case fit of
       [] \<Rightarrow> otherwise
     | i # _ \<Rightarrow>
         (case now of
            File_At st d \<Rightarrow>
              bindE (read_regular (ji_relative r) now s) (\<lambda>c.
                case find (\<lambda>i. ident_digest i = Some (te_sha env c)) fit of None \<Rightarrow> otherwise | Some x \<Rightarrow> Inr x)
          | _ \<Rightarrow> Inr i)))"

end
