(* ===== verification/Config_Transaction.thy ===== *)
theory Config_Transaction
  imports Config_Journal
begin

text \<open>
  The transactions on public configuration (\<open>termcfg/transaction.py\<close>): an approved preview is
  applied target by target behind a journal, a transaction that did not end is recovered, and a
  component is rolled back to its previous version. Handlers run for errors and interrupts as in
  the code, never for the death of the process. Progress messages are not modelled; the leases that
  exclude other operations are held by the caller.
\<close>

section \<open>Handlers\<close>

definition is_exception :: "trouble \<Rightarrow> bool" where
  "is_exception t \<longleftrightarrow> (case t of Refused c r \<Rightarrow> True | Broken c \<Rightarrow> c = System)"

definition is_handled :: "trouble \<Rightarrow> bool" where
  "is_handled t \<longleftrightarrow> t \<noteq> Broken Died"

text \<open>\<open>except\<close>: for the troubles it catches the handler runs and decides how to go on.\<close>

definition catching :: "(trouble \<Rightarrow> bool) \<Rightarrow> 'a cfg \<Rightarrow> (trouble \<Rightarrow> 'a cfg) \<Rightarrow> 'a cfg" where
  "catching f m h s = (case m s of (Inl t, u) \<Rightarrow> if f t then h t u else (Inl t, u) | (Inr x, u) \<Rightarrow> (Inr x, u))"

text \<open>\<open>_target_context\<close>: an error of the system becomes a refusal.\<close>

definition in_target :: "'a cfg \<Rightarrow> 'a cfg" where
  "in_target m = mapErrorS (\<lambda>t. if t = Broken System then Refused 6 ''filesystem_failure'' else t) m"

section \<open>Applying\<close>

definition check_approvals :: "preview \<Rightarrow> string list \<Rightarrow> string option \<Rightarrow> trouble + unit" where
  "check_approvals pw adopted zshenv =
     bindE (checkE (\<lambda>t.
       bindE (ensure (pt_action t \<notin> {Blocked, Drifted}) (Refused 4 (case pt_reason t of None \<Rightarrow> ''target_conflict'' | Some r \<Rightarrow> r))) (\<lambda>_.
       bindE (ensure (\<not> (pt_action t = Adopt_Required \<and> ar_id (pt_artifact t) \<notin> set adopted)) (Refused 4 ''adoption_required'')) (\<lambda>_.
       ensure (\<not> (pt_custom t \<and> zshenv \<noteq> Some (pw_plan pw))) (Refused 4 ''zshenv_confirmation_required'')))) (pw_targets pw)) (\<lambda>_.
     ensure (set adopted \<subseteq> (ar_id \<circ> pt_artifact) ` set (filter (\<lambda>t. pt_action t = Adopt_Required) (pw_targets pw)))
       (Refused 2 ''invalid_adoption_target''))"

definition changes_of :: "preview \<Rightarrow> planned list" where
  "changes_of pw =
     (let cs = filter (\<lambda>t. pt_action t \<noteq> Unchanged) (pw_targets pw) in
      filter (\<lambda>t. \<not> is_generated (pt_artifact t)) cs @ filter (\<lambda>t. is_generated (pt_artifact t)) cs)"

definition journal_item :: "planned \<Rightarrow> jitem" where
  "journal_item t = \<lparr>ji_target = ar_id (pt_artifact t), ji_component = ar_component (pt_artifact t),
     ji_relative = ar_destination (pt_artifact t), ji_before = pt_before t, ji_desired = Some (ar_sha (pt_artifact t)),
     ji_mode = Some (ar_mode (pt_artifact t)), ji_backup = None, ji_intended = None, ji_after = None, ji_recovery = None,
     ji_expected = None, ji_stage = Stage_Pending, ji_generated = None\<rparr>"

definition journal_items :: "preview \<Rightarrow> string \<Rightarrow> journal" where
  "journal_items pw tid =
     \<lparr>jn_version = (if ts_version (pw_state pw) = 3 \<or> list_ex (\<lambda>t. is_generated (pt_artifact t)) (changes_of pw) then 3 else 2),
      jn_kind = Apply_Kind, jn_id = tid, jn_phase = Prepared_Phase, jn_plan = pw_plan pw, jn_before = pw_state pw,
      jn_items = map journal_item (changes_of pw)\<rparr>"

fun write_payloads :: "setup_env \<Rightarrow> string \<Rightarrow> planned list \<Rightarrow> unit cfg" where
  "write_payloads env tid [] = returnS ()"
| "write_payloads env tid (t # ts) =
     bindS (case ar_kind (pt_artifact t) of
         Static_Source p \<Rightarrow> returnS ()
       | Entry_Binding c \<Rightarrow>
           bindS (liftS (verify_source env (pt_artifact t))) (\<lambda>_.
           bindS (write_generated_payload env tid (pt_artifact t) c) (\<lambda>g.
           remember (update_item (ar_id (pt_artifact t)) (\<lambda>r. r\<lparr>ji_generated := Some g\<rparr>))))) (\<lambda>_.
     write_payloads env tid ts)"

text \<open>The backup of one target; a target that is not changed is backed up but not recorded.\<close>

definition managed_backup :: "tstate \<Rightarrow> string \<Rightarrow> backup \<Rightarrow> backup" where
  "managed_backup st k b =
     (case map_of (ts_targets st) k of
        None \<Rightarrow> b\<lparr>bk_managed := False, bk_prior_source := None\<rparr>
      | Some r \<Rightarrow> b\<lparr>bk_managed := True, bk_prior_source := Some (tr_source r), bk_prior_generated := tr_generated r\<rparr>)"

definition back_up_target :: "setup_env \<Rightarrow> preview \<Rightarrow> string \<Rightarrow> planned \<Rightarrow> unit cfg" where
  "back_up_target env pw tid t =
     in_target (
       bindS (getS (identity_with_digest env t)) (\<lambda>i.
       bindS (ensureS (i = pt_before t) (Refused 4 ''target_changed_before_backup'')) (\<lambda>_.
       bindS (backup_one env tid t) (\<lambda>b.
       if list_ex (\<lambda>c. ar_id (pt_artifact c) = ar_id (pt_artifact t)) (changes_of pw)
       then note_item (ar_id (pt_artifact t)) (\<lambda>r. r\<lparr>ji_backup := Some (managed_backup (pw_state pw) (ar_id (pt_artifact t)) b)\<rparr>)
       else returnS ()))))"

fun each :: "('a \<Rightarrow> unit cfg) \<Rightarrow> 'a list \<Rightarrow> unit cfg" where
  "each f [] = returnS ()"
| "each f (x # xs) = bindS (f x) (\<lambda>_. each f xs)"

definition back_up :: "setup_env \<Rightarrow> preview \<Rightarrow> string \<Rightarrow> unit cfg" where
  "back_up env pw tid =
     bindS (each (back_up_target env pw tid) (filter (\<lambda>t. pt_before t \<noteq> Absent) (pw_targets pw))) (\<lambda>_.
     bindS (each (\<lambda>t. note_item (ar_id (pt_artifact t)) (\<lambda>r. r\<lparr>ji_backup := Some (plain_backup Absent)\<rparr>))
       (filter (\<lambda>t. pt_before t = Absent) (changes_of pw))) (\<lambda>_.
     bindS (set_phase Backed_Up) (\<lambda>_. write_journal)))"

text \<open>Nothing in the home was written: the journal and the new backups are thrown away.\<close>

definition forget_backups :: "setup_env \<Rightarrow> string \<Rightarrow> unit cfg" where
  "forget_backups env tid =
     (let top = te_root env @ ''/backups/'' @ tid @ ''/'' in
      effect (\<lambda>s. s\<lparr>pv_files := filter (\<lambda>e. take (length top) (fst e) \<noteq> top) (pv_files s)\<rparr>))"

definition drop_backups :: "setup_env \<Rightarrow> string \<Rightarrow> unit cfg" where
  "drop_backups env tid = catching (\<lambda>t. t = Broken System) (forget_backups env tid) (\<lambda>_. returnS ())"

definition undo_preparation :: "setup_env \<Rightarrow> string \<Rightarrow> trouble \<Rightarrow> 'a cfg" where
  "undo_preparation env tid t = bindS unlink_journal (\<lambda>_. bindS (drop_backups env tid) (\<lambda>_. raiseS t))"

definition with_target :: "string \<Rightarrow> target_record \<Rightarrow> tstate \<Rightarrow> tstate" where
  "with_target k r st = st\<lparr>ts_targets := dput k r (ts_targets st)\<rparr>"

definition write_target :: "setup_env \<Rightarrow> tstate \<Rightarrow> planned \<Rightarrow> tstate cfg" where
  "write_target env st t =
     (let a = pt_artifact t; k = ar_id a in
      in_target (
        bindS (getS (identity_with_digest env t)) (\<lambda>i.
        bindS (ensureS (i = pt_before t) (Refused 4 ''target_changed_during_write'')) (\<lambda>_.
        bindS (if is_generated a then bindS (liftS (verify_source env a)) (\<lambda>_. set_entry (Some ''possibly_activated'')) else returnS ()) (\<lambda>_.
        bindS (liftS (artifact_bytes env a)) (\<lambda>c.
        bindS (atomic_target_bytes (te_sha env) (ar_destination a) c (ar_mode a) (\<lambda>x. note_item k (\<lambda>r. r\<lparr>ji_intended := Some x\<rparr>)) (pt_before t)) (\<lambda>_.
        bindS (getS (identity_with_digest env t)) (\<lambda>after.
        bindS (remember (update_item k (\<lambda>r. r\<lparr>ji_after := Some after\<rparr>))) (\<lambda>_.
        bindS (ensureS (case after of File_At s d \<Rightarrow> d = Some (ar_sha a) \<and> fs_mode s = ar_mode a | _ \<Rightarrow> False) (Refused 6 ''write_verify_failed'')) (\<lambda>_.
        bindS (note_item k (\<lambda>r. r\<lparr>ji_stage := Stage_Verified\<rparr>)) (\<lambda>_.
        bindS (getS (\<lambda>s. Inr (case find_item k (me_journal s) of None \<Rightarrow> None | Some r \<Rightarrow> ji_generated r))) (\<lambda>g.
        bindS (if g = None then returnS () else bindS (set_entry (Some ''activated'')) (\<lambda>_. bindS (set_phase Activated) (\<lambda>_. write_journal))) (\<lambda>_.
        returnS (with_target k \<lparr>tr_component = ar_component a, tr_after = after, tr_source = ar_sha a, tr_generated = g\<rparr> st))))))))))))))"

fun write_targets :: "setup_env \<Rightarrow> tstate \<Rightarrow> planned list \<Rightarrow> tstate cfg" where
  "write_targets env st [] = returnS st"
| "write_targets env st (t # ts) = bindS (write_target env st t) (\<lambda>st'. write_targets env st' ts)"

text \<open>The backups of this transaction become the previous version of every component it changed.\<close>

definition component_backups :: "journal \<Rightarrow> string \<Rightarrow> (string \<times> backup) list" where
  "component_backups j c = fold (\<lambda>r d. case ji_backup r of None \<Rightarrow> d | Some b \<Rightarrow> dput (ji_target r) b d)
     (filter (\<lambda>r. ji_component r = c) (jn_items j)) []"

definition new_previous :: "journal \<Rightarrow> string list \<Rightarrow> (string \<times> (string \<times> backup) list) list \<Rightarrow> (string \<times> (string \<times> backup) list) list" where
  "new_previous j cs old = fold (\<lambda>c d. dput c (component_backups j c) d) cs old"

definition commit :: "tstate \<Rightarrow> unit cfg" where
  "commit st = bindS (write_state_file st) (\<lambda>_. bindS (set_phase Committed) (\<lambda>_. bindS write_journal (\<lambda>_. unlink_journal)))"

definition install :: "setup_env \<Rightarrow> preview \<Rightarrow> tstate cfg" where
  "install env pw =
     bindS (getS (\<lambda>s. Inr (jn_version (me_journal s)))) (\<lambda>v.
     bindS (write_targets env ((pw_state pw)\<lparr>ts_version := v\<rparr>) (changes_of pw)) (\<lambda>st.
     bindS (getS (\<lambda>s. Inr (new_previous (me_journal s) (map (\<lambda>t. ar_component (pt_artifact t)) (changes_of pw)) (ts_previous st)))) (\<lambda>pre.
     bindS (commit (st\<lparr>ts_previous := pre\<rparr>)) (\<lambda>_. returnS (st\<lparr>ts_previous := pre\<rparr>)))))"

text \<open>The journal says that a recovery is due; if even that cannot be written, the last one on disk still does.\<close>

definition leave_recovery :: "string \<Rightarrow> trouble \<Rightarrow> 'a cfg" where
  "leave_recovery entry t =
     bindS (getS (\<lambda>s. Inr (jn_phase (me_journal s)))) (\<lambda>p.
     bindS (if p = Committed then returnS ()
         else bindS (set_phase Recovery_Pending) (\<lambda>_. catching is_handled write_journal (\<lambda>_. returnS ()))) (\<lambda>_.
     bindS (getS (\<lambda>s. Inr (me_entry s, jn_version (me_journal s)))) (\<lambda>(e, v).
     raiseS (case t of
         Refused c r \<Rightarrow> t
       | Broken c \<Rightarrow>
           if e \<noteq> None then Refused (if c = Interrupt then 130 else 6) entry
           else if c = Interrupt \<and> v = 3 then Refused 130 ''interrupted'' else t))))"

section \<open>Cleaning up\<close>

definition backup_paths :: "(string \<times> (string \<times> backup) list) list \<Rightarrow> string list" where
  "backup_paths p = concat (map (\<lambda>(c, bs). concat (map (\<lambda>(k, b). case bk_path b of None \<Rightarrow> [] | Some q \<Rightarrow> [q]) bs)) p)"

definition unlink_private :: "string \<Rightarrow> unit cfg" where
  "unlink_private path = effect (\<lambda>s. s\<lparr>pv_files := filter (\<lambda>e. fst e \<noteq> path) (pv_files s)\<rparr>)"

definition clean_old_backups ::
  "setup_env \<Rightarrow> (string \<times> (string \<times> backup) list) list \<Rightarrow> (string \<times> (string \<times> backup) list) list \<Rightarrow> unit cfg" where
  "clean_old_backups env old now =
     each (\<lambda>p.
       if p \<in> set (backup_paths now) then returnS ()
       else bindS (ensureS (inside_backups env p) (Refused 4 ''backup_outside_private_root'')) (\<lambda>_.
         catching (\<lambda>t. t = Broken System) (unlink_private p) (\<lambda>_. returnS ()))) (backup_paths old)"

text \<open>The clean-up after a commit: its errors only show as \<open>cleanup_pending\<close>.\<close>

definition tidying :: "unit cfg \<Rightarrow> bool cfg" where
  "tidying m = catching is_exception (bindS m (\<lambda>_. returnS False)) (\<lambda>_. returnS True)"

record apply_result =
  ap_changed :: "string list"
  ap_unchanged :: "string list"
  ap_id :: "string option"
  ap_cleanup :: bool

definition commit_apply :: "setup_env \<Rightarrow> preview \<Rightarrow> string \<Rightarrow> apply_result cfg" where
  "commit_apply env pw tid =
     (let cs = changes_of pw; ids = map (\<lambda>t. ar_id (pt_artifact t));
          kept = filter (\<lambda>t. pt_action t = Unchanged) (pw_targets pw) in
      if cs = [] then returnS \<lparr>ap_changed = [], ap_unchanged = ids (pw_targets pw), ap_id = None, ap_cleanup = False\<rparr>
      else
        bindS private_dir (\<lambda>_.
        bindS (remember (\<lambda>_. journal_items pw tid)) (\<lambda>_.
        bindS (set_entry None) (\<lambda>_.
        bindS private_dir (\<lambda>_.
        bindS (write_payloads env tid cs) (\<lambda>_.
        bindS write_journal (\<lambda>_.
        bindS (catching is_exception (back_up env pw tid) (undo_preparation env tid)) (\<lambda>_.
        bindS (set_phase Writing) (\<lambda>_.
        bindS write_journal (\<lambda>_.
        bindS (catching is_handled (install env pw) (leave_recovery ''entry_activation_pending'')) (\<lambda>st.
        bindS (tidying (bindS (clean_old_backups env (ts_previous (pw_state pw)) (ts_previous st)) (\<lambda>_.
          each (\<lambda>t. unlink_private (backup_path env tid (ar_id (pt_artifact t)))) kept))) (\<lambda>c.
        returnS \<lparr>ap_changed = ids cs, ap_unchanged = ids kept, ap_id = Some tid, ap_cleanup = c\<rparr>))))))))))))"

section \<open>Recovering\<close>

text \<open>All items are checked before anything is restored.\<close>

definition payload_there :: "setup_env \<Rightarrow> generated option \<Rightarrow> unit cfg" where
  "payload_there env g = (case g of None \<Rightarrow> returnS () | Some x \<Rightarrow> bindS (getS (verified_payload env x)) (\<lambda>_. returnS ()))"

definition verify_item :: "setup_env \<Rightarrow> jitem \<Rightarrow> unit cfg" where
  "verify_item env r =
     bindS (payload_there env (ji_generated r)) (\<lambda>_.
     bindS (case ji_backup r of None \<Rightarrow> returnS ()
         | Some b \<Rightarrow> bindS (getS (verified_backup env b)) (\<lambda>_. payload_there env (bk_prior_generated b))) (\<lambda>_.
     bindS (getS (recovery_identity env r)) (\<lambda>i.
     bindS (getS (inspect_target (ji_relative r))) (\<lambda>now.
     ensureS (i = ji_before r \<or> Some i \<in> {ji_after r, ji_intended r, ji_recovery r} \<or> ji_expected r = Some Absent \<and> now = Absent)
       (Refused 4 ''recovery_target_drift'')))))"

definition the_item :: "string \<Rightarrow> jitem cfg" where
  "the_item k = getS (\<lambda>s. case find_item k (me_journal s) of None \<Rightarrow> Inl (Broken System) | Some r \<Rightarrow> Inr r)"

definition set_after :: "string \<Rightarrow> ident \<Rightarrow> tstate \<Rightarrow> tstate" where
  "set_after k i st = st\<lparr>ts_targets := map (\<lambda>(x, r). if x = k then (x, r\<lparr>tr_after := i\<rparr>) else (x, r)) (ts_targets st)\<rparr>"

definition recover_target :: "setup_env \<Rightarrow> string \<Rightarrow> tstate \<Rightarrow> tstate cfg" where
  "recover_target env k st =
     bindS (the_item k) (\<lambda>r.
     bindS (getS (recovery_identity env r)) (\<lambda>i.
     bindS (if i \<noteq> ji_before r \<and> Some i \<noteq> ji_recovery r
         then bindS (case ji_backup r of None \<Rightarrow> raiseS (Broken System)
             | Some b \<Rightarrow> restore_one env (ji_relative r) b (\<lambda>x. note_item k (\<lambda>r. r\<lparr>ji_recovery := Some x\<rparr>)) i) (\<lambda>_.
           note_item k (\<lambda>r. r\<lparr>ji_stage := Stage_Recovered\<rparr>))
         else returnS ()) (\<lambda>_.
     if map_of (ts_targets st) k = None then returnS st
     else bindS (the_item k) (\<lambda>r. bindS (getS (recovery_identity env r)) (\<lambda>i. returnS (set_after k i st))))))"

fun recover_targets :: "setup_env \<Rightarrow> string list \<Rightarrow> tstate \<Rightarrow> tstate cfg" where
  "recover_targets env [] st = returnS st"
| "recover_targets env (k # ks) st = bindS (recover_target env k st) (recover_targets env ks)"

datatype recovery = Nothing_Pending | Already_Committed | Recovered string

definition recover_pending :: "setup_env \<Rightarrow> journal \<Rightarrow> recovery cfg" where
  "recover_pending env j =
     bindS (each (verify_item env) (jn_items j)) (\<lambda>_.
     bindS (remember (\<lambda>_. j\<lparr>jn_phase := Recovery_Pending\<rparr>)) (\<lambda>_.
     bindS write_journal (\<lambda>_.
     bindS (recover_targets env (rev (map ji_target (jn_items j)))
       ((jn_before j)\<lparr>ts_version := max (ts_version (jn_before j)) (jn_version j)\<rparr>)) (\<lambda>st.
     bindS (write_state_file st) (\<lambda>_.
     bindS unlink_journal (\<lambda>_. returnS (Recovered (jn_id j))))))))"

definition recover :: "setup_env \<Rightarrow> recovery cfg" where
  "recover env =
     bindS (getS (read_journal env)) (\<lambda>jo.
     case jo of
       None \<Rightarrow> returnS Nothing_Pending
     | Some j \<Rightarrow>
         if jn_phase j = Committed then bindS unlink_journal (\<lambda>_. returnS Already_Committed) else recover_pending env j)"

section \<open>Rolling back\<close>

record rollback_target =
  rt_id :: string
  rt_relative :: "string list"
  rt_current :: ident
  rt_restore :: ident
  rt_digest :: "string option"

text \<open>\<open>_current_identity\<close>, with the one digest that its callers trust.\<close>

definition current_identity :: "setup_env \<Rightarrow> string \<Rightarrow> string list \<Rightarrow> string option \<Rightarrow> setup_disk \<Rightarrow> trouble + ident" where
  "current_identity env k p trusted s =
     bindE (inspect_target p s) (\<lambda>i.
     case i of
       File_At st d \<Rightarrow>
         bindE (read_regular p i s) (\<lambda>c.
         let known = (if trusted = Some (te_sha env c) then [c] else []);
             admit = (\<lambda>t. admit_existing (te_sha env) (te_binding env) k c known t) in
         case admit trusted of
           Inr dg \<Rightarrow> Inr (File_At st (Some dg))
         | Inl (Broken b) \<Rightarrow> Inl (Broken b)
         | Inl (Refused n w) \<Rightarrow> bindE (admit None) (\<lambda>dg. Inr (File_At st (Some dg))))
     | _ \<Rightarrow> Inr i)"

text \<open>The catalog gives the component and the destination of a target.\<close>

definition preview_item ::
  "setup_env \<Rightarrow> (string \<Rightarrow> (string \<times> string list) option) \<Rightarrow> string \<Rightarrow> tstate \<Rightarrow> string \<times> backup \<Rightarrow> rollback_target cfg" where
  "preview_item env catalog component st e =
     (let k = fst e; b = snd e in
      case (catalog k, map_of (ts_targets st) k) of
        (Some (c, p), Some r) \<Rightarrow>
          bindS (ensureS (c = component) (Refused 2 ''invalid_backup_state'')) (\<lambda>_.
          bindS (getS (current_identity env k p (ident_digest (tr_after r)))) (\<lambda>i.
          bindS (ensureS (i = tr_after r) (Refused 4 ''rollback_target_drift'')) (\<lambda>_.
          bindS (getS (verified_backup env b)) (\<lambda>_.
          bindS (payload_there env (bk_prior_generated b)) (\<lambda>_.
          bindS (payload_there env (tr_generated r)) (\<lambda>_.
          returnS \<lparr>rt_id = k, rt_relative = p, rt_current = i, rt_restore = bk_before b, rt_digest = bk_digest b\<rparr>))))))
      | _ \<Rightarrow> raiseS (Refused 2 ''invalid_backup_state''))"

fun preview_items ::
  "setup_env \<Rightarrow> (string \<Rightarrow> (string \<times> string list) option) \<Rightarrow> string \<Rightarrow> tstate \<Rightarrow> (string \<times> backup) list \<Rightarrow> rollback_target list cfg" where
  "preview_items env catalog component st [] = returnS []"
| "preview_items env catalog component st (e # es) =
     bindS (preview_item env catalog component st e) (\<lambda>t. bindS (preview_items env catalog component st es) (\<lambda>ts. returnS (t # ts)))"

definition no_recovery_pending :: "setup_disk \<Rightarrow> trouble + unit" where
  "no_recovery_pending s = ensure (pv_journal s = None) (Refused 4 ''recovery_pending'')"

definition rollback_preview ::
  "setup_env \<Rightarrow> (string \<Rightarrow> (string \<times> string list) option) \<Rightarrow> (trouble + unit) \<Rightarrow> string \<Rightarrow> rollback_target list cfg" where
  "rollback_preview env catalog located component =
     bindS (getS no_recovery_pending) (\<lambda>_.
     bindS (if component = ''herdr'' then liftS located else returnS ()) (\<lambda>_.
     bindS (getS (read_state env)) (\<lambda>st.
     case map_of (ts_previous st) component of
       None \<Rightarrow> raiseS (Refused 4 ''no_previous_version'')
     | Some bs \<Rightarrow> if bs = [] then raiseS (Refused 4 ''no_previous_version'') else preview_items env catalog component st bs)))"

text \<open>Backing up what the rollback replaces: the items enter the journal one after the other.\<close>

definition rollback_backup :: "setup_env \<Rightarrow> string \<Rightarrow> tstate \<Rightarrow> rollback_target \<Rightarrow> backup cfg" where
  "rollback_backup env tid st t =
     (let b = (case map_of (ts_targets st) (rt_id t) of
            None \<Rightarrow> plain_backup (rt_current t)
          | Some r \<Rightarrow> (plain_backup (rt_current t))\<lparr>bk_managed := True, bk_prior_source := Some (tr_source r), bk_prior_generated := tr_generated r\<rparr>);
          path = backup_path env tid (rt_id t) in
      case rt_current t of
        File_At s d \<Rightarrow>
          bindS (getS (inspect_target (rt_relative t))) (\<lambda>i.
          bindS (getS (read_regular (rt_relative t) i)) (\<lambda>c.
          bindS (atomic_bytes path c) (\<lambda>_.
          let full = b\<lparr>bk_path := Some path, bk_digest := Some (te_sha env c)\<rparr> in
          bindS (getS (verified_backup env full)) (\<lambda>_. returnS full))))
      | _ \<Rightarrow> returnS b)"

definition rollback_item :: "string \<Rightarrow> rollback_target \<Rightarrow> backup \<Rightarrow> jitem" where
  "rollback_item component t b = \<lparr>ji_target = rt_id t, ji_component = component, ji_relative = rt_relative t,
     ji_before = rt_current t, ji_desired = rt_digest t,
     ji_mode = (case rt_restore t of File_At s d \<Rightarrow> Some (fs_mode s) | Link_At s l \<Rightarrow> Some (fs_mode s) | Absent \<Rightarrow> None),
     ji_backup = Some b, ji_intended = None, ji_after = None, ji_recovery = None,
     ji_expected = Some (rt_restore t), ji_stage = Stage_Pending, ji_generated = None\<rparr>"

definition rollback_keep :: "setup_env \<Rightarrow> string \<Rightarrow> string \<Rightarrow> tstate \<Rightarrow> rollback_target \<Rightarrow> unit cfg" where
  "rollback_keep env tid component st t =
     bindS (getS (current_identity env (rt_id t) (rt_relative t) (ident_digest (rt_current t)))) (\<lambda>i.
     bindS (ensureS (i = rt_current t) (Refused 4 ''rollback_target_drift'')) (\<lambda>_.
     bindS (rollback_backup env tid st t) (\<lambda>b.
     bindS (remember (\<lambda>j. j\<lparr>jn_items := jn_items j @ [rollback_item component t b]\<rparr>)) (\<lambda>_.
     write_journal))))"

definition rollback_prepare :: "setup_env \<Rightarrow> string \<Rightarrow> string \<Rightarrow> tstate \<Rightarrow> rollback_target list \<Rightarrow> unit cfg" where
  "rollback_prepare env tid component st ts =
     bindS (each (rollback_keep env tid component st) ts) (\<lambda>_. bindS (set_phase Backed_Up) (\<lambda>_. write_journal))"

text \<open>One target goes back: \<open>new_state\<close> follows its previous version.\<close>

definition target_before_change :: "string \<Rightarrow> string \<Rightarrow> ident \<Rightarrow> backup \<Rightarrow> tstate \<Rightarrow> tstate" where
  "target_before_change component k i b st =
     (if bk_managed b
      then with_target k \<lparr>tr_component = component, tr_after = i,
             tr_source = (case bk_prior_source b of None \<Rightarrow> '''' | Some x \<Rightarrow> x), tr_generated = bk_prior_generated b\<rparr> st
      else st\<lparr>ts_targets := filter (\<lambda>e. fst e \<noteq> k) (ts_targets st)\<rparr>)"

definition entry_target :: "string \<Rightarrow> bool" where
  "entry_target k \<longleftrightarrow> k = ''rotom-entry-binding''"

definition rollback_target_now :: "setup_env \<Rightarrow> string \<Rightarrow> (string \<times> backup) list \<Rightarrow> tstate \<Rightarrow> string \<Rightarrow> tstate cfg" where
  "rollback_target_now env component previous st k =
     bindS (the_item k) (\<lambda>r.
     bindS (getS (current_identity env k (ji_relative r) (ident_digest (ji_before r)))) (\<lambda>i.
     bindS (ensureS (i = ji_before r) (Refused 4 ''rollback_target_drift'')) (\<lambda>_.
     bindS (case map_of previous k of None \<Rightarrow> raiseS (Broken System) | Some b \<Rightarrow> returnS b) (\<lambda>b.
     bindS (if entry_target k then set_entry (Some (if bk_before b = Absent then ''possibly_removed'' else ''possibly_restored'')) else returnS ()) (\<lambda>_.
     bindS (restore_one env (ji_relative r) b (\<lambda>x. note_item k (\<lambda>r. r\<lparr>ji_intended := Some x\<rparr>)) i) (\<lambda>_.
     bindS (if entry_target k then set_entry (Some (if bk_before b = Absent then ''removed'' else ''restored'')) else returnS ()) (\<lambda>_.
     bindS (getS (current_identity env k (ji_relative r) (ident_digest (bk_before b)))) (\<lambda>after.
     bindS (note_item k (\<lambda>r. r\<lparr>ji_after := Some after, ji_stage := Stage_Verified\<rparr>)) (\<lambda>_.
     bindS (payload_there env (if bk_managed b then bk_prior_generated b else None)) (\<lambda>_.
     returnS (target_before_change component k after b st)))))))))))"

fun rollback_targets :: "setup_env \<Rightarrow> string \<Rightarrow> (string \<times> backup) list \<Rightarrow> tstate \<Rightarrow> string list \<Rightarrow> tstate cfg" where
  "rollback_targets env component previous st [] = returnS st"
| "rollback_targets env component previous st (k # ks) =
     bindS (rollback_target_now env component previous st k) (\<lambda>st'. rollback_targets env component previous st' ks)"

definition roll_back_all :: "setup_env \<Rightarrow> string \<Rightarrow> (string \<times> backup) list \<Rightarrow> tstate \<Rightarrow> tstate cfg" where
  "roll_back_all env component previous st =
     bindS (getS (\<lambda>s. Inr (rev (map ji_target (jn_items (me_journal s)))))) (\<lambda>ks.
     bindS (rollback_targets env component previous st ks) (\<lambda>st'.
     let new = st'\<lparr>ts_previous := filter (\<lambda>e. fst e \<noteq> component) (ts_previous st')\<rparr> in
     bindS (commit new) (\<lambda>_. returnS new)))"

record rollback_result =
  rr_component :: string
  rr_restored :: "string list"
  rr_id :: string
  rr_cleanup :: bool

definition rollback_approved :: "string \<Rightarrow> string option \<Rightarrow> bool option \<Rightarrow> trouble + unit" where
  "rollback_approved plan wanted confirmed =
     bindE (ensure (wanted = None \<or> wanted = Some plan) (Refused 2 ''plan_id_mismatch'')) (\<lambda>_.
     case confirmed of
       Some b \<Rightarrow> ensure b (Refused 4 ''confirmation_declined'')
     | None \<Rightarrow> ensure (wanted \<noteq> None) (Refused 2 ''plan_id_required''))"

definition rollback_commit ::
  "setup_env \<Rightarrow> string \<Rightarrow> (string \<times> backup) list \<Rightarrow> tstate \<Rightarrow> rollback_target list \<Rightarrow> string \<Rightarrow> string \<Rightarrow> rollback_result cfg" where
  "rollback_commit env component previous st ts plan tid =
     bindS private_dir (\<lambda>_.
     bindS (remember (\<lambda>_. \<lparr>jn_version = ts_version st, jn_kind = Rollback_Kind, jn_id = tid, jn_phase = Prepared_Phase,
       jn_plan = plan, jn_before = st, jn_items = []\<rparr>)) (\<lambda>_.
     bindS (set_entry None) (\<lambda>_.
     bindS write_journal (\<lambda>_.
     bindS (catching is_exception (rollback_prepare env tid component st ts) (undo_preparation env tid)) (\<lambda>_.
     bindS (set_phase Writing) (\<lambda>_.
     bindS write_journal (\<lambda>_.
     bindS (catching is_handled (roll_back_all env component previous st) (leave_recovery ''entry_transition_pending'')) (\<lambda>new.
     bindS (tidying (bindS (clean_old_backups env [(component, previous)] (ts_previous new)) (\<lambda>_. forget_backups env tid))) (\<lambda>c.
     returnS \<lparr>rr_component = component, rr_restored = map rt_id ts, rr_id = tid, rr_cleanup = c\<rparr>)))))))))"

text \<open>\<open>plan_of\<close> is the digest of the snapshot, \<open>confirm\<close> the answer of the user where one is asked.\<close>

definition rollback ::
  "setup_env \<Rightarrow> (string \<Rightarrow> (string \<times> string list) option) \<Rightarrow> (trouble + unit) \<Rightarrow> (string \<Rightarrow> tstate \<Rightarrow> rollback_target list \<Rightarrow> string) \<Rightarrow>
   string \<Rightarrow> string option \<Rightarrow> (string \<Rightarrow> bool) option \<Rightarrow> string \<Rightarrow> rollback_result cfg" where
  "rollback env catalog located plan_of component wanted confirm tid =
     bindS (rollback_preview env catalog located component) (\<lambda>ts.
     bindS (getS (read_state env)) (\<lambda>st.
     let plan = plan_of component st ts in
     bindS (liftS (rollback_approved plan wanted (case confirm of None \<Rightarrow> None | Some f \<Rightarrow> Some (f plan)))) (\<lambda>_.
     rollback_commit env component (case map_of (ts_previous st) component of None \<Rightarrow> [] | Some bs \<Rightarrow> bs) st ts plan tid)))"

end
