(* ===== verification/Triples.thy ===== *)
theory Triples
  imports Rotom_Prelude
begin

text \<open>
  Triples of a precondition, an operation and what holds after it, for the proofs about transactions
  that may break anywhere: the state after a failure has a postcondition of its own.
\<close>

text \<open>
  \<open>triple P m Q E\<close>: from a state with \<open>P\<close> the operation ends with \<open>Q\<close>, or it breaks, and then \<open>E\<close>
  holds of the state it leaves.
\<close>

definition triple :: "('s \<Rightarrow> bool) \<Rightarrow> ('s, 'e, 'a) io \<Rightarrow> ('a \<Rightarrow> 's \<Rightarrow> bool) \<Rightarrow> ('s \<Rightarrow> bool) \<Rightarrow> bool" where
  "triple P m Q E \<longleftrightarrow> (\<forall>s. P s \<longrightarrow> (case m s of (Inl e, t) \<Rightarrow> E t | (Inr x, t) \<Rightarrow> Q x t))"

lemma tripleI:
  assumes "\<And>s e t. P s \<Longrightarrow> m s = (Inl e, t) \<Longrightarrow> E t" "\<And>s x t. P s \<Longrightarrow> m s = (Inr x, t) \<Longrightarrow> Q x t"
  shows "triple P m Q E"
  using assms by (auto simp: triple_def split: prod.splits sum.splits)

lemma triple_Inl: "triple P m Q E \<Longrightarrow> P s \<Longrightarrow> m s = (Inl e, t) \<Longrightarrow> E t"
  by (auto simp: triple_def)

lemma triple_Inr: "triple P m Q E \<Longrightarrow> P s \<Longrightarrow> m s = (Inr x, t) \<Longrightarrow> Q x t"
  by (auto simp: triple_def)

lemma triple_bind:
  assumes "triple P m R E" "\<And>x. triple (R x) (k x) Q E"
  shows "triple P (bindS m k) Q E"
  unfolding triple_def
proof (intro allI impI)
  fix s assume "P s"
  obtain r u where m: "m s = (r, u)" by (cases "m s")
  show "case bindS m k s of (Inl e, t) \<Rightarrow> E t | (Inr x, t) \<Rightarrow> Q x t"
  proof (cases r)
    case (Inl e)
    with m triple_Inl [OF assms(1) \<open>P s\<close>] show ?thesis by (simp add: bindS_def)
  next
    case (Inr x)
    with m triple_Inr [OF assms(1) \<open>P s\<close>] have "R x u" by simp
    with assms(2) [of x] m Inr show ?thesis by (simp add: bindS_def triple_def)
  qed
qed

lemma triple_weaken:
  assumes "triple P m Q E" "\<And>s. P' s \<Longrightarrow> P s" "\<And>x s. Q x s \<Longrightarrow> Q' x s" "\<And>s. E s \<Longrightarrow> E' s"
  shows "triple P' m Q' E'"
  by (rule tripleI) (blast intro: assms(2-4) triple_Inl [OF assms(1)] triple_Inr [OF assms(1)])+

lemma triple_pre: "triple P m Q E \<Longrightarrow> (\<And>s. P' s \<Longrightarrow> P s) \<Longrightarrow> triple P' m Q E"
  by (rule triple_weaken)

lemma triple_post: "triple P m Q E \<Longrightarrow> (\<And>x s. Q x s \<Longrightarrow> Q' x s) \<Longrightarrow> triple P m Q' E"
  by (rule triple_weaken)

lemma triple_return: "(\<And>s. P s \<Longrightarrow> Q x s) \<Longrightarrow> triple P (returnS x) Q E"
  by (simp add: triple_def returnS_def)

lemma triple_raise: "(\<And>s. P s \<Longrightarrow> E s) \<Longrightarrow> triple P (raiseS e) Q E"
  by (simp add: triple_def raiseS_def)

lemma triple_get:
  "(\<And>s. P s \<Longrightarrow> E s) \<Longrightarrow> (\<And>s x. P s \<Longrightarrow> f s = Inr x \<Longrightarrow> Q x s) \<Longrightarrow> triple P (getS f) Q E"
  by (auto simp: triple_def getS_def split: sum.splits)

lemma triple_lift:
  "(\<And>s. P s \<Longrightarrow> E s) \<Longrightarrow> (\<And>s x. P s \<Longrightarrow> r = Inr x \<Longrightarrow> Q x s) \<Longrightarrow> triple P (liftS r) Q E"
  by (auto simp: triple_def liftS_def split: sum.splits)

lemma triple_ensure:
  "(\<And>s. P s \<Longrightarrow> E s) \<Longrightarrow> (\<And>s. P s \<Longrightarrow> b \<Longrightarrow> Q () s) \<Longrightarrow> triple P (ensureS b e) Q E"
  by (auto simp: triple_def ensureS_def ensure_def)

lemma triple_if: "(c \<Longrightarrow> triple P m Q E) \<Longrightarrow> (\<not> c \<Longrightarrow> triple P n Q E) \<Longrightarrow> triple P (if c then m else n) Q E"
  by simp

lemma triple_given:
  assumes "\<And>v. triple (\<lambda>s. P s \<and> f s = v) m Q E"
  shows "triple P m Q E"
proof (rule tripleI)
  fix s e t assume "P s" "m s = (Inl e, t)"
  with triple_Inl [OF assms [of "f s"]] show "E t" by blast
next
  fix s x t assume "P s" "m s = (Inr x, t)"
  with triple_Inr [OF assms [of "f s"]] show "Q x t" by blast
qed

lemma triple_fact:
  assumes "A \<Longrightarrow> triple P m Q E" "\<And>s. P s \<Longrightarrow> A"
  shows "triple P m Q E"
proof (cases A)
  case True
  then show ?thesis by (rule assms(1))
next
  case False
  with assms(2) show ?thesis by (auto simp: triple_def)
qed

end
