(* ===== verification/Config_Invariant.thy ===== *)
theory Config_Invariant
  imports Config_Transaction Triples
begin

text \<open>
  What a journal guarantees while a configuration transaction is under way. For every item of the
  journal either its target was not touched, or the journal holds the identity that the target was
  to get and a faithful backup, and the target is as it was, or has that identity, or looks again as
  it did before. The invariant is stated for the nodes, the clock and the private files, so that it
  can be kept for the journal on disk and for the one in memory at the same time.
\<close>

section \<open>Triples of the operations on the journal\<close>

lemma triple_remember:
  "(\<And>s. P s \<Longrightarrow> Q () (s\<lparr>me_journal := f (me_journal s)\<rparr>)) \<Longrightarrow> triple P (remember f) Q E"
  by (auto simp: triple_def remember_def)

lemma triple_entry: "(\<And>s. P s \<Longrightarrow> Q () (s\<lparr>me_entry := e\<rparr>)) \<Longrightarrow> triple P (set_entry e) Q E"
  by (auto simp: triple_def set_entry_def)

lemma triple_effect:
  assumes "\<And>s g. P s \<Longrightarrow> g = s\<lparr>ho_fates := tl (ho_fates s)\<rparr> \<Longrightarrow> E g \<and> E (f g) \<and> Q () (f g)"
  shows "triple P (effect f) Q E"
  unfolding triple_def
proof (intro allI impI)
  fix s assume "P s"
  from assms [OF this refl]
  show "case effect f s of (Inl e, t) \<Rightarrow> E t | (Inr x, t) \<Rightarrow> Q x t"
    by (simp add: effect_def Let_def split: list.split fate.split) auto
qed

lemma triple_catching:
  assumes "triple P m Q R" "\<And>t. triple R (h t) Q E" "\<And>s. R s \<Longrightarrow> E s"
  shows "triple P (catching f m h) Q E"
  unfolding triple_def
proof (intro allI impI)
  fix s assume "P s"
  obtain r u where m: "m s = (r, u)" by (cases "m s")
  show "case catching f m h s of (Inl e, t) \<Rightarrow> E t | (Inr x, t) \<Rightarrow> Q x t"
  proof (cases r)
    case (Inl e)
    with m triple_Inl [OF assms(1) \<open>P s\<close>] have "R u" by simp
    with assms(2) [of e] assms(3) m Inl show ?thesis by (simp add: catching_def triple_def)
  next
    case (Inr x)
    with m triple_Inr [OF assms(1) \<open>P s\<close>] show ?thesis by (simp add: catching_def)
  qed
qed

lemma triple_in_target:
  assumes "triple P m Q E"
  shows "triple P (in_target m) Q E"
  unfolding triple_def
proof (intro allI impI)
  fix s assume "P s"
  obtain r u where m: "m s = (r, u)" by (cases "m s")
  with triple_Inl [OF assms \<open>P s\<close>] triple_Inr [OF assms \<open>P s\<close>]
  show "case in_target m s of (Inl e, t) \<Rightarrow> E t | (Inr x, t) \<Rightarrow> Q x t"
    by (cases r) (auto simp: in_target_def mapErrorS_def)
qed

lemma triple_each:
  "(\<And>x. x \<in> set xs \<Longrightarrow> triple P (f x) (\<lambda>_. P) E) \<Longrightarrow> triple P (each f xs) (\<lambda>_. P) E"
  by (induction xs) (auto intro!: triple_return triple_bind [where R = "\<lambda>_. P"])

section \<open>The transaction\<close>

text \<open>The home before the transaction, its clock, and the paths of the targets.\<close>

record txn =
  tx_sha :: "string \<Rightarrow> string"
  tx_home :: "string list \<Rightarrow> node option"
  tx_clock :: nat
  tx_paths :: "string list list"

definition is_folder :: "node option \<Rightarrow> bool" where
  "is_folder n \<longleftrightarrow> (case n of Some (Folder u m) \<Rightarrow> True | _ \<Rightarrow> False)"

definition tree :: "(string list \<Rightarrow> node option) \<Rightarrow> bool" where
  "tree N \<longleftrightarrow> (\<forall>p x. N (p @ [x]) \<noteq> None \<and> p \<noteq> [] \<longrightarrow> is_folder (N p))"

fun node_ino :: "node option \<Rightarrow> nat option" where
  "node_ino (Some (Regular s c k)) = Some (fs_ino s)"
| "node_ino (Some (Symbolic s l)) = Some (fs_ino s)"
| "node_ino _ = None"

fun ino :: "ident \<Rightarrow> nat option" where
  "ino Absent = None"
| "ino (File_At s d) = Some (fs_ino s)"
| "ino (Link_At s l) = Some (fs_ino s)"

definition apart :: "string list list \<Rightarrow> bool" where
  "apart ps \<longleftrightarrow> distinct ps \<and> (\<forall>p\<in>set ps. p \<noteq> [] \<and> (\<forall>q\<in>set ps. \<forall>x xs. q \<noteq> p @ x # xs))"

definition txn_ok :: "txn \<Rightarrow> bool" where
  "txn_ok X \<longleftrightarrow> apart (tx_paths X) \<and> tree (tx_home X) \<and> (\<forall>p n. node_ino (tx_home X p) = Some n \<longrightarrow> n < tx_clock X)"

fun matches :: "(string \<Rightarrow> string) \<Rightarrow> ident \<Rightarrow> node option \<Rightarrow> bool" where
  "matches sha Absent n = (n = None)"
| "matches sha (File_At s d) (Some (Regular t c k)) = (s = t \<and> d = Some (sha c))"
| "matches sha (Link_At s l) (Some (Symbolic t m)) = (s = t \<and> l = m)"
| "matches sha _ _ = False"

fun look :: "node \<Rightarrow> node \<Rightarrow> bool" where
  "look (Regular s c k) (Regular t d l) = (c = d \<and> fs_mode s = fs_mode t)"
| "look (Symbolic s l) (Symbolic t m) = (l = m)"
| "look m n = (m = n)"

text \<open>Same content and mode, or same link, up to the stamp.\<close>

definition same_look :: "node option \<Rightarrow> node option \<Rightarrow> bool" where
  "same_look m n \<longleftrightarrow> m = n \<or> (case (m, n) of (Some x, Some y) \<Rightarrow> look x y | _ \<Rightarrow> False)"

definition kept_for :: "(string \<Rightarrow> private_file option) \<Rightarrow> backup \<Rightarrow> node option \<Rightarrow> bool" where
  "kept_for F b n \<longleftrightarrow>
     (case (bk_before b, n) of
        (File_At s d, Some (Regular t c k)) \<Rightarrow> s = t \<and> (\<exists>q f. bk_path b = Some q \<and> F q = Some f \<and> pf_content f = c)
      | (File_At s d, _) \<Rightarrow> False
      | _ \<Rightarrow> True)"

definition backup_kept :: "txn \<Rightarrow> (string \<Rightarrow> private_file option) \<Rightarrow> jitem \<Rightarrow> backup \<Rightarrow> bool" where
  "backup_kept X F r b \<longleftrightarrow> bk_before b = ji_before r \<and> kept_for F b (tx_home X (ji_relative r))"

definition later :: "nat \<Rightarrow> nat \<Rightarrow> ident \<Rightarrow> bool" where
  "later a b i \<longleftrightarrow> (\<forall>n. ino i = Some n \<longrightarrow> a \<le> n \<and> n < b)"

text \<open>A target that the transaction did not get to yet.\<close>

definition untouched :: "txn \<Rightarrow> (string \<Rightarrow> private_file option) \<Rightarrow> node option \<Rightarrow> jitem \<Rightarrow> bool" where
  "untouched X F n r \<longleftrightarrow>
     n = tx_home X (ji_relative r) \<and> ji_intended r = None \<and> ji_after r = None \<and> ji_recovery r = None \<and>
     (ji_expected r = None \<or> matches (tx_sha X) (ji_before r) n) \<and>
     (\<forall>b. ji_backup r = Some b \<longrightarrow> backup_kept X F r b)"

text \<open>What a later identity of the recovery must satisfy, with the identity \<open>i\<close> of the change.\<close>

definition newer :: "txn \<Rightarrow> nat \<Rightarrow> string list \<Rightarrow> ident \<Rightarrow> ident \<Rightarrow> bool" where
  "newer X C p i x \<longleftrightarrow> later (tx_clock X) C x \<and> (x = Absent \<longrightarrow> tx_home X p = None) \<and>
     (\<forall>a b. ino i = Some a \<longrightarrow> ino x = Some b \<longrightarrow> a < b)"

definition active :: "txn \<Rightarrow> (string \<Rightarrow> private_file option) \<Rightarrow> node option \<Rightarrow> nat \<Rightarrow> jitem \<Rightarrow> bool" where
  "active X F n C r \<longleftrightarrow>
     matches (tx_sha X) (ji_before r) (tx_home X (ji_relative r)) \<and>
     (\<exists>b. ji_backup r = Some b \<and> backup_kept X F r b) \<and>
     (\<exists>i. ji_intended r = Some i \<and> later (tx_clock X) C i \<and> ji_after r \<in> {None, Some i} \<and>
       (\<forall>x. ji_recovery r = Some x \<longrightarrow> newer X C (ji_relative r) i x) \<and>
       (n = tx_home X (ji_relative r) \<or> matches (tx_sha X) i n \<or>
        (\<exists>x. ji_recovery r = Some x \<and> matches (tx_sha X) x n \<and> same_look (tx_home X (ji_relative r)) n)))"

definition item_ok :: "txn \<Rightarrow> (string \<Rightarrow> private_file option) \<Rightarrow> node option \<Rightarrow> nat \<Rightarrow> jitem \<Rightarrow> bool" where
  "item_ok X F n C r \<longleftrightarrow> untouched X F n r \<or> active X F n C r"

definition journal_kept ::
  "txn \<Rightarrow> (string \<Rightarrow> private_file option) \<Rightarrow> (string list \<Rightarrow> node option) \<Rightarrow> nat \<Rightarrow> journal \<Rightarrow> bool" where
  "journal_kept X F N C j \<longleftrightarrow>
     distinct (map ji_target (jn_items j)) \<and> distinct (map ji_relative (jn_items j)) \<and>
     set (map ji_relative (jn_items j)) \<subseteq> set (tx_paths X) \<and>
     (\<forall>p\<in>set (tx_paths X) - set (map ji_relative (jn_items j)). N p = tx_home X p) \<and>
     (\<forall>r\<in>set (jn_items j). item_ok X F (N (ji_relative r)) C r)"

text \<open>Outside the targets only folders on the way to a target were added.\<close>

definition around :: "txn \<Rightarrow> (string list \<Rightarrow> node option) \<Rightarrow> bool" where
  "around X N \<longleftrightarrow> tree N \<and>
     (\<forall>q. q \<notin> set (tx_paths X) \<longrightarrow> N q = tx_home X q \<or>
        tx_home X q = None \<and> is_folder (N q) \<and> (\<exists>p\<in>set (tx_paths X). \<exists>x xs. p = q @ x # xs))"

definition all_back :: "txn \<Rightarrow> (string list \<Rightarrow> node option) \<Rightarrow> bool" where
  "all_back X N \<longleftrightarrow> (\<forall>p\<in>set (tx_paths X). same_look (tx_home X p) (N p))"

text \<open>\<open>A\<close> is what the transaction achieves for the nodes when it succeeds.\<close>

definition disk_safe :: "txn \<Rightarrow> ((string list \<Rightarrow> node option) \<Rightarrow> bool) \<Rightarrow> setup_disk \<Rightarrow> bool" where
  "disk_safe X A s \<longleftrightarrow> around X (node_at s) \<and> tx_clock X \<le> ho_clock s \<and>
     (case pv_journal s of
        None \<Rightarrow> all_back X (node_at s) \<or> A (node_at s)
      | Some j \<Rightarrow> if jn_phase j = Committed then A (node_at s)
                  else journal_kept X (map_of (pv_files s)) (node_at s) (ho_clock s) j)"

definition writing :: "txn \<Rightarrow> setup_disk \<Rightarrow> bool" where
  "writing X s \<longleftrightarrow> around X (node_at s) \<and> tx_clock X \<le> ho_clock s \<and> jn_phase (me_journal s) \<noteq> Committed \<and>
     journal_kept X (map_of (pv_files s)) (node_at s) (ho_clock s) (me_journal s) \<and>
     (\<exists>j. pv_journal s = Some j \<and> jn_phase j \<noteq> Committed \<and>
       journal_kept X (map_of (pv_files s)) (node_at s) (ho_clock s) j)"

lemma writing_disk_safe: "writing X s \<Longrightarrow> disk_safe X A s"
  by (auto simp: writing_def disk_safe_def)

section \<open>What identities tell\<close>

lemma folder_there: "is_folder n \<Longrightarrow> n \<noteq> None"
  by (cases n) (auto simp: is_folder_def)

lemma tree_step: "tree N \<Longrightarrow> N (p @ [x]) \<noteq> None \<Longrightarrow> p \<noteq> [] \<Longrightarrow> is_folder (N p)"
  unfolding tree_def by blast

lemma tree_ancestor:
  assumes "tree N" "N (p @ q) \<noteq> None" "p \<noteq> []" "q \<noteq> []"
  shows "is_folder (N p)"
  using assms(2,4)
proof (induction q rule: rev_induct)
  case (snoc x xs)
  show ?case
  proof (cases "xs = []")
    case True
    with snoc.prems tree_step [OF assms(1), of p x] assms(3) show ?thesis by simp
  next
    case False
    have "N ((p @ xs) @ [x]) \<noteq> None" using snoc.prems by simp
    from tree_step [OF assms(1) this] assms(3) have "is_folder (N (p @ xs))" by simp
    then have "N (p @ xs) \<noteq> None" by (rule folder_there)
    with snoc.IH False show ?thesis by blast
  qed
qed simp

lemma tree_absent:
  assumes "tree N" "N p = None" "p \<noteq> []"
  shows "N (p @ q) = None"
proof (cases "q = []")
  case False
  show ?thesis
  proof (rule ccontr)
    assume "N (p @ q) \<noteq> None"
    from folder_there [OF tree_ancestor [OF assms(1) this assms(3) False]] assms(2) show False by simp
  qed
qed (use assms in simp)

lemma parents_missing:
  assumes "tree (node_at s)" "parents_there s base xs = Inr False"
  shows "node_at s (base @ xs @ [y]) = None"
  using assms(2)
proof (induction xs arbitrary: base)
  case (Cons x xs)
  show ?case
  proof (cases "node_at s (base @ [x])")
    case None
    from tree_absent [OF assms(1) None, of "xs @ [y]"] show ?thesis by simp
  next
    case (Some n)
    with Cons.prems have "parents_there s (base @ [x]) xs = Inr False" by (cases n) (auto split: if_splits)
    from Cons.IH [OF this] show ?thesis by simp
  qed
qed simp

lemma node_ident_node:
  "node_ident u n = Inr i \<Longrightarrow> still_expected i n \<and> ident_digest i = None"
  by (cases "(u, n)" rule: node_ident.cases) (auto split: if_splits)

lemma inspect_node:
  assumes "tree (node_at s)" "inspect_target p s = Inr i"
  shows "still_expected i (node_at s p) \<and> ident_digest i = None"
proof -
  from assms(2) obtain there where p: "relative_parts p" and there: "parents_there s [] (butlast p) = Inr there"
    and i: "(if there then node_ident (ho_user s) (node_at s p) else Inr Absent) = Inr i"
    by (auto simp: inspect_target_def bindE_eq_Inr ensure_eq_Inr)
  show ?thesis
  proof (cases there)
    case True
    with i node_ident_node show ?thesis by auto
  next
    case False
    from p have "p = butlast p @ [last p]" by (auto simp: relative_parts_def)
    moreover from parents_missing [OF assms(1), of "[]" "butlast p" "last p"] there False
    have "node_at s (butlast p @ [last p]) = None" by simp
    ultimately have "node_at s p = None" by simp
    with i False show ?thesis by auto
  qed
qed

lemma read_regular_node: "read_regular p i s = Inr c \<Longrightarrow> \<exists>st t d. i = File_At st d \<and> node_at s p = Some (Regular t c 1)"
  by (auto simp: read_regular_def split: ident.splits option.splits node.splits if_splits)

lemma admit_existing_digest: "admit_existing sha kb k c known d = Inr x \<Longrightarrow> x = sha c"
  by (auto simp: admit_existing_def bindE_eq_Inr split: if_splits)

lemma identity_with_digest_matches:
  assumes "tree (node_at s)" "identity_with_digest env t s = Inr i"
  shows "matches (te_sha env) i (node_at s (ar_destination (pt_artifact t)))"
proof -
  let ?p = "ar_destination (pt_artifact t)"
  from assms(2) obtain w where w: "inspect_target ?p s = Inr w" by (auto simp: identity_with_digest_def Let_def bindE_eq_Inr)
  from inspect_node [OF assms(1) w] have n: "still_expected w (node_at s ?p)" by simp
  show ?thesis
  proof (cases w)
    case (File_At st d)
    with assms(2) w obtain c b dg where c: "read_regular ?p w s = Inr c"
      and dg: "admit_existing (te_sha env) (te_binding env) (ar_id (pt_artifact t)) c [b] (ident_digest (pt_before t)) = Inr dg"
      and i: "i = File_At st (Some dg)"
      by (auto simp: identity_with_digest_def Let_def bindE_eq_Inr)
    from read_regular_node [OF c] n File_At i admit_existing_digest [OF dg] show ?thesis by auto
  next
    case Absent
    with assms(2) w n show ?thesis by (auto simp: identity_with_digest_def Let_def)
  next
    case (Link_At st l)
    with assms(2) w n show ?thesis
      by (cases "node_at s ?p") (auto simp: identity_with_digest_def Let_def elim: still_expected.elims)
  qed
qed

lemma current_identity_matches:
  assumes "tree (node_at s)" "current_identity env k p trusted s = Inr i"
  shows "matches (te_sha env) i (node_at s p)"
proof -
  from assms(2) obtain w where w: "inspect_target p s = Inr w" by (auto simp: current_identity_def bindE_eq_Inr)
  from inspect_node [OF assms(1) w] have n: "still_expected w (node_at s p)" by simp
  show ?thesis
  proof (cases w)
    case (File_At st d)
    let ?admit = "\<lambda>c. admit_existing (te_sha env) (te_binding env) k c (if trusted = Some (te_sha env c) then [c] else [])"
    from assms(2) w File_At obtain c where c: "read_regular p w s = Inr c"
      and rest: "(case ?admit c trusted of Inr dg \<Rightarrow> Inr (File_At st (Some dg)) | Inl (Broken b) \<Rightarrow> Inl (Broken b)
        | Inl (Refused n w) \<Rightarrow> bindE (?admit c None) (\<lambda>dg. Inr (File_At st (Some dg)))) = Inr i"
      by (auto simp: current_identity_def Let_def bindE_eq_Inr)
    have "\<exists>t dg. ?admit c t = Inr dg \<and> i = File_At st (Some dg)"
    proof (cases "?admit c trusted")
      case (Inl e)
      with rest show ?thesis by (cases e) (auto simp: bindE_eq_Inr)
    qed (use rest in auto)
    then obtain t dg where dg: "?admit c t = Inr dg" and i: "i = File_At st (Some dg)" by blast
    from read_regular_node [OF c] n File_At i admit_existing_digest [OF dg] show ?thesis by auto
  next
    case Absent
    with assms(2) w n show ?thesis by (auto simp: current_identity_def)
  next
    case (Link_At st l)
    with assms(2) w n show ?thesis
      by (cases "node_at s p") (auto simp: current_identity_def elim: still_expected.elims)
  qed
qed

text \<open>\<open>_recovery_identity\<close> returns a recorded identity that the target has, or \<open>Absent\<close> for a missing target.\<close>

lemma same_but_digest_node: "same_but_digest i j \<Longrightarrow> still_expected j n \<Longrightarrow> still_expected i n"
  by (cases "(i, j)" rule: same_but_digest.cases; cases "(j, n)" rule: still_expected.cases) auto

lemma same_but_digest_eq: "same_but_digest i j \<Longrightarrow> (\<And>s d. j \<noteq> File_At s d) \<Longrightarrow> i = j"
  by (cases "(i, j)" rule: same_but_digest.cases) auto

lemma matches_same_but_digest: "matches sha i n \<Longrightarrow> still_expected j n \<Longrightarrow> same_but_digest i j"
  by (cases "(sha, i, n)" rule: matches.cases; cases "(j, n)" rule: still_expected.cases) auto

lemma matches_expected: "matches sha i n \<Longrightarrow> still_expected i n"
  by (cases "(sha, i, n)" rule: matches.cases) auto

lemma recovery_identity_known:
  assumes "tree (node_at s)" "recovery_identity env r s = Inr y" "n = node_at s (ji_relative r)"
  shows "y \<in> set (known_idents r) \<and> matches (te_sha env) y n \<and> (matches (te_sha env) (ji_before r) n \<longrightarrow> y = ji_before r) \<or>
    ji_expected r = Some Absent \<and> (\<forall>z\<in>set (known_idents r). \<not> matches (te_sha env) z n)"
proof -
  from assms(2) obtain now where now: "inspect_target (ji_relative r) s = Inr now"
    by (auto simp: recovery_identity_def bindE_eq_Inr)
  from inspect_node [OF assms(1) now] assms(3) have n: "still_expected now n" by simp
  define fit where "fit = filter (\<lambda>i. same_but_digest i now) (known_idents r)"
  define other :: "trouble + ident" where
    "other = (if now = Absent \<and> ji_expected r = Some Absent then Inr Absent else Inl (Refused 4 ''recovery_target_drift''))"
  from assms(2) now have y: "(case fit of [] \<Rightarrow> other | i # _ \<Rightarrow>
      (case now of File_At st d \<Rightarrow> bindE (read_regular (ji_relative r) now s) (\<lambda>c.
          case find (\<lambda>i. ident_digest i = Some (te_sha env c)) fit of None \<Rightarrow> other | Some x \<Rightarrow> Inr x)
        | _ \<Rightarrow> Inr i)) = Inr y"
    unfolding fit_def other_def by (auto simp: recovery_identity_def bindE_eq_Inr Let_def)
  have in_fit: "z \<in> set fit" if "z \<in> set (known_idents r)" "matches (te_sha env) z n" for z
    using that matches_same_but_digest [OF _ n] by (simp add: fit_def)
  have first: "fit = ji_before r # tl fit" if "matches (te_sha env) (ji_before r) n"
    using matches_same_but_digest [OF that n] by (simp add: fit_def known_idents_def)
  show ?thesis
  proof (cases fit)
    case Nil
    with y have "ji_expected r = Some Absent" by (auto simp: other_def split: if_splits)
    with in_fit Nil show ?thesis by auto
  next
    case (Cons i rest)
    then have i: "i \<in> set fit" by simp
    then have si: "same_but_digest i now" "i \<in> set (known_idents r)" by (auto simp: fit_def)
    show ?thesis
    proof (cases "\<exists>st d. now = File_At st d")
      case False
      with y Cons have "y = i" by (auto split: ident.splits)
      moreover from same_but_digest_eq [OF si(1)] False have "i = now" by blast
      moreover have "matches (te_sha env) now n"
        using n False by (cases "(now, n)" rule: still_expected.cases) auto
      moreover have "matches (te_sha env) (ji_before r) n \<longrightarrow> i = ji_before r" using first Cons by auto
      ultimately show ?thesis using si(2) by auto
    next
      case True
      then obtain st d where f: "now = File_At st d" by blast
      with y Cons obtain c where c: "read_regular (ji_relative r) now s = Inr c"
        and yc: "(case find (\<lambda>i. ident_digest i = Some (te_sha env c)) fit of None \<Rightarrow> other | Some x \<Rightarrow> Inr x) = Inr y"
        by (auto simp: bindE_eq_Inr)
      from read_regular_node [OF c] n f assms(3) have node: "n = Some (Regular st c 1)" by auto
      have oth: "other = Inl (Refused 4 ''recovery_target_drift'')" using f by (simp add: other_def)
      with yc have found: "find (\<lambda>i. ident_digest i = Some (te_sha env c)) fit = Some y" by (auto split: option.splits)
      then have yf: "y \<in> set fit" "ident_digest y = Some (te_sha env c)" by (auto simp: find_Some_iff)
      then have "y \<in> set (known_idents r)" "same_but_digest y now" by (auto simp: fit_def)
      moreover from yf(2) this(2) f node have "matches (te_sha env) y n" by (cases y) auto
      moreover have "y = ji_before r" if m: "matches (te_sha env) (ji_before r) n"
      proof -
        from m node have "ident_digest (ji_before r) = Some (te_sha env c)" by (cases "ji_before r") auto
        moreover obtain rest where "fit = ji_before r # rest" using first [OF m] by blast
        ultimately show ?thesis using found by simp
      qed
      ultimately show ?thesis by blast
    qed
  qed
qed

lemma matches_ino: "matches sha i n \<Longrightarrow> node_ino n = ino i \<or> i = Absent \<and> n = None"
  by (cases "(sha, i, n)" rule: matches.cases) auto

lemma matches_there: "matches sha i (Some m) \<Longrightarrow> \<exists>a. node_ino (Some m) = Some a \<and> ino i = Some a"
  by (cases "(sha, i, Some m)" rule: matches.cases) auto

text \<open>The recovery skips a target that looks as before; any other one still has the identity of the change.\<close>

lemma item_recovery:
  assumes X: "txn_ok X" "tx_sha X = te_sha env" and ok: "item_ok X F n C r"
    and s: "tree (node_at s)" "n = node_at s (ji_relative r)" and y: "recovery_identity env r s = Inr y"
  shows "if y = ji_before r \<or> Some y = ji_recovery r then same_look (tx_home X (ji_relative r)) n
    else active X F n C r \<and> ji_intended r = Some y \<and> matches (te_sha env) y n"
proof -
  note known = recovery_identity_known [OF s(1) y s(2)]
  consider (A) "untouched X F n r" | (B) "active X F n C r" using ok by (auto simp: item_ok_def)
  then show ?thesis
  proof cases
    case A
    then have k: "known_idents r = [ji_before r]" by (simp add: untouched_def known_idents_def)
    from A have "ji_expected r = None \<or> matches (te_sha env) (ji_before r) n" using X(2) by (auto simp: untouched_def)
    with known k have "y = ji_before r" by auto
    with A show ?thesis by (simp add: untouched_def same_look_def)
  next
    case B
    let ?o = "tx_home X (ji_relative r)"
    from B obtain i where i: "ji_intended r = Some i" "later (tx_clock X) C i" "ji_after r \<in> {None, Some i}"
      "\<And>x. ji_recovery r = Some x \<Longrightarrow> newer X C (ji_relative r) i x"
      and n: "n = ?o \<or> matches (te_sha env) i n \<or> (\<exists>x. ji_recovery r = Some x \<and> matches (te_sha env) x n \<and> same_look ?o n)"
      unfolding active_def X(2) by blast
    from B have before: "matches (te_sha env) (ji_before r) ?o" by (simp add: active_def X(2))
    have known_set: "set (known_idents r) \<subseteq> {ji_before r, i} \<union> {x. ji_recovery r = Some x}"
      using i(1,3) by (auto simp: known_idents_def split: option.splits)
    have old: "node_ino ?o = Some a \<Longrightarrow> a < tx_clock X" for a using X(1) by (auto simp: txn_ok_def)
    show ?thesis
    proof (cases "n = ?o")
      case True
      with before known have "y = ji_before r" by (auto simp: known_idents_def)
      with True show ?thesis by (simp add: same_look_def)
    next
      case changed: False
      have any: "\<exists>z\<in>set (known_idents r). matches (te_sha env) z n"
        using n changed i(1) by (auto simp: known_idents_def)
      with known have yk: "y \<in> set (known_idents r)" "matches (te_sha env) y n" by auto
      show ?thesis
      proof (cases "y = ji_before r \<or> Some y = ji_recovery r")
        case False
        with yk(1) known_set have "y = i" by auto
        with False B yk(2) i(1) show ?thesis by simp
      next
        case stay: True
        have "same_look ?o n"
        proof (rule ccontr)
          assume no: "\<not> same_look ?o n"
          with n changed have mi: "matches (te_sha env) i n" by blast
          show False
          proof (cases n)
            case None
            with yk(2) have "y = Absent" by (cases y) auto
            from stay show False
            proof
              assume "y = ji_before r"
              with before \<open>y = Absent\<close> None changed show False by simp
            next
              assume "Some y = ji_recovery r"
              with i(4) [of Absent] \<open>y = Absent\<close> None changed show False by (simp add: newer_def)
            qed
          next
            case (Some m)
            with matches_there [of _ i m] matches_there [of _ y m] mi yk(2) obtain a
              where a: "ino i = Some a" "ino y = Some a" "node_ino n = Some a" by force
            from i(2) a(1) have ge: "tx_clock X \<le> a" by (auto simp: later_def)
            show False
            proof (cases "y = ji_before r")
              case True
              with before a(2) have "node_ino ?o = Some a" using matches_ino [OF before] by auto
              from old [OF this] ge show False by simp
            next
              case False
              with stay have "ji_recovery r = Some y" by simp
              from i(4) [OF this] a show False by (auto simp: newer_def)
            qed
          qed
        qed
        with stay show ?thesis by simp
      qed
    qed
  qed
qed

section \<open>How the invariant moves\<close>

lemma map_of_filter_other: "map_of (filter (\<lambda>e. fst e \<noteq> p) xs) q = (if q = p then None else map_of xs q)"
  by (induction xs) auto

lemma find_own: "distinct (map f xs) \<Longrightarrow> r \<in> set xs \<Longrightarrow> find (\<lambda>x. f x = f r) xs = Some r"
  by (induction xs) (auto simp: image_iff)

lemma node_at_put [simp]: "node_at (put_node p n h) = (node_at h)(p := Some n)"
  by (rule ext) (simp add: node_at_def put_node_def map_of_filter_other)

lemma node_at_drop [simp]: "node_at (drop_node p h) = (node_at h)(p := None)"
  by (rule ext) (simp add: node_at_def drop_node_def map_of_filter_other)

lemma node_at_rest [simp]:
  "node_at (h\<lparr>ho_fates := fs\<rparr>) = node_at h" "node_at (h\<lparr>ho_clock := c\<rparr>) = node_at h"
  by (rule ext, simp add: node_at_def)+

lemma node_at_private [simp]:
  "node_at (s\<lparr>pv_journal := a\<rparr>) = node_at s" "node_at (s\<lparr>pv_state := b\<rparr>) = node_at s" "node_at (s\<lparr>pv_files := c\<rparr>) = node_at s"
  "node_at (s\<lparr>me_journal := d\<rparr>) = node_at s" "node_at (s\<lparr>me_entry := e\<rparr>) = node_at s"
  by (rule ext, simp add: node_at_def)+

lemma put_node_rest [simp]:
  "ho_clock (put_node p n s) = ho_clock s" "pv_files (put_node p n s) = pv_files s" "pv_journal (put_node p n s) = pv_journal s"
  "me_journal (put_node p n s) = me_journal s" "pv_state (put_node p n s) = pv_state s"
  by (simp_all add: put_node_def)

lemma drop_node_rest [simp]:
  "ho_clock (drop_node p s) = ho_clock s" "pv_files (drop_node p s) = pv_files s" "pv_journal (drop_node p s) = pv_journal s"
  "me_journal (drop_node p s) = me_journal s" "pv_state (drop_node p s) = pv_state s"
  by (simp_all add: drop_node_def)

lemma later_mono: "later a b i \<Longrightarrow> b \<le> c \<Longrightarrow> later a c i"
  by (auto simp: later_def)

lemma item_ok_mono: "item_ok X F n C r \<Longrightarrow> C \<le> D \<Longrightarrow> item_ok X F n D r"
  unfolding item_ok_def active_def newer_def by (blast intro: later_mono)

lemma journal_kept_mono: "journal_kept X F N C j \<Longrightarrow> C \<le> D \<Longrightarrow> journal_kept X F N D j"
  unfolding journal_kept_def by (blast intro: item_ok_mono)

lemma journal_kept_cong:
  assumes "\<And>p. p \<in> set (tx_paths X) \<Longrightarrow> N p = M p"
  shows "journal_kept X F N C j = journal_kept X F M C j"
proof -
  have "item_ok X F (N (ji_relative r)) C r = item_ok X F (M (ji_relative r)) C r"
    if "set (map ji_relative (jn_items j)) \<subseteq> set (tx_paths X)" "r \<in> set (jn_items j)" for r
    using assms [of "ji_relative r"] that by auto
  then show ?thesis unfolding journal_kept_def using assms by (intro conj_cong refl ball_cong) auto
qed

lemma journal_kept_phase [simp]: "journal_kept X F N C (j\<lparr>jn_phase := p\<rparr>) = journal_kept X F N C j"
  by (simp add: journal_kept_def)

lemma find_item_in: "find_item k j = Some r \<Longrightarrow> r \<in> set (jn_items j) \<and> ji_target r = k"
  by (auto simp: find_item_def find_Some_iff)

lemma in_find_item: "r \<in> set (jn_items j) \<Longrightarrow> distinct (map ji_target (jn_items j)) \<Longrightarrow> find_item (ji_target r) j = Some r"
  by (simp add: find_item_def find_own)

lemma items_update: "jn_items (update_item k f j) = map (\<lambda>r. if ji_target r = k then f r else r) (jn_items j)"
  by (simp add: update_item_def)

lemma phase_update [simp]: "jn_phase (update_item k f j) = jn_phase j"
  by (simp add: update_item_def)

lemma find_item_update:
  assumes "\<And>r. ji_target (f r) = ji_target r"
  shows "find_item l (update_item k f j) = (if l = k then map_option f (find_item l j) else find_item l j)"
proof -
  have "find (\<lambda>r. ji_target r = l) (map (\<lambda>r. if ji_target r = k then f r else r) xs) =
      (if l = k then map_option f (find (\<lambda>r. ji_target r = l) xs) else find (\<lambda>r. ji_target r = l) xs)" for xs
    by (induction xs) (auto simp: assms)
  then show ?thesis by (simp add: find_item_def items_update)
qed

lemma journal_kept_update:
  assumes j: "journal_kept X F N C j" and r: "find_item k j = Some r" and ok: "item_ok X F (N (ji_relative r)) C (f r)"
    and f: "\<And>r. ji_target (f r) = ji_target r" "\<And>r. ji_relative (f r) = ji_relative r"
  shows "journal_kept X F N C (update_item k f j)"
proof -
  have maps: "map ji_target (jn_items (update_item k f j)) = map ji_target (jn_items j)"
    "map ji_relative (jn_items (update_item k f j)) = map ji_relative (jn_items j)"
    by (auto simp: items_update f)
  have only: "q = r" if "q \<in> set (jn_items j)" "ji_target q = k" for q
    using in_find_item [OF that(1)] that(2) r j by (auto simp: journal_kept_def)
  show ?thesis
    using j ok only unfolding journal_kept_def maps by (auto simp: items_update f)
qed

text \<open>The target of one item gets another node.\<close>

lemma journal_kept_node:
  assumes j: "journal_kept X F N C j" and r: "find_item k j = Some r" and ok: "item_ok X F n C r" and p: "p = ji_relative r"
  shows "journal_kept X F (N(p := n)) C j"
proof -
  from find_item_in [OF r] have ri: "r \<in> set (jn_items j)" by simp
  have inj: "inj_on ji_relative (set (jn_items j))" using j by (simp add: journal_kept_def distinct_map)
  have "item_ok X F ((N(p := n)) (ji_relative q)) C q" if q: "q \<in> set (jn_items j)" for q
  proof (cases "ji_relative q = p")
    case True
    with inj_onD [OF inj, of q r] q ri p have "q = r" by simp
    with ok p show ?thesis by simp
  next
    case False
    with j q show ?thesis by (simp add: journal_kept_def)
  qed
  moreover have "p \<in> set (map ji_relative (jn_items j))" using ri p by simp
  ultimately show ?thesis using j by (auto simp: journal_kept_def)
qed

lemma tree_put:
  assumes "tree N" "n \<noteq> None \<Longrightarrow> butlast p = [] \<or> is_folder (N (butlast p))" "is_folder (N p) \<Longrightarrow> is_folder n" "p \<noteq> []"
  shows "tree (N(p := n))"
  unfolding tree_def
proof (intro allI impI, elim conjE)
  fix q x
  assume there: "(N(p := n)) (q @ [x]) \<noteq> None" and "q \<noteq> []"
  show "is_folder ((N(p := n)) q)"
  proof (cases "q = p")
    case True
    with there have "N (p @ [x]) \<noteq> None" by simp
    from tree_step [OF assms(1) this assms(4)] assms(3) True show ?thesis by simp
  next
    case False
    show ?thesis
    proof (cases "q @ [x] = p")
      case True
      then have "q = butlast p" by auto
      with assms(2) there True \<open>q \<noteq> []\<close> False show ?thesis by auto
    next
      case other: False
      with there have "N (q @ [x]) \<noteq> None" by simp
      from tree_step [OF assms(1) this \<open>q \<noteq> []\<close>] False show ?thesis by simp
    qed
  qed
qed

lemma around_target:
  assumes "around X N" "p \<in> set (tx_paths X)" "txn_ok X" "n \<noteq> None \<Longrightarrow> butlast p = [] \<or> is_folder (N (butlast p))" "\<not> is_folder (N p)"
  shows "around X (N(p := n))"
proof -
  from assms(2,3) have "p \<noteq> []" by (auto simp: txn_ok_def apart_def)
  with assms tree_put [of N n p] have "tree (N(p := n))" by (simp add: around_def)
  with assms(1,2) show ?thesis by (auto simp: around_def)
qed

lemma around_folder:
  assumes "around X N" "txn_ok X" "N q = None" "q \<noteq> []" "butlast q = [] \<or> is_folder (N (butlast q))"
    and p: "p \<in> set (tx_paths X)" "p = q @ x # xs"
  shows "around X (N(q := Some (Folder u m)))" "q \<notin> set (tx_paths X)"
proof -
  show q: "q \<notin> set (tx_paths X)" using p assms(2) by (auto simp: txn_ok_def apart_def)
  have "tree (N(q := Some (Folder u m)))"
    using assms by (intro tree_put) (auto simp: around_def is_folder_def)
  moreover have "tx_home X q = None"
    using assms(1,3) q unfolding around_def by (metis folder_there)
  ultimately show "around X (N(q := Some (Folder u m)))"
    using assms(1) q p by (auto simp: around_def is_folder_def)
qed

end
