(* ===== verification/Config_Replace.thy ===== *)
theory Config_Replace
  imports Config_Invariant
begin

text \<open>
  Every replacement of a target keeps the invariant of the journal: the parents that are created, the
  identity that is written into the journal first, and the replacement itself.
\<close>

section \<open>One item\<close>

text \<open>The change of a target that the transaction did not touch yet.\<close>

definition intends :: "ident \<Rightarrow> jitem \<Rightarrow> jitem" where
  "intends x r = r\<lparr>ji_intended := Some x\<rparr>"

lemma change_item:
  assumes "untouched X F n r" "matches (tx_sha X) (ji_before r) n" "ji_backup r \<noteq> None"
    and "tx_clock X \<le> C" "later C D x"
  shows "item_ok X F n D (intends x r)" "matches (tx_sha X) x m \<Longrightarrow> item_ok X F m D (intends x r)"
proof -
  from assms(1) have u: "n = tx_home X (ji_relative r)" "ji_after r = None" "ji_recovery r = None"
    "\<And>b. ji_backup r = Some b \<Longrightarrow> backup_kept X F r b" by (simp_all add: untouched_def)
  from assms(3) obtain b where b: "ji_backup r = Some b" by auto
  from assms(4,5) have x: "later (tx_clock X) D x" by (auto simp: later_def)
  have kept: "backup_kept X F (intends x r) b" using u(4) [OF b] by (simp add: backup_kept_def intends_def)
  show "item_ok X F n D (intends x r)" "matches (tx_sha X) x m \<Longrightarrow> item_ok X F m D (intends x r)"
    using assms(2) u(1-3) b x kept by (auto simp: item_ok_def active_def intends_def)
qed

text \<open>The restoration of a target that has the identity of the change.\<close>

definition recovers :: "ident \<Rightarrow> jitem \<Rightarrow> jitem" where
  "recovers x r = r\<lparr>ji_recovery := Some x\<rparr>"

lemma restore_item:
  assumes a: "active X F n C r" and i: "ji_intended r = Some i" "matches (tx_sha X) i n"
    and C: "tx_clock X \<le> C" "C \<le> D" "later C D x" and x: "x = Absent \<Longrightarrow> tx_home X (ji_relative r) = None"
  shows "item_ok X F n D (recovers x r)"
    "matches (tx_sha X) x m \<Longrightarrow> same_look (tx_home X (ji_relative r)) m \<Longrightarrow> item_ok X F m D (recovers x r)"
proof -
  from a obtain b where b: "ji_backup r = Some b" "backup_kept X F r b"
    and before: "matches (tx_sha X) (ji_before r) (tx_home X (ji_relative r))"
    and il: "later (tx_clock X) C i" "ji_after r \<in> {None, Some i}"
    using i(1) by (auto simp: active_def)
  from C(2) il(1) have iD: "later (tx_clock X) D i" by (rule later_mono [rotated])
  have kept: "backup_kept X F (recovers x r) b" using b(2) by (simp add: backup_kept_def recovers_def)
  have new: "newer X D (ji_relative r) i x"
    using C x il(1) by (auto simp: newer_def later_def)
  have common: "active X F k D (recovers x r) \<longleftrightarrow>
      k = tx_home X (ji_relative r) \<or> matches (tx_sha X) i k \<or> matches (tx_sha X) x k \<and> same_look (tx_home X (ji_relative r)) k" for k
    using before b(1) kept i(1) iD il(2) new by (auto simp: active_def recovers_def)
  show "item_ok X F n D (recovers x r)"
    "matches (tx_sha X) x m \<Longrightarrow> same_look (tx_home X (ji_relative r)) m \<Longrightarrow> item_ok X F m D (recovers x r)"
    using common i(2) by (auto simp: item_ok_def)
qed

section \<open>The steps of a replacement\<close>

definition nodes_like :: "txn \<Rightarrow> (string list \<Rightarrow> node option) \<Rightarrow> setup_disk \<Rightarrow> bool" where
  "nodes_like X N s \<longleftrightarrow> (\<forall>p\<in>set (tx_paths X). node_at s p = N p)"

text \<open>A state under way with given nodes of the targets, journal in memory and private files.\<close>

definition under_way ::
  "txn \<Rightarrow> (string list \<Rightarrow> node option) \<Rightarrow> (string \<Rightarrow> private_file option) \<Rightarrow> journal \<Rightarrow> setup_disk \<Rightarrow> bool" where
  "under_way X N F j s \<longleftrightarrow> writing X s \<and> nodes_like X N s \<and> map_of (pv_files s) = F \<and> me_journal s = j"

definition parent_there :: "string list \<Rightarrow> setup_disk \<Rightarrow> bool" where
  "parent_there p s \<longleftrightarrow> butlast p = [] \<or> is_folder (node_at s (butlast p))"

lemma under_way_writing: "under_way X N F j s \<Longrightarrow> writing X s"
  by (simp add: under_way_def)

lemma writing_fates [simp]: "writing X (s\<lparr>ho_fates := fs\<rparr>) = writing X s"
  by (simp add: writing_def)

lemma under_way_fates [simp]: "under_way X N F j (s\<lparr>ho_fates := fs\<rparr>) = under_way X N F j s"
  by (simp add: under_way_def nodes_like_def)

lemma writing_folder:
  assumes X: "txn_ok X" and w: "writing X s" and q: "node_at s q = None" "q \<noteq> []" "butlast q = [] \<or> is_folder (node_at s (butlast q))"
    and p: "p \<in> set (tx_paths X)" "p = q @ x # xs"
  shows "writing X (put_node q (Folder u m) s)"
proof -
  from w have a: "around X (node_at s)" by (simp add: writing_def)
  note f = around_folder [OF a X q(1,2,3) p]
  have k: "journal_kept X F ((node_at s)(q := Some (Folder u m))) C j = journal_kept X F (node_at s) C j" for F C j
    using f(2) by (intro journal_kept_cong) auto
  show ?thesis using w f(1) by (simp add: writing_def k)
qed

lemma under_way_folder:
  assumes X: "txn_ok X" and w: "under_way X N F j s" and q: "node_at s q = None" "q \<noteq> []" "butlast q = [] \<or> is_folder (node_at s (butlast q))"
    and p: "p \<in> set (tx_paths X)" "p = q @ x # xs"
  shows "under_way X N F j (put_node q (Folder u m) s)"
proof -
  from w have wr: "writing X s" by (simp add: under_way_def)
  then have a: "around X (node_at s)" by (simp add: writing_def)
  from around_folder(2) [OF a X q(1,2,3) p] have "q \<notin> set (tx_paths X)" .
  with w writing_folder [OF X wr q p] show ?thesis by (auto simp: under_way_def nodes_like_def)
qed

lemma triple_open_parents:
  assumes X: "txn_ok X" and p: "p \<in> set (tx_paths X)"
  shows "p = base @ xs @ [y] \<Longrightarrow>
    triple (\<lambda>s. under_way X N F j s \<and> (base = [] \<or> is_folder (node_at s base))) (open_parents create base xs)
      (\<lambda>_ s. under_way X N F j s \<and> parent_there p s) (writing X)"
proof (induction xs arbitrary: base)
  case Nil
  then show ?case by (auto simp: triple_def parent_there_def)
next
  case (Cons x xs)
  let ?P = "\<lambda>s. under_way X N F j s \<and> (base = [] \<or> is_folder (node_at s base))"
  let ?q = "base @ [x]"
  let ?Q = "\<lambda>s. under_way X N F j s \<and> parent_there p s"
  have IH: "triple (\<lambda>s. under_way X N F j s \<and> is_folder (node_at s ?q)) (open_parents create ?q xs) (\<lambda>_. ?Q) (writing X)"
    using Cons.IH [of ?q] Cons.prems by (auto elim!: triple_pre)
  have mk: "triple (\<lambda>s. ?P s \<and> node_at s ?q = None)
      (bindS (effect (put_node ?q (Folder u 448))) (\<lambda>_. open_parents create ?q xs)) (\<lambda>_. ?Q) (writing X)" for u
  proof (rule triple_bind [OF _ IH], rule triple_effect)
    fix s g :: setup_disk
    assume s: "?P s \<and> node_at s ?q = None" and g: "g = s\<lparr>ho_fates := tl (ho_fates s)\<rparr>"
    then have "under_way X N F j g" "node_at g ?q = None" "butlast ?q = [] \<or> is_folder (node_at g (butlast ?q))" by auto
    with under_way_folder [OF X this(1,2) _ this(3) p, of "hd (xs @ [y])" "tl (xs @ [y])" u 448] Cons.prems
    have "under_way X N F j (put_node ?q (Folder u 448) g)" by (cases xs) auto
    with \<open>under_way X N F j g\<close> show "writing X g \<and> writing X (put_node ?q (Folder u 448) g) \<and>
        under_way X N F j (put_node ?q (Folder u 448) g) \<and> is_folder (node_at (put_node ?q (Folder u 448) g) ?q)"
      by (simp add: under_way_writing is_folder_def)
  qed
  have fold: "open_parents create base (x # xs) s =
      (case node_at s ?q of
         None \<Rightarrow> if create then bindS (effect (put_node ?q (Folder (ho_user s) 448))) (\<lambda>_. open_parents create ?q xs) s
                 else (Inl (Broken System), s)
       | Some (Folder u m) \<Rightarrow> if folder_safe s u m then open_parents create ?q xs s else (Inl (Refused 4 ''unsafe_target_parent''), s)
       | Some _ \<Rightarrow> (Inl (Broken System), s))" for s :: setup_disk
    by simp
  have one: "case open_parents create base (x # xs) s of (Inl e, t) \<Rightarrow> writing X t | (Inr u, t) \<Rightarrow> ?Q t" if s: "?P s" for s
  proof (cases "node_at s ?q")
    case None
    with mk [of "ho_user s"] s have "case bindS (effect (put_node ?q (Folder (ho_user s) 448))) (\<lambda>_. open_parents create ?q xs) s of
        (Inl e, t) \<Rightarrow> writing X t | (Inr u, t) \<Rightarrow> ?Q t" by (simp add: triple_def)
    with None s show ?thesis by (simp only: fold) (auto simp: under_way_writing)
  next
    case (Some n)
    have "case open_parents create ?q xs s of (Inl e, t) \<Rightarrow> writing X t | (Inr u, t) \<Rightarrow> ?Q t" if "is_folder (node_at s ?q)"
      using IH s that by (simp add: triple_def)
    with Some s show ?thesis by (cases n) (simp_all only: fold, auto simp: under_way_writing is_folder_def)
  qed
  then show ?case by (auto simp: triple_def)
qed

lemma triple_target_parent:
  assumes "txn_ok X" "p \<in> set (tx_paths X)"
  shows "triple (under_way X N F j) (target_parent create p) (\<lambda>_ s. under_way X N F j s \<and> parent_there p s) (writing X)"
proof -
  from assms have "p \<noteq> []" by (auto simp: txn_ok_def apart_def)
  then have "p = [] @ butlast p @ [last p]" by simp
  from triple_open_parents [OF assms this] show ?thesis
    unfolding target_parent_def
    by (auto intro!: triple_bind [where R = "\<lambda>_. under_way X N F j"] triple_ensure triple_get dest: under_way_writing)
qed

section \<open>Replacing one target\<close>

text \<open>
  \<open>g x\<close> notes the identity \<open>x\<close> in the item \<open>r\<close> whose target has node \<open>n\<close>: the item stays in order, and
  also when the target then gets a node that has this identity and is good.
\<close>

definition step_ok ::
  "txn \<Rightarrow> (string \<Rightarrow> private_file option) \<Rightarrow> node option \<Rightarrow> jitem \<Rightarrow> (ident \<Rightarrow> jitem \<Rightarrow> jitem) \<Rightarrow> (ident \<Rightarrow> bool) \<Rightarrow> (node option \<Rightarrow> bool) \<Rightarrow> bool" where
  "step_ok X F n r g I G \<longleftrightarrow>
     (\<forall>q x. ji_target (g x q) = ji_target q \<and> ji_relative (g x q) = ji_relative q) \<and>
     (\<forall>x C D. tx_clock X \<le> C \<and> C \<le> D \<and> later C D x \<and> I x \<and> item_ok X F n C r \<longrightarrow>
        item_ok X F n D (g x r) \<and> (\<forall>m. matches (tx_sha X) x m \<and> G m \<longrightarrow> item_ok X F m D (g x r)))"

lemma change_step:
  assumes "untouched X F n r" "matches (tx_sha X) (ji_before r) n" "ji_backup r \<noteq> None"
  shows "step_ok X F n r intends (\<lambda>_. True) (\<lambda>_. True)"
  using change_item [OF assms] by (auto simp: step_ok_def intends_def)

lemma restore_step:
  assumes "ji_intended r = Some i" "matches (tx_sha X) i n"
  shows "step_ok X F n r recovers (\<lambda>x. x = Absent \<longrightarrow> tx_home X (ji_relative r) = None) (same_look (tx_home X (ji_relative r)))"
proof -
  let ?h = "tx_home X (ji_relative r)"
  have act: "active X F n C r" if "item_ok X F n C r" for C
    using that assms(1) by (auto simp: item_ok_def untouched_def)
  have keep: "ji_target (recovers x q) = ji_target q \<and> ji_relative (recovers x q) = ji_relative q" for x q
    by (simp add: recovers_def)
  have one: "item_ok X F n D (recovers x r)" "matches (tx_sha X) x m \<and> same_look ?h m \<Longrightarrow> item_ok X F m D (recovers x r)"
    if "tx_clock X \<le> C \<and> C \<le> D \<and> later C D x \<and> (x = Absent \<longrightarrow> ?h = None) \<and> item_ok X F n C r" for x C D m
    using restore_item [OF act [of C] assms, of D x] that by simp_all
  show ?thesis unfolding step_ok_def using keep one by blast
qed

text \<open>The identity is in the journal on the disk.\<close>

definition noted ::
  "txn \<Rightarrow> (string list \<Rightarrow> node option) \<Rightarrow> (string \<Rightarrow> private_file option) \<Rightarrow> journal \<Rightarrow> nat \<Rightarrow> string list \<Rightarrow> setup_disk \<Rightarrow> bool" where
  "noted X N F j D p s \<longleftrightarrow> under_way X N F j s \<and> pv_journal s = Some j \<and> ho_clock s = D \<and> parent_there p s"

lemma under_way_kept: "under_way X N F j s \<Longrightarrow> journal_kept X F N (ho_clock s) j \<and> tx_clock X \<le> ho_clock s \<and> jn_phase j \<noteq> Committed"
  using journal_kept_cong [of X N "node_at s" F "ho_clock s" j] by (auto simp: under_way_def writing_def nodes_like_def)

lemma journal_kept_at:
  assumes "under_way X N F j s"
  shows "journal_kept X F (node_at s) C i = journal_kept X F N C i"
  using assms by (intro journal_kept_cong) (auto simp: under_way_def nodes_like_def)

lemma parent_there_fates [simp]: "parent_there p (s\<lparr>ho_fates := fs\<rparr>) = parent_there p s"
  by (simp add: parent_there_def)

lemma triple_private_dir:
  assumes "\<And>s. P s \<Longrightarrow> E s" "\<And>s fs. P s \<Longrightarrow> P (s\<lparr>ho_fates := fs\<rparr>)"
  shows "triple P private_dir (\<lambda>_. P) E"
  unfolding private_dir_def
proof (rule triple_bind [where R = "\<lambda>_. P"])
  show "triple P (getS (\<lambda>s. ensure (pv_safe s) (Refused 4 ''unsafe_private_directory''))) (\<lambda>_. P) E"
    by (rule triple_get) (erule assms(1), assumption)
  show "triple P (effect (\<lambda>s. s)) (\<lambda>_. P) E" for u :: unit
  proof (rule triple_effect)
    fix s g assume "P s" and g: "g = s\<lparr>ho_fates := tl (ho_fates s)\<rparr>"
    from assms(2) [OF \<open>P s\<close>] g have "P g" by simp
    with assms(1) show "E g \<and> E g \<and> P g" by blast
  qed
qed

text \<open>The journal in memory is in order and is written out.\<close>

lemma triple_write_journal:
  assumes P: "\<And>s. P s \<Longrightarrow> under_way X N F j s" "\<And>s fs. P s \<Longrightarrow> P (s\<lparr>ho_fates := fs\<rparr>)"
    and Q: "\<And>s. P s \<Longrightarrow> Q (s\<lparr>pv_journal := Some j\<rparr>)"
  shows "triple P write_journal (\<lambda>_. Q) (writing X)"
  unfolding write_journal_def
proof (rule triple_bind [where R = "\<lambda>_. P"])
  show "triple P private_dir (\<lambda>_. P) (writing X)" 
    by (rule triple_private_dir) (erule under_way_writing [OF P(1)], erule P(2))
next
  show "triple P (effect (\<lambda>s. s\<lparr>pv_journal := Some (me_journal s)\<rparr>)) (\<lambda>_. Q) (writing X)" for u :: unit
  proof (rule triple_effect)
    fix s g assume s: "P s" and g: "g = s\<lparr>ho_fates := tl (ho_fates s)\<rparr>"
    then have Pg: "P g" using P(2) by simp
    from P(1) [OF this] have u: "under_way X N F j g" .
    then have "me_journal g = j" "writing X g" by (simp_all add: under_way_def)
    moreover have "writing X (g\<lparr>pv_journal := Some j\<rparr>)" using u by (auto simp: under_way_def writing_def)
    ultimately show "writing X g \<and> writing X (g\<lparr>pv_journal := Some (me_journal g)\<rparr>) \<and> Q (g\<lparr>pv_journal := Some (me_journal g)\<rparr>)"
      using Q [OF Pg] by simp
  qed
qed

lemma triple_note:
  assumes k: "journal_kept X F N D (update_item k f j)"
  shows "triple (\<lambda>s. under_way X N F j s \<and> ho_clock s = D \<and> parent_there p s) (note_item k f)
    (\<lambda>_. noted X N F (update_item k f j) D p) (writing X)"
proof -
  let ?j = "update_item k f j"
  let ?R = "\<lambda>s. under_way X N F ?j s \<and> ho_clock s = D \<and> parent_there p s"
  show ?thesis
    unfolding note_item_def
  proof (rule triple_bind [where R = "\<lambda>_. ?R"])
    show "triple (\<lambda>s. under_way X N F j s \<and> ho_clock s = D \<and> parent_there p s) (remember (update_item k f)) (\<lambda>_. ?R) (writing X)"
    proof (rule triple_remember)
      fix s assume s: "under_way X N F j s \<and> ho_clock s = D \<and> parent_there p s"
      then have "journal_kept X F (node_at s) (ho_clock s) ?j" using k journal_kept_at [of X N F j s] by simp
      with s show "?R (s\<lparr>me_journal := update_item k f (me_journal s)\<rparr>)"
        by (auto simp: under_way_def writing_def nodes_like_def parent_there_def)
    qed
  next
    fix u :: unit
    have "triple ?R write_journal (\<lambda>_. noted X N F ?j D p) (writing X)"
      by (rule triple_write_journal [where N = N and F = F and j = ?j])
        (auto simp: noted_def under_way_def writing_def nodes_like_def parent_there_def)
    then show "triple ?R write_journal (\<lambda>_. noted X N F ?j D p) (writing X)" .
  qed
qed

lemma triple_swap:
  assumes X: "txn_ok X" and p: "p \<in> set (tx_paths X)"
    and r: "find_item k j = Some r" "ji_relative r = p" and ok: "item_ok X F m D r"
    and f: "\<And>s. node_at (f s) = (node_at s)(p := m)" "\<And>s. ho_clock (f s) = ho_clock s" "\<And>s. pv_files (f s) = pv_files s"
      "\<And>s. pv_journal (f s) = pv_journal s" "\<And>s. me_journal (f s) = me_journal s"
    and m: "\<not> is_folder m"
  shows "triple (\<lambda>s. noted X N F j D p s \<and> \<not> is_folder (node_at s p)) (effect f)
    (\<lambda>_ s. under_way X (N(p := m)) F j s \<and> pv_journal s = Some j) (writing X)"
proof (rule triple_effect)
  fix s g assume s: "noted X N F j D p s \<and> \<not> is_folder (node_at s p)" and g: "g = s\<lparr>ho_fates := tl (ho_fates s)\<rparr>"
  then have u: "under_way X N F j g" and j: "pv_journal g = Some j" and D: "ho_clock g = D" and par: "parent_there p g"
    and nf: "\<not> is_folder (node_at g p)" by (simp_all add: noted_def)
  from u have w: "writing X g" "me_journal g = j" "map_of (pv_files g) = F" "nodes_like X N g" by (simp_all add: under_way_def)
  have a: "around X ((node_at g)(p := m))"
    using w(1) par nf by (intro around_target [OF _ p X]) (auto simp: writing_def parent_there_def)
  have "journal_kept X F (node_at g) D j" using w D by (auto simp: writing_def)
  from journal_kept_node [OF this r(1) ok] r(2) have k: "journal_kept X F ((node_at g)(p := m)) D j" by simp
  have wf: "writing X (f g)" using w(1-3) a k j D by (auto simp: writing_def f)
  moreover have "under_way X (N(p := m)) F j (f g)" using wf w(2-4) by (auto simp: under_way_def nodes_like_def f)
  ultimately show "writing X g \<and> writing X (f g) \<and> under_way X (N(p := m)) F j (f g) \<and> pv_journal (f g) = Some j"
    using w(1) j by (simp add: f)
qed

lemma triple_check_expected:
  "triple (noted X N F j D p) (getS (check_expected p e)) (\<lambda>_ s. noted X N F j D p s \<and> \<not> is_folder (node_at s p)) (writing X)"
proof (rule triple_get)
  fix s :: setup_disk assume "noted X N F j D p s"
  then show "writing X s" by (simp add: noted_def under_way_def)
next
  fix s :: setup_disk and u assume n: "noted X N F j D p s" and "check_expected p e s = Inr u"
  then have "still_expected e (node_at s p)" by (simp add: check_expected_def ensure_eq_Inr)
  then have "\<not> is_folder (node_at s p)" by (cases "(e, node_at s p)" rule: still_expected.cases) (auto simp: is_folder_def)
  with n show "noted X N F j D p s \<and> \<not> is_folder (node_at s p)" by simp
qed

lemma triple_temporary:
  "triple (\<lambda>s. under_way X N F j s \<and> parent_there p s \<and> ho_clock s = C) (temporary mode len)
    (\<lambda>x s. under_way X N F j s \<and> parent_there p s \<and> ho_clock s = C + 1 \<and> fs_mode x = mode \<and> fs_ino x = C) (writing X)"
proof -
  let ?P = "\<lambda>s. under_way X N F j s \<and> parent_there p s \<and> ho_clock s = C"
  let ?Q = "\<lambda>x s. under_way X N F j s \<and> parent_there p s \<and> ho_clock s = C + 1 \<and> fs_mode x = mode \<and> fs_ino x = C"
  let ?T = "effect (\<lambda>h::setup_disk. h\<lparr>ho_clock := ho_clock h + 1\<rparr>)"
  have tick: "under_way X N F j (s\<lparr>ho_clock := ho_clock s + 1\<rparr>)" if "under_way X N F j s" for s
    using that journal_kept_mono [of X "map_of (pv_files s)" "node_at s" "ho_clock s" _ "ho_clock s + 1"]
    by (auto simp: under_way_def writing_def nodes_like_def)
  have step: "triple (\<lambda>s. ?P s \<and> fs_mode x = mode \<and> fs_ino x = C) ?T (\<lambda>_. ?Q x) (writing X)" for x
  proof (rule triple_effect)
    fix s g assume s: "?P s \<and> fs_mode x = mode \<and> fs_ino x = C" and g: "g = s\<lparr>ho_fates := tl (ho_fates s)\<rparr>"
    then have u: "under_way X N F j g" by simp
    from tick [OF u] s g u under_way_writing [OF u] under_way_writing [OF tick [OF u]] show "writing X g \<and> writing X (g\<lparr>ho_clock := ho_clock g + 1\<rparr>) \<and> ?Q x (g\<lparr>ho_clock := ho_clock g + 1\<rparr>)"
      by (auto simp: parent_there_def dest: under_way_writing)
  qed
  show ?thesis
    unfolding temporary_def
  proof (rule triple_bind [where R = "\<lambda>x s. ?P s \<and> fs_mode x = mode \<and> fs_ino x = C"])
    show "triple ?P (getS (\<lambda>h. Inr (new_stamp mode len h))) (\<lambda>x s. ?P s \<and> fs_mode x = mode \<and> fs_ino x = C) (writing X)"
      by (rule triple_get) (auto simp: under_way_writing new_stamp_def)
  next
    fix x show "triple (\<lambda>s. ?P s \<and> fs_mode x = mode \<and> fs_ino x = C) (bindS ?T (\<lambda>_. returnS x)) ?Q (writing X)"
      by (rule triple_bind [OF step]) (rule triple_return)
  qed
qed

text \<open>Noting a new identity, and replacing the target by a node that has it.\<close>

lemma triple_noted:
  assumes r: "find_item k j = Some r" "ji_relative r = p" and step: "step_ok X F (N p) r g I G" and x: "I x"
    and C: "tx_clock X \<le> C" "C \<le> D" "later C D x" and k: "journal_kept X F N C j"
  shows "triple (\<lambda>s. under_way X N F j s \<and> ho_clock s = D \<and> parent_there p s) (note_item k (g x))
    (\<lambda>_. noted X N F (update_item k (g x) j) D p) (writing X)"
proof (rule triple_note)
  have ok: "item_ok X F (N p) C r" using k find_item_in [OF r(1)] r(2) by (auto simp: journal_kept_def)
  show "journal_kept X F N D (update_item k (g x) j)"
  proof (rule journal_kept_update [OF _ r(1)])
    show "journal_kept X F N D j" using k C(2) by (rule journal_kept_mono)
    show "item_ok X F (N (ji_relative r)) D (g x r)" using step ok x C r(2) unfolding step_ok_def by blast
  qed (use step in \<open>auto simp: step_ok_def\<close>)
qed

lemma triple_swapped:
  assumes X: "txn_ok X" "p \<in> set (tx_paths X)"
    and r: "find_item k j = Some r" "ji_relative r = p" and step: "step_ok X F (N p) r g I G" and x: "I x" "matches (tx_sha X) x m" "G m"
    and C: "tx_clock X \<le> C" "C \<le> D" "later C D x" and k: "journal_kept X F N C j"
    and f: "\<And>s. node_at (f s) = (node_at s)(p := m)" "\<And>s. ho_clock (f s) = ho_clock s" "\<And>s. pv_files (f s) = pv_files s"
      "\<And>s. pv_journal (f s) = pv_journal s" "\<And>s. me_journal (f s) = me_journal s"
  shows "triple (\<lambda>s. noted X N F (update_item k (g x) j) D p s \<and> \<not> is_folder (node_at s p)) (effect f)
    (\<lambda>_ s. under_way X (N(p := m)) F (update_item k (g x) j) s \<and> pv_journal s = Some (update_item k (g x) j)) (writing X)"
proof (rule triple_swap [OF X])
  have ok: "item_ok X F (N p) C r" using k find_item_in [OF r(1)] r(2) by (auto simp: journal_kept_def)
  from step have t: "ji_target (g x q) = ji_target q" "ji_relative (g x q) = ji_relative q" for q by (auto simp: step_ok_def)
  then show "find_item k (update_item k (g x) j) = Some (g x r)" using r(1) by (simp add: find_item_update)
  show "ji_relative (g x r) = p" using t r(2) by simp
  show "item_ok X F m D (g x r)" using step ok x C unfolding step_ok_def by blast
  show "\<not> is_folder m" using x(2) by (cases "(tx_sha X, x, m)" rule: matches.cases) (auto simp: is_folder_def)
qed (fact f)+

lemma triple_placed:
  assumes X: "txn_ok X" "p \<in> set (tx_paths X)"
    and r: "find_item k j = Some r" "ji_relative r = p" and step: "step_ok X F (N p) r g I G"
    and G: "\<And>st. I (mk st)" "\<And>st. fs_mode st = mode \<Longrightarrow> G (Some (nd st))" "\<And>st. matches (tx_sha X) (mk st) (Some (nd st))"
    and mk: "\<And>st. ino (mk st) = Some (fs_ino st)"
  shows "triple (under_way X N F j)
    (bindS (target_parent True p) (\<lambda>_. bindS (temporary mode len) (\<lambda>st. bindS (note_item k (g (mk st)))
      (\<lambda>_. bindS (getS (check_expected p e)) (\<lambda>_. effect (put_node p (nd st)))))))
    (\<lambda>_ s. \<exists>st. fs_mode st = mode \<and> under_way X (N(p := Some (nd st))) F (update_item k (g (mk st)) j) s) (writing X)"
proof (rule triple_bind [OF triple_target_parent [OF X]], rule triple_given [where f = ho_clock], rule triple_fact)
  fix C
  assume C: "journal_kept X F N C j \<and> tx_clock X \<le> C"
  let ?j = "\<lambda>st. update_item k (g (mk st)) j"
  let ?put = "\<lambda>st. effect (put_node p (nd st))"
  let ?P = "\<lambda>s. under_way X N F j s \<and> parent_there p s \<and> ho_clock s = C"
  have rest: "triple (\<lambda>s. under_way X N F j s \<and> parent_there p s \<and> ho_clock s = C + 1 \<and> fs_mode st = mode \<and> fs_ino st = C)
      (bindS (note_item k (g (mk st))) (\<lambda>_. bindS (getS (check_expected p e)) (\<lambda>_. ?put st)))
      (\<lambda>_ s. \<exists>st. fs_mode st = mode \<and> under_way X (N(p := Some (nd st))) F (?j st) s) (writing X)" for st
  proof (rule triple_fact)
    assume st: "fs_mode st = mode \<and> fs_ino st = C"
    then have "later C (C + 1) (mk st)" by (simp add: later_def mk)
    with C have D: "tx_clock X \<le> C" "C \<le> C + 1" "later C (C + 1) (mk st)" by auto
    from C have k: "journal_kept X F N C j" by simp
    note note_it = triple_noted [OF r step G(1) D k]
    note put_it = triple_swapped [OF X r step G(1) G(3) G(2) D k, of "put_node p (nd st)"]
    show ?thesis
    proof (rule triple_pre, rule triple_bind [OF note_it], rule triple_bind [OF triple_check_expected], rule triple_post, rule put_it)
      fix s assume "under_way X (N(p := Some (nd st))) F (?j st) s \<and> pv_journal s = Some (?j st)"
      with st show "\<exists>st. fs_mode st = mode \<and> under_way X (N(p := Some (nd st))) F (?j st) s" by blast
    qed (use st in auto)
  qed auto
  show "triple (\<lambda>s. (under_way X N F j s \<and> parent_there p s) \<and> ho_clock s = C)
      (bindS (temporary mode len) (\<lambda>st. bindS (note_item k (g (mk st))) (\<lambda>_. bindS (getS (check_expected p e)) (\<lambda>_. ?put st))))
      (\<lambda>_ s. \<exists>st. fs_mode st = mode \<and> under_way X (N(p := Some (nd st))) F (?j st) s) (writing X)"
    by (rule triple_pre, rule triple_bind [OF triple_temporary rest]) simp
next
  fix C s assume "(under_way X N F j s \<and> parent_there p s) \<and> ho_clock s = C"
  then show "journal_kept X F N C j \<and> tx_clock X \<le> C" using under_way_kept by blast
qed

lemma triple_bytes:
  assumes "txn_ok X" "p \<in> set (tx_paths X)" "find_item k j = Some r" "ji_relative r = p" "step_ok X F (N p) r g I G"
    and "tx_sha X = sha" "\<And>st. I (File_At st (Some (sha c)))" "\<And>st. fs_mode st = mode \<Longrightarrow> G (Some (Regular st c 1))"
  shows "triple (under_way X N F j) (atomic_target_bytes sha p c mode (\<lambda>x. note_item k (g x)) e)
    (\<lambda>_ s. \<exists>st. fs_mode st = mode \<and> under_way X (N(p := Some (Regular st c 1))) F (update_item k (g (File_At st (Some (sha c)))) j) s)
    (writing X)"
  unfolding atomic_target_bytes_def
  by (rule triple_placed [where N = N and I = I and G = G and mk = "\<lambda>st. File_At st (Some (sha c))" and nd = "\<lambda>st. Regular st c 1", OF assms(1-5)]) (simp_all add: assms del: One_nat_def)

lemma triple_link:
  assumes "txn_ok X" "p \<in> set (tx_paths X)" "find_item k j = Some r" "ji_relative r = p" "step_ok X F (N p) r g I G"
    and "\<And>st. I (Link_At st l)" "\<And>st. G (Some (Symbolic st l))"
  shows "triple (under_way X N F j) (atomic_target_link p l (\<lambda>x. note_item k (g x)) e)
    (\<lambda>_ s. \<exists>st. fs_mode st = 511 \<and> under_way X (N(p := Some (Symbolic st l))) F (update_item k (g (Link_At st l)) j) s)
    (writing X)"
  unfolding atomic_target_link_def
  by (rule triple_placed [where N = N and I = I and G = G and mk = "\<lambda>st. Link_At st l" and nd = "\<lambda>st. Symbolic st l", OF assms(1-5)]) (simp_all add: assms)

lemma triple_remove:
  assumes X: "txn_ok X" "p \<in> set (tx_paths X)"
    and r: "find_item k j = Some r" "ji_relative r = p" and step: "step_ok X F (N p) r g I G" and G: "I Absent" "G None"
  shows "triple (under_way X N F j) (remove_target p (\<lambda>x. note_item k (g x)) e)
    (\<lambda>_ s. under_way X (N(p := None)) F (update_item k (g Absent) j) s) (writing X)"
  unfolding remove_target_def
proof (rule triple_bind [OF triple_target_parent [OF X]], rule triple_given [where f = ho_clock], rule triple_fact)
  fix C
  assume C: "journal_kept X F N C j \<and> tx_clock X \<le> C"
  then have D: "tx_clock X \<le> C" "C \<le> C" "later C C Absent" by (auto simp: later_def)
  from C have k: "journal_kept X F N C j" by simp
  let ?j = "update_item k (g Absent) j"
  let ?M = "\<lambda>s. noted X N F ?j C p s \<and> \<not> is_folder (node_at s p)"
  have there: "triple ?M (getS (\<lambda>h. ensure (node_at h p \<noteq> None) (Broken System))) (\<lambda>_. ?M) (writing X)"
    by (rule triple_get) (auto simp: noted_def under_way_writing)
  have drop: "triple ?M (effect (drop_node p)) (\<lambda>_ s. under_way X (N(p := None)) F ?j s) (writing X)"
    by (rule triple_post, rule triple_swapped [OF X r step G(1) _ G(2) D k]) auto
  show "triple (\<lambda>s. (under_way X N F j s \<and> parent_there p s) \<and> ho_clock s = C)
     (bindS (note_item k (g Absent)) (\<lambda>_. bindS (getS (check_expected p e)) (\<lambda>_.
        bindS (getS (\<lambda>h. ensure (node_at h p \<noteq> None) (Broken System))) (\<lambda>_. effect (drop_node p)))))
     (\<lambda>_ s. under_way X (N(p := None)) F ?j s) (writing X)"
    by (rule triple_pre, rule triple_bind [OF triple_noted [OF r step G(1) D k]], rule triple_bind [OF triple_check_expected],
      rule triple_bind [OF there drop]) auto
next
  fix C s assume "(under_way X N F j s \<and> parent_there p s) \<and> ho_clock s = C"
  then show "journal_kept X F N C j \<and> tx_clock X \<le> C" using under_way_kept by blast
qed

text \<open>
  \<open>_restore_one\<close>: the target gets the content, the mode and the link that the backup tells of. The
  content of a file is that of the private file, whose digest was checked.
\<close>

definition restored_node :: "(string \<Rightarrow> string) \<Rightarrow> (string \<Rightarrow> private_file option) \<Rightarrow> backup \<Rightarrow> node option \<Rightarrow> bool" where
  "restored_node sha F b n \<longleftrightarrow>
     (case bk_before b of
        Absent \<Rightarrow> n = None
      | Link_At st l \<Rightarrow> (\<exists>t. n = Some (Symbolic t l))
      | File_At st d \<Rightarrow> (\<exists>t q f. bk_path b = Some q \<and> F q = Some f \<and> n = Some (Regular t (pf_content f) 1) \<and>
          fs_mode t = fs_mode st \<and> bk_digest b = Some (sha (pf_content f))))"

lemma verified_backup_file:
  assumes "verified_backup env b s = Inr (Some c)"
  shows "\<exists>q f. bk_path b = Some q \<and> map_of (pv_files s) q = Some f \<and> c = pf_content f \<and> bk_digest b = Some (te_sha env c)"
  using assms by (auto simp: verified_backup_def bindE_eq_Inr private_file_at_def split: option.splits if_splits)

lemma triple_restore_one:
  assumes X: "txn_ok X" "p \<in> set (tx_paths X)" "tx_sha X = te_sha env"
    and r: "find_item k j = Some r" "ji_relative r = p" and step: "step_ok X F (N p) r g I G"
    and I: "\<And>x. (x = Absent \<longleftrightarrow> bk_before b = Absent) \<Longrightarrow> I x" and G: "\<And>n. restored_node (te_sha env) F b n \<Longrightarrow> G n"
  shows "triple (under_way X N F j) (restore_one env p b (\<lambda>x. note_item k (g x)) e)
    (\<lambda>_ s. \<exists>x n. restored_node (te_sha env) F b n \<and> matches (tx_sha X) x n \<and> under_way X (N(p := n)) F (update_item k (g x) j) s) (writing X)"
    (is "triple _ _ ?Q _")
proof (cases "bk_before b")
  case Absent
  then have "I Absent" "G None" using I G by (auto simp: restored_node_def)
  from triple_remove [where N = N, OF X(1,2) r step this, of e] show ?thesis
    by (simp add: restore_one_def Absent) (erule triple_post, auto simp: restored_node_def Absent intro: exI [of _ Absent])
next
  case (Link_At st l)
  then have "\<And>st. I (Link_At st l)" "\<And>st. G (Some (Symbolic st l))" using I G by (auto simp: restored_node_def)
  from triple_link [where N = N, OF X(1,2) r step this, of e] show ?thesis
    by (simp add: restore_one_def Link_At) (erule triple_post, force simp: restored_node_def Link_At)
next
  case (File_At st d)
  let ?c = "\<lambda>c. \<exists>q f. bk_path b = Some q \<and> F q = Some f \<and> c = Some (pf_content f) \<and>
    bk_digest b = Some (te_sha env (pf_content f))"
  have get: "triple (under_way X N F j) (getS (verified_backup env b))
      (\<lambda>c s. under_way X N F j s \<and> (c \<noteq> None \<longrightarrow> ?c c)) (writing X)"
  proof (rule triple_get)
    fix s c assume u: "under_way X N F j s" and "verified_backup env b s = Inr c"
    with verified_backup_file [of env b s] show "under_way X N F j s \<and> (c \<noteq> None \<longrightarrow> ?c c)"
      by (cases c) (auto simp: under_way_def)
  qed (rule under_way_writing)
  have bytes: "triple (under_way X N F j) (atomic_target_bytes (te_sha env) p c (fs_mode st) (\<lambda>x. note_item k (g x)) e) ?Q (writing X)"
    if "?c (Some c)" for c
  proof (rule triple_post, rule triple_bytes [where N = N and I = I and G = G, OF X(1,2) r step X(3)])
    show "I (File_At st' (Some (te_sha env c)))" for st' using I File_At by simp
    show "G (Some (Regular st' c 1))" if "fs_mode st' = fs_mode st" for st'
      using G \<open>?c (Some c)\<close> that File_At by (auto simp: restored_node_def)
    fix s assume "\<exists>t. fs_mode t = fs_mode st \<and> under_way X (N(p := Some (Regular t c 1))) F
      (update_item k (g (File_At t (Some (te_sha env c)))) j) s"
    then obtain t where t: "fs_mode t = fs_mode st"
      "under_way X (N(p := Some (Regular t c 1))) F (update_item k (g (File_At t (Some (te_sha env c)))) j) s" by blast
    moreover have "restored_node (te_sha env) F b (Some (Regular t c 1))" using t(1) that File_At by (auto simp: restored_node_def)
    moreover have "matches (tx_sha X) (File_At t (Some (te_sha env c))) (Some (Regular t c 1))" using X(3) by simp
    ultimately show "?Q () s" by blast
  qed
  have "triple (\<lambda>s. under_way X N F j s \<and> (c \<noteq> None \<longrightarrow> ?c c))
      (case c of None \<Rightarrow> raiseS (Broken System)
       | Some c \<Rightarrow> atomic_target_bytes (te_sha env) p c (fs_mode st) (\<lambda>x. note_item k (g x)) e) ?Q (writing X)" for c
  proof (cases c)
    case None
    then show ?thesis by (auto intro!: triple_raise under_way_writing)
  next
    case (Some d)
    show ?thesis
      by (rule triple_fact [where A = "?c (Some d)"]) (use Some bytes [of d] in \<open>auto elim: triple_pre\<close>)
  qed
  with get show ?thesis unfolding restore_one_def File_At by (simp add: triple_bind)
qed

end
