(* ===== verification/Config_Recovery.thy ===== *)
theory Config_Recovery
  imports Config_Replace
begin

text \<open>
  Recovery of a configuration transaction. From every state whose journal on the disk is in order the
  recovery leaves such a state, wherever it breaks; when it ends, the journal is gone, and every
  target looks as before the transaction, unless the transaction had been committed.
\<close>

section \<open>Restoring one target\<close>

lemma restored_looks:
  assumes "backup_kept X F r b" "matches (tx_sha X) (ji_before r) (tx_home X (ji_relative r))" "restored_node sha F b n"
  shows "same_look (tx_home X (ji_relative r)) n"
proof -
  let ?o = "tx_home X (ji_relative r)"
  from assms(1) have b: "bk_before b = ji_before r" and k: "kept_for F b ?o" by (auto simp: backup_kept_def)
  show ?thesis
  proof (cases "ji_before r")
    case Absent
    with assms(2,3) b show ?thesis by (simp add: restored_node_def same_look_def)
  next
    case (Link_At st l)
    with assms(2) have "?o = Some (Symbolic st l)" by (cases "?o") (auto elim: matches.elims)
    with assms(3) b Link_At show ?thesis by (auto simp: restored_node_def same_look_def)
  next
    case (File_At st d)
    with assms(2) obtain c m where o: "?o = Some (Regular st c m)" by (auto elim: matches.elims)
    with k b File_At obtain q f where "bk_path b = Some q" "F q = Some f" "pf_content f = c" by (auto simp: kept_for_def)
    with assms(3) b File_At o show ?thesis by (auto simp: restored_node_def same_look_def)
  qed
qed

definition item_names :: "journal \<Rightarrow> (string \<times> string list) list" where
  "item_names j = map (\<lambda>r. (ji_target r, ji_relative r)) (jn_items j)"

lemma item_names_update:
  assumes "\<And>r. ji_target (f r) = ji_target r" "\<And>r. ji_relative (f r) = ji_relative r"
  shows "item_names (update_item k f j) = item_names j"
  by (auto simp: item_names_def items_update assms)

definition recovering :: "txn \<Rightarrow> (string \<times> string list) list \<Rightarrow> string set \<Rightarrow> setup_disk \<Rightarrow> bool" where
  "recovering X tr D s \<longleftrightarrow> writing X s \<and> item_names (me_journal s) = tr \<and>
     (\<forall>k p. (k, p) \<in> set tr \<and> k \<in> D \<longrightarrow> same_look (tx_home X p) (node_at s p))"

lemma recovering_writing: "recovering X tr D s \<Longrightarrow> writing X s"
  by (simp add: recovering_def)

lemma item_stage_ok [simp]: "item_ok X F n C (r\<lparr>ji_stage := g\<rparr>) = item_ok X F n C r"
  by (simp add: item_ok_def untouched_def active_def backup_kept_def)

text \<open>An edit of the journal that the invariant does not see is written out.\<close>

lemma triple_invariant_effect:
  assumes "\<And>s. P s \<Longrightarrow> E s" "\<And>s fs. P s \<Longrightarrow> P (s\<lparr>ho_fates := fs\<rparr>)" "\<And>s. P s \<Longrightarrow> P (f s)"
  shows "triple P (effect f) (\<lambda>_. P) E"
proof (rule triple_effect)
  fix s g assume "P s" and g: "g = s\<lparr>ho_fates := tl (ho_fates s)\<rparr>"
  from assms(2) [OF \<open>P s\<close>] g have "P g" by simp
  with assms(1,3) show "E g \<and> E (f g) \<and> P (f g)" by blast
qed

lemma triple_write_invariant:
  assumes "\<And>s. P s \<Longrightarrow> E s" "\<And>s fs. P s \<Longrightarrow> P (s\<lparr>ho_fates := fs\<rparr>)" "\<And>s. P s \<Longrightarrow> P (s\<lparr>pv_journal := Some (me_journal s)\<rparr>)"
  shows "triple P write_journal (\<lambda>_. P) E"
  unfolding write_journal_def
  by (rule triple_bind [OF triple_private_dir triple_invariant_effect]) (rule assms, assumption)+

lemma triple_note_invariant:
  assumes "\<And>s. P s \<Longrightarrow> E s" "\<And>s fs. P s \<Longrightarrow> P (s\<lparr>ho_fates := fs\<rparr>)" "\<And>s. P s \<Longrightarrow> P (s\<lparr>pv_journal := Some (me_journal s)\<rparr>)"
    and "\<And>s. P s \<Longrightarrow> P (s\<lparr>me_journal := update_item k f (me_journal s)\<rparr>)"
  shows "triple P (note_item k f) (\<lambda>_. P) E"
  unfolding note_item_def
  by (rule triple_bind [OF triple_remember triple_write_invariant]) (rule assms, assumption)+

lemma recovering_stable:
  assumes "recovering X tr D s"
  shows "recovering X tr D (s\<lparr>ho_fates := fs\<rparr>)" "recovering X tr D (s\<lparr>pv_journal := Some (me_journal s)\<rparr>)"
    "recovering X tr D (s\<lparr>pv_state := st\<rparr>)"
  using assms by (auto simp: recovering_def writing_def)

lemma journal_kept_stage: "journal_kept X F N C j \<Longrightarrow> journal_kept X F N C (update_item k (\<lambda>r. r\<lparr>ji_stage := g\<rparr>) j)"
  by (auto simp: journal_kept_def items_update comp_def if_distrib [of ji_target] if_distrib [of ji_relative] cong: if_cong)

lemma triple_stage:
  "triple (recovering X tr D) (note_item k (\<lambda>r. r\<lparr>ji_stage := g\<rparr>)) (\<lambda>_. recovering X tr D) (writing X)"
proof (rule triple_note_invariant)
  fix s assume "recovering X tr D s"
  then show "recovering X tr D (s\<lparr>me_journal := update_item k (\<lambda>r. r\<lparr>ji_stage := g\<rparr>) (me_journal s)\<rparr>)"
    by (auto simp: recovering_def writing_def item_names_update intro: journal_kept_stage)
qed (auto intro: recovering_stable recovering_writing)

text \<open>One target of the recovery.\<close>

lemma triple_the_item:
  assumes "\<And>s. P s \<Longrightarrow> E s"
  shows "triple P (the_item k) (\<lambda>r s. P s \<and> find_item k (me_journal s) = Some r) E"
  unfolding the_item_def by (rule triple_get) (auto simp: assms split: option.splits)

lemma recovering_under_way: "recovering X tr D s \<Longrightarrow> under_way X (node_at s) (map_of (pv_files s)) (me_journal s) s"
  by (simp add: recovering_def under_way_def nodes_like_def)

text \<open>A target that the recovery does not restore looks as before; any other one can be restored.\<close>

lemma recovery_choice:
  assumes X: "txn_ok X" "tx_sha X = te_sha env" and s: "recovering X tr D s" and r: "find_item k (me_journal s) = Some r"
    and i: "recovery_identity env r s = Inr i"
  shows "if i = ji_before r \<or> Some i = ji_recovery r then same_look (tx_home X (ji_relative r)) (node_at s (ji_relative r))
    else active X (map_of (pv_files s)) (node_at s (ji_relative r)) (ho_clock s) r \<and> ji_intended r = Some i \<and>
      matches (te_sha env) i (node_at s (ji_relative r))"
proof -
  from s have w: "writing X s" by (simp add: recovering_def)
  from find_item_in [OF r] w have "item_ok X (map_of (pv_files s)) (node_at s (ji_relative r)) (ho_clock s) r"
    by (auto simp: writing_def journal_kept_def)
  from item_recovery [OF X this _ refl i] w show ?thesis by (auto simp: writing_def around_def)
qed

lemma target_of_item:
  assumes "recovering X tr D s" "find_item k (me_journal s) = Some r"
  shows "(k, ji_relative r) \<in> set tr" "ji_relative r \<in> set (tx_paths X)" "distinct (map fst tr)" "distinct (map snd tr)"
    "set (map snd tr) \<subseteq> set (tx_paths X)"
proof -
  from assms(1) have j: "journal_kept X (map_of (pv_files s)) (node_at s) (ho_clock s) (me_journal s)"
    and tr: "tr = item_names (me_journal s)" by (auto simp: recovering_def writing_def)
  from find_item_in [OF assms(2)] have r: "r \<in> set (jn_items (me_journal s))" "ji_target r = k" by auto
  then show "(k, ji_relative r) \<in> set tr" by (auto simp: tr item_names_def)
  show "ji_relative r \<in> set (tx_paths X)" "distinct (map fst tr)" "distinct (map snd tr)" "set (map snd tr) \<subseteq> set (tx_paths X)"
    using j r by (auto simp: journal_kept_def tr item_names_def comp_def)
qed

definition to_restore ::
  "txn \<Rightarrow> (string \<times> string list) list \<Rightarrow> string set \<Rightarrow> string \<Rightarrow> ident \<Rightarrow> jitem \<Rightarrow> setup_disk \<Rightarrow> bool" where
  "to_restore X tr D k i r s \<longleftrightarrow> recovering X tr D s \<and> find_item k (me_journal s) = Some r \<and>
     active X (map_of (pv_files s)) (node_at s (ji_relative r)) (ho_clock s) r \<and> ji_intended r = Some i \<and>
     matches (tx_sha X) i (node_at s (ji_relative r))"

lemma triple_restore_item:
  assumes X: "txn_ok X" "tx_sha X = te_sha env"
  shows "triple (to_restore X tr D k i r)
    (case ji_backup r of None \<Rightarrow> raiseS (Broken System)
     | Some b \<Rightarrow> restore_one env (ji_relative r) b (\<lambda>x. note_item k (\<lambda>r. r\<lparr>ji_recovery := Some x\<rparr>)) i)
    (\<lambda>_. recovering X tr (insert k D)) (writing X)"
proof (cases "ji_backup r")
  case None
  then show ?thesis by (auto simp: to_restore_def recovering_writing intro!: triple_raise)
next
  case (Some b)
  let ?p = "ji_relative r" let ?h = "tx_home X (ji_relative r)"
  have main: "triple (\<lambda>s. to_restore X tr D k i r s \<and> (node_at s, map_of (pv_files s), me_journal s) = (N, F, j))
      (restore_one env ?p b (\<lambda>x. note_item k (recovers x)) i) (\<lambda>_. recovering X tr (insert k D)) (writing X)" for N F j
  proof (rule triple_fact)
    assume "\<exists>s. to_restore X tr D k i r s \<and> (node_at s, map_of (pv_files s), me_journal s) = (N, F, j)"
    then obtain s0 where s0: "to_restore X tr D k i r s0" "node_at s0 = N" "map_of (pv_files s0) = F" "me_journal s0 = j" by auto
    then have rec: "recovering X tr D s0" and r: "find_item k j = Some r"
      and act: "active X F (N ?p) (ho_clock s0) r" and int: "ji_intended r = Some i" and m: "matches (tx_sha X) i (N ?p)"
      by (simp_all add: to_restore_def)
    from act Some have bk: "backup_kept X F r b" and before: "matches (tx_sha X) (ji_before r) ?h" by (auto simp: active_def)
    from rec r s0(4) have tgt: "(k, ?p) \<in> set tr" "?p \<in> set (tx_paths X)" "distinct (map fst tr)" "distinct (map snd tr)"
      "set (map snd tr) \<subseteq> set (tx_paths X)" and names: "item_names j = tr"
      using target_of_item [of X tr D s0 k r] by (auto simp: recovering_def)
    note step = restore_step [where F = F, OF int m]
    have I: "x = Absent \<longrightarrow> ?h = None" if "x = Absent \<longleftrightarrow> bk_before b = Absent" for x
      using that bk before by (auto simp: backup_kept_def)
    show ?thesis
    proof (rule triple_weaken [OF triple_restore_one [where N = N and j = j, OF X(1) tgt(2) X(2) r refl step I restored_looks [OF bk before]]])
      fix s assume "to_restore X tr D k i r s \<and> (node_at s, map_of (pv_files s), me_journal s) = (N, F, j)"
      then show "under_way X N F j s" using recovering_under_way [of X tr D s] by (auto simp: to_restore_def)
    next
      fix u :: unit and s
      assume "\<exists>x n. restored_node (te_sha env) F b n \<and> matches (tx_sha X) x n \<and> under_way X (N(?p := n)) F (update_item k (recovers x) j) s"
      then obtain x n where n: "restored_node (te_sha env) F b n" and uw: "under_way X (N(?p := n)) F (update_item k (recovers x) j) s" by blast
      have new: "item_names (me_journal s) = tr" using uw names by (simp add: under_way_def item_names_update recovers_def)
      have "same_look (tx_home X q) (node_at s q)" if "(l, q) \<in> set tr" "l \<in> insert k D" for l q
      proof -
        from that(1) tgt(5) have "q \<in> set (tx_paths X)" by (force simp: image_iff)
        with uw have q: "node_at s q = (N(?p := n)) q" by (simp add: under_way_def nodes_like_def)
        show ?thesis
        proof (cases "q = ?p")
          case True
          with q restored_looks [OF bk before n] show ?thesis by simp
        next
          case False
          have "l \<noteq> k" using tgt(1,3) that(1) False by (metis Pair_inject eq_key_imp_eq_value)
          with that rec s0(2) q False show ?thesis by (auto simp: recovering_def)
        qed
      qed
      then have "\<forall>l q. (l, q) \<in> set tr \<and> l \<in> insert k D \<longrightarrow> same_look (tx_home X q) (node_at s q)" by blast
      with uw new show "recovering X tr (insert k D) s" unfolding recovering_def under_way_def by simp
    qed
  qed blast
  have "triple (to_restore X tr D k i r) (restore_one env ?p b (\<lambda>x. note_item k (recovers x)) i) (\<lambda>_. recovering X tr (insert k D)) (writing X)"
  proof (rule triple_given [where f = "\<lambda>s. (node_at s, map_of (pv_files s), me_journal s)"])
    fix v :: "(string list \<Rightarrow> node option) \<times> (string \<Rightarrow> private_file option) \<times> journal"
    show "triple (\<lambda>s. to_restore X tr D k i r s \<and> (node_at s, map_of (pv_files s), me_journal s) = v)
      (restore_one env ?p b (\<lambda>x. note_item k (recovers x)) i) (\<lambda>_. recovering X tr (insert k D)) (writing X)"
      using main by (cases v) auto
  qed
  then show ?thesis by (simp add: Some recovers_def [abs_def])
qed

lemma triple_recover_target:
  assumes X: "txn_ok X" "tx_sha X = te_sha env"
  shows "triple (recovering X tr D) (recover_target env k st) (\<lambda>_. recovering X tr (insert k D)) (writing X)"
proof -
  let ?R = "recovering X tr D" let ?S = "recovering X tr (insert k D)"
  let ?act = "to_restore X tr D k"
  let ?skip = "\<lambda>i r. i = ji_before r \<or> Some i = ji_recovery r"
  have identity: "triple (\<lambda>s. ?R s \<and> find_item k (me_journal s) = Some r) (getS (recovery_identity env r))
      (\<lambda>i s. if ?skip i r then ?S s else ?act i r s) (writing X)" for r
  proof (rule triple_get)
    fix s i assume s: "?R s \<and> find_item k (me_journal s) = Some r" and i: "recovery_identity env r s = Inr i"
    have rec: "?R s" and r: "find_item k (me_journal s) = Some r" using s by simp_all
    note tgt = target_of_item [OF rec r]
    have "q = ji_relative r" if "(k, q) \<in> set tr" for q using that tgt(1,3) by (metis eq_key_imp_eq_value)
    then show "if ?skip i r then ?S s else ?act i r s"
      using recovery_choice [OF X rec r i] rec r X(2) by (auto simp: recovering_def to_restore_def split: if_splits)
  qed (auto simp: recovering_writing)
  have restore: "triple (\<lambda>s. if ?skip i r then ?S s else ?act i r s)
      (if i \<noteq> ji_before r \<and> Some i \<noteq> ji_recovery r
       then bindS (case ji_backup r of None \<Rightarrow> raiseS (Broken System)
           | Some b \<Rightarrow> restore_one env (ji_relative r) b (\<lambda>x. note_item k (\<lambda>r. r\<lparr>ji_recovery := Some x\<rparr>)) i)
         (\<lambda>_. note_item k (\<lambda>r. r\<lparr>ji_stage := Stage_Recovered\<rparr>))
       else returnS ()) (\<lambda>_. ?S) (writing X)" for i r
  proof (cases "?skip i r")
    case True
    then show ?thesis by (auto intro: triple_return)
  next
    case False
    then have t: "triple (?act i r) (bindS (case ji_backup r of None \<Rightarrow> raiseS (Broken System)
           | Some b \<Rightarrow> restore_one env (ji_relative r) b (\<lambda>x. note_item k (\<lambda>r. r\<lparr>ji_recovery := Some x\<rparr>)) i)
         (\<lambda>_. note_item k (\<lambda>r. r\<lparr>ji_stage := Stage_Recovered\<rparr>))) (\<lambda>_. ?S) (writing X)"
      using triple_restore_item [OF X] by (intro triple_bind [OF _ triple_stage])
    from False have "(i \<noteq> ji_before r \<and> Some i \<noteq> ji_recovery r) = True" "?skip i r = False" by auto
    with t show ?thesis by (simp only: if_True if_False)
  qed
  have finish: "triple ?S (if map_of (ts_targets st) k = None then returnS st
       else bindS (the_item k) (\<lambda>r. bindS (getS (recovery_identity env r)) (\<lambda>i. returnS (set_after k i st)))) (\<lambda>_. ?S) (writing X)"
    by (auto intro!: triple_if triple_return triple_get triple_bind [where R = "\<lambda>_. ?S"] simp: the_item_def dest: recovering_writing)
  show ?thesis
    unfolding recover_target_def
    by (rule triple_bind [OF triple_the_item triple_bind [OF identity triple_bind [OF restore finish]]]) (rule recovering_writing)
qed

section \<open>The whole recovery\<close>

lemma triple_recover_targets:
  assumes X: "txn_ok X" "tx_sha X = te_sha env"
  shows "triple (recovering X tr D) (recover_targets env ks st) (\<lambda>_. recovering X tr (set ks \<union> D)) (writing X)"
proof (induction ks arbitrary: st D)
  case Nil
  then show ?case by (simp add: triple_return)
next
  case (Cons k ks)
  have "triple (recovering X tr D) (bindS (recover_target env k st) (recover_targets env ks))
      (\<lambda>_. recovering X tr (set ks \<union> insert k D)) (writing X)"
    by (rule triple_bind [OF triple_recover_target [OF X]]) (rule Cons.IH)
  then show ?case by simp
qed

lemma triple_payload:
  assumes "\<And>s. P s \<Longrightarrow> E s"
  shows "triple P (payload_there env g) (\<lambda>_. P) E"
  by (cases g) (auto simp: payload_there_def intro!: triple_return triple_get triple_bind [where R = "\<lambda>_. P"] assms)

lemma triple_verify_item:
  assumes "\<And>s. P s \<Longrightarrow> E s"
  shows "triple P (verify_item env r) (\<lambda>_. P) E"
  unfolding verify_item_def
  by (cases "ji_backup r")
    (auto intro!: triple_return triple_get triple_ensure triple_payload triple_bind [where R = "\<lambda>_. P"] assms)

lemma recovering_all_back:
  assumes "recovering X tr (set (map fst tr)) s"
  shows "all_back X (node_at s)"
proof -
  from assms have j: "journal_kept X (map_of (pv_files s)) (node_at s) (ho_clock s) (me_journal s)"
    and tr: "tr = item_names (me_journal s)"
    and looks: "\<And>k p. (k, p) \<in> set tr \<Longrightarrow> same_look (tx_home X p) (node_at s p)"
    by (auto simp: recovering_def writing_def image_iff) (metis fst_conv)
  show ?thesis
    unfolding all_back_def
  proof
    fix p assume p: "p \<in> set (tx_paths X)"
    show "same_look (tx_home X p) (node_at s p)"
    proof (cases "p \<in> set (map ji_relative (jn_items (me_journal s)))")
      case True
      then obtain r where "r \<in> set (jn_items (me_journal s))" "p = ji_relative r" by auto
      then show ?thesis using looks [of "ji_target r" p] by (auto simp: tr item_names_def)
    next
      case False
      with p j show ?thesis by (auto simp: journal_kept_def same_look_def)
    qed
  qed
qed

lemma disk_safe_fates [simp]: "disk_safe X A (s\<lparr>ho_fates := fs\<rparr>) = disk_safe X A s"
  by (simp add: disk_safe_def split: option.split)

lemma start_recovering:
  assumes "disk_safe X A s" "pv_journal s = Some j" "jn_phase j \<noteq> Committed"
  shows "recovering X (item_names j) {} (s\<lparr>me_journal := j\<lparr>jn_phase := Recovery_Pending\<rparr>\<rparr>)"
  using assms by (auto simp: disk_safe_def recovering_def writing_def item_names_def)

lemma triple_unlink:
  assumes "\<And>s. P s \<Longrightarrow> E s" "\<And>s fs. P s \<Longrightarrow> P (s\<lparr>ho_fates := fs\<rparr>)" "\<And>s. P s \<Longrightarrow> Q (s\<lparr>pv_journal := None\<rparr>)"
    and "\<And>s. Q s \<Longrightarrow> E s"
  shows "triple P unlink_journal (\<lambda>_. Q) E"
  unfolding unlink_journal_def
proof (rule triple_effect)
  fix s g assume "P s" and g: "g = s\<lparr>ho_fates := tl (ho_fates s)\<rparr>"
  from assms(2) [OF \<open>P s\<close>] g have "P g" by simp
  with assms(1,3,4) show "E g \<and> E (g\<lparr>pv_journal := None\<rparr>) \<and> Q (g\<lparr>pv_journal := None\<rparr>)" by blast
qed

lemma triple_recover:
  assumes X: "txn_ok X" "tx_sha X = te_sha env"
  shows "triple (disk_safe X A) (recover env) (\<lambda>_ s. disk_safe X A s \<and> pv_journal s = None) (disk_safe X A)"
proof -
  let ?Q = "\<lambda>s. disk_safe X A s \<and> pv_journal s = None"
  have E: "writing X s \<Longrightarrow> disk_safe X A s" for s by (rule writing_disk_safe)
  have start: "triple (disk_safe X A) (getS (read_journal env)) (\<lambda>j s. disk_safe X A s \<and> pv_journal s = j) (disk_safe X A)"
    by (rule triple_get) (auto simp: read_journal_def split: option.splits if_splits)
  have committed: "triple (\<lambda>s. disk_safe X A s \<and> pv_journal s = Some j) (bindS unlink_journal (\<lambda>_. returnS Already_Committed)) (\<lambda>_. ?Q) (disk_safe X A)"
    if "jn_phase j = Committed" for j
    by (rule triple_bind [OF triple_unlink [where Q = ?Q]]) (use that in \<open>auto simp: disk_safe_def intro: triple_return\<close>)
  have pending: "triple (\<lambda>s. disk_safe X A s \<and> pv_journal s = Some j) (recover_pending env j) (\<lambda>_. ?Q) (disk_safe X A)"
    if "jn_phase j \<noteq> Committed" for j
  proof -
    let ?P = "\<lambda>s. disk_safe X A s \<and> pv_journal s = Some j" let ?tr = "item_names j"
    let ?R = "recovering X ?tr {}" let ?D = "recovering X ?tr (set (map fst ?tr))"
    have check: "triple ?P (each (verify_item env) (jn_items j)) (\<lambda>_. ?P) (disk_safe X A)"
      by (rule triple_each, rule triple_verify_item) simp
    have load: "triple ?P (remember (\<lambda>_. j\<lparr>jn_phase := Recovery_Pending\<rparr>)) (\<lambda>_. ?R) (disk_safe X A)"
      by (rule triple_remember) (use that start_recovering in auto)
    have out: "triple ?R write_journal (\<lambda>_. ?R) (disk_safe X A)"
      by (rule triple_write_invariant) (auto intro: recovering_stable E recovering_writing)
    have restore: "triple ?R (recover_targets env (rev (map ji_target (jn_items j))) st) (\<lambda>_. ?D) (disk_safe X A)" for st
      by (rule triple_weaken [OF triple_recover_targets [OF X]]) (auto simp: item_names_def comp_def E)
    have state: "triple ?D (write_state_file st) (\<lambda>_. ?D) (disk_safe X A)" for st
      unfolding write_state_file_def
      by (rule triple_bind [OF triple_private_dir triple_invariant_effect]) (auto intro: recovering_stable E recovering_writing)
    have unlink: "triple ?D unlink_journal (\<lambda>_. ?Q) (disk_safe X A)"
    proof (rule triple_unlink)
      fix s assume s: "?D s"
      then show "?Q (s\<lparr>pv_journal := None\<rparr>)"
        using recovering_all_back [OF s] by (auto simp: disk_safe_def recovering_def writing_def)
    qed (auto intro: recovering_stable E recovering_writing)
    show ?thesis
      unfolding recover_pending_def
      by (rule triple_bind [OF check triple_bind [OF load triple_bind [OF out triple_bind [OF restore
          triple_bind [OF state triple_bind [OF unlink]]]]]]) (rule triple_return)
  qed
  show ?thesis
    unfolding recover_def
  proof (rule triple_bind [OF start])
    fix jo
    show "triple (\<lambda>s. disk_safe X A s \<and> pv_journal s = jo)
      (case jo of None \<Rightarrow> returnS Nothing_Pending
       | Some j \<Rightarrow> if jn_phase j = Committed then bindS unlink_journal (\<lambda>_. returnS Already_Committed) else recover_pending env j)
      (\<lambda>_. ?Q) (disk_safe X A)"
      using committed pending by (cases jo) (auto intro: triple_return)
  qed
qed

end
