(* ===== verification/Config_Preparation.thy ===== *)
theory Config_Preparation
  imports Config_Recovery
begin

text \<open>
  The preparation of an approved change of public configuration: while the journal and the backups are
  written the home stays as it is, and in the end every item of the journal has a faithful backup.
\<close>

section \<open>The items of an apply\<close>

abbreviation tid_of :: "planned \<Rightarrow> string" where
  "tid_of t \<equiv> ar_id (pt_artifact t)"

abbreviation path_of :: "planned \<Rightarrow> string list" where
  "path_of t \<equiv> ar_destination (pt_artifact t)"

definition apply_txn :: "setup_env \<Rightarrow> preview \<Rightarrow> setup_disk \<Rightarrow> txn" where
  "apply_txn env pw s = \<lparr>tx_sha = te_sha env, tx_home = node_at s, tx_clock = ho_clock s, tx_paths = map path_of (changes_of pw)\<rparr>"

definition item_head :: "jitem \<Rightarrow> string \<times> string list \<times> ident" where
  "item_head r = (ji_target r, ji_relative r, ji_before r)"

definition same_items :: "planned list \<Rightarrow> journal \<Rightarrow> bool" where
  "same_items ts j \<longleftrightarrow> map item_head (jn_items j) = map (\<lambda>t. (tid_of t, path_of t, pt_before t)) ts"

lemma same_items_update:
  assumes "\<And>r. item_head (f r) = item_head r"
  shows "same_items ts (update_item k f j) = same_items ts j"
proof -
  have "map item_head (jn_items (update_item k f j)) = map item_head (jn_items j)" by (auto simp: items_update assms)
  then show ?thesis by (simp add: same_items_def)
qed

lemma same_items_phase [simp]: "same_items ts (j\<lparr>jn_phase := p\<rparr>) = same_items ts j"
  by (simp add: same_items_def)

lemma same_items_item:
  assumes "same_items ts j" "r \<in> set (jn_items j)"
  shows "\<exists>t\<in>set ts. ji_target r = tid_of t \<and> ji_relative r = path_of t \<and> ji_before r = pt_before t"
proof -
  from assms(2) have "item_head r \<in> set (map item_head (jn_items j))" by simp
  with assms(1) have "item_head r \<in> set (map (\<lambda>t. (tid_of t, path_of t, pt_before t)) ts)" by (simp add: same_items_def)
  then show ?thesis by (auto simp: item_head_def)
qed

lemma same_items_target:
  assumes "same_items ts j" "t \<in> set ts"
  shows "\<exists>r\<in>set (jn_items j). ji_target r = tid_of t \<and> ji_relative r = path_of t \<and> ji_before r = pt_before t"
proof -
  from assms(2) have "(tid_of t, path_of t, pt_before t) \<in> set (map (\<lambda>t. (tid_of t, path_of t, pt_before t)) ts)" by auto
  with assms(1) have "(tid_of t, path_of t, pt_before t) \<in> set (map item_head (jn_items j))" by (simp add: same_items_def)
  then show ?thesis by (auto simp: item_head_def)
qed

lemma same_items_names:
  assumes "same_items ts j"
  shows "map ji_target (jn_items j) = map tid_of ts" "map ji_relative (jn_items j) = map path_of ts"
proof -
  from assms have "map fst (map item_head (jn_items j)) = map fst (map (\<lambda>t. (tid_of t, path_of t, pt_before t)) ts)"
    "map (fst \<circ> snd) (map item_head (jn_items j)) = map (fst \<circ> snd) (map (\<lambda>t. (tid_of t, path_of t, pt_before t)) ts)"
    by (simp_all only: same_items_def)
  then show "map ji_target (jn_items j) = map tid_of ts" "map ji_relative (jn_items j) = map path_of ts"
    by (simp_all add: item_head_def comp_def)
qed

text \<open>What a preview guarantees: every target has an identifier and a place of its own.\<close>

definition preview_ok :: "preview \<Rightarrow> bool" where
  "preview_ok pw \<longleftrightarrow> distinct (map tid_of (pw_targets pw)) \<and> apart (map path_of (changes_of pw))"

lemma changes_in: "set (changes_of pw) \<subseteq> set (pw_targets pw)"
  by (auto simp: changes_of_def Let_def)

lemma changes_distinct:
  assumes "preview_ok pw"
  shows "distinct (map tid_of (changes_of pw))"
proof -
  let ?c = "filter (\<lambda>t. pt_action t \<noteq> Unchanged) (pw_targets pw)"
  have inj: "inj_on tid_of (set (pw_targets pw))" and d: "distinct (pw_targets pw)"
    using assms by (simp_all add: preview_ok_def distinct_map)
  have "distinct (changes_of pw)" using d by (auto simp: changes_of_def Let_def)
  with inj changes_in [of pw] show ?thesis by (auto simp: distinct_map intro: inj_on_subset)
qed

section \<open>The invariant of the preparation\<close>

definition fresh_item :: "jitem \<Rightarrow> bool" where
  "fresh_item r \<longleftrightarrow> ji_intended r = None \<and> ji_after r = None \<and> ji_recovery r = None \<and> ji_expected r = None"

definition backup_noted ::
  "setup_env \<Rightarrow> string \<Rightarrow> (string list \<Rightarrow> node option) \<Rightarrow> (string \<Rightarrow> private_file option) \<Rightarrow> jitem \<Rightarrow> backup \<Rightarrow> bool" where
  "backup_noted env tid H F r b \<longleftrightarrow> bk_before b = ji_before r \<and>
     (case ji_before r of
        File_At st d \<Rightarrow> bk_path b = Some (backup_path env tid (ji_target r)) \<and>
          (\<exists>c k f. H (ji_relative r) = Some (Regular st c k) \<and> F (backup_path env tid (ji_target r)) = Some f \<and> pf_content f = c)
      | _ \<Rightarrow> True)"

definition journal_prepared ::
  "setup_env \<Rightarrow> string \<Rightarrow> planned list \<Rightarrow> (string list \<Rightarrow> node option) \<Rightarrow> (string \<Rightarrow> private_file option) \<Rightarrow> journal \<Rightarrow> bool" where
  "journal_prepared env tid ts H F j \<longleftrightarrow> same_items ts j \<and> jn_phase j \<noteq> Committed \<and>
     (\<forall>r\<in>set (jn_items j). fresh_item r \<and> (\<forall>b. ji_backup r = Some b \<longrightarrow> backup_noted env tid H F r b))"

lemma noted_kept: "backup_noted env tid (tx_home X) F r b \<Longrightarrow> backup_kept X F r b"
  by (auto simp: backup_noted_def backup_kept_def kept_for_def split: ident.splits)

lemma prepared_kept:
  assumes "journal_prepared env tid ts (tx_home X) F j" "distinct (map tid_of ts)" "map path_of ts = tx_paths X" "distinct (tx_paths X)"
  shows "journal_kept X F (tx_home X) C j"
proof -
  from assms(1) have s: "same_items ts j" by (simp add: journal_prepared_def)
  have "item_ok X F (tx_home X (ji_relative r)) C r" if "r \<in> set (jn_items j)" for r
    using assms(1) that by (auto simp: journal_prepared_def item_ok_def untouched_def fresh_item_def intro: noted_kept)
  with same_items_names [OF s] assms(2-4) show ?thesis by (simp add: journal_kept_def)
qed

text \<open>The whole state: \<open>D\<close> are the targets whose backup is in the journal.\<close>

definition preparing :: "setup_env \<Rightarrow> string \<Rightarrow> planned list \<Rightarrow> txn \<Rightarrow> string set \<Rightarrow> setup_disk \<Rightarrow> bool" where
  "preparing env tid ts X D s \<longleftrightarrow> node_at s = tx_home X \<and> ho_clock s = tx_clock X \<and>
     journal_prepared env tid ts (tx_home X) (map_of (pv_files s)) (me_journal s) \<and>
     (\<forall>r\<in>set (jn_items (me_journal s)). ji_target r \<in> D \<longrightarrow> ji_backup r \<noteq> None) \<and>
     (\<forall>j. pv_journal s = Some j \<longrightarrow> journal_prepared env tid ts (tx_home X) (map_of (pv_files s)) j)"

definition txn_for :: "planned list \<Rightarrow> txn \<Rightarrow> bool" where
  "txn_for ts X \<longleftrightarrow> txn_ok X \<and> distinct (map tid_of ts) \<and> map path_of ts = tx_paths X"

lemma home_around: "txn_ok X \<Longrightarrow> around X (tx_home X)"
  by (auto simp: around_def txn_ok_def)

lemma preparing_disk_safe:
  assumes X: "txn_for ts X" and s: "preparing env tid ts X D s"
  shows "disk_safe X A s"
proof -
  have d: "distinct (tx_paths X)" using X by (simp add: txn_for_def txn_ok_def apart_def)
  have "journal_kept X (map_of (pv_files s)) (tx_home X) (ho_clock s) j" if "pv_journal s = Some j" for j
    using s that X d prepared_kept [of env tid ts X _ j] by (auto simp: preparing_def txn_for_def)
  moreover have "all_back X (tx_home X)" by (simp add: all_back_def same_look_def)
  ultimately show ?thesis
    using s X home_around [of X] by (auto simp: disk_safe_def preparing_def txn_for_def journal_prepared_def split: option.split)
qed

lemma preparing_stable:
  assumes "preparing env tid ts X D s"
  shows "preparing env tid ts X D (s\<lparr>ho_fates := fs\<rparr>)" "preparing env tid ts X D (s\<lparr>pv_journal := Some (me_journal s)\<rparr>)"
    "preparing env tid ts X D (s\<lparr>pv_journal := None\<rparr>)" "preparing env tid ts X D (s\<lparr>me_entry := e\<rparr>)"
    "p \<noteq> Committed \<Longrightarrow> preparing env tid ts X D (s\<lparr>me_journal := (me_journal s)\<lparr>jn_phase := p\<rparr>\<rparr>)"
  using assms by (auto simp: preparing_def journal_prepared_def)

section \<open>The backups\<close>

lemma backup_path_eq [simp]: "backup_path env tid k = backup_path env tid l \<longleftrightarrow> k = l"
  by (simp add: backup_path_def)

lemma map_of_replace: "(map_of (filter (\<lambda>e. fst e \<noteq> q) xs))(q \<mapsto> f) = (map_of xs)(q \<mapsto> f)"
  by (rule ext) (simp add: map_of_filter_other)

lemma noted_file:
  assumes "backup_noted env tid H F r b" "ji_target r = k \<Longrightarrow> \<exists>st m. H (ji_relative r) = Some (Regular st c m)" "pf_content f = c"
  shows "backup_noted env tid H (F(backup_path env tid k \<mapsto> f)) r b"
  using assms by (cases "ji_target r = k") (auto simp: backup_noted_def split: ident.splits)

lemma journal_prepared_file:
  assumes j: "journal_prepared env tid (changes_of pw) H F j" and pw: "distinct (map tid_of (pw_targets pw))" "t \<in> set (pw_targets pw)"
    and c: "H (path_of t) = Some (Regular st c m)" "pf_content f = c"
  shows "journal_prepared env tid (changes_of pw) H (F(backup_path env tid (tid_of t) \<mapsto> f)) j"
proof -
  have "backup_noted env tid H (F(backup_path env tid (tid_of t) \<mapsto> f)) r b"
    if r: "r \<in> set (jn_items j)" and b: "ji_backup r = Some b" for r b
  proof (rule noted_file [OF _ _ c(2)])
    show "backup_noted env tid H F r b" using j r b by (simp add: journal_prepared_def)
    assume k: "ji_target r = tid_of t"
    from same_items_item [of "changes_of pw" j r] j r obtain u
      where u: "u \<in> set (changes_of pw)" "ji_target r = tid_of u" "ji_relative r = path_of u" by (auto simp: journal_prepared_def)
    from u(1) changes_in have "u \<in> set (pw_targets pw)" by blast
    with k u(2) pw have "u = t" by (metis distinct_map inj_onD)
    with u(3) c(1) show "\<exists>st m. H (ji_relative r) = Some (Regular st c m)" by auto
  qed
  with j show ?thesis by (simp add: journal_prepared_def)
qed

lemma preparing_file:
  assumes s: "preparing env tid (changes_of pw) X D s" and pw: "distinct (map tid_of (pw_targets pw))" "t \<in> set (pw_targets pw)"
    and c: "tx_home X (path_of t) = Some (Regular st c m)" "pf_content f = c"
  shows "preparing env tid (changes_of pw) X D
    (s\<lparr>pv_files := (backup_path env tid (tid_of t), f) # filter (\<lambda>e. fst e \<noteq> backup_path env tid (tid_of t)) (pv_files s)\<rparr>)"
  using s journal_prepared_file [where H = "tx_home X", OF _ pw c] by (auto simp: preparing_def map_of_replace)

lemma backup_noted_set [simp]: "backup_noted env tid H F (r\<lparr>ji_backup := x\<rparr>) b = backup_noted env tid H F r b"
  by (simp add: backup_noted_def split: ident.split)

lemma preparing_noted:
  assumes s: "preparing env tid ts X D s"
    and b: "\<And>r. r \<in> set (jn_items (me_journal s)) \<Longrightarrow> ji_target r = k \<Longrightarrow> backup_noted env tid (tx_home X) (map_of (pv_files s)) r b"
  shows "preparing env tid ts X (insert k D) (s\<lparr>me_journal := update_item k (\<lambda>r. r\<lparr>ji_backup := Some b\<rparr>) (me_journal s)\<rparr>)"
proof -
  let ?j = "update_item k (\<lambda>r. r\<lparr>ji_backup := Some b\<rparr>) (me_journal s)"
  have same: "same_items ts ?j = same_items ts (me_journal s)" by (rule same_items_update) (simp add: item_head_def)
  have "fresh_item q \<and> (\<forall>c. ji_backup q = Some c \<longrightarrow> backup_noted env tid (tx_home X) (map_of (pv_files s)) q c) \<and>
      (ji_target q \<in> insert k D \<longrightarrow> ji_backup q \<noteq> None)" if q: "q \<in> set (jn_items ?j)" for q
  proof -
    from q obtain r where r: "r \<in> set (jn_items (me_journal s))" "q = (if ji_target r = k then r\<lparr>ji_backup := Some b\<rparr> else r)"
      by (auto simp: items_update)
    from s r(1) have "fresh_item r" "\<forall>c. ji_backup r = Some c \<longrightarrow> backup_noted env tid (tx_home X) (map_of (pv_files s)) r c"
      "ji_target r \<in> D \<longrightarrow> ji_backup r \<noteq> None" by (auto simp: preparing_def journal_prepared_def)
    with b [OF r(1)] r(2) show ?thesis by (auto simp: fresh_item_def)
  qed
  with s same show ?thesis by (auto simp: preparing_def journal_prepared_def)
qed

lemma preparing_mono: "preparing env tid ts X D s \<Longrightarrow> C \<subseteq> D \<Longrightarrow> preparing env tid ts X C s"
  by (auto simp: preparing_def)

text \<open>A target that is not changed has no item.\<close>

lemma preparing_insert:
  assumes "preparing env tid ts X D s" "k \<notin> tid_of ` set ts"
  shows "preparing env tid ts X (insert k D) s"
proof -
  have "ji_target r \<noteq> k" if "r \<in> set (jn_items (me_journal s))" for r
    using same_items_item [of ts "me_journal s" r] assms that by (auto simp: preparing_def journal_prepared_def)
  with assms(1) show ?thesis by (auto simp: preparing_def)
qed

definition backup_for :: "setup_env \<Rightarrow> string \<Rightarrow> (string list \<Rightarrow> node option) \<Rightarrow> planned \<Rightarrow> backup \<Rightarrow> (string \<Rightarrow> private_file option) \<Rightarrow> bool" where
  "backup_for env tid H t b F \<longleftrightarrow> bk_before b = pt_before t \<and>
     (case pt_before t of
        File_At st d \<Rightarrow> bk_path b = Some (backup_path env tid (tid_of t)) \<and>
          (\<exists>c k f. H (path_of t) = Some (Regular st c k) \<and> F (backup_path env tid (tid_of t)) = Some f \<and> pf_content f = c)
      | _ \<Rightarrow> True)"

lemma triple_backup_one:
  assumes X: "txn_ok X" and pw: "distinct (map tid_of (pw_targets pw))" "t \<in> set (pw_targets pw)"
    and m: "matches (te_sha env) (pt_before t) (tx_home X (path_of t))"
  shows "triple (preparing env tid (changes_of pw) X D) (backup_one env tid t)
    (\<lambda>b s. preparing env tid (changes_of pw) X D s \<and> backup_for env tid (tx_home X) t b (map_of (pv_files s)))
    (preparing env tid (changes_of pw) X D)"
proof (cases "\<exists>st d. pt_before t = File_At st d")
  case False
  then show ?thesis
    by (cases "pt_before t") (auto simp: backup_one_def Let_def backup_for_def plain_backup_def intro!: triple_return)
next
  case True
  then obtain st d where f: "pt_before t = File_At st d" by blast
  with m obtain c m where h: "tx_home X (path_of t) = Some (Regular st c m)" by (auto elim: matches.elims)
  let ?P = "preparing env tid (changes_of pw) X D" let ?q = "backup_path env tid (tid_of t)"
  let ?R = "\<lambda>s. ?P s \<and> (\<exists>f. map_of (pv_files s) ?q = Some f \<and> pf_content f = c)"
  have read: "triple ?P (getS (read_regular (path_of t) (pt_before t))) (\<lambda>x s. ?P s \<and> x = c) ?P"
  proof (rule triple_get)
    fix s x assume "?P s" and "read_regular (path_of t) (pt_before t) s = Inr x"
    with read_regular_node [of "path_of t" "pt_before t" s x] h show "?P s \<and> x = c" by (auto simp: preparing_def)
  qed
  have copy: "triple ?P (atomic_bytes ?q c) (\<lambda>_. ?R) ?P"
    unfolding atomic_bytes_def
  proof (rule triple_effect)
    fix s g assume "?P s" and g: "g = s\<lparr>ho_fates := tl (ho_fates s)\<rparr>"
    then have "?P g" by (simp add: preparing_stable(1))
    with preparing_file [OF this pw h, of "\<lparr>pf_content = c, pf_mode = 384\<rparr>"]
    show "?P g \<and> ?P (g\<lparr>pv_files := (?q, \<lparr>pf_content = c, pf_mode = 384\<rparr>) # filter (\<lambda>e. fst e \<noteq> ?q) (pv_files g)\<rparr>) \<and>
      ?R (g\<lparr>pv_files := (?q, \<lparr>pf_content = c, pf_mode = 384\<rparr>) # filter (\<lambda>e. fst e \<noteq> ?q) (pv_files g)\<rparr>)" by simp
  qed
  have result: "backup_for env tid (tx_home X) t ((plain_backup (pt_before t))\<lparr>bk_path := Some ?q, bk_digest := d\<rparr>) (map_of (pv_files s))"
    if "?R s" for s using that f h by (auto simp: backup_for_def plain_backup_def)
  have check: "triple ?R (getS g) (\<lambda>_. ?R) ?P" for g :: "setup_disk \<Rightarrow> trouble + unit" by (rule triple_get) auto
  have lifted: "triple ?P (liftS r) (\<lambda>_. ?P) ?P" for r :: "trouble + 'a" by (rule triple_lift)
  have ensured: "triple ?P (ensureS b e) (\<lambda>_. ?P) ?P" for b e by (rule triple_ensure)
  let ?Q = "\<lambda>b s. ?P s \<and> backup_for env tid (tx_home X) t b (map_of (pv_files s))"
  let ?b = "(plain_backup (pt_before t))\<lparr>bk_path := Some ?q, bk_digest := d\<rparr>"
  have finish: "triple ?R (returnS ?b) ?Q ?P" by (rule triple_return) (use result in blast)
  show ?thesis
    unfolding backup_one_def Let_def
    apply (simp only: f ident.case)
    apply (rule triple_bind [OF read [unfolded f]])
    apply (rule_tac A = "x = c" in triple_fact)
     apply simp
     apply (rule triple_bind [OF lifted triple_bind [OF lifted triple_bind [OF ensured triple_bind [OF copy triple_bind [OF check finish [unfolded f]]]]]])
    apply simp
    done
qed

lemma backup_for_noted:
  assumes "backup_for env tid H t b F" "ji_target r = tid_of t" "ji_relative r = path_of t" "ji_before r = pt_before t" "bk_before c = bk_before b" "bk_path c = bk_path b"
  shows "backup_noted env tid H F r c"
  using assms by (simp add: backup_for_def backup_noted_def split: ident.splits)

lemma managed_backup_same [simp]:
  "bk_before (managed_backup st k b) = bk_before b" "bk_path (managed_backup st k b) = bk_path b"
  by (simp_all add: managed_backup_def split: option.split)

lemma triple_note_backup:
  assumes pw: "preview_ok pw" "t \<in> set (changes_of pw)" and b: "bk_before c = bk_before b" "bk_path c = bk_path b"
  shows "triple (\<lambda>s. preparing env tid (changes_of pw) X D s \<and> backup_for env tid (tx_home X) t b (map_of (pv_files s)))
    (note_item (tid_of t) (\<lambda>r. r\<lparr>ji_backup := Some c\<rparr>))
    (\<lambda>_. preparing env tid (changes_of pw) X (insert (tid_of t) D)) (preparing env tid (changes_of pw) X D)"
  unfolding note_item_def
proof (rule triple_bind [OF triple_remember])
  let ?P = "preparing env tid (changes_of pw) X"
  fix s assume s: "?P D s \<and> backup_for env tid (tx_home X) t b (map_of (pv_files s))"
  have "backup_noted env tid (tx_home X) (map_of (pv_files s)) r c"
    if r: "r \<in> set (jn_items (me_journal s))" "ji_target r = tid_of t" for r
  proof (rule backup_for_noted [of env tid _ t b])
    obtain u where u: "u \<in> set (changes_of pw)" "ji_target r = tid_of u" "ji_relative r = path_of u" "ji_before r = pt_before u"
      using same_items_item [of "changes_of pw" "me_journal s" r] s r(1) by (auto simp: preparing_def journal_prepared_def)
    with r(2) pw(2) changes_distinct [OF pw(1)] have "u = t" by (metis distinct_map inj_onD)
    with u show "ji_target r = tid_of t" "ji_relative r = path_of t" "ji_before r = pt_before t" by auto
  qed (use s b in auto)
  with s show "?P (insert (tid_of t) D) (s\<lparr>me_journal := update_item (tid_of t) (\<lambda>r. r\<lparr>ji_backup := Some c\<rparr>) (me_journal s)\<rparr>)"
    using preparing_noted by blast
next
  let ?P = "preparing env tid (changes_of pw) X"
  show "triple (?P (insert (tid_of t) D)) write_journal (\<lambda>_. ?P (insert (tid_of t) D)) (?P D)" for u :: unit
    by (rule triple_write_invariant) (auto intro: preparing_stable elim: preparing_mono)
qed

lemma triple_back_up_target:
  assumes X: "txn_ok X" "tx_sha X = te_sha env" and pw: "preview_ok pw" "t \<in> set (pw_targets pw)"
  shows "triple (preparing env tid (changes_of pw) X D) (back_up_target env pw tid t)
    (\<lambda>_. preparing env tid (changes_of pw) X (insert (tid_of t) D)) (preparing env tid (changes_of pw) X D)"
proof -
  let ?P = "preparing env tid (changes_of pw) X" let ?H = "tx_home X"
  let ?m = "matches (te_sha env) (pt_before t) (?H (path_of t))"
  have ids: "distinct (map tid_of (pw_targets pw))" using pw(1) by (simp add: preview_ok_def)
  have look: "triple (?P D) (getS (identity_with_digest env t)) (\<lambda>i s. ?P D s \<and> matches (te_sha env) i (?H (path_of t))) (?P D)"
  proof (rule triple_get)
    fix s i assume s: "?P D s" and i: "identity_with_digest env t s = Inr i"
    then have "tree (node_at s)" "node_at s = ?H" using X(1) by (auto simp: preparing_def txn_ok_def)
    with identity_with_digest_matches [OF _ i] s show "?P D s \<and> matches (te_sha env) i (?H (path_of t))" by simp
  qed
  have same: "triple (\<lambda>s. ?P D s \<and> matches (te_sha env) i (?H (path_of t))) (ensureS (i = pt_before t) e)
      (\<lambda>_ s. ?P D s \<and> ?m) (?P D)" for i e
    by (rule triple_ensure) auto
  have copy: "triple (\<lambda>s. ?P D s \<and> ?m) (backup_one env tid t)
      (\<lambda>b s. ?P D s \<and> backup_for env tid ?H t b (map_of (pv_files s))) (?P D)"
    by (rule triple_fact [where A = ?m]) (auto intro: triple_pre [OF triple_backup_one [OF X(1) ids pw(2)]])
  have note_it: "triple (\<lambda>s. ?P D s \<and> backup_for env tid ?H t b (map_of (pv_files s)))
      (if list_ex (\<lambda>c. tid_of c = tid_of t) (changes_of pw)
       then note_item (tid_of t) (\<lambda>r. r\<lparr>ji_backup := Some (managed_backup (pw_state pw) (tid_of t) b)\<rparr>) else returnS ())
      (\<lambda>_. ?P (insert (tid_of t) D)) (?P D)" for b
  proof (rule triple_if)
    assume "list_ex (\<lambda>c. tid_of c = tid_of t) (changes_of pw)"
    then obtain c where c: "c \<in> set (changes_of pw)" "tid_of c = tid_of t" by (auto simp: list_ex_iff)
    with changes_in [of pw] pw(2) ids have "c = t" by (metis distinct_map inj_onD subsetD)
    with c(1) triple_note_backup [OF pw(1)]
    show "triple (\<lambda>s. ?P D s \<and> backup_for env tid ?H t b (map_of (pv_files s)))
      (note_item (tid_of t) (\<lambda>r. r\<lparr>ji_backup := Some (managed_backup (pw_state pw) (tid_of t) b)\<rparr>))
      (\<lambda>_. ?P (insert (tid_of t) D)) (?P D)" by simp
  next
    assume "\<not> list_ex (\<lambda>c. tid_of c = tid_of t) (changes_of pw)"
    then have "tid_of t \<notin> tid_of ` set (changes_of pw)" by (auto simp: list_ex_iff)
    then show "triple (\<lambda>s. ?P D s \<and> backup_for env tid ?H t b (map_of (pv_files s))) (returnS ())
      (\<lambda>_. ?P (insert (tid_of t) D)) (?P D)" by (auto intro: triple_return preparing_insert)
  qed
  show ?thesis
    unfolding back_up_target_def
    by (rule triple_in_target, rule triple_bind [OF look triple_bind [OF same triple_bind [OF copy note_it]]])
qed

lemma triple_each_done:
  assumes "\<And>x D. x \<in> set xs \<Longrightarrow> triple (P D) (f x) (\<lambda>_. P (insert (k x) D)) E" "\<And>D s. P D s \<Longrightarrow> E s"
  shows "triple (P D) (each f xs) (\<lambda>_. P (k ` set xs \<union> D)) E"
  using assms(1)
proof (induction xs arbitrary: D)
  case Nil
  then show ?case by (auto intro: triple_return)
next
  case (Cons x xs)
  have "triple (P D) (bindS (f x) (\<lambda>_. each f xs)) (\<lambda>_. P (k ` set xs \<union> insert (k x) D)) E"
    by (rule triple_bind [OF Cons.prems [OF list.set_intros(1)]], rule Cons.IH, rule Cons.prems) simp
  then show ?case by simp
qed

lemma triple_back_up:
  assumes X: "txn_ok X" "tx_sha X = te_sha env" and pw: "preview_ok pw"
  shows "triple (preparing env tid (changes_of pw) X {}) (back_up env pw tid)
    (\<lambda>_. preparing env tid (changes_of pw) X (tid_of ` set (changes_of pw))) (preparing env tid (changes_of pw) X {})"
proof -
  let ?P = "preparing env tid (changes_of pw) X" let ?H = "tx_home X"
  let ?old = "filter (\<lambda>t. pt_before t \<noteq> Absent) (pw_targets pw)" let ?new = "filter (\<lambda>t. pt_before t = Absent) (changes_of pw)"
  let ?D = "tid_of ` set ?old" let ?E = "tid_of ` set ?new \<union> ?D"
  have E: "?P D s \<Longrightarrow> ?P {} s" for D s by (rule preparing_mono) auto
  have one: "triple (?P {}) (each (back_up_target env pw tid) ?old) (\<lambda>_. ?P ?D) (?P {})"
  proof -
    have "triple (?P {}) (each (back_up_target env pw tid) ?old) (\<lambda>_. ?P (tid_of ` set ?old \<union> {})) (?P {})"
    proof (rule triple_each_done)
      fix t D assume "t \<in> set ?old"
      then show "triple (?P D) (back_up_target env pw tid t) (\<lambda>_. ?P (insert (tid_of t) D)) (?P {})"
        using triple_weaken [OF triple_back_up_target [OF X pw] _ _ E] by auto
    qed (rule E)
    then show ?thesis by simp
  qed
  have two: "triple (?P ?D) (each (\<lambda>t. note_item (tid_of t) (\<lambda>r. r\<lparr>ji_backup := Some (plain_backup Absent)\<rparr>)) ?new) (\<lambda>_. ?P ?E) (?P {})"
  proof (rule triple_each_done)
    fix t D assume t: "t \<in> set ?new"
    then have "backup_for env tid ?H t (plain_backup Absent) F" for F by (auto simp: backup_for_def plain_backup_def)
    then show "triple (?P D) (note_item (tid_of t) (\<lambda>r. r\<lparr>ji_backup := Some (plain_backup Absent)\<rparr>)) (\<lambda>_. ?P (insert (tid_of t) D)) (?P {})"
      by (intro triple_weaken [OF triple_note_backup [OF pw, of t "plain_backup Absent" "plain_backup Absent"] _ _ E]) (use t in auto)
  qed (rule E)
  have all: "tid_of ` set (changes_of pw) \<subseteq> ?E" using changes_in [of pw] by auto
  have phase: "triple (?P ?E) (set_phase Backed_Up) (\<lambda>_. ?P ?E) (?P {})"
    unfolding set_phase_def by (rule triple_remember) (auto intro: preparing_stable)
  have out: "triple (?P ?E) write_journal (\<lambda>_. ?P (tid_of ` set (changes_of pw))) (?P {})"
    by (rule triple_post, rule triple_write_invariant [where P = "?P ?E"]) (auto intro: preparing_stable E preparing_mono [OF _ all])
  show ?thesis
    unfolding back_up_def by (rule triple_bind [OF one triple_bind [OF two triple_bind [OF phase out]]])
qed

end
