(* ===== verification/Config_Safety.thy ===== *)
theory Config_Safety
  imports Config_Preparation
begin

text \<open>
  Applying a change of public configuration is atomic: whatever breaks, and however often the recovery
  breaks as well, once no journal is left every target either has its new content or looks as before.
\<close>

section \<open>Writing the targets\<close>

definition done_node :: "setup_env \<Rightarrow> planned \<Rightarrow> node option \<Rightarrow> bool" where
  "done_node env t n \<longleftrightarrow>
     (case (artifact_bytes env (pt_artifact t), n) of
        (Inr c, Some (Regular st x k)) \<Rightarrow> x = c \<and> fs_mode st = ar_mode (pt_artifact t) \<and> k = 1
      | _ \<Rightarrow> False)"

definition installed :: "setup_env \<Rightarrow> planned list \<Rightarrow> (string list \<Rightarrow> node option) \<Rightarrow> bool" where
  "installed env ts N \<longleftrightarrow> (\<forall>t\<in>set ts. done_node env t (N (path_of t)))"

definition applying :: "setup_env \<Rightarrow> planned list \<Rightarrow> txn \<Rightarrow> string set \<Rightarrow> setup_disk \<Rightarrow> bool" where
  "applying env ts X D s \<longleftrightarrow> writing X s \<and> same_items ts (me_journal s) \<and>
     (\<forall>r\<in>set (jn_items (me_journal s)). ji_target r \<notin> D \<longrightarrow>
        untouched X (map_of (pv_files s)) (node_at s (ji_relative r)) r \<and> ji_backup r \<noteq> None) \<and>
     (\<forall>t\<in>set ts. tid_of t \<in> D \<longrightarrow> done_node env t (node_at s (path_of t)))"

lemma applying_writing: "applying env ts X D s \<Longrightarrow> writing X s"
  by (simp add: applying_def)

lemma writing_private:
  assumes "writing X s"
  shows "writing X (s\<lparr>pv_journal := Some (me_journal s)\<rparr>)" "writing X (s\<lparr>me_entry := e\<rparr>)" "writing X (s\<lparr>pv_state := st\<rparr>)"
    "p \<noteq> Committed \<Longrightarrow> writing X (s\<lparr>me_journal := (me_journal s)\<lparr>jn_phase := p\<rparr>\<rparr>)"
  using assms by (auto simp: writing_def)

lemma applying_stable:
  assumes "applying env ts X D s"
  shows "applying env ts X D (s\<lparr>ho_fates := fs\<rparr>)" "applying env ts X D (s\<lparr>pv_journal := Some (me_journal s)\<rparr>)"
    "applying env ts X D (s\<lparr>me_entry := e\<rparr>)" "applying env ts X D (s\<lparr>pv_state := st\<rparr>)"
    "p \<noteq> Committed \<Longrightarrow> applying env ts X D (s\<lparr>me_journal := (me_journal s)\<lparr>jn_phase := p\<rparr>\<rparr>)"
  using assms by (simp_all add: applying_def writing_private)

lemma applying_item:
  assumes "applying env ts X D s" "t \<in> set ts" "distinct (map tid_of ts)"
  shows "\<exists>r. find_item (tid_of t) (me_journal s) = Some r \<and> ji_relative r = path_of t \<and> ji_before r = pt_before t"
proof -
  from assms(1) have s: "same_items ts (me_journal s)" by (simp add: applying_def)
  from same_items_target [OF s assms(2)] obtain r
    where r: "r \<in> set (jn_items (me_journal s))" "ji_target r = tid_of t" "ji_relative r = path_of t" "ji_before r = pt_before t" by blast
  from in_find_item [OF r(1)] same_items_names [OF s] assms(3) r show ?thesis by auto
qed

text \<open>An edit of the item of a target that was written already.\<close>

lemma applying_update:
  assumes s: "applying env ts X D s" and k: "k \<in> D" and r: "find_item k (me_journal s) = Some r"
    and f: "\<And>r. item_head (f r) = item_head r" and ok: "item_ok X (map_of (pv_files s)) (node_at s (ji_relative r)) (ho_clock s) (f r)"
  shows "applying env ts X D (s\<lparr>me_journal := update_item k f (me_journal s)\<rparr>)"
proof -
  from f have t: "ji_target (f q) = ji_target q" "ji_relative (f q) = ji_relative q" for q by (simp_all add: item_head_def)
  from s have w: "writing X s" by (rule applying_writing)
  then have "journal_kept X (map_of (pv_files s)) (node_at s) (ho_clock s) (me_journal s)" by (simp add: writing_def)
  from journal_kept_update [OF this r ok t] w
  have "writing X (s\<lparr>me_journal := update_item k f (me_journal s)\<rparr>)" by (auto simp: writing_def)
  with s k t show ?thesis by (auto simp: applying_def same_items_update f items_update)
qed

lemma item_of_applying:
  assumes "applying env ts X D s" "find_item k (me_journal s) = Some r"
  shows "item_ok X (map_of (pv_files s)) (node_at s (ji_relative r)) (ho_clock s) r"
  using assms find_item_in [OF assms(2)] by (auto simp: applying_def writing_def journal_kept_def)

lemma triple_apply_stage:
  assumes "k \<in> D"
  shows "triple (\<lambda>s. applying env ts X D s \<and> find_item k (me_journal s) \<noteq> None) (note_item k (\<lambda>r. r\<lparr>ji_stage := g\<rparr>)) (\<lambda>_. applying env ts X D) (writing X)"
proof (rule triple_post, rule triple_note_invariant [where P = "\<lambda>s. applying env ts X D s \<and> find_item k (me_journal s) \<noteq> None"])
  let ?P = "\<lambda>s. applying env ts X D s \<and> find_item k (me_journal s) \<noteq> None"
  fix s assume s: "?P s"
  then obtain r where r: "find_item k (me_journal s) = Some r" by auto
  from s have a: "applying env ts X D s" by simp
  have "applying env ts X D (s\<lparr>me_journal := update_item k (\<lambda>r. r\<lparr>ji_stage := g\<rparr>) (me_journal s)\<rparr>)"
    by (rule applying_update [OF a assms r]) (simp_all add: item_head_def item_of_applying [OF a r])
  then show "?P (s\<lparr>me_journal := update_item k (\<lambda>r. r\<lparr>ji_stage := g\<rparr>) (me_journal s)\<rparr>)"
    using r by (simp add: find_item_update)
qed (auto intro: applying_stable applying_writing)

text \<open>The target was replaced, and its item holds the new identity.\<close>

definition placed :: "setup_env \<Rightarrow> planned list \<Rightarrow> txn \<Rightarrow> string set \<Rightarrow> planned \<Rightarrow> setup_disk \<Rightarrow> bool" where
  "placed env ts X D t s \<longleftrightarrow> applying env ts X (insert (tid_of t) D) s \<and>
     (\<exists>r i. find_item (tid_of t) (me_journal s) = Some r \<and> ji_relative r = path_of t \<and> ji_intended r = Some i \<and>
        matches (te_sha env) i (node_at s (path_of t)))"

lemma under_way_placed:
  assumes u: "under_way X (N(path_of t := Some (Regular st c 1))) F (update_item (tid_of t) (intends (File_At st (Some (te_sha env c)))) j) s"
    and s0: "applying env ts X D s0" "node_at s0 = N" "map_of (pv_files s0) = F" "me_journal s0 = j"
    and t: "t \<in> set ts" "distinct (map tid_of ts)" "map path_of ts = tx_paths X" "distinct (tx_paths X)"
    and c: "artifact_bytes env (pt_artifact t) = Inr c" "fs_mode st = ar_mode (pt_artifact t)"
  shows "placed env ts X D t s"
proof -
  let ?i = "File_At st (Some (te_sha env c))" let ?k = "tid_of t" let ?M = "N(path_of t := Some (Regular st c 1))"
  let ?j = "update_item ?k (intends ?i) j"
  have head: "item_head (intends x r) = item_head r" for x r by (simp add: item_head_def intends_def)
  have tgt: "ji_target (intends x r) = ji_target r" for x r by (simp add: intends_def)
  from u have w: "writing X s" and like: "nodes_like X ?M s" and me: "me_journal s = ?j" and files: "map_of (pv_files s) = F"
    by (simp_all add: under_way_def)
  from s0 have same: "same_items ts j" by (simp add: applying_def)
  from applying_item [OF s0(1) t(1,2)] s0(4) obtain r where r: "find_item ?k j = Some r" "ji_relative r = path_of t" by auto
  have nodes: "node_at s (path_of q) = ?M (path_of q)" if "q \<in> set ts" for q
  proof -
    from that have "path_of q \<in> set (map path_of ts)" by simp
    with like t(3) show ?thesis by (simp add: nodes_like_def)
  qed
  have other: "node_at s (path_of q) = N (path_of q)" if "q \<in> set ts" "tid_of q \<noteq> ?k" for q
  proof -
    have "path_of q \<noteq> path_of t" using that t by (metis distinct_map inj_onD)
    with nodes [OF that(1)] show ?thesis by simp
  qed
  have "untouched X F (node_at s (ji_relative q)) q \<and> ji_backup q \<noteq> None"
    if q: "q \<in> set (jn_items ?j)" "ji_target q \<notin> insert ?k D" for q
  proof -
    from q tgt have qj: "q \<in> set (jn_items j)" by (auto simp: items_update split: if_splits)
    from same_items_item [OF same qj] obtain v where v: "v \<in> set ts" "ji_target q = tid_of v" "ji_relative q = path_of v" by blast
    with q other [OF v(1)] have "node_at s (ji_relative q) = N (ji_relative q)" by simp
    with s0 qj q(2) show ?thesis by (auto simp: applying_def)
  qed
  moreover have "done_node env q (node_at s (path_of q))" if "q \<in> set ts" "tid_of q \<in> insert ?k D" for q
  proof (cases "tid_of q = ?k")
    case True
    with that t have "q = t" by (metis distinct_map inj_onD)
    with nodes [OF t(1)] c show ?thesis by (simp add: done_node_def)
  next
    case False
    with that s0 other [OF that(1) False] show ?thesis by (auto simp: applying_def)
  qed
  ultimately have "applying env ts X (insert ?k D) s"
    using w me files same by (auto simp: applying_def same_items_update head)
  moreover have "find_item ?k (me_journal s) = Some (intends ?i r)" using me r(1) tgt by (simp add: find_item_update)
  moreover have "matches (te_sha env) ?i (node_at s (path_of t))" using nodes [OF t(1)] by simp
  ultimately show ?thesis using r(2) unfolding placed_def
    by (intro conjI exI [of _ "intends ?i r"] exI [of _ ?i]) (simp_all add: intends_def)
qed

lemma triple_place:
  assumes X: "txn_for ts X" "tx_sha X = te_sha env" and t: "t \<in> set ts" "tid_of t \<notin> D"
    and c: "artifact_bytes env (pt_artifact t) = Inr c"
  shows "triple (\<lambda>s. applying env ts X D s \<and> matches (te_sha env) (pt_before t) (node_at s (path_of t)))
    (atomic_target_bytes (te_sha env) (path_of t) c (ar_mode (pt_artifact t)) (\<lambda>x. note_item (tid_of t) (\<lambda>r. r\<lparr>ji_intended := Some x\<rparr>)) e)
    (\<lambda>_. placed env ts X D t) (writing X)"
proof (rule triple_given [where f = "\<lambda>s. (node_at s, map_of (pv_files s), me_journal s)"])
  fix v :: "(string list \<Rightarrow> node option) \<times> (string \<Rightarrow> private_file option) \<times> journal"
  obtain N F j where v: "v = (N, F, j)" by (cases v)
  let ?P = "\<lambda>s. (applying env ts X D s \<and> matches (te_sha env) (pt_before t) (node_at s (path_of t))) \<and>
    (node_at s, map_of (pv_files s), me_journal s) = v"
  have ids: "distinct (map tid_of ts)" and paths: "map path_of ts = tx_paths X" "distinct (tx_paths X)" and ok: "txn_ok X"
    using X(1) by (auto simp: txn_for_def txn_ok_def apart_def)
  show "triple ?P (atomic_target_bytes (te_sha env) (path_of t) c (ar_mode (pt_artifact t))
      (\<lambda>x. note_item (tid_of t) (\<lambda>r. r\<lparr>ji_intended := Some x\<rparr>)) e) (\<lambda>_. placed env ts X D t) (writing X)"
  proof (rule triple_fact [where A = "\<exists>s. ?P s"])
    assume "\<exists>s. ?P s"
    then obtain s0 where s0: "applying env ts X D s0" "node_at s0 = N" "map_of (pv_files s0) = F" "me_journal s0 = j"
      and m: "matches (tx_sha X) (pt_before t) (N (path_of t))" using v X(2) by auto
    from applying_item [OF s0(1) t(1) ids] s0(4) obtain r
      where r: "find_item (tid_of t) j = Some r" "ji_relative r = path_of t" "ji_before r = pt_before t" by auto
    from find_item_in [OF r(1)] s0 t(2) r(2) have un: "untouched X F (N (path_of t)) r" "ji_backup r \<noteq> None"
      by (auto simp: applying_def)
    from m r(3) have m': "matches (tx_sha X) (ji_before r) (N (path_of t))" by simp
    have p: "path_of t \<in> set (tx_paths X)" using t(1) paths(1) by (metis image_eqI list.set_map)
    note step = change_step [OF un(1) m' un(2)]
    have "triple ?P (atomic_target_bytes (te_sha env) (path_of t) c (ar_mode (pt_artifact t)) (\<lambda>x. note_item (tid_of t) (intends x)) e)
        (\<lambda>_. placed env ts X D t) (writing X)"
    proof (rule triple_weaken [OF triple_bytes [where N = N and j = j, OF ok p r(1,2) step X(2) TrueI TrueI]])
      fix s assume "?P s"
      then show "under_way X N F j s" by (auto simp: v under_way_def nodes_like_def dest: applying_writing)
    next
      fix u :: unit and s
      assume "\<exists>st. fs_mode st = ar_mode (pt_artifact t) \<and> under_way X (N(path_of t := Some (Regular st c 1))) F
        (update_item (tid_of t) (intends (File_At st (Some (te_sha env c)))) j) s"
      then show "placed env ts X D t s" using under_way_placed [OF _ s0 t(1) ids paths c] by blast
    qed
    then show ?thesis by (simp add: intends_def [abs_def])
  qed blast
qed

lemma matches_unique: "matches sha i n \<Longrightarrow> matches sha k n \<Longrightarrow> i = k"
  by (cases "(sha, i, n)" rule: matches.cases; cases k) auto

text \<open>The new identity goes into the item as what the target is afterwards.\<close>

lemma triple_after:
  "triple (\<lambda>s. placed env ts X D t s \<and> matches (te_sha env) i (node_at s (path_of t)))
    (remember (update_item (tid_of t) (\<lambda>r. r\<lparr>ji_after := Some i\<rparr>)))
    (\<lambda>_ s. applying env ts X (insert (tid_of t) D) s \<and> find_item (tid_of t) (me_journal s) \<noteq> None) (writing X)"
proof (rule triple_remember)
  let ?k = "tid_of t" let ?f = "\<lambda>r. r\<lparr>ji_after := Some i\<rparr>"
  fix s assume s: "placed env ts X D t s \<and> matches (te_sha env) i (node_at s (path_of t))"
  then obtain r x where a: "applying env ts X (insert ?k D) s" and r: "find_item ?k (me_journal s) = Some r" "ji_relative r = path_of t"
    "ji_intended r = Some x" "matches (te_sha env) x (node_at s (path_of t))" by (auto simp: placed_def)
  with s have "x = i" using matches_unique by blast
  have ok: "item_ok X (map_of (pv_files s)) (node_at s (ji_relative r)) (ho_clock s) (?f r)"
    using item_of_applying [OF a r(1)] r(3) \<open>x = i\<close> by (auto simp: item_ok_def untouched_def active_def backup_kept_def)
  have "applying env ts X (insert ?k D) (s\<lparr>me_journal := update_item ?k ?f (me_journal s)\<rparr>)"
    by (rule applying_update [where f = ?f, OF a _ r(1) _ ok]) (simp_all add: item_head_def)
  then show "applying env ts X (insert ?k D) (s\<lparr>me_journal := update_item ?k ?f (me_journal s)\<rparr>) \<and>
      find_item ?k (me_journal (s\<lparr>me_journal := update_item ?k ?f (me_journal s)\<rparr>)) \<noteq> None"
    using r(1) by (simp add: find_item_update)
qed

lemma writing_tree: "writing X s \<Longrightarrow> tree (node_at s)"
  by (simp add: writing_def around_def)

lemma triple_write_target:
  assumes X: "txn_for ts X" "tx_sha X = te_sha env" and t: "t \<in> set ts" "tid_of t \<notin> D"
  shows "triple (applying env ts X D) (write_target env st t) (\<lambda>_. applying env ts X (insert (tid_of t) D)) (writing X)"
proof -
  let ?D = "insert (tid_of t) D" let ?P = "applying env ts X D" let ?Q = "applying env ts X ?D"
  let ?M = "\<lambda>s. ?P s \<and> matches (te_sha env) (pt_before t) (node_at s (path_of t))"
  let ?R = "\<lambda>s. ?Q s \<and> find_item (tid_of t) (me_journal s) \<noteq> None"
  have look: "triple ?P (getS (identity_with_digest env t)) (\<lambda>i s. ?P s \<and> matches (te_sha env) i (node_at s (path_of t))) (writing X)"
    by (rule triple_get) (auto intro: applying_writing identity_with_digest_matches writing_tree)
  have same: "triple (\<lambda>s. ?P s \<and> matches (te_sha env) i (node_at s (path_of t))) (ensureS (i = pt_before t) e) (\<lambda>_. ?M) (writing X)" for i e
    by (rule triple_ensure) (auto intro: applying_writing)
  have live: "triple ?M (if is_generated (pt_artifact t)
      then bindS (liftS (verify_source env (pt_artifact t))) (\<lambda>_. set_entry (Some x)) else returnS ()) (\<lambda>_. ?M) (writing X)" for x
    by (auto intro!: triple_if triple_return triple_entry triple_lift triple_bind [where R = "\<lambda>_. ?M"] intro: applying_writing applying_stable)
  have bytes: "triple ?M (liftS (artifact_bytes env (pt_artifact t))) (\<lambda>c s. ?M s \<and> artifact_bytes env (pt_artifact t) = Inr c) (writing X)"
    by (rule triple_lift) (auto intro: applying_writing)
  have place: "triple (\<lambda>s. ?M s \<and> artifact_bytes env (pt_artifact t) = Inr c)
      (atomic_target_bytes (te_sha env) (path_of t) c (ar_mode (pt_artifact t)) (\<lambda>x. note_item (tid_of t) (\<lambda>r. r\<lparr>ji_intended := Some x\<rparr>)) (pt_before t))
      (\<lambda>_. placed env ts X D t) (writing X)" for c
    by (rule triple_fact [where A = "artifact_bytes env (pt_artifact t) = Inr c"]) (auto intro: triple_pre [OF triple_place [OF X t]])
  have again: "triple (placed env ts X D t) (getS (identity_with_digest env t))
      (\<lambda>i s. placed env ts X D t s \<and> matches (te_sha env) i (node_at s (path_of t))) (writing X)"
    by (rule triple_get) (auto simp: placed_def intro: applying_writing identity_with_digest_matches writing_tree)
  have ensured: "triple ?R (ensureS b e) (\<lambda>_. ?R) (writing X)" for b e
    by (rule triple_ensure) (auto intro: applying_writing)
  have stage: "triple ?R (note_item (tid_of t) (\<lambda>r. r\<lparr>ji_stage := Stage_Verified\<rparr>)) (\<lambda>_. ?Q) (writing X)"
    by (rule triple_apply_stage) simp
  have gen: "triple ?Q (getS f) (\<lambda>_. ?Q) (writing X)" for f :: "setup_disk \<Rightarrow> trouble + 'x"
    by (rule triple_get) (auto intro: applying_writing)
  have act: "triple ?Q (if g = None then returnS () else bindS (set_entry (Some ''activated'')) (\<lambda>_. bindS (set_phase Activated) (\<lambda>_. write_journal)))
      (\<lambda>_. ?Q) (writing X)" for g :: "generated option"
    unfolding set_phase_def
    by (intro triple_if triple_return triple_bind [where R = "\<lambda>_. ?Q"] triple_entry triple_remember triple_write_invariant)
      (auto intro: applying_stable applying_writing)
  show ?thesis
    unfolding write_target_def Let_def
    by (rule triple_in_target, rule triple_bind [OF look triple_bind [OF same triple_bind [OF live triple_bind [OF bytes triple_bind [OF place
       triple_bind [OF again triple_bind [OF triple_after triple_bind [OF ensured triple_bind [OF stage triple_bind [OF gen triple_bind [OF act]]]]]]]]]]])
      (rule triple_return)
qed

lemma triple_write_targets:
  assumes X: "txn_for ts X" "tx_sha X = te_sha env"
  shows "set us \<subseteq> set ts \<Longrightarrow> distinct (map tid_of us) \<Longrightarrow> tid_of ` set us \<inter> D = {} \<Longrightarrow>
    triple (applying env ts X D) (write_targets env st us) (\<lambda>_. applying env ts X (tid_of ` set us \<union> D)) (writing X)"
proof (induction us arbitrary: st D)
  case Nil
  then show ?case by (auto intro: triple_return)
next
  case (Cons t us)
  have "triple (applying env ts X D) (bindS (write_target env st t) (\<lambda>st'. write_targets env st' us))
      (\<lambda>_. applying env ts X (tid_of ` set us \<union> insert (tid_of t) D)) (writing X)"
  proof (rule triple_bind [OF triple_write_target [OF X]])
    show "triple (applying env ts X (insert (tid_of t) D)) (write_targets env st' us)
      (\<lambda>_. applying env ts X (tid_of ` set us \<union> insert (tid_of t) D)) (writing X)" for st'
      using Cons.prems by (intro Cons.IH) auto
  qed (use Cons.prems in auto)
  then show ?case by simp
qed

section \<open>The commit\<close>

text \<open>The transaction is over: only private files are still touched.\<close>

definition settled :: "txn \<Rightarrow> ((string list \<Rightarrow> node option) \<Rightarrow> bool) \<Rightarrow> setup_disk \<Rightarrow> bool" where
  "settled X A s \<longleftrightarrow> disk_safe X A s \<and> A (node_at s)"

definition interrupted :: "txn \<Rightarrow> ((string list \<Rightarrow> node option) \<Rightarrow> bool) \<Rightarrow> setup_disk \<Rightarrow> bool" where
  "interrupted X A s \<longleftrightarrow> disk_safe X A s \<and> (jn_phase (me_journal s) = Committed \<or> writing X s)"

lemma writing_interrupted: "writing X s \<Longrightarrow> interrupted X A s"
  by (simp add: interrupted_def writing_disk_safe)

lemma settled_stable:
  assumes "settled X A s"
  shows "settled X A (s\<lparr>ho_fates := fs\<rparr>)" "jn_phase (me_journal s) = Committed \<Longrightarrow> settled X A (s\<lparr>pv_journal := Some (me_journal s)\<rparr>)"
    "settled X A (s\<lparr>pv_journal := None\<rparr>)"
proof -
  show "settled X A (s\<lparr>ho_fates := fs\<rparr>)" using assms by (simp add: settled_def)
qed (use assms in \<open>auto simp: settled_def disk_safe_def\<close>)

lemma settled_files: "settled X A s \<Longrightarrow> pv_journal s = None \<Longrightarrow> settled X A (s\<lparr>pv_files := f\<rparr>)"
  by (simp add: settled_def disk_safe_def)

lemma triple_commit:
  assumes P: "\<And>s. P s \<Longrightarrow> writing X s \<and> A (node_at s)" "\<And>s fs. P s \<Longrightarrow> P (s\<lparr>ho_fates := fs\<rparr>)" "\<And>s x. P s \<Longrightarrow> P (s\<lparr>pv_state := x\<rparr>)"
  shows "triple P (commit st) (\<lambda>_ s. settled X A s \<and> pv_journal s = None) (interrupted X A)"
proof -
  let ?C = "\<lambda>s. settled X A s \<and> jn_phase (me_journal s) = Committed"
  have E: "P s \<Longrightarrow> interrupted X A s" for s using P(1) writing_interrupted by blast
  have F: "?C s \<Longrightarrow> interrupted X A s" for s by (simp add: settled_def interrupted_def)
  have state: "triple P (write_state_file st) (\<lambda>_. P) (interrupted X A)"
    unfolding write_state_file_def
    by (rule triple_bind [OF triple_private_dir triple_invariant_effect]) (assumption | rule E P(2) P(3))+
  have mark: "triple P (set_phase Committed) (\<lambda>_. ?C) (interrupted X A)"
    unfolding set_phase_def
  proof (rule triple_remember)
    fix s assume "P s"
    with P(1) have "writing X s" "A (node_at s)" by auto
    then show "?C (s\<lparr>me_journal := (me_journal s)\<lparr>jn_phase := Committed\<rparr>\<rparr>)"
      by (auto simp: settled_def disk_safe_def writing_def)
  qed
  have out: "triple ?C write_journal (\<lambda>_. ?C) (interrupted X A)"
    by (rule triple_write_invariant) (auto intro: settled_stable F)
  have unlink: "triple ?C unlink_journal (\<lambda>_ s. ?C s \<and> pv_journal s = None) (interrupted X A)"
    by (rule triple_unlink) (auto intro: settled_stable F)
  show ?thesis
    unfolding commit_def
    by (rule triple_bind [OF state triple_bind [OF mark triple_bind [OF out triple_post [OF unlink]]]]) auto
qed

lemma triple_leave_recovery: "triple (interrupted X A) (leave_recovery entry t) Q (disk_safe X A)"
proof -
  let ?I = "interrupted X A"
  have I: "?I s \<Longrightarrow> disk_safe X A s" for s by (simp add: interrupted_def)
  have W: "writing X s \<Longrightarrow> disk_safe X A s" for s by (rule writing_disk_safe)
  have get: "triple ?I (getS (\<lambda>s. Inr (f s))) (\<lambda>x s. ?I s \<and> x = f s) (disk_safe X A)" for f :: "setup_disk \<Rightarrow> 'x"
    by (rule triple_get) (auto simp: I)
  have note_it: "triple (writing X) (catching is_handled write_journal (\<lambda>_. returnS ())) (\<lambda>_. disk_safe X A) (disk_safe X A)"
    by (rule triple_catching [where R = "writing X"])
      (auto intro!: triple_return triple_write_invariant [where P = "writing X", THEN triple_post] intro: W writing_private)
  have phase: "triple (writing X) (set_phase Recovery_Pending) (\<lambda>_. writing X) (disk_safe X A)"
    unfolding set_phase_def by (rule triple_remember) (auto intro: writing_private)
  have pending: "triple (\<lambda>s. ?I s \<and> p = jn_phase (me_journal s))
      (if p = Committed then returnS ()
       else bindS (set_phase Recovery_Pending) (\<lambda>_. catching is_handled write_journal (\<lambda>_. returnS ()))) (\<lambda>_. disk_safe X A) (disk_safe X A)" for p
    by (rule triple_if)
      (auto intro!: triple_return intro: I triple_pre [OF triple_bind [OF phase note_it]] simp: interrupted_def)
  have last: "triple (disk_safe X A) (getS f) (\<lambda>_. disk_safe X A) (disk_safe X A)" for f :: "setup_disk \<Rightarrow> trouble + 'x"
    by (rule triple_get)
  show ?thesis
    unfolding leave_recovery_def
    by (rule triple_bind [OF get triple_bind [OF pending triple_bind [OF last]]]) (auto intro: triple_raise split: prod.split)
qed

lemma triple_install:
  assumes X: "txn_for (changes_of pw) X" "tx_sha X = te_sha env"
  defines "A \<equiv> installed env (changes_of pw)"
  shows "triple (applying env (changes_of pw) X {}) (install env pw) (\<lambda>_ s. settled X A s \<and> pv_journal s = None) (interrupted X A)"
proof -
  let ?ts = "changes_of pw" let ?D = "tid_of ` set ?ts" let ?P = "applying env ?ts X ?D"
  have W: "writing X s \<Longrightarrow> interrupted X A s" for s by (rule writing_interrupted)
  have get: "triple (applying env ?ts X D) (getS f) (\<lambda>_. applying env ?ts X D) (interrupted X A)" for D and f :: "setup_disk \<Rightarrow> trouble + 'x"
    by (rule triple_get) (auto intro: W applying_writing)
  have write_them: "triple (applying env ?ts X {}) (write_targets env st ?ts) (\<lambda>_. ?P) (interrupted X A)" for st
  proof (rule triple_weaken [OF triple_write_targets [OF X, of ?ts "{}"]])
    show "distinct (map tid_of ?ts)" using X(1) by (simp add: txn_for_def)
  qed (auto intro: W)
  have commit_it: "triple ?P (commit st) (\<lambda>_ s. settled X A s \<and> pv_journal s = None) (interrupted X A)" for st
  proof (rule triple_commit)
    show "?P s \<Longrightarrow> writing X s \<and> A (node_at s)" for s by (auto simp: applying_def A_def installed_def)
  qed (auto intro: applying_stable)
  show ?thesis
    unfolding install_def
    by (rule triple_bind [OF get triple_bind [OF write_them triple_bind [OF get triple_bind [OF commit_it]]]]) (rule triple_return)
qed

section \<open>The whole transaction\<close>

lemma triple_effect_files:
  assumes "\<And>s. P s \<Longrightarrow> E s" "\<And>s fs. P s \<Longrightarrow> P (s\<lparr>ho_fates := fs\<rparr>)" "\<And>s f. P s \<Longrightarrow> P (s\<lparr>pv_files := f\<rparr>)"
  shows "triple P (effect (\<lambda>s. s\<lparr>pv_files := f s\<rparr>)) (\<lambda>_. P) E"
  by (rule triple_invariant_effect) (assumption | rule assms)+

lemma triple_tidying:
  assumes "triple P m (\<lambda>_. P) P"
  shows "triple P (tidying m) (\<lambda>_. P) P"
  unfolding tidying_def
  by (rule triple_catching [OF triple_bind [OF assms]]) (auto intro: triple_return)

lemma triple_clean_old:
  assumes "\<And>s fs. P s \<Longrightarrow> P (s\<lparr>ho_fates := fs\<rparr>)" "\<And>s f. P s \<Longrightarrow> P (s\<lparr>pv_files := f\<rparr>)"
  shows "triple P (clean_old_backups env old new) (\<lambda>_. P) P" "triple P (unlink_private q) (\<lambda>_. P) P" "triple P (forget_backups env tid) (\<lambda>_. P) P"
proof -
  show un: "triple P (unlink_private q) (\<lambda>_. P) P" for q
    unfolding unlink_private_def by (rule triple_effect_files) (assumption | rule assms)+
  show "triple P (forget_backups env tid) (\<lambda>_. P) P"
    unfolding forget_backups_def Let_def by (rule triple_effect_files) (assumption | rule assms)+
  show "triple P (clean_old_backups env old new) (\<lambda>_. P) P"
    unfolding clean_old_backups_def
    by (rule triple_each) (auto intro!: triple_if triple_return triple_ensure triple_bind [where R = "\<lambda>_. P"] triple_catching [OF un])
qed

lemma triple_undo:
  assumes X: "txn_for ts X"
  shows "triple (preparing env tid ts X D) (undo_preparation env tid t) Q (disk_safe X A)"
proof -
  let ?P = "preparing env tid ts X D"
  let ?N = "\<lambda>s. node_at s = tx_home X \<and> ho_clock s = tx_clock X \<and> pv_journal s = None"
  have E: "?P s \<Longrightarrow> disk_safe X A s" for s by (rule preparing_disk_safe [OF X])
  have ok: "txn_ok X" using X by (simp add: txn_for_def)
  have N: "?N s \<Longrightarrow> disk_safe X A s" for s
    using home_around [OF ok] by (auto simp: disk_safe_def all_back_def same_look_def)
  have unlink: "triple ?P unlink_journal (\<lambda>_. ?N) (disk_safe X A)"
    by (rule triple_unlink) (auto intro: E N preparing_stable simp: preparing_def)
  have drop: "triple ?N (drop_backups env tid) (\<lambda>_. ?N) (disk_safe X A)"
    unfolding drop_backups_def
    by (rule triple_catching [OF triple_clean_old(3)]) (auto intro: triple_return N)
  show ?thesis
    unfolding undo_preparation_def
    by (rule triple_bind [OF unlink triple_bind [OF drop]]) (auto intro: triple_raise N)
qed

text \<open>The state before the journal exists; its items are drafted in memory.\<close>

definition starting :: "txn \<Rightarrow> setup_disk \<Rightarrow> bool" where
  "starting X s \<longleftrightarrow> node_at s = tx_home X \<and> ho_clock s = tx_clock X \<and> pv_journal s = None"

definition drafted :: "planned list \<Rightarrow> txn \<Rightarrow> setup_disk \<Rightarrow> bool" where
  "drafted ts X s \<longleftrightarrow> starting X s \<and> same_items ts (me_journal s) \<and> jn_phase (me_journal s) \<noteq> Committed \<and>
     (\<forall>r\<in>set (jn_items (me_journal s)). fresh_item r \<and> ji_backup r = None)"

lemma starting_disk_safe: "txn_ok X \<Longrightarrow> starting X s \<Longrightarrow> disk_safe X A s"
  using home_around by (auto simp: starting_def disk_safe_def all_back_def same_look_def)

lemma starting_stable:
  assumes "starting X s"
  shows "starting X (s\<lparr>ho_fates := fs\<rparr>)" "starting X (s\<lparr>pv_files := f\<rparr>)" "starting X (s\<lparr>me_entry := e\<rparr>)" "starting X (s\<lparr>me_journal := j\<rparr>)"
  using assms by (simp_all add: starting_def)

lemma drafted_stable:
  assumes "drafted ts X s"
  shows "drafted ts X (s\<lparr>ho_fates := fs\<rparr>)" "drafted ts X (s\<lparr>pv_files := f\<rparr>)" "drafted ts X (s\<lparr>me_entry := e\<rparr>)"
    "drafted ts X (s\<lparr>me_journal := update_item k (\<lambda>r. r\<lparr>ji_generated := g\<rparr>) (me_journal s)\<rparr>)"
proof -
  have "same_items ts (update_item k (\<lambda>r. r\<lparr>ji_generated := g\<rparr>) (me_journal s)) = same_items ts (me_journal s)"
    by (rule same_items_update) (simp add: item_head_def)
  with assms show "drafted ts X (s\<lparr>me_journal := update_item k (\<lambda>r. r\<lparr>ji_generated := g\<rparr>) (me_journal s)\<rparr>)"
    by (auto simp: drafted_def starting_def items_update fresh_item_def)
qed (use assms in \<open>simp_all add: drafted_def starting_stable\<close>)

lemma drafted_preparing: "drafted ts X s \<Longrightarrow> preparing env tid ts X {} s"
  by (auto simp: drafted_def starting_def preparing_def journal_prepared_def)

lemma triple_payload_written:
  assumes E: "\<And>s. drafted ts X s \<Longrightarrow> E s"
  shows "triple (drafted ts X) (write_generated_payload env tid a c) (\<lambda>_. drafted ts X) E"
proof -
  let ?P = "drafted ts X"
  have dir: "triple ?P private_dir (\<lambda>_. ?P) E" by (rule triple_private_dir) (auto intro: E drafted_stable)
  have bytes: "triple ?P (atomic_bytes q x) (\<lambda>_. ?P) E" for q x
    unfolding atomic_bytes_def by (rule triple_effect_files) (auto intro: E drafted_stable)
  have get: "triple ?P (getS f) (\<lambda>_. ?P) E" for f :: "setup_disk \<Rightarrow> trouble + 'x" by (rule triple_get) (auto intro: E)
  show ?thesis
    unfolding write_generated_payload_def Let_def
    by (rule triple_bind [OF dir triple_bind [OF bytes triple_bind [OF get]]]) (rule triple_return)
qed

lemma triple_write_payloads:
  assumes E: "\<And>s. drafted ts X s \<Longrightarrow> E s"
  shows "triple (drafted ts X) (write_payloads env tid us) (\<lambda>_. drafted ts X) E"
proof (induction us)
  case Nil
  then show ?case by (auto intro: triple_return)
next
  case (Cons t us)
  let ?P = "drafted ts X"
  have lift: "triple ?P (liftS r) (\<lambda>_. ?P) E" for r :: "trouble + 'x" by (rule triple_lift) (auto intro: E)
  have keep: "triple ?P (remember (update_item k (\<lambda>r. r\<lparr>ji_generated := g\<rparr>))) (\<lambda>_. ?P) E" for k g
    by (rule triple_remember) (rule drafted_stable)
  have one: "triple ?P (case ar_kind (pt_artifact t) of
         Static_Source p \<Rightarrow> returnS ()
       | Entry_Binding c \<Rightarrow>
           bindS (liftS (verify_source env (pt_artifact t))) (\<lambda>_.
           bindS (write_generated_payload env tid (pt_artifact t) c) (\<lambda>g.
           remember (update_item (tid_of t) (\<lambda>r. r\<lparr>ji_generated := Some g\<rparr>))))) (\<lambda>_. ?P) E"
    by (cases "ar_kind (pt_artifact t)")
      (auto intro: triple_return triple_bind [OF lift triple_bind [OF triple_payload_written [OF E] keep]])
  show ?case by (simp, rule triple_bind [OF one Cons.IH])
qed

lemma journal_items_drafted:
  assumes "starting X s"
  shows "drafted (changes_of pw) X (s\<lparr>me_journal := journal_items pw tid\<rparr>)"
proof -
  have "same_items (changes_of pw) (journal_items pw tid)"
    by (simp add: same_items_def journal_items_def journal_item_def item_head_def comp_def)
  with assms show ?thesis by (auto simp: drafted_def starting_def journal_items_def journal_item_def fresh_item_def)
qed

text \<open>Once the journal says \<open>writing\<close> on the disk, the targets can be replaced.\<close>

lemma preparing_applying:
  assumes X: "txn_for ts X" and s: "preparing env tid ts X (tid_of ` set ts) s" and j: "pv_journal s = Some (me_journal s)"
  shows "applying env ts X {} s"
proof -
  let ?F = "map_of (pv_files s)" let ?j = "me_journal s"
  have d: "distinct (tx_paths X)" and ok: "txn_ok X" using X by (auto simp: txn_for_def txn_ok_def apart_def)
  from s have p: "journal_prepared env tid ts (tx_home X) ?F ?j" and n: "node_at s = tx_home X" "ho_clock s = tx_clock X"
    by (auto simp: preparing_def)
  then have k: "journal_kept X ?F (node_at s) (ho_clock s) ?j" using prepared_kept [OF p] X d by (simp add: txn_for_def)
  have "untouched X ?F (tx_home X (ji_relative r)) r \<and> ji_backup r \<noteq> None" if r: "r \<in> set (jn_items ?j)" for r
  proof -
    from p have same: "same_items ts ?j" by (simp add: journal_prepared_def)
    from same_items_item [OF same r] s r have "ji_backup r \<noteq> None" by (auto simp: preparing_def)
    with p r show ?thesis by (auto simp: journal_prepared_def untouched_def fresh_item_def intro: noted_kept)
  qed
  with p n k j home_around [OF ok] show ?thesis by (auto simp: applying_def writing_def journal_prepared_def)
qed

lemma triple_commit_apply:
  assumes X: "txn_ok X" "tx_sha X = te_sha env" "tx_paths X = map path_of (changes_of pw)" and pw: "preview_ok pw"
  defines "A \<equiv> installed env (changes_of pw)"
  shows "triple (starting X) (commit_apply env pw tid) (\<lambda>_ s. A (node_at s) \<and> disk_safe X A s \<and> pv_journal s = None) (disk_safe X A)"
proof -
  let ?ts = "changes_of pw" let ?D = "tid_of ` set ?ts" let ?P = "preparing env tid ?ts X"
  have for_ts: "txn_for ?ts X" using X changes_distinct [OF pw] by (simp add: txn_for_def)
  have S: "starting X s \<Longrightarrow> disk_safe X A s" for s by (rule starting_disk_safe [OF X(1)])
  have D: "drafted ?ts X s \<Longrightarrow> disk_safe X A s" for s by (simp add: drafted_def S)
  have P: "?P C s \<Longrightarrow> disk_safe X A s" for C s by (rule preparing_disk_safe [OF for_ts])
  have dir: "triple (starting X) private_dir (\<lambda>_. starting X) (disk_safe X A)"
    by (rule triple_private_dir) (auto intro: S starting_stable)
  have draft: "triple (starting X) (remember (\<lambda>_. journal_items pw tid)) (\<lambda>_. drafted ?ts X) (disk_safe X A)"
    by (rule triple_remember) (rule journal_items_drafted)
  have entry: "triple (drafted ?ts X) (set_entry None) (\<lambda>_. drafted ?ts X) (disk_safe X A)"
    by (rule triple_entry) (rule drafted_stable)
  have dir': "triple (drafted ?ts X) private_dir (\<lambda>_. drafted ?ts X) (disk_safe X A)"
    by (rule triple_private_dir) (auto intro: D drafted_stable)
  have payloads: "triple (drafted ?ts X) (write_payloads env tid ?ts) (\<lambda>_. ?P {}) (disk_safe X A)"
    by (rule triple_post [OF triple_write_payloads]) (auto intro: D drafted_preparing)
  have journal: "triple (?P {}) write_journal (\<lambda>_. ?P {}) (disk_safe X A)"
    by (rule triple_write_invariant) (auto intro: P preparing_stable)
  have prepare: "triple (?P {}) (catching is_exception (back_up env pw tid) (undo_preparation env tid)) (\<lambda>_. ?P ?D) (disk_safe X A)"
    by (rule triple_catching [OF triple_back_up [OF X(1,2) pw] triple_undo [OF for_ts]]) (rule P)
  have phase: "triple (?P ?D) (set_phase Writing) (\<lambda>_. ?P ?D) (disk_safe X A)"
    unfolding set_phase_def by (rule triple_remember) (auto intro: preparing_stable)
  have begin_it: "triple (?P ?D) write_journal (\<lambda>_. applying env ?ts X {}) (disk_safe X A)"
    unfolding write_journal_def
  proof (rule triple_bind [OF triple_private_dir], erule P, erule preparing_stable, rule triple_effect)
    fix s g :: setup_disk assume "?P ?D s" and g: "g = s\<lparr>ho_fates := tl (ho_fates s)\<rparr>"
    then have g: "?P ?D g" by (simp add: preparing_stable)
    have h: "?P ?D (g\<lparr>pv_journal := Some (me_journal g)\<rparr>)" by (rule preparing_stable(2) [OF g])
    show "disk_safe X A g \<and> disk_safe X A (g\<lparr>pv_journal := Some (me_journal g)\<rparr>) \<and>
        applying env ?ts X {} (g\<lparr>pv_journal := Some (me_journal g)\<rparr>)"
      using P [OF g] P [OF h] preparing_applying [OF for_ts h] by simp
  qed
  let ?Q = "\<lambda>s. settled X A s \<and> pv_journal s = None"
  have Q: "?Q s \<Longrightarrow> disk_safe X A s" for s by (simp add: settled_def)
  have install_it: "triple (applying env ?ts X {}) (catching is_handled (install env pw) (leave_recovery e)) (\<lambda>_. ?Q) (disk_safe X A)" for e
    unfolding A_def by (rule triple_catching [OF triple_install [OF for_ts X(2)] triple_leave_recovery]) (simp add: interrupted_def)
  have files: "?Q s \<Longrightarrow> ?Q (s\<lparr>ho_fates := fs\<rparr>)" "?Q s \<Longrightarrow> ?Q (s\<lparr>pv_files := f\<rparr>)" for s fs f
    by (auto intro: settled_stable settled_files)
  have tidy: "triple ?Q (tidying (bindS (clean_old_backups env o1 o2) (\<lambda>_. each (\<lambda>t. unlink_private (f t)) us))) (\<lambda>_. ?Q) (disk_safe X A)"
    for o1 o2 and f :: "planned \<Rightarrow> string" and us
    by (rule triple_weaken [OF triple_tidying [OF triple_bind [OF triple_clean_old(1) [of ?Q] triple_each [OF triple_clean_old(2) [of ?Q]]]]])
      (auto intro: settled_stable(1) settled_files Q)
  have finish: "triple ?Q (returnS x) (\<lambda>_ s. A (node_at s) \<and> disk_safe X A s \<and> pv_journal s = None) (disk_safe X A)" for x :: apply_result
    by (rule triple_return) (simp add: settled_def)
  show ?thesis
  proof (cases "?ts = []")
    case True
    then show ?thesis using S
      by (auto simp: commit_apply_def A_def installed_def starting_def intro!: triple_return)
  next
    case False
    show ?thesis
      unfolding commit_apply_def Let_def using False
      by (simp only: if_False)
        (rule triple_bind [OF dir triple_bind [OF draft triple_bind [OF entry triple_bind [OF dir' triple_bind [OF payloads
          triple_bind [OF journal triple_bind [OF prepare triple_bind [OF phase triple_bind [OF begin_it triple_bind [OF install_it
          triple_bind [OF tidy finish]]]]]]]]]]])
  qed
qed

section \<open>Atomicity\<close>

text \<open>
  A later process starts with an arbitrary memory and arbitrary fates on the disk that was left. The
  recovery may be started any number of times, and each time break at any point.
\<close>

definition restarted :: "fate list \<Rightarrow> journal \<Rightarrow> string option \<Rightarrow> setup_disk \<Rightarrow> setup_disk" where
  "restarted fs j e s = s\<lparr>ho_fates := fs, me_journal := j, me_entry := e\<rparr>"

inductive recoveries :: "setup_env \<Rightarrow> setup_disk \<Rightarrow> setup_disk \<Rightarrow> bool" for env where
  none: "recoveries env s s"
| more: "recoveries env s t \<Longrightarrow> recover env (restarted fs j e t) = (r, u) \<Longrightarrow> recoveries env s u"

text \<open>A home in which parents are folders and every stamp is older than the clock.\<close>

definition home_ok :: "setup_disk \<Rightarrow> bool" where
  "home_ok s \<longleftrightarrow> tree (node_at s) \<and> (\<forall>p n. node_ino (node_at s p) = Some n \<longrightarrow> n < ho_clock s)"

lemma disk_safe_restarted [simp]: "disk_safe X A (restarted fs j e s) = disk_safe X A s"
  by (simp add: disk_safe_def restarted_def split: option.split)

lemma recoveries_disk_safe:
  assumes "recoveries env s t" "txn_ok X" "tx_sha X = te_sha env"
  shows "disk_safe X A s \<Longrightarrow> disk_safe X A t"
  using assms(1)
proof induction
  case (more s t fs j e r u)
  then have "disk_safe X A (restarted fs j e t)" by simp
  note rule = triple_recover [OF assms(2,3), where A = A]
  show ?case
    using triple_Inl [OF rule \<open>disk_safe X A (restarted fs j e t)\<close>] triple_Inr [OF rule \<open>disk_safe X A (restarted fs j e t)\<close>] more.hyps(2)
    by (cases r) auto
qed simp

lemma apply_txn_ok: "preview_ok pw \<Longrightarrow> home_ok s \<Longrightarrow> txn_ok (apply_txn env pw s)"
  by (auto simp: preview_ok_def home_ok_def txn_ok_def apply_txn_def)

text \<open>What is left of the home outside the changed targets.\<close>

definition others_kept :: "planned list \<Rightarrow> setup_disk \<Rightarrow> setup_disk \<Rightarrow> bool" where
  "others_kept ts s t \<longleftrightarrow> (\<forall>q. q \<notin> path_of ` set ts \<longrightarrow>
     node_at t q = node_at s q \<or> node_at s q = None \<and> is_folder (node_at t q) \<and> (\<exists>u\<in>set ts. \<exists>x xs. path_of u = q @ x # xs))"

lemma around_others: "around (apply_txn env pw s) (node_at t) \<Longrightarrow> others_kept (changes_of pw) s t"
  by (auto simp: around_def others_kept_def apply_txn_def)

lemma apply_disk_safe:
  assumes "preview_ok pw" "home_ok s" "pv_journal s = None" "commit_apply env pw tid s = (r, t)"
  shows "disk_safe (apply_txn env pw s) (installed env (changes_of pw)) t"
    "\<And>x. r = Inr x \<Longrightarrow> installed env (changes_of pw) (node_at t) \<and> pv_journal t = None"
proof -
  let ?X = "apply_txn env pw s"
  have X: "txn_ok ?X" "tx_sha ?X = te_sha env" "tx_paths ?X = map path_of (changes_of pw)"
    using apply_txn_ok [OF assms(1,2)] by (simp_all add: apply_txn_def)
  have start: "starting ?X s" using assms(3) by (simp add: starting_def apply_txn_def)
  note rule = triple_commit_apply [OF X assms(1), of tid]
  show "disk_safe ?X (installed env (changes_of pw)) t"
    using triple_Inl [OF rule start] triple_Inr [OF rule start] assms(4) by (cases r) auto
  show "installed env (changes_of pw) (node_at t) \<and> pv_journal t = None" if "r = Inr x" for x
    using triple_Inr [OF rule start] assms(4) that by auto
qed


text \<open>C20: An apply that reports success has given every changed target its new content and mode, left no
  journal, and touched nothing else of the home but new parent folders.\<close>

theorem apply_installs:
  assumes "preview_ok pw" "home_ok s" "pv_journal s = None" "commit_apply env pw tid s = (Inr x, t)"
  shows "(\<forall>y\<in>set (changes_of pw). done_node env y (node_at t (path_of y))) \<and> pv_journal t = None \<and> others_kept (changes_of pw) s t"
proof -
  from apply_disk_safe [OF assms] show ?thesis
    by (auto simp: installed_def disk_safe_def intro: around_others)
qed

lemma payload_same: "payload_there env g s = (x, t) \<Longrightarrow> t = s"
  by (cases g) (auto simp: payload_there_def bindS_def getS_def returnS_def split: sum.splits)


end
