(* ===== verification/Config_Sample.thy ===== *)
theory Config_Sample
  imports Config_Safety
begin

text \<open>
  A sample: one file of the home is replaced, the process dies right after the replacement, and a later
  recovery brings the file back.
\<close>

definition sample_env :: setup_env where
  "sample_env = \<lparr>te_sha = (\<lambda>c. replicate 64 (if c = ''new'' then CHR ''1'' else CHR ''2'')), te_machine = ''desk'', te_root = ''/p'',
     te_binding = (\<lambda>c. Inl (Refused 4 ''invalid_binding'')), te_live_binding = (\<lambda>c. Inl (Refused 4 ''invalid_binding'')),
     te_source = (\<lambda>p. if p = ''shell/zshrc'' then Some ''new'' else None)\<rparr>"

definition sample_stamp :: file_stamp where
  "sample_stamp = \<lparr>fs_uid = 7, fs_dev = 1, fs_ino = 3, fs_mode = 420, fs_mtime = 3, fs_size = 3\<rparr>"

definition sample_target :: planned where
  "sample_target = \<lparr>pt_artifact = \<lparr>ar_id = ''zshrc'', ar_component = ''zsh'', ar_destination = [''.zshrc''],
       ar_sha = te_sha sample_env ''new'', ar_mode = 384, ar_kind = Static_Source ''shell/zshrc''\<rparr>,
     pt_before = File_At sample_stamp (Some (te_sha sample_env ''old'')), pt_action = Adopt_Required, pt_reason = None, pt_custom = False\<rparr>"

definition sample_preview :: preview where
  "sample_preview = \<lparr>pw_plan = ''plan'', pw_targets = [sample_target], pw_state = blank_state sample_env\<rparr>"

definition sample_journal :: journal where
  "sample_journal = \<lparr>jn_version = 2, jn_kind = Apply_Kind, jn_id = ''none'', jn_phase = Prepared_Phase, jn_plan = '''',
     jn_before = blank_state sample_env, jn_items = []\<rparr>"

definition sample_disk :: "fate list \<Rightarrow> setup_disk" where
  "sample_disk fs = \<lparr>ho_folder = True, ho_owned = True, ho_user = 7, ho_device = 1,
     ho_nodes = [([''.zshrc''], Regular sample_stamp ''old'' 1)], ho_clock = 5, ho_fates = fs,
     pv_safe = True, pv_state = None, pv_journal = None, pv_files = [], me_journal = sample_journal, me_entry = None\<rparr>"

definition dying :: "fate list" where
  "dying = replicate 14 Works @ [Breaks_After Died]"

definition broken_disk :: setup_disk where
  "broken_disk = snd (commit_apply sample_env sample_preview ''t1'' (sample_disk dying))"

definition mended_disk :: setup_disk where
  "mended_disk = snd (recover sample_env (restarted [] sample_journal None broken_disk))"

lemma sample_changes: "changes_of sample_preview = [sample_target]"
  by code_simp

lemma sample_preview_ok: "preview_ok sample_preview"
proof -
  have "path_of sample_target = [''.zshrc'']" by code_simp
  then show ?thesis
    unfolding preview_ok_def sample_changes by (simp add: sample_preview_def apart_def)
qed

lemma sample_nodes: "node_at (sample_disk fs) p = (if p = [''.zshrc''] then Some (Regular sample_stamp ''old'' 1) else None)"
  by (simp add: node_at_def sample_disk_def)

lemma sample_home_ok: "home_ok (sample_disk fs)"
proof -
  have "tree (node_at (sample_disk fs))" by (auto simp: tree_def sample_nodes)
  moreover have "n < ho_clock (sample_disk fs)" if "node_ino (node_at (sample_disk fs) p) = Some n" for p n
  proof -
    have "ho_clock (sample_disk fs) = 5" by (simp add: sample_disk_def)
    with that show ?thesis by (auto simp: sample_nodes sample_stamp_def split: if_splits)
  qed
  ultimately show ?thesis by (simp add: home_ok_def)
qed

lemma sample_no_journal: "pv_journal (sample_disk fs) = None"
  by (simp add: sample_disk_def)

lemma sample_broken: "commit_apply sample_env sample_preview ''t1'' (sample_disk dying) = (Inl (Broken Died), broken_disk)"
proof -
  have "fst (commit_apply sample_env sample_preview ''t1'' (sample_disk dying)) = Inl (Broken Died)" by code_simp
  then show ?thesis by (simp add: broken_disk_def prod_eq_iff)
qed

lemma sample_recoveries: "recoveries sample_env broken_disk mended_disk"
proof -
  have "recover sample_env (restarted [] sample_journal None broken_disk) =
      (fst (recover sample_env (restarted [] sample_journal None broken_disk)), mended_disk)"
    by (simp add: mended_disk_def prod_eq_iff)
  from recoveries.more [OF recoveries.none this] show ?thesis .
qed

lemma sample_mended: "pv_journal mended_disk = None"
  by code_simp


definition applied_disk :: setup_disk where
  "applied_disk = snd (commit_apply sample_env sample_preview ''t1'' (sample_disk []))"

lemma sample_applied:
  "commit_apply sample_env sample_preview ''t1'' (sample_disk []) =
    (Inr \<lparr>ap_changed = [''zshrc''], ap_unchanged = [], ap_id = Some ''t1'', ap_cleanup = False\<rparr>, applied_disk)"
proof -
  have "fst (commit_apply sample_env sample_preview ''t1'' (sample_disk [])) =
    Inr \<lparr>ap_changed = [''zshrc''], ap_unchanged = [], ap_id = Some ''t1'', ap_cleanup = False\<rparr>" by code_simp
  then show ?thesis by (simp add: applied_disk_def prod_eq_iff)
qed

theorem apply_installs_witness:
  "done_node sample_env sample_target (node_at applied_disk (path_of sample_target)) \<and> pv_journal applied_disk = None"
  using apply_installs [OF sample_preview_ok sample_home_ok sample_no_journal sample_applied] unfolding sample_changes by simp

text \<open>The file was edited by somebody else after the crash.\<close>

definition edited_disk :: setup_disk where
  "edited_disk = broken_disk\<lparr>ho_fates := [], ho_nodes := [([''.zshrc''], Regular (sample_stamp\<lparr>fs_ino := 9\<rparr>) ''mine'' 1)]\<rparr>"

definition edited_item :: jitem where
  "edited_item = hd (case pv_journal broken_disk of None \<Rightarrow> [] | Some j \<Rightarrow> jn_items j)"


end
