(* ===== verification/Config_Rollback.thy ===== *)
theory Config_Rollback
  imports Config_Safety
begin

text \<open>
  Rolling a component of public configuration back is atomic in the same sense as applying a change:
  once no journal is left every target of the component has its previous version, or every target
  looks as before the rollback.
\<close>

section \<open>The previous version\<close>

text \<open>What a target must be after the rollback: the content is the one whose digest the state keeps.\<close>

definition previous_node :: "(string \<Rightarrow> string) \<Rightarrow> backup \<Rightarrow> node option \<Rightarrow> bool" where
  "previous_node sha b n \<longleftrightarrow>
     (case bk_before b of
        Absent \<Rightarrow> n = None
      | Link_At st l \<Rightarrow> (case n of Some (Symbolic t m) \<Rightarrow> m = l | _ \<Rightarrow> False)
      | File_At st d \<Rightarrow> (case n of Some (Regular t c k) \<Rightarrow> bk_digest b = Some (sha c) \<and> fs_mode t = fs_mode st | _ \<Rightarrow> False))"

lemma restored_previous: "restored_node sha F b n \<Longrightarrow> previous_node sha b n"
  by (auto simp: restored_node_def previous_node_def split: ident.splits)

definition rolled_back :: "(string \<Rightarrow> string) \<Rightarrow> (string \<times> backup) list \<Rightarrow> (string \<times> string list) list \<Rightarrow> (string list \<Rightarrow> node option) \<Rightarrow> bool" where
  "rolled_back sha bs tr N \<longleftrightarrow> (\<forall>(k, p)\<in>set tr. case map_of bs k of None \<Rightarrow> False | Some b \<Rightarrow> previous_node sha b (N p))"

section \<open>The preparation\<close>

definition rollback_good ::
  "setup_env \<Rightarrow> txn \<Rightarrow> string \<Rightarrow> (string \<times> string list) list \<Rightarrow> string set \<Rightarrow> (string \<Rightarrow> private_file option) \<Rightarrow> journal \<Rightarrow> bool" where
  "rollback_good env X tid tr K F j \<longleftrightarrow> jn_phase j \<noteq> Committed \<and>
     distinct (map ji_target (jn_items j)) \<and> set (item_names j) \<subseteq> set tr \<and> set (map ji_target (jn_items j)) \<subseteq> K \<and>
     (\<forall>r\<in>set (jn_items j). ji_intended r = None \<and> ji_after r = None \<and> ji_recovery r = None \<and>
        matches (te_sha env) (ji_before r) (tx_home X (ji_relative r)) \<and>
        (\<exists>b. ji_backup r = Some b \<and> backup_noted env tid (tx_home X) F r b))"

definition rolling :: "setup_env \<Rightarrow> txn \<Rightarrow> string \<Rightarrow> (string \<times> string list) list \<Rightarrow> string set \<Rightarrow> setup_disk \<Rightarrow> bool" where
  "rolling env X tid tr K s \<longleftrightarrow> node_at s = tx_home X \<and> ho_clock s = tx_clock X \<and>
     rollback_good env X tid tr K (map_of (pv_files s)) (me_journal s) \<and> K \<subseteq> set (map ji_target (jn_items (me_journal s))) \<and>
     (\<forall>j. pv_journal s = Some j \<longrightarrow> rollback_good env X tid tr K (map_of (pv_files s)) j)"

text \<open>The names of the targets fit the transaction.\<close>

definition names_for :: "setup_env \<Rightarrow> txn \<Rightarrow> (string \<times> string list) list \<Rightarrow> bool" where
  "names_for env X tr \<longleftrightarrow> txn_ok X \<and> tx_sha X = te_sha env \<and> tx_paths X = map snd tr \<and> distinct (map fst tr) \<and> distinct (map snd tr)"

lemma rollback_good_kept:
  assumes n: "names_for env X tr" and j: "rollback_good env X tid tr K F j"
  shows "journal_kept X F (tx_home X) C j"
proof -
  have sub: "set (item_names j) \<subseteq> set tr" and d: "distinct (map ji_target (jn_items j))" using j by (simp_all add: rollback_good_def)
  have inj: "inj_on fst (set tr)" "inj_on snd (set tr)" using n by (simp_all add: names_for_def distinct_map)
  have "distinct (map fst (item_names j))" using d by (simp add: item_names_def comp_def)
  then have "distinct (item_names j)" by (simp add: distinct_map)
  moreover have "inj_on snd (set (item_names j))" using inj(2) sub by (rule inj_on_subset)
  ultimately have "distinct (map snd (item_names j))" by (simp add: distinct_map)
  then have rel: "distinct (map ji_relative (jn_items j))" by (simp add: item_names_def comp_def)
  have paths: "set (map ji_relative (jn_items j)) \<subseteq> set (tx_paths X)"
  proof
    fix p assume "p \<in> set (map ji_relative (jn_items j))"
    then have "p \<in> snd ` set (item_names j)" by (auto simp: item_names_def image_iff)
    with sub n show "p \<in> set (tx_paths X)" by (auto simp: names_for_def)
  qed
  have "item_ok X F (tx_home X (ji_relative r)) C r" if "r \<in> set (jn_items j)" for r
  proof -
    from j that obtain b where "ji_backup r = Some b" "backup_noted env tid (tx_home X) F r b"
      and "ji_intended r = None" "ji_after r = None" "ji_recovery r = None" "matches (te_sha env) (ji_before r) (tx_home X (ji_relative r))"
      unfolding rollback_good_def by blast
    with noted_kept have "untouched X F (tx_home X (ji_relative r)) r" using n by (auto simp: untouched_def names_for_def)
    then show ?thesis by (simp add: item_ok_def)
  qed
  with d rel paths show ?thesis by (simp add: journal_kept_def)
qed

lemma rolling_disk_safe:
  assumes n: "names_for env X tr" and s: "rolling env X tid tr K s"
  shows "disk_safe X A s"
proof -
  have "all_back X (tx_home X)" by (simp add: all_back_def same_look_def)
  moreover have "around X (tx_home X)" using n home_around by (simp add: names_for_def)
  moreover have "journal_kept X (map_of (pv_files s)) (tx_home X) (ho_clock s) j \<and> jn_phase j \<noteq> Committed" if "pv_journal s = Some j" for j
    using s that rollback_good_kept [OF n, of tid K _ j] by (auto simp: rolling_def rollback_good_def)
  ultimately show ?thesis using s by (auto simp: disk_safe_def rolling_def split: option.split)
qed

lemma rolling_stable:
  assumes "rolling env X tid tr K s"
  shows "rolling env X tid tr K (s\<lparr>ho_fates := fs\<rparr>)" "rolling env X tid tr K (s\<lparr>pv_journal := Some (me_journal s)\<rparr>)"
    "rolling env X tid tr K (s\<lparr>me_entry := e\<rparr>)"
    "p \<noteq> Committed \<Longrightarrow> rolling env X tid tr K (s\<lparr>me_journal := (me_journal s)\<lparr>jn_phase := p\<rparr>\<rparr>)"
  using assms by (auto simp: rolling_def rollback_good_def item_names_def)

text \<open>A backup file of a target that has no item yet.\<close>

lemma rollback_good_file:
  assumes "rollback_good env X tid tr K F j" "k \<notin> K"
  shows "rollback_good env X tid tr K (F(backup_path env tid k \<mapsto> f)) j"
proof -
  have "backup_noted env tid (tx_home X) (F(backup_path env tid k \<mapsto> f)) r b"
    if "r \<in> set (jn_items j)" "backup_noted env tid (tx_home X) F r b" for r b
  proof -
    from that(1) assms have "ji_target r \<noteq> k" by (auto simp: rollback_good_def)
    with that(2) show ?thesis by (auto simp: backup_noted_def split: ident.splits)
  qed
  with assms(1) show ?thesis unfolding rollback_good_def by blast
qed

lemma rolling_file:
  assumes "rolling env X tid tr K s" "k \<notin> K"
  shows "rolling env X tid tr K (s\<lparr>pv_files := (backup_path env tid k, f) # filter (\<lambda>e. fst e \<noteq> backup_path env tid k) (pv_files s)\<rparr>)"
  using assms rollback_good_file [OF _ assms(2)] by (auto simp: rolling_def map_of_replace)

lemma rollback_good_mono: "rollback_good env X tid tr K F j \<Longrightarrow> K \<subseteq> L \<Longrightarrow> rollback_good env X tid tr L F j"
  by (auto simp: rollback_good_def)

lemma rollback_good_append:
  assumes j: "rollback_good env X tid tr K F j" and k: "ji_target r \<notin> K" and t: "(ji_target r, ji_relative r) \<in> set tr"
    and r: "ji_intended r = None" "ji_after r = None" "ji_recovery r = None" "matches (te_sha env) (ji_before r) (tx_home X (ji_relative r))"
      "ji_backup r = Some b" "backup_noted env tid (tx_home X) F r b"
  shows "rollback_good env X tid tr (insert (ji_target r) K) F (j\<lparr>jn_items := jn_items j @ [r]\<rparr>)"
  using j k t r by (auto simp: rollback_good_def item_names_def)

text \<open>The backup of what is there now.\<close>

lemma triple_rollback_backup:
  assumes n: "names_for env X tr" and k: "rt_id t \<notin> K"
    and m: "matches (te_sha env) (rt_current t) (tx_home X (rt_relative t))"
  shows "triple (rolling env X tid tr K) (rollback_backup env tid st t)
    (\<lambda>b s. rolling env X tid tr K s \<and> backup_noted env tid (tx_home X) (map_of (pv_files s)) (rollback_item component t b) b)
    (rolling env X tid tr K)"
proof -
  let ?P = "rolling env X tid tr K" let ?q = "backup_path env tid (rt_id t)" let ?H = "tx_home X"
  let ?Q = "\<lambda>b s. ?P s \<and> backup_noted env tid ?H (map_of (pv_files s)) (rollback_item component t b) b"
  let ?b = "case map_of (ts_targets st) (rt_id t) of None \<Rightarrow> plain_backup (rt_current t)
     | Some r \<Rightarrow> (plain_backup (rt_current t))\<lparr>bk_managed := True, bk_prior_source := Some (tr_source r), bk_prior_generated := tr_generated r\<rparr>"
  have before: "bk_before ?b = rt_current t" by (simp add: plain_backup_def split: option.split)
  show ?thesis
  proof (cases "\<exists>s d. rt_current t = File_At s d")
    case False
    have "?Q ?b s" if "?P s" for s
      using that False before by (cases "rt_current t") (auto simp: backup_noted_def rollback_item_def)
    with False show ?thesis
      unfolding rollback_backup_def Let_def by (cases "rt_current t") (auto intro: triple_return)
  next
    case True
    then obtain s0 d where f: "rt_current t = File_At s0 d" by blast
    with m obtain c w where h: "?H (rt_relative t) = Some (Regular s0 c w)" by (auto elim: matches.elims)
    let ?R = "\<lambda>s. ?P s \<and> (\<exists>f. map_of (pv_files s) ?q = Some f \<and> pf_content f = c)"
    have get: "triple ?P (getS g) (\<lambda>_. ?P) ?P" for g :: "setup_disk \<Rightarrow> trouble + 'x" by (rule triple_get)
    have read: "triple ?P (getS (read_regular (rt_relative t) i)) (\<lambda>x s. ?P s \<and> x = c) ?P" for i
    proof (rule triple_get)
      fix s x assume "?P s" and "read_regular (rt_relative t) i s = Inr x"
      with read_regular_node [of "rt_relative t" i s x] h show "?P s \<and> x = c" by (auto simp: rolling_def)
    qed
    have copy: "triple ?P (atomic_bytes ?q c) (\<lambda>_. ?R) ?P"
      unfolding atomic_bytes_def
    proof (rule triple_effect)
      fix s g assume "?P s" and g: "g = s\<lparr>ho_fates := tl (ho_fates s)\<rparr>"
      then have "?P g" by (simp add: rolling_stable(1))
      with rolling_file [OF this k] show "?P g \<and> ?P (g\<lparr>pv_files := (?q, \<lparr>pf_content = c, pf_mode = 384\<rparr>) # filter (\<lambda>e. fst e \<noteq> ?q) (pv_files g)\<rparr>) \<and>
        ?R (g\<lparr>pv_files := (?q, \<lparr>pf_content = c, pf_mode = 384\<rparr>) # filter (\<lambda>e. fst e \<noteq> ?q) (pv_files g)\<rparr>)" by simp
    qed
    have check: "triple ?R (getS g) (\<lambda>_. ?R) ?P" for g :: "setup_disk \<Rightarrow> trouble + 'x" by (rule triple_get) auto
    let ?full = "?b\<lparr>bk_path := Some ?q, bk_digest := Some (te_sha env c)\<rparr>"
    have finish: "triple ?R (returnS ?full) ?Q ?P"
      by (rule triple_return) (use f h before in \<open>auto simp: backup_noted_def rollback_item_def\<close>)
    have rest: "triple (\<lambda>s. ?P s \<and> x = c)
        (bindS (atomic_bytes ?q x) (\<lambda>_. bindS (getS (verified_backup env (?b\<lparr>bk_path := Some ?q, bk_digest := Some (te_sha env x)\<rparr>)))
          (\<lambda>_. returnS (?b\<lparr>bk_path := Some ?q, bk_digest := Some (te_sha env x)\<rparr>)))) ?Q ?P" for x
    proof (rule triple_fact [where A = "x = c"])
      assume "x = c"
      then show ?thesis
        by simp (rule triple_bind [OF copy triple_bind [OF check finish]])
    qed simp
    have eq: "rollback_backup env tid st t = bindS (getS (inspect_target (rt_relative t))) (\<lambda>i.
        bindS (getS (read_regular (rt_relative t) i)) (\<lambda>x. bindS (atomic_bytes ?q x) (\<lambda>_.
          bindS (getS (verified_backup env (?b\<lparr>bk_path := Some ?q, bk_digest := Some (te_sha env x)\<rparr>)))
          (\<lambda>_. returnS (?b\<lparr>bk_path := Some ?q, bk_digest := Some (te_sha env x)\<rparr>)))))"
      by (simp add: rollback_backup_def Let_def f)
    show ?thesis unfolding eq by (rule triple_bind [OF get triple_bind [OF read rest]])
  qed
qed

text \<open>One target enters the journal.\<close>

lemma rolling_tree: "names_for env X tr \<Longrightarrow> rolling env X tid tr K s \<Longrightarrow> tree (node_at s) \<and> node_at s = tx_home X"
  by (simp add: names_for_def rolling_def txn_ok_def)

lemma triple_rollback_keep:
  assumes n: "names_for env X tr" and t: "(rt_id t, rt_relative t) \<in> set tr" "rt_id t \<notin> K"
  shows "triple (rolling env X tid tr K) (rollback_keep env tid component st t) (\<lambda>_. rolling env X tid tr (insert (rt_id t) K))
    (\<lambda>s. \<exists>K. rolling env X tid tr K s)"
proof -
  let ?P = "rolling env X tid tr" let ?H = "tx_home X" let ?E = "\<lambda>s. \<exists>K. ?P K s"
  let ?m = "matches (te_sha env) (rt_current t) (?H (rt_relative t))"
  have look: "triple (?P K) (getS (current_identity env (rt_id t) (rt_relative t) d)) (\<lambda>i s. ?P K s \<and> matches (te_sha env) i (?H (rt_relative t))) ?E" for d
    by (rule triple_get) (use current_identity_matches rolling_tree [OF n] in \<open>fastforce\<close>)+
  have same: "triple (\<lambda>s. ?P K s \<and> matches (te_sha env) i (?H (rt_relative t))) (ensureS (i = rt_current t) e) (\<lambda>_ s. ?P K s \<and> ?m) ?E" for i e
    by (rule triple_ensure) auto
  have copy: "triple (\<lambda>s. ?P K s \<and> ?m) (rollback_backup env tid st t)
      (\<lambda>b s. (?P K s \<and> backup_noted env tid ?H (map_of (pv_files s)) (rollback_item component t b) b) \<and> ?m) ?E"
  proof (rule triple_fact [where A = ?m])
    assume m: ?m
    show ?thesis by (rule triple_weaken [OF triple_rollback_backup [OF n t(2) m]]) (use m in auto)
  qed simp
  have append: "triple (\<lambda>s. (?P K s \<and> backup_noted env tid ?H (map_of (pv_files s)) (rollback_item component t b) b) \<and> ?m)
      (remember (\<lambda>j. j\<lparr>jn_items := jn_items j @ [rollback_item component t b]\<rparr>)) (\<lambda>_. ?P (insert (rt_id t) K)) ?E" for b
  proof (rule triple_remember)
    fix s assume s: "(?P K s \<and> backup_noted env tid ?H (map_of (pv_files s)) (rollback_item component t b) b) \<and> ?m"
    then have good: "rollback_good env X tid tr K (map_of (pv_files s)) (me_journal s)" by (simp add: rolling_def)
    from rollback_good_append [OF good, of "rollback_item component t b" b] s t
    have "rollback_good env X tid tr (insert (rt_id t) K) (map_of (pv_files s)) ((me_journal s)\<lparr>jn_items := jn_items (me_journal s) @ [rollback_item component t b]\<rparr>)"
      by (simp add: rollback_item_def)
    with s show "?P (insert (rt_id t) K) (s\<lparr>me_journal := (me_journal s)\<lparr>jn_items := jn_items (me_journal s) @ [rollback_item component t b]\<rparr>\<rparr>)"
      by (auto simp: rolling_def rollback_item_def intro: rollback_good_mono)
  qed
  have out: "triple (?P L) write_journal (\<lambda>_. ?P L) ?E" for L
    by (rule triple_write_invariant) (auto intro: rolling_stable)
  show ?thesis
    unfolding rollback_keep_def
    by (rule triple_bind [OF look triple_bind [OF same triple_bind [OF copy triple_bind [OF append out]]]])
qed

lemma triple_each_new:
  assumes "\<And>x D. x \<in> set xs \<Longrightarrow> k x \<notin> D \<Longrightarrow> triple (P D) (f x) (\<lambda>_. P (insert (k x) D)) E"
  shows "distinct (map k xs) \<Longrightarrow> k ` set xs \<inter> D = {} \<Longrightarrow> triple (P D) (each f xs) (\<lambda>_. P (k ` set xs \<union> D)) E"
  using assms
proof (induction xs arbitrary: D)
  case Nil
  then show ?case by (auto intro: triple_return)
next
  case (Cons x xs)
  have "triple (P D) (bindS (f x) (\<lambda>_. each f xs)) (\<lambda>_. P (k ` set xs \<union> insert (k x) D)) E"
  proof (rule triple_bind)
    show "triple (P D) (f x) (\<lambda>_. P (insert (k x) D)) E" using Cons.prems by simp
    show "triple (P (insert (k x) D)) (each f xs) (\<lambda>_. P (k ` set xs \<union> insert (k x) D)) E" for u :: unit
      using Cons.prems by (intro Cons.IH) auto
  qed
  then show ?case by simp
qed

lemma triple_rollback_prepare:
  assumes n: "names_for env X tr" and ts: "map (\<lambda>t. (rt_id t, rt_relative t)) ts = tr"
  shows "triple (rolling env X tid tr {}) (rollback_prepare env tid component st ts) (\<lambda>_. rolling env X tid tr (set (map fst tr)))
    (\<lambda>s. \<exists>K. rolling env X tid tr K s)"
proof -
  let ?P = "rolling env X tid tr" let ?E = "\<lambda>s. \<exists>K. ?P K s"
  have ids: "map rt_id ts = map fst tr" by (auto simp: ts [symmetric])
  have "triple (?P {}) (each (rollback_keep env tid component st) ts) (\<lambda>_. ?P (rt_id ` set ts \<union> {})) ?E"
  proof (rule triple_each_new)
    fix t K assume "t \<in> set ts" "rt_id t \<notin> K"
    then show "triple (?P K) (rollback_keep env tid component st t) (\<lambda>_. ?P (insert (rt_id t) K)) ?E"
      using ts by (intro triple_rollback_keep [OF n]) auto
  qed (use n ids in \<open>auto simp: names_for_def\<close>)
  moreover have "rt_id ` set ts = set (map fst tr)" by (simp add: ids [symmetric])
  ultimately have keep: "triple (?P {}) (each (rollback_keep env tid component st) ts) (\<lambda>_. ?P (set (map fst tr))) ?E" by simp
  have phase: "triple (?P L) (set_phase Backed_Up) (\<lambda>_. ?P L) ?E" for L
    unfolding set_phase_def by (rule triple_remember) (auto intro: rolling_stable)
  have out: "triple (?P L) write_journal (\<lambda>_. ?P L) ?E" for L
    by (rule triple_write_invariant) (auto intro: rolling_stable)
  show ?thesis
    unfolding rollback_prepare_def by (rule triple_bind [OF keep triple_bind [OF phase out]])
qed

section \<open>Going back\<close>

text \<open>\<open>R\<close> says what a target must be once it was restored; \<open>D\<close> are the targets restored so far.\<close>

definition changing :: "txn \<Rightarrow> (string \<times> string list) list \<Rightarrow> (string \<Rightarrow> node option \<Rightarrow> bool) \<Rightarrow> string set \<Rightarrow> setup_disk \<Rightarrow> bool" where
  "changing X tr R D s \<longleftrightarrow> writing X s \<and> item_names (me_journal s) = tr \<and>
     (\<forall>r\<in>set (jn_items (me_journal s)). ji_target r \<notin> D \<longrightarrow>
        untouched X (map_of (pv_files s)) (node_at s (ji_relative r)) r \<and> ji_backup r \<noteq> None) \<and>
     (\<forall>k p. (k, p) \<in> set tr \<and> k \<in> D \<longrightarrow> R k (node_at s p))"

lemma changing_writing: "changing X tr R D s \<Longrightarrow> writing X s"
  by (simp add: changing_def)

lemma changing_stable:
  assumes "changing X tr R D s"
  shows "changing X tr R D (s\<lparr>ho_fates := fs\<rparr>)" "changing X tr R D (s\<lparr>pv_journal := Some (me_journal s)\<rparr>)"
    "changing X tr R D (s\<lparr>me_entry := e\<rparr>)" "changing X tr R D (s\<lparr>pv_state := st\<rparr>)"
  using assms by (simp_all add: changing_def writing_private)

lemma changing_item:
  assumes "changing X tr R D s" "find_item k (me_journal s) = Some r"
  shows "(k, ji_relative r) \<in> set tr" "ji_relative r \<in> set (tx_paths X)" "distinct (map fst tr)" "distinct (map snd tr)"
    "set (map snd tr) \<subseteq> set (tx_paths X)"
    "item_ok X (map_of (pv_files s)) (node_at s (ji_relative r)) (ho_clock s) r"
proof -
  from assms(1) have j: "journal_kept X (map_of (pv_files s)) (node_at s) (ho_clock s) (me_journal s)"
    and tr: "tr = item_names (me_journal s)" by (auto simp: changing_def writing_def)
  from find_item_in [OF assms(2)] have r: "r \<in> set (jn_items (me_journal s))" "ji_target r = k" by auto
  then show "(k, ji_relative r) \<in> set tr" by (auto simp: tr item_names_def)
  show "ji_relative r \<in> set (tx_paths X)" "distinct (map fst tr)" "distinct (map snd tr)" "set (map snd tr) \<subseteq> set (tx_paths X)"
    "item_ok X (map_of (pv_files s)) (node_at s (ji_relative r)) (ho_clock s) r"
    using j r by (auto simp: journal_kept_def tr item_names_def comp_def)
qed

lemma changing_update:
  assumes s: "changing X tr R D s" and k: "k \<in> D" and r: "find_item k (me_journal s) = Some r"
    and f: "\<And>r. ji_target (f r) = ji_target r" "\<And>r. ji_relative (f r) = ji_relative r"
    and ok: "item_ok X (map_of (pv_files s)) (node_at s (ji_relative r)) (ho_clock s) (f r)"
  shows "changing X tr R D (s\<lparr>me_journal := update_item k f (me_journal s)\<rparr>)"
proof -
  from s have w: "writing X s" by (rule changing_writing)
  then have "journal_kept X (map_of (pv_files s)) (node_at s) (ho_clock s) (me_journal s)" by (simp add: writing_def)
  from journal_kept_update [OF this r ok f] w
  have "writing X (s\<lparr>me_journal := update_item k f (me_journal s)\<rparr>)" by (auto simp: writing_def)
  with s k f show ?thesis by (auto simp: changing_def item_names_update items_update)
qed

text \<open>The target was restored, and its item holds the new identity.\<close>

definition sent_back :: "txn \<Rightarrow> (string \<times> string list) list \<Rightarrow> (string \<Rightarrow> node option \<Rightarrow> bool) \<Rightarrow> string set \<Rightarrow> string \<Rightarrow> string list \<Rightarrow> ident \<Rightarrow> setup_disk \<Rightarrow> bool" where
  "sent_back X tr R D k p i s \<longleftrightarrow> changing X tr R (insert k D) s \<and>
     (\<exists>r. find_item k (me_journal s) = Some r \<and> ji_relative r = p \<and> ji_intended r = Some i) \<and> matches (tx_sha X) i (node_at s p)"

lemma under_way_sent_back:
  assumes u: "under_way X (N(p := n)) F (update_item k (intends x) j) s"
    and s0: "changing X tr R D s0" "node_at s0 = N" "map_of (pv_files s0) = F" "me_journal s0 = j"
    and r: "find_item k j = Some r" "ji_relative r = p" and n: "R k n" "matches (tx_sha X) x n"
  shows "sent_back X tr R D k p x s"
proof -
  let ?j = "update_item k (intends x) j" let ?M = "N(p := n)"
  have t: "ji_target (intends x q) = ji_target q" "ji_relative (intends x q) = ji_relative q" for q by (simp_all add: intends_def)
  note item = changing_item [OF s0(1), of k r, unfolded s0(4), OF r(1)]
  from u have w: "writing X s" and like: "nodes_like X ?M s" and me: "me_journal s = ?j" and files: "map_of (pv_files s) = F"
    by (simp_all add: under_way_def)
  from s0 have names: "item_names j = tr" by (simp add: changing_def)
  have nodes: "node_at s q = ?M q" if "(l, q) \<in> set tr" for l q
  proof -
    from that item(5) have "q \<in> set (tx_paths X)" by force
    with like show ?thesis by (simp add: nodes_like_def)
  qed
  have other: "q \<noteq> p" if "(l, q) \<in> set tr" "l \<noteq> k" for l q
    using that item(1,4) r(2) by (metis (no_types, lifting) distinct_map inj_onD prod.inject snd_conv)
  have "untouched X F (node_at s (ji_relative q)) q \<and> ji_backup q \<noteq> None"
    if q: "q \<in> set (jn_items ?j)" "ji_target q \<notin> insert k D" for q
  proof -
    from q t have qj: "q \<in> set (jn_items j)" by (auto simp: items_update split: if_splits)
    then have "(ji_target q, ji_relative q) \<in> set tr" by (auto simp: names [symmetric] item_names_def)
    with nodes [OF this] other [OF this] q(2) have "node_at s (ji_relative q) = N (ji_relative q)" by auto
    with s0 qj q(2) show ?thesis by (auto simp: changing_def)
  qed
  moreover have "R l (node_at s q)" if "(l, q) \<in> set tr" "l \<in> insert k D" for l q
  proof (cases "l = k")
    case True
    with that(1) item(1,3) r(2) have "q = p" by (metis eq_key_imp_eq_value)
    with nodes [OF that(1)] n(1) True show ?thesis by simp
  next
    case False
    with that s0(1,2) nodes [OF that(1)] other [OF that(1) False] show ?thesis by (auto simp: changing_def)
  qed
  ultimately have "changing X tr R (insert k D) s"
    using w me files names by (auto simp: changing_def item_names_update t)
  moreover have "find_item k (me_journal s) = Some (intends x r)" using me r(1) t by (simp add: find_item_update)
  moreover have "node_at s p = n" using nodes item(1) r(2) by auto
  ultimately show ?thesis using r(2) n(2) by (auto simp: sent_back_def intends_def)
qed

lemma triple_send_back:
  assumes X: "txn_ok X" "tx_sha X = te_sha env" and k: "k \<notin> D" and R: "\<And>F n. restored_node (te_sha env) F b n \<Longrightarrow> R k n"
  shows "triple (\<lambda>s. changing X tr R D s \<and> find_item k (me_journal s) = Some r \<and> matches (te_sha env) (ji_before r) (node_at s (ji_relative r)))
    (restore_one env (ji_relative r) b (\<lambda>x. note_item k (\<lambda>r. r\<lparr>ji_intended := Some x\<rparr>)) e)
    (\<lambda>_ s. \<exists>i. sent_back X tr R D k (ji_relative r) i s) (writing X)"
proof (rule triple_given [where f = "\<lambda>s. (node_at s, map_of (pv_files s), me_journal s)"])
  fix v :: "(string list \<Rightarrow> node option) \<times> (string \<Rightarrow> private_file option) \<times> journal"
  obtain N F j where v: "v = (N, F, j)" by (cases v)
  let ?p = "ji_relative r"
  let ?P = "\<lambda>s. (changing X tr R D s \<and> find_item k (me_journal s) = Some r \<and> matches (te_sha env) (ji_before r) (node_at s ?p)) \<and>
    (node_at s, map_of (pv_files s), me_journal s) = v"
  show "triple ?P (restore_one env ?p b (\<lambda>x. note_item k (\<lambda>r. r\<lparr>ji_intended := Some x\<rparr>)) e)
      (\<lambda>_ s. \<exists>i. sent_back X tr R D k ?p i s) (writing X)"
  proof (rule triple_fact [where A = "\<exists>s. ?P s"])
    assume "\<exists>s. ?P s"
    then obtain s0 where s0: "changing X tr R D s0" "node_at s0 = N" "map_of (pv_files s0) = F" "me_journal s0 = j"
      and r: "find_item k j = Some r" and m: "matches (tx_sha X) (ji_before r) (N ?p)" using v X(2) by auto
    from find_item_in [OF r] s0 k have un: "untouched X F (N ?p) r" "ji_backup r \<noteq> None" by (auto simp: changing_def)
    have p: "?p \<in> set (tx_paths X)" using changing_item(2) [OF s0(1)] r s0(4) by simp
    note step = change_step [OF un(1) m un(2)]
    have "triple ?P (restore_one env ?p b (\<lambda>x. note_item k (intends x)) e) (\<lambda>_ s. \<exists>i. sent_back X tr R D k ?p i s) (writing X)"
    proof (rule triple_weaken [OF triple_restore_one [where N = N and j = j, OF X(1) p X(2) r refl step TrueI TrueI]])
      fix s assume "?P s"
      then show "under_way X N F j s" by (auto simp: v under_way_def nodes_like_def dest: changing_writing)
    next
      fix u :: unit and s
      assume "\<exists>x n. restored_node (te_sha env) F b n \<and> matches (tx_sha X) x n \<and> under_way X (N(?p := n)) F (update_item k (intends x) j) s"
      then obtain x n where n: "restored_node (te_sha env) F b n" "matches (tx_sha X) x n" "under_way X (N(?p := n)) F (update_item k (intends x) j) s" by blast
      from under_way_sent_back [OF n(3) s0 r refl R [OF n(1)] n(2)] show "\<exists>i. sent_back X tr R D k ?p i s" by blast
    qed
    then show ?thesis by (simp add: intends_def [abs_def])
  qed blast
qed

lemma triple_back_after:
  "triple (\<lambda>s. sent_back X tr R D k p i s) (note_item k (\<lambda>r. r\<lparr>ji_after := Some i, ji_stage := Stage_Verified\<rparr>))
    (\<lambda>_. changing X tr R (insert k D)) (writing X)"
proof (rule triple_post, rule triple_note_invariant)
  let ?f = "\<lambda>r. r\<lparr>ji_after := Some i, ji_stage := Stage_Verified\<rparr>"
  fix s assume s: "sent_back X tr R D k p i s"
  then obtain r where c: "changing X tr R (insert k D) s" and r: "find_item k (me_journal s) = Some r" "ji_relative r = p" "ji_intended r = Some i"
    and m: "matches (tx_sha X) i (node_at s p)" by (auto simp: sent_back_def)
  have ok: "item_ok X (map_of (pv_files s)) (node_at s (ji_relative r)) (ho_clock s) (?f r)"
    using changing_item(6) [OF c r(1)] r(3) by (auto simp: item_ok_def untouched_def active_def backup_kept_def)
  have "changing X tr R (insert k D) (s\<lparr>me_journal := update_item k ?f (me_journal s)\<rparr>)"
    by (rule changing_update [where f = ?f, OF c _ r(1) _ _ ok]) simp_all
  then show "sent_back X tr R D k p i (s\<lparr>me_journal := update_item k ?f (me_journal s)\<rparr>)"
    using r m by (auto simp: sent_back_def find_item_update)
qed (auto simp: sent_back_def changing_stable dest: changing_writing)

lemma triple_rollback_now:
  assumes X: "txn_ok X" "tx_sha X = te_sha env" and k: "k \<notin> D"
    and R: "\<And>b F n. map_of bs k = Some b \<Longrightarrow> restored_node (te_sha env) F b n \<Longrightarrow> R k n"
  shows "triple (changing X tr R D) (rollback_target_now env component bs st k) (\<lambda>_. changing X tr R (insert k D)) (writing X)"
proof -
  let ?P = "changing X tr R D" let ?Q = "changing X tr R (insert k D)"
  let ?I = "\<lambda>r s. ?P s \<and> find_item k (me_journal s) = Some r"
  let ?M = "\<lambda>r s. ?P s \<and> find_item k (me_journal s) = Some r \<and> matches (te_sha env) (ji_before r) (node_at s (ji_relative r))"
  let ?S = "\<lambda>r s. \<exists>i. sent_back X tr R D k (ji_relative r) i s"
  have W: "?S r s \<Longrightarrow> writing X s" for r s by (auto simp: sent_back_def dest: changing_writing)
  have item: "triple ?P (the_item k) ?I (writing X)"
    by (rule triple_the_item) (rule changing_writing)
  have look: "triple (?I r) (getS (current_identity env k (ji_relative r) d)) (\<lambda>i s. ?I r s \<and> matches (te_sha env) i (node_at s (ji_relative r))) (writing X)" for r d
    by (rule triple_get) (auto intro: current_identity_matches dest: changing_writing writing_tree)
  have same: "triple (\<lambda>s. ?I r s \<and> matches (te_sha env) i (node_at s (ji_relative r))) (ensureS (i = ji_before r) e) (\<lambda>_. ?M r) (writing X)" for r i e
    by (rule triple_ensure) (auto dest: changing_writing)
  have backup: "triple (?M r) (case map_of bs k of None \<Rightarrow> raiseS (Broken System) | Some b \<Rightarrow> returnS b) (\<lambda>b s. ?M r s \<and> map_of bs k = Some b) (writing X)" for r
    by (cases "map_of bs k") (auto intro: triple_raise triple_return dest: changing_writing)
  have entry: "triple (\<lambda>s. ?M r s \<and> map_of bs k = Some b) (if entry_target k then set_entry x else returnS ()) (\<lambda>_ s. ?M r s \<and> map_of bs k = Some b) (writing X)" for r b x
    by (auto intro!: triple_if triple_entry triple_return intro: changing_stable)
  have send: "triple (\<lambda>s. ?M r s \<and> map_of bs k = Some b)
      (restore_one env (ji_relative r) b (\<lambda>x. note_item k (\<lambda>r. r\<lparr>ji_intended := Some x\<rparr>)) i) (\<lambda>_. ?S r) (writing X)" for r b i
    by (rule triple_fact [where A = "map_of bs k = Some b"]) (auto intro: triple_pre [OF triple_send_back [where R = R, OF X k R]])
  have entry': "triple (?S r) (if entry_target k then set_entry x else returnS ()) (\<lambda>_. ?S r) (writing X)" for r x
    by (auto intro!: triple_if triple_entry triple_return simp: sent_back_def changing_stable)
  have again: "triple (?S r) (getS (current_identity env k (ji_relative r) d)) (\<lambda>i s. sent_back X tr R D k (ji_relative r) i s) (writing X)" for r d
  proof (rule triple_get)
    fix s i assume "?S r s" and i: "current_identity env k (ji_relative r) d s = Inr i"
    then obtain x where x: "sent_back X tr R D k (ji_relative r) x s" by blast
    then have "tree (node_at s)" by (auto simp: sent_back_def dest: changing_writing writing_tree)
    from current_identity_matches [OF this i] x X(2) have "x = i" using matches_unique by (fastforce simp: sent_back_def)
    with x show "sent_back X tr R D k (ji_relative r) i s" by simp
  qed (rule W)
  have payload: "triple ?Q (payload_there env g) (\<lambda>_. ?Q) (writing X)" for g by (rule triple_payload) (rule changing_writing)
  show ?thesis
    unfolding rollback_target_now_def
    by (rule triple_bind [OF item triple_bind [OF look triple_bind [OF same triple_bind [OF backup triple_bind [OF entry triple_bind [OF send
       triple_bind [OF entry' triple_bind [OF again triple_bind [OF triple_back_after triple_bind [OF payload]]]]]]]]]])
      (rule triple_return)
qed

lemma triple_rollback_targets:
  assumes X: "txn_ok X" "tx_sha X = te_sha env"
    and R: "\<And>k b F n. map_of bs k = Some b \<Longrightarrow> restored_node (te_sha env) F b n \<Longrightarrow> R k n"
  shows "distinct ks \<Longrightarrow> set ks \<inter> D = {} \<Longrightarrow>
    triple (changing X tr R D) (rollback_targets env component bs st ks) (\<lambda>_. changing X tr R (set ks \<union> D)) (writing X)"
proof (induction ks arbitrary: st D)
  case Nil
  then show ?case by (auto intro: triple_return)
next
  case (Cons k ks)
  have "triple (changing X tr R D) (bindS (rollback_target_now env component bs st k) (\<lambda>st'. rollback_targets env component bs st' ks))
      (\<lambda>_. changing X tr R (set ks \<union> insert k D)) (writing X)"
  proof (rule triple_bind [OF triple_rollback_now [where R = R, OF X _ R]])
    show "triple (changing X tr R (insert k D)) (rollback_targets env component bs st' ks) (\<lambda>_. changing X tr R (set ks \<union> insert k D)) (writing X)" for st'
      using Cons.prems by (intro Cons.IH) auto
  qed (use Cons.prems in auto)
  then show ?case by simp
qed

lemma triple_roll_back_all:
  assumes X: "txn_ok X" "tx_sha X = te_sha env" and A: "\<And>N. (\<forall>k p. (k, p) \<in> set tr \<longrightarrow> R k (N p)) \<Longrightarrow> A N"
    and R: "\<And>k b F n. map_of bs k = Some b \<Longrightarrow> restored_node (te_sha env) F b n \<Longrightarrow> R k n" and d: "distinct (map fst tr)"
  shows "triple (changing X tr R {}) (roll_back_all env component bs st) (\<lambda>_ s. settled X A s \<and> pv_journal s = None) (interrupted X A)"
proof -
  let ?P = "changing X tr R" let ?ks = "rev (map fst tr)"
  have W: "writing X s \<Longrightarrow> interrupted X A s" for s by (rule writing_interrupted)
  have get: "triple (?P {}) (getS (\<lambda>s. Inr (rev (map ji_target (jn_items (me_journal s)))))) (\<lambda>ks s. ?P {} s \<and> ks = ?ks) (interrupted X A)"
    by (rule triple_get) (auto simp: changing_def item_names_def comp_def intro: W)
  have go: "triple (\<lambda>s. ?P {} s \<and> ks = ?ks) (rollback_targets env component bs st ks) (\<lambda>_. ?P (set (map fst tr))) (interrupted X A)" for ks
  proof (rule triple_fact [where A = "ks = ?ks"])
    assume ks: "ks = ?ks"
    show ?thesis
      by (rule triple_weaken [OF triple_rollback_targets [where R = R and tr = tr and D = "{}", OF X R]]) (use ks d in \<open>auto intro: W\<close>)
  qed simp
  have commit_it: "triple (?P (set (map fst tr))) (commit new) (\<lambda>_ s. settled X A s \<and> pv_journal s = None) (interrupted X A)" for new
  proof (rule triple_commit)
    fix s assume s: "?P (set (map fst tr)) s"
    then have "\<forall>k p. (k, p) \<in> set tr \<longrightarrow> R k (node_at s p)" by (force simp: changing_def)
    with A s show "writing X s \<and> A (node_at s)" by (auto dest: changing_writing)
  qed (auto intro: changing_stable)
  show ?thesis
    unfolding roll_back_all_def Let_def
    by (rule triple_bind [OF get triple_bind [OF go triple_bind [OF commit_it]]]) (rule triple_return)
qed

section \<open>The whole rollback\<close>

definition rollback_names :: "(string \<Rightarrow> (string \<times> string list) option) \<Rightarrow> (string \<times> backup) list \<Rightarrow> (string \<times> string list) list" where
  "rollback_names catalog bs = map (\<lambda>e. (fst e, case catalog (fst e) of None \<Rightarrow> [] | Some (c, p) \<Rightarrow> p)) bs"

lemma triple_preview_items:
  "triple (\<lambda>t. t = s) (preview_items env catalog component st bs)
    (\<lambda>ts t. t = s \<and> map (\<lambda>t. (rt_id t, rt_relative t)) ts = rollback_names catalog bs) (\<lambda>t. t = s)"
proof (induction bs)
  case Nil
  then show ?case by (auto simp: rollback_names_def intro: triple_return)
next
  case (Cons e es)
  let ?P = "\<lambda>t. t = s"
  have pay: "triple ?P (payload_there env g) (\<lambda>_. ?P) ?P" for g by (rule triple_payload)
  have get: "triple ?P (getS f) (\<lambda>_. ?P) ?P" for f :: "setup_disk \<Rightarrow> trouble + 'x" by (rule triple_get)
  have ens: "triple ?P (ensureS b w) (\<lambda>_. ?P) ?P" for b w by (rule triple_ensure)
  have one: "triple ?P (preview_item env catalog component st e)
      (\<lambda>t u. u = s \<and> [(rt_id t, rt_relative t)] = rollback_names catalog [e]) ?P"
  proof (cases "catalog (fst e)")
    case None
    then show ?thesis by (auto simp: preview_item_def Let_def intro: triple_raise)
  next
    case (Some cp)
    obtain c p where cp: "cp = (c, p)" by (cases cp)
    show ?thesis
    proof (cases "map_of (ts_targets st) (fst e)")
      case None
      with Some cp show ?thesis by (auto simp: preview_item_def Let_def intro: triple_raise)
    next
      case (Some r)
      with \<open>catalog (fst e) = Some cp\<close> cp show ?thesis
        by (simp add: preview_item_def Let_def)
          (rule triple_bind [OF ens triple_bind [OF get triple_bind [OF ens triple_bind [OF get triple_bind [OF pay triple_bind [OF pay]]]]]],
            rule triple_return, simp add: rollback_names_def)
    qed
  qed
  have rest: "triple (\<lambda>u. u = s \<and> [(rt_id t, rt_relative t)] = rollback_names catalog [e])
      (bindS (preview_items env catalog component st es) (\<lambda>ts. returnS (t # ts)))
      (\<lambda>ts u. u = s \<and> map (\<lambda>t. (rt_id t, rt_relative t)) ts = rollback_names catalog (e # es)) ?P" for t
  proof (rule triple_fact [where A = "[(rt_id t, rt_relative t)] = rollback_names catalog [e]"])
    assume t: "[(rt_id t, rt_relative t)] = rollback_names catalog [e]"
    show ?thesis
      by (rule triple_pre, rule triple_bind [OF Cons.IH], rule triple_return) (use t in \<open>auto simp: rollback_names_def\<close>)
  qed simp
  show ?case by (simp, rule triple_bind [OF one rest])
qed

lemma triple_rollback_preview:
  assumes "read_state env s = Inr st" "map_of (ts_previous st) component = Some bs"
  shows "triple (\<lambda>t. t = s) (rollback_preview env catalog located component)
    (\<lambda>ts t. t = s \<and> map (\<lambda>t. (rt_id t, rt_relative t)) ts = rollback_names catalog bs) (\<lambda>t. t = s)"
proof -
  let ?P = "\<lambda>t. t = s"
  have get: "triple ?P (getS f) (\<lambda>x t. t = s \<and> f s = Inr x) ?P" for f :: "setup_disk \<Rightarrow> trouble + 'x" by (rule triple_get) auto
  have loc: "triple (\<lambda>t. t = s \<and> no_recovery_pending s = Inr x) (if component = ''herdr'' then liftS located else returnS ()) (\<lambda>_. ?P) ?P" for x
    by (auto intro!: triple_if triple_lift triple_return)
  have items: "triple (\<lambda>t. t = s \<and> read_state env s = Inr st')
      (case map_of (ts_previous st') component of
         None \<Rightarrow> raiseS (Refused 4 ''no_previous_version'')
       | Some bs \<Rightarrow> if bs = [] then raiseS (Refused 4 ''no_previous_version'') else preview_items env catalog component st' bs)
      (\<lambda>ts t. t = s \<and> map (\<lambda>t. (rt_id t, rt_relative t)) ts = rollback_names catalog bs) ?P" for st'
  proof (rule triple_fact [where A = "st' = st"])
    assume "st' = st"
    with assms show ?thesis by (auto intro: triple_raise triple_pre [OF triple_preview_items])
  qed (use assms in auto)
  show ?thesis
    unfolding rollback_preview_def by (rule triple_bind [OF get [of no_recovery_pending] triple_bind [OF loc triple_bind [OF get [of "read_state env"] items]]])
qed

lemma rolling_changing:
  assumes n: "names_for env X tr" and s: "rolling env X tid tr (set (map fst tr)) s" and j: "pv_journal s = Some (me_journal s)"
  shows "changing X (item_names (me_journal s)) R {} s" "set (item_names (me_journal s)) = set tr" "distinct (map fst (item_names (me_journal s)))"
proof -
  let ?j = "me_journal s" let ?F = "map_of (pv_files s)"
  from s have g: "rollback_good env X tid tr (set (map fst tr)) ?F ?j" and h: "node_at s = tx_home X" "ho_clock s = tx_clock X"
    and all: "set (map fst tr) \<subseteq> set (map ji_target (jn_items ?j))" by (auto simp: rolling_def)
  then have k: "journal_kept X ?F (node_at s) (ho_clock s) ?j" using rollback_good_kept [OF n g] by simp
  have "untouched X ?F (tx_home X (ji_relative r)) r \<and> ji_backup r \<noteq> None" if r: "r \<in> set (jn_items ?j)" for r
  proof -
    from g r obtain b where "ji_backup r = Some b" "backup_noted env tid (tx_home X) ?F r b"
      and "ji_intended r = None" "ji_after r = None" "ji_recovery r = None" "matches (te_sha env) (ji_before r) (tx_home X (ji_relative r))"
      unfolding rollback_good_def by blast
    with noted_kept show ?thesis using n by (auto simp: untouched_def names_for_def)
  qed
  moreover have "writing X s"
    using k j h g n home_around by (auto simp: writing_def rollback_good_def names_for_def)
  ultimately show "changing X (item_names ?j) R {} s" by (auto simp: changing_def h(1))
  show "distinct (map fst (item_names ?j))" using g by (simp add: rollback_good_def item_names_def comp_def)
  show "set (item_names ?j) = set tr"
  proof
    show "set tr \<subseteq> set (item_names ?j)"
    proof
      fix e assume e: "e \<in> set tr"
      then have "fst e \<in> set (map ji_target (jn_items ?j))" using all by auto
      then obtain p where p: "(fst e, p) \<in> set (item_names ?j)" by (auto simp: item_names_def)
      with g have "(fst e, p) \<in> set tr" by (auto simp: rollback_good_def)
      with e n eq_key_imp_eq_value [of tr "fst e" "snd e" p] have "snd e = p" by (simp add: names_for_def)
      with p show "e \<in> set (item_names ?j)" by (cases e) simp
    qed
  qed (use g in \<open>auto simp: rollback_good_def\<close>)
qed

lemma triple_undo_rollback:
  assumes n: "names_for env X tr"
  shows "triple (\<lambda>s. \<exists>K. rolling env X tid tr K s) (undo_preparation env tid t) Q (disk_safe X A)"
proof -
  let ?P = "\<lambda>s. \<exists>K. rolling env X tid tr K s"
  have ok: "txn_ok X" using n by (simp add: names_for_def)
  have N: "starting X s \<Longrightarrow> disk_safe X A s" for s by (rule starting_disk_safe [OF ok])
  have unlink: "triple ?P unlink_journal (\<lambda>_. starting X) (disk_safe X A)"
    by (rule triple_unlink) (auto simp: rolling_def starting_def intro: rolling_disk_safe [OF n] rolling_stable N)
  have drop: "triple (starting X) (drop_backups env tid) (\<lambda>_. starting X) (disk_safe X A)"
    unfolding drop_backups_def by (rule triple_catching [OF triple_clean_old(3)]) (auto intro: triple_return N starting_stable)
  show ?thesis
    unfolding undo_preparation_def by (rule triple_bind [OF unlink triple_bind [OF drop]]) (auto intro: triple_raise N)
qed

definition rollback_txn :: "setup_env \<Rightarrow> (string \<Rightarrow> (string \<times> string list) option) \<Rightarrow> (string \<times> backup) list \<Rightarrow> setup_disk \<Rightarrow> txn" where
  "rollback_txn env catalog bs s = \<lparr>tx_sha = te_sha env, tx_home = node_at s, tx_clock = ho_clock s, tx_paths = map snd (rollback_names catalog bs)\<rparr>"

text \<open>The targets the rollback is about, as the preview found them.\<close>

definition named :: "(string \<times> string list) list \<Rightarrow> rollback_target list \<Rightarrow> bool" where
  "named tr ts \<longleftrightarrow> map (\<lambda>t. (rt_id t, rt_relative t)) ts = tr"

lemma triple_rollback_install:
  fixes bs :: "(string \<times> backup) list"
  assumes n: "names_for env X tr0"
  defines "A \<equiv> rolled_back (te_sha env) bs tr0"
    and "R \<equiv> \<lambda>k n. case map_of bs k of None \<Rightarrow> False | Some b \<Rightarrow> previous_node (te_sha env) b n"
  shows "triple (\<lambda>t. \<exists>tr. changing X tr R {} t \<and> set tr = set tr0 \<and> distinct (map fst tr))
    (catching is_handled (roll_back_all env component bs st) (leave_recovery e)) (\<lambda>_ t. settled X A t \<and> pv_journal t = None) (disk_safe X A)"
proof (rule triple_given [where f = "\<lambda>t. item_names (me_journal t)"])
  fix tr
  let ?C = "\<lambda>t. \<exists>tr. changing X tr R {} t \<and> set tr = set tr0 \<and> distinct (map fst tr)"
  let ?Q = "\<lambda>t. settled X A t \<and> pv_journal t = None"
  have X: "txn_ok X" "tx_sha X = te_sha env" using n by (simp_all add: names_for_def)
  show "triple (\<lambda>t. ?C t \<and> item_names (me_journal t) = tr) (catching is_handled (roll_back_all env component bs st) (leave_recovery e))
      (\<lambda>_. ?Q) (disk_safe X A)"
  proof (rule triple_fact [where A = "set tr = set tr0 \<and> distinct (map fst tr)"])
    assume tr: "set tr = set tr0 \<and> distinct (map fst tr)"
    have "triple (changing X tr R {}) (roll_back_all env component bs st) (\<lambda>_. ?Q) (interrupted X A)"
    proof (rule triple_roll_back_all [OF X])
      show "A N" if "\<forall>k p. (k, p) \<in> set tr \<longrightarrow> R k (N p)" for N
        using that tr by (auto simp: A_def R_def rolled_back_def)
    qed (use tr in \<open>auto simp: R_def intro: restored_previous\<close>)
    then have "triple (changing X tr R {}) (catching is_handled (roll_back_all env component bs st) (leave_recovery e)) (\<lambda>_. ?Q) (disk_safe X A)"
      by (rule triple_catching [OF _ triple_leave_recovery]) (simp add: interrupted_def)
    then show ?thesis by (rule triple_pre) (auto simp: changing_def)
  qed (auto simp: changing_def)
qed

lemma triple_rollback_commit:
  fixes bs :: "(string \<times> backup) list"
  assumes n: "names_for env X tr" and ts: "named tr ts"
  defines "A \<equiv> rolled_back (te_sha env) bs tr"
  shows "triple (starting X) (rollback_commit env component bs st ts plan tid)
    (\<lambda>_ t. A (node_at t) \<and> disk_safe X A t \<and> pv_journal t = None) (disk_safe X A)"
proof -
  let ?P = "rolling env X tid tr" let ?K = "set (map fst tr)" let ?Q = "\<lambda>t. settled X A t \<and> pv_journal t = None"
  let ?R = "\<lambda>k n. case map_of bs k of None \<Rightarrow> False | Some b \<Rightarrow> previous_node (te_sha env) b n"
  let ?C = "\<lambda>t. \<exists>tr'. changing X tr' ?R {} t \<and> set tr' = set tr \<and> distinct (map fst tr')"
  have X: "txn_ok X" "tx_sha X = te_sha env" using n by (simp_all add: names_for_def)
  have S: "starting X t \<Longrightarrow> disk_safe X A t" for t by (rule starting_disk_safe [OF X(1)])
  have P: "?P K t \<Longrightarrow> disk_safe X A t" for K t by (rule rolling_disk_safe [OF n])
  have Q: "?Q t \<Longrightarrow> disk_safe X A t" for t by (simp add: settled_def)
  have dir: "triple (starting X) private_dir (\<lambda>_. starting X) (disk_safe X A)"
    by (rule triple_private_dir) (auto intro: S starting_stable)
  have draft: "triple (starting X) (remember (\<lambda>_. \<lparr>jn_version = ts_version st, jn_kind = Rollback_Kind, jn_id = tid, jn_phase = Prepared_Phase,
      jn_plan = plan, jn_before = st, jn_items = []\<rparr>)) (\<lambda>_. ?P {}) (disk_safe X A)"
    by (rule triple_remember) (auto simp: starting_def rolling_def rollback_good_def item_names_def)
  have entry: "triple (?P {}) (set_entry None) (\<lambda>_. ?P {}) (disk_safe X A)" by (rule triple_entry) (rule rolling_stable)
  have out: "triple (?P {}) write_journal (\<lambda>_. ?P {}) (disk_safe X A)"
    by (rule triple_write_invariant) (auto intro: P rolling_stable)
  have prepare: "triple (?P {}) (catching is_exception (rollback_prepare env tid component st ts) (undo_preparation env tid)) (\<lambda>_. ?P ?K) (disk_safe X A)"
    by (rule triple_catching [OF triple_rollback_prepare [OF n] triple_undo_rollback [OF n]]) (use ts P in \<open>auto simp: named_def\<close>)
  have phase: "triple (?P ?K) (set_phase Writing) (\<lambda>_. ?P ?K) (disk_safe X A)"
    unfolding set_phase_def by (rule triple_remember) (auto intro: rolling_stable)
  have begin_it: "triple (?P ?K) write_journal (\<lambda>_. ?C) (disk_safe X A)"
    unfolding write_journal_def
  proof (rule triple_bind [OF triple_private_dir], erule P, erule rolling_stable, rule triple_effect)
    fix t g :: setup_disk assume "?P ?K t" and g: "g = t\<lparr>ho_fates := tl (ho_fates t)\<rparr>"
    then have g: "?P ?K g" by (simp add: rolling_stable)
    have h: "?P ?K (g\<lparr>pv_journal := Some (me_journal g)\<rparr>)" by (rule rolling_stable(2) [OF g])
    show "disk_safe X A g \<and> disk_safe X A (g\<lparr>pv_journal := Some (me_journal g)\<rparr>) \<and> ?C (g\<lparr>pv_journal := Some (me_journal g)\<rparr>)"
      using P [OF g] P [OF h] rolling_changing [OF n h] by auto
  qed
  have go: "triple ?C (catching is_handled (roll_back_all env component bs st) (leave_recovery e)) (\<lambda>_. ?Q) (disk_safe X A)" for e
    unfolding A_def by (rule triple_rollback_install [OF n])
  have tidy: "triple ?Q (tidying (bindS (clean_old_backups env o1 o2) (\<lambda>_. forget_backups env tid))) (\<lambda>_. ?Q) (disk_safe X A)" for o1 o2
    by (rule triple_weaken [OF triple_tidying [OF triple_bind [OF triple_clean_old(1) [of ?Q] triple_clean_old(3) [of ?Q]]]])
      (auto intro: settled_stable(1) settled_files Q)
  have finish: "triple ?Q (returnS x) (\<lambda>_ t. A (node_at t) \<and> disk_safe X A t \<and> pv_journal t = None) (disk_safe X A)" for x :: rollback_result
    by (rule triple_return) (simp add: settled_def)
  show ?thesis
    unfolding rollback_commit_def
    by (rule triple_bind [OF dir triple_bind [OF draft triple_bind [OF entry triple_bind [OF out triple_bind [OF prepare
      triple_bind [OF phase triple_bind [OF begin_it triple_bind [OF go triple_bind [OF tidy finish]]]]]]]]])
qed

lemma triple_rollback:
  assumes st: "read_state env s = Inr st" "map_of (ts_previous st) component = Some bs"
    and n: "names_for env X (rollback_names catalog bs)" and s: "starting X s"
  defines "A \<equiv> rolled_back (te_sha env) bs (rollback_names catalog bs)"
  shows "triple (\<lambda>t. t = s) (rollback env catalog located plan_of component wanted confirm tid)
    (\<lambda>_ t. A (node_at t) \<and> disk_safe X A t \<and> pv_journal t = None) (disk_safe X A)"
proof -
  let ?tr = "rollback_names catalog bs"
  have X: "txn_ok X" using n by (simp add: names_for_def)
  have S: "starting X t \<Longrightarrow> disk_safe X A t" for t by (rule starting_disk_safe [OF X])
  have look: "triple (\<lambda>t. t = s) (rollback_preview env catalog located component) (\<lambda>ts t. t = s \<and> named ?tr ts) (disk_safe X A)"
    by (rule triple_weaken [OF triple_rollback_preview [OF st]]) (auto intro: S s simp: named_def)
  have state: "triple (\<lambda>t. t = s \<and> named ?tr ts) (getS (read_state env)) (\<lambda>st' t. starting X t \<and> named ?tr ts \<and> st' = st) (disk_safe X A)" for ts
    by (rule triple_get) (auto intro: S s simp: st)
  have approve: "triple (\<lambda>t. starting X t \<and> B) (liftS x) (\<lambda>_ t. starting X t \<and> B) (disk_safe X A)" for B and x :: "trouble + unit"
    by (rule triple_lift) (auto intro: S)
  have go: "triple (\<lambda>t. starting X t \<and> named ?tr ts \<and> st' = st)
      (rollback_commit env component (case map_of (ts_previous st') component of None \<Rightarrow> [] | Some bs \<Rightarrow> bs) st' ts plan tid)
      (\<lambda>_ t. A (node_at t) \<and> disk_safe X A t \<and> pv_journal t = None) (disk_safe X A)" for ts st' plan
  proof (rule triple_fact [where A = "named ?tr ts \<and> st' = st"])
    assume "named ?tr ts \<and> st' = st"
    with triple_rollback_commit [OF n, where ts = ts and bs = bs] st(2) show ?thesis by (auto simp: A_def intro: triple_pre)
  qed simp
  show ?thesis
    unfolding rollback_def Let_def by (rule triple_bind [OF look triple_bind [OF state triple_bind [OF approve go]]])
qed

text \<open>C13: After a rollback that may have broken anywhere, and after any number of recoveries that may have broken
  anywhere as well, once no journal is left either every target of the component has its previous version, content
  by digest, or every one looks as before the rollback.\<close>

theorem rollback_atomic:
  assumes "read_state env s = Inr st" "map_of (ts_previous st) component = Some bs"
    and "distinct (map fst bs)" "apart (map snd (rollback_names catalog bs))" "home_ok s" "pv_journal s = None"
    and "rollback env catalog located plan_of component wanted confirm tid s = (r, t)" "recoveries env t u" "pv_journal u = None"
  shows "rolled_back (te_sha env) bs (rollback_names catalog bs) (node_at u) \<or>
    (\<forall>(k, p)\<in>set (rollback_names catalog bs). same_look (node_at s p) (node_at u p))"
proof -
  let ?X = "rollback_txn env catalog bs s" let ?A = "rolled_back (te_sha env) bs (rollback_names catalog bs)"
  have n: "names_for env ?X (rollback_names catalog bs)"
    using assms(3-5) by (auto simp: names_for_def rollback_txn_def txn_ok_def home_ok_def apart_def rollback_names_def comp_def)
  have start: "starting ?X s" using assms(6) by (simp add: starting_def rollback_txn_def)
  note rule = triple_rollback [OF assms(1,2) n start, of located plan_of wanted confirm tid]
  have "disk_safe ?X ?A t"
    using triple_Inl [OF rule refl] triple_Inr [OF rule refl] assms(7) by (cases r) auto
  with recoveries_disk_safe [OF assms(8)] n have "disk_safe ?X ?A u" by (simp add: names_for_def)
  with assms(9) show ?thesis by (auto simp: disk_safe_def all_back_def rollback_txn_def)
qed

end
