(* ===== verification/Config_Apply.thy ===== *)
theory Config_Apply
  imports Config_Transaction
begin

text \<open>
  The preview of a change of public configuration (\<open>termcfg/preview.py\<close>) and the apply that it
  approves (\<open>apply\<close> of \<open>termcfg/transaction.py\<close>). The catalog, with its generated artifacts
  materialized, the location check of the Herdr configuration, the inspection of the environment and
  the digest of the snapshot are parameters.
\<close>

section \<open>The preview\<close>

text \<open>\<open>_old_starter_link\<close>: links of an earlier installer that may be replaced.\<close>

definition starter_files :: "(string \<times> string) list" where
  "starter_files = [(''zshrc'', ''zshrc.zsh''), (''tmux-conf'', ''tmux.conf''), (''tmux-fzf-window'', ''fzf-window.sh'')]"

definition old_starter_link :: "string \<Rightarrow> string \<Rightarrow> bool" where
  "old_starter_link k l \<longleftrightarrow>
     (case map_of starter_files k of
        None \<Rightarrow> False
      | Some f \<Rightarrow> has_word ''/starter/shell_config/'' l \<and> length f \<le> length l \<and> drop (length l - length f) l = f)"

text \<open>What the target is, with the digest of an admitted file, the reason to block it, and whether it is a custom \<open>.zshenv\<close>.\<close>

definition examine ::
  "setup_env \<Rightarrow> string list \<Rightarrow> target_record option \<Rightarrow> artifact \<Rightarrow> setup_disk \<Rightarrow> trouble + ident \<times> string option \<times> bool" where
  "examine env known r a s =
     bindE (inspect_target (ar_destination a) s) (\<lambda>b.
     case b of
       Absent \<Rightarrow> Inr (b, None, False)
     | Link_At st l \<Rightarrow> Inr (b, if old_starter_link (ar_id a) l then None else Some ''unclassified_existing_link'', False)
     | File_At st d \<Rightarrow>
         bindE (read_regular (ar_destination a) b s) (\<lambda>c.
         case admit_existing (te_sha env) (te_binding env) (ar_id a) c known (case r of None \<Rightarrow> None | Some x \<Rightarrow> ident_digest (tr_after x)) of
           Inr dg \<Rightarrow> Inr (File_At st (Some dg), None, ar_id a = ''zshenv'' \<and> artifact_bytes env a \<noteq> Inr c)
         | Inl (Refused n why) \<Rightarrow> Inr (b, Some why, False)
         | Inl (Broken x) \<Rightarrow> Inl (Broken x)))"

definition decide :: "target_record option \<Rightarrow> artifact \<Rightarrow> ident \<Rightarrow> string option \<Rightarrow> action \<times> string option" where
  "decide r a b blocked =
     (case blocked of
        Some why \<Rightarrow> (Blocked, Some why)
      | None \<Rightarrow>
          (case r of
             Some x \<Rightarrow>
               if b \<noteq> tr_after x then (Drifted, Some ''target_drift'')
               else if (case b of File_At st d \<Rightarrow> d = Some (ar_sha a) \<and> fs_mode st = ar_mode a | _ \<Rightarrow> False) then (Unchanged, None)
               else (Replace, None)
           | None \<Rightarrow> if b \<noteq> Absent then (Adopt_Required, Some ''unmanaged_target'') else (Create, None)))"

definition plan_target :: "setup_env \<Rightarrow> string list \<Rightarrow> tstate \<Rightarrow> artifact \<Rightarrow> setup_disk \<Rightarrow> trouble + planned" where
  "plan_target env known st a s =
     (let r = map_of (ts_targets st) (ar_id a) in
      bindE (examine env known r a s) (\<lambda>(b, blocked, custom).
      let (act, why) = decide r a b blocked in
      Inr \<lparr>pt_artifact = a, pt_before = b, pt_action = act, pt_reason = why, pt_custom = custom\<rparr>))"

record setup_request =
  sq_components :: "string list"
  sq_repo :: "string option"
  sq_plan :: "string option"
  sq_adopted :: "string list"
  sq_zshenv :: "string option"
  sq_confirm :: "(preview \<Rightarrow> string list \<times> string option) option"

record setup_world =
  sw_catalog :: "string list \<Rightarrow> string option \<Rightarrow> setup_disk \<Rightarrow> trouble + artifact list"
  sw_located :: "trouble + unit"
  sw_ready :: "string list \<Rightarrow> setup_disk \<Rightarrow> trouble + unit"
  sw_plan_id :: "string list \<Rightarrow> tstate \<Rightarrow> planned list \<Rightarrow> string"

definition build_preview :: "setup_env \<Rightarrow> setup_world \<Rightarrow> setup_request \<Rightarrow> setup_disk \<Rightarrow> trouble + preview" where
  "build_preview env w q s =
     bindE (no_recovery_pending s) (\<lambda>_.
     bindE (ensure (sq_repo q = None \<or> ''zsh'' \<in> set (sq_components q)) (Refused 2 ''entry_repo_requires_zsh'')) (\<lambda>_.
     bindE (if ''herdr'' \<in> set (sq_components q) then sw_located w else Inr ()) (\<lambda>_.
     bindE (sw_catalog w (sq_components q) (sq_repo q) s) (\<lambda>cat.
     bindE (read_state env s) (\<lambda>st.
     bindE (mapE (artifact_bytes env) cat) (\<lambda>known.
     bindE (mapE (\<lambda>a. plan_target env known st a s) cat) (\<lambda>ts.
     Inr \<lparr>pw_plan = sw_plan_id w (sq_components q) st ts, pw_targets = ts, pw_state = st\<rparr>)))))))"

section \<open>The apply\<close>

text \<open>The adoptions and the confirmation come from the arguments, or from the answer to the preview.\<close>

definition chosen :: "setup_request \<Rightarrow> preview \<Rightarrow> trouble + string list \<times> string option" where
  "chosen q pw =
     (case sq_confirm q of
        Some f \<Rightarrow> Inr (f pw)
      | None \<Rightarrow> if sq_plan q = None then Inl (Refused 2 ''plan_id_required'') else Inr (sq_adopted q, sq_zshenv q))"

definition apply_changes :: "setup_env \<Rightarrow> setup_world \<Rightarrow> setup_request \<Rightarrow> string \<Rightarrow> apply_result cfg" where
  "apply_changes env w q tid =
     bindS (getS no_recovery_pending) (\<lambda>_.
     bindS (getS (sw_ready w (sq_components q))) (\<lambda>_.
     bindS (getS (build_preview env w q)) (\<lambda>pw.
     bindS (ensureS (sq_plan q = None \<or> sq_plan q = Some (pw_plan pw)) (Refused 2 ''plan_id_mismatch'')) (\<lambda>_.
     bindS (liftS (chosen q pw)) (\<lambda>(adopted, zshenv).
     bindS (liftS (check_approvals pw adopted zshenv)) (\<lambda>_.
     bindS (getS (build_preview env w q)) (\<lambda>cur.
     bindS (ensureS (pw_plan cur = pw_plan pw) (Refused 4 ''snapshot_changed'')) (\<lambda>_.
     commit_apply env cur tid))))))))"

section \<open>What may be overwritten\<close>

lemma mapE_mem:
  assumes "mapE f xs = Inr ys" "x \<in> set xs"
  shows "\<exists>y\<in>set ys. f x = Inr y"
  using assms by (induction xs arbitrary: ys) (auto simp: bindE_eq_Inr)

lemma examine_absent:
  assumes "examine env known r a s = Inr (b, why, custom)"
  shows "b = Absent \<longleftrightarrow> inspect_target (ar_destination a) s = Inr Absent"
proof (cases "inspect_target (ar_destination a) s")
  case (Inr i)
  show ?thesis
  proof (cases i)
    case (File_At st d)
    let ?d = "case r of None \<Rightarrow> None | Some x \<Rightarrow> ident_digest (tr_after x)"
    from assms Inr File_At obtain c where "read_regular (ar_destination a) i s = Inr c"
      and c: "(case admit_existing (te_sha env) (te_binding env) (ar_id a) c known ?d of
        Inr dg \<Rightarrow> Inr (File_At st (Some dg), None, ar_id a = ''zshenv'' \<and> artifact_bytes env a \<noteq> Inr c)
      | Inl (Refused n why) \<Rightarrow> Inr (i, Some why, False) | Inl (Broken x) \<Rightarrow> Inl (Broken x)) = Inr (b, why, custom)"
      by (auto simp: examine_def bindE_eq_Inr)
    from c have "b \<noteq> Absent"
    proof (cases "admit_existing (te_sha env) (te_binding env) (ar_id a) c known ?d")
      case (Inl e)
      with c File_At show ?thesis by (cases e) auto
    qed (use c in auto)
    with Inr File_At show ?thesis by simp
  qed (use assms Inr in \<open>auto simp: examine_def\<close>)
qed (use assms in \<open>simp add: examine_def\<close>)

lemma plan_target_action:
  assumes "plan_target env known st a s = Inr t"
  shows "pt_artifact t = a" "map_of (ts_targets st) (ar_id a) = None \<Longrightarrow> pt_before t \<noteq> Absent \<Longrightarrow> pt_action t \<in> {Blocked, Adopt_Required}"
    "pt_before t = Absent \<longleftrightarrow> inspect_target (ar_destination a) s = Inr Absent"
proof -
  let ?r = "map_of (ts_targets st) (ar_id a)"
  from assms obtain b why custom where e: "examine env known ?r a s = Inr (b, why, custom)"
    and t: "t = \<lparr>pt_artifact = a, pt_before = b, pt_action = fst (decide ?r a b why), pt_reason = snd (decide ?r a b why), pt_custom = custom\<rparr>"
    by (auto simp: plan_target_def Let_def bindE_eq_Inr case_prod_beta)
  from t show "pt_artifact t = a" by simp
  from t examine_absent [OF e] show "pt_before t = Absent \<longleftrightarrow> inspect_target (ar_destination a) s = Inr Absent" by simp
  assume "?r = None" "pt_before t \<noteq> Absent"
  with t show "pt_action t \<in> {Blocked, Adopt_Required}" by (simp add: decide_def split: option.split)
qed

lemma approvals_fail:
  assumes "t \<in> set (pw_targets pw)" "pt_action t = Blocked \<or> pt_action t = Drifted \<or> pt_action t = Adopt_Required \<and> ar_id (pt_artifact t) \<notin> set adopted"
  shows "\<exists>e. check_approvals pw adopted z = Inl e"
proof (rule ccontr)
  assume "\<nexists>e. check_approvals pw adopted z = Inl e"
  then have "check_approvals pw adopted z = Inr ()" by (cases "check_approvals pw adopted z") auto
  with assms show False by (auto simp: check_approvals_def bindE_eq_Inr checkE_eq_Inr ensure_eq_Inr)
qed


end
