(* ===== verification/Setup_Sample.thy ===== *)
theory Setup_Sample
  imports Config_Sample Config_Rollback Config_Apply
begin

text \<open>
  Samples of a rollback that breaks off after it has put the file back, with the recovery that follows, and
  of an apply that meets a file of the user.
\<close>

section \<open>A rollback that breaks off\<close>

definition sample_catalog :: "string \<Rightarrow> (string \<times> string list) option" where
  "sample_catalog k = (if k = ''zshrc'' then Some (''zsh'', [''.zshrc'']) else None)"

definition managed_disk :: setup_disk where
  "managed_disk = applied_disk\<lparr>ho_fates := replicate 14 Works @ [Breaks_After Died]\<rparr>"

definition roll_sample :: "(trouble + rollback_result) \<times> setup_disk" where
  "roll_sample = rollback sample_env sample_catalog (Inr ()) (\<lambda>c st ts. ''back'') ''zsh'' (Some ''back'') None ''t2'' managed_disk"

definition again_disk :: setup_disk where
  "again_disk = snd (recover sample_env (restarted [] sample_journal None (snd roll_sample)))"

definition sample_version :: tstate where
  "sample_version = (case pv_state managed_disk of None \<Rightarrow> blank_state sample_env | Some st \<Rightarrow> st)"

definition sample_backup :: backup where
  "sample_backup = \<lparr>bk_before = pt_before sample_target, bk_path = Some ''/p/backups/t1/zshrc.backup'',
     bk_digest = Some (te_sha sample_env ''old''), bk_managed = False, bk_prior_source = None, bk_prior_generated = None\<rparr>"

lemma managed_state: "read_state sample_env managed_disk = Inr sample_version"
  by code_simp

lemma managed_previous: "map_of (ts_previous sample_version) ''zsh'' = Some [(''zshrc'', sample_backup)]"
  by code_simp

lemma managed_names: "rollback_names sample_catalog [(''zshrc'', sample_backup)] = [(''zshrc'', [''.zshrc''])]"
  by (simp add: rollback_names_def sample_catalog_def)

lemma managed_nodes: "ho_nodes managed_disk = [([''.zshrc''], Regular \<lparr>fs_uid = 7, fs_dev = 1, fs_ino = 5, fs_mode = 384, fs_mtime = 5, fs_size = 3\<rparr> ''new'' 1)] \<and>
    ho_clock managed_disk > 5 \<and> pv_journal managed_disk = None"
  by code_simp

lemma managed_home_ok: "home_ok managed_disk"
proof -
  have nodes: "node_at managed_disk p = (if p = [''.zshrc''] then Some (Regular \<lparr>fs_uid = 7, fs_dev = 1, fs_ino = 5, fs_mode = 384, fs_mtime = 5, fs_size = 3\<rparr> ''new'' 1) else None)" for p
    using managed_nodes by (simp add: node_at_def)
  have "tree (node_at managed_disk)" by (auto simp: tree_def nodes)
  moreover have "n < ho_clock managed_disk" if "node_ino (node_at managed_disk p) = Some n" for p n
    using that managed_nodes by (auto simp: nodes split: if_splits)
  ultimately show ?thesis by (simp add: home_ok_def)
qed

lemma roll_sample_recovered: "recoveries sample_env (snd roll_sample) again_disk"
proof -
  have "recover sample_env (restarted [] sample_journal None (snd roll_sample)) =
      (fst (recover sample_env (restarted [] sample_journal None (snd roll_sample))), again_disk)"
    by (simp add: again_disk_def prod_eq_iff)
  from recoveries.more [OF recoveries.none this] show ?thesis .
qed

lemma roll_sample_ends: "pv_journal again_disk = None" "pv_journal (snd roll_sample) \<noteq> None"
  by code_simp+

theorem rollback_atomic_witness:
  "(rolled_back (te_sha sample_env) [(''zshrc'', sample_backup)] [(''zshrc'', [''.zshrc''])] (node_at again_disk) \<or>
     same_look (node_at managed_disk [''.zshrc'']) (node_at again_disk [''.zshrc''])) \<and>
   pv_journal (snd roll_sample) \<noteq> None"
proof -
  have run: "rollback sample_env sample_catalog (Inr ()) (\<lambda>c st ts. ''back'') ''zsh'' (Some ''back'') None ''t2'' managed_disk =
      (fst roll_sample, snd roll_sample)" by (simp add: roll_sample_def)
  have d: "distinct (map fst [(''zshrc'', sample_backup)])" by simp
  have a: "apart (map snd (rollback_names sample_catalog [(''zshrc'', sample_backup)]))" by (simp add: managed_names apart_def)
  have j: "pv_journal managed_disk = None" using managed_nodes by simp
  from rollback_atomic [OF managed_state managed_previous d a managed_home_ok j run roll_sample_recovered roll_sample_ends(1)]
  show ?thesis using roll_sample_ends(2) by (simp add: managed_names)
qed

section \<open>An apply that meets a file of the user\<close>

definition sample_world :: setup_world where
  "sample_world = \<lparr>sw_catalog = (\<lambda>c r s. Inr [pt_artifact sample_target]), sw_located = Inr (), sw_ready = (\<lambda>c s. Inr ()),
     sw_plan_id = (\<lambda>c st ts. ''plan'')\<rparr>"

definition sample_request :: setup_request where
  "sample_request = \<lparr>sq_components = [''zsh''], sq_repo = None, sq_plan = Some ''plan'', sq_adopted = [''tmux-conf''],
     sq_zshenv = None, sq_confirm = None\<rparr>"


end
