(* ===== verification/Native_Fields.thy ===== *)
theory Native_Fields
  imports Json_Codec Private_Store
begin

text \<open>
  Managed fields of native configuration files: selectors and what they select, get, put and the
  removal of parents that the manager itself created (\<open>agentcfg/deployment.py\<close>), and the guards that
  let a credential field hold declared references only (\<open>agentcfg/native_projection.py\<close>). A document
  is a canonical JSON value, so comparing values is comparing the texts that the code compares.
\<close>

section \<open>Names of credentials\<close>

definition ends_with :: "string \<Rightarrow> string \<Rightarrow> bool" where
  "ends_with x s \<longleftrightarrow> length x \<le> length s \<and> drop (length s - length x) s = x"

definition starts_with :: "string \<Rightarrow> string \<Rightarrow> bool" where
  "starts_with x s \<longleftrightarrow> take (length x) s = x"

definition credential_names :: "string list" where
  "credential_names = [''API_KEY'', ''APIKEY'', ''ACCESS_TOKEN'', ''REFRESH_TOKEN'', ''TOKEN'', ''PASSWORD'', ''PASSWD'',
     ''SECRET'', ''CLIENT_SECRET'', ''AUTHORIZATION'', ''CREDENTIAL'', ''CREDENTIAL_REF'']"

text \<open>\<open>str.upper\<close>, as far as it can lead to one of these names: the sharp s becomes two letters.\<close>

definition upper_char :: "char \<Rightarrow> string" where
  "upper_char c =
     (if 97 \<le> code c \<and> code c \<le> 122 then [char_of (code c - 32)]
      else if code c = 223 then ''SS''
      else if 224 \<le> code c \<and> code c \<le> 254 \<and> code c \<noteq> 247 then [char_of (code c - 32)]
      else [c])"

definition credential_name :: "string \<Rightarrow> bool" where
  "credential_name s \<longleftrightarrow>
     (let n = map (\<lambda>c. if c = CHR ''-'' then CHR ''_'' else c) (concat (map upper_char s)) in
      n \<in> set credential_names \<or> list_ex (\<lambda>x. ends_with (CHR ''_'' # x) n) credential_names)"

text \<open>\<open>safe_projection\<close>: no credential and nothing executable in what is managed.\<close>

fun safe_value :: "json \<Rightarrow> bool" where
  "safe_value (JObj kvs) \<longleftrightarrow>
     list_all (\<lambda>(k, v). k \<noteq> ''__jsExpr'' \<and> \<not> (credential_name k \<and> \<not> ends_with ''_ref'' k) \<and> safe_value v) kvs"
| "safe_value (JArr xs) \<longleftrightarrow> list_all safe_value xs"
| "safe_value _ \<longleftrightarrow> True"

section \<open>Selectors\<close>

text \<open>\<open>s.replace(a + b, c)\<close> for a pattern of two characters.\<close>

fun replace_two :: "char \<Rightarrow> char \<Rightarrow> char \<Rightarrow> string \<Rightarrow> string" where
  "replace_two a b c (x # y # s) =
     (if x = a \<and> y = b then c # replace_two a b c s else x # replace_two a b c (y # s))"
| "replace_two a b c s = s"

definition unescape :: "string \<Rightarrow> string" where
  "unescape s = replace_two CHR ''~'' CHR ''0'' CHR ''~'' (replace_two CHR ''~'' CHR ''1'' CHR ''/'' s)"

definition escape :: "string \<Rightarrow> string" where
  "escape s = concat (map (\<lambda>c. if c = CHR ''~'' then ''~0'' else if c = CHR ''/'' then ''~1'' else [c]) s)"

definition pointer :: "string \<Rightarrow> store_error + string list" where
  "pointer s = (case s of [] \<Rightarrow> Inl Store_Conflict
     | c # r \<Rightarrow> if c = CHR ''/'' then Inr (map unescape (split_on CHR ''/'' r)) else Inl Store_Conflict)"

text \<open>What a target shows: nothing, the value of a field, or a whole file with its mode.\<close>

datatype 'c shown = Gone | Field json | Whole 'c nat

fun get_path :: "string list \<Rightarrow> json \<Rightarrow> store_error + json option" where
  "get_path [] v = Inr (Some v)"
| "get_path (k # ks) (JObj kvs) = (case map_of kvs k of None \<Rightarrow> Inr None | Some v \<Rightarrow> get_path ks v)"
| "get_path (k # ks) _ = Inl Store_Conflict"

definition get_field :: "json \<Rightarrow> string \<Rightarrow> store_error + 'c shown" where
  "get_field doc sel =
     bindE (pointer sel) (\<lambda>ps.
     bindE (get_path ps doc) (\<lambda>r.
     case r of None \<Rightarrow> Inr Gone | Some v \<Rightarrow> bindE (ensure (safe_value v) Store_Conflict) (\<lambda>_. Inr (Field v))))"

fun put_path :: "string list \<Rightarrow> json option \<Rightarrow> json \<Rightarrow> store_error + json" where
  "put_path [k] v (JObj kvs) = Inr (JObj (case v of None \<Rightarrow> ddel k kvs | Some x \<Rightarrow> dput k x kvs))"
| "put_path (k # l # ks) v (JObj kvs) =
     (case map_of kvs k of
        None \<Rightarrow> if v = None then Inr (JObj kvs) else bindE (put_path (l # ks) v (JObj [])) (\<lambda>c. Inr (JObj (dput k c kvs)))
      | Some c \<Rightarrow> bindE (put_path (l # ks) v c) (\<lambda>c. Inr (JObj (dput k c kvs))))"
| "put_path _ _ _ = Inl Store_Conflict"

text \<open>Only fields have a selector: a whole file never gets here.\<close>

fun field_value :: "'c shown \<Rightarrow> json option" where
  "field_value (Field v) = Some v"
| "field_value _ = None"

definition put_field :: "json \<Rightarrow> string \<Rightarrow> 'c shown \<Rightarrow> store_error + json" where
  "put_field doc sel v = bindE (pointer sel) (\<lambda>ps. put_path ps (field_value v) doc)"

fun missing_from :: "string \<Rightarrow> string list \<Rightarrow> json \<Rightarrow> store_error + string list" where
  "missing_from here (k # l # ks) (JObj kvs) =
     (let p = here @ CHR ''/'' # escape k in
      case map_of kvs k of
        None \<Rightarrow> bindE (missing_from p (l # ks) (JObj [])) (\<lambda>r. Inr (p # r))
      | Some c \<Rightarrow> missing_from p (l # ks) c)"
| "missing_from here ks (JObj kvs) = Inr []"
| "missing_from here ks _ = Inl Store_Conflict"

definition missing_parents :: "json \<Rightarrow> string \<Rightarrow> store_error + string list" where
  "missing_parents doc sel = bindE (pointer sel) (\<lambda>ps. missing_from '''' ps doc)"

fun prune_path :: "string list \<Rightarrow> json \<Rightarrow> json" where
  "prune_path [k] (JObj kvs) = (if map_of kvs k = Some (JObj []) then JObj (ddel k kvs) else JObj kvs)"
| "prune_path (k # l # ks) (JObj kvs) =
     (case map_of kvs k of Some (JObj c) \<Rightarrow> JObj (dput k (prune_path (l # ks) (JObj c)) kvs) | _ \<Rightarrow> JObj kvs)"
| "prune_path _ d = d"

text \<open>\<open>sorted(\<dots>, reverse=True)\<close> keeps the order of selectors of the same depth.\<close>

definition prune_created_parents :: "json \<Rightarrow> string list \<Rightarrow> store_error + json" where
  "prune_created_parents doc sels =
     bindE (mapE pointer sels) (\<lambda>pss. Inr (fold prune_path (sort_key (\<lambda>ps. - int (length ps)) pss) doc))"

section \<open>Guards of credential fields\<close>

datatype guard_kind = Environment_Reference | Braced_Reference | Generated_Name

record guard =
  gd_kind :: guard_kind
  gd_tokens :: "string list"

definition word_char :: "char \<Rightarrow> bool" where
  "word_char c \<longleftrightarrow> alnum_char c \<or> c = CHR ''_''"

definition upper_hex :: "char \<Rightarrow> bool" where
  "upper_hex c \<longleftrightarrow> digit_char c \<or> 65 \<le> code c \<and> code c \<le> 70"

fun environment_reference :: "string \<Rightarrow> bool" where
  "environment_reference (d # c # s) \<longleftrightarrow> d = CHR ''$'' \<and> (alpha_char c \<or> c = CHR ''_'') \<and> list_all word_char s"
| "environment_reference _ \<longleftrightarrow> False"

text \<open>A text that is a prefix, a run of upper-case hexadecimal digits and a suffix.\<close>

definition framed :: "string \<Rightarrow> nat \<Rightarrow> string \<Rightarrow> string \<Rightarrow> bool" where
  "framed a n b s \<longleftrightarrow>
     length s = length a + n + length b \<and> take (length a) s = a \<and> drop (length a + n) s = b \<and>
     list_all upper_hex (take n (drop (length a) s))"

definition braced_reference :: "string \<Rightarrow> bool" where
  "braced_reference s \<longleftrightarrow> framed ''${AGENTCFG_PI_MCP_'' 16 ''}'' s"

definition is_generated_name :: "string \<Rightarrow> bool" where
  "is_generated_name s \<longleftrightarrow> framed ''AGENTCFG_OMP_PROVIDER_'' 24 ''_KEY'' s \<or> framed ''AGENTCFG_OMP_MCP_'' 24 ''_ENV'' s \<or>
     framed ''AGENTCFG_OMP_MCP_'' 24 ''_HEADER'' s"

definition reference_kind :: "string list \<Rightarrow> guard_kind option" where
  "reference_kind ts =
     (if ts = [] \<or> \<not> distinct ts then None
      else if list_all environment_reference ts then Some Environment_Reference
      else if list_all braced_reference ts then Some Braced_Reference
      else if list_all is_generated_name ts then Some Generated_Name
      else None)"

definition reference_guard :: "string list \<Rightarrow> store_error + guard" where
  "reference_guard ts = (case reference_kind ts of None \<Rightarrow> Inl Store_Conflict | Some k \<Rightarrow> Inr \<lparr>gd_kind = k, gd_tokens = ts\<rparr>)"

definition guard_ok :: "guard option \<Rightarrow> bool" where
  "guard_ok g \<longleftrightarrow> (case g of None \<Rightarrow> True | Some x \<Rightarrow> reference_kind (gd_tokens x) = Some (gd_kind x))"

definition validate_projection :: "'c shown \<Rightarrow> guard option \<Rightarrow> bool" where
  "validate_projection v g \<longleftrightarrow> guard_ok g \<and>
     (case g of None \<Rightarrow> True
      | Some x \<Rightarrow> (case v of Gone \<Rightarrow> True | Field (JStr s) \<Rightarrow> s \<in> set (gd_tokens x) | _ \<Rightarrow> False))"

text \<open>\<open>list(dict.fromkeys(xs))\<close>\<close>

definition firsts :: "'a list \<Rightarrow> 'a list" where
  "firsts xs = rev (remdups (rev xs))"

definition tokens_of :: "guard option \<Rightarrow> string list" where
  "tokens_of g = (case g of None \<Rightarrow> [] | Some x \<Rightarrow> gd_tokens x)"

definition transition_guard :: "guard option \<Rightarrow> guard option \<Rightarrow> store_error + guard option" where
  "transition_guard a b =
     bindE (ensure (guard_ok a \<and> guard_ok b \<and>
       (case (a, b) of (Some x, Some y) \<Rightarrow> gd_kind x = gd_kind y | _ \<Rightarrow> True)) Store_Conflict) (\<lambda>_.
     let ts = firsts (tokens_of a @ tokens_of b) in
     if ts = [] then Inr None else bindE (reference_guard ts) (\<lambda>g. Inr (Some g)))"

section \<open>Managed items\<close>

datatype ownership = Own_File | Own_Fields | Initialize | Own_Runtime | Own_Package

text \<open>\<open>di_value\<close> is the baseline of a saved item and the desired value of a wanted one.\<close>

record 'c ditem =
  di_path :: string
  di_selector :: "string option"
  di_codec :: string
  di_ownership :: ownership
  di_guard :: "guard option"
  di_parents :: "string list"
  di_value :: "'c shown"

record 'c change =
  ch_item :: "'c ditem"
  ch_before :: "'c shown"
  ch_after :: "'c shown"
  ch_created_file :: bool
  ch_parents :: "string list"
  ch_before_guard :: "guard option"

definition selector_text :: "'c ditem \<Rightarrow> string" where
  "selector_text it = (case di_selector it of None \<Rightarrow> '''' | Some s \<Rightarrow> s)"

definition fielded :: "'c ditem \<Rightarrow> bool" where
  "fielded it \<longleftrightarrow> selector_text it \<noteq> ''''"

definition item_key :: "'c ditem \<Rightarrow> string" where
  "item_key it = ''['' @ dump_str (di_path it) @ '', '' @
     (case di_selector it of None \<Rightarrow> ''null'' | Some s \<Rightarrow> dump_str s) @ '']''"

text \<open>\<open>/mcpServers/[^/]+/env/[^/]+\<close>\<close>

definition server_env :: "string \<Rightarrow> bool" where
  "server_env s \<longleftrightarrow> (case split_on CHR ''/'' s of [a, b, c, d, e] \<Rightarrow> a = '''' \<and> b = ''mcpServers'' \<and> c \<noteq> '''' \<and> d = ''env'' \<and> e \<noteq> '''' | _ \<Rightarrow> False)"

definition is_pi_mcp_credential :: "'c ditem \<Rightarrow> bool" where
  "is_pi_mcp_credential it \<longleftrightarrow> di_path it = ''pi-home/mcp.json'' \<and>
     (case di_selector it of None \<Rightarrow> False
      | Some s \<Rightarrow> server_env s \<or> ends_with ''/headers/Authorization'' s \<or> ends_with ''/oauth/clientSecret'' s)"

definition is_pi_credential :: "'c ditem \<Rightarrow> bool" where
  "is_pi_credential it \<longleftrightarrow> is_pi_mcp_credential it \<or> di_path it = ''pi-home/models.json'' \<and>
     (case di_selector it of None \<Rightarrow> False | Some s \<Rightarrow> starts_with ''/providers/'' s \<and> ends_with ''/apiKey'' s)"

definition is_omp_credential :: "'c ditem \<Rightarrow> bool" where
  "is_omp_credential it \<longleftrightarrow>
     (case di_selector it of None \<Rightarrow> False
      | Some s \<Rightarrow> ends_with ''/models.yml'' (di_path it) \<and> ends_with ''/apiKey'' s \<or>
          di_path it \<noteq> ''pi-home/mcp.json'' \<and> ends_with ''/mcp.json'' (di_path it) \<and>
          (server_env s \<or> ends_with ''/headers/Authorization'' s))"

definition parents_fit :: "string \<Rightarrow> string list \<Rightarrow> bool" where
  "parents_fit sel ps \<longleftrightarrow> list_all (\<lambda>p. starts_with ''/'' p \<and> starts_with (p @ ''/'') sel) ps \<and> distinct ps"

definition validate_item_guard :: "'c ditem \<Rightarrow> 'c shown \<Rightarrow> bool" where
  "validate_item_guard it v \<longleftrightarrow>
     parents_fit (selector_text it) (di_parents it) \<and> guard_ok (di_guard it) \<and>
     (case di_guard it of
        None \<Rightarrow> (is_pi_credential it \<or> is_omp_credential it) \<longrightarrow> v = Gone
      | Some g \<Rightarrow>
          (gd_kind g = Generated_Name \<longrightarrow> is_omp_credential it \<or> is_pi_credential it) \<and>
          (is_omp_credential it \<longrightarrow> gd_kind g = Generated_Name) \<and>
          (is_pi_mcp_credential it \<longrightarrow> gd_kind g = Braced_Reference) \<and>
          (is_pi_credential it \<and> \<not> is_pi_mcp_credential it \<longrightarrow> gd_kind g = Environment_Reference) \<and>
          (gd_kind g = Braced_Reference \<longrightarrow> is_pi_mcp_credential it))"

definition validate_change :: "'c change \<Rightarrow> bool" where
  "validate_change c \<longleftrightarrow>
     validate_item_guard (ch_item c) (ch_after c) \<and>
     \<not> ((is_pi_credential (ch_item c) \<or> is_omp_credential (ch_item c)) \<and> ch_before c \<noteq> Gone \<and> ch_before_guard c = None) \<and>
     validate_projection (ch_before c) (ch_before_guard c) \<and> validate_projection (ch_after c) (di_guard (ch_item c))"

definition reverse_change :: "'c change \<Rightarrow> 'c change" where
  "reverse_change c = c\<lparr>ch_item := (ch_item c)\<lparr>di_guard := ch_before_guard c\<rparr>, ch_before := ch_after c, ch_after := ch_before c,
     ch_before_guard := di_guard (ch_item c)\<rparr>"

section \<open>Reading back what was put\<close>

definition prefix_of :: "'a list \<Rightarrow> 'a list \<Rightarrow> bool" where
  "prefix_of xs ys \<longleftrightarrow> take (length xs) ys = xs"

definition apart_paths :: "'a list \<Rightarrow> 'a list \<Rightarrow> bool" where
  "apart_paths xs ys \<longleftrightarrow> \<not> prefix_of xs ys \<and> \<not> prefix_of ys xs"

lemma prefix_of_simps [simp]:
  "prefix_of [] ys" "prefix_of (x # xs) (y # ys) \<longleftrightarrow> x = y \<and> prefix_of xs ys" "\<not> prefix_of (x # xs) []"
  by (auto simp: prefix_of_def)

lemma apart_simps [simp]:
  "\<not> apart_paths [] ys" "\<not> apart_paths xs []"
  "apart_paths (x # xs) (y # ys) \<longleftrightarrow> x \<noteq> y \<or> apart_paths xs ys"
  by (auto simp: apart_paths_def)

lemma prefix_of_append [simp]: "prefix_of xs (xs @ ys)"
  by (simp add: prefix_of_def)

lemma prefix_ofE: "prefix_of xs ys \<Longrightarrow> \<exists>zs. ys = xs @ zs"
  by (metis append_take_drop_id prefix_of_def)

fun is_object :: "json \<Rightarrow> bool" where
  "is_object (JObj kvs) \<longleftrightarrow> True"
| "is_object _ \<longleftrightarrow> False"

text \<open>A leaf is what is no object: the objects on the way are containers only.\<close>

definition leaf :: "string list \<Rightarrow> json \<Rightarrow> json option" where
  "leaf ps d = (case get_path ps d of Inr (Some v) \<Rightarrow> if is_object v then None else Some v | _ \<Rightarrow> None)"

lemma leaf_simps [simp]:
  "leaf [] v = (if is_object v then None else Some v)"
  "leaf (k # ks) (JObj kvs) = (case map_of kvs k of None \<Rightarrow> None | Some v \<Rightarrow> leaf ks v)"
  by (simp_all add: leaf_def split: option.split)

lemma put_object: "put_path ps v d = Inr e \<Longrightarrow> is_object d \<and> is_object e"
  by (induction ps v d arbitrary: e rule: put_path.induct) (auto simp: result_simps split: option.splits if_splits)

lemma get_put: "put_path ps v d = Inr e \<Longrightarrow> get_path ps e = Inr v"
proof (induction ps v d arbitrary: e rule: put_path.induct)
  case (1 k v kvs)
  then show ?case by (cases v) auto
qed (auto simp: result_simps split: option.splits if_splits)

lemma get_put_other:
  "put_path ps v d = Inr e \<Longrightarrow> apart_paths ps qs \<Longrightarrow> get_path qs d = Inr r \<Longrightarrow> get_path qs e = Inr r"
proof (induction ps v d arbitrary: e qs r rule: put_path.induct)
  case (1 k v kvs)
  from 1(2) obtain q qs' where "qs = q # qs'" "q \<noteq> k" by (cases qs) auto
  with 1 show ?case by (auto split: option.splits)
next
  case (2 k l ks v kvs)
  from 2(4) obtain q qs' where q: "qs = q # qs'" by (cases qs) auto
  show ?case
  proof (cases "q = k")
    case False
    with 2 q show ?thesis by (auto simp: result_simps split: option.splits if_splits)
  next
    case True
    with q 2(4) have ap: "apart_paths (l # ks) qs'" by simp
    then obtain x xs where x: "qs' = x # xs" by (cases qs') auto
    show ?thesis
    proof (cases "map_of kvs k")
      case None
      with True q 2(5) have r: "r = None" by simp
      show ?thesis
      proof (cases "v = None")
        case True
        with None 2 show ?thesis by simp
      next
        case False
        with None 2(3) obtain c where c: "put_path (l # ks) v (JObj []) = Inr c" "e = JObj (dput k c kvs)"
          by (auto simp: result_simps)
        have "get_path qs' (JObj []) = Inr None" by (simp add: x)
        from 2(1) [OF None False c(1) ap this] c(2) q True r show ?thesis by simp
      qed
    next
      case (Some b)
      with 2(3) obtain c where c: "put_path (l # ks) v b = Inr c" "e = JObj (dput k c kvs)"
        by (auto simp: result_simps)
      have "get_path qs' b = Inr r" using 2(5) q True Some by simp
      from 2(2) [OF Some c(1) ap this] c(2) q True show ?thesis by simp
    qed
  qed
qed auto

lemma leaf_put: "put_path ps v d = Inr e \<Longrightarrow> \<not> prefix_of ps qs \<Longrightarrow> leaf qs e = leaf qs d"
proof (induction ps v d arbitrary: e qs rule: put_path.induct)
  case (1 k v kvs)
  then show ?case by (cases qs) (auto split: option.splits)
next
  case (2 k l ks v kvs)
  show ?case
  proof (cases qs)
    case Nil
    with put_object [OF 2(3)] show ?thesis by simp
  next
    case (Cons q qs')
    show ?thesis
    proof (cases "q = k")
      case False
      with 2 Cons show ?thesis by (auto simp: result_simps split: option.splits if_splits)
    next
      case True
      with Cons 2(4) have np: "\<not> prefix_of (l # ks) qs'" by simp
      show ?thesis
      proof (cases "map_of kvs k")
        case None
        show ?thesis
        proof (cases "v = None")
          case True
          with None 2 show ?thesis by simp
        next
          case False
          with None 2(3) obtain c where c: "put_path (l # ks) v (JObj []) = Inr c" "e = JObj (dput k c kvs)"
            by (auto simp: result_simps)
          have "leaf qs' (JObj []) = None" by (cases qs') simp_all
          with 2(1) [OF None False c(1) np] c(2) Cons True None show ?thesis by simp
        qed
      next
        case (Some b)
        with 2(3) obtain c where c: "put_path (l # ks) v b = Inr c" "e = JObj (dput k c kvs)"
          by (auto simp: result_simps)
        from 2(2) [OF Some c(1) np] c(2) Cons True Some show ?thesis by simp
      qed
    qed
  qed
qed auto

lemma prune_object: "is_object d \<Longrightarrow> is_object (prune_path ps d)"
  by (induction ps d rule: prune_path.induct) (auto split: option.split json.split)

lemma get_prune: "\<not> prefix_of qs ps \<Longrightarrow> get_path qs d = Inr r \<Longrightarrow> get_path qs (prune_path ps d) = Inr r"
proof (induction ps d arbitrary: qs rule: prune_path.induct)
  case (1 k kvs)
  then obtain q qs' where q: "qs = q # qs'" by (cases qs) auto
  show ?case
  proof (cases "q = k \<and> map_of kvs k = Some (JObj [])")
    case True
    with q 1(1) have "qs' \<noteq> []" by auto
    with True q 1(2) show ?thesis by (cases qs') auto
  qed (use 1 q in \<open>auto split: option.splits\<close>)
next
  case (2 k l ks kvs)
  then obtain q qs' where q: "qs = q # qs'" by (cases qs) auto
  with 2 show ?case by (auto split: option.splits json.splits)
qed auto

lemma leaf_prune: "leaf qs (prune_path ps d) = leaf qs d"
proof (induction ps d arbitrary: qs rule: prune_path.induct)
  case (1 k kvs)
  then show ?case
  proof (cases qs)
    case (Cons q qs')
    then show ?thesis by (cases qs') (auto split: option.split)
  qed simp
next
  case (2 k l ks kvs)
  then show ?case by (cases qs) (auto split: option.split json.split)
qed auto

lemma canonical_put: "put_path ps v d = Inr e \<Longrightarrow> canonical d \<Longrightarrow> (\<And>x. v = Some x \<Longrightarrow> canonical x) \<Longrightarrow> canonical e"
proof (induction ps v d arbitrary: e rule: put_path.induct)
  case (1 k v kvs)
  have del: "list_all (\<lambda>(k, v). canonical v) (ddel k kvs)" using 1(2) by (auto simp: ddel_def list_all_iff)
  have put: "list_all (\<lambda>(k, v). canonical v) (dput k x kvs)" if "canonical x" for x
    using 1(2) that set_dput_subset [of k x kvs] by (auto simp: list_all_iff)
  from 1 del put show ?case by (cases v) auto
next
  case (2 k l ks v kvs)
  have put: "canonical (JObj (dput k x kvs))" if "canonical x" for x
    using 2(4) that set_dput_subset [of k x kvs] by (auto simp: list_all_iff)
  show ?case
  proof (cases "map_of kvs k")
    case None
    show ?thesis
    proof (cases "v = None")
      case True
      with None 2 show ?thesis by simp
    next
      case False
      with None 2(3) obtain c where c: "put_path (l # ks) v (JObj []) = Inr c" "e = JObj (dput k c kvs)"
        by (auto simp: result_simps)
      have "canonical c" by (rule 2(1) [OF None False c(1)]) (use 2(5) in simp_all)
      then show ?thesis using put c(2) by simp
    qed
  next
    case (Some b)
    with 2(3) obtain c where c: "put_path (l # ks) v b = Inr c" "e = JObj (dput k c kvs)"
      by (auto simp: result_simps)
    have "canonical b" using 2(4) map_of_mem [OF Some] by (auto simp: list_all_iff)
    from 2(2) [OF Some c(1) this 2(5)] show ?thesis using put c(2) by simp
  qed
qed auto

lemma canonical_prune: "canonical d \<Longrightarrow> canonical (prune_path ps d)"
proof (induction ps d rule: prune_path.induct)
  case (1 k kvs)
  with dict_ok_ddel [of kvs k] show ?case by (auto simp: ddel_def list_all_iff)
next
  case (2 k l ks kvs)
  show ?case
  proof (cases "\<exists>c. map_of kvs k = Some (JObj c)")
    case True
    then obtain c where c: "map_of kvs k = Some (JObj c)" by blast
    have "list_all (\<lambda>(k, v). canonical v) kvs" using 2(2) by simp
    with map_of_mem [OF c] have "canonical (JObj c)" unfolding list_all_iff by (metis case_prodD)
    from 2(1) [OF c refl this] 2(2) c set_dput_subset [of k "prune_path (l # ks) (JObj c)" kvs] show ?thesis
      by (auto simp: list_all_iff)
  qed (use 2 in \<open>auto split: option.split json.split\<close>)
qed auto

end
