(* ===== verification/Deployment.thy ===== *)
theory Deployment
  imports Native_Fields
begin

text \<open>
  The deployment of rendered configuration (\<open>agentcfg/deployment.py\<close>): every managed item is merged
  three ways between what was deployed last, what is wanted and what is there; the changes are written
  file by file behind a pending record, one previous version is kept, and a broken transaction is
  taken back by the next operation.
  \<^item> Target and state are two trees of the private store. A file of the state tree is what its bytes
    decode to; a native file has a body of any type, read and written by a registered codec.
  \<^item> A failure in a transaction is an exception, after which the handler runs, or the death of the
    process (\<open>died\<close>), after which nothing runs. The instance lock is held by the caller.
\<close>

section \<open>Records\<close>

record deploy_launch =
  la_shared :: "string list option"
  la_rest :: json

record 'c manifest =
  mf_generation :: string
  mf_binding :: json
  mf_launch :: deploy_launch
  mf_items :: "(string \<times> 'c ditem) list"

record deploy_owner =
  ow_binding :: json
  ow_shared :: "string list"

text \<open>The outer option of \<open>sv_owner\<close> is the presence of the key.\<close>

record 'c saved =
  sv_current :: "'c manifest option"
  sv_previous :: "('c manifest option \<times> 'c change list) option"
  sv_owner :: "deploy_owner option option"

record 'c deploy_pending =
  pn_after :: "'c saved"
  pn_changes :: "'c change list"
  pn_prepare :: bool

datatype 'c state_body = Saved_Body "'c saved" | Pending_Body "'c deploy_pending" | Garbled

record 'c deploy =
  dp_target :: "'c disk"
  dp_state :: "'c state_body disk"

type_synonym ('c, 'a) deploying = "('c deploy, store_error, 'a) io"

text \<open>A codec: what a body decodes to, and the body of a document with its length.\<close>

record 'c deploy_env =
  de_codecs :: "string \<Rightarrow> (('c \<Rightarrow> json option) \<times> (json \<Rightarrow> 'c \<times> nat)) option"
  de_json :: "'c \<Rightarrow> json option"
  de_length :: "'c \<Rightarrow> nat"
  de_size :: "'c state_body \<Rightarrow> nat"
  de_target :: handle
  de_state :: handle

definition on_target :: "('c, 'a) dio \<Rightarrow> ('c, 'a) deploying" where
  "on_target m s = (case m (dp_target s) of (r, d) \<Rightarrow> (r, s\<lparr>dp_target := d\<rparr>))"

definition on_state :: "('c state_body, 'a) dio \<Rightarrow> ('c, 'a) deploying" where
  "on_state m s = (case m (dp_state s) of (r, d) \<Rightarrow> (r, s\<lparr>dp_state := d\<rparr>))"

definition deployment_file :: "string list" where
  "deployment_file = [''deployment.json'']"

definition pending_file :: "string list" where
  "pending_file = [''pending.json'']"

section \<open>Native files\<close>

definition parts :: "string \<Rightarrow> string list" where
  "parts p = split_on CHR ''/'' p"

definition parse_native :: "'c deploy_env \<Rightarrow> 'c \<Rightarrow> string \<Rightarrow> store_error + json" where
  "parse_native E b codec =
     (case de_codecs E codec of
        None \<Rightarrow> Inl Store_Conflict
      | Some (dec, enc) \<Rightarrow>
          (case dec b of
             Some JNull \<Rightarrow> Inr (JObj [])
           | Some (JObj kvs) \<Rightarrow> Inr (JObj kvs)
           | _ \<Rightarrow> Inl Store_Conflict))"

definition encode_native :: "'c deploy_env \<Rightarrow> json \<Rightarrow> string \<Rightarrow> store_error + 'c \<times> nat" where
  "encode_native E doc codec =
     (case de_codecs E codec of None \<Rightarrow> Inl Store_Conflict | Some (dec, enc) \<Rightarrow> Inr (enc doc))"

definition target_read :: "'c deploy_env \<Rightarrow> string \<Rightarrow> ('c, 'c read_result) deploying" where
  "target_read E p = on_target (tree_read (de_target E) (parts p) None)"

definition document_at :: "'c deploy_env \<Rightarrow> string \<Rightarrow> string \<Rightarrow> ('c, json) deploying" where
  "document_at E p codec =
     bindS (target_read E p) (\<lambda>raw.
     case raw of None \<Rightarrow> returnS (JObj []) | Some (b, m, i) \<Rightarrow> liftS (parse_native E b codec))"

definition projection :: "'c deploy_env \<Rightarrow> 'c ditem \<Rightarrow> ('c, 'c shown) deploying" where
  "projection E it =
     bindS (ensureS (validate_item_guard it (di_value it)) Store_Conflict) (\<lambda>_.
     bindS (target_read E (di_path it)) (\<lambda>raw.
     case raw of
       None \<Rightarrow> returnS Gone
     | Some (b, m, i) \<Rightarrow>
         if fielded it
         then bindS (liftS (bindE (parse_native E b (di_codec it)) (\<lambda>doc. get_field doc (selector_text it)))) (\<lambda>v.
              bindS (ensureS (validate_projection v (di_guard it)) Store_Conflict) (\<lambda>_. returnS v))
         else returnS (Whole b m)))"

section \<open>What is wanted\<close>

record 'c native_artifact =
  na_path :: string
  na_selector :: "string option"
  na_codec :: string
  na_ownership :: ownership
  na_tokens :: "string list"
  na_content :: 'c
  na_mode :: nat

record 'c deploy_candidate =
  cn_generation :: string
  cn_artifacts :: "'c native_artifact list"

definition desired_item :: "'c deploy_env \<Rightarrow> 'c native_artifact \<Rightarrow> store_error + 'c ditem" where
  "desired_item E a =
     (let it = \<lparr>di_path = na_path a, di_selector = na_selector a, di_codec = na_codec a, di_ownership = na_ownership a,
            di_guard = None, di_parents = [], di_value = Gone\<rparr> in
      bindE (if fielded it
         then bindE (ensure (de_codecs E (na_codec a) \<noteq> None) Store_Conflict) (\<lambda>_.
              case de_json E (na_content a) of
                None \<Rightarrow> Inl IO_Failure
              | Some v \<Rightarrow> bindE (ensure (safe_value v) Store_Conflict) (\<lambda>_. Inr (Field v)))
         else Inr (Whole (na_content a) (na_mode a))) (\<lambda>v.
      bindE (if na_tokens a = [] then Inr None
         else bindE (reference_guard (na_tokens a)) (\<lambda>g.
              bindE (ensure (validate_projection v (Some g)) Store_Conflict) (\<lambda>_. Inr (Some g)))) (\<lambda>g.
      let it = it\<lparr>di_guard := g, di_value := v\<rparr> in
      bindE (ensure (validate_item_guard it v) Store_Conflict) (\<lambda>_. Inr it))))"

text \<open>Two items of one file where one selects the other or a part of it.\<close>

definition overlap :: "'c ditem \<Rightarrow> 'c ditem \<Rightarrow> store_error + bool" where
  "overlap a b =
     (if di_path a \<noteq> di_path b then Inr False
      else if \<not> fielded a \<or> \<not> fielded b then Inr True
      else bindE (pointer (selector_text a)) (\<lambda>x. bindE (pointer (selector_text b)) (\<lambda>y. Inr (prefix_of y x \<or> prefix_of x y))))"

fun no_overlap :: "'c ditem list \<Rightarrow> store_error + unit" where
  "no_overlap [] = Inr ()"
| "no_overlap (a # items) =
     bindE (checkE (\<lambda>b. bindE (overlap a b) (\<lambda>x. ensure (\<not> x) Store_Conflict)) items) (\<lambda>_. no_overlap items)"

definition desired_items :: "'c deploy_env \<Rightarrow> 'c deploy_candidate \<Rightarrow> store_error + (string \<times> 'c ditem) list" where
  "desired_items E cn =
     bindE (mapE (desired_item E) (cn_artifacts cn)) (\<lambda>items.
     let d = fold (\<lambda>it. dput (item_key it) it) items [] in
     bindE (no_overlap (map snd d)) (\<lambda>_. Inr d))"

section \<open>The saved state\<close>

definition validate_manifest :: "'c manifest option \<Rightarrow> bool" where
  "validate_manifest m \<longleftrightarrow>
     (case m of None \<Rightarrow> True
      | Some m \<Rightarrow> list_all (\<lambda>(k, it). validate_item_guard it (di_value it) \<and> validate_projection (di_value it) (di_guard it)) (mf_items m))"

definition validate_saved_state :: "'c saved \<Rightarrow> bool" where
  "validate_saved_state st \<longleftrightarrow> validate_manifest (sv_current st) \<and>
     (case sv_previous st of None \<Rightarrow> True | Some (m, cs) \<Rightarrow> validate_manifest m \<and> list_all validate_change cs)"

definition launch_shared :: "deploy_launch \<Rightarrow> string list" where
  "launch_shared l = (case la_shared l of None \<Rightarrow> [] | Some fs \<Rightarrow> fs)"

definition normalize_state :: "'c saved \<Rightarrow> 'c saved" where
  "normalize_state st =
     (case sv_owner st of
        Some ow \<Rightarrow> st
      | None \<Rightarrow> st\<lparr>sv_owner := Some (map_option (\<lambda>m. \<lparr>ow_binding = mf_binding m, ow_shared = launch_shared (mf_launch m)\<rparr>) (sv_current st))\<rparr>)"

definition blank_saved :: "'c saved" where
  "blank_saved = \<lparr>sv_current = None, sv_previous = None, sv_owner = Some None\<rparr>"

definition state_owner :: "'c saved \<Rightarrow> deploy_owner option" where
  "state_owner st = (case sv_owner st of None \<Rightarrow> None | Some ow \<Rightarrow> ow)"

definition read_deployment :: "'c deploy_env \<Rightarrow> ('c, 'c saved) deploying" where
  "read_deployment E =
     bindS (on_state (tree_read (de_state E) deployment_file None)) (\<lambda>raw.
     case raw of
       None \<Rightarrow> returnS blank_saved
     | Some (b, m, i) \<Rightarrow>
         bindS (ensureS (m = 384) Store_Conflict) (\<lambda>_.
         case b of
           Saved_Body st \<Rightarrow> bindS (ensureS (validate_saved_state (normalize_state st)) Store_Conflict) (\<lambda>_. returnS (normalize_state st))
         | _ \<Rightarrow> raiseS Store_Conflict))"

section \<open>The plan\<close>

record 'c planned_deploy =
  pl_current :: "'c manifest"
  pl_changes :: "'c change list"
  pl_drift :: "string list"
  pl_conflicts :: "string list"

text \<open>What one key adds to the plan.\<close>

datatype 'c verdict =
    Keep_Item "'c ditem"
  | Change_Item "'c ditem" "'c change"
  | Drift_Item "'c ditem"
  | Nothing_Left
  | Conflicting

definition optional_guard :: "'c ditem option \<Rightarrow> guard option" where
  "optional_guard b = (case b of None \<Rightarrow> None | Some x \<Rightarrow> di_guard x)"

definition known_path :: "'c saved \<Rightarrow> 'c ditem \<Rightarrow> bool" where
  "known_path st spec \<longleftrightarrow> fielded spec \<and>
     ((case sv_current st of None \<Rightarrow> False | Some m \<Rightarrow> list_ex (\<lambda>(k, i). di_path i = di_path spec \<and> fielded i) (mf_items m)) \<or>
      (case state_owner st of None \<Rightarrow> False | Some ow \<Rightarrow> di_path spec \<in> set (ow_shared ow)))"

text \<open>The three-way comparison of what is there, what is wanted and what was deployed last.\<close>

definition compare_item ::
  "'c deploy_env \<Rightarrow> 'c ditem option \<Rightarrow> bool \<Rightarrow> 'c ditem \<Rightarrow> 'c shown \<Rightarrow> ('c, 'c verdict) deploying" where
  "compare_item E before wanted spec current =
     (let baseline = (case before of None \<Rightarrow> Gone | Some b \<Rightarrow> di_value b);
          desired = (if wanted then di_value spec else Gone) in
      if current = desired then
        returnS (if wanted then Keep_Item (spec\<lparr>di_value := desired\<rparr>) else Nothing_Left)
      else if current = baseline then
        bindS (target_read E (di_path spec)) (\<lambda>raw.
        bindS (if fielded spec
          then bindS (case raw of None \<Rightarrow> returnS (JObj []) | Some (b, m, i) \<Rightarrow> liftS (parse_native E b (di_codec spec))) (\<lambda>doc.
               liftS (missing_parents doc (selector_text spec)))
          else returnS []) (\<lambda>missing.
        let it = spec\<lparr>di_value := desired\<rparr> in
        returnS (Change_Item it \<lparr>ch_item = it, ch_before = current, ch_after = desired, ch_created_file = (raw = None),
          ch_parents = firsts (di_parents spec @ missing), ch_before_guard = optional_guard before\<rparr>)))
      else if desired = baseline then returnS (Drift_Item (spec\<lparr>di_value := baseline\<rparr>))
      else returnS Conflicting)"

definition plan_key ::
  "'c deploy_env \<Rightarrow> 'c saved \<Rightarrow> 'c ditem option \<Rightarrow> 'c ditem option \<Rightarrow> ('c, 'c verdict) deploying" where
  "plan_key E st before wanted =
     (case (case wanted of Some w \<Rightarrow> Some w | None \<Rightarrow> before) of
        None \<Rightarrow> raiseS IO_Failure
      | Some spec0 \<Rightarrow>
          bindS (if fielded spec0
            then (case before of
                    Some b \<Rightarrow> returnS (spec0\<lparr>di_parents := di_parents b\<rparr>)
                  | None \<Rightarrow> bindS (document_at E (di_path spec0) (di_codec spec0)) (\<lambda>doc.
                      bindS (liftS (missing_parents doc (selector_text spec0))) (\<lambda>ps. returnS (spec0\<lparr>di_parents := ps\<rparr>))))
            else returnS spec0) (\<lambda>spec.
          bindS (ensureS (\<not> (before \<noteq> None \<and> wanted \<noteq> None \<and> (optional_guard before = None) \<noteq> (di_guard spec = None))) Store_Conflict) (\<lambda>_.
          bindS (projection E (case before of Some b \<Rightarrow> b | None \<Rightarrow> spec)) (\<lambda>current.
          (case before of
            Some b \<Rightarrow>
              if di_codec b \<noteq> di_codec spec \<or> di_ownership b \<noteq> di_ownership spec \<or> di_selector b \<noteq> di_selector spec \<or> di_path b \<noteq> di_path spec
              then returnS Conflicting
              else if di_ownership spec = Initialize then returnS (Keep_Item b)
              else compare_item E before (wanted \<noteq> None) spec current
          | None \<Rightarrow>
              bindS (target_read E (di_path spec)) (\<lambda>raw.
              case raw of
                 Some (c, m, i) \<Rightarrow>
                   if known_path st spec \<and> current \<noteq> Gone \<and> di_ownership spec = Initialize
                   then returnS (Keep_Item (spec\<lparr>di_value := Gone\<rparr>))
                   else if snd (snd i) \<noteq> 0 \<and> (\<not> known_path st spec \<or> current \<noteq> Gone)
                   then returnS Conflicting
                   else compare_item E None True spec current
               | None \<Rightarrow> compare_item E None True spec current))))))"

fun plan_keys ::
  "'c deploy_env \<Rightarrow> 'c saved \<Rightarrow> (string \<times> 'c ditem) list \<Rightarrow> (string \<times> 'c ditem) list \<Rightarrow> string list \<Rightarrow>
     ('c, (string \<times> 'c verdict) list) deploying" where
  "plan_keys E st previous wanted [] = returnS []"
| "plan_keys E st previous wanted (k # ks) =
     bindS (plan_key E st (map_of previous k) (map_of wanted k)) (\<lambda>v.
     bindS (plan_keys E st previous wanted ks) (\<lambda>vs. returnS ((k, v) # vs)))"

fun verdict_item :: "'c verdict \<Rightarrow> 'c ditem option" where
  "verdict_item (Keep_Item it) = Some it"
| "verdict_item (Change_Item it c) = Some it"
| "verdict_item (Drift_Item it) = Some it"
| "verdict_item _ = None"

fun verdict_change :: "'c verdict \<Rightarrow> 'c change option" where
  "verdict_change (Change_Item it c) = Some c"
| "verdict_change _ = None"

definition previous_items :: "'c saved \<Rightarrow> (string \<times> 'c ditem) list" where
  "previous_items st = (case sv_current st of None \<Rightarrow> [] | Some m \<Rightarrow> mf_items m)"

definition collect :: "('a \<Rightarrow> 'b option) \<Rightarrow> 'a list \<Rightarrow> 'b list" where
  "collect f xs = map (\<lambda>x. the (f x)) (filter (\<lambda>x. f x \<noteq> None) xs)"

definition deploy_plan :: "'c deploy_env \<Rightarrow> 'c saved \<Rightarrow> 'c deploy_candidate \<Rightarrow> json \<Rightarrow> deploy_launch \<Rightarrow> ('c, 'c planned_deploy) deploying" where
  "deploy_plan E st cn binding la =
     bindS (ensureS (validate_saved_state st) Store_Conflict) (\<lambda>_.
     bindS (ensureS ((case state_owner st of None \<Rightarrow> True | Some ow \<Rightarrow> ow_binding ow = binding) \<and>
       (case sv_current st of None \<Rightarrow> True | Some m \<Rightarrow> mf_binding m = binding)) Store_Conflict) (\<lambda>_.
     bindS (liftS (desired_items E cn)) (\<lambda>wanted.
     let previous = previous_items st in
     bindS (plan_keys E st previous wanted (sort (remdups (map fst previous @ map fst wanted)))) (\<lambda>vs.
     returnS \<lparr>pl_current = \<lparr>mf_generation = cn_generation cn, mf_binding = binding, mf_launch = la,
           mf_items = collect (\<lambda>(k, v). map_option (Pair k) (verdict_item v)) vs\<rparr>,
         pl_changes = collect (\<lambda>(k, v). verdict_change v) vs,
         pl_drift = map fst (filter (\<lambda>(k, v). case v of Drift_Item it \<Rightarrow> True | _ \<Rightarrow> False) vs),
         pl_conflicts = map fst (filter (\<lambda>(k, v). v = Conflicting) vs)\<rparr>))))"

section \<open>Writing changes\<close>

text \<open>The document, the body and the mode of one file while its changes are applied, in order.\<close>

record 'c draft =
  dr_document :: json
  dr_changed :: bool
  dr_content :: "('c \<times> nat) option"
  dr_mode :: nat

definition draft_change :: "'c deploy_env \<Rightarrow> 'c change \<Rightarrow> 'c draft \<Rightarrow> ('c, 'c draft) deploying" where
  "draft_change E c w =
     (let it = ch_item c in
      bindS (if fielded it then liftS (get_field (dr_document w) (selector_text it)) else projection E it) (\<lambda>current.
      bindS (liftS (transition_guard (ch_before_guard c) (di_guard it))) (\<lambda>g.
      bindS (ensureS (validate_projection current g) Store_Conflict) (\<lambda>_.
      if current = ch_after c then returnS w
      else
        bindS (ensureS (current = ch_before c) Store_Conflict) (\<lambda>_.
        if fielded it then
          bindS (liftS (put_field (dr_document w) (selector_text it) (ch_after c))) (\<lambda>doc.
          bindS (if ch_after c = Gone then liftS (prune_created_parents doc (ch_parents c)) else returnS doc) (\<lambda>doc.
          returnS (w\<lparr>dr_document := doc, dr_changed := True\<rparr>)))
        else
          returnS (case ch_after c of
              Whole b m \<Rightarrow> w\<lparr>dr_changed := True, dr_content := Some (b, de_length E b), dr_mode := m\<rparr>
            | _ \<Rightarrow> w\<lparr>dr_changed := True\<rparr>))))))"

fun draft_changes :: "'c deploy_env \<Rightarrow> 'c change list \<Rightarrow> 'c draft \<Rightarrow> ('c, 'c draft) deploying" where
  "draft_changes E [] w = returnS w"
| "draft_changes E (c # cs) w = bindS (draft_change E c w) (draft_changes E cs)"

definition write_group :: "'c deploy_env \<Rightarrow> string \<times> 'c change list \<Rightarrow> ('c, unit) deploying" where
  "write_group E g =
     (let p = fst g; cs = snd g; first = ch_item (hd cs); latest = ch_item (last cs) in
      bindS (target_read E p) (\<lambda>raw.
      bindS (case raw of
          Some (b, m, i) \<Rightarrow> if fielded first then liftS (parse_native E b (di_codec first)) else returnS (JObj [])
        | None \<Rightarrow> returnS (JObj [])) (\<lambda>doc.
      bindS (draft_changes E cs \<lparr>dr_document = doc, dr_changed = False, dr_content = None, dr_mode = 384\<rparr>) (\<lambda>w.
      if \<not> dr_changed w then returnS ()
      else
        bindS (if fielded latest
          then (if dr_document w = JObj [] \<and> list_ex ch_created_file cs then returnS None
                else liftS (bindE (encode_native E (dr_document w) (di_codec latest)) (\<lambda>b. Inr (Some b))))
          else returnS (dr_content w)) (\<lambda>content.
        on_target (tree_replace (\<lambda>d. d) (de_target E) (parts p)
          (map_option (\<lambda>(b, n). (b, n, if fielded latest then 384 else dr_mode w)) content) (seen raw)))))))"

text \<open>Grouped by file, in the order in which the files come first.\<close>

definition by_path :: "'c change list \<Rightarrow> (string \<times> 'c change list) list" where
  "by_path cs = map (\<lambda>p. (p, filter (\<lambda>c. di_path (ch_item c) = p) cs)) (firsts (map (\<lambda>c. di_path (ch_item c)) cs))"

fun write_groups :: "'c deploy_env \<Rightarrow> (string \<times> 'c change list) list \<Rightarrow> ('c, unit) deploying" where
  "write_groups E [] = returnS ()"
| "write_groups E (g # gs) = bindS (write_group E g) (\<lambda>_. write_groups E gs)"

definition write_changes :: "'c deploy_env \<Rightarrow> bool \<Rightarrow> 'c change list \<Rightarrow> ('c, unit) deploying" where
  "write_changes E back cs =
     bindS (ensureS (list_all validate_change cs) Store_Conflict) (\<lambda>_.
     write_groups E (by_path (if back then map reverse_change cs else cs)))"

section \<open>Transactions\<close>

text \<open>\<open>validate_reference_targets\<close>: every credential field that any of the versions manages is looked at before anything is written.\<close>

fun put_reference :: "string \<Rightarrow> 'c ditem \<Rightarrow> (string \<times> 'c ditem) list \<Rightarrow> (string \<times> 'c ditem) list" where
  "put_reference k it [] = [(k, it)]"
| "put_reference k it ((l, x) # d) = (if k = l then (l, it) # d else (l, x) # put_reference k it d)"

definition add_reference :: "guard option \<Rightarrow> 'c ditem \<Rightarrow> (string \<times> 'c ditem) list \<Rightarrow> store_error + (string \<times> 'c ditem) list" where
  "add_reference g it d =
     (if is_omp_credential it \<or> is_pi_credential it
      then bindE (transition_guard (optional_guard (map_of d (item_key it))) g) (\<lambda>g.
           Inr (put_reference (item_key it) (it\<lparr>di_guard := g\<rparr>) d))
      else Inr d)"

fun foldE :: "('a \<Rightarrow> 'b \<Rightarrow> 'e + 'b) \<Rightarrow> 'a list \<Rightarrow> 'b \<Rightarrow> 'e + 'b" where
  "foldE f [] b = Inr b"
| "foldE f (x # xs) b = bindE (f x b) (foldE f xs)"

definition credential_items :: "'c saved list \<Rightarrow> 'c change list \<Rightarrow> store_error + (string \<times> 'c ditem) list" where
  "credential_items sts cs =
     bindE (foldE (\<lambda>it. add_reference (di_guard it) it) (concat (map (\<lambda>st. map snd (previous_items st)) sts)) []) (\<lambda>d.
     foldE (\<lambda>c d. if is_omp_credential (ch_item c) \<or> is_pi_credential (ch_item c)
       then bindE (transition_guard (ch_before_guard c) (di_guard (ch_item c))) (\<lambda>g. add_reference g (ch_item c) d)
       else Inr d) cs d)"

fun each_item :: "('a \<Rightarrow> ('s, 'e, unit) io) \<Rightarrow> 'a list \<Rightarrow> ('s, 'e, unit) io" where
  "each_item f [] = returnS ()"
| "each_item f (x # xs) = bindS (f x) (\<lambda>_. each_item f xs)"

definition validate_reference_targets :: "'c deploy_env \<Rightarrow> 'c saved list \<Rightarrow> 'c change list \<Rightarrow> ('c, unit) deploying" where
  "validate_reference_targets E sts cs =
     bindS (liftS (credential_items sts cs)) (\<lambda>d.
     each_item (\<lambda>it. bindS (projection E it) (\<lambda>v. ensureS (validate_item_guard it v) Store_Conflict)) (map snd d))"

text \<open>\<open>prepare\<close> readies the resources of a launch; \<open>None\<close> where the caller has nothing to prepare.\<close>

type_synonym 'c preparation = "(deploy_launch \<Rightarrow> ('c, unit) deploying) option"

definition prepare_current :: "'c preparation \<Rightarrow> 'c saved \<Rightarrow> ('c, unit) deploying" where
  "prepare_current prep st =
     (case (prep, sv_current st) of (Some f, Some m) \<Rightarrow> f (mf_launch m) | _ \<Rightarrow> returnS ())"

definition as_conflict :: "('c, 'a) deploying \<Rightarrow> ('c, 'a) deploying" where
  "as_conflict m = mapErrorS (\<lambda>e. Store_Conflict) m"

definition recover_deployment :: "'c deploy_env \<Rightarrow> 'c preparation \<Rightarrow> ('c, bool) deploying" where
  "recover_deployment E prep =
     bindS (on_state (tree_read (de_state E) pending_file None)) (\<lambda>raw.
     case raw of
       None \<Rightarrow> returnS False
     | Some (b, m, i) \<Rightarrow>
         bindS (as_conflict (case b of
             Pending_Body j \<Rightarrow>
               bindS (ensureS (validate_saved_state (pn_after j) \<and> list_all validate_change (pn_changes j)) Store_Conflict) (\<lambda>_.
               bindS (read_deployment E) (\<lambda>st. returnS (j, st = normalize_state (pn_after j))))
           | _ \<Rightarrow> raiseS Store_Conflict)) (\<lambda>(j, committed).
         bindS (read_deployment E) (\<lambda>st.
         bindS (validate_reference_targets E [st, pn_after j] (pn_changes j)) (\<lambda>_.
         bindS (ensureS (\<not> (pn_prepare j \<and> prep = None)) Store_Conflict) (\<lambda>_.
         bindS (if committed then returnS () else write_changes E True (pn_changes j)) (\<lambda>_.
         bindS (if pn_prepare j then bindS (read_deployment E) (prepare_current prep) else returnS ()) (\<lambda>_.
         bindS (on_state (tree_replace (\<lambda>d. d) (de_state E) pending_file None (Some i))) (\<lambda>_.
         returnS True))))))))"

text \<open>\<open>died\<close>: a failure is the death of the process, and the handler does not run.\<close>

definition or_recover :: "bool \<Rightarrow> ('c, unit) deploying \<Rightarrow> ('c, bool) deploying \<Rightarrow> ('c, unit) deploying" where
  "or_recover died m h s =
     (case m s of
        (Inr u, t) \<Rightarrow> (Inr u, t)
      | (Inl e, t) \<Rightarrow> if died then (Inl e, t) else bindS h (\<lambda>_. raiseS e) t)"

definition transact_deployment :: "'c deploy_env \<Rightarrow> bool \<Rightarrow> 'c preparation \<Rightarrow> 'c saved \<Rightarrow> 'c saved \<Rightarrow> 'c change list \<Rightarrow> ('c, unit) deploying" where
  "transact_deployment E died prep old new cs =
     bindS (ensureS (validate_saved_state old \<and> validate_saved_state new \<and> list_all validate_change cs) Store_Conflict) (\<lambda>_.
     let j = Pending_Body \<lparr>pn_after = new, pn_changes = cs, pn_prepare = (prep \<noteq> None)\<rparr> in
     bindS (on_state (write_state (\<lambda>d. d) (de_state E) pending_file (j, de_size E j))) (\<lambda>_.
     bindS (or_recover died
       (bindS (prepare_current prep new) (\<lambda>_.
        bindS (write_changes E False cs) (\<lambda>_.
        on_state (write_state (\<lambda>d. d) (de_state E) deployment_file (Saved_Body new, de_size E (Saved_Body new))))))
       (recover_deployment E prep)) (\<lambda>_.
     bindS (recover_deployment E prep) (\<lambda>_. returnS ()))))"

section \<open>Operations\<close>

record 'c deploy_request =
  rq_candidate :: "'c deploy_candidate"
  rq_binding :: json
  rq_launch :: deploy_launch
  rq_expected :: "'c planned_deploy option"
  rq_guard :: "('c saved \<Rightarrow> 'c deploy_pending option \<Rightarrow> store_error + unit) option"
  rq_prepare :: "'c preparation"

definition guard_saved_state :: "'c deploy_env \<Rightarrow> ('c saved \<Rightarrow> 'c deploy_pending option \<Rightarrow> store_error + unit) option \<Rightarrow> ('c, unit) deploying" where
  "guard_saved_state E guard =
     (case guard of
        None \<Rightarrow> returnS ()
      | Some f \<Rightarrow>
          bindS (read_deployment E) (\<lambda>st.
          bindS (on_state (tree_read (de_state E) pending_file None)) (\<lambda>raw.
          case raw of
            None \<Rightarrow> liftS (f st None)
          | Some (Pending_Body j, m, i) \<Rightarrow> liftS (f st (Some j))
          | _ \<Rightarrow> raiseS Store_Conflict)))"

definition new_owner :: "'c saved \<Rightarrow> json \<Rightarrow> deploy_launch \<Rightarrow> 'c manifest \<Rightarrow> deploy_owner" where
  "new_owner old binding la m =
     (let ow = (case state_owner old of None \<Rightarrow> \<lparr>ow_binding = binding, ow_shared = launch_shared la\<rparr> | Some ow \<Rightarrow> ow);
          shared = sort (remdups (map (\<lambda>(k, it). di_path it) (filter (\<lambda>(k, it). fielded it) (mf_items m)))) in
      ow\<lparr>ow_shared := firsts (ow_shared ow @ shared)\<rparr>)"

definition deploy_apply :: "'c deploy_env \<Rightarrow> bool \<Rightarrow> 'c deploy_request \<Rightarrow> ('c, 'c planned_deploy) deploying" where
  "deploy_apply E died q =
     bindS (guard_saved_state E (rq_guard q)) (\<lambda>_.
     bindS (recover_deployment E (rq_prepare q)) (\<lambda>_.
     bindS (read_deployment E) (\<lambda>old.
     bindS (deploy_plan E old (rq_candidate q) (rq_binding q) (rq_launch q)) (\<lambda>pl.
     bindS (ensureS (case rq_expected q of None \<Rightarrow> True | Some x \<Rightarrow> pl = x) Store_Conflict) (\<lambda>_.
     bindS (ensureS (pl_conflicts pl = []) Store_Conflict) (\<lambda>_.
     let ow = new_owner old (rq_binding q) (rq_launch q) (pl_current pl) in
     if sv_current old = Some (pl_current pl) \<and> pl_changes pl = [] \<and> state_owner old = Some ow
     then bindS (if rq_prepare q = None then returnS () else transact_deployment E died (rq_prepare q) old old []) (\<lambda>_. returnS pl)
     else
       let turned = pl_changes pl \<noteq> [] \<or> (case sv_current old of None \<Rightarrow> True | Some m \<Rightarrow> mf_launch m \<noteq> rq_launch q);
           previous = (if turned then Some (sv_current old, pl_changes pl) else sv_previous old);
           new = \<lparr>sv_current = Some (pl_current pl), sv_previous = previous, sv_owner = Some (Some ow)\<rparr> in
       bindS (transact_deployment E died (rq_prepare q) old new (pl_changes pl)) (\<lambda>_. returnS pl)))))))"

definition deploy_rollback :: "'c deploy_env \<Rightarrow> bool \<Rightarrow> 'c preparation \<Rightarrow> json \<Rightarrow> ('c, nat) deploying" where
  "deploy_rollback E died prep binding =
     bindS (read_deployment E) (\<lambda>st.
     bindS (validate_reference_targets E [st] []) (\<lambda>_.
     bindS (recover_deployment E prep) (\<lambda>_.
     bindS (read_deployment E) (\<lambda>old.
     bindS (ensureS (case sv_current old of None \<Rightarrow> False | Some m \<Rightarrow> mf_binding m = binding) Store_Conflict) (\<lambda>_.
     bindS (validate_reference_targets E [old] []) (\<lambda>_.
     case sv_previous old of
       None \<Rightarrow> raiseS Store_Conflict
     | Some (m, backup) \<Rightarrow>
         let cs = map reverse_change backup in
         bindS (each_item (\<lambda>c.
           bindS (liftS (transition_guard (ch_before_guard c) (di_guard (ch_item c)))) (\<lambda>g.
           bindS (projection E ((ch_item c)\<lparr>di_guard := g\<rparr>)) (\<lambda>v.
           ensureS (v = ch_before c \<or> v = ch_after c) Store_Conflict))) cs) (\<lambda>_.
         bindS (transact_deployment E died prep old \<lparr>sv_current = m, sv_previous = None, sv_owner = sv_owner old\<rparr> cs) (\<lambda>_.
         returnS (length cs)))))))))"

end
