(* ===== verification/Deploy_Files.thy ===== *)
theory Deploy_Files
  imports Deployment
begin

text \<open>
  What the writing of changes does to native files: each file either stays as it is or shows what
  every change of it wants, every other field of it keeps its value, and no other file is touched.
\<close>

section \<open>Replacing a file\<close>

text \<open>Every file of the tree can be reached with the handle.\<close>

definition reachable :: "handle \<Rightarrow> 'c disk \<Rightarrow> bool" where
  "reachable h d \<longleftrightarrow> (\<forall>p f. lookup_file p d = Some f \<longrightarrow> (\<exists>fd. tree_parent h False p d = (Inr fd, d)))"

definition holds_data :: "('c \<times> nat \<times> nat) option \<Rightarrow> 'c stored option \<Rightarrow> bool" where
  "holds_data v f \<longleftrightarrow>
     (case v of None \<Rightarrow> f = None | Some (b, n, m) \<Rightarrow> (case f of None \<Rightarrow> False | Some x \<Rightarrow> body x = b \<and> fmode x = m))"

lemma read_nothing:
  assumes "reachable h d" "tree_read h p m d = (Inr None, e)"
  shows "lookup_file p d = None"
proof (rule ccontr)
  assume "lookup_file p d \<noteq> None"
  with assms(1) obtain fd where "tree_parent h False p d = (Inr fd, d)" by (auto simp: reachable_def)
  with tree_read_None [OF assms(2) this] \<open>lookup_file p d \<noteq> None\<close> show False by simp
qed

lemma parent_faults: "tree_parent h False p d = (Inr fd, d) \<Longrightarrow> tree_parent h False p (d\<lparr>faults := q\<rparr>) = (Inr fd, d\<lparr>faults := q\<rparr>)"
  by (erule parent_grow) simp_all

lemma reachable_faults [simp]: "reachable h (d\<lparr>faults := q\<rparr>) \<longleftrightarrow> reachable h d"
proof -
  have "tree_parent h False p d = (Inr fd, d)" if "tree_parent h False p (d\<lparr>faults := q\<rparr>) = (Inr fd, d\<lparr>faults := q\<rparr>)" for p fd
    using parent_grow [OF that, of d] by simp
  then show ?thesis unfolding reachable_def using parent_faults [of h _ d _ q] by (metis lookup_faults)
qed

lemma reachable_grown:
  assumes "reachable h d" "top e = top d" "user e = user d" "map_le (map_of (dirs d)) (map_of (dirs e))"
    and "\<And>p f. lookup_file p e = Some f \<Longrightarrow> lookup_file p d = None \<Longrightarrow> \<exists>fd. tree_parent h False p e = (Inr fd, e)"
  shows "reachable h e"
  unfolding reachable_def
proof (intro allI impI)
  fix p f assume f: "lookup_file p e = Some f"
  show "\<exists>fd. tree_parent h False p e = (Inr fd, e)"
  proof (cases "lookup_file p d")
    case None
    with f assms(5) show ?thesis by blast
  next
    case (Some g)
    with assms(1) obtain fd where "tree_parent h False p d = (Inr fd, d)" by (auto simp: reachable_def)
    from parent_grow [OF this assms(2-4)] show ?thesis ..
  qed
qed

lemma replace_writes:
  assumes r: "tree_replace (\<lambda>d. d) h p (Some (b, n, m)) ex d = (r, e)" and h: "reachable h d"
  shows "reachable h e" "q \<noteq> p \<Longrightarrow> lookup_file q e = lookup_file q d"
    "lookup_file p e = lookup_file p d \<or> holds_data (Some (b, n, m)) (lookup_file p e)"
    "r = Inr () \<Longrightarrow> holds_data (Some (b, n, m)) (lookup_file p e)"
proof -
  have pl: "placed h p (b, n, m) d e" by (rule keeps_placed [OF keeps_placed_replace r])
  then have w: "wrote p (b, n, m) d e" by (simp add: placed_def)
  have data: "holds_data (Some (b, n, m)) (lookup_file p e)" if "contents e p = Some (b, n, m)"
    using that by (auto simp: contents_def holds_data_def split: option.splits if_splits)
  show "q \<noteq> p \<Longrightarrow> lookup_file q e = lookup_file q d" using w by (simp add: wrote_def)
  show "lookup_file p e = lookup_file p d \<or> holds_data (Some (b, n, m)) (lookup_file p e)"
    using w data by (auto simp: wrote_def)
  show "r = Inr () \<Longrightarrow> holds_data (Some (b, n, m)) (lookup_file p e)"
    using data replace_ack r by metis
  show "reachable h e"
  proof (rule reachable_grown [OF h])
    fix q f assume f: "lookup_file q e = Some f" "lookup_file q d = None"
    have "q = p" using f w by (metis option.distinct(1) wrote_def)
    moreover have "contents d p = None" using f(2) \<open>q = p\<close> by (simp add: contents_def)
    moreover have "contents e p = Some (b, n, m)" using w f \<open>q = p\<close> by (auto simp: wrote_def)
    ultimately show "\<exists>fd. tree_parent h False q e = (Inr fd, e)" using pl by (simp add: placed_def)
  qed (use w in \<open>auto simp: wrote_def\<close>)
qed

lemma replace_deletes:
  assumes r: "tree_replace (\<lambda>d. d) h p None ex d = (r, e)" and h: "reachable h d"
  shows "reachable h e" "q \<noteq> p \<Longrightarrow> lookup_file q e = lookup_file q d"
    "lookup_file p e = lookup_file p d \<or> lookup_file p e = None" "r = Inr () \<Longrightarrow> lookup_file p e = None"
proof -
  have steps: "e = d \<and> (r = Inr () \<longrightarrow> lookup_file p d = None) \<or> (r, e) = commit (drop_file p) d"
  proof (cases "tree_read h p None d")
    case (Pair a d')
    then have d': "d' = d" by (rule read_keeps_disk)
    obtain x where x: "tree_parent h False p d = (x, d)" using parent_False by (metis prod.collapse)
    show ?thesis
      using r Pair d' x read_nothing [OF h, of p None d]
      by (auto simp: tree_replace_def bindS_def ensureS_def ensure_def environment_def getS_def returnS_def
          split: sum.splits option.splits if_splits)
  qed
  have drop: "lookup_file q x = (if q = p then None else lookup_file q d)" if "x = drop_file p (d\<lparr>faults := fs\<rparr>)" for q x fs
    using that by simp
  have grown: "reachable h x" if x: "x = drop_file p (d\<lparr>faults := fs\<rparr>)" for x fs
    by (rule reachable_grown [OF h]) (auto simp: x drop_file_def lookup_file_def split: if_splits)
  have out: "e = d\<lparr>faults := faults e\<rparr> \<and> (r = Inr () \<longrightarrow> lookup_file p d = None) \<or> (\<exists>fs. e = drop_file p (d\<lparr>faults := fs\<rparr>))"
    using steps
  proof
    assume c: "(r, e) = commit (drop_file p) d"
    show ?thesis
    proof (cases "faults d")
      case Nil
      then have "d\<lparr>faults := []\<rparr> = d" by simp
      moreover have "e = drop_file p d" using c Nil by (simp add: commit_def)
      ultimately have "e = drop_file p (d\<lparr>faults := []\<rparr>)" by simp
      then show ?thesis by blast
    next
      case (Cons f fs)
      with c show ?thesis by (cases f) (auto simp: commit_def)
    qed
  qed auto
  then show "reachable h e" using h grown reachable_faults by metis
  show "q \<noteq> p \<Longrightarrow> lookup_file q e = lookup_file q d" using out drop lookup_faults by metis
  show "lookup_file p e = lookup_file p d \<or> lookup_file p e = None" using out drop lookup_faults by metis
  show "r = Inr () \<Longrightarrow> lookup_file p e = None" using out drop lookup_faults by metis
qed

lemma replace_effect:
  assumes "tree_replace (\<lambda>d. d) h p v ex d = (r, e)" "reachable h d"
  shows "reachable h e" "q \<noteq> p \<Longrightarrow> lookup_file q e = lookup_file q d"
    "lookup_file p e = lookup_file p d \<or> holds_data v (lookup_file p e)" "r = Inr () \<Longrightarrow> holds_data v (lookup_file p e)"
proof -
  have "reachable h e \<and> (\<forall>q. q \<noteq> p \<longrightarrow> lookup_file q e = lookup_file q d) \<and>
    (lookup_file p e = lookup_file p d \<or> holds_data v (lookup_file p e)) \<and> (r = Inr () \<longrightarrow> holds_data v (lookup_file p e))"
  proof (cases v)
    case None
    with assms have r: "tree_replace (\<lambda>d. d) h p None ex d = (r, e)" by simp
    from replace_deletes [OF r assms(2)] None show ?thesis by (simp add: holds_data_def)
  next
    case (Some x)
    with assms have r: "tree_replace (\<lambda>d. d) h p (Some (fst x, fst (snd x), snd (snd x))) ex d = (r, e)" by simp
    from replace_writes [OF r assms(2)] Some show ?thesis by simp
  qed
  then show "reachable h e" "q \<noteq> p \<Longrightarrow> lookup_file q e = lookup_file q d"
    "lookup_file p e = lookup_file p d \<or> holds_data v (lookup_file p e)" "r = Inr () \<Longrightarrow> holds_data v (lookup_file p e)" by auto
qed

lemma write_state_effect:
  assumes "write_state (\<lambda>d. d) h p v d = (r, e)" "reachable h d"
  shows "reachable h e" "q \<noteq> p \<Longrightarrow> lookup_file q e = lookup_file q d"
    "lookup_file p e = lookup_file p d \<or> holds_data (Some (fst v, snd v, 384)) (lookup_file p e)"
    "r = Inr () \<Longrightarrow> holds_data (Some (fst v, snd v, 384)) (lookup_file p e)"
proof -
  let ?v = "Some (fst v, snd v, 384)"
  obtain a d' where a: "tree_read h p None d = (a, d')" by fastforce
  then have d': "d' = d" by (rule read_keeps_disk)
  have "reachable h e \<and> (\<forall>q. q \<noteq> p \<longrightarrow> lookup_file q e = lookup_file q d) \<and>
    (lookup_file p e = lookup_file p d \<or> holds_data ?v (lookup_file p e)) \<and> (r = Inr () \<longrightarrow> holds_data ?v (lookup_file p e))"
  proof (cases a)
    case (Inl x)
    with assms a d' show ?thesis by (auto simp: write_state_def bindS_def)
  next
    case (Inr x)
    with assms(1) a d' have "tree_replace (\<lambda>d. d) h p ?v (seen x) d = (r, e)" by (simp add: write_state_def bindS_def)
    from replace_effect [OF this assms(2)] show ?thesis by auto
  qed
  then show "reachable h e" "q \<noteq> p \<Longrightarrow> lookup_file q e = lookup_file q d"
    "lookup_file p e = lookup_file p d \<or> holds_data ?v (lookup_file p e)" "r = Inr () \<Longrightarrow> holds_data ?v (lookup_file p e)" by auto
qed

section \<open>What a file shows\<close>

definition selects :: "'c ditem \<Rightarrow> string list" where
  "selects it = (case pointer (selector_text it) of Inl e \<Rightarrow> [''''] | Inr ps \<Rightarrow> ps)"

lemma pointer_nonempty: "pointer s = Inr ps \<Longrightarrow> ps \<noteq> []"
  by (auto simp: pointer_def split: list.splits if_splits)

lemma selects_nonempty [simp]: "selects it \<noteq> []"
  by (auto simp: selects_def dest: pointer_nonempty split: sum.split)

definition shown_in :: "json \<Rightarrow> 'c ditem \<Rightarrow> 'c shown option" where
  "shown_in doc it = (case get_path (selects it) doc of Inl e \<Rightarrow> None | Inr None \<Rightarrow> Some Gone | Inr (Some v) \<Rightarrow> Some (Field v))"

definition document_of :: "'c deploy_env \<Rightarrow> string \<Rightarrow> 'c stored option \<Rightarrow> json option" where
  "document_of E codec f =
     (case f of None \<Rightarrow> Some (JObj []) | Some x \<Rightarrow> (case parse_native E (body x) codec of Inl e \<Rightarrow> None | Inr d \<Rightarrow> Some d))"

definition shows_item :: "'c deploy_env \<Rightarrow> 'c disk \<Rightarrow> 'c ditem \<Rightarrow> 'c shown option" where
  "shows_item E d it =
     (let f = lookup_file (parts (di_path it)) d in
      if fielded it then (case document_of E (di_codec it) f of None \<Rightarrow> None | Some doc \<Rightarrow> shown_in doc it)
      else (case f of None \<Rightarrow> Some Gone | Some x \<Rightarrow> Some (Whole (body x) (fmode x))))"

text \<open>A codec reads back what it wrote; its documents are canonical.\<close>

definition codecs_ok :: "'c deploy_env \<Rightarrow> bool" where
  "codecs_ok E \<longleftrightarrow> (\<forall>k dec enc. de_codecs E k = Some (dec, enc) \<longrightarrow>
     (\<forall>b doc. dec b = Some doc \<longrightarrow> canonical doc) \<and>
     (\<forall>kvs. canonical (JObj kvs) \<longrightarrow> dec (fst (enc (JObj kvs))) = Some (JObj kvs)))"

fun value_fits :: "bool \<Rightarrow> 'c shown \<Rightarrow> bool" where
  "value_fits f Gone \<longleftrightarrow> True"
| "value_fits f (Field v) \<longleftrightarrow> f \<and> canonical v"
| "value_fits f (Whole b m) \<longleftrightarrow> \<not> f"

text \<open>The parents that a change may prune lie strictly above its field.\<close>

definition parents_above :: "'c change \<Rightarrow> bool" where
  "parents_above c \<longleftrightarrow> (\<forall>q\<in>set (ch_parents c). \<forall>ps. pointer q = Inr ps \<longrightarrow> \<not> prefix_of (selects (ch_item c)) ps \<and> prefix_of ps (selects (ch_item c)))"

definition change_fits :: "'c change \<Rightarrow> bool" where
  "change_fits c \<longleftrightarrow>
     (let f = fielded (ch_item c) in
      value_fits f (ch_before c) \<and> value_fits f (ch_after c) \<and> (f \<longrightarrow> (\<exists>ps. pointer (selector_text (ch_item c)) = Inr ps) \<and> parents_above c))"

definition beside :: "'c change \<Rightarrow> 'c change \<Rightarrow> bool" where
  "beside c d \<longleftrightarrow> di_path (ch_item c) = di_path (ch_item d) \<longrightarrow>
     fielded (ch_item c) \<and> fielded (ch_item d) \<and> di_codec (ch_item c) = di_codec (ch_item d) \<and>
     apart_paths (selects (ch_item c)) (selects (ch_item d))"

fun spread :: "'c change list \<Rightarrow> bool" where
  "spread [] \<longleftrightarrow> True"
| "spread (c # cs) \<longleftrightarrow> list_all (beside c) cs \<and> spread cs"

lemma beside_sym: "beside c d \<Longrightarrow> beside d c"
  by (auto simp: beside_def apart_paths_def)

lemma spread_filter: "spread cs \<Longrightarrow> spread (filter P cs)"
  by (induction cs) (auto simp: list_all_iff)

lemma spread_pair: "spread cs \<Longrightarrow> c \<in> set cs \<Longrightarrow> d \<in> set cs \<Longrightarrow> c \<noteq> d \<Longrightarrow> beside c d"
  by (induction cs) (auto simp: list_all_iff beside_sym)

lemma parse_canonical: "codecs_ok E \<Longrightarrow> parse_native E b k = Inr doc \<Longrightarrow> canonical doc \<and> is_object doc"
  by (auto simp: codecs_ok_def parse_native_def split: option.splits json.splits)

lemma parse_encode: "codecs_ok E \<Longrightarrow> encode_native E doc k = Inr (b, n) \<Longrightarrow> canonical doc \<Longrightarrow> is_object doc \<Longrightarrow> parse_native E b k = Inr doc"
proof -
  assume a: "codecs_ok E" "encode_native E doc k = Inr (b, n)" "canonical doc" "is_object doc"
  from a(4) obtain kvs where k: "doc = JObj kvs" by (cases doc) auto
  from a(2) obtain dec enc where c: "de_codecs E k = Some (dec, enc)" "enc doc = (b, n)"
    by (auto simp: encode_native_def split: option.splits)
  with a(1,3) k have "dec (fst (enc (JObj kvs))) = Some (JObj kvs)" unfolding codecs_ok_def by blast
  with c k show ?thesis by (simp add: parse_native_def)
qed

lemma shown_in_empty: "shown_in (JObj []) it = Some Gone"
  by (cases "selects it") (simp_all add: shown_in_def)

lemma get_field_shown:
  assumes "get_field doc (selector_text it) = Inr v"
  shows "shown_in doc it = Some v"
  using assms by (auto simp: get_field_def shown_in_def selects_def bindE_eq_Inr ensure_eq_Inr split: option.splits)

lemma shown_in_put:
  assumes "pointer (selector_text it) = Inr ps" "put_field doc (selector_text it) v = Inr doc'" "value_fits True v"
  shows "shown_in doc' it = Some v"
proof -
  from assms have "put_path ps (field_value v) doc = Inr doc'" by (simp add: put_field_def)
  from get_put [OF this] assms(1,3) show ?thesis by (cases v) (simp_all add: shown_in_def selects_def)
qed

section \<open>The changes of one file\<close>

lemma target_read_same: "target_read E p s = (r, t) \<Longrightarrow> t = s"
  by (auto simp: target_read_def on_target_def split: prod.splits dest!: read_keeps_disk)

lemma keeps_target_read [preserved]: "keeps P (target_read E p)"
  using target_read_same by (metis keeps_def prod.collapse)

lemma keeps_projection [preserved]: "keeps P (projection E it)"
  unfolding projection_def by (intro preserved keeps_option) (auto split: prod.splits intro!: preserved)

lemma projection_same: "projection E it s = (r, t) \<Longrightarrow> t = s"
  using keepsD [OF keeps_projection, of "\<lambda>x. x = s" s E it r t] by simp

lemma target_read_Some:
  assumes "target_read E p s = (Inr (Some (b, m, i)), t)"
  shows "\<exists>f. lookup_file (parts p) (dp_target s) = Some f \<and> body f = b \<and> fmode f = m \<and> i = identity f"
  using assms tree_read_Some [of "de_target E" "parts p" None "dp_target s" b m i]
  by (auto simp: target_read_def on_target_def split: prod.splits)

lemma target_read_None:
  assumes "target_read E p s = (Inr None, t)" "reachable (de_target E) (dp_target s)"
  shows "lookup_file (parts p) (dp_target s) = None"
  using assms read_nothing [of "de_target E" "dp_target s" "parts p" None]
  by (auto simp: target_read_def on_target_def split: prod.splits)

lemma projection_shows:
  assumes "projection E it s = (Inr v, t)" "reachable (de_target E) (dp_target s)"
  shows "shows_item E (dp_target s) it = Some v"
proof -
  from assms(1) obtain raw u where raw: "target_read E (di_path it) s = (Inr raw, u)"
    and rest: "(case raw of None \<Rightarrow> returnS Gone
     | Some (b, m, i) \<Rightarrow>
         if fielded it
         then bindS (liftS (bindE (parse_native E b (di_codec it)) (\<lambda>doc. get_field doc (selector_text it)))) (\<lambda>v.
              bindS (ensureS (validate_projection v (di_guard it)) Store_Conflict) (\<lambda>_. returnS v))
         else returnS (Whole b m)) u = (Inr v, t)"
    by (auto simp: projection_def result_simps)
  show ?thesis
  proof (cases raw)
    case None
    with rest have "v = Gone" by (simp add: returnS_eq)
    moreover have "lookup_file (parts (di_path it)) (dp_target s) = None" using target_read_None raw None assms(2) by blast
    moreover have "shown_in (JObj []) it = Some Gone" by (rule shown_in_empty)
    ultimately show ?thesis by (simp add: shows_item_def document_of_def Let_def)
  next
    case (Some x)
    obtain b m i where x: "x = (b, m, i)" by (cases x)
    from target_read_Some [OF raw [unfolded Some x]]
    obtain f where "lookup_file (parts (di_path it)) (dp_target s) = Some f" "body f = b" "fmode f = m" by blast
    with rest Some x show ?thesis
      by (auto simp: shows_item_def document_of_def Let_def result_simps get_field_shown split: if_splits)
  qed
qed

text \<open>Removing created parents touches neither the fields beside them nor any leaf.\<close>

lemma fold_prune:
  assumes "\<And>ps. ps \<in> set pss \<Longrightarrow> \<not> prefix_of qs ps" "get_path qs d = Inr r"
  shows "get_path qs (fold prune_path pss d) = Inr r"
  using assms by (induction pss arbitrary: d) (auto simp: get_prune)

lemma fold_prune_rest:
  "leaf qs (fold prune_path pss d) = leaf qs d"
  "is_object d \<Longrightarrow> is_object (fold prune_path pss d)"
  "canonical d \<Longrightarrow> canonical (fold prune_path pss d)"
  by (induction pss arbitrary: d) (auto simp: leaf_prune prune_object canonical_prune)

lemma prune_created:
  assumes "prune_created_parents doc sels = Inr doc'"
  obtains pss where "doc' = fold prune_path pss doc" "\<And>ps. ps \<in> set pss \<Longrightarrow> \<exists>q\<in>set sels. pointer q = Inr ps"
proof -
  from assms obtain pss where m: "mapE pointer sels = Inr pss" and d: "doc' = fold prune_path (sort_key (\<lambda>ps. - int (length ps)) pss) doc"
    by (auto simp: prune_created_parents_def bindE_eq_Inr)
  have "\<exists>q\<in>set sels. pointer q = Inr ps" if "ps \<in> set pss" for ps
  proof -
    from that obtain i where "i < length pss" "ps = pss ! i" by (auto simp: in_set_conv_nth)
    with m have "sels ! i \<in> set sels" "pointer (sels ! i) = Inr ps" by (auto simp: mapE_eq_Inr list_all2_conv_all_nth)
    then show ?thesis by blast
  qed
  with d that [of "sort_key (\<lambda>ps. - int (length ps)) pss"] show ?thesis by simp
qed

text \<open>What the changes of a file do to its document.\<close>

definition redrawn :: "'c change list \<Rightarrow> json \<Rightarrow> json \<Rightarrow> bool" where
  "redrawn cs doc doc' \<longleftrightarrow>
     (\<forall>qs. (\<forall>c\<in>set cs. \<not> prefix_of (selects (ch_item c)) qs) \<longrightarrow> leaf qs doc' = leaf qs doc) \<and>
     (\<forall>qs r. (\<forall>c\<in>set cs. apart_paths (selects (ch_item c)) qs) \<longrightarrow> get_path qs doc = Inr r \<longrightarrow> get_path qs doc' = Inr r) \<and>
     (is_object doc \<longrightarrow> is_object doc') \<and> (canonical doc \<longrightarrow> canonical doc')"

lemma redrawn_refl [simp]: "redrawn cs doc doc"
  by (simp add: redrawn_def)

lemma redrawn_trans: "redrawn cs a b \<Longrightarrow> redrawn ds b c \<Longrightarrow> redrawn (cs @ ds) a c"
  unfolding redrawn_def by (simp add: ball_Un)

lemma draft_change_field:
  assumes r: "draft_change E c w s = (Inr w', t)" and f: "fielded (ch_item c)" and c: "change_fits c"
  shows "t = s" "shown_in (dr_document w') (ch_item c) = Some (ch_after c)" "redrawn [c] (dr_document w) (dr_document w')"
    "dr_changed w' \<or> w' = w"
proof -
  let ?it = "ch_item c" let ?sel = "selector_text ?it" let ?d = "dr_document w"
  from c f obtain ps where ps: "pointer ?sel = Inr ps" and fit: "value_fits True (ch_after c)" "parents_above c"
    by (auto simp: change_fits_def Let_def)
  then have sel: "selects ?it = ps" by (simp add: selects_def)
  from r obtain v where v: "get_field ?d ?sel = Inr v" and
    rest: "(if v = ch_after c then returnS w
      else bindS (ensureS (v = ch_before c) Store_Conflict) (\<lambda>_.
          bindS (liftS (put_field ?d ?sel (ch_after c))) (\<lambda>doc.
          bindS (if ch_after c = Gone then liftS (prune_created_parents doc (ch_parents c)) else returnS doc) (\<lambda>doc.
          returnS (w\<lparr>dr_document := doc, dr_changed := True\<rparr>))))) s = (Inr w', t)"
    by (auto simp: draft_change_def Let_def result_simps f cong: if_cong)
  have shown: "t = s \<and> shown_in (dr_document w') ?it = Some (ch_after c) \<and> redrawn [c] ?d (dr_document w') \<and> (dr_changed w' \<or> w' = w)"
  proof (cases "v = ch_after c")
    case True
    with rest get_field_shown [OF v] show ?thesis by (auto simp: returnS_eq)
  next
    case False
    with rest obtain d1 d2 where d1: "put_field ?d ?sel (ch_after c) = Inr d1"
      and d2: "(if ch_after c = Gone then liftS (prune_created_parents d1 (ch_parents c)) else returnS d1) s = (Inr d2, t)"
      and w': "w' = w\<lparr>dr_document := d2, dr_changed := True\<rparr>"
      by (auto simp: result_simps simp del: if_split)
    from d2 have t: "t = s" by (simp add: liftS_eq returnS_eq split: if_splits)
    from d1 ps have put: "put_path ps (field_value (ch_after c)) ?d = Inr d1" by (simp add: put_field_def)
    have can: "canonical x" if "field_value (ch_after c) = Some x" for x using that fit(1) by (cases "ch_after c") auto
    have one: "redrawn [c] ?d d1"
      using get_put_other [OF put] leaf_put [OF put] put_object [OF put] canonical_put [OF put] can
      by (auto simp: redrawn_def sel)
    have at: "get_path ps d1 = Inr (field_value (ch_after c))" by (rule get_put [OF put])
    have two: "redrawn [c] ?d d2 \<and> get_path ps d2 = Inr (field_value (ch_after c))"
    proof (cases "ch_after c = Gone")
      case True
      with d2 have "prune_created_parents d1 (ch_parents c) = Inr d2" by (simp add: liftS_eq)
      then obtain pss where pss: "d2 = fold prune_path pss d1" "\<And>q. q \<in> set pss \<Longrightarrow> \<exists>p\<in>set (ch_parents c). pointer p = Inr q"
        by (rule prune_created) blast
      have above: "\<not> prefix_of ps q \<and> prefix_of q ps" if "q \<in> set pss" for q
        using pss(2) [OF that] fit(2) by (auto simp: parents_above_def sel)
      have beside: "\<not> prefix_of qs q" if q: "q \<in> set pss" and a: "apart_paths ps qs" for q qs
      proof
        assume "prefix_of qs q"
        then obtain x where "q = qs @ x" by (auto dest: prefix_ofE)
        moreover obtain y where "ps = q @ y" using above [OF q] by (auto dest: prefix_ofE)
        ultimately have "prefix_of qs ps" by simp
        with a show False by (simp add: apart_paths_def)
      qed
      have "redrawn [c] d1 d2"
        using fold_prune [of pss] fold_prune_rest beside by (auto simp: redrawn_def sel pss(1))
      with one have "redrawn ([c] @ [c]) ?d d2" by (rule redrawn_trans)
      moreover have "get_path ps d2 = Inr (field_value (ch_after c))"
        unfolding pss(1) by (rule fold_prune [OF _ at]) (use above in blast)
      ultimately show ?thesis by (simp add: redrawn_def)
    next
      case False
      with d2 one at show ?thesis by (simp add: returnS_eq)
    qed
    then have "shown_in d2 ?it = Some (ch_after c)" using fit(1) by (cases "ch_after c") (simp_all add: shown_in_def sel)
    with w' t two show ?thesis by simp
  qed
  then show "t = s" "shown_in (dr_document w') (ch_item c) = Some (ch_after c)" "redrawn [c] (dr_document w) (dr_document w')"
    "dr_changed w' \<or> w' = w" by auto
qed

lemma shown_in_redrawn:
  assumes "redrawn cs doc doc'" "shown_in doc it = Some v" "\<forall>c\<in>set cs. apart_paths (selects (ch_item c)) (selects it)"
  shows "shown_in doc' it = Some v"
proof -
  from assms(2) obtain r where "get_path (selects it) doc = Inr r" by (auto simp: shown_in_def split: sum.splits)
  moreover from this assms have "get_path (selects it) doc' = Inr r" by (simp add: redrawn_def)
  ultimately show ?thesis using assms(2) by (simp add: shown_in_def)
qed

lemma draft_changes_fields:
  assumes "draft_changes E cs w s = (Inr w', t)" "spread cs"
    and "\<And>c. c \<in> set cs \<Longrightarrow> fielded (ch_item c) \<and> change_fits c \<and> di_path (ch_item c) = p"
  shows "t = s \<and> (\<forall>c\<in>set cs. shown_in (dr_document w') (ch_item c) = Some (ch_after c)) \<and>
    redrawn cs (dr_document w) (dr_document w') \<and> (dr_changed w' \<or> w' = w)"
  using assms
proof (induction cs arbitrary: w s)
  case Nil
  then show ?case by (simp add: returnS_eq)
next
  case (Cons c cs)
  from Cons.prems(1) obtain w1 s1 where one: "draft_change E c w s = (Inr w1, s1)" and rest: "draft_changes E cs w1 s1 = (Inr w', t)"
    by (auto simp: result_simps)
  have c: "fielded (ch_item c)" "change_fits c" "di_path (ch_item c) = p" using Cons.prems(3) [of c] by auto
  note d = draft_change_field [OF one c(1,2)]
  have ih: "t = s1 \<and> (\<forall>c\<in>set cs. shown_in (dr_document w') (ch_item c) = Some (ch_after c)) \<and>
    redrawn cs (dr_document w1) (dr_document w') \<and> (dr_changed w' \<or> w' = w1)"
    by (rule Cons.IH [OF rest]) (use Cons.prems(2,3) in auto)
  have "apart_paths (selects (ch_item x)) (selects (ch_item c))" if "x \<in> set cs" for x
    using that Cons.prems(2,3) c(3) by (auto simp: list_all_iff beside_def apart_paths_def)
  with shown_in_redrawn [of cs "dr_document w1" "dr_document w'" "ch_item c" "ch_after c"] ih d(2)
  have "shown_in (dr_document w') (ch_item c) = Some (ch_after c)" by blast
  moreover have "redrawn (c # cs) (dr_document w) (dr_document w')" using redrawn_trans [OF d(3)] ih by auto
  ultimately show ?case using ih d(1,4) by auto
qed

section \<open>Writing one file\<close>

text \<open>What a file shows once its changes are written, compared with what it was.\<close>

definition group_done :: "'c deploy_env \<Rightarrow> 'c change list \<Rightarrow> 'c disk \<Rightarrow> 'c disk \<Rightarrow> bool" where
  "group_done E cs d e \<longleftrightarrow>
     (\<forall>c\<in>set cs. shows_item E e (ch_item c) = Some (ch_after c) \<and>
       (fielded (ch_item c) \<longrightarrow>
         (\<exists>doc doc'. document_of E (di_codec (ch_item c)) (lookup_file (parts (di_path (ch_item c))) d) = Some doc \<and>
           document_of E (di_codec (ch_item c)) (lookup_file (parts (di_path (ch_item c))) e) = Some doc' \<and>
           (\<forall>qs. (\<forall>x\<in>set cs. \<not> prefix_of (selects (ch_item x)) qs) \<longrightarrow> leaf qs doc' = leaf qs doc))))"

lemma keeps_draft_change [preserved]: "keeps P (draft_change E c w)"
  unfolding draft_change_def Let_def by (intro preserved)

lemma keeps_draft_changes [preserved]: "keeps P (draft_changes E cs w)"
  by (induction cs arbitrary: w) (simp_all add: preserved)

definition written :: "'c deploy_env \<Rightarrow> string \<Rightarrow> 'c change list \<Rightarrow> 'c deploy \<Rightarrow> store_error + unit \<Rightarrow> 'c deploy \<Rightarrow> bool" where
  "written E p cs s r t \<longleftrightarrow>
     dp_state t = dp_state s \<and> reachable (de_target E) (dp_target t) \<and>
     (\<forall>q. q \<noteq> parts p \<longrightarrow> lookup_file q (dp_target t) = lookup_file q (dp_target s)) \<and>
     (lookup_file (parts p) (dp_target t) = lookup_file (parts p) (dp_target s) \<or> group_done E cs (dp_target s) (dp_target t)) \<and>
     (r = Inr () \<longrightarrow> group_done E cs (dp_target s) (dp_target t))"

lemma written_replace:
  assumes r: "on_target (tree_replace (\<lambda>d. d) (de_target E) (parts p) v ex) s = (r, t)"
    and h: "reachable (de_target E) (dp_target s)"
    and v: "\<And>d. holds_data v (lookup_file (parts p) d) \<Longrightarrow> group_done E cs (dp_target s) d"
  shows "written E p cs s r t"
proof -
  from r obtain d where d: "tree_replace (\<lambda>d. d) (de_target E) (parts p) v ex (dp_target s) = (r, d)" "t = s\<lparr>dp_target := d\<rparr>"
    by (auto simp: on_target_def split: prod.splits)
  from replace_effect [OF d(1) h] v [of d] d(2) show ?thesis by (auto simp: written_def)
qed

lemma written_not: "reachable (de_target E) (dp_target s) \<Longrightarrow> written E p cs s (Inl e) s"
  by (simp add: written_def)

lemma written_already: "reachable (de_target E) (dp_target s) \<Longrightarrow> group_done E cs (dp_target s) (dp_target s) \<Longrightarrow> written E p cs s r s"
  by (simp add: written_def)

lemma group_done_fields:
  assumes doc: "document_of E k (lookup_file (parts p) d) = Some doc" "document_of E k (lookup_file (parts p) e) = Some doc'"
    and cs: "\<And>c. c \<in> set cs \<Longrightarrow> fielded (ch_item c) \<and> di_path (ch_item c) = p \<and> di_codec (ch_item c) = k"
    and vis: "\<forall>c\<in>set cs. shown_in doc' (ch_item c) = Some (ch_after c)" and rd: "redrawn cs doc doc'"
  shows "group_done E cs d e"
  unfolding group_done_def
proof (intro ballI conjI impI)
  fix c assume c: "c \<in> set cs"
  from cs [OF c] doc(2) vis c show "shows_item E e (ch_item c) = Some (ch_after c)" by (simp add: shows_item_def Let_def)
  from cs [OF c] doc rd show "\<exists>doc doc'. document_of E (di_codec (ch_item c)) (lookup_file (parts (di_path (ch_item c))) d) = Some doc \<and>
      document_of E (di_codec (ch_item c)) (lookup_file (parts (di_path (ch_item c))) e) = Some doc' \<and>
      (\<forall>qs. (\<forall>x\<in>set cs. \<not> prefix_of (selects (ch_item x)) qs) \<longrightarrow> leaf qs doc' = leaf qs doc)"
    by (auto simp: redrawn_def)
qed

lemma bind_run: "m s = (Inr x, u) \<Longrightarrow> bindS m k s = k x u"
  and bind_stop: "bindS m k s = (r, t) \<Longrightarrow> m s = (Inl e, u) \<Longrightarrow> r = Inl e \<and> t = u"
  by (simp_all add: bindS_def)

lemma write_fields:
  assumes r: "write_group E (p, c # cs) s = (r, t)" and E: "codecs_ok E" and h: "reachable (de_target E) (dp_target s)"
    and sp: "spread (c # cs)" and f: "fielded (ch_item c)"
    and fit: "\<And>x. x \<in> set (c # cs) \<Longrightarrow> change_fits x \<and> di_path (ch_item x) = p"
  shows "written E p (c # cs) s r t"
proof -
  let ?k = "di_codec (ch_item c)" let ?cs = "c # cs"
  have all: "fielded (ch_item x) \<and> di_path (ch_item x) = p \<and> di_codec (ch_item x) = ?k" if "x \<in> set ?cs" for x
  proof (cases "x = c")
    case False
    with that sp have "beside c x" by (auto simp: list_all_iff)
    with fit [OF that] fit [of c] show ?thesis by (auto simp: beside_def)
  qed (use f fit [of c] in auto)
  have latest: "fielded (ch_item (last ?cs))" "di_codec (ch_item (last ?cs)) = ?k" using all [OF last_in_set [of ?cs]] by simp_all
  obtain raw u where raw': "target_read E p s = (raw, u)" by fastforce
  then have u: "u = s" by (rule target_read_same)
  with raw' have raw: "target_read E p s = (raw, s)" by simp
  let ?load = "\<lambda>x. case x of Some (b, m, i) \<Rightarrow> liftS (parse_native E b ?k) | None \<Rightarrow> returnS (JObj [])"
  let ?w = "\<lambda>doc. \<lparr>dr_document = doc, dr_changed = False, dr_content = None, dr_mode = 384\<rparr>"
  let ?put = "\<lambda>x content. on_target (tree_replace (\<lambda>d. d) (de_target E) (parts p) (map_option (\<lambda>(b, n). (b, n, 384)) content) (seen x))"
  let ?fin = "\<lambda>x w. if \<not> dr_changed w then returnS ()
           else bindS (if dr_document w = JObj [] \<and> list_ex ch_created_file ?cs then returnS None
                  else liftS (bindE (encode_native E (dr_document w) ?k) (\<lambda>b. Inr (Some b)))) (?put x)"
  have "write_group E (p, ?cs) = bindS (target_read E p) (\<lambda>x. bindS (?load x) (\<lambda>doc. bindS (draft_changes E ?cs (?w doc)) (?fin x)))"
    unfolding write_group_def fst_conv snd_conv Let_def list.sel by (simp only: f latest if_True cong: if_cong)
  with r have r: "bindS (target_read E p) (\<lambda>x. bindS (?load x) (\<lambda>doc. bindS (draft_changes E ?cs (?w doc)) (?fin x))) s = (r, t)" by simp
  show ?thesis
  proof (cases raw)
    case (Inl e)
    from bind_stop [where m = "target_read E p" and s = s and u = s, OF r] raw Inl written_not [OF h] show ?thesis by blast
  next
    case (Inr x)
    note r = r [unfolded bind_run [where m = "target_read E p" and s = s and u = s, OF raw [unfolded Inr]]]
    have load: "?load x s = (a, v) \<Longrightarrow> v = s" for a v
      by (auto simp: liftS_eq returnS_eq split: option.splits prod.splits)
    obtain a where a: "?load x s = (a, s)" using load by (metis prod.collapse)
    have doc: "document_of E ?k (lookup_file (parts p) (dp_target s)) = Some doc" if "a = Inr doc" for doc
    proof (cases x)
      case None
      with target_read_None [of E p s s] raw Inr h a that show ?thesis by (simp add: document_of_def returnS_eq)
    next
      case (Some y)
      obtain b m i where y: "y = (b, m, i)" by (cases y)
      with target_read_Some [of E p s b m i s] raw Inr Some obtain g where "lookup_file (parts p) (dp_target s) = Some g" "body g = b" by auto
      with a that Some y show ?thesis by (simp add: document_of_def liftS_eq)
    qed
    have good: "canonical doc \<and> is_object doc" if "a = Inr doc" for doc
      using a that parse_canonical [OF E] by (auto simp: liftS_eq returnS_eq split: option.splits prod.splits)
    show ?thesis
    proof (cases a)
      case (Inl e)
      from bind_stop [where m = "?load x" and s = s and u = s, OF r] a Inl written_not [OF h] show ?thesis by blast
    next
      case (Inr doc)
      note r = r [unfolded bind_run [where m = "?load x" and s = s and u = s, OF a [unfolded Inr]]]
      obtain o1 v where dr: "draft_changes E ?cs (?w doc) s = (o1, v)" by fastforce
      then have v: "v = s" using keepsD [OF keeps_draft_changes, of "\<lambda>x. x = s" s E ?cs "?w doc" o1 v] by simp
      note dr = dr [unfolded v]
      show ?thesis
      proof (cases o1)
        case (Inl e)
        from bind_stop [where m = "draft_changes E ?cs (?w doc)" and s = s and u = s, OF r] dr Inl written_not [OF h] show ?thesis by blast
      next
        case (Inr w)
        have start: "dr_document (?w doc) = doc" by simp
        have pre: "fielded (ch_item x) \<and> change_fits x \<and> di_path (ch_item x) = p" if "x \<in> set ?cs" for x
          using all [OF that] fit [OF that] by blast
        have d: "(\<forall>c\<in>set ?cs. shown_in (dr_document w) (ch_item c) = Some (ch_after c)) \<and>
            redrawn ?cs doc (dr_document w) \<and> (dr_changed w \<or> w = ?w doc)"
          using draft_changes_fields [OF dr [unfolded Inr] sp pre, THEN conjunct2] unfolding start .
        note shown = d [THEN conjunct1] and rd = d [THEN conjunct2, THEN conjunct1] and left = d [THEN conjunct2, THEN conjunct2]
        have finished: "group_done E ?cs (dp_target s) e" if "document_of E ?k (lookup_file (parts p) e) = Some (dr_document w)" for e
          by (rule group_done_fields [OF doc [OF \<open>a = Inr doc\<close>] that _ shown rd]) (rule all)
        have good': "canonical (dr_document w)" "is_object (dr_document w)" using rd good [OF \<open>a = Inr doc\<close>] by (simp_all add: redrawn_def)
        note rest = r [unfolded bind_run [where m = "draft_changes E ?cs (?w doc)" and s = s and u = s, OF dr [unfolded Inr]]]
        show ?thesis
        proof (cases "dr_changed w")
          case False
          with left have "w = ?w doc" by simp
          then have "dr_document w = doc" by (simp only: start)
          with finished [of "dp_target s"] doc [OF \<open>a = Inr doc\<close>] have "group_done E ?cs (dp_target s) (dp_target s)" by simp
          with rest False h show ?thesis by (auto simp: returnS_eq written_already)
        next
          case True
          show ?thesis
          proof (cases "dr_document w = JObj [] \<and> list_ex ch_created_file ?cs")
            case e: True
            with rest True have "?put x None s = (r, t)" by (simp add: bindS_def returnS_def)
            then show ?thesis
              by (rule written_replace [OF _ h]) (use finished e in \<open>auto simp: holds_data_def document_of_def\<close>)
          next
            case e: False
            from rest True have enc: "bindS (liftS (bindE (encode_native E (dr_document w) ?k) (\<lambda>b. Inr (Some b)))) (?put x) s = (r, t)"
              by (simp only: e if_False if_True not_True_eq_False)
            show ?thesis
            proof (cases "encode_native E (dr_document w) ?k")
              case (Inl x)
              with enc h show ?thesis by (auto simp: bindS_def liftS_def written_not)
            next
              case (Inr bn)
              obtain b n where bn: "bn = (b, n)" by (cases bn)
              with enc Inr have put: "?put x (Some (b, n)) s = (r, t)" by (simp add: bindS_def liftS_def)
              have "parse_native E b ?k = Inr (dr_document w)" by (rule parse_encode [OF E _ good']) (use Inr bn in simp)
              then show ?thesis
                using written_replace [OF put h] finished by (auto simp: holds_data_def document_of_def split: option.splits)
            qed
          qed
        qed
      qed
    qed
  qed
qed

lemma draft_change_whole:
  assumes r: "draft_change E c w s = (Inr w', t)" and f: "\<not> fielded (ch_item c)" and h: "reachable (de_target E) (dp_target s)"
  shows "t = s \<and> (w' = w \<and> shows_item E (dp_target s) (ch_item c) = Some (ch_after c) \<or>
    w' = (case ch_after c of Whole b m \<Rightarrow> w\<lparr>dr_changed := True, dr_content := Some (b, de_length E b), dr_mode := m\<rparr>
      | _ \<Rightarrow> w\<lparr>dr_changed := True\<rparr>))"
proof -
  from r obtain v s' where v: "projection E (ch_item c) s = (Inr v, s')" and
    rest: "(if v = ch_after c then returnS w
      else bindS (ensureS (v = ch_before c) Store_Conflict) (\<lambda>_. returnS (case ch_after c of
        Whole b m \<Rightarrow> w\<lparr>dr_changed := True, dr_content := Some (b, de_length E b), dr_mode := m\<rparr>
      | _ \<Rightarrow> w\<lparr>dr_changed := True\<rparr>))) s' = (Inr w', t)"
    by (auto simp: draft_change_def Let_def result_simps f cong: if_cong)
  from projection_same [OF v] have s': "s' = s" .
  show ?thesis
  proof (cases "v = ch_after c")
    case True
    with rest s' projection_shows [OF v h] show ?thesis by (simp add: returnS_eq)
  next
    case False
    with rest s' show ?thesis by (auto simp: result_simps)
  qed
qed

lemma write_whole:
  assumes r: "write_group E (p, [c]) s = (r, t)" and h: "reachable (de_target E) (dp_target s)"
    and f: "\<not> fielded (ch_item c)" and c: "change_fits c" "di_path (ch_item c) = p"
  shows "written E p [c] s r t"
proof -
  let ?w = "\<lparr>dr_document = JObj [], dr_changed = False, dr_content = None, dr_mode = 384\<rparr>"
  let ?put = "\<lambda>x w content. on_target (tree_replace (\<lambda>d. d) (de_target E) (parts p) (map_option (\<lambda>(b, n). (b, n, dr_mode w)) content) (seen x))"
  let ?fin = "\<lambda>x w. if \<not> dr_changed w then returnS () else ?put x w (dr_content w)"
  have ret: "bindS (returnS a) k = k a" for a and k :: "'x \<Rightarrow> ('s, 'e, 'y) io" by (simp add: fun_eq_iff bindS_def returnS_def)
  have load: "(case x of None \<Rightarrow> returnS (JObj [])
      | Some (b, m, i) \<Rightarrow> if fielded (ch_item c) then liftS (parse_native E b (di_codec (ch_item c))) else returnS (JObj [])) = returnS (JObj [])"
    for x by (auto simp: f split: option.split)
  have "write_group E (p, [c]) = bindS (target_read E p) (\<lambda>x. bindS (draft_changes E [c] ?w) (?fin x))"
    unfolding write_group_def fst_conv snd_conv Let_def list.sel by (simp add: f load ret del: draft_changes.simps cong: if_cong)
  with r have r: "bindS (target_read E p) (\<lambda>x. bindS (draft_changes E [c] ?w) (?fin x)) s = (r, t)" by simp
  obtain raw u where raw: "target_read E p s = (raw, u)" by fastforce
  then have u: "u = s" by (rule target_read_same)
  have done_at: "group_done E [c] (dp_target s) e" if "shows_item E e (ch_item c) = Some (ch_after c)" for e
    using that f by (simp add: group_done_def)
  show ?thesis
  proof (cases raw)
    case (Inl e)
    from bind_stop [where m = "target_read E p" and s = s and u = s, OF r] raw u Inl written_not [OF h] show ?thesis by blast
  next
    case (Inr x)
    note r = r [unfolded bind_run [where m = "target_read E p" and s = s and u = s, OF raw [unfolded Inr u]]]
    obtain o1 v where dr: "draft_changes E [c] ?w s = (o1, v)" by fastforce
    then have v: "v = s" using keepsD [OF keeps_draft_changes, of "\<lambda>x. x = s" s E "[c]" ?w o1 v] by simp
    note dr = dr [unfolded v]
    show ?thesis
    proof (cases o1)
      case (Inl e)
      from bind_stop [where m = "draft_changes E [c] ?w" and s = s and u = s, OF r] dr Inl written_not [OF h] show ?thesis by blast
    next
      case (Inr w)
      note rest = r [unfolded bind_run [where m = "draft_changes E [c] ?w" and s = s and u = s, OF dr [unfolded Inr]]]
      from dr Inr obtain w1 s1 where "draft_change E c ?w s = (Inr w1, s1)" "returnS w1 s1 = (Inr w, s)"
        by (auto simp: result_simps)
      then have one: "draft_change E c ?w s = (Inr w, s)" by (simp add: returnS_eq)
      from draft_change_whole [OF one f h] consider
        (same) "w = ?w" "shows_item E (dp_target s) (ch_item c) = Some (ch_after c)"
      | (new) "w = (case ch_after c of Whole b m \<Rightarrow> ?w\<lparr>dr_changed := True, dr_content := Some (b, de_length E b), dr_mode := m\<rparr>
          | _ \<Rightarrow> ?w\<lparr>dr_changed := True\<rparr>)" by blast
      then show ?thesis
      proof cases
        case same
        with rest done_at h show ?thesis by (auto simp: returnS_eq written_already)
      next
        case new
        then have "dr_changed w" by (cases "ch_after c") simp_all
        with rest have put: "?put x w (dr_content w) s = (r, t)" by simp
        have "shows_item E d (ch_item c) = Some (ch_after c)"
          if "holds_data (map_option (\<lambda>(b, n). (b, n, dr_mode w)) (dr_content w)) (lookup_file (parts p) d)" for d
          using that new c f by (cases "ch_after c") (auto simp: holds_data_def shows_item_def Let_def change_fits_def split: option.splits)
        with done_at written_replace [OF put h] show ?thesis by blast
      qed
    qed
  qed
qed

lemma write_group_written:
  assumes r: "write_group E (p, cs) s = (r, t)" and E: "codecs_ok E" and h: "reachable (de_target E) (dp_target s)"
    and cs: "cs \<noteq> []" "spread cs" "\<And>x. x \<in> set cs \<Longrightarrow> change_fits x \<and> di_path (ch_item x) = p"
  shows "written E p cs s r t"
proof -
  from cs(1) obtain c ds where c: "cs = c # ds" by (cases cs) auto
  show ?thesis
  proof (cases "fielded (ch_item c)")
    case True
    show ?thesis using write_fields [OF r [unfolded c] E h cs(2) [unfolded c] True] cs(3) c by simp
  next
    case False
    have "ds = []"
    proof (rule ccontr)
      assume "ds \<noteq> []"
      then obtain x where "x \<in> set ds" by (cases ds) auto
      with cs c False show False by (auto simp: list_all_iff beside_def)
    qed
    with write_whole [of E p c s r t] r c h False cs(3) [of c] show ?thesis by simp
  qed
qed

section \<open>Writing all files\<close>

lemma split_on_inj: "split_on c xs = split_on c ys \<Longrightarrow> xs = ys"
proof (induction xs arbitrary: ys)
  case Nil
  then show ?case by (cases ys) (auto simp: eq_commute [of "[]"] split: if_splits list.splits)
next
  case (Cons x xs)
  show ?case
  proof (cases ys)
    case Nil
    with Cons.prems show ?thesis by (auto simp: eq_commute [of "[]"] split: if_splits list.splits)
  next
    case (Cons y zs)
    obtain p ps where p: "split_on c xs = p # ps" by (cases "split_on c xs") auto
    obtain q qs where q: "split_on c zs = q # qs" by (cases "split_on c zs") auto
    have "split_on c xs = split_on c zs \<and> x = y"
      using Cons.prems p q Cons by (auto split: if_splits)
    with Cons.IH Cons show ?thesis by blast
  qed
qed

lemma parts_inj: "parts p = parts q \<Longrightarrow> p = q"
  unfolding parts_def by (rule split_on_inj)

definition path_of_change :: "'c change \<Rightarrow> string" where
  "path_of_change c = di_path (ch_item c)"

definition group_of :: "string \<Rightarrow> 'c change list \<Rightarrow> 'c change list" where
  "group_of p cs = filter (\<lambda>c. path_of_change c = p) cs"

lemma group_of_mem [simp]: "c \<in> set (group_of p cs) \<longleftrightarrow> c \<in> set cs \<and> path_of_change c = p"
  by (auto simp: group_of_def)

text \<open>Everything of the files of these changes that is not managed keeps its value.\<close>

definition rest_kept :: "'c deploy_env \<Rightarrow> 'c change list \<Rightarrow> 'c disk \<Rightarrow> 'c disk \<Rightarrow> bool" where
  "rest_kept E cs d e \<longleftrightarrow>
     (\<forall>q. q \<notin> parts ` path_of_change ` set cs \<longrightarrow> lookup_file q e = lookup_file q d) \<and>
     (\<forall>c\<in>set cs. fielded (ch_item c) \<longrightarrow>
       (\<forall>doc. document_of E (di_codec (ch_item c)) (lookup_file (parts (path_of_change c)) d) = Some doc \<longrightarrow>
         (\<exists>doc'. document_of E (di_codec (ch_item c)) (lookup_file (parts (path_of_change c)) e) = Some doc' \<and>
           (\<forall>qs. (\<forall>x\<in>set cs. path_of_change x = path_of_change c \<longrightarrow> \<not> prefix_of (selects (ch_item x)) qs) \<longrightarrow> leaf qs doc' = leaf qs doc))))"

definition all_shown :: "'c deploy_env \<Rightarrow> ('c change \<Rightarrow> 'c shown) \<Rightarrow> 'c change list \<Rightarrow> 'c disk \<Rightarrow> bool" where
  "all_shown E v cs d \<longleftrightarrow> (\<forall>c\<in>set cs. shows_item E d (ch_item c) = Some (v c))"

lemma rest_kept_refl [simp]: "rest_kept E cs d d"
  by (auto simp: rest_kept_def)

lemma rest_kept_trans: "rest_kept E cs a b \<Longrightarrow> rest_kept E cs b c \<Longrightarrow> rest_kept E cs a c"
  unfolding rest_kept_def by (intro conjI allI impI ballI) (metis | (elim conjE, meson))+

text \<open>One file of many.\<close>

definition moved :: "'c deploy_env \<Rightarrow> 'c change list \<Rightarrow> string list \<Rightarrow> 'c deploy \<Rightarrow> store_error + unit \<Rightarrow> 'c deploy \<Rightarrow> bool" where
  "moved E cs ps s r t \<longleftrightarrow>
     dp_state t = dp_state s \<and> reachable (de_target E) (dp_target t) \<and> rest_kept E cs (dp_target s) (dp_target t) \<and>
     (\<forall>p. p \<notin> set ps \<longrightarrow> lookup_file (parts p) (dp_target t) = lookup_file (parts p) (dp_target s)) \<and>
     (\<forall>p. lookup_file (parts p) (dp_target t) = lookup_file (parts p) (dp_target s) \<or> all_shown E ch_after (group_of p cs) (dp_target t)) \<and>
     (r = Inr () \<longrightarrow> (\<forall>p\<in>set ps. all_shown E ch_after (group_of p cs) (dp_target t)))"

lemma shows_item_cong: "lookup_file (parts (di_path it)) e = lookup_file (parts (di_path it)) d \<Longrightarrow> shows_item E e it = shows_item E d it"
  by (simp add: shows_item_def)

lemma all_shown_cong:
  "lookup_file (parts p) e = lookup_file (parts p) d \<Longrightarrow> all_shown E v (group_of p cs) e = all_shown E v (group_of p cs) d"
  unfolding all_shown_def path_of_change_def group_of_def by (auto simp: shows_item_cong [of _ e d])

lemma written_moved:
  assumes w: "written E p (group_of p cs) s r t" and p: "p \<in> path_of_change ` set cs"
  shows "moved E cs [p] s r t"
proof -
  let ?d = "dp_target s" and ?e = "dp_target t"
  have other: "lookup_file q ?e = lookup_file q ?d" if "q \<noteq> parts p" for q using w that by (simp add: written_def)
  have kept: "\<exists>doc'. document_of E (di_codec (ch_item c)) (lookup_file (parts (path_of_change c)) ?e) = Some doc' \<and>
      (\<forall>qs. (\<forall>x\<in>set cs. path_of_change x = path_of_change c \<longrightarrow> \<not> prefix_of (selects (ch_item x)) qs) \<longrightarrow> leaf qs doc' = leaf qs doc)"
    if c: "c \<in> set cs" "fielded (ch_item c)"
      and doc: "document_of E (di_codec (ch_item c)) (lookup_file (parts (path_of_change c)) ?d) = Some doc" for c doc
  proof (cases "lookup_file (parts (path_of_change c)) ?e = lookup_file (parts (path_of_change c)) ?d")
    case True
    with doc show ?thesis by auto
  next
    case False
    with other have "parts (path_of_change c) = parts p" by blast
    then have cp: "path_of_change c = p" by (rule parts_inj)
    with False w have "group_done E (group_of p cs) ?d ?e" by (auto simp: written_def)
    with c cp doc show ?thesis by (fastforce simp: group_done_def path_of_change_def)
  qed
  have "rest_kept E cs ?d ?e"
    unfolding rest_kept_def using other p kept by blast
  moreover have "all_shown E ch_after (group_of p cs) ?e" if "group_done E (group_of p cs) ?d ?e"
    using that by (simp add: group_done_def all_shown_def)
  ultimately show ?thesis
    using w other unfolding moved_def written_def by (metis list.set_intros(1) parts_inj set_ConsD singletonD list.set(1) empty_iff)
qed

lemma moved_trans:
  assumes a: "moved E cs [p] s (Inr ()) t" and b: "moved E cs ps t r u" and p: "p \<notin> set ps"
  shows "moved E cs (p # ps) s r u"
proof -
  have same: "lookup_file (parts p) (dp_target u) = lookup_file (parts p) (dp_target t)" using b p by (simp add: moved_def)
  have "all_shown E ch_after (group_of p cs) (dp_target u)" using a all_shown_cong [OF same] by (simp add: moved_def)
  moreover have "lookup_file (parts q) (dp_target u) = lookup_file (parts q) (dp_target s) \<or> all_shown E ch_after (group_of q cs) (dp_target u)" for q
  proof (cases "q = p")
    case False
    then have "lookup_file (parts q) (dp_target t) = lookup_file (parts q) (dp_target s)" using a by (simp add: moved_def)
    with b show ?thesis by (metis moved_def)
  qed (use calculation in simp)
  moreover have "rest_kept E cs (dp_target s) (dp_target u)" using a b by (auto simp: moved_def intro: rest_kept_trans)
  ultimately show ?thesis using a b by (auto simp: moved_def)
qed

lemma moved_stop: "moved E cs [p] s (Inl e) t \<Longrightarrow> moved E cs (p # ps) s (Inl e) t"
  by (auto simp: moved_def)

lemma write_groups_moved:
  assumes "write_groups E (map (\<lambda>p. (p, group_of p cs)) ps) s = (r, t)" "codecs_ok E" "reachable (de_target E) (dp_target s)"
    and "spread cs" "\<And>c. c \<in> set cs \<Longrightarrow> change_fits c" "set ps \<subseteq> path_of_change ` set cs" "distinct ps"
  shows "moved E cs ps s r t"
  using assms
proof (induction ps arbitrary: s)
  case Nil
  then show ?case by (simp add: moved_def returnS_eq)
next
  case (Cons p ps)
  obtain r1 u where one: "write_group E (p, group_of p cs) s = (r1, u)" by fastforce
  have "written E p (group_of p cs) s r1 u"
  proof (rule write_group_written [OF one Cons.prems(2,3)])
    show "group_of p cs \<noteq> []" using Cons.prems(6) by (auto simp: group_of_def filter_empty_conv)
    show "spread (group_of p cs)" unfolding group_of_def by (rule spread_filter [OF Cons.prems(4)])
  qed (use Cons.prems(5) in \<open>auto simp: path_of_change_def\<close>)
  then have m: "moved E cs [p] s r1 u" by (rule written_moved) (use Cons.prems(6) in auto)
  show ?case
  proof (cases r1)
    case (Inl e)
    with one Cons.prems(1) have "r = Inl e" "t = u" by (auto simp: bindS_def)
    with m Inl moved_stop show ?thesis by blast
  next
    case (Inr x)
    with one Cons.prems(1) have "write_groups E (map (\<lambda>p. (p, group_of p cs)) ps) u = (r, t)" by (simp add: bindS_def)
    then have "moved E cs ps u r t"
      by (rule Cons.IH) (use Cons.prems m in \<open>auto simp: moved_def\<close>)
    with m Inr Cons.prems(7) show ?thesis by (auto intro: moved_trans)
  qed
qed

lemma set_firsts [simp]: "set (firsts xs) = set xs" "distinct (firsts xs)"
  by (simp_all add: firsts_def)

definition directed :: "bool \<Rightarrow> 'c change list \<Rightarrow> 'c change list" where
  "directed back cs = (if back then map reverse_change cs else cs)"

lemma write_changes_moved:
  assumes r: "write_changes E back cs s = (r, t)" and E: "codecs_ok E" and h: "reachable (de_target E) (dp_target s)"
    and cs: "spread (directed back cs)" "\<And>c. c \<in> set (directed back cs) \<Longrightarrow> change_fits c"
  shows "moved E (directed back cs) (map path_of_change cs) s r t"
proof (cases "list_all validate_change cs")
  case False
  with r have "r = Inl Store_Conflict" "t = s" by (auto simp: write_changes_def bindS_def ensureS_def)
  with h show ?thesis by (simp add: moved_def)
next
  case True
  have paths: "path_of_change (reverse_change c) = path_of_change c" for c :: "'a change"
    by (simp add: path_of_change_def reverse_change_def)
  have set: "path_of_change ` set (directed back cs) = set (map path_of_change cs)"
    by (auto simp: directed_def image_image paths)
  have "write_groups E (map (\<lambda>p. (p, group_of p (directed back cs))) (firsts (map path_of_change (directed back cs)))) s = (r, t)"
    using r True by (simp add: write_changes_def bindS_def ensureS_def by_path_def directed_def group_of_def path_of_change_def [abs_def])
  from write_groups_moved [OF this E h cs] set
  have "moved E (directed back cs) (firsts (map path_of_change (directed back cs))) s r t" by simp
  then show ?thesis using set by (simp add: moved_def)
qed

end
