(* ===== verification/Deploy_Safety.thy ===== *)
theory Deploy_Safety
  imports Deploy_Files Triples
begin

text \<open>
  A deployment is atomic: wherever its transaction breaks, and however often the recovery breaks as
  well, once no pending record is left the state file and every managed item agree on the old or on
  the new version, and what is not managed never changed.
\<close>

section \<open>Forth and back\<close>

lemma selects_guard [simp]: "selects (it\<lparr>di_guard := g\<rparr>) = selects it" "fielded (it\<lparr>di_guard := g\<rparr>) = fielded it"
  by (simp_all add: selects_def selector_text_def fielded_def)

lemma shown_in_guard [simp]: "shown_in doc (it\<lparr>di_guard := g\<rparr>) = shown_in doc it"
  by (simp add: shown_in_def)

lemma reverse_place [simp]:
  "path_of_change (reverse_change c) = path_of_change c" "selects (ch_item (reverse_change c)) = selects (ch_item c)"
  "fielded (ch_item (reverse_change c)) = fielded (ch_item c)" "di_codec (ch_item (reverse_change c)) = di_codec (ch_item c)"
  "shows_item E d (ch_item (reverse_change c)) = shows_item E d (ch_item c)" "ch_after (reverse_change c) = ch_before c"
  by (simp_all add: path_of_change_def reverse_change_def shows_item_def Let_def split: option.split)

lemma reverse_fits [simp]: "change_fits (reverse_change c) = change_fits c"
proof -
  have "parents_above (reverse_change c) = parents_above c" by (simp add: parents_above_def) (simp add: reverse_change_def)
  moreover have "selector_text (ch_item (reverse_change c)) = selector_text (ch_item c)" by (simp add: reverse_change_def selector_text_def)
  ultimately show ?thesis by (auto simp: change_fits_def Let_def) (auto simp: reverse_change_def)
qed

lemma reverse_beside [simp]: "beside (reverse_change c) (reverse_change d) = beside c d"
  by (simp add: beside_def path_of_change_def [symmetric])

lemma directed_fits:
  "spread (directed bk cs) = spread cs" "(\<forall>c\<in>set (directed bk cs). change_fits c) = (\<forall>c\<in>set cs. change_fits c)"
proof -
  have "spread (map reverse_change cs) = spread cs" by (induction cs) (simp_all add: list_all_iff)
  then show "spread (directed bk cs) = spread cs" by (simp add: directed_def)
  show "(\<forall>c\<in>set (directed bk cs). change_fits c) = (\<forall>c\<in>set cs. change_fits c)" by (simp add: directed_def)
qed

lemma group_of_reverse: "group_of p (map reverse_change cs) = map reverse_change (group_of p cs)"
  by (simp add: group_of_def filter_map comp_def)

lemma shown_directed: "all_shown E ch_after (group_of p (directed bk cs)) d = all_shown E (if bk then ch_before else ch_after) (group_of p cs) d"
  by (simp add: directed_def group_of_reverse all_shown_def del: group_of_mem)

lemma rest_kept_directed: "rest_kept E (directed bk cs) d e = rest_kept E cs d e"
  by (simp add: directed_def rest_kept_def image_image)

section \<open>The transaction\<close>

record 'c deal =
  dl_changes :: "'c change list"
  dl_new :: "'c saved"
  dl_prepare :: bool
  dl_target :: "'c disk"
  dl_file :: "'c state_body stored option"

definition deal_ok :: "'c deploy_env \<Rightarrow> 'c deal \<Rightarrow> bool" where
  "deal_ok E X \<longleftrightarrow> codecs_ok E \<and> spread (dl_changes X) \<and> (\<forall>c\<in>set (dl_changes X). change_fits c)"

text \<open>What a state file says, when it is in order.\<close>

definition saved_at :: "'c state_body stored option \<Rightarrow> 'c saved option" where
  "saved_at f =
     (case f of
        None \<Rightarrow> Some blank_saved
      | Some x \<Rightarrow>
          if fmode x \<noteq> 384 then None
          else (case body x of
                  Saved_Body st \<Rightarrow> if validate_saved_state (normalize_state st) then Some (normalize_state st) else None
                | _ \<Rightarrow> None))"

definition new_file :: "'c deal \<Rightarrow> 'c state_body stored option \<Rightarrow> bool" where
  "new_file X f \<longleftrightarrow> (\<exists>x. f = Some x \<and> body x = Saved_Body (dl_new X) \<and> fmode x = 384)"

text \<open>A deal that changes something changes the state.\<close>

definition deal_moves :: "'c deal \<Rightarrow> bool" where
  "deal_moves X \<longleftrightarrow> (dl_changes X \<noteq> [] \<longrightarrow> saved_at (dl_file X) \<noteq> Some (normalize_state (dl_new X)))"

definition record_of :: "'c deal \<Rightarrow> 'c deploy_pending" where
  "record_of X = \<lparr>pn_after = dl_new X, pn_changes = dl_changes X, pn_prepare = dl_prepare X\<rparr>"

definition in_step :: "'c deploy_env \<Rightarrow> 'c deal \<Rightarrow> 'c disk \<Rightarrow> bool" where
  "in_step E X d \<longleftrightarrow> reachable (de_target E) d \<and> rest_kept E (dl_changes X) (dl_target X) d \<and>
     (\<forall>p. all_shown E ch_before (group_of p (dl_changes X)) d \<or> all_shown E ch_after (group_of p (dl_changes X)) d)"

abbreviation state_file :: "'c deploy \<Rightarrow> 'c state_body stored option" where
  "state_file s \<equiv> lookup_file deployment_file (dp_state s)"

abbreviation pending_at :: "'c deploy \<Rightarrow> 'c state_body stored option" where
  "pending_at s \<equiv> lookup_file pending_file (dp_state s)"

definition settled_deal :: "'c deploy_env \<Rightarrow> 'c deal \<Rightarrow> 'c deploy \<Rightarrow> bool" where
  "settled_deal E X s \<longleftrightarrow>
     state_file s = dl_file X \<and> all_shown E ch_before (dl_changes X) (dp_target s) \<or>
     new_file X (state_file s) \<and> all_shown E ch_after (dl_changes X) (dp_target s)"

definition deploy_safe :: "'c deploy_env \<Rightarrow> 'c deal \<Rightarrow> 'c deploy \<Rightarrow> bool" where
  "deploy_safe E X s \<longleftrightarrow> in_step E X (dp_target s) \<and> reachable (de_state E) (dp_state s) \<and>
     (state_file s = dl_file X \<or> new_file X (state_file s) \<and> all_shown E ch_after (dl_changes X) (dp_target s)) \<and>
     (case pending_at s of None \<Rightarrow> settled_deal E X s | Some f \<Rightarrow> body f = Pending_Body (record_of X))"

lemma all_shown_groups: "all_shown E v cs d \<longleftrightarrow> (\<forall>p\<in>set (map path_of_change cs). all_shown E v (group_of p cs) d)"
  by (auto simp: all_shown_def)

lemma in_step_moved:
  assumes "in_step E X (dp_target s)" "moved E (directed bk (dl_changes X)) ps s r t"
  shows "in_step E X (dp_target t)"
proof -
  let ?cs = "dl_changes X"
  have "all_shown E ch_before (group_of p ?cs) (dp_target t) \<or> all_shown E ch_after (group_of p ?cs) (dp_target t)" for p
  proof (cases "lookup_file (parts p) (dp_target t) = lookup_file (parts p) (dp_target s)")
    case True
    with assms(1) all_shown_cong [OF True] show ?thesis by (simp add: in_step_def)
  next
    case False
    with assms(2) have "all_shown E (if bk then ch_before else ch_after) (group_of p ?cs) (dp_target t)"
      by (auto simp: moved_def shown_directed)
    then show ?thesis by (cases bk) auto
  qed
  with assms show ?thesis by (auto simp: in_step_def moved_def rest_kept_directed intro: rest_kept_trans)
qed

lemma moved_all:
  "moved E (directed bk cs) (map path_of_change cs) s (Inr ()) t \<Longrightarrow> all_shown E (if bk then ch_before else ch_after) cs (dp_target t)"
  unfolding all_shown_groups [of _ _ cs] moved_def shown_directed by blast

section \<open>Its operations\<close>

lemma triple_keeps: "keeps P m \<Longrightarrow> triple P m (\<lambda>_. P) P"
  by (rule tripleI) (auto dest: keepsD)

lemma triple_on_state:
  assumes "\<And>s r d. P s \<Longrightarrow> m (dp_state s) = (r, d) \<Longrightarrow>
    (case r of Inl e \<Rightarrow> N (s\<lparr>dp_state := d\<rparr>) | Inr x \<Rightarrow> Q x (s\<lparr>dp_state := d\<rparr>))"
  shows "triple P (on_state m) Q N"
  unfolding triple_def
proof (intro allI impI)
  fix s assume "P s"
  obtain r d where "m (dp_state s) = (r, d)" by fastforce
  with assms [OF \<open>P s\<close> this] show "case on_state m s of (Inl e, t) \<Rightarrow> N t | (Inr x, t) \<Rightarrow> Q x t"
    by (simp add: on_state_def split: sum.splits)
qed

lemma deploy_dp_state [simp]: "s\<lparr>dp_state := dp_state s\<rparr> = s" "s\<lparr>dp_target := dp_target s\<rparr> = s"
  by (cases s; simp)+

lemma read_deployment_saved:
  assumes "read_deployment E s = (r, t)" "reachable (de_state E) (dp_state s)"
  shows "t = s \<and> (\<forall>st. r = Inr st \<longrightarrow> saved_at (state_file s) = Some st)"
proof -
  obtain a d where a: "tree_read (de_state E) deployment_file None (dp_state s) = (a, d)" by fastforce
  then have d: "d = dp_state s" by (rule read_keeps_disk)
  show ?thesis
  proof (cases a)
    case (Inl e)
    with a d assms(1) show ?thesis by (auto simp: read_deployment_def on_state_def bindS_def)
  next
    case (Inr x)
    show ?thesis
    proof (cases x)
      case None
      with a d assms Inr read_nothing [OF assms(2)] show ?thesis
        by (auto simp: read_deployment_def on_state_def bindS_def returnS_eq saved_at_def)
    next
      case (Some y)
      obtain b m i where y: "y = (b, m, i)" by (cases y)
      from tree_read_Some [of "de_state E" deployment_file None "dp_state s" b m i d] a Inr Some y
      obtain f where f: "state_file s = Some f" "b = body f" "m = fmode f" by blast
      from assms(1) a d Inr Some y
      have "(bindS (ensureS (m = 384) Store_Conflict) (\<lambda>_. case b of
           Saved_Body st \<Rightarrow> bindS (ensureS (validate_saved_state (normalize_state st)) Store_Conflict) (\<lambda>_. returnS (normalize_state st))
         | _ \<Rightarrow> raiseS Store_Conflict)) s = (r, t)"
        by (simp add: read_deployment_def on_state_def bindS_def)
      then show ?thesis
        by (auto simp: bindS_def ensureS_def ensure_def returnS_def raiseS_def saved_at_def f split: state_body.splits if_splits)
    qed
  qed
qed

lemma triple_read_deployment:
  assumes "\<And>s. P s \<Longrightarrow> reachable (de_state E) (dp_state s)"
  shows "triple P (read_deployment E) (\<lambda>st s. P s \<and> saved_at (state_file s) = Some st) P"
  by (rule tripleI) (use read_deployment_saved assms in blast)+

lemma keeps_read_deployment [preserved]: "keeps P (read_deployment E)"
proof -
  have "keeps P (on_state (tree_read h p m))" for h p and m :: "nat option"
    by (auto simp: keeps_def on_state_def split: prod.splits dest: read_keeps_disk)
  then show ?thesis
    unfolding read_deployment_def by (intro keeps_bindS keeps_option) (auto split: prod.splits state_body.splits intro!: preserved)
qed

lemma keeps_each_item: "(\<And>x. keeps P (f x)) \<Longrightarrow> keeps P (each_item f xs)"
  by (induction xs) (simp_all add: preserved)

lemma keeps_validate_targets [preserved]: "keeps P (validate_reference_targets E sts cs)"
  unfolding validate_reference_targets_def by (intro preserved keeps_each_item)

definition quiet :: "'c preparation \<Rightarrow> bool" where
  "quiet prep \<longleftrightarrow> (\<forall>f la s. prep = Some f \<longrightarrow> snd (f la s) = s)"

lemma keeps_prepare: "quiet prep \<Longrightarrow> keeps P (prepare_current prep st)"
  by (auto simp: keeps_def prepare_current_def quiet_def returnS_def split: option.split)

lemma triple_kept: "keeps P m \<Longrightarrow> (\<And>s. P s \<Longrightarrow> N s) \<Longrightarrow> triple P m (\<lambda>_. P) N"
  by (rule tripleI) (auto dest: keepsD)

lemma triple_mapError: "triple P m Q N \<Longrightarrow> triple P (mapErrorS h m) Q N"
  by (rule tripleI) (auto simp: mapErrorS_def split: prod.splits sum.splits dest: triple_Inl triple_Inr)

lemma directed_fit: "c \<in> set (directed bk cs) \<Longrightarrow> \<forall>c\<in>set cs. change_fits c \<Longrightarrow> change_fits c"
  by (auto simp: directed_def split: if_splits)

text \<open>What a step keeps that the tree of the target does not concern.\<close>

lemma deploy_safe_target:
  assumes "deploy_safe E X s" "dp_state t = dp_state s" "in_step E X (dp_target t)" "state_file s = dl_file X" "pending_at s = Some f"
  shows "deploy_safe E X t"
  using assms by (simp add: deploy_safe_def)

lemma new_file_saved: "new_file X f \<Longrightarrow> saved_at f = Some st \<Longrightarrow> st = normalize_state (dl_new X)"
  by (auto simp: new_file_def saved_at_def split: if_splits)

section \<open>Recovery\<close>

definition safe_at :: "'c deploy_env \<Rightarrow> 'c deal \<Rightarrow> 'c state_body stored option \<Rightarrow> 'c deploy \<Rightarrow> bool" where
  "safe_at E X f s \<longleftrightarrow> deploy_safe E X s \<and> state_file s = f"

definition open_at :: "'c deploy_env \<Rightarrow> 'c deal \<Rightarrow> 'c state_body stored option \<Rightarrow> 'c deploy \<Rightarrow> bool" where
  "open_at E X f s \<longleftrightarrow> safe_at E X f s \<and> pending_at s \<noteq> None"

lemma triple_read_pending:
  "triple (safe_at E X f) (on_state (tree_read (de_state E) pending_file None))
     (\<lambda>raw s. safe_at E X f s \<and> (case raw of None \<Rightarrow> pending_at s = None
        | Some (b, m, i) \<Rightarrow> pending_at s \<noteq> None \<and> b = Pending_Body (record_of X))) (safe_at E X f)"
proof (rule triple_on_state)
  fix s r d assume s: "safe_at E X f s" and r: "tree_read (de_state E) pending_file None (dp_state s) = (r, d)"
  then have d: "d = dp_state s" by (rule_tac read_keeps_disk)
  show "case r of Inl e \<Rightarrow> safe_at E X f (s\<lparr>dp_state := d\<rparr>)
    | Inr x \<Rightarrow> safe_at E X f (s\<lparr>dp_state := d\<rparr>) \<and> (case x of None \<Rightarrow> pending_at (s\<lparr>dp_state := d\<rparr>) = None
        | Some (b, m, i) \<Rightarrow> pending_at (s\<lparr>dp_state := d\<rparr>) \<noteq> None \<and> b = Pending_Body (record_of X))"
  proof (cases r)
    case (Inr x)
    show ?thesis
    proof (cases x)
      case None
      with Inr r s d read_nothing [of "de_state E" "dp_state s" pending_file None d] show ?thesis
        by (auto simp: safe_at_def deploy_safe_def)
    next
      case (Some y)
      obtain b m i where y: "y = (b, m, i)" by (cases y)
      with tree_read_Some [of "de_state E" pending_file None "dp_state s" b m i d] r Inr Some
      obtain g where "pending_at s = Some g" "b = body g" by blast
      with s d Inr Some y show ?thesis by (auto simp: safe_at_def deploy_safe_def)
    qed
  qed (use s d in simp)
qed

lemma triple_write_back:
  assumes X: "deal_ok E X"
  shows "triple (\<lambda>s. open_at E X (dl_file X) s) (write_changes E True (dl_changes X))
     (\<lambda>_ s. open_at E X (dl_file X) s \<and> all_shown E ch_before (dl_changes X) (dp_target s)) (safe_at E X (dl_file X))"
proof (rule tripleI)
  let ?cs = "dl_changes X"
  have m: "moved E (directed True ?cs) (map path_of_change ?cs) s r t" "open_at E X (dl_file X) t"
    if s: "open_at E X (dl_file X) s" and r: "write_changes E True ?cs s = (r, t)" for s r t
  proof -
    show m: "moved E (directed True ?cs) (map path_of_change ?cs) s r t"
      by (rule write_changes_moved [OF r]) (use s X in \<open>auto simp: deal_ok_def open_at_def safe_at_def deploy_safe_def in_step_def directed_fits(1) dest: directed_fit\<close>)
    with s have i: "in_step E X (dp_target t)" by (auto simp: open_at_def safe_at_def deploy_safe_def intro: in_step_moved)
    from m have k: "dp_state t = dp_state s" by (simp add: moved_def)
    from s obtain g where "pending_at s = Some g" by (auto simp: open_at_def)
    with s deploy_safe_target [of E X s t g] i k show "open_at E X (dl_file X) t"
      by (simp add: open_at_def safe_at_def)
  qed
  show "safe_at E X (dl_file X) t" if "open_at E X (dl_file X) s" "write_changes E True ?cs s = (Inl e, t)" for s e t
    using m(2) [OF that] by (simp add: open_at_def)
  show "open_at E X (dl_file X) t \<and> all_shown E ch_before ?cs (dp_target t)"
    if "open_at E X (dl_file X) s" "write_changes E True ?cs s = (Inr x, t)" for s x t
    using m [OF that] moved_all [of E True ?cs s t] by simp
qed

lemma triple_read_record:
  "triple (open_at E X f)
     (as_conflict (bindS (ensureS (validate_saved_state (pn_after j) \<and> list_all validate_change (pn_changes j)) Store_Conflict) (\<lambda>_.
       bindS (read_deployment E) (\<lambda>st. returnS (j, st = normalize_state (pn_after j))))))
     (\<lambda>x s. open_at E X f s \<and> fst x = j \<and> (\<exists>st. saved_at f = Some st \<and> snd x = (st = normalize_state (pn_after j)))) (safe_at E X f)"
  unfolding as_conflict_def
proof (rule triple_mapError, rule triple_bind)
  show "triple (open_at E X f) (ensureS (validate_saved_state (pn_after j) \<and> list_all validate_change (pn_changes j)) Store_Conflict)
      (\<lambda>_. open_at E X f) (safe_at E X f)"
    by (rule triple_ensure) (simp_all add: open_at_def)
next
  fix x :: unit
  show "triple (open_at E X f) (bindS (read_deployment E) (\<lambda>st. returnS (j, st = normalize_state (pn_after j))))
      (\<lambda>x s. open_at E X f s \<and> fst x = j \<and> (\<exists>st. saved_at f = Some st \<and> snd x = (st = normalize_state (pn_after j)))) (safe_at E X f)"
  proof (rule triple_bind)
    show "triple (open_at E X f) (read_deployment E) (\<lambda>st s. open_at E X f s \<and> saved_at (state_file s) = Some st) (safe_at E X f)"
      by (rule triple_weaken [OF triple_read_deployment [of "open_at E X f"]]) (auto simp: open_at_def safe_at_def deploy_safe_def)
  next
    fix st
    show "triple (\<lambda>s. open_at E X f s \<and> saved_at (state_file s) = Some st) (returnS (j, st = normalize_state (pn_after j)))
      (\<lambda>x s. open_at E X f s \<and> fst x = j \<and> (\<exists>st. saved_at f = Some st \<and> snd x = (st = normalize_state (pn_after j)))) (safe_at E X f)"
      by (rule triple_return) (auto simp: open_at_def safe_at_def)
  qed
qed

lemma triple_restore:
  assumes X: "deal_ok E X" "deal_moves X" and f: "saved_at f = Some st" and c: "c = (st = normalize_state (dl_new X))"
  shows "triple (open_at E X f) (if c then returnS () else write_changes E True (dl_changes X))
     (\<lambda>_ s. open_at E X f s \<and> settled_deal E X s) (safe_at E X f)"
proof (rule triple_if)
  assume "c"
  with f c X(2) have "f = dl_file X \<Longrightarrow> dl_changes X = []" by (auto simp: deal_moves_def)
  then show "triple (open_at E X f) (returnS ()) (\<lambda>_ s. open_at E X f s \<and> settled_deal E X s) (safe_at E X f)"
    by (intro triple_return) (auto simp: open_at_def safe_at_def deploy_safe_def settled_deal_def all_shown_def)
next
  assume n: "\<not> c"
  have old: "f = dl_file X" if "open_at E X f s" for s
    using that n c f new_file_saved [of X f st] by (auto simp: open_at_def safe_at_def deploy_safe_def)
  show "triple (open_at E X f) (write_changes E True (dl_changes X)) (\<lambda>_ s. open_at E X f s \<and> settled_deal E X s) (safe_at E X f)"
  proof (rule triple_fact [of "f = dl_file X"])
    assume "f = dl_file X"
    then show "triple (open_at E X f) (write_changes E True (dl_changes X)) (\<lambda>_ s. open_at E X f s \<and> settled_deal E X s) (safe_at E X f)"
      by (auto intro!: triple_weaken [OF triple_write_back [OF X(1)]] simp: open_at_def safe_at_def settled_deal_def)
  qed (rule old)
qed

lemma triple_drop_record:
  "triple (\<lambda>s. open_at E X f s \<and> settled_deal E X s) (on_state (tree_replace (\<lambda>d. d) (de_state E) pending_file None ex))
     (\<lambda>_ s. safe_at E X f s \<and> pending_at s = None) (safe_at E X f)"
proof (rule triple_on_state)
  fix s r d assume s: "open_at E X f s \<and> settled_deal E X s" and r: "tree_replace (\<lambda>d. d) (de_state E) pending_file None ex (dp_state s) = (r, d)"
  from s have h: "reachable (de_state E) (dp_state s)" by (simp add: open_at_def safe_at_def deploy_safe_def)
  let ?t = "s\<lparr>dp_state := d\<rparr>"
  have f: "state_file ?t = state_file s"
    using replace_effect(2) [OF r h, of deployment_file] by (simp add: deployment_file_def pending_file_def)
  then have "settled_deal E X ?t" using s by (simp add: settled_deal_def)
  moreover have "pending_at ?t = pending_at s \<or> pending_at ?t = None"
    using replace_effect(3) [OF r h] by (auto simp: holds_data_def)
  ultimately have "safe_at E X f ?t" using s f replace_effect(1) [OF r h]
    by (auto simp: open_at_def safe_at_def deploy_safe_def)
  moreover have "r = Inr () \<Longrightarrow> pending_at ?t = None" using replace_effect(4) [OF r h] by (simp add: holds_data_def)
  ultimately show "case r of Inl e \<Rightarrow> safe_at E X f ?t | Inr x \<Rightarrow> safe_at E X f ?t \<and> pending_at ?t = None"
    by (cases r) simp_all
qed

lemma triple_recover_deal:
  assumes X: "deal_ok E X" "deal_moves X" and prep: "quiet prep"
  shows "triple (safe_at E X f) (recover_deployment E prep) (\<lambda>_ s. safe_at E X f s \<and> pending_at s = None) (safe_at E X f)"
proof -
  let ?n = "safe_at E X f" and ?j = "record_of X"
  let ?Q = "\<lambda>(_::bool) s. safe_at E X f s \<and> pending_at s = None"
  have changes: "pn_changes ?j = dl_changes X" by (simp add: record_of_def)
  have safe: "open_at E X f s \<Longrightarrow> safe_at E X f s" for s by (simp add: open_at_def)
  have ready: "triple (open_at E X f)
     (bindS (read_deployment E) (\<lambda>st.
      bindS (validate_reference_targets E [st, pn_after ?j] (pn_changes ?j)) (\<lambda>_.
      bindS (ensureS (\<not> (pn_prepare ?j \<and> prep = None)) Store_Conflict) (\<lambda>_.
      bindS (if c then returnS () else write_changes E True (pn_changes ?j)) (\<lambda>_.
      bindS (if pn_prepare ?j then bindS (read_deployment E) (prepare_current prep) else returnS ()) (\<lambda>_.
      bindS (on_state (tree_replace (\<lambda>d. d) (de_state E) pending_file None (Some i))) (\<lambda>_.
      returnS True))))))) ?Q ?n"
    if c: "saved_at f = Some st" "c = (st = normalize_state (dl_new X))" for c st i
  proof (intro triple_bind)
    let ?o = "open_at E X f"
    show "triple ?o (read_deployment E) (\<lambda>_. ?o) ?n" "triple ?o (validate_reference_targets E [x, pn_after ?j] (pn_changes ?j)) (\<lambda>_. ?o) ?n" for x
      by (intro triple_kept keeps_read_deployment keeps_validate_targets safe, assumption)+
    show "triple ?o (ensureS (\<not> (pn_prepare ?j \<and> prep = None)) Store_Conflict) (\<lambda>_. ?o) ?n"
      by (rule triple_ensure) (simp_all add: open_at_def)
    show "triple ?o (if c then returnS () else write_changes E True (pn_changes ?j)) (\<lambda>_ s. ?o s \<and> settled_deal E X s) ?n"
      unfolding changes by (rule triple_restore [OF X c])
    have "keeps P (if pn_prepare ?j then bindS (read_deployment E) (prepare_current prep) else returnS ())" for P :: "'a deploy \<Rightarrow> bool"
      by (intro keeps_if keeps_bindS keeps_read_deployment keeps_prepare prep) (simp add: preserved)
    then show "triple (\<lambda>s. ?o s \<and> settled_deal E X s) (if pn_prepare ?j then bindS (read_deployment E) (prepare_current prep) else returnS ())
      (\<lambda>_ s. ?o s \<and> settled_deal E X s) ?n"
      by (rule triple_kept) (simp add: open_at_def)
    show "triple (\<lambda>s. ?o s \<and> settled_deal E X s) (on_state (tree_replace (\<lambda>d. d) (de_state E) pending_file None (Some i))) (\<lambda>_ s. safe_at E X f s \<and> pending_at s = None) ?n"
      by (rule triple_drop_record)
    show "triple (\<lambda>s. safe_at E X f s \<and> pending_at s = None) (returnS True) ?Q ?n"
      by (rule triple_return) simp
  qed
  show ?thesis
    unfolding recover_deployment_def
  proof (rule triple_bind [OF triple_read_pending])
    fix raw :: "'a state_body read_result"
    let ?P = "\<lambda>s. safe_at E X f s \<and> (case raw of None \<Rightarrow> pending_at s = None
        | Some (b, m, i) \<Rightarrow> pending_at s \<noteq> None \<and> b = Pending_Body ?j)"
    show "triple ?P (case raw of None \<Rightarrow> returnS False | Some (b, m, i) \<Rightarrow>
         bindS (as_conflict (case b of
             Pending_Body j \<Rightarrow>
               bindS (ensureS (validate_saved_state (pn_after j) \<and> list_all validate_change (pn_changes j)) Store_Conflict) (\<lambda>_.
               bindS (read_deployment E) (\<lambda>st. returnS (j, st = normalize_state (pn_after j))))
           | _ \<Rightarrow> raiseS Store_Conflict)) (\<lambda>(j, committed).
         bindS (read_deployment E) (\<lambda>st.
         bindS (validate_reference_targets E [st, pn_after j] (pn_changes j)) (\<lambda>_.
         bindS (ensureS (\<not> (pn_prepare j \<and> prep = None)) Store_Conflict) (\<lambda>_.
         bindS (if committed then returnS () else write_changes E True (pn_changes j)) (\<lambda>_.
         bindS (if pn_prepare j then bindS (read_deployment E) (prepare_current prep) else returnS ()) (\<lambda>_.
         bindS (on_state (tree_replace (\<lambda>d. d) (de_state E) pending_file None (Some i))) (\<lambda>_.
         returnS True)))))))) ?Q ?n"
    proof (cases raw)
      case None
      then show ?thesis by (auto intro: triple_return)
    next
      case (Some y)
      obtain b m i where y: "y = (b, m, i)" by (cases y)
      show ?thesis
      proof (rule triple_fact [of "b = Pending_Body ?j"])
        assume b: "b = Pending_Body ?j"
        show ?thesis
          unfolding Some y b prod.case option.case state_body.case
        proof (rule triple_bind [OF triple_pre [OF triple_read_record]], goal_cases)
          case (1 s)
          then show ?case by (simp add: open_at_def)
        next
          case (2 x)
          obtain j c where x: "x = (j, c)" by (cases x)
          show ?case
            unfolding x prod.case fst_conv snd_conv
          proof (rule triple_fact [of "j = ?j \<and> (\<exists>st. saved_at f = Some st \<and> c = (st = normalize_state (pn_after ?j)))"], goal_cases)
            case 1
            then obtain st where j: "j = ?j" and st: "saved_at f = Some st" "c = (st = normalize_state (dl_new X))"
              by (auto simp: record_of_def)
            show ?case unfolding j by (rule triple_pre [OF ready [OF st]]) simp
          qed auto
        qed
      qed (use Some y in auto)
    qed
  qed
qed

section \<open>The transaction as a whole\<close>

lemma triple_or_recover:
  assumes "triple P m Q N" "\<And>s. N s \<Longrightarrow> R s" "triple N h (\<lambda>_. R) R"
  shows "triple P (or_recover died m h) Q R"
proof (rule tripleI)
  fix s e t assume p: "P s" and r: "or_recover died m h s = (Inl e, t)"
  then obtain e' u where m: "m s = (Inl e', u)" by (auto simp: or_recover_def split: prod.splits sum.splits)
  with assms(1) p have n: "N u" by (rule_tac triple_Inl)
  show "R t"
  proof (cases died)
    case True
    with r m n assms(2) show ?thesis by (simp add: or_recover_def)
  next
    case False
    with r m have b: "bindS h (\<lambda>_. raiseS e') u = (Inl e :: store_error + unit, t)" by (simp add: or_recover_def)
    have "triple N (bindS h (\<lambda>_. raiseS e')) (\<lambda>_::unit. R) R"
      by (rule triple_bind [OF assms(3)], rule triple_raise)
    then show ?thesis using n b by (rule triple_Inl)
  qed
next
  fix s x t assume "P s" "or_recover died m h s = (Inr x, t)"
  then show "Q x t" using triple_Inr [OF assms(1)] by (auto simp: or_recover_def bindS_def raiseS_def split: prod.splits sum.splits if_splits)
qed

text \<open>Before the deal, and after its state file has been written.\<close>

definition deal_fresh :: "'c deploy_env \<Rightarrow> 'c deal \<Rightarrow> 'c deploy \<Rightarrow> bool" where
  "deal_fresh E X s \<longleftrightarrow> safe_at E X (dl_file X) s \<and> pending_at s = None \<and> all_shown E ch_before (dl_changes X) (dp_target s)"

definition deal_done :: "'c deploy_env \<Rightarrow> 'c deal \<Rightarrow> 'c deploy \<Rightarrow> bool" where
  "deal_done E X s \<longleftrightarrow> (\<exists>f. new_file X f \<and> safe_at E X f s)"

lemma triple_write_record:
  "triple (deal_fresh E X) (on_state (write_state (\<lambda>d. d) (de_state E) pending_file (Pending_Body (record_of X), n)))
     (\<lambda>_. open_at E X (dl_file X)) (deploy_safe E X)"
proof (rule triple_on_state)
  fix s r d assume s: "deal_fresh E X s" and r: "write_state (\<lambda>d. d) (de_state E) pending_file (Pending_Body (record_of X), n) (dp_state s) = (r, d)"
  from s have h: "reachable (de_state E) (dp_state s)" by (simp add: deal_fresh_def safe_at_def deploy_safe_def)
  let ?t = "s\<lparr>dp_state := d\<rparr>"
  have f: "state_file ?t = state_file s"
    using write_state_effect(2) [OF r h, of deployment_file] by (simp add: deployment_file_def pending_file_def)
  have same: "state_file ?t = dl_file X" using s f by (simp add: deal_fresh_def safe_at_def)
  have p: "pending_at ?t = None \<or> (\<exists>g. pending_at ?t = Some g \<and> body g = Pending_Body (record_of X))"
    using write_state_effect(3) [OF r h] s by (auto simp: deal_fresh_def holds_data_def split: option.splits)
  have "settled_deal E X ?t" using s same by (simp add: deal_fresh_def settled_deal_def)
  with p have safe: "deploy_safe E X ?t"
    using s same write_state_effect(1) [OF r h] by (auto simp: deal_fresh_def safe_at_def deploy_safe_def)
  moreover have "open_at E X (dl_file X) ?t" if "r = Inr ()"
    using write_state_effect(4) [OF r h that] safe same by (auto simp: open_at_def safe_at_def holds_data_def split: option.splits)
  ultimately show "case r of Inl e \<Rightarrow> deploy_safe E X ?t | Inr x \<Rightarrow> open_at E X (dl_file X) ?t"
    by (cases r) simp_all
qed

lemma triple_write_forth:
  assumes X: "deal_ok E X"
  shows "triple (open_at E X (dl_file X)) (write_changes E False (dl_changes X))
     (\<lambda>_ s. open_at E X (dl_file X) s \<and> all_shown E ch_after (dl_changes X) (dp_target s)) (deploy_safe E X)"
proof (rule tripleI)
  let ?cs = "dl_changes X"
  have m: "moved E (directed False ?cs) (map path_of_change ?cs) s r t" "open_at E X (dl_file X) t"
    if s: "open_at E X (dl_file X) s" and r: "write_changes E False ?cs s = (r, t)" for s r t
  proof -
    show m: "moved E (directed False ?cs) (map path_of_change ?cs) s r t"
      by (rule write_changes_moved [OF r]) (use s X in \<open>auto simp: deal_ok_def open_at_def safe_at_def deploy_safe_def in_step_def directed_fits(1) dest: directed_fit\<close>)
    with s have i: "in_step E X (dp_target t)" by (auto simp: open_at_def safe_at_def deploy_safe_def intro: in_step_moved)
    from m have k: "dp_state t = dp_state s" by (simp add: moved_def)
    from s obtain g where "pending_at s = Some g" by (auto simp: open_at_def)
    with s deploy_safe_target [of E X s t g] i k show "open_at E X (dl_file X) t"
      by (simp add: open_at_def safe_at_def)
  qed
  show "deploy_safe E X t" if "open_at E X (dl_file X) s" "write_changes E False ?cs s = (Inl e, t)" for s e t
    using m(2) [OF that] by (simp add: open_at_def safe_at_def)
  show "open_at E X (dl_file X) t \<and> all_shown E ch_after ?cs (dp_target t)"
    if "open_at E X (dl_file X) s" "write_changes E False ?cs s = (Inr x, t)" for s x t
    using m [OF that] moved_all [of E False ?cs s t] by simp
qed

lemma triple_write_file:
  "triple (\<lambda>s. open_at E X (dl_file X) s \<and> all_shown E ch_after (dl_changes X) (dp_target s))
     (on_state (write_state (\<lambda>d. d) (de_state E) deployment_file (Saved_Body (dl_new X), n)))
     (\<lambda>_. deal_done E X) (deploy_safe E X)"
proof (rule triple_on_state)
  fix s r d assume s: "open_at E X (dl_file X) s \<and> all_shown E ch_after (dl_changes X) (dp_target s)"
    and r: "write_state (\<lambda>d. d) (de_state E) deployment_file (Saved_Body (dl_new X), n) (dp_state s) = (r, d)"
  from s have h: "reachable (de_state E) (dp_state s)" by (simp add: open_at_def safe_at_def deploy_safe_def)
  let ?t = "s\<lparr>dp_state := d\<rparr>"
  have p: "pending_at ?t = pending_at s"
    using write_state_effect(2) [OF r h, of pending_file] by (simp add: deployment_file_def pending_file_def)
  have f: "state_file ?t = dl_file X \<or> new_file X (state_file ?t)"
    using write_state_effect(3) [OF r h] s by (auto simp: open_at_def safe_at_def new_file_def holds_data_def split: option.splits)
  have safe: "deploy_safe E X ?t"
    using s p f write_state_effect(1) [OF r h] by (auto simp: open_at_def safe_at_def deploy_safe_def)
  moreover have "new_file X (state_file ?t)" if "r = Inr ()"
    using write_state_effect(4) [OF r h that] by (auto simp: new_file_def holds_data_def split: option.splits)
  ultimately show "case r of Inl e \<Rightarrow> deploy_safe E X ?t | Inr x \<Rightarrow> deal_done E X ?t"
    by (cases r) (auto simp: deal_done_def safe_at_def)
qed

lemma triple_recover_any:
  assumes X: "deal_ok E X" "deal_moves X" and prep: "quiet prep"
  shows "triple (deploy_safe E X) (recover_deployment E prep) (\<lambda>_. deploy_safe E X) (deploy_safe E X)"
proof (rule triple_given [where f = state_file])
  fix f
  show "triple (\<lambda>s. deploy_safe E X s \<and> state_file s = f) (recover_deployment E prep) (\<lambda>_. deploy_safe E X) (deploy_safe E X)"
    by (rule triple_weaken [OF triple_recover_deal [OF assms, of f]]) (simp_all add: safe_at_def)
qed

lemma triple_transact:
  assumes X: "deal_ok E X" "deal_moves X" and prep: "quiet prep" "dl_prepare X = (prep \<noteq> None)"
  shows "triple (deal_fresh E X) (transact_deployment E died prep old (dl_new X) (dl_changes X))
     (\<lambda>_ s. deal_done E X s \<and> pending_at s = None \<and> validate_saved_state (dl_new X)) (deploy_safe E X)"
proof (rule triple_fact [of True])
  let ?new = "dl_new X" and ?cs = "dl_changes X" and ?n = "deploy_safe E X" and ?ok = "validate_saved_state (dl_new X)"
  have rec: "\<lparr>pn_after = ?new, pn_changes = ?cs, pn_prepare = (prep \<noteq> None)\<rparr> = record_of X"
    using prep(2) by (simp add: record_of_def)
  have fresh: "deal_fresh E X s \<Longrightarrow> ?n s" "open_at E X f s \<Longrightarrow> ?n s" for f s
    by (simp_all add: deal_fresh_def safe_at_def open_at_def)
  have finish: "triple (deal_done E X) (recover_deployment E prep) (\<lambda>_ s. deal_done E X s \<and> pending_at s = None) ?n"
  proof (rule triple_given [where f = state_file])
    fix f
    show "triple (\<lambda>s. deal_done E X s \<and> state_file s = f) (recover_deployment E prep) (\<lambda>_ s. deal_done E X s \<and> pending_at s = None) ?n"
    proof (rule triple_fact [of "new_file X f"])
      assume "new_file X f"
      then show ?thesis
        by (intro triple_weaken [OF triple_recover_deal [OF X prep(1), of f]]) (auto simp: deal_done_def safe_at_def)
    qed (auto simp: deal_done_def safe_at_def)
  qed
  have body: "triple (open_at E X (dl_file X))
      (bindS (prepare_current prep ?new) (\<lambda>_. bindS (write_changes E False ?cs) (\<lambda>_.
        on_state (write_state (\<lambda>d. d) (de_state E) deployment_file (Saved_Body ?new, de_size E (Saved_Body ?new))))))
      (\<lambda>_. deal_done E X) ?n"
    by (intro triple_bind [OF triple_kept [OF keeps_prepare [OF prep(1)]]] triple_bind [OF triple_write_forth [OF X(1)]]
        triple_write_file fresh(2))
  have run: "triple (deal_fresh E X)
     (bindS (on_state (write_state (\<lambda>d. d) (de_state E) pending_file (Pending_Body (record_of X), de_size E (Pending_Body (record_of X))))) (\<lambda>_.
      bindS (or_recover died
       (bindS (prepare_current prep ?new) (\<lambda>_. bindS (write_changes E False ?cs) (\<lambda>_.
        on_state (write_state (\<lambda>d. d) (de_state E) deployment_file (Saved_Body ?new, de_size E (Saved_Body ?new))))))
       (recover_deployment E prep)) (\<lambda>_.
      bindS (recover_deployment E prep) (\<lambda>_. returnS ())))) (\<lambda>_ s. deal_done E X s \<and> pending_at s = None) ?n"
    by (intro triple_bind [OF triple_write_record] triple_bind [OF finish]
        triple_bind [OF triple_or_recover [OF body _ triple_recover_any [OF X prep(1)]]] triple_return)
  have "triple (\<lambda>s. deal_fresh E X s \<and> ?ok) m (\<lambda>_ s. deal_done E X s \<and> pending_at s = None \<and> ?ok) ?n"
    if "triple (deal_fresh E X) m (\<lambda>_ s. deal_done E X s \<and> pending_at s = None) ?n" for m :: "('a, unit) deploying"
    using that by (auto simp: triple_def split: prod.splits sum.splits)
  from this [OF run] show "triple (deal_fresh E X) (transact_deployment E died prep old ?new ?cs)
     (\<lambda>_ s. deal_done E X s \<and> pending_at s = None \<and> ?ok) ?n"
    unfolding transact_deployment_def Let_def rec
    by (intro triple_bind [OF triple_ensure [where Q = "\<lambda>_ s. deal_fresh E X s \<and> ?ok"]]) (auto intro: fresh)
qed simp

section \<open>Many attempts\<close>

text \<open>The next operation meets faults of its own.\<close>

definition new_faults :: "outcome list \<Rightarrow> outcome list \<Rightarrow> 'c deploy \<Rightarrow> 'c deploy" where
  "new_faults q w s = s\<lparr>dp_target := (dp_target s)\<lparr>faults := q\<rparr>, dp_state := (dp_state s)\<lparr>faults := w\<rparr>\<rparr>"

lemma new_faults_simps [simp]:
  "lookup_file p (dp_target (new_faults q w s)) = lookup_file p (dp_target s)"
  "lookup_file p (dp_state (new_faults q w s)) = lookup_file p (dp_state s)"
  "reachable h (dp_target (new_faults q w s)) = reachable h (dp_target s)"
  "reachable h (dp_state (new_faults q w s)) = reachable h (dp_state s)"
  "all_shown E v cs (dp_target (new_faults q w s)) = all_shown E v cs (dp_target s)"
  "rest_kept E cs d (dp_target (new_faults q w s)) = rest_kept E cs d (dp_target s)"
  by (simp_all add: new_faults_def all_shown_def shows_item_def rest_kept_def)

lemma deploy_safe_faults [simp]: "deploy_safe E X (new_faults q w s) = deploy_safe E X s"
proof -
  have "settled_deal E X (new_faults q w s) = settled_deal E X s" by (simp add: settled_deal_def)
  then show ?thesis by (simp add: deploy_safe_def in_step_def split: option.split)
qed

inductive deploy_recoveries :: "'c deploy_env \<Rightarrow> 'c deploy \<Rightarrow> 'c deploy \<Rightarrow> bool" for E where
  none: "deploy_recoveries E s s"
| again: "deploy_recoveries E s t \<Longrightarrow> quiet prep \<Longrightarrow> recover_deployment E prep (new_faults q w t) = (r, u) \<Longrightarrow> deploy_recoveries E s u"

lemma recoveries_safe:
  assumes "deploy_recoveries E s t" "deal_ok E X" "deal_moves X" "deploy_safe E X s"
  shows "deploy_safe E X t"
  using assms
proof (induction rule: deploy_recoveries.induct)
  case (again s t prep q w r u)
  then have safe: "deploy_safe E X (new_faults q w t)" by simp
  note tr = triple_recover_any [OF again.prems(1,2) again.hyps(2)]
  show ?case
    using triple_Inl [OF tr safe] triple_Inr [OF tr safe] again.hyps(3) by (cases r) auto
qed

text \<open>Everything that a transaction relies on.\<close>

definition deployable :: "'c deploy_env \<Rightarrow> 'c saved \<Rightarrow> 'c change list \<Rightarrow> 'c deploy \<Rightarrow> bool" where
  "deployable E new cs s \<longleftrightarrow>
     codecs_ok E \<and> spread cs \<and> list_all change_fits cs \<and>
     (cs \<noteq> [] \<longrightarrow> saved_at (state_file s) \<noteq> Some (normalize_state new)) \<and>
     reachable (de_target E) (dp_target s) \<and> reachable (de_state E) (dp_state s) \<and> pending_at s = None \<and>
     all_shown E ch_before cs (dp_target s)"

definition deal_at :: "'c preparation \<Rightarrow> 'c saved \<Rightarrow> 'c change list \<Rightarrow> 'c deploy \<Rightarrow> 'c deal" where
  "deal_at prep new cs s =
     \<lparr>dl_changes = cs, dl_new = new, dl_prepare = (prep \<noteq> None), dl_target = dp_target s, dl_file = state_file s\<rparr>"

lemma deal_at_simps [simp]:
  "dl_changes (deal_at prep new cs s) = cs" "dl_new (deal_at prep new cs s) = new"
  "dl_prepare (deal_at prep new cs s) = (prep \<noteq> None)" "dl_target (deal_at prep new cs s) = dp_target s"
  "dl_file (deal_at prep new cs s) = state_file s"
  by (simp_all add: deal_at_def)

lemma deployable_deal:
  assumes "deployable E new cs s"
  shows "deal_ok E (deal_at prep new cs s)" "deal_moves (deal_at prep new cs s)" "deal_fresh E (deal_at prep new cs s) s"
  using assms
  by (auto simp: deployable_def deal_ok_def deal_moves_def deal_fresh_def safe_at_def deploy_safe_def in_step_def
      settled_deal_def all_shown_def list_all_iff)

lemma transact_outcome:
  assumes d: "deployable E new cs s" and prep: "quiet prep" and r: "transact_deployment E died prep old new cs s = (r, t)"
  defines "X \<equiv> deal_at prep new cs s"
  shows "deploy_safe E X t" "r = Inr () \<Longrightarrow> deal_done E X t \<and> pending_at t = None \<and> validate_saved_state new"
proof -
  note X = deployable_deal [OF d, of prep, folded X_def]
  have tr: "triple (deal_fresh E X) (transact_deployment E died prep old new cs)
     (\<lambda>_ s. deal_done E X s \<and> pending_at s = None \<and> validate_saved_state new) (deploy_safe E X)"
    using triple_transact [OF X(1,2) prep, of died old] by (simp add: X_def)
  show "r = Inr () \<Longrightarrow> deal_done E X t \<and> pending_at t = None \<and> validate_saved_state new"
    using triple_Inr [OF tr X(3)] r by blast
  show "deploy_safe E X t"
    using triple_Inl [OF tr X(3)] triple_Inr [OF tr X(3)] r by (cases r) (auto simp: deal_done_def safe_at_def)
qed

lemma normalize_owner [simp]: "sv_current (normalize_state st) = sv_current st" "sv_previous (normalize_state st) = sv_previous st"
  by (simp_all add: normalize_state_def split: option.split)

lemma normalize_valid [simp]: "validate_saved_state (normalize_state st) = validate_saved_state st"
  by (simp add: validate_saved_state_def)

text \<open>An acknowledged transaction is complete.\<close>

lemma done_after:
  assumes "deal_done E X t" "pending_at t = None" "deal_moves X" "validate_saved_state (dl_new X)"
  shows "all_shown E ch_after (dl_changes X) (dp_target t) \<and> saved_at (state_file t) = Some (normalize_state (dl_new X))"
proof -
  from assms(1) have new: "new_file X (state_file t)" and safe: "deploy_safe E X t" by (auto simp: deal_done_def safe_at_def)
  from new assms(4) have saved: "saved_at (state_file t) = Some (normalize_state (dl_new X))"
    by (auto simp: new_file_def saved_at_def)
  from safe assms(2) have "settled_deal E X t" by (simp add: deploy_safe_def)
  then have "all_shown E ch_after (dl_changes X) (dp_target t)"
    using saved assms(3) by (auto simp: settled_deal_def deal_moves_def all_shown_def)
  with saved show ?thesis by blast
qed



lemma transact_complete:
  assumes "deployable E new cs s" "quiet prep" "transact_deployment E died prep old new cs s = (Inr (), t)"
  shows "all_shown E ch_after cs (dp_target t) \<and> saved_at (state_file t) = Some (normalize_state new) \<and> pending_at t = None"
proof -
  let ?X = "deal_at prep new cs s"
  from transact_outcome(2) [OF assms refl] have o: "deal_done E ?X t" "pending_at t = None" "validate_saved_state new" by simp_all
  from done_after [OF o(1,2) deployable_deal(2) [OF assms(1)]] o(2,3) show ?thesis by simp
qed

end
