(* ===== verification/Deploy_Plan.thy ===== *)
theory Deploy_Plan
  imports Deploy_Safety
begin

text \<open>
  What a plan changes and what a rollback restores: a plan only takes up a value that is absent or the
  one deployed last, and a rollback gives back the version that the last deployment replaced.
\<close>

section \<open>The plan\<close>

definition last_deployed :: "'c ditem option \<Rightarrow> 'c shown" where
  "last_deployed b = (case b of None \<Rightarrow> Gone | Some x \<Rightarrow> di_value x)"

definition wanted_value :: "'c ditem option \<Rightarrow> 'c shown" where
  "wanted_value w = (case w of None \<Rightarrow> Gone | Some x \<Rightarrow> di_value x)"

lemma compare_change:
  assumes "compare_item E before wanted spec current s = (Inr (Change_Item it c), t)"
  shows "t = s \<and> it = ch_item c \<and> ch_before c = current \<and> current = last_deployed before \<and>
    ch_after c = (if wanted then di_value spec else Gone) \<and> ch_before c \<noteq> ch_after c \<and>
    it = spec\<lparr>di_value := ch_after c\<rparr>"
  using assms unfolding compare_item_def Let_def last_deployed_def
  by (auto simp: result_simps dest!: target_read_same split: if_splits option.splits)

lemma shows_item_place:
  assumes "di_path a = di_path b" "di_selector a = di_selector b" "di_codec a = di_codec b"
  shows "shows_item E d a = shows_item E d b"
proof -
  have "fielded a = fielded b" "selects a = selects b"
    using assms by (simp_all add: fielded_def selects_def selector_text_def)
  then have "fielded a = fielded b" "shown_in doc a = shown_in doc b" for doc by (simp_all add: shown_in_def)
  with assms show ?thesis unfolding shows_item_def Let_def by (simp split: option.split)
qed

lemma shows_item_updates [simp]:
  "shows_item E d (it\<lparr>di_value := v\<rparr>) = shows_item E d it" "shows_item E d (it\<lparr>di_parents := ps\<rparr>) = shows_item E d it"
  by (rule shows_item_place; simp)+

lemma keeps_compare_item [preserved]: "keeps P (compare_item E before wanted spec current)"
  unfolding compare_item_def Let_def by (intro preserved keeps_option) (auto split: prod.splits intro!: preserved)

lemma keeps_document_at [preserved]: "keeps P (document_at E p k)"
  unfolding document_at_def by (intro preserved keeps_option) (auto split: prod.splits intro!: preserved)

text \<open>The item a key is compared with: the wanted one or else the one deployed last, with its parents.\<close>

lemma plan_spec:
  assumes "(if fielded x
      then (case before of
              Some b \<Rightarrow> returnS (x\<lparr>di_parents := di_parents b\<rparr>)
            | None \<Rightarrow> bindS (document_at E (di_path x) (di_codec x)) (\<lambda>doc.
                bindS (liftS (missing_parents doc (selector_text x))) (\<lambda>ps. returnS (x\<lparr>di_parents := ps\<rparr>))))
      else returnS x) s = (Inr spec, t)"
  shows "t = s \<and> (\<exists>ps. spec = x\<lparr>di_parents := ps\<rparr>)"
proof -
  have d: "u = s" if "document_at E p k s = (r, u)" for p k r u
    using keepsD [OF keeps_document_at [of "\<lambda>v. v = s"] refl that] .
  have "\<exists>ps. x = x\<lparr>di_parents := ps\<rparr>" by (rule exI [of _ "di_parents x"]) simp
  then show ?thesis
    using assms d by (auto simp: result_simps split: if_splits option.splits)
qed

lemma plan_key_change:
  assumes r: "plan_key E st before wanted s = (Inr (Change_Item it c), t)" and h: "reachable (de_target E) (dp_target s)"
  shows "t = s \<and> ch_item c = it \<and> ch_before c = last_deployed before \<and> ch_after c = wanted_value wanted \<and>
    ch_before c \<noteq> ch_after c \<and> shows_item E (dp_target s) it = Some (ch_before c)"
proof -
  define spec0 where "spec0 = (case wanted of Some w \<Rightarrow> Some w | None \<Rightarrow> before)"
  obtain x where x: "spec0 = Some x"
    using r by (cases spec0) (auto simp: plan_key_def spec0_def result_simps split: option.splits)
  obtain spec u cur v where
      first: "(if fielded x
      then (case before of
              Some b \<Rightarrow> returnS (x\<lparr>di_parents := di_parents b\<rparr>)
            | None \<Rightarrow> bindS (document_at E (di_path x) (di_codec x)) (\<lambda>doc.
                bindS (liftS (missing_parents doc (selector_text x))) (\<lambda>ps. returnS (x\<lparr>di_parents := ps\<rparr>))))
      else returnS x) s = (Inr spec, u)"
    and shown: "projection E (case before of Some b \<Rightarrow> b | None \<Rightarrow> spec) u = (Inr cur, v)"
    and rest: "(case before of
            Some b \<Rightarrow>
              if di_codec b \<noteq> di_codec spec \<or> di_ownership b \<noteq> di_ownership spec \<or> di_selector b \<noteq> di_selector spec \<or> di_path b \<noteq> di_path spec
              then returnS Conflicting
              else if di_ownership spec = Initialize then returnS (Keep_Item b)
              else compare_item E before (wanted \<noteq> None) spec cur
          | None \<Rightarrow>
              bindS (target_read E (di_path spec)) (\<lambda>raw.
              case raw of
                 Some (c, m, i) \<Rightarrow>
                   if known_path st spec \<and> cur \<noteq> Gone \<and> di_ownership spec = Initialize
                   then returnS (Keep_Item (spec\<lparr>di_value := Gone\<rparr>))
                   else if snd (snd i) \<noteq> 0 \<and> (\<not> known_path st spec \<or> cur \<noteq> Gone)
                   then returnS Conflicting
                   else compare_item E None True spec cur
               | None \<Rightarrow> compare_item E None True spec cur)) v = (Inr (Change_Item it c), t)"
    using r x unfolding plan_key_def spec0_def [symmetric] x option.case bindS_eq_Inr ensureS_eq by blast
  from plan_spec [OF first] obtain ps where u: "u = s" and spec: "spec = x\<lparr>di_parents := ps\<rparr>" by blast
  from shown u have v: "v = s" using projection_same by blast
  from shown u h have sh: "shows_item E (dp_target s) (case before of Some b \<Rightarrow> b | None \<Rightarrow> spec) = Some cur"
    by (simp add: projection_shows)
  show ?thesis
  proof (cases before)
    case None
    with x spec0_def have w: "wanted = Some x" by (auto split: option.splits)
    obtain raw u' where read: "target_read E (di_path spec) s = (Inr raw, u')"
      and branch: "(case raw of
                 Some (c, m, i) \<Rightarrow>
                   if known_path st spec \<and> cur \<noteq> Gone \<and> di_ownership spec = Initialize
                   then returnS (Keep_Item (spec\<lparr>di_value := Gone\<rparr>))
                   else if snd (snd i) \<noteq> 0 \<and> (\<not> known_path st spec \<or> cur \<noteq> Gone)
                   then returnS Conflicting
                   else compare_item E None True spec cur
               | None \<Rightarrow> compare_item E None True spec cur) u' = (Inr (Change_Item it c), t)"
      using rest unfolding None v option.case bindS_eq_Inr by blast
    from read have "u' = s" by (rule target_read_same)
    with branch have "compare_item E None True spec cur s = (Inr (Change_Item it c), t)"
      by (cases raw) (simp_all add: result_simps split: prod.splits if_splits)
    from compare_change [OF this] sh None w spec show ?thesis by (auto simp: wanted_value_def)
  next
    case (Some b)
    with rest v have k: "compare_item E before (wanted \<noteq> None) spec cur s = (Inr (Change_Item it c), t)"
      and same: "di_path spec = di_path b" "di_selector spec = di_selector b" "di_codec spec = di_codec b"
      by (auto simp: result_simps split: if_splits)
    have "shows_item E (dp_target s) spec = Some cur" using sh Some shows_item_place [OF same] by simp
    moreover have "(if wanted \<noteq> None then di_value spec else Gone) = wanted_value wanted"
      using x spec by (auto simp: wanted_value_def spec0_def split: option.splits)
    ultimately show ?thesis using compare_change [OF k] by auto
  qed
qed

lemma keeps_plan_key [preserved]: "keeps P (plan_key E st before wanted)"
  unfolding plan_key_def
  by (intro preserved keeps_option) (auto split: prod.splits option.splits intro!: preserved keeps_option)

lemma plan_keys_change:
  assumes "plan_keys E st previous wanted ks s = (Inr vs, t)" "reachable (de_target E) (dp_target s)" "(k, Change_Item it c) \<in> set vs"
  shows "ch_item c = it \<and> ch_before c = last_deployed (map_of previous k) \<and> ch_after c = wanted_value (map_of wanted k) \<and>
    ch_before c \<noteq> ch_after c \<and> shows_item E (dp_target s) it = Some (ch_before c)"
  using assms
proof (induction ks arbitrary: vs)
  case Nil
  then show ?case by (simp add: result_simps)
next
  case (Cons l ks)
  from Cons.prems(1) obtain v u ws where v: "plan_key E st (map_of previous l) (map_of wanted l) s = (Inr v, u)"
    and ws: "plan_keys E st previous wanted ks u = (Inr ws, t)" "vs = (l, v) # ws"
    by (auto simp: result_simps)
  have u: "u = s" by (rule keepsD [OF keeps_plan_key [of "\<lambda>x. x = s"] refl v])
  show ?case
  proof (cases "(k, Change_Item it c) \<in> set ws")
    case True
    with Cons.IH [OF ws(1) [unfolded u] Cons.prems(2)] show ?thesis by blast
  next
    case False
    with Cons.prems(3) ws(2) have "k = l" "v = Change_Item it c" by auto
    with plan_key_change [OF _ Cons.prems(2), of st "map_of previous l" "map_of wanted l" it c u] v show ?thesis by auto
  qed
qed

lemma keeps_plan_keys [preserved]: "keeps P (plan_keys E st previous wanted ks)"
  by (induction ks) (simp_all add: preserved)

text \<open>C16: a plan changes nothing that the manager did not put there.  The value each of its changes
  takes up is the one the item has now, it is the one deployed last (absent, where nothing was
  deployed), it differs from the one wanted, and planning changes nothing itself.\<close>

theorem plan_takes_own_values:
  assumes "deploy_plan E st cn binding la s = (Inr pl, t)" "reachable (de_target E) (dp_target s)"
  shows "t = s \<and> (\<exists>wanted. desired_items E cn = Inr wanted \<and>
    (\<forall>c\<in>set (pl_changes pl). shows_item E (dp_target s) (ch_item c) = Some (ch_before c) \<and> ch_before c \<noteq> ch_after c \<and>
      (\<exists>k. ch_before c = last_deployed (map_of (previous_items st) k) \<and> ch_after c = wanted_value (map_of wanted k))))"
proof -
  from assms(1) obtain wanted vs ks where w: "desired_items E cn = Inr wanted"
    and vs: "plan_keys E st (previous_items st) wanted ks s = (Inr vs, t)"
    and pl: "pl_changes pl = collect (\<lambda>(k, v). verdict_change v) vs"
    by (auto simp: deploy_plan_def Let_def result_simps)
  have "t = s" by (rule keepsD [OF keeps_plan_keys [of "\<lambda>x. x = s"] refl vs])
  moreover have "\<exists>k it. (k, Change_Item it c) \<in> set vs" if "c \<in> set (pl_changes pl)" for c
  proof -
    from that pl obtain k v where "(k, v) \<in> set vs" "verdict_change v = Some c" by (auto simp: collect_def)
    then show ?thesis by (cases v) auto
  qed
  ultimately show ?thesis using w plan_keys_change [OF vs assms(2)] by metis
qed

section \<open>Rollback\<close>

lemma no_pending:
  assumes "recover_deployment E prep s = (Inr b, t)" "pending_at s = None"
  shows "t = s"
proof -
  obtain a d where a: "tree_read (de_state E) pending_file None (dp_state s) = (a, d)" by fastforce
  then have d: "d = dp_state s" by (rule read_keeps_disk)
  show ?thesis
  proof (cases a)
    case (Inl e)
    with a d assms(1) show ?thesis by (simp add: recover_deployment_def bindS_def on_state_def)
  next
    case (Inr x)
    have "x = None"
    proof (rule ccontr)
      assume "x \<noteq> None"
      then obtain y where y: "x = Some (fst y, fst (snd y), snd (snd y))" by auto
      with tree_read_Some [of "de_state E" pending_file None "dp_state s" "fst y" "fst (snd y)" "snd (snd y)" d] a Inr assms(2)
      show False by auto
    qed
    with a d Inr assms(1) show ?thesis by (simp add: recover_deployment_def bindS_def on_state_def returnS_eq)
  qed
qed

lemma all_shown_reverse [simp]:
  "all_shown E ch_before (map reverse_change cs) d = all_shown E ch_after cs d"
  "all_shown E ch_after (map reverse_change cs) d = all_shown E ch_before cs d"
  by (simp_all add: all_shown_def) (simp add: reverse_change_def)

lemma saved_owner: "saved_at f = Some st \<Longrightarrow> \<exists>ow. sv_owner st = Some ow"
  by (auto simp: saved_at_def blank_saved_def normalize_state_def split: option.splits if_splits state_body.splits)

lemma keeps_reverse_checks [preserved]:
  "keeps P (each_item (\<lambda>c. bindS (liftS (transition_guard (ch_before_guard c) (di_guard (ch_item c)))) (\<lambda>g.
     bindS (projection E ((ch_item c)\<lparr>di_guard := g\<rparr>)) (\<lambda>v. ensureS (v = ch_before c \<or> v = ch_after c) Store_Conflict))) cs)"
  by (intro keeps_each_item preserved)

lemma rollback_deployable:
  assumes "saved_at (state_file s) = Some old" "sv_previous old = Some (m, backup)"
    and "codecs_ok E" "spread backup" "list_all change_fits backup" "all_shown E ch_after backup (dp_target s)"
    and "reachable (de_target E) (dp_target s)" "reachable (de_state E) (dp_state s)" "pending_at s = None"
  shows "deployable E \<lparr>sv_current = m, sv_previous = None, sv_owner = sv_owner old\<rparr> (map reverse_change backup) s"
proof -
  have "spread (map reverse_change backup)" using directed_fits(1) [of True backup] assms(4) by (simp add: directed_def)
  moreover have "old \<noteq> normalize_state \<lparr>sv_current = m, sv_previous = None, sv_owner = sv_owner old\<rparr>"
  proof
    assume "old = normalize_state \<lparr>sv_current = m, sv_previous = None, sv_owner = sv_owner old\<rparr>"
    then have "sv_previous old = None" by (metis normalize_owner(2) saved.select_convs(2))
    with assms(2) show False by simp
  qed
  ultimately show ?thesis using assms by (simp add: deployable_def list_all_iff)
qed


end
