(* ===== verification/Deploy_Sample.thy ===== *)
theory Deploy_Sample
  imports Deploy_Plan
begin

text \<open>
  Samples of a deployment that dies while it writes, of the plan before it and of the rollback after it,
  on files whose codec is the identity on canonical documents.
\<close>

section \<open>A settings file with one managed field\<close>

definition plain_codec :: "(json \<Rightarrow> json option) \<times> (json \<Rightarrow> json \<times> nat)" where
  "plain_codec = (\<lambda>v. if canonical v then Some v else None, \<lambda>v. (v, 1))"

definition field_env :: "json deploy_env" where
  "field_env = \<lparr>de_codecs = \<lambda>k. if k = ''json'' then Some plain_codec else None, de_json = Some, de_length = \<lambda>_. 1,
     de_size = \<lambda>_. 1, de_target = Some 5, de_state = Some 5\<rparr>"

definition bare_disk :: "(string list \<times> 'c stored) list \<Rightarrow> outcome list \<Rightarrow> 'c disk" where
  "bare_disk fs q = \<lparr>user = 7, top = Some \<lparr>downer = 7, dmode = 448, inode = 5\<rparr>, dirs = [], files = fs, clock = 9, faults = q\<rparr>"

definition plain_file :: "'c \<Rightarrow> 'c stored" where
  "plain_file b = \<lparr>body = b, nbytes = 1, fmode = 384, stamp = 3, regular = True, links = 1, fowner = 7\<rparr>"

definition field_item :: "string \<Rightarrow> json ditem" where
  "field_item v = \<lparr>di_path = ''set'', di_selector = Some ''/a'', di_codec = ''json'', di_ownership = Own_Fields,
     di_guard = None, di_parents = [], di_value = Field (JStr v)\<rparr>"

definition field_change :: "json change" where
  "field_change = \<lparr>ch_item = field_item ''new'', ch_before = Field (JStr ''old''), ch_after = Field (JStr ''new''),
     ch_created_file = False, ch_parents = [], ch_before_guard = None\<rparr>"

definition field_version :: "string \<Rightarrow> json manifest" where
  "field_version v = \<lparr>mf_generation = v, mf_binding = JNull, mf_launch = \<lparr>la_shared = None, la_rest = JNull\<rparr>,
     mf_items = [(item_key (field_item v), field_item v)]\<rparr>"

definition field_owner :: "deploy_owner option option" where
  "field_owner = Some (Some \<lparr>ow_binding = JNull, ow_shared = [''set'']\<rparr>)"

definition old_saved :: "json saved" where
  "old_saved = \<lparr>sv_current = Some (field_version ''old''), sv_previous = None, sv_owner = field_owner\<rparr>"

definition new_saved :: "json saved" where
  "new_saved = \<lparr>sv_current = Some (field_version ''new''), sv_previous = Some (Some (field_version ''old''), [field_change]), sv_owner = field_owner\<rparr>"

definition field_at :: "string \<Rightarrow> json saved \<Rightarrow> outcome list \<Rightarrow> outcome list \<Rightarrow> json deploy" where
  "field_at v st q w = \<lparr>dp_target = bare_disk [([''set''], plain_file (JObj [(''a'', JStr v), (''b'', JStr ''mine'')]))] q,
     dp_state = bare_disk [([''deployment.json''], plain_file (Saved_Body st))] w\<rparr>"

lemma codecs_plain: "codecs_ok field_env"
  by (auto simp: codecs_ok_def field_env_def plain_codec_def split: if_splits)

lemma bare_reachable: "list_all (\<lambda>(p, f). length p = 1) fs \<Longrightarrow> reachable (Some 5) (bare_disk fs q)"
proof -
  assume a: "list_all (\<lambda>(p, f). length p = 1) fs"
  have "\<exists>fd. tree_parent (Some 5) False p (bare_disk fs q) = (Inr fd, bare_disk fs q)" if "lookup_file p (bare_disk fs q) = Some f" for p f
  proof -
    from that have "(p, f) \<in> set fs" by (auto simp: lookup_file_def bare_disk_def dest: map_of_SomeD)
    with a obtain x where "p = [x]" by (auto simp: list_all_iff length_Suc_conv)
    then show ?thesis by (simp add: tree_parent_def bare_disk_def bindS_def liftS_def path_result_def check_ancestor_def)
  qed
  then show ?thesis by (simp add: reachable_def)
qed

lemma field_deployable: "deployable field_env new_saved [field_change] (field_at ''old'' old_saved q w)"
proof -
  have r: "reachable (Some 5) (dp_target (field_at ''old'' old_saved q w))" "reachable (Some 5) (dp_state (field_at ''old'' old_saved q w))"
    unfolding field_at_def by (simp_all add: bare_reachable)
  have "pointer (selector_text (ch_item field_change)) = Inr [''a'']" "fielded (ch_item field_change)" "ch_parents field_change = []" by code_simp+
  then have "list_all change_fits [field_change]" by (simp add: change_fits_def parents_above_def) (simp add: field_change_def)
  moreover have "saved_at (state_file (field_at ''old'' old_saved q w)) \<noteq> Some (normalize_state new_saved)" by code_simp
  moreover have "pending_at (field_at ''old'' old_saved q w) = None" by code_simp
  moreover have "shows_item field_env (dp_target (field_at ''old'' old_saved q w)) (ch_item field_change) = Some (ch_before field_change)" by code_simp
  ultimately show ?thesis using r codecs_plain by (simp add: deployable_def all_shown_def field_env_def)
qed

text \<open>The process dies when the written file is not acknowledged; a recovery dies too; the next one succeeds.\<close>

definition dead_deploy :: "(store_error + unit) \<times> json deploy" where
  "dead_deploy = transact_deployment field_env True None old_saved new_saved [field_change] (field_at ''old'' old_saved [Done, Unacked] [])"

definition retried_deploy :: "(store_error + bool) \<times> json deploy" where
  "retried_deploy = recover_deployment field_env None (new_faults [Lost] [] (snd dead_deploy))"

definition mended_deploy :: "(store_error + bool) \<times> json deploy" where
  "mended_deploy = recover_deployment field_env None (new_faults [] [] (snd retried_deploy))"

lemma quiet_None [simp]: "quiet None"
  by (simp add: quiet_def)

lemma mended_recoveries: "deploy_recoveries field_env (snd dead_deploy) (snd mended_deploy)"
proof -
  have one: "deploy_recoveries field_env (snd dead_deploy) (snd retried_deploy)"
    by (rule deploy_recoveries.again [OF deploy_recoveries.none quiet_None]) (simp add: retried_deploy_def prod_eq_iff)
  show ?thesis
    by (rule deploy_recoveries.again [OF one quiet_None]) (simp add: mended_deploy_def prod_eq_iff)
qed

lemma dead_run:
  "fst dead_deploy = Inl IO_Failure" "fst retried_deploy = Inl IO_Failure" "fst mended_deploy = Inr True"
  by code_simp+

lemma dead_result: "transact_deployment field_env True None old_saved new_saved [field_change] (field_at ''old'' old_saved [Done, Unacked] []) =
    (Inl IO_Failure, snd dead_deploy)"
  using dead_run(1) by (simp add: dead_deploy_def prod_eq_iff)

lemma field_group: "group_of ''set'' [field_change] = [field_change]"
  by code_simp



section \<open>Its plan and its rollback\<close>

definition field_candidate :: "json deploy_candidate" where
  "field_candidate = \<lparr>cn_generation = ''new'', cn_artifacts = [\<lparr>na_path = ''set'', na_selector = Some ''/a'', na_codec = ''json'',
     na_ownership = Own_Fields, na_tokens = [], na_content = JStr ''new'', na_mode = 384\<rparr>]\<rparr>"

definition field_plan :: "(store_error + json planned_deploy) \<times> json deploy" where
  "field_plan = deploy_plan field_env old_saved field_candidate JNull \<lparr>la_shared = None, la_rest = JNull\<rparr> (field_at ''old'' old_saved [] [])"

definition planned_changes :: "json planned_deploy" where
  "planned_changes = (case fst field_plan of Inr pl \<Rightarrow> pl
     | Inl e \<Rightarrow> \<lparr>pl_current = field_version ''none'', pl_changes = [], pl_drift = [], pl_conflicts = []\<rparr>)"

lemma field_plan_result:
  "deploy_plan field_env old_saved field_candidate JNull \<lparr>la_shared = None, la_rest = JNull\<rparr> (field_at ''old'' old_saved [] []) =
     (Inr planned_changes, snd field_plan)"
proof -
  have "\<not> (case fst field_plan of Inl e \<Rightarrow> True | Inr pl \<Rightarrow> False)" by code_simp
  then show ?thesis by (simp add: planned_changes_def field_plan_def prod_eq_iff split: sum.splits)
qed

lemma field_reachable: "reachable (de_target field_env) (dp_target (field_at v st q w))" "reachable (de_state field_env) (dp_state (field_at v st q w))"
  unfolding field_at_def by (simp_all add: field_env_def bare_reachable)

theorem plan_takes_own_values_witness:
  "pl_changes planned_changes = [field_change] \<and>
   shows_item field_env (dp_target (field_at ''old'' old_saved [] [])) (ch_item field_change) = Some (ch_before field_change) \<and>
   (\<exists>k. ch_before field_change = last_deployed (map_of (previous_items old_saved) k))"
proof -
  have "pl_changes planned_changes = [field_change]" by code_simp
  with plan_takes_own_values [OF field_plan_result field_reachable(1)] show ?thesis by auto
qed

definition rolled_back :: "(store_error + nat) \<times> json deploy" where
  "rolled_back = deploy_rollback field_env False None JNull (field_at ''new'' new_saved [] [])"


section \<open>A field inside a field that leaves\<close>

text \<open>
  A new version manages a field inside one that the version before managed as a whole: \<open>desired_items\<close>
  compares only the wanted items with one another, so the plan holds both changes.
\<close>

definition outer_item :: "json ditem" where
  "outer_item = (field_item ''old'')\<lparr>di_value := Field (JObj [(''x'', JStr ''old'')])\<rparr>"

definition outer_saved :: "json saved" where
  "outer_saved = \<lparr>sv_current = Some ((field_version ''old'')\<lparr>mf_items := [(item_key outer_item, outer_item)]\<rparr>), sv_previous = None, sv_owner = field_owner\<rparr>"

definition inner_candidate :: "json deploy_candidate" where
  "inner_candidate = \<lparr>cn_generation = ''new'', cn_artifacts = [\<lparr>na_path = ''set'', na_selector = Some ''/a/b'', na_codec = ''json'',
     na_ownership = Own_Fields, na_tokens = [], na_content = JStr ''new'', na_mode = 384\<rparr>]\<rparr>"

definition inner_request :: "json deploy_request" where
  "inner_request = \<lparr>rq_candidate = inner_candidate, rq_binding = JNull, rq_launch = \<lparr>la_shared = None, la_rest = JNull\<rparr>,
     rq_expected = None, rq_guard = None, rq_prepare = None\<rparr>"

definition outer_start :: "outcome list \<Rightarrow> json deploy" where
  "outer_start q = \<lparr>dp_target = bare_disk [([''set''], plain_file (JObj [(''a'', JObj [(''x'', JStr ''old'')])]))] q,
     dp_state = bare_disk [([''deployment.json''], plain_file (Saved_Body outer_saved))] []\<rparr>"

definition inner_deployed :: "(store_error + json planned_deploy) \<times> json deploy" where
  "inner_deployed = deploy_apply field_env False inner_request (outer_start [])"

definition inner_dead :: "(store_error + json planned_deploy) \<times> json deploy" where
  "inner_dead = deploy_apply field_env True inner_request (outer_start [Done, Unacked])"

lemma inner_run: "\<not> (case fst inner_deployed of Inl e \<Rightarrow> True | Inr pl \<Rightarrow> False)"
    "deploy_rollback field_env False None JNull (snd inner_deployed) = (Inl Store_Conflict, snd inner_deployed)"
  by code_simp+


end
