(* ===== verification/Spec2Isabelle.thy ===== *)
theory Spec2Isabelle
  imports Work_Safety Git_State Dsh_Plan Release_Wait Setup_Sample Deploy_Sample
begin

text \<open>
  A verification development of Rotom, a manager of the configuration and of the work of terminal
  agents (\<open>src/src\<close>): \<open>agentcfg\<close> renders and deploys the configuration of agents and coordinates
  their runs, \<open>termcfg\<close> manages files of the home directory and the records of work in terminals.

  \<^bold>\<open>The program.\<close> All durable state is small JSON files in private directories.  A run of an agent
  reserves resources in a coordination file and registers its owner; a maintenance asks for a batch of
  runs to be stopped, waits for their release, and only then lets a setup change the configuration.
  A deployment merges rendered fields into the native files of an agent.  A public configuration
  transaction replaces files of the home directory behind a journal.  The work state keeps one intent
  and its receipt for every operation on a terminal session.

  \<^bold>\<open>Foundations.\<close>
  \<^item> \<open>Rotom_Prelude\<close>: results, state passing, \<open>keeps\<close> and the locale \<open>phase_machine\<close> for tables of phases
    with a rank; \<open>Triples\<close>: triples for operations that may break anywhere.
  \<^item> \<open>Json_Codec\<close>, \<open>Json_Schema\<close>: the canonical encoder behind every digest, proved injective on canonical
    documents, and the schema checks.  SHA-256 is a parameter; where a proof needs it to be injective it
    says so.
  \<^item> \<open>Path_Rules\<close> (\<open>agentcfg/paths.py\<close>): lexical path rules.
  \<^item> \<open>Private_Store\<close> (\<open>agentcfg/storage.py\<close>): a directory tree with identities, reads, replacement by
    compare and swap, new and immutable files.  A disk carries a queue of outcomes, so that every change
    may be lost or may happen without an acknowledgement.  The locales \<open>acknowledged_write\<close> and
    \<open>immutable_write\<close> state what a write promises and are interpreted on all four writes.
  \<^item> \<open>Deadlines\<close> (\<open>control_deadline.py\<close>, \<open>stop_locks.py\<close>): budgets and lock waits over the readings of a clock.

  \<^bold>\<open>Plans, batches and runs\<close> (\<open>agentcfg/maintenance*.py\<close>, \<open>run_owners.py\<close>).
  \<^item> \<open>Stop_Plan\<close>, \<open>Dsh_Plan\<close>: both versions of stop plans with schema, normal form and builders.
  \<^item> \<open>Maintenance_Batch\<close>, \<open>Maintenance_Flow\<close>, \<open>Maintenance_Setup\<close>: the record of a batch, its validity, and
    every operation on it from acceptance to the handover of the setup; \<open>Batch_Life\<close> lifts them to the
    coordination file (locales \<open>progress_keeper\<close>, \<open>batch_writer\<close>) and refines them to an abstract life of
    a batch; \<open>Batch_Sample\<close> holds concrete runs.
  \<^item> \<open>Release_Wait\<close>: the three waits with one shared deadline.  Rounds are counted by a fuel; \<open>None\<close> is a
    wait that has not ended, and a wait is shown to end as soon as a clock reading passes its deadline.
  \<^item> \<open>Owner_Records\<close>, \<open>Owner_Registry\<close>, \<open>Owner_Links\<close>: the record of a run, the registry with its fence,
    and the links between reservations and owners (\<open>resource_owners.py\<close>).

  \<^bold>\<open>Coordination of resources\<close> (\<open>resource_protocol.py\<close>, \<open>resource_coordination.py\<close>, \<open>resource_scopes.py\<close>,
  \<open>maintenance_store.py\<close>, \<open>lifecycle.py\<close>).
  \<^item> \<open>Resource_Domain\<close>: the state of a domain with its semantic validation; \<open>Domain_Operations\<close>: the
    transaction and the operations on reservations and intents; \<open>Scope_Claims\<close>, \<open>Stop_Acceptance\<close>,
    \<open>Omp_Launch\<close>: the other writers.  The locale \<open>domain_writer\<close> states the contract of a change and is
    interpreted on every one of them.
  \<^item> \<open>Coordination_World\<close>, \<open>Coordination_Safety\<close>: all of them as steps of one system of processes over the
    two files, with the invariants that no run starts on a resource under maintenance and that a released
    reservation has an idle run, whatever the order of steps and wherever a write breaks.

  \<^bold>\<open>Work\<close> (\<open>termcfg/work_state.py\<close>).
  \<^item> \<open>Work_Records\<close>, \<open>Work_State\<close>, \<open>Work_Safety\<close>: bindings, intents, receipts and compaction; one outstanding
    operation per owner, receipts that only move forward.  \<open>Git_State\<close>: the records of Git operations.

  \<^bold>\<open>Public configuration\<close> (\<open>termcfg/home_targets.py\<close>, \<open>state.py\<close>, \<open>transaction.py\<close>, \<open>preview.py\<close>).
  \<^item> \<open>Home_Targets\<close>: the home directory as a table of nodes, every effect of which may break before or after
    it happened; \<open>Config_Journal\<close>: state and journal; \<open>Config_Transaction\<close>: backups, replacement, recovery
    and rollback; \<open>Config_Apply\<close>: previews, approvals and apply.
  \<^item> \<open>Config_Invariant\<close>, \<open>Config_Replace\<close>, \<open>Config_Recovery\<close>, \<open>Config_Preparation\<close>, \<open>Config_Safety\<close>,
    \<open>Config_Rollback\<close>: the proof that apply and rollback are atomic under any number of broken recoveries;
    \<open>Config_Sample\<close>, \<open>Setup_Sample\<close>: concrete runs.

  \<^bold>\<open>Deployment\<close> (\<open>agentcfg/deployment.py\<close>, \<open>native_projection.py\<close>).
  \<^item> \<open>Native_Fields\<close>: fields of native documents, guards of credential references, items and changes, with
    the laws of reading back what was put; \<open>Deployment\<close>: the three-way plan, the writing of changes, the
    pending record, recovery, apply and rollback.
  \<^item> \<open>Deploy_Files\<close>: what the writing of changes does to files, other fields and other files;
    \<open>Deploy_Safety\<close>: a transaction is atomic under any number of broken recoveries and keeps what is not
    managed; \<open>Deploy_Plan\<close>: a plan takes up only its own values and a rollback restores;
    \<open>Deploy_Sample\<close>: concrete runs, and a pair of nested changes that a recovery cannot take back.

  \<^bold>\<open>What is a parameter.\<close>  Digests, codecs of native files, the readings of clocks, identities of
  processes, the evidence of the kernel, and the set-up that a batch runs are arguments of the definitions.
  The bytes of a JSON file are modelled as the document they decode to, together with their length.

  \<^bold>\<open>What is not modelled.\<close>  The merging of TOML layers and the rendering of each host, the adapters
  of third-party hosts with their process observation, downloads and archives, the conversation with the
  Herdr server, command lines, dialogues and printed output.  Locks are taken by the callers: each operation
  is one step under its lock, and interleaving is over such steps.  The creation of private directory chains
  and the decoder of JSON bytes are left to the platform.
\<close>

end
